(* ===== verification/Prelude.thy ===== *)
theory Prelude
  imports Main "HOL-Library.Char_ord" "HOL-Library.List_Lexorder" "HOL-Library.Product_Lexorder"
begin

text \<open>
  What every component shares: Python's blank strings, validators written as a list of
  guarded raises, results as sums, and the facts about lists of integers that describe
  a version chain \<open>1, 2, \<dots>, n\<close>.
  Python strings are \<open>string\<close>s of code points below 256; a Python exception is an
  \<open>Inl\<close> of a result.
\<close>

named_theorems contract_simps \<open>definitions that unfold a validator to its guards\<close>
named_theorems store_simps \<open>effects of one store operation on the tables\<close>

section \<open>Python strings\<close>

definition py_isspace :: "char \<Rightarrow> bool" where
  "py_isspace c \<longleftrightarrow> (let n = (of_char c :: nat) in
     9 \<le> n \<and> n \<le> 13 \<or> 28 \<le> n \<and> n \<le> 32 \<or> n = 133 \<or> n = 160)"

definition py_strip :: "string \<Rightarrow> string" where
  "py_strip s = rev (dropWhile py_isspace (rev (dropWhile py_isspace s)))"

definition blank :: "string \<Rightarrow> bool" where
  "blank s \<longleftrightarrow> py_strip s = []"

lemma blank_iff: "blank s \<longleftrightarrow> (\<forall>c \<in> set s. py_isspace c)"
proof -
  have "py_strip s = [] \<longleftrightarrow> (\<forall>c \<in> set (dropWhile py_isspace s). py_isspace c)"
    by (simp add: py_strip_def)
  also have "\<dots> \<longleftrightarrow> (\<forall>c \<in> set s. py_isspace c)"
    by (induction s) auto
  finally show ?thesis by (simp add: blank_def)
qed

lemma blank_Nil [simp]: "blank []"
  by (simp add: blank_iff)

lemma blank_Cons [simp]: "blank (c # s) \<longleftrightarrow> py_isspace c \<and> blank s"
  by (simp add: blank_iff)

lemma dropWhile_all_iff: "(\<forall>c \<in> set (dropWhile P s). P c) \<longleftrightarrow> (\<forall>c \<in> set s. P c)"
  by (induction s) auto

lemma blank_strip [simp]: "blank (py_strip s) \<longleftrightarrow> blank s"
  using dropWhile_all_iff [of py_isspace s]
    dropWhile_all_iff [of py_isspace "rev (dropWhile py_isspace s)"]
  by (simp add: blank_iff py_strip_def)

lemma py_strip_idem: "py_strip (py_strip s) = py_strip s"
proof -
  let ?t = "dropWhile py_isspace s"
  let ?u = "rev (dropWhile py_isspace (rev ?t))"
  have "?t = ?u @ rev (takeWhile py_isspace (rev ?t))"
    by (metis rev_append rev_rev_ident takeWhile_dropWhile_id)
  then have "?u = [] \<or> hd ?u = hd ?t \<and> ?t \<noteq> []" by (metis append_is_Nil_conv hd_append2)
  then have "?u = [] \<or> \<not> py_isspace (hd ?u)" using hd_dropWhile [of py_isspace s] by metis
  then have "dropWhile py_isspace ?u = ?u" by (simp only: dropWhile_eq_self_iff)
  then show ?thesis by (simp add: py_strip_def)
qed

section \<open>Guarded raises and results\<close>

text \<open>
  A validator is a sequence of \<open>if cond: raise err\<close>; it is modelled by the list of its
  guards in source order, and the first one that holds decides.
\<close>

fun first_raise :: "(bool \<times> 'e) list \<Rightarrow> 'e option" where
  "first_raise [] = None"
| "first_raise ((c, e) # gs) = (if c then Some e else first_raise gs)"

definition raising :: "(bool \<times> 'e) list \<Rightarrow> 'a \<Rightarrow> 'e + 'a" where
  "raising gs x = (case first_raise gs of Some e \<Rightarrow> Inl e | None \<Rightarrow> Inr x)"

lemma first_raise_None_iff: "first_raise gs = None \<longleftrightarrow> (\<forall>(c, e) \<in> set gs. \<not> c)"
  by (induction gs rule: first_raise.induct) auto

lemma first_raise_Cons_None [simp]:
  "first_raise (g # gs) = None \<longleftrightarrow> \<not> fst g \<and> first_raise gs = None"
  by (cases g) simp

lemma first_raise_Cons_Some [simp]:
  "first_raise ((c, e) # gs) = Some x \<longleftrightarrow> (if c then x = e else first_raise gs = Some x)"
  by auto

declare first_raise.simps(2) [simp del]

lemma first_raise_append_None [simp]:
  "first_raise (gs @ hs) = None \<longleftrightarrow> first_raise gs = None \<and> first_raise hs = None"
  by (induction gs) auto

lemma first_raise_append:
  "first_raise (gs @ hs) = (case first_raise gs of None \<Rightarrow> first_raise hs | Some e \<Rightarrow> Some e)"
  by (induction gs rule: first_raise.induct) (auto simp: first_raise.simps)

lemma first_raise_Some_in: "first_raise gs = Some e \<Longrightarrow> (True, e) \<in> set gs"
  by (induction gs rule: first_raise.induct) (auto split: if_splits)

lemma raising_Inr_iff [simp]: "raising gs x = Inr y \<longleftrightarrow> y = x \<and> first_raise gs = None"
  by (auto simp: raising_def split: option.splits)

lemma raising_Inl_iff [simp]: "raising gs x = Inl e \<longleftrightarrow> first_raise gs = Some e"
  by (auto simp: raising_def split: option.splits)

definition result_bind :: "'e + 'a \<Rightarrow> ('a \<Rightarrow> 'e + 'b) \<Rightarrow> 'e + 'b" where
  "result_bind r f = (case r of Inl e \<Rightarrow> Inl e | Inr x \<Rightarrow> f x)"

lemma result_bind_simps [simp]:
  "result_bind (Inl e) f = Inl e" "result_bind (Inr x) f = f x"
  by (simp_all add: result_bind_def)

lemma result_bind_Inr_iff [simp]:
  "result_bind r f = Inr y \<longleftrightarrow> (\<exists>x. r = Inr x \<and> f x = Inr y)"
  by (cases r) auto

lemma result_bind_Inl_iff:
  "result_bind r f = Inl e \<longleftrightarrow> r = Inl e \<or> (\<exists>x. r = Inr x \<and> f x = Inl e)"
  by (cases r) auto

fun result_map :: "('a \<Rightarrow> 'e + 'b) \<Rightarrow> 'a list \<Rightarrow> 'e + 'b list" where
  "result_map f [] = Inr []"
| "result_map f (x # xs) =
     result_bind (f x) (\<lambda>y. result_bind (result_map f xs) (\<lambda>ys. Inr (y # ys)))"

lemma result_map_Inr_iff:
  "result_map f xs = Inr ys \<longleftrightarrow> list_all2 (\<lambda>x y. f x = Inr y) xs ys"
  by (induction xs arbitrary: ys) (auto simp: list_all2_Cons1)

lemma result_map_length: "result_map f xs = Inr ys \<Longrightarrow> length ys = length xs"
  by (simp add: result_map_Inr_iff list_all2_lengthD)

lemma list_all2_left: "list_all2 P xs ys \<Longrightarrow> x \<in> set xs \<Longrightarrow> \<exists>y \<in> set ys. P x y"
  by (induction xs ys rule: list_all2_induct) auto

lemma list_all2_right: "list_all2 P xs ys \<Longrightarrow> y \<in> set ys \<Longrightarrow> \<exists>x \<in> set xs. P x y"
  by (induction xs ys rule: list_all2_induct) auto

section \<open>Chains of versions\<close>

text \<open>\<open>MAX(column)\<close> of a query with no rows is NULL.\<close>

definition sql_max :: "int list \<Rightarrow> int option" where
  "sql_max xs = (if xs = [] then None else Some (Max (set xs)))"

definition next_version :: "int list \<Rightarrow> int" where
  "next_version xs = (case sql_max xs of None \<Rightarrow> 1 | Some m \<Rightarrow> m + 1)"

definition contiguous :: "int list \<Rightarrow> bool" where
  "contiguous xs \<longleftrightarrow> xs = map int [1 ..< Suc (length xs)]"

lemma contiguous_Nil [simp]: "contiguous []"
  by (simp add: contiguous_def)

lemma int_image_interval: "int ` {1 ..< Suc n} = {1 .. int n}"
proof
  show "{1 .. int n} \<subseteq> int ` {1 ..< Suc n}"
  proof
    fix i assume "i \<in> {1 .. int n}"
    then show "i \<in> int ` {1 ..< Suc n}" by (intro image_eqI [where x = "nat i"]) auto
  qed
qed auto

lemma contiguous_set: "contiguous xs \<Longrightarrow> set xs = {1 .. int (length xs)}"
  unfolding contiguous_def by (metis list.set_map set_upt int_image_interval)

lemma contiguous_next: "contiguous xs \<Longrightarrow> next_version xs = int (length xs) + 1"
proof (cases "xs = []")
  case False
  assume "contiguous xs"
  then have "set xs = {1 .. int (length xs)}" by (rule contiguous_set)
  moreover have "Max {1 .. int (length xs)} = int (length xs)"
    using False by (intro Max_eqI) (auto simp: Suc_le_eq)
  ultimately show ?thesis using False by (simp add: next_version_def sql_max_def)
qed (simp add: next_version_def sql_max_def)

lemma contiguous_snoc: "contiguous xs \<Longrightarrow> contiguous (xs @ [next_version xs])"
  by (simp add: contiguous_next) (simp add: contiguous_def)

lemma contiguous_distinct: "contiguous xs \<Longrightarrow> distinct xs"
  unfolding contiguous_def by (metis distinct_map distinct_upt inj_on_of_nat)

lemma contiguous_sorted: "contiguous xs \<Longrightarrow> sorted_wrt (<) xs"
proof -
  assume "contiguous xs"
  moreover have "sorted_wrt (<) (map int [1 ..< Suc n])" for n
    using sorted_wrt_upt [of 1 "Suc n"] by (simp only: sorted_wrt_map of_nat_less_iff)
  ultimately show ?thesis unfolding contiguous_def by metis
qed

section \<open>Last and first rows of a query\<close>

definition latest_by :: "('a \<Rightarrow> int) \<Rightarrow> 'a list \<Rightarrow> 'a option" where
  "latest_by f xs = (case sql_max (map f xs) of None \<Rightarrow> None
     | Some m \<Rightarrow> List.find (\<lambda>x. f x = m) xs)"

lemma sql_max_Some: "sql_max xs = Some m \<Longrightarrow> m \<in> set xs \<and> (\<forall>x \<in> set xs. x \<le> m)"
  by (auto simp: sql_max_def split: if_splits)

lemma sql_max_None [simp]: "sql_max xs = None \<longleftrightarrow> xs = []"
  by (simp add: sql_max_def)

lemma find_Some_in: "List.find P xs = Some x \<Longrightarrow> x \<in> set xs \<and> P x"
  by (auto simp: find_Some_iff)

lemma latest_by_None [simp]: "latest_by f xs = None \<longleftrightarrow> xs = []"
proof -
  have False if "xs \<noteq> []" "latest_by f xs = None"
  proof -
    from that(1) obtain m where m: "sql_max (map f xs) = Some m"
      by (cases "sql_max (map f xs)") (auto simp: sql_max_def split: if_splits)
    then have "\<exists>x \<in> set xs. f x = m" using sql_max_Some [OF m] by auto
    moreover from m that(2) have "List.find (\<lambda>x. f x = m) xs = None" by (simp add: latest_by_def)
    ultimately show False by (auto simp: find_None_iff)
  qed
  then show ?thesis by (auto simp: latest_by_def sql_max_def)
qed

lemma latest_by_Some:
  assumes "latest_by f xs = Some x"
  shows "x \<in> set xs \<and> (\<forall>y \<in> set xs. f y \<le> f x)"
proof -
  obtain m where m: "sql_max (map f xs) = Some m" and "List.find (\<lambda>x. f x = m) xs = Some x"
    using assms by (auto simp: latest_by_def split: option.splits)
  then have "x \<in> set xs" "f x = m" by (auto dest: find_Some_in)
  with m show ?thesis by (auto dest: sql_max_Some)
qed

end
