(* ===== verification/Enums.thy ===== *)
theory Enums
  imports Prelude
begin

text \<open>
  The enumerations of contracts/enums.py, one datatype per \<open>StrEnum\<close> with the members in
  the order of the source. A member \<open>X\<close> of an enumeration carries the enumeration's
  two-letter prefix, since several enumerations share member names. The texts of the
  members that other components compare or persist as TEXT follow at the end.
\<close>

datatype object_type =
  OT_OBSERVATION | OT_ENTITY | OT_RELATION | OT_DIMENSION_DEFINITION | OT_DIMENSION_MEMBERSHIP
  | OT_DIMENSION_DERIVATION | OT_CLAIM | OT_EVIDENCE_SET | OT_EVENT | OT_SUMMARY | OT_GOAL
  | OT_DEPENDENCY | OT_TASK | OT_WAKE | OT_SESSION | OT_ACTION | OT_OUTCOME
  | OT_OPERATION_EXPERIENCE | OT_TOOL_PROPOSAL | OT_PREDICTION | OT_LIFE_CHAPTER
  | OT_REINTERPRETATION | OT_COMMUNICATION_EXPERIENCE | OT_BUDGET_POLICY | OT_ASSEMBLY_POLICY
  | OT_COGNITIVE_POLICY | OT_NARRATIVE_SEGMENT | OT_DIMENSION_CURVE_POINT

primrec object_type_value :: "object_type \<Rightarrow> string" where
  "object_type_value OT_OBSERVATION = ''observation''"
| "object_type_value OT_ENTITY = ''entity''"
| "object_type_value OT_RELATION = ''relation''"
| "object_type_value OT_DIMENSION_DEFINITION = ''dimension_definition''"
| "object_type_value OT_DIMENSION_MEMBERSHIP = ''dimension_membership''"
| "object_type_value OT_DIMENSION_DERIVATION = ''dimension_derivation''"
| "object_type_value OT_CLAIM = ''claim''"
| "object_type_value OT_EVIDENCE_SET = ''evidence_set''"
| "object_type_value OT_EVENT = ''event''"
| "object_type_value OT_SUMMARY = ''summary''"
| "object_type_value OT_GOAL = ''goal''"
| "object_type_value OT_DEPENDENCY = ''dependency''"
| "object_type_value OT_TASK = ''task''"
| "object_type_value OT_WAKE = ''wake''"
| "object_type_value OT_SESSION = ''session''"
| "object_type_value OT_ACTION = ''action''"
| "object_type_value OT_OUTCOME = ''outcome''"
| "object_type_value OT_OPERATION_EXPERIENCE = ''operation_experience''"
| "object_type_value OT_TOOL_PROPOSAL = ''tool_proposal''"
| "object_type_value OT_PREDICTION = ''prediction''"
| "object_type_value OT_LIFE_CHAPTER = ''life_chapter''"
| "object_type_value OT_REINTERPRETATION = ''reinterpretation''"
| "object_type_value OT_COMMUNICATION_EXPERIENCE = ''communication_experience''"
| "object_type_value OT_BUDGET_POLICY = ''budget_policy''"
| "object_type_value OT_ASSEMBLY_POLICY = ''assembly_policy''"
| "object_type_value OT_COGNITIVE_POLICY = ''cognitive_policy''"
| "object_type_value OT_NARRATIVE_SEGMENT = ''narrative_segment''"
| "object_type_value OT_DIMENSION_CURVE_POINT = ''dimension_curve_point''"

datatype source_class =
  SC_USER | SC_SENSOR | SC_PLATFORM | SC_AI_COGNITION | SC_MAINTENANCE | SC_SAFETY

primrec source_class_value :: "source_class \<Rightarrow> string" where
  "source_class_value SC_USER = ''user''"
| "source_class_value SC_SENSOR = ''sensor''"
| "source_class_value SC_PLATFORM = ''platform''"
| "source_class_value SC_AI_COGNITION = ''ai_cognition''"
| "source_class_value SC_MAINTENANCE = ''maintenance''"
| "source_class_value SC_SAFETY = ''safety''"

datatype profile_name =
  PN_VIRTUAL | PN_BAND_V0

datatype maintenance_class =
  MC_STALE_MARK | MC_SUMMARY_REBUILD | MC_PRUNE | MC_INDEX_META | MC_POLICY_SYNC
  | MC_PERIODIC_REVIEW | MC_WAKE_SCHEDULER

datatype prediction_verification_state =
  PV_PENDING | PV_CORROBORATED | PV_FALSIFIED | PV_EXPIRED

datatype annotation_slot =
  AS_EMOTION | AS_MEANING | AS_IDENTITY_TAG

datatype user_reaction =
  UR_ACCEPTED | UR_RESISTED | UR_IGNORED | UR_UNKNOWN

datatype policy_class =
  PC_HARD_BOUNDARY | PC_ENGINEERING_PARAMETER | PC_COGNITIVE_POLICY

datatype budget_scope =
  BS_TURN | BS_DAY | BS_BACKGROUND_DAY | BS_MAINT_TASK | BS_BAND_INGEST

datatype budget_on_exceed =
  BX_CHECKPOINT | BX_DEGRADE_RULES | BX_DEFER_TO_IDLE | BX_HARD_DENY

datatype knowledge_state =
  KS_OBSERVED | KS_REPORTED | KS_INFERRED | KS_HYPOTHESIS | KS_UNKNOWN | KS_CONFLICT

datatype claim_type =
  CT_FACT | CT_OPINION | CT_BELIEF | CT_DESIRE | CT_INTENTION | CT_PLAN | CT_PREDICTION
  | CT_PROMISE | CT_PREFERENCE | CT_INFERENCE | CT_HYPOTHESIS

datatype evidence_role =
  ER_SUPPORT | ER_COUNTER | ER_CONTEXT

datatype event_status =
  ES_CANDIDATE | ES_ACTIVE | ES_RESOLVED | ES_REVISED | ES_REJECTED | ES_MERGED | ES_SPLIT

datatype dimension_lifecycle =
  DL_CANDIDATE | DL_TRIAL | DL_ACTIVE | DL_LOW_ACTIVITY | DL_DORMANT | DL_MERGED | DL_SPLIT
  | DL_REVISED | DL_REJECTED | DL_REACTIVATED | DL_ARCHIVED

datatype goal_status =
  GS_PROPOSED | GS_ACTIVE | GS_PAUSED | GS_ACHIEVED | GS_ABANDONED | GS_UNKNOWN

datatype goal_source_type =
  GT_USER_EXPLICIT | GT_USER_INFERRED | GT_AI_SELF | GT_APP | GT_EXTERNAL

datatype task_type =
  TT_IMMEDIATE | TT_SCHEDULED | TT_DEADLINE | TT_TODO | TT_RECURRING | TT_FOLLOW_UP
  | TT_OBSERVATION | TT_VERIFICATION | TT_MAINTENANCE | TT_APP

datatype task_state =
  TS_DRAFT | TS_READY | TS_RUNNING | TS_WAITING_TIME | TS_WAITING_EVIDENCE | TS_WAITING_USER
  | TS_WAITING_RESULT | TS_BLOCKED | TS_COMPLETED | TS_FAILED | TS_EXPIRED | TS_CANCELLED

primrec task_state_value :: "task_state \<Rightarrow> string" where
  "task_state_value TS_DRAFT = ''draft''"
| "task_state_value TS_READY = ''ready''"
| "task_state_value TS_RUNNING = ''running''"
| "task_state_value TS_WAITING_TIME = ''waiting_time''"
| "task_state_value TS_WAITING_EVIDENCE = ''waiting_evidence''"
| "task_state_value TS_WAITING_USER = ''waiting_user''"
| "task_state_value TS_WAITING_RESULT = ''waiting_result''"
| "task_state_value TS_BLOCKED = ''blocked''"
| "task_state_value TS_COMPLETED = ''completed''"
| "task_state_value TS_FAILED = ''failed''"
| "task_state_value TS_EXPIRED = ''expired''"
| "task_state_value TS_CANCELLED = ''cancelled''"

datatype attention_class =
  AC_INTERRUPT | AC_BACKGROUND | AC_REVIEW_QUEUE

datatype wake_source =
  WS_MECHANICAL_CHANGE | WS_KEYWORD_ENTITY | WS_NO_UPDATE | WS_TASK_DUE | WS_WATCH_MATCH
  | WS_USER_INTERACTION | WS_SAFETY | WS_RECOVERY | WS_PERIODIC_REVIEW | WS_ATTENTION_BUNDLE
  | WS_COGNITIVE_DERIVATION

datatype wake_state =
  WK_NEW | WK_QUEUED | WK_MERGED | WK_RUNNING | WK_COMPLETED | WK_SUPPRESSED | WK_CANCELLED

primrec wake_state_value :: "wake_state \<Rightarrow> string" where
  "wake_state_value WK_NEW = ''new''"
| "wake_state_value WK_QUEUED = ''queued''"
| "wake_state_value WK_MERGED = ''merged''"
| "wake_state_value WK_RUNNING = ''running''"
| "wake_state_value WK_COMPLETED = ''completed''"
| "wake_state_value WK_SUPPRESSED = ''suppressed''"
| "wake_state_value WK_CANCELLED = ''cancelled''"

datatype action_status =
  AT_PROPOSED | AT_SUBMITTED | AT_ACKNOWLEDGED | AT_COMPLETED | AT_FAILED | AT_OUTCOME_UNKNOWN
  | AT_CANCELLED

datatype summary_status =
  SS_CURRENT | SS_STALE | SS_PARTIAL | SS_MISSING

datatype error_code =
  EC_INVALID_ARGUMENT | EC_NOT_FOUND | EC_VERSION_CONFLICT | EC_INCOMPLETE_DATA | EC_STALE_INDEX
  | EC_BUDGET_EXHAUSTED | EC_PERMISSION_DENIED | EC_DEPENDENCY_INVALID | EC_OUTCOME_UNKNOWN
  | EC_IDEMPOTENCY_CONFLICT | EC_STORAGE_FAILURE

datatype proposal_status =
  PS_DRAFT | PS_SUBMITTED | PS_UNDER_REVIEW | PS_APPROVED | PS_REJECTED | PS_NEEDS_CHANGES
  | PS_EXECUTED | PS_RETIRED

datatype narrative_segment_status =
  NS_OPEN | NS_SEALED | NS_REVISED | NS_MERGED

datatype wake_priority =
  WP_P0_CRITICAL_SAFETY | WP_P1_URGENT_TASK | WP_P1_TIME_CRITICAL | WP_P2_NORMAL_INTERACT
  | WP_P2_ROUTINE | WP_P3_BACKGROUND_TICK

text \<open>A persisted member is read back as the same member: no two members share a text.\<close>

lemma object_type_value_inj: "inj object_type_value"
proof (rule injI)
  fix a b assume "object_type_value a = object_type_value b"
  then show "a = b" by (cases a; cases b; simp)
qed

lemma source_class_value_inj: "inj source_class_value"
proof (rule injI)
  fix a b assume "source_class_value a = source_class_value b"
  then show "a = b" by (cases a; cases b; simp)
qed

end
