(* ===== verification/Timing.thy ===== *)
theory Timing
  imports Enums
begin

text \<open>
  contracts/time.py. A Python \<open>datetime\<close> is its wall-clock reading in microseconds since
  0001-01-01T00:00:00 together with its UTC offset (\<open>None\<close> for a naive value); an instant
  in UTC is the difference. \<open>canonical_utc_iso\<close> prints an instant in a fixed shape whose
  TEXT order is the order of instants, so the model keeps the instant itself where the
  code keeps that text. \<open>ZoneInfo\<close> reads the time zone database of the platform: the set
  of its names is the parameter \<open>zones\<close>.
\<close>

datatype contract_error =
    NotAware string
  | OutOfDatetimeRange string
  | BadTimezone string
  | Unpinned string
  | BlankText string
  | FieldConstraint string
  | Violation string
  | NotComparable string

type_synonym guard = "bool \<times> contract_error"

record datetime =
  dt_local :: int
  dt_offset :: "int option"

type_synonym instant = int

definition max_instant :: instant where
  "max_instant = 3652059 * 86400000000 - 1"

definition is_naive :: "datetime \<Rightarrow> bool" where
  "is_naive d \<longleftrightarrow> dt_offset d = None"

definition utc_instant :: "datetime \<Rightarrow> instant" where
  "utc_instant d = dt_local d - (case dt_offset d of None \<Rightarrow> 0 | Some off \<Rightarrow> off)"

definition in_range :: "datetime \<Rightarrow> bool" where
  "in_range d \<longleftrightarrow> 0 \<le> utc_instant d \<and> utc_instant d \<le> max_instant"

definition require_aware :: "datetime option \<Rightarrow> string \<Rightarrow> guard" where
  "require_aware v field = (case v of None \<Rightarrow> False | Some d \<Rightarrow> is_naive d, NotAware field)"

definition require_timezone_name :: "(string \<Rightarrow> bool) \<Rightarrow> string option \<Rightarrow> string \<Rightarrow> guard list" where
  "require_timezone_name zones v field =
     (case v of None \<Rightarrow> [] | Some name \<Rightarrow>
        [(blank name, BadTimezone field), (\<not> zones name, BadTimezone field)])"

definition as_utc_guards :: "datetime \<Rightarrow> string \<Rightarrow> guard list" where
  "as_utc_guards d field =
     [require_aware (Some d) field, (\<not> in_range d, OutOfDatetimeRange field)]"

definition as_utc :: "datetime \<Rightarrow> string \<Rightarrow> contract_error + instant" where
  "as_utc d field = raising (as_utc_guards d field) (utc_instant d)"

definition canonical_utc_iso :: "datetime \<Rightarrow> string \<Rightarrow> contract_error + instant" where
  "canonical_utc_iso d field = as_utc d field"

text \<open>An instant read back from a store is an aware datetime at offset zero.\<close>

definition utc_datetime :: "instant \<Rightarrow> datetime" where
  "utc_datetime t = \<lparr>dt_local = t, dt_offset = Some 0\<rparr>"

datatype time_precision =
  TP_SECOND | TP_MINUTE | TP_HOUR | TP_DAY | TP_WEEK | TP_MONTH | TP_QUARTER | TP_HALF_YEAR
  | TP_YEAR | TP_MULTI_YEAR | TP_UNKNOWN

record temporal_extent =
  te_start :: "datetime option"
  te_end :: "datetime option"
  te_precision :: time_precision
  te_timezone_name :: "string option"
  te_unknown :: bool

definition validate_extent :: "(string \<Rightarrow> bool) \<Rightarrow> temporal_extent \<Rightarrow> guard list" where
  "validate_extent zones x =
     [require_aware (te_start x) ''start'', require_aware (te_end x) ''end'']
     @ require_timezone_name zones (te_timezone_name x) ''timezone_name''
     @ (if te_unknown x then
          [(te_start x \<noteq> None \<or> te_end x \<noteq> None,
              Violation ''unknown extent cannot also contain start/end''),
           (te_precision x \<noteq> TP_UNKNOWN, Violation ''unknown extent must use unknown precision'')]
        else
          [(te_start x = None \<and> te_end x = None,
              Violation ''time requires start/end or unknown=true'')]
          @ (case (te_start x, te_end x) of
               (Some s, Some e) \<Rightarrow> as_utc_guards e ''end'' @ as_utc_guards s ''start''
                 @ [(utc_instant e < utc_instant s, Violation ''end must not be before start'')]
             | _ \<Rightarrow> []))"

definition unknown_time :: temporal_extent where
  "unknown_time = \<lparr>te_start = None, te_end = None, te_precision = TP_UNKNOWN,
     te_timezone_name = None, te_unknown = True\<rparr>"

definition point_extent :: "datetime \<Rightarrow> time_precision \<Rightarrow> string option \<Rightarrow> temporal_extent" where
  "point_extent v precision tz = \<lparr>te_start = Some v, te_end = Some v, te_precision = precision,
     te_timezone_name = tz, te_unknown = False\<rparr>"

record knowledge_window =
  kw_knowledge_cutoff :: datetime
  kw_world_revision :: "int option"

definition validate_window :: "knowledge_window \<Rightarrow> guard list" where
  "validate_window w =
     [(case kw_world_revision w of None \<Rightarrow> False | Some r \<Rightarrow> r < 0, FieldConstraint ''world_revision''),
      require_aware (Some (kw_knowledge_cutoff w)) ''knowledge_cutoff'']"

section \<open>What a validated time says\<close>

lemma as_utc_Inr_iff:
  "as_utc d f = Inr t \<longleftrightarrow> \<not> is_naive d \<and> in_range d \<and> t = utc_instant d"
  by (auto simp: as_utc_def as_utc_guards_def require_aware_def)

lemma canonical_Inr_iff:
  "canonical_utc_iso d f = Inr t \<longleftrightarrow> \<not> is_naive d \<and> in_range d \<and> t = utc_instant d"
  by (simp add: canonical_utc_iso_def as_utc_Inr_iff)

lemma as_utc_roundtrip: "0 \<le> t \<Longrightarrow> t \<le> max_instant \<Longrightarrow> as_utc (utc_datetime t) f = Inr t"
  by (simp add: as_utc_Inr_iff utc_datetime_def is_naive_def in_range_def utc_instant_def)

lemma validate_extent_interval:
  assumes "first_raise (validate_extent zones x) = None"
    and "te_start x = Some s" and "te_end x = Some e"
  shows "\<not> te_unknown x \<and> utc_instant s \<le> utc_instant e"
  using assms by (auto simp: validate_extent_def split: if_splits)

lemma validate_extent_unknown_time [simp]: "first_raise (validate_extent zones unknown_time) = None"
  by (simp add: validate_extent_def unknown_time_def require_aware_def require_timezone_name_def)

end
