(* ===== verification/Refs.thy ===== *)
theory Refs
  imports Timing Complex_Main
begin

text \<open>
  contracts/refs.py and the values a field of type \<open>Any\<close> can hold. A Python dict with
  string keys is its association list in key order, an int is \<open>PInt\<close> (\<open>PHugeInt\<close> when its
  decimal text exceeds the interpreter's digit limit), a finite float is the rational it
  denotes, a list or a tuple is \<open>PList\<close> (the durable encodings do not tell them apart);
  \<open>POpaque\<close> stands for every object that has no JSON form (a dict with other
  keys, an instance of an unknown class).
\<close>

record object_ref =
  ref_object_id :: string
  ref_revision :: "int option"

record source_ref =
  src_object_id :: string
  src_revision :: "int option"
  src_locator :: "string option"

definition oref :: "string \<Rightarrow> int option \<Rightarrow> object_ref" where
  "oref i r = \<lparr>ref_object_id = i, ref_revision = r\<rparr>"

definition ref_ok :: "object_ref \<Rightarrow> bool" where
  "ref_ok r \<longleftrightarrow> ref_object_id r \<noteq> [] \<and> (case ref_revision r of None \<Rightarrow> True | Some v \<Rightarrow> 1 \<le> v)"

definition ref_of_source :: "source_ref \<Rightarrow> object_ref" where
  "ref_of_source s = oref (src_object_id s) (src_revision s)"

definition source_ref_ok :: "source_ref \<Rightarrow> bool" where
  "source_ref_ok s \<longleftrightarrow> ref_ok (ref_of_source s)"

lemma oref_sel [simp]: "ref_object_id (oref i r) = i" "ref_revision (oref i r) = r"
  by (simp_all add: oref_def)

lemma oref_eq_iff [simp]: "oref i r = oref j s \<longleftrightarrow> i = j \<and> r = s"
  by (simp add: oref_def)

definition unpinned :: "object_ref \<Rightarrow> bool" where
  "unpinned r \<longleftrightarrow> ref_revision r = None"

text \<open>The three shapes of a pinning check, and of the field constraints of a reference.\<close>

definition pin :: "string \<Rightarrow> object_ref \<Rightarrow> guard" where
  "pin field r = (unpinned r, Unpinned field)"

definition pin_opt :: "string \<Rightarrow> object_ref option \<Rightarrow> guard" where
  "pin_opt field r = (case r of None \<Rightarrow> False | Some x \<Rightarrow> unpinned x, Unpinned field)"

definition pin_all :: "string \<Rightarrow> object_ref list \<Rightarrow> guard" where
  "pin_all field rs = (list_ex unpinned rs, Unpinned field)"

definition refs_field :: "string \<Rightarrow> object_ref list \<Rightarrow> guard" where
  "refs_field field rs = (list_ex (\<lambda>r. \<not> ref_ok r) rs, FieldConstraint field)"

definition ref_opt_list :: "object_ref option \<Rightarrow> object_ref list" where
  "ref_opt_list r = (case r of None \<Rightarrow> [] | Some x \<Rightarrow> [x])"

datatype pyval =
    PNone
  | PBool bool
  | PInt int
  | PHugeInt int
  | PFloat rat
  | PNaN
  | PInf
  | PNegInf
  | PStr string
  | PList "pyval list"
  | PDict "(string \<times> pyval) list"
  | PRef object_ref
  | PSource source_ref
  | POpaque

type_synonym pydict = "(string \<times> pyval) list"

definition dict_get :: "pydict \<Rightarrow> string \<Rightarrow> pyval" where
  "dict_get d k = (case map_of d k of None \<Rightarrow> PNone | Some v \<Rightarrow> v)"

fun py_truth :: "pyval \<Rightarrow> bool" where
  "py_truth PNone = False"
| "py_truth (PBool b) = b"
| "py_truth (PInt i) = (i \<noteq> 0)"
| "py_truth (PFloat x) = (x \<noteq> 0)"
| "py_truth (PStr s) = (s \<noteq> [])"
| "py_truth (PList xs) = (xs \<noteq> [])"
| "py_truth (PDict d) = (d \<noteq> [])"
| "py_truth _ = True"

text \<open>Python compares bools, ints and floats by value; \<open>NaN\<close> is unordered.\<close>

fun py_number :: "pyval \<Rightarrow> (int \<times> rat) option" where
  "py_number (PBool b) = Some (0, if b then 1 else 0)"
| "py_number (PInt i) = Some (0, of_int i)"
| "py_number (PHugeInt i) = Some (0, of_int i)"
| "py_number (PFloat x) = Some (0, x)"
| "py_number PInf = Some (1, 0)"
| "py_number PNegInf = Some (-1, 0)"
| "py_number _ = None"

definition py_is_number :: "pyval \<Rightarrow> bool" where
  "py_is_number v \<longleftrightarrow> v = PNaN \<or> py_number v \<noteq> None"

text \<open>\<open>None\<close>: the comparison raises TypeError.\<close>

definition py_less :: "pyval \<Rightarrow> pyval \<Rightarrow> bool option" where
  "py_less a b =
     (if \<not> py_is_number a \<or> \<not> py_is_number b then None
      else case (py_number a, py_number b) of
        (Some x, Some y) \<Rightarrow> Some (fst x < fst y \<or> fst x = fst y \<and> snd x < snd y)
      | _ \<Rightarrow> Some False)"

text \<open>Python \<open>==\<close>: lists, tuples and dicts element by element, numbers by value.\<close>

primrec py_eq :: "pyval \<Rightarrow> pyval \<Rightarrow> bool" where
  "py_eq PNone = (\<lambda>b. b = PNone)"
| "py_eq (PStr s) = (\<lambda>b. b = PStr s)"
| "py_eq (PRef r) = (\<lambda>b. b = PRef r)"
| "py_eq (PSource s) = (\<lambda>b. b = PSource s)"
| "py_eq (PList xs) = (\<lambda>b. case b of PList ys \<Rightarrow> list_all2 (\<lambda>f y. f y) (map py_eq xs) ys | _ \<Rightarrow> False)"
| "py_eq (PDict d) = (\<lambda>b. case b of
     PDict e \<Rightarrow> list_all2 (\<lambda>f y. fst f = fst y \<and> snd f (snd y)) (map (map_prod id py_eq) d) e
   | _ \<Rightarrow> False)"
| "py_eq POpaque = (\<lambda>b. False)"
| "py_eq PNaN = (\<lambda>b. False)"
| "py_eq (PBool x) = (\<lambda>b. py_number b = py_number (PBool x))"
| "py_eq (PInt x) = (\<lambda>b. py_number b = py_number (PInt x))"
| "py_eq (PHugeInt x) = (\<lambda>b. py_number b = py_number (PHugeInt x))"
| "py_eq (PFloat x) = (\<lambda>b. py_number b = py_number (PFloat x))"
| "py_eq PInf = (\<lambda>b. py_number b = py_number PInf)"
| "py_eq PNegInf = (\<lambda>b. py_number b = py_number PNegInf)"

text \<open>The references \<open>_collect_refs\<close> finds below a value, in its walking order.\<close>

fun pyval_refs :: "pyval \<Rightarrow> object_ref list" where
  "pyval_refs (PRef r) = [r]"
| "pyval_refs (PSource s) = [ref_of_source s]"
| "pyval_refs (PDict d) = concat (map (\<lambda>kv. pyval_refs (snd kv)) d)"
| "pyval_refs (PList xs) = concat (map pyval_refs xs)"
| "pyval_refs _ = []"

section \<open>Durable JSON (storage/idempotency.py)\<close>

datatype durable_json_error = NestedTooDeeply | NonFiniteFloat | HugeInteger | NotSerializable

definition max_canonical_depth :: nat where
  "max_canonical_depth = 128"

text \<open>
  Which values the durable encoders reject. The two encoders walk a value in the same way
  and differ in the step a model instance costs: a reference at the depth limit is a plain
  mapping with scalar values for \<open>_canonical_json_value\<close>, whose members are one level
  deeper, and a leaf for \<open>_semantic_identity_value_inner\<close>.
\<close>

fun or_else :: "'a option \<Rightarrow> 'a option \<Rightarrow> 'a option" where
  "or_else (Some x) y = Some x"
| "or_else None y = y"

fun first_some :: "'a option list \<Rightarrow> 'a option" where
  "first_some [] = None"
| "first_some (x # xs) = or_else x (first_some xs)"

definition depth_error :: "nat \<Rightarrow> durable_json_error option" where
  "depth_error d = (if max_canonical_depth < d then Some NestedTooDeeply else None)"

primrec canonical_json_error :: "pyval \<Rightarrow> nat \<Rightarrow> durable_json_error option" where
  "canonical_json_error PNone = (\<lambda>d. depth_error d)"
| "canonical_json_error (PBool b) = (\<lambda>d. depth_error d)"
| "canonical_json_error (PInt i) = (\<lambda>d. depth_error d)"
| "canonical_json_error (PStr s) = (\<lambda>d. depth_error d)"
| "canonical_json_error (PFloat x) = (\<lambda>d. depth_error d)"
| "canonical_json_error (PHugeInt i) = (\<lambda>d. or_else (depth_error d) (Some HugeInteger))"
| "canonical_json_error PNaN = (\<lambda>d. or_else (depth_error d) (Some NonFiniteFloat))"
| "canonical_json_error PInf = (\<lambda>d. or_else (depth_error d) (Some NonFiniteFloat))"
| "canonical_json_error PNegInf = (\<lambda>d. or_else (depth_error d) (Some NonFiniteFloat))"
| "canonical_json_error POpaque = (\<lambda>d. or_else (depth_error d) (Some NotSerializable))"
| "canonical_json_error (PRef r) = (\<lambda>d. or_else (depth_error d) (depth_error (d + 1)))"
| "canonical_json_error (PSource s) = (\<lambda>d. or_else (depth_error d) (depth_error (d + 1)))"
| "canonical_json_error (PList xs) = (\<lambda>d. or_else (depth_error d)
     (first_some (map (\<lambda>f. f (d + 1)) (map canonical_json_error xs))))"
| "canonical_json_error (PDict kvs) = (\<lambda>d. or_else (depth_error d)
     (first_some (map (\<lambda>kf. snd kf (d + 1)) (map (map_prod id canonical_json_error) kvs))))"

primrec semantic_identity_error :: "pyval \<Rightarrow> nat \<Rightarrow> durable_json_error option" where
  "semantic_identity_error PNone = (\<lambda>d. depth_error d)"
| "semantic_identity_error (PBool b) = (\<lambda>d. depth_error d)"
| "semantic_identity_error (PInt i) = (\<lambda>d. depth_error d)"
| "semantic_identity_error (PStr s) = (\<lambda>d. depth_error d)"
| "semantic_identity_error (PFloat x) = (\<lambda>d. depth_error d)"
| "semantic_identity_error (PHugeInt i) = (\<lambda>d. or_else (depth_error d) (Some HugeInteger))"
| "semantic_identity_error PNaN = (\<lambda>d. or_else (depth_error d) (Some NonFiniteFloat))"
| "semantic_identity_error PInf = (\<lambda>d. or_else (depth_error d) (Some NonFiniteFloat))"
| "semantic_identity_error PNegInf = (\<lambda>d. or_else (depth_error d) (Some NonFiniteFloat))"
| "semantic_identity_error POpaque = (\<lambda>d. or_else (depth_error d) (Some NotSerializable))"
| "semantic_identity_error (PRef r) = (\<lambda>d. depth_error d)"
| "semantic_identity_error (PSource s) = (\<lambda>d. depth_error d)"
| "semantic_identity_error (PList xs) = (\<lambda>d. or_else (depth_error d)
     (first_some (map (\<lambda>f. f (d + 1)) (map semantic_identity_error xs))))"
| "semantic_identity_error (PDict kvs) = (\<lambda>d. or_else (depth_error d)
     (first_some (map (\<lambda>kf. snd kf (d + 1)) (map (map_prod id semantic_identity_error) kvs))))"

text \<open>
  Requests recorded before semantic fingerprints existed: whether a value could be the
  lossy image of a typed reference (\<open>_looks_like_durable_reference_mapping\<close>,
  \<open>_contains_legacy_reference_ambiguity\<close>).
\<close>

definition looks_like_reference :: "pydict \<Rightarrow> bool" where
  "looks_like_reference d \<longleftrightarrow>
     (set (map fst d) = {''object_id'', ''revision''}
      \<or> set (map fst d) = {''object_id'', ''revision'', ''source_locator''})
     \<and> (case dict_get d ''object_id'' of PStr s \<Rightarrow> s \<noteq> [] | _ \<Rightarrow> False)
     \<and> (case dict_get d ''revision'' of PNone \<Rightarrow> True | PInt i \<Rightarrow> 1 \<le> i | PHugeInt i \<Rightarrow> 1 \<le> i | _ \<Rightarrow> False)
     \<and> (map_of d ''source_locator'' = None
        \<or> (case dict_get d ''source_locator'' of PNone \<Rightarrow> True | PStr s \<Rightarrow> True | _ \<Rightarrow> False))"

primrec legacy_ambiguous :: "pyval \<Rightarrow> bool" where
  "legacy_ambiguous (PRef r) = True"
| "legacy_ambiguous (PSource s) = True"
| "legacy_ambiguous (PDict d) = (looks_like_reference d
     \<or> list_ex (\<lambda>kv. snd kv) (map (map_prod id legacy_ambiguous) d))"
| "legacy_ambiguous (PList xs) = list_ex id (map legacy_ambiguous xs)"
| "legacy_ambiguous PNone = False"
| "legacy_ambiguous (PBool b) = False"
| "legacy_ambiguous (PInt i) = False"
| "legacy_ambiguous (PHugeInt i) = False"
| "legacy_ambiguous (PFloat x) = False"
| "legacy_ambiguous PNaN = False"
| "legacy_ambiguous PInf = False"
| "legacy_ambiguous PNegInf = False"
| "legacy_ambiguous (PStr s) = False"
| "legacy_ambiguous POpaque = False"

lemma or_else_None_iff [simp]: "or_else x y = None \<longleftrightarrow> x = None \<and> y = None"
  by (cases x) auto

lemma first_some_None_iff [simp]: "first_some xs = None \<longleftrightarrow> (\<forall>x \<in> set xs. x = None)"
  by (induction xs) auto

end
