(* ===== verification/Models.thy ===== *)
theory Models
  imports Refs
begin

text \<open>
  contracts/base.py and the first half of contracts/models.py: the fields every durable
  object has, and one record per model with its own fields. \<open>x_guards\<close> lists what makes
  the construction of a model raise: first the field constraints (lengths, ranges, nested
  models), then the \<open>model_validator\<close>s in source order. Validators that read a field of
  the base object take it as their argument \<open>b\<close>.
\<close>

record world_base =
  wo_object_id :: string
  wo_subject_id :: string
  wo_revision :: int
  wo_occurred :: temporal_extent
  wo_learned_at :: datetime
  wo_recorded_at :: datetime
  wo_source_refs :: "source_ref list"
  wo_created_by :: string
  wo_status :: string
  wo_metadata :: pydict

definition validate_times :: "'z world_base_scheme \<Rightarrow> guard list" where
  "validate_times b =
     [require_aware (Some (wo_learned_at b)) ''learned_at'',
      require_aware (Some (wo_recorded_at b)) ''recorded_at'']
     @ as_utc_guards (wo_recorded_at b) ''recorded_at''
     @ as_utc_guards (wo_learned_at b) ''learned_at''
     @ [(utc_instant (wo_recorded_at b) < utc_instant (wo_learned_at b),
          Violation ''recorded_at must be >= learned_at'')]"

definition world_base_fields :: "(string \<Rightarrow> bool) \<Rightarrow> 'z world_base_scheme \<Rightarrow> guard list" where
  "world_base_fields zones b =
     [(wo_object_id b = [], FieldConstraint ''object_id''),
      (wo_subject_id b = [], FieldConstraint ''subject_id''),
      (wo_revision b < 1, FieldConstraint ''revision'')]
     @ validate_extent zones (wo_occurred b)
     @ [(list_ex (\<lambda>s. \<not> source_ref_ok s) (wo_source_refs b), FieldConstraint ''source_refs''),
        (wo_created_by b = [], FieldConstraint ''created_by'')]"

definition confidence_field :: "string \<Rightarrow> rat \<Rightarrow> guard" where
  "confidence_field field c = (c < 0 \<or> 1 < c, FieldConstraint field)"

definition nonempty_field :: "string \<Rightarrow> string \<Rightarrow> guard" where
  "nonempty_field field s = (s = [], FieldConstraint field)"

section \<open>Observation, Entity, Relation\<close>

record observation =
  obs_source_kind :: string
  obs_modality :: string
  obs_value :: pyval
  obs_unit :: "string option"
  obs_data_quality :: pydict
  obs_raw_locator :: "string option"

record entity =
  ent_entity_kind :: string
  ent_canonical_name :: "string option"
  ent_aliases :: "string list"
  ent_identity_claim_refs :: "object_ref list"

definition entity_guards :: "entity \<Rightarrow> guard list" where
  "entity_guards e =
     [refs_field ''identity_claim_refs'' (ent_identity_claim_refs e),
      pin_all ''identity_claim_refs'' (ent_identity_claim_refs e)]"

record relation =
  rel_left :: object_ref
  rel_relation_type :: string
  rel_right :: object_ref
  rel_valid_time :: temporal_extent
  rel_evidence_set_refs :: "object_ref list"
  rel_confidence :: rat

definition relation_guards :: "(string \<Rightarrow> bool) \<Rightarrow> relation \<Rightarrow> guard list" where
  "relation_guards zones r =
     [refs_field ''left'' [rel_left r], refs_field ''right'' [rel_right r]]
     @ validate_extent zones (rel_valid_time r)
     @ [refs_field ''evidence_set_refs'' (rel_evidence_set_refs r),
        confidence_field ''confidence'' (rel_confidence r),
        pin_all ''evidence_set_refs'' (rel_evidence_set_refs r)]"

section \<open>Dimensions\<close>

record dimension_definition =
  dim_name :: string
  dim_description :: string
  dim_data_shape :: string
  dim_lifecycle :: dimension_lifecycle
  dim_update_method :: "string option"
  dim_expected_value :: "string option"
  dim_maintenance_policy :: pydict

record dimension_membership =
  dmem_dimension_ref :: object_ref
  dmem_member_ref :: object_ref
  dmem_applicable_time :: temporal_extent
  dmem_basis_refs :: "object_ref list"

definition dimension_membership_guards ::
    "(string \<Rightarrow> bool) \<Rightarrow> dimension_membership \<Rightarrow> guard list" where
  "dimension_membership_guards zones m =
     [refs_field ''dimension_ref'' [dmem_dimension_ref m],
      refs_field ''member_ref'' [dmem_member_ref m]]
     @ validate_extent zones (dmem_applicable_time m)
     @ [refs_field ''basis_refs'' (dmem_basis_refs m),
        pin ''dimension_ref'' (dmem_dimension_ref m),
        pin ''member_ref'' (dmem_member_ref m),
        pin_all ''basis_refs'' (dmem_basis_refs m)]"

record dimension_derivation =
  dder_output_dimension_ref :: object_ref
  dder_input_refs :: "object_ref list"
  dder_derivation_description :: string
  dder_applicable_scope :: pydict
  dder_applicable_time :: temporal_extent
  dder_evidence_set_refs :: "object_ref list"
  dder_confidence :: rat
  dder_counterexample_refs :: "object_ref list"

definition dimension_derivation_guards ::
    "(string \<Rightarrow> bool) \<Rightarrow> dimension_derivation \<Rightarrow> guard list" where
  "dimension_derivation_guards zones d =
     [refs_field ''output_dimension_ref'' [dder_output_dimension_ref d],
      (dder_input_refs d = [], FieldConstraint ''input_refs''),
      refs_field ''input_refs'' (dder_input_refs d)]
     @ validate_extent zones (dder_applicable_time d)
     @ [refs_field ''evidence_set_refs'' (dder_evidence_set_refs d),
        confidence_field ''confidence'' (dder_confidence d),
        refs_field ''counterexample_refs'' (dder_counterexample_refs d),
        pin ''output_dimension_ref'' (dder_output_dimension_ref d),
        pin_all ''input_refs'' (dder_input_refs d),
        pin_all ''evidence_set_refs'' (dder_evidence_set_refs d),
        pin_all ''counterexample_refs'' (dder_counterexample_refs d)]"

section \<open>Claim\<close>

record claim =
  clm_claimant_id :: string
  clm_claim_type :: claim_type
  clm_content :: string
  clm_valid_time :: temporal_extent
  clm_asserted_at :: datetime
  clm_knowledge_state :: knowledge_state
  clm_confidence :: rat
  clm_support_evidence_set_refs :: "object_ref list"
  clm_counter_evidence_set_refs :: "object_ref list"
  clm_unknown_items :: "string list"
  clm_source_trust :: rat
  clm_corroboration_required :: bool

definition claim_guards :: "(string \<Rightarrow> bool) \<Rightarrow> claim \<Rightarrow> guard list" where
  "claim_guards zones c =
     validate_extent zones (clm_valid_time c)
     @ [confidence_field ''confidence'' (clm_confidence c),
        refs_field ''support_evidence_set_refs'' (clm_support_evidence_set_refs c),
        refs_field ''counter_evidence_set_refs'' (clm_counter_evidence_set_refs c),
        confidence_field ''source_trust'' (clm_source_trust c),
        require_aware (Some (clm_asserted_at c)) ''asserted_at'',
        (clm_corroboration_required c \<and> clm_claim_type c = CT_FACT,
           Violation ''corroboration_required claim must not be FACT'')]"

definition may_drive_external_action :: "claim \<Rightarrow> bool" where
  "may_drive_external_action c \<longleftrightarrow> \<not> clm_corroboration_required c"

section \<open>Evidence\<close>

record evidence_selector =
  sel_selector_type :: string
  sel_subject_id :: string
  sel_time_range :: temporal_extent
  sel_dimension_refs :: "object_ref list"
  sel_filters :: pydict
  sel_algorithm_version :: string

record evidence_coverage =
  cov_expected_count :: "int option"
  cov_observed_count :: "int option"
  cov_coverage_ratio :: "rat option"
  cov_missing_description :: "string list"

definition opt_ge :: "int \<Rightarrow> int option \<Rightarrow> bool" where
  "opt_ge k v \<longleftrightarrow> (case v of None \<Rightarrow> True | Some n \<Rightarrow> k \<le> n)"

definition evidence_coverage_guards :: "evidence_coverage \<Rightarrow> guard list" where
  "evidence_coverage_guards c =
     [(\<not> opt_ge 0 (cov_expected_count c), FieldConstraint ''expected_count''),
      (\<not> opt_ge 0 (cov_observed_count c), FieldConstraint ''observed_count''),
      (case cov_coverage_ratio c of None \<Rightarrow> False | Some r \<Rightarrow> r < 0 \<or> 1 < r,
         FieldConstraint ''coverage_ratio'')]"

record evidence_set =
  evs_purpose :: string
  evs_knowledge_window :: knowledge_window
  evs_member_refs :: "object_ref list"
  evs_support_refs :: "object_ref list"
  evs_counter_refs :: "object_ref list"
  evs_context_refs :: "object_ref list"
  evs_selector :: "evidence_selector option"
  evs_selection_method :: string
  evs_aggregation_method :: "string option"
  evs_aggregation_version :: "string option"
  evs_coverage :: evidence_coverage
  evs_stale :: bool

definition evidence_set_guards ::
    "(string \<Rightarrow> bool) \<Rightarrow> 'z world_base_scheme \<Rightarrow> evidence_set \<Rightarrow> guard list" where
  "evidence_set_guards zones b e =
     validate_window (evs_knowledge_window e)
     @ [refs_field ''member_refs'' (evs_member_refs e),
        refs_field ''support_refs'' (evs_support_refs e),
        refs_field ''counter_refs'' (evs_counter_refs e),
        refs_field ''context_refs'' (evs_context_refs e)]
     @ (case evs_selector e of None \<Rightarrow> [] | Some s \<Rightarrow>
          validate_extent zones (sel_time_range s)
          @ [refs_field ''dimension_refs'' (sel_dimension_refs s)])
     @ evidence_coverage_guards (evs_coverage e)
     @ [(evs_member_refs e = [] \<and> evs_selector e = None,
           Violation ''EvidenceSet requires member_refs or selector''),
        pin_all ''member_refs'' (evs_member_refs e),
        pin_all ''support_refs'' (evs_support_refs e),
        pin_all ''counter_refs'' (evs_counter_refs e),
        pin_all ''context_refs'' (evs_context_refs e)]
     @ (case evs_selector e of None \<Rightarrow> [] | Some s \<Rightarrow>
          [pin_all ''selector.dimension_refs'' (sel_dimension_refs s)])
     @ as_utc_guards (kw_knowledge_cutoff (evs_knowledge_window e)) ''knowledge_cutoff''
     @ as_utc_guards (wo_learned_at b) ''learned_at''
     @ [(utc_instant (wo_learned_at b)
           < utc_instant (kw_knowledge_cutoff (evs_knowledge_window e)),
           Violation ''knowledge_window.knowledge_cutoff must not be after learned_at'')]"

section \<open>Events, summaries and goals\<close>

record event_anchor =
  evt_title :: string
  evt_interpretation :: string
  evt_event_status :: event_status
  evt_event_time :: temporal_extent
  evt_participant_refs :: "object_ref list"
  evt_primary_claim_refs :: "object_ref list"
  evt_evidence_set_refs :: "object_ref list"
  evt_support_evidence_set_refs :: "object_ref list"
  evt_counter_evidence_set_refs :: "object_ref list"
  evt_confidence :: rat
  evt_supersedes_refs :: "object_ref list"
  evt_merged_into_ref :: "object_ref option"
  evt_split_from_ref :: "object_ref option"
  evt_split_child_refs :: "object_ref list"
  evt_revision_reason :: "string option"

definition opt_blank :: "string option \<Rightarrow> bool" where
  "opt_blank s \<longleftrightarrow> (case s of None \<Rightarrow> True | Some t \<Rightarrow> blank t)"

definition event_anchor_guards :: "(string \<Rightarrow> bool) \<Rightarrow> event_anchor \<Rightarrow> guard list" where
  "event_anchor_guards zones e =
     validate_extent zones (evt_event_time e)
     @ [refs_field ''participant_refs'' (evt_participant_refs e),
        refs_field ''primary_claim_refs'' (evt_primary_claim_refs e),
        refs_field ''evidence_set_refs'' (evt_evidence_set_refs e),
        refs_field ''support_evidence_set_refs'' (evt_support_evidence_set_refs e),
        refs_field ''counter_evidence_set_refs'' (evt_counter_evidence_set_refs e),
        confidence_field ''confidence'' (evt_confidence e),
        refs_field ''supersedes_refs'' (evt_supersedes_refs e),
        refs_field ''merged_into_ref'' (ref_opt_list (evt_merged_into_ref e)),
        refs_field ''split_from_ref'' (ref_opt_list (evt_split_from_ref e)),
        refs_field ''split_child_refs'' (evt_split_child_refs e),
        pin_all ''primary_claim_refs'' (evt_primary_claim_refs e),
        pin_all ''evidence_set_refs'' (evt_evidence_set_refs e),
        pin_all ''support_evidence_set_refs'' (evt_support_evidence_set_refs e),
        pin_all ''counter_evidence_set_refs'' (evt_counter_evidence_set_refs e),
        pin_all ''supersedes_refs'' (evt_supersedes_refs e),
        pin_all ''split_child_refs'' (evt_split_child_refs e),
        pin_opt ''merged_into_ref'' (evt_merged_into_ref e),
        pin_opt ''split_from_ref'' (evt_split_from_ref e),
        (evt_event_status e = ES_REVISED \<and> evt_supersedes_refs e = [],
           Violation ''REVISED EventAnchor requires supersedes_refs''),
        (evt_event_status e = ES_MERGED \<and> evt_merged_into_ref e = None,
           Violation ''MERGED EventAnchor requires merged_into_ref''),
        (evt_event_status e = ES_SPLIT \<and> evt_split_child_refs e = [],
           Violation ''SPLIT EventAnchor requires split_child_refs''),
        (evt_event_status e \<in> {ES_REVISED, ES_REJECTED, ES_MERGED, ES_SPLIT}
           \<and> opt_blank (evt_revision_reason e), Violation ''EventAnchor requires revision_reason'')]"

record summary =
  sum_dimension_ref :: "object_ref option"
  sum_summary_time :: temporal_extent
  sum_granularity :: string
  sum_content :: string
  sum_source_world_revision :: int
  sum_evidence_set_ref :: "object_ref option"
  sum_coverage :: pydict
  sum_claim_refs :: "object_ref list"
  sum_summary_status :: summary_status

definition summary_guards :: "(string \<Rightarrow> bool) \<Rightarrow> summary \<Rightarrow> guard list" where
  "summary_guards zones s =
     [refs_field ''dimension_ref'' (ref_opt_list (sum_dimension_ref s))]
     @ validate_extent zones (sum_summary_time s)
     @ [(sum_source_world_revision s < 0, FieldConstraint ''source_world_revision''),
        refs_field ''evidence_set_ref'' (ref_opt_list (sum_evidence_set_ref s)),
        refs_field ''claim_refs'' (sum_claim_refs s)]"

record goal =
  gol_owner_id :: string
  gol_source_type :: goal_source_type
  gol_title :: string
  gol_description :: string
  gol_goal_status :: goal_status
  gol_success_criteria :: "string list"
  gol_related_dimension_refs :: "object_ref list"
  gol_related_event_refs :: "object_ref list"
  gol_related_task_refs :: "object_ref list"
  gol_app_ids :: "string list"
  gol_confidence :: rat

definition goal_guards :: "goal \<Rightarrow> guard list" where
  "goal_guards g =
     [refs_field ''related_dimension_refs'' (gol_related_dimension_refs g),
      refs_field ''related_event_refs'' (gol_related_event_refs g),
      refs_field ''related_task_refs'' (gol_related_task_refs g),
      confidence_field ''confidence'' (gol_confidence g),
      pin_all ''related_dimension_refs'' (gol_related_dimension_refs g),
      pin_all ''related_event_refs'' (gol_related_event_refs g),
      pin_all ''related_task_refs'' (gol_related_task_refs g)]"

section \<open>Dependency\<close>

record dependency =
  dep_dependent_ref :: object_ref
  dep_dependency_ref :: object_ref
  dep_dependency_type :: string

definition dependency_guards :: "dependency \<Rightarrow> guard list" where
  "dependency_guards d =
     [refs_field ''dependent_ref'' [dep_dependent_ref d],
      refs_field ''dependency_ref'' [dep_dependency_ref d],
      nonempty_field ''dependency_type'' (dep_dependency_type d),
      pin ''dependent_ref'' (dep_dependent_ref d),
      pin ''dependency_ref'' (dep_dependency_ref d),
      (blank (dep_dependency_type d), BlankText ''dependency_type''),
      (ref_object_id (dep_dependent_ref d) = ref_object_id (dep_dependency_ref d),
         Violation ''Dependency cannot directly depend on itself'')]"

section \<open>Tasks, wakes and sessions\<close>

record task =
  tsk_task_type :: task_type
  tsk_task_state :: task_state
  tsk_goal_ref :: "object_ref option"
  tsk_title :: string
  tsk_reason_refs :: "object_ref list"
  tsk_priority :: int
  tsk_next_wake_at :: "datetime option"
  tsk_deadline :: "datetime option"
  tsk_recurrence :: "pydict option"
  tsk_timezone_name :: "string option"
  tsk_dependency_refs :: "object_ref list"
  tsk_next_step :: "string option"
  tsk_completion_condition :: pydict
  tsk_cancel_condition :: pydict
  tsk_related_entity_refs :: "object_ref list"
  tsk_app_id :: "string option"
  tsk_attempts :: int
  tsk_execution_refs :: "object_ref list"
  tsk_outcome_refs :: "object_ref list"

definition task_guards :: "(string \<Rightarrow> bool) \<Rightarrow> task \<Rightarrow> guard list" where
  "task_guards zones t =
     [refs_field ''goal_ref'' (ref_opt_list (tsk_goal_ref t)),
      nonempty_field ''title'' (tsk_title t),
      refs_field ''reason_refs'' (tsk_reason_refs t),
      (tsk_priority t < 0 \<or> 100 < tsk_priority t, FieldConstraint ''priority''),
      refs_field ''dependency_refs'' (tsk_dependency_refs t),
      refs_field ''related_entity_refs'' (tsk_related_entity_refs t),
      (tsk_attempts t < 0, FieldConstraint ''attempts''),
      refs_field ''execution_refs'' (tsk_execution_refs t),
      refs_field ''outcome_refs'' (tsk_outcome_refs t),
      require_aware (tsk_next_wake_at t) ''next_wake_at'',
      require_aware (tsk_deadline t) ''deadline'']
     @ require_timezone_name zones (tsk_timezone_name t) ''timezone_name''
     @ [pin_opt ''goal_ref'' (tsk_goal_ref t),
        pin_all ''reason_refs'' (tsk_reason_refs t),
        pin_all ''dependency_refs'' (tsk_dependency_refs t),
        pin_all ''related_entity_refs'' (tsk_related_entity_refs t),
        pin_all ''execution_refs'' (tsk_execution_refs t),
        pin_all ''outcome_refs'' (tsk_outcome_refs t)]"

record wake =
  wak_wake_source :: wake_source
  wak_wake_state :: wake_state
  wak_rule_id :: "string option"
  wak_first_hit_at :: datetime
  wak_last_hit_at :: datetime
  wak_hit_count :: int
  wak_evidence_refs :: "object_ref list"
  wak_priority :: int
  wak_dedupe_key :: "string option"

definition wake_guards :: "wake \<Rightarrow> guard list" where
  "wake_guards w =
     [(wak_hit_count w < 1, FieldConstraint ''hit_count''),
      refs_field ''evidence_refs'' (wak_evidence_refs w),
      (wak_priority w < 0 \<or> 100 < wak_priority w, FieldConstraint ''priority''),
      require_aware (Some (wak_first_hit_at w)) ''first_hit_at'',
      require_aware (Some (wak_last_hit_at w)) ''last_hit_at'']
     @ as_utc_guards (wak_last_hit_at w) ''last_hit_at''
     @ as_utc_guards (wak_first_hit_at w) ''first_hit_at''
     @ [(utc_instant (wak_last_hit_at w) < utc_instant (wak_first_hit_at w),
          Violation ''last_hit_at must not be before first_hit_at''),
        pin_all ''evidence_refs'' (wak_evidence_refs w)]"

record session =
  ses_wake_ref :: "object_ref option"
  ses_snapshot_world_revision :: int
  ses_operation_ids :: "string list"
  ses_checkpoint :: pydict
  ses_session_state :: string

definition session_guards :: "session \<Rightarrow> guard list" where
  "session_guards s =
     [refs_field ''wake_ref'' (ref_opt_list (ses_wake_ref s)),
      (ses_snapshot_world_revision s < 0, FieldConstraint ''snapshot_world_revision''),
      nonempty_field ''session_state'' (ses_session_state s),
      pin_opt ''wake_ref'' (ses_wake_ref s)]"

end
