(* ===== verification/WorldObjects.thy ===== *)
theory WorldObjects
  imports Models
begin

text \<open>
  The second half of contracts/models.py, the union of all durable models
  (contracts/registry.py), what persistence revalidation rejects, and the references and
  free-form values inside an object.
\<close>

section \<open>Actions, outcomes, experience and proposals\<close>

record action =
  act_execution_id :: string
  act_action_type :: string
  act_action_status :: action_status
  act_task_ref :: "object_ref option"
  act_payload :: pydict
  act_expected_outcome :: "string option"

definition action_guards :: "action \<Rightarrow> guard list" where
  "action_guards a =
     [nonempty_field ''execution_id'' (act_execution_id a),
      nonempty_field ''action_type'' (act_action_type a),
      refs_field ''task_ref'' (ref_opt_list (act_task_ref a)),
      pin_opt ''task_ref'' (act_task_ref a)]"

record outcome =
  out_action_ref :: object_ref
  out_outcome_state :: string
  out_payload :: pydict
  out_evidence_refs :: "object_ref list"

definition outcome_guards :: "outcome \<Rightarrow> guard list" where
  "outcome_guards x =
     [refs_field ''action_ref'' [out_action_ref x],
      nonempty_field ''outcome_state'' (out_outcome_state x),
      refs_field ''evidence_refs'' (out_evidence_refs x),
      pin ''action_ref'' (out_action_ref x),
      pin_all ''evidence_refs'' (out_evidence_refs x)]"

record operation_experience =
  exp_problem_type :: string
  exp_method_path :: "string list"
  exp_applicability :: pydict
  exp_cost :: "(string \<times> rat) list"
  exp_result_summary :: string
  exp_misses :: "string list"
  exp_positive_case_refs :: "object_ref list"
  exp_negative_case_refs :: "object_ref list"
  exp_experience_state :: string

definition operation_experience_guards :: "operation_experience \<Rightarrow> guard list" where
  "operation_experience_guards x =
     [refs_field ''positive_case_refs'' (exp_positive_case_refs x),
      refs_field ''negative_case_refs'' (exp_negative_case_refs x)]"

record tool_proposal =
  tlp_capability_gap :: string
  tlp_use_cases :: "string list"
  tlp_current_limitations :: "string list"
  tlp_proposed_interface :: pydict
  tlp_expected_benefit :: string
  tlp_validation_plan :: string

section \<open>Predictions, chapters, reinterpretations, communication\<close>

record prediction =
  prd_source_claim_ref :: object_ref
  prd_target_dimension_id :: "string option"
  prd_expected_change :: string
  prd_time_window :: temporal_extent
  prd_confidence :: rat
  prd_verification_state :: prediction_verification_state
  prd_actual_outcome_ref :: "object_ref option"
  prd_reasoning :: string

definition prediction_guards :: "(string \<Rightarrow> bool) \<Rightarrow> prediction \<Rightarrow> guard list" where
  "prediction_guards zones p =
     [refs_field ''source_claim_ref'' [prd_source_claim_ref p],
      nonempty_field ''expected_change'' (prd_expected_change p)]
     @ validate_extent zones (prd_time_window p)
     @ [confidence_field ''confidence'' (prd_confidence p),
        refs_field ''actual_outcome_ref'' (ref_opt_list (prd_actual_outcome_ref p)),
        nonempty_field ''reasoning'' (prd_reasoning p),
        pin ''source_claim_ref'' (prd_source_claim_ref p),
        (blank (prd_reasoning p), BlankText ''reasoning''),
        (blank (prd_expected_change p), BlankText ''expected_change''),
        (prd_verification_state p \<in> {PV_CORROBORATED, PV_FALSIFIED}
           \<and> prd_actual_outcome_ref p = None,
           Violation ''verdict states require actual_outcome_ref'')]"

record life_chapter =
  lfc_chapter_title :: "string option"
  lfc_baseline_refs :: "object_ref list"
  lfc_transition_evidence_set_refs :: "object_ref list"
  lfc_supersedes_chapter_id :: "string option"
  lfc_sealed_reason :: "string option"

definition life_chapter_guards :: "'z world_base_scheme \<Rightarrow> life_chapter \<Rightarrow> guard list" where
  "life_chapter_guards b c =
     [refs_field ''baseline_refs'' (lfc_baseline_refs c),
      refs_field ''transition_evidence_set_refs'' (lfc_transition_evidence_set_refs c),
      (wo_status b = ''sealed'' \<and> opt_blank (lfc_sealed_reason c),
         Violation ''sealed LifeChapter must carry sealed_reason'')]"

record reinterpretation =
  rip_target_ref :: object_ref
  rip_slot :: annotation_slot
  rip_statement :: string
  rip_confidence :: rat
  rip_evidence_set_ref :: "object_ref option"
  rip_supersedes_id :: "string option"
  rip_valid_time :: temporal_extent

definition reinterpretation_guards :: "(string \<Rightarrow> bool) \<Rightarrow> reinterpretation \<Rightarrow> guard list" where
  "reinterpretation_guards zones r =
     [refs_field ''target_ref'' [rip_target_ref r],
      nonempty_field ''statement'' (rip_statement r),
      confidence_field ''confidence'' (rip_confidence r),
      refs_field ''evidence_set_ref'' (ref_opt_list (rip_evidence_set_ref r))]
     @ validate_extent zones (rip_valid_time r)
     @ [pin ''target_ref'' (rip_target_ref r),
        (blank (rip_statement r), BlankText ''statement'')]"

record communication_experience =
  cxp_scenario :: string
  cxp_style :: string
  cxp_tone :: "string option"
  cxp_user_reaction :: user_reaction
  cxp_action_ref :: "object_ref option"
  cxp_applicable_conditions :: pydict
  cxp_counterexample_refs :: "object_ref list"

definition communication_experience_guards :: "communication_experience \<Rightarrow> guard list" where
  "communication_experience_guards c =
     [nonempty_field ''scenario'' (cxp_scenario c),
      nonempty_field ''style'' (cxp_style c),
      refs_field ''action_ref'' (ref_opt_list (cxp_action_ref c)),
      refs_field ''counterexample_refs'' (cxp_counterexample_refs c),
      pin_opt ''action_ref'' (cxp_action_ref c)]"

section \<open>Narrative segments and curve points\<close>

record narrative_segment =
  nsg_title :: string
  nsg_description :: string
  nsg_segment_time :: temporal_extent
  nsg_segment_status :: narrative_segment_status
  nsg_dimension_refs :: "object_ref list"
  nsg_key_event_refs :: "object_ref list"
  nsg_key_claim_refs :: "object_ref list"
  nsg_participant_refs :: "object_ref list"
  nsg_supersedes_ref :: "object_ref option"
  nsg_merged_into_ref :: "object_ref option"
  nsg_life_chapter_ref :: "object_ref option"
  nsg_theme_tags :: "string list"
  nsg_coherence_score :: rat

definition narrative_segment_guards :: "(string \<Rightarrow> bool) \<Rightarrow> narrative_segment \<Rightarrow> guard list" where
  "narrative_segment_guards zones s =
     [nonempty_field ''title'' (nsg_title s)]
     @ validate_extent zones (nsg_segment_time s)
     @ [refs_field ''dimension_refs'' (nsg_dimension_refs s),
        refs_field ''key_event_refs'' (nsg_key_event_refs s),
        refs_field ''key_claim_refs'' (nsg_key_claim_refs s),
        refs_field ''participant_refs'' (nsg_participant_refs s),
        refs_field ''supersedes_ref'' (ref_opt_list (nsg_supersedes_ref s)),
        refs_field ''merged_into_ref'' (ref_opt_list (nsg_merged_into_ref s)),
        refs_field ''life_chapter_ref'' (ref_opt_list (nsg_life_chapter_ref s)),
        confidence_field ''coherence_score'' (nsg_coherence_score s),
        (nsg_segment_status s = NS_SEALED \<and> blank (nsg_title s),
           Violation ''a sealed segment needs a title''),
        (nsg_segment_status s = NS_MERGED \<and> nsg_merged_into_ref s = None,
           Violation ''MERGED NarrativeSegment requires merged_into_ref''),
        pin_opt ''merged_into_ref'' (nsg_merged_into_ref s),
        pin_opt ''supersedes_ref'' (nsg_supersedes_ref s),
        pin_opt ''life_chapter_ref'' (nsg_life_chapter_ref s),
        pin_all ''dimension_refs'' (nsg_dimension_refs s),
        pin_all ''key_event_refs'' (nsg_key_event_refs s),
        pin_all ''key_claim_refs'' (nsg_key_claim_refs s),
        pin_all ''participant_refs'' (nsg_participant_refs s)]"

record dimension_curve_point =
  dcp_dimension_ref :: object_ref
  dcp_point_time :: datetime
  dcp_value :: rat
  dcp_velocity :: "rat option"
  dcp_acceleration :: "rat option"
  dcp_confidence :: rat
  dcp_source_summary_ref :: "object_ref option"
  dcp_source_evidence_set_ref :: "object_ref option"
  dcp_anomaly_flag :: bool
  dcp_anomaly_description :: "string option"
  dcp_granularity :: string

definition dimension_curve_point_guards :: "dimension_curve_point \<Rightarrow> guard list" where
  "dimension_curve_point_guards p =
     [refs_field ''dimension_ref'' [dcp_dimension_ref p],
      confidence_field ''confidence'' (dcp_confidence p),
      refs_field ''source_summary_ref'' (ref_opt_list (dcp_source_summary_ref p)),
      refs_field ''source_evidence_set_ref'' (ref_opt_list (dcp_source_evidence_set_ref p)),
      require_aware (Some (dcp_point_time p)) ''point_time'',
      pin ''dimension_ref'' (dcp_dimension_ref p),
      pin_opt ''source_summary_ref'' (dcp_source_summary_ref p),
      pin_opt ''source_evidence_set_ref'' (dcp_source_evidence_set_ref p),
      (dcp_anomaly_flag p \<and> opt_blank (dcp_anomaly_description p),
         Violation ''an anomalous curve point must say why'')]"

section \<open>Policies\<close>

record budget_policy =
  bgp_scope :: budget_scope
  bgp_max_model_calls :: "int option"
  bgp_max_tokens :: "int option"
  bgp_max_wakes :: "int option"
  bgp_on_exceed :: budget_on_exceed

definition budget_policy_guards :: "budget_policy \<Rightarrow> guard list" where
  "budget_policy_guards p =
     [(\<not> opt_ge 0 (bgp_max_model_calls p), FieldConstraint ''max_model_calls''),
      (\<not> opt_ge 0 (bgp_max_tokens p), FieldConstraint ''max_tokens''),
      (\<not> opt_ge 0 (bgp_max_wakes p), FieldConstraint ''max_wakes''),
      (bgp_max_model_calls p = None \<and> bgp_max_tokens p = None \<and> bgp_max_wakes p = None,
         Violation ''budget policy must declare at least one cap'')]"

record assembly_policy =
  asp_wake_kind :: "string option"
  asp_section_order :: "string list"
  asp_section_token_caps :: "(string \<times> int) list"
  asp_max_prefill_tokens :: int
  asp_data_source_allowlist :: "string list"

definition assembly_policy_guards :: "assembly_policy \<Rightarrow> guard list" where
  "assembly_policy_guards p =
     [(asp_section_order p = [], FieldConstraint ''section_order''),
      (asp_max_prefill_tokens p < 256, FieldConstraint ''max_prefill_tokens''),
      (asp_data_source_allowlist p = [], FieldConstraint ''data_source_allowlist''),
      (\<not> distinct (asp_section_order p), Violation ''section_order must not repeat sections''),
      (list_ex (\<lambda>k. fst k \<notin> set (asp_section_order p)) (asp_section_token_caps p),
         Violation ''section_token_caps references sections outside section_order'')]"

record cognitive_policy =
  cgp_policy_id :: string
  cgp_scope :: string
  cgp_policy_class :: policy_class
  cgp_default_value :: pyval
  cgp_current_value :: pyval
  cgp_allowed_range_or_choices :: pyval
  cgp_mutable_by_ai :: bool
  cgp_reason :: string
  cgp_evidence_refs :: "object_ref list"
  cgp_changed_by :: string
  cgp_changed_at :: datetime
  cgp_version :: int
  cgp_previous_version :: "int option"
  cgp_rollback_pointer :: "int option"
  cgp_evaluation_window :: string

definition policy_bound_guards :: "pyval \<Rightarrow> pyval \<Rightarrow> guard list" where
  "policy_bound_guards allowed current =
     (case allowed of
        PDict d \<Rightarrow>
          if map_of d ''min'' \<noteq> None \<or> map_of d ''max'' \<noteq> None then
            [(\<not> py_is_number current \<or> (\<exists>b \<in> {True, False}. current = PBool b),
                Violation ''numeric policy range requires numeric current_value'')]
            @ (case map_of d ''min'' of None \<Rightarrow> [] | Some m \<Rightarrow>
                 [(py_less current m = None, NotComparable ''min''),
                  (py_less current m = Some True,
                     Violation ''current_value is below allowed policy range'')])
            @ (case map_of d ''max'' of None \<Rightarrow> [] | Some m \<Rightarrow>
                 [(py_less m current = None, NotComparable ''max''),
                  (py_less m current = Some True,
                     Violation ''current_value is above allowed policy range'')])
          else []
      | PList xs \<Rightarrow> [(xs \<noteq> [] \<and> \<not> list_ex (py_eq current) xs,
            Violation ''current_value is not one of allowed policy choices'')]
      | _ \<Rightarrow> [])"

definition cognitive_policy_guards ::
    "'z world_base_scheme \<Rightarrow> cognitive_policy \<Rightarrow> guard list" where
  "cognitive_policy_guards b p =
     [nonempty_field ''policy_id'' (cgp_policy_id p),
      nonempty_field ''scope'' (cgp_scope p),
      nonempty_field ''reason'' (cgp_reason p),
      refs_field ''evidence_refs'' (cgp_evidence_refs p),
      nonempty_field ''changed_by'' (cgp_changed_by p),
      (cgp_version p < 1, FieldConstraint ''version''),
      (\<not> opt_ge 1 (cgp_previous_version p), FieldConstraint ''previous_version''),
      (\<not> opt_ge 1 (cgp_rollback_pointer p), FieldConstraint ''rollback_pointer''),
      nonempty_field ''evaluation_window'' (cgp_evaluation_window p),
      require_aware (Some (cgp_changed_at p)) ''changed_at'',
      (blank (cgp_policy_id p), BlankText ''policy_id''),
      (blank (cgp_scope p), BlankText ''scope''),
      (blank (cgp_reason p), BlankText ''reason''),
      (blank (cgp_changed_by p), BlankText ''changed_by''),
      (blank (cgp_evaluation_window p), BlankText ''evaluation_window''),
      pin_all ''evidence_refs'' (cgp_evidence_refs p),
      (cgp_version p \<noteq> wo_revision b,
         Violation ''policy version must equal world-object revision''),
      (cgp_version p = 1 \<and> cgp_previous_version p \<noteq> None,
         Violation ''policy version 1 cannot have previous_version''),
      (1 < cgp_version p \<and> cgp_previous_version p \<noteq> Some (cgp_version p - 1),
         Violation ''policy previous_version must form a contiguous chain''),
      (case cgp_rollback_pointer p of None \<Rightarrow> False | Some r \<Rightarrow> cgp_version p \<le> r,
         Violation ''rollback_pointer must point to an earlier version''),
      (cgp_policy_class p = PC_HARD_BOUNDARY \<and> cgp_mutable_by_ai p,
         Violation ''hard boundaries cannot be mutable_by_ai''),
      (cgp_mutable_by_ai p \<and> cgp_policy_class p \<noteq> PC_COGNITIVE_POLICY,
         Violation ''only cognitive_policy entries may be mutable_by_ai'')]
     @ policy_bound_guards (cgp_allowed_range_or_choices p) (cgp_current_value p)"

section \<open>The union of durable models (contracts/registry.py)\<close>

datatype object_body =
    Observation observation
  | Entity entity
  | Relation relation
  | DimensionDefinition dimension_definition
  | DimensionMembership dimension_membership
  | DimensionDerivation dimension_derivation
  | Claim claim
  | EvidenceSet evidence_set
  | EventAnchor event_anchor
  | Summary summary
  | Goal goal
  | Dependency dependency
  | Task task
  | Wake wake
  | Session session
  | Action action
  | Outcome outcome
  | OperationExperience operation_experience
  | ToolProposal tool_proposal
  | Prediction prediction
  | LifeChapter life_chapter
  | Reinterpretation reinterpretation
  | CommunicationExperience communication_experience
  | CognitivePolicy cognitive_policy
  | BudgetPolicy budget_policy
  | AssemblyPolicy assembly_policy
  | NarrativeSegment narrative_segment
  | DimensionCurvePoint dimension_curve_point

record world_object = world_base +
  wo_body :: object_body

text \<open>The object type a body belongs to: the registry is this function's graph.\<close>

primrec body_object_type :: "object_body \<Rightarrow> object_type" where
  "body_object_type (Observation e) = OT_OBSERVATION"
| "body_object_type (Entity e) = OT_ENTITY"
| "body_object_type (Relation e) = OT_RELATION"
| "body_object_type (DimensionDefinition e) = OT_DIMENSION_DEFINITION"
| "body_object_type (DimensionMembership e) = OT_DIMENSION_MEMBERSHIP"
| "body_object_type (DimensionDerivation e) = OT_DIMENSION_DERIVATION"
| "body_object_type (Claim e) = OT_CLAIM"
| "body_object_type (EvidenceSet e) = OT_EVIDENCE_SET"
| "body_object_type (EventAnchor e) = OT_EVENT"
| "body_object_type (Summary e) = OT_SUMMARY"
| "body_object_type (Goal e) = OT_GOAL"
| "body_object_type (Dependency e) = OT_DEPENDENCY"
| "body_object_type (Task e) = OT_TASK"
| "body_object_type (Wake e) = OT_WAKE"
| "body_object_type (Session e) = OT_SESSION"
| "body_object_type (Action e) = OT_ACTION"
| "body_object_type (Outcome e) = OT_OUTCOME"
| "body_object_type (OperationExperience e) = OT_OPERATION_EXPERIENCE"
| "body_object_type (ToolProposal e) = OT_TOOL_PROPOSAL"
| "body_object_type (Prediction e) = OT_PREDICTION"
| "body_object_type (LifeChapter e) = OT_LIFE_CHAPTER"
| "body_object_type (Reinterpretation e) = OT_REINTERPRETATION"
| "body_object_type (CommunicationExperience e) = OT_COMMUNICATION_EXPERIENCE"
| "body_object_type (CognitivePolicy e) = OT_COGNITIVE_POLICY"
| "body_object_type (BudgetPolicy e) = OT_BUDGET_POLICY"
| "body_object_type (AssemblyPolicy e) = OT_ASSEMBLY_POLICY"
| "body_object_type (NarrativeSegment e) = OT_NARRATIVE_SEGMENT"
| "body_object_type (DimensionCurvePoint e) = OT_DIMENSION_CURVE_POINT"

definition wo_object_type :: "world_object \<Rightarrow> object_type" where
  "wo_object_type ob = body_object_type (wo_body ob)"

primrec body_guards ::
    "(string \<Rightarrow> bool) \<Rightarrow> 'z world_base_scheme \<Rightarrow> object_body \<Rightarrow> guard list" where
  "body_guards zones b (Observation e) = []"
| "body_guards zones b (Entity e) = entity_guards e"
| "body_guards zones b (Relation e) = relation_guards zones e"
| "body_guards zones b (DimensionDefinition e) = []"
| "body_guards zones b (DimensionMembership e) = dimension_membership_guards zones e"
| "body_guards zones b (DimensionDerivation e) = dimension_derivation_guards zones e"
| "body_guards zones b (Claim e) = claim_guards zones e"
| "body_guards zones b (EvidenceSet e) = evidence_set_guards zones b e"
| "body_guards zones b (EventAnchor e) = event_anchor_guards zones e"
| "body_guards zones b (Summary e) = summary_guards zones e"
| "body_guards zones b (Goal e) = goal_guards e"
| "body_guards zones b (Dependency e) = dependency_guards e"
| "body_guards zones b (Task e) = task_guards zones e"
| "body_guards zones b (Wake e) = wake_guards e"
| "body_guards zones b (Session e) = session_guards e"
| "body_guards zones b (Action e) = action_guards e"
| "body_guards zones b (Outcome e) = outcome_guards e"
| "body_guards zones b (OperationExperience e) = operation_experience_guards e"
| "body_guards zones b (ToolProposal e) = []"
| "body_guards zones b (Prediction e) = prediction_guards zones e"
| "body_guards zones b (LifeChapter e) = life_chapter_guards b e"
| "body_guards zones b (Reinterpretation e) = reinterpretation_guards zones e"
| "body_guards zones b (CommunicationExperience e) = communication_experience_guards e"
| "body_guards zones b (CognitivePolicy e) = cognitive_policy_guards b e"
| "body_guards zones b (BudgetPolicy e) = budget_policy_guards e"
| "body_guards zones b (AssemblyPolicy e) = assembly_policy_guards e"
| "body_guards zones b (NarrativeSegment e) = narrative_segment_guards zones e"
| "body_guards zones b (DimensionCurvePoint e) = dimension_curve_point_guards e"

text \<open>
  Construction of a model: the constraints on the common fields, the base validator, then
  the model's own constraints and validators. Revalidation for persistence
  (\<open>normalize_world_object_for_persistence\<close>) is the same construction from a snapshot and
  returns the same value.
\<close>

definition world_object_guards :: "(string \<Rightarrow> bool) \<Rightarrow> world_object \<Rightarrow> guard list" where
  "world_object_guards zones ob =
     world_base_fields zones ob @ validate_times ob @ body_guards zones ob (wo_body ob)"

definition normalize_world_object ::
    "(string \<Rightarrow> bool) \<Rightarrow> world_object \<Rightarrow> contract_error + world_object" where
  "normalize_world_object zones ob = raising (world_object_guards zones ob) ob"

definition valid_object :: "(string \<Rightarrow> bool) \<Rightarrow> world_object \<Rightarrow> bool" where
  "valid_object zones ob \<longleftrightarrow> first_raise (world_object_guards zones ob) = None"

section \<open>References and free-form values of an object\<close>

definition pydict_refs :: "pydict \<Rightarrow> object_ref list" where
  "pydict_refs d = pyval_refs (PDict d)"

primrec body_refs :: "object_body \<Rightarrow> object_ref list" where
  "body_refs (Observation e) =
     pyval_refs (obs_value e) @ pydict_refs (obs_data_quality e)"
| "body_refs (Entity e) =
     ent_identity_claim_refs e"
| "body_refs (Relation e) =
     rel_left e # rel_right e # rel_evidence_set_refs e"
| "body_refs (DimensionDefinition e) =
     pydict_refs (dim_maintenance_policy e)"
| "body_refs (DimensionMembership e) =
     dmem_dimension_ref e # dmem_member_ref e # dmem_basis_refs e"
| "body_refs (DimensionDerivation e) =
     dder_output_dimension_ref e # dder_input_refs e @ pydict_refs (dder_applicable_scope e)
       @ dder_evidence_set_refs e @ dder_counterexample_refs e"
| "body_refs (Claim e) =
     clm_support_evidence_set_refs e @ clm_counter_evidence_set_refs e"
| "body_refs (EvidenceSet e) =
     evs_member_refs e @ evs_support_refs e @ evs_counter_refs e @ evs_context_refs e
       @ (case evs_selector e of None \<Rightarrow> [] | Some s \<Rightarrow> sel_dimension_refs s @ pydict_refs (sel_filters s))"
| "body_refs (EventAnchor e) =
     evt_participant_refs e @ evt_primary_claim_refs e @ evt_evidence_set_refs e
       @ evt_support_evidence_set_refs e @ evt_counter_evidence_set_refs e @ evt_supersedes_refs e
       @ ref_opt_list (evt_merged_into_ref e) @ ref_opt_list (evt_split_from_ref e)
       @ evt_split_child_refs e"
| "body_refs (Summary e) =
     ref_opt_list (sum_dimension_ref e) @ ref_opt_list (sum_evidence_set_ref e)
       @ pydict_refs (sum_coverage e) @ sum_claim_refs e"
| "body_refs (Goal e) =
     gol_related_dimension_refs e @ gol_related_event_refs e @ gol_related_task_refs e"
| "body_refs (Dependency e) =
     [dep_dependent_ref e, dep_dependency_ref e]"
| "body_refs (Task e) =
     ref_opt_list (tsk_goal_ref e) @ tsk_reason_refs e
       @ (case tsk_recurrence e of None \<Rightarrow> [] | Some d \<Rightarrow> pydict_refs d)
       @ tsk_dependency_refs e @ pydict_refs (tsk_completion_condition e)
       @ pydict_refs (tsk_cancel_condition e) @ tsk_related_entity_refs e
       @ tsk_execution_refs e @ tsk_outcome_refs e"
| "body_refs (Wake e) =
     wak_evidence_refs e"
| "body_refs (Session e) =
     ref_opt_list (ses_wake_ref e) @ pydict_refs (ses_checkpoint e)"
| "body_refs (Action e) =
     ref_opt_list (act_task_ref e) @ pydict_refs (act_payload e)"
| "body_refs (Outcome e) =
     out_action_ref e # pydict_refs (out_payload e) @ out_evidence_refs e"
| "body_refs (OperationExperience e) =
     pydict_refs (exp_applicability e) @ exp_positive_case_refs e
       @ exp_negative_case_refs e"
| "body_refs (ToolProposal e) =
     pydict_refs (tlp_proposed_interface e)"
| "body_refs (Prediction e) =
     prd_source_claim_ref e # ref_opt_list (prd_actual_outcome_ref e)"
| "body_refs (LifeChapter e) =
     lfc_baseline_refs e @ lfc_transition_evidence_set_refs e"
| "body_refs (Reinterpretation e) =
     rip_target_ref e # ref_opt_list (rip_evidence_set_ref e)"
| "body_refs (CommunicationExperience e) =
     ref_opt_list (cxp_action_ref e) @ pydict_refs (cxp_applicable_conditions e)
       @ cxp_counterexample_refs e"
| "body_refs (CognitivePolicy e) =
     pyval_refs (cgp_default_value e) @ pyval_refs (cgp_current_value e)
       @ pyval_refs (cgp_allowed_range_or_choices e) @ cgp_evidence_refs e"
| "body_refs (BudgetPolicy e) =
     []"
| "body_refs (AssemblyPolicy e) =
     []"
| "body_refs (NarrativeSegment e) =
     nsg_dimension_refs e @ nsg_key_event_refs e @ nsg_key_claim_refs e
       @ nsg_participant_refs e @ ref_opt_list (nsg_supersedes_ref e)
       @ ref_opt_list (nsg_merged_into_ref e) @ ref_opt_list (nsg_life_chapter_ref e)"
| "body_refs (DimensionCurvePoint e) =
     dcp_dimension_ref e # ref_opt_list (dcp_source_summary_ref e)
       @ ref_opt_list (dcp_source_evidence_set_ref e)"

text \<open>\<open>_collect_refs\<close> walks the fields of a model in declaration order.\<close>

definition collect_refs :: "world_object \<Rightarrow> object_ref list" where
  "collect_refs ob = map ref_of_source (wo_source_refs ob) @ pydict_refs (wo_metadata ob)
     @ body_refs (wo_body ob)"

text \<open>The fields of type \<open>Any\<close>, each with the number of models it is nested in.\<close>

primrec body_any_fields :: "object_body \<Rightarrow> (nat \<times> pyval) list" where
  "body_any_fields (Observation e) =
     [(0, obs_value e), (0, PDict (obs_data_quality e))]"
| "body_any_fields (Entity e) =
     []"
| "body_any_fields (Relation e) =
     []"
| "body_any_fields (DimensionDefinition e) =
     [(0, PDict (dim_maintenance_policy e))]"
| "body_any_fields (DimensionMembership e) =
     []"
| "body_any_fields (DimensionDerivation e) =
     [(0, PDict (dder_applicable_scope e))]"
| "body_any_fields (Claim e) =
     []"
| "body_any_fields (EvidenceSet e) =
     (case evs_selector e of None \<Rightarrow> [] | Some s \<Rightarrow> [(1, PDict (sel_filters s))])"
| "body_any_fields (EventAnchor e) =
     []"
| "body_any_fields (Summary e) =
     [(0, PDict (sum_coverage e))]"
| "body_any_fields (Goal e) =
     []"
| "body_any_fields (Dependency e) =
     []"
| "body_any_fields (Task e) =
     (case tsk_recurrence e of None \<Rightarrow> [] | Some d \<Rightarrow> [(0, PDict d)])
       @ [(0, PDict (tsk_completion_condition e)), (0, PDict (tsk_cancel_condition e))]"
| "body_any_fields (Wake e) =
     []"
| "body_any_fields (Session e) =
     [(0, PDict (ses_checkpoint e))]"
| "body_any_fields (Action e) =
     [(0, PDict (act_payload e))]"
| "body_any_fields (Outcome e) =
     [(0, PDict (out_payload e))]"
| "body_any_fields (OperationExperience e) =
     [(0, PDict (exp_applicability e))]"
| "body_any_fields (ToolProposal e) =
     [(0, PDict (tlp_proposed_interface e))]"
| "body_any_fields (Prediction e) =
     []"
| "body_any_fields (LifeChapter e) =
     []"
| "body_any_fields (Reinterpretation e) =
     []"
| "body_any_fields (CommunicationExperience e) =
     [(0, PDict (cxp_applicable_conditions e))]"
| "body_any_fields (CognitivePolicy e) =
     [(0, cgp_default_value e), (0, cgp_current_value e),
       (0, cgp_allowed_range_or_choices e)]"
| "body_any_fields (BudgetPolicy e) =
     []"
| "body_any_fields (AssemblyPolicy e) =
     []"
| "body_any_fields (NarrativeSegment e) =
     []"
| "body_any_fields (DimensionCurvePoint e) =
     []"

definition object_any_fields :: "world_object \<Rightarrow> (nat \<times> pyval) list" where
  "object_any_fields ob = (0, PDict (wo_metadata ob)) # body_any_fields (wo_body ob)"

text \<open>
  A field is one level below the object's mapping in the payload; in the request identity
  the object sits in an entry of the object list, and every model costs two levels.
\<close>

definition payload_json_error :: "world_object \<Rightarrow> durable_json_error option" where
  "payload_json_error ob =
     first_some (map (\<lambda>(k, v). canonical_json_error v (k + 1)) (object_any_fields ob))"

definition identity_json_error :: "world_object \<Rightarrow> durable_json_error option" where
  "identity_json_error ob =
     first_some (map (\<lambda>(k, v). semantic_identity_error v (5 + 2 * k)) (object_any_fields ob))"

section \<open>What validity gives\<close>

lemma valid_object_base:
  assumes "valid_object zones ob"
  shows "wo_object_id ob \<noteq> []" "1 \<le> wo_revision ob" "wo_subject_id ob \<noteq> []"
    and "\<not> is_naive (wo_learned_at ob)" "in_range (wo_learned_at ob)"
    and "\<not> is_naive (wo_recorded_at ob)" "in_range (wo_recorded_at ob)"
    and "utc_instant (wo_learned_at ob) \<le> utc_instant (wo_recorded_at ob)"
  using assms
  by (auto simp: valid_object_def world_object_guards_def world_base_fields_def
      validate_times_def as_utc_guards_def require_aware_def)

lemma valid_object_body:
  "valid_object zones ob \<Longrightarrow> first_raise (body_guards zones ob (wo_body ob)) = None"
  by (simp add: valid_object_def world_object_guards_def)

lemma valid_dependency:
  assumes "valid_object zones ob" and "wo_body ob = Dependency e"
  shows "\<exists>r. ref_revision (dep_dependent_ref e) = Some r"
    and "\<exists>r. ref_revision (dep_dependency_ref e) = Some r"
    and "ref_object_id (dep_dependent_ref e) \<noteq> ref_object_id (dep_dependency_ref e)"
  using valid_object_body [OF assms(1)] assms(2)
  by (auto simp: dependency_guards_def pin_def unpinned_def)

lemma normalize_Inr_iff:
  "normalize_world_object zones ob = Inr ob' \<longleftrightarrow> ob' = ob \<and> valid_object zones ob"
  by (simp add: normalize_world_object_def valid_object_def)

end
