(* ===== verification/Operations.thy ===== *)
theory Operations
  imports WorldObjects
begin

text \<open>
  contracts/operations.py: the request every commit carries, its validators, the result
  and the audit row. A generated identifier (\<open>uuid4\<close>) is an argument of the caller.
\<close>

record operation_request =
  op_operation_id :: string
  op_session_id :: "string option"
  op_operation_name :: string
  op_arguments :: pydict
  op_expected_world_revision :: int
  op_reason :: string
  op_idempotency_key :: string
  op_source_class :: source_class
  op_maintenance_class :: "maintenance_class option"

definition operation_fields :: "operation_request \<Rightarrow> guard list" where
  "operation_fields op =
     [nonempty_field ''operation_id'' (op_operation_id op),
      (op_session_id op = Some [], FieldConstraint ''session_id''),
      nonempty_field ''operation_name'' (op_operation_name op),
      (op_expected_world_revision op < 0, FieldConstraint ''expected_world_revision''),
      nonempty_field ''reason'' (op_reason op),
      nonempty_field ''idempotency_key'' (op_idempotency_key op)]"

definition validate_source_class :: "operation_request \<Rightarrow> guard list" where
  "validate_source_class op =
     [(op_source_class op = SC_MAINTENANCE \<and> op_maintenance_class op = None,
         Violation ''MAINTENANCE writes must declare maintenance_class''),
      (op_source_class op \<noteq> SC_MAINTENANCE \<and> op_maintenance_class op \<noteq> None,
         Violation ''maintenance_class is only valid for MAINTENANCE writes'')]"

definition validate_nonblank_identity_fields :: "operation_request \<Rightarrow> guard list" where
  "validate_nonblank_identity_fields op =
     [(blank (op_operation_id op), BlankText ''operation_id''),
      (blank (op_operation_name op), BlankText ''operation_name''),
      (blank (op_reason op), BlankText ''reason''),
      (blank (op_idempotency_key op), BlankText ''idempotency_key''),
      (op_session_id op \<noteq> None \<and> opt_blank (op_session_id op), BlankText ''session_id'')]"

definition normalize_operation :: "operation_request \<Rightarrow> contract_error + operation_request" where
  "normalize_operation op = raising
     (operation_fields op @ validate_source_class op @ validate_nonblank_identity_fields op) op"

record commit_result =
  cr_operation_id :: string
  cr_world_revision :: int
  cr_object_refs :: "(string \<times> int) list"
  cr_idempotent_replay :: bool

lemma normalize_operation_Inr:
  "normalize_operation op = Inr op' \<Longrightarrow> op' = op \<and> op_operation_id op \<noteq> []
     \<and> op_idempotency_key op \<noteq> [] \<and> 0 \<le> op_expected_world_revision op
     \<and> (op_source_class op = SC_MAINTENANCE \<longleftrightarrow> op_maintenance_class op \<noteq> None)"
  by (auto simp: normalize_operation_def operation_fields_def validate_source_class_def
      nonempty_field_def)

end
