(* ===== verification/DepGraph.thy ===== *)
theory DepGraph
  imports Operations "HOL-Library.While_Combinator"
begin

text \<open>
  dependency/graph.py: the cycle check over explicit Dependency records and the reverse
  scan for impacted dependents. A node is an exact object version; an edge goes from the
  dependent to its dependency. The depth-first loop keeps the code's frames (top first
  here), its path \<open>stack\<close>, its index and its colours 0, 1, 2; each Python dict lookup that
  can raise KeyError is a branch.
\<close>

type_synonym ref_key = "string \<times> int"

datatype graph_error = UnpinnedRef | GraphKeyError | CycleFound "object_ref list"

definition ref_key :: "object_ref \<Rightarrow> graph_error + ref_key" where
  "ref_key r = (case ref_revision r of None \<Rightarrow> Inl UnpinnedRef | Some v \<Rightarrow> Inr (ref_object_id r, v))"

definition key_ref :: "ref_key \<Rightarrow> object_ref" where
  "key_ref k = oref (fst k) (Some (snd k))"

definition edge_keys :: "dependency list \<Rightarrow> graph_error + (ref_key \<times> ref_key) list" where
  "edge_keys deps = result_map (\<lambda>e.
     result_bind (ref_key (dep_dependent_ref e)) (\<lambda>a.
     result_bind (ref_key (dep_dependency_ref e)) (\<lambda>b. Inr (a, b)))) deps"

definition children :: "(ref_key \<times> ref_key) list \<Rightarrow> ref_key \<Rightarrow> ref_key list" where
  "children es k = map snd (filter (\<lambda>e. fst e = k) es)"

definition graph_nodes :: "(ref_key \<times> ref_key) list \<Rightarrow> ref_key list" where
  "graph_nodes es = sorted_list_of_set (fst ` set es \<union> snd ` set es)"

datatype dfs_out = Running | Cycle "ref_key list" | KeyFailure

record dfs =
  dfs_color :: "ref_key \<rightharpoonup> nat"
  dfs_stack :: "ref_key list"
  dfs_index :: "ref_key \<rightharpoonup> nat"
  dfs_frames :: "(ref_key \<times> ref_key list) list"
  dfs_out :: dfs_out

definition color :: "dfs \<Rightarrow> ref_key \<Rightarrow> nat" where
  "color s k = (case dfs_color s k of None \<Rightarrow> 0 | Some c \<Rightarrow> c)"

definition dfs_push :: "(ref_key \<times> ref_key) list \<Rightarrow> ref_key \<Rightarrow> dfs \<Rightarrow> dfs" where
  "dfs_push es n s = s\<lparr>
     dfs_color := (dfs_color s)(n \<mapsto> 1),
     dfs_index := (dfs_index s)(n \<mapsto> length (dfs_stack s)),
     dfs_stack := dfs_stack s @ [n],
     dfs_frames := (n, children es n) # dfs_frames s\<rparr>"

definition dfs_pop :: "ref_key \<Rightarrow> dfs \<Rightarrow> dfs" where
  "dfs_pop k s =
     (if dfs_index s k = None then s\<lparr>dfs_out := KeyFailure\<rparr>
      else s\<lparr>dfs_frames := tl (dfs_frames s),
             dfs_stack := butlast (dfs_stack s),
             dfs_index := (dfs_index s)(k := None),
             dfs_color := (dfs_color s)(k \<mapsto> 2)\<rparr>)"

definition dfs_step :: "(ref_key \<times> ref_key) list \<Rightarrow> dfs \<Rightarrow> dfs" where
  "dfs_step es s = (case dfs_frames s of
     [] \<Rightarrow> s
   | (current, []) # fs \<Rightarrow> dfs_pop current s
   | (current, n # cs) # fs \<Rightarrow>
       let s' = s\<lparr>dfs_frames := (current, cs) # fs\<rparr> in
       if color s n = 1 then
         (case dfs_index s n of None \<Rightarrow> s'\<lparr>dfs_out := KeyFailure\<rparr>
          | Some i \<Rightarrow> s'\<lparr>dfs_out := Cycle (drop i (dfs_stack s) @ [n])\<rparr>)
       else if color s n = 0 then dfs_push es n s'
       else s')"

definition dfs_active :: "dfs \<Rightarrow> bool" where
  "dfs_active s \<longleftrightarrow> dfs_frames s \<noteq> [] \<and> dfs_out s = Running"

definition dfs_loop :: "(ref_key \<times> ref_key) list \<Rightarrow> dfs \<Rightarrow> dfs option" where
  "dfs_loop es s = while_option dfs_active (dfs_step es) s"

fun dfs_roots :: "(ref_key \<times> ref_key) list \<Rightarrow> ref_key list \<Rightarrow> dfs \<Rightarrow> dfs option" where
  "dfs_roots es [] s = Some s"
| "dfs_roots es (n # ns) s =
     (if color s n \<noteq> 0 then dfs_roots es ns s
      else case dfs_loop es (dfs_push es n s) of
        None \<Rightarrow> None
      | Some s' \<Rightarrow> if dfs_out s' = Running then dfs_roots es ns s' else Some s')"

definition dfs_init :: dfs where
  "dfs_init = \<lparr>dfs_color = Map.empty, dfs_stack = [], dfs_index = Map.empty, dfs_frames = [],
     dfs_out = Running\<rparr>"

text \<open>The outer \<open>option\<close> is \<open>None\<close> where the loop does not return.\<close>

definition find_dependency_cycle ::
    "dependency list \<Rightarrow> (graph_error + object_ref list option) option" where
  "find_dependency_cycle deps = (case edge_keys deps of
     Inl e \<Rightarrow> Some (Inl e)
   | Inr es \<Rightarrow> (case dfs_roots es (graph_nodes es) dfs_init of
        None \<Rightarrow> None
      | Some s \<Rightarrow> (case dfs_out s of
            Running \<Rightarrow> Some (Inr None)
          | Cycle ks \<Rightarrow> Some (Inr (Some (map key_ref ks)))
          | KeyFailure \<Rightarrow> Some (Inl GraphKeyError))))"

definition validate_dependency_graph_acyclic ::
    "dependency list \<Rightarrow> (graph_error + unit) option" where
  "validate_dependency_graph_acyclic deps = map_option (\<lambda>r. case r of
     Inl e \<Rightarrow> Inl e | Inr None \<Rightarrow> Inr () | Inr (Some c) \<Rightarrow> Inl (CycleFound c))
     (find_dependency_cycle deps)"

section \<open>The impacted dependents\<close>

definition reverse_dependents :: "(ref_key \<times> ref_key) list \<Rightarrow> ref_key \<Rightarrow> ref_key list" where
  "reverse_dependents es k = sort (map fst (filter (\<lambda>e. snd e = k) es))"

record scan =
  sc_queue :: "ref_key list"
  sc_visited :: "ref_key list"
  sc_impacted :: "ref_key list"

fun scan_dependents :: "bool \<Rightarrow> ref_key list \<Rightarrow> scan \<Rightarrow> scan" where
  "scan_dependents transitive [] s = s"
| "scan_dependents transitive (d # ds) s = scan_dependents transitive ds
     (if d \<in> set (sc_visited s) then s
      else s\<lparr>sc_visited := d # sc_visited s, sc_impacted := sc_impacted s @ [d],
             sc_queue := (if transitive then sc_queue s @ [d] else sc_queue s)\<rparr>)"

definition scan_step :: "(ref_key \<times> ref_key) list \<Rightarrow> bool \<Rightarrow> scan \<Rightarrow> scan" where
  "scan_step es transitive s = (case sc_queue s of [] \<Rightarrow> s
     | k # q \<Rightarrow> scan_dependents transitive (reverse_dependents es k) (s\<lparr>sc_queue := q\<rparr>))"

definition scan_loop :: "(ref_key \<times> ref_key) list \<Rightarrow> bool \<Rightarrow> scan \<Rightarrow> scan option" where
  "scan_loop es transitive s = while_option (\<lambda>s. sc_queue s \<noteq> []) (scan_step es transitive) s"

definition collect_impacted_dependents ::
    "dependency list \<Rightarrow> object_ref \<Rightarrow> bool \<Rightarrow> (graph_error + object_ref list) option" where
  "collect_impacted_dependents deps changed transitive = (case ref_key changed of
     Inl e \<Rightarrow> Some (Inl e)
   | Inr k \<Rightarrow> (case edge_keys deps of
        Inl e \<Rightarrow> Some (Inl e)
      | Inr es \<Rightarrow> map_option (\<lambda>s. Inr (map key_ref (sc_impacted s)))
          (scan_loop es transitive \<lparr>sc_queue = [k], sc_visited = [k], sc_impacted = []\<rparr>)))"

section \<open>Graph facts\<close>

declare split_paired_All [simp del] split_paired_Ex [simp del]

lemma children_iff [simp]: "c \<in> set (children es k) \<longleftrightarrow> (k, c) \<in> set es"
  by (force simp: children_def)

lemma length_children: "length (children es k) \<le> length es"
  by (simp add: children_def)

lemma set_graph_nodes [simp]: "set (graph_nodes es) = fst ` set es \<union> snd ` set es"
  by (simp add: graph_nodes_def)

text \<open>A new source of edges that nothing points to closes no cycle.\<close>

lemma acyclic_add_source:
  assumes "acyclic r" and "\<And>x. (x, n) \<notin> r'" and "r' \<subseteq> r \<union> {n} \<times> UNIV"
  shows "acyclic r'"
proof -
  have step: "(x, y) \<in> r\<^sup>+" if "(x, y) \<in> r'\<^sup>+" "x \<noteq> n" for x y
    using that
  proof (induction rule: trancl_induct)
    case (base y)
    with assms(3) show ?case by blast
  next
    case (step y z)
    from step.hyps(1) have "y \<noteq> n" using assms(2) by (metis tranclD2)
    with step.hyps(2) assms(3) have "(y, z) \<in> r" by blast
    with step.IH [OF step.prems] show ?case by simp
  qed
  show ?thesis unfolding acyclic_def
  proof (intro allI notI)
    fix x assume x: "(x, x) \<in> r'\<^sup>+"
    then have "x \<noteq> n" using assms(2) by (metis tranclD2)
    from step [OF x this] assms(1) show False by (simp add: acyclic_def)
  qed
qed

fun frames_ok :: "(ref_key \<Rightarrow> ref_key list) \<Rightarrow> (ref_key \<Rightarrow> nat) \<Rightarrow> ref_key option
    \<Rightarrow> (ref_key \<times> ref_key list) list \<Rightarrow> bool" where
  "frames_ok ch col up [] = True"
| "frames_ok ch col up ((k, cs) # fs) =
     ((\<exists>ps. ch k = ps @ cs \<and> (\<forall>c \<in> set ps. col c = 2 \<or> Some c = up)
            \<and> (\<forall>c. up = Some c \<longrightarrow> c \<in> set ps))
      \<and> frames_ok ch col (Some k) fs)"

text \<open>
  The loop invariant: frames and path agree, grey means on the path and indexed there,
  black nodes have black children only and close no cycle, and every child a frame has
  already handed out is black or the next node of the path (\<open>up\<close> for the top frame).
\<close>

definition dfs_inv :: "(ref_key \<times> ref_key) list \<Rightarrow> ref_key option \<Rightarrow> dfs \<Rightarrow> bool" where
  "dfs_inv es up s \<longleftrightarrow>
     dfs_stack s = rev (map fst (dfs_frames s))
   \<and> distinct (dfs_stack s)
   \<and> (\<forall>k. color s k = 1 \<longleftrightarrow> k \<in> set (dfs_stack s))
   \<and> (\<forall>k. color s k \<le> 2)
   \<and> (\<forall>i < length (dfs_stack s). dfs_index s (dfs_stack s ! i) = Some i)
   \<and> frames_ok (children es) (color s) up (dfs_frames s)
   \<and> (\<forall>a b. (a, b) \<in> set es \<longrightarrow> color s a = 2 \<longrightarrow> color s b = 2)
   \<and> acyclic {(a, b). (a, b) \<in> set es \<and> color s a = 2}"

lemma dfs_invI:
  assumes "dfs_stack s = rev (map fst (dfs_frames s))" and "distinct (dfs_stack s)"
    and "\<And>k. color s k = 1 \<longleftrightarrow> k \<in> set (dfs_stack s)" and "\<And>k. color s k \<le> 2"
    and "\<And>i. i < length (dfs_stack s) \<Longrightarrow> dfs_index s (dfs_stack s ! i) = Some i"
    and "frames_ok (children es) (color s) up (dfs_frames s)"
    and "\<And>a b. (a, b) \<in> set es \<Longrightarrow> color s a = 2 \<Longrightarrow> color s b = 2"
    and "acyclic {(a, b). (a, b) \<in> set es \<and> color s a = 2}"
  shows "dfs_inv es up s"
  unfolding dfs_inv_def using assms by blast

lemma dfs_invD:
  assumes "dfs_inv es up s"
  shows "dfs_stack s = rev (map fst (dfs_frames s))" and "distinct (dfs_stack s)"
    and "color s k = 1 \<longleftrightarrow> k \<in> set (dfs_stack s)" and "color s k \<le> 2"
    and "i < length (dfs_stack s) \<Longrightarrow> dfs_index s (dfs_stack s ! i) = Some i"
    and "frames_ok (children es) (color s) up (dfs_frames s)"
    and "(a, b) \<in> set es \<Longrightarrow> color s a = 2 \<Longrightarrow> color s b = 2"
    and "acyclic {(a, b). (a, b) \<in> set es \<and> color s a = 2}"
  using assms unfolding dfs_inv_def by blast+

lemma frames_ok_mono:
  "frames_ok ch col up fs \<Longrightarrow> (\<And>k. col k = 2 \<Longrightarrow> col' k = 2) \<Longrightarrow> frames_ok ch col' up fs"
proof (induction fs arbitrary: up)
  case (Cons f fs)
  obtain k cs where f: "f = (k, cs)" by (cases f)
  from Cons.prems(1) f obtain ps where
    "ch k = ps @ cs" "\<forall>c \<in> set ps. col c = 2 \<or> Some c = up" "\<forall>c. up = Some c \<longrightarrow> c \<in> set ps"
    and rest: "frames_ok ch col (Some k) fs" by auto
  with Cons.prems(2) have "\<exists>ps. ch k = ps @ cs \<and> (\<forall>c \<in> set ps. col' c = 2 \<or> Some c = up)
            \<and> (\<forall>c. up = Some c \<longrightarrow> c \<in> set ps)" by blast
  moreover have "frames_ok ch col' (Some k) fs" using Cons.IH rest Cons.prems(2) by blast
  ultimately show ?case using f by simp
qed simp

text \<open>The path is a walk along edges.\<close>

lemma frames_ok_walk:
  "frames_ok (children es) col up fs \<Longrightarrow>
    (\<forall>c. up = Some c \<longrightarrow> fs \<noteq> [] \<longrightarrow> (fst (hd fs), c) \<in> set es)
    \<and> successively (\<lambda>b a. (a, b) \<in> set es) (map fst fs)"
proof (induction fs arbitrary: up)
  case (Cons f fs)
  obtain k cs where f: "f = (k, cs)" by (cases f)
  from Cons.prems f obtain ps where ps: "children es k = ps @ cs" "\<forall>c. up = Some c \<longrightarrow> c \<in> set ps"
    and rest: "frames_ok (children es) col (Some k) fs" by auto
  have "\<forall>c. up = Some c \<longrightarrow> (k, c) \<in> set es"
    using ps by (metis children_iff in_set_conv_decomp append_assoc append_Cons)
  moreover have "successively (\<lambda>b a. (a, b) \<in> set es) (map fst (f # fs))"
    using Cons.IH [OF rest] f by (cases fs) (auto simp: successively_Cons)
  ultimately show ?case using f by simp
qed simp


lemma color_push [simp]: "color (dfs_push es n s) k = (if k = n then 1 else color s k)"
  by (simp add: color_def dfs_push_def)

lemma dfs_inv_push:
  assumes inv: "dfs_inv es (Some n) s" and white: "color s n = 0"
  shows "dfs_inv es None (dfs_push es n s)"
proof -
  note d = dfs_invD [OF inv]
  let ?s = "dfs_push es n s"
  have new: "n \<notin> set (dfs_stack s)" using d(3) [of n] white by simp
  have stack: "dfs_stack ?s = dfs_stack s @ [n]" by (simp add: dfs_push_def)
  have frames: "dfs_frames ?s = (n, children es n) # dfs_frames s" by (simp add: dfs_push_def)
  show ?thesis
  proof (rule dfs_invI)
    show "dfs_stack ?s = rev (map fst (dfs_frames ?s))" using d(1) by (simp add: stack frames)
    show "distinct (dfs_stack ?s)" using d(2) new by (simp add: stack)
    show "color ?s k = 1 \<longleftrightarrow> k \<in> set (dfs_stack ?s)" for k using d(3) [of k] by (simp add: stack)
    show "color ?s k \<le> 2" for k using d(4) [of k] by simp
    show "dfs_index ?s (dfs_stack ?s ! i) = Some i" if "i < length (dfs_stack ?s)" for i
    proof (cases "i < length (dfs_stack s)")
      case True
      then have "dfs_stack s ! i \<noteq> n" using new by auto
      with True d(5) show ?thesis by (simp add: dfs_push_def nth_append)
    next
      case False
      with that show ?thesis by (simp add: dfs_push_def nth_append less_Suc_eq)
    qed
    have "frames_ok (children es) (color ?s) (Some n) (dfs_frames s)"
      by (rule frames_ok_mono [OF d(6)]) (use white in auto)
    then show "frames_ok (children es) (color ?s) None (dfs_frames ?s)" by (simp add: frames)
    show "color ?s b = 2" if "(a, b) \<in> set es" "color ?s a = 2" for a b
      using that d(7) [of a b] white by (cases "b = n") (simp_all split: if_splits)
    have "{(a, b). (a, b) \<in> set es \<and> color ?s a = 2}
        = {(a, b). (a, b) \<in> set es \<and> color s a = 2}" using white by (auto split: if_splits)
    with d(8) show "acyclic {(a, b). (a, b) \<in> set es \<and> color ?s a = 2}" by simp
  qed
qed

lemma color_frames [simp]: "color (s\<lparr>dfs_frames := f\<rparr>) = color s"
  by (simp add: color_def fun_eq_iff)

lemma color_out [simp]: "color (s\<lparr>dfs_out := f\<rparr>) = color s"
  by (simp add: color_def fun_eq_iff)

lemma dfs_inv_reframe:
  assumes "dfs_inv es up s" and "map fst f = map fst (dfs_frames s)"
    and "frames_ok (children es) (color s) up' f"
  shows "dfs_inv es up' (s\<lparr>dfs_frames := f\<rparr>)"
proof -
  note d = dfs_invD [OF assms(1)]
  show ?thesis
  proof (rule dfs_invI)
    show "dfs_index (s\<lparr>dfs_frames := f\<rparr>) (dfs_stack (s\<lparr>dfs_frames := f\<rparr>) ! i) = Some i"
      if "i < length (dfs_stack (s\<lparr>dfs_frames := f\<rparr>))" for i using that d(5) by simp
    show "color (s\<lparr>dfs_frames := f\<rparr>) b = 2"
      if "(a, b) \<in> set es" "color (s\<lparr>dfs_frames := f\<rparr>) a = 2" for a b
      using that d(7) by (simp only: color_frames)
  qed (use d(1-4,8) assms(2,3) in simp_all)
qed

lemma dfs_inv_consume:
  assumes inv: "dfs_inv es None s" and fr: "dfs_frames s = (k, n # cs) # fs"
  shows "dfs_inv es (Some n) (s\<lparr>dfs_frames := (k, cs) # fs\<rparr>)"
    and "color s n = 2 \<Longrightarrow> dfs_inv es None (s\<lparr>dfs_frames := (k, cs) # fs\<rparr>)"
proof -
  from dfs_invD(6) [OF inv] fr obtain ps
    where ps: "children es k = (ps @ [n]) @ cs" "\<forall>c \<in> set ps. color s c = 2"
    and rest: "frames_ok (children es) (color s) (Some k) fs" by auto
  have "frames_ok (children es) (color s) (Some n) ((k, cs) # fs)"
    unfolding frames_ok.simps using ps rest by (intro conjI exI [of _ "ps @ [n]"]) auto
  then show "dfs_inv es (Some n) (s\<lparr>dfs_frames := (k, cs) # fs\<rparr>)"
    by (intro dfs_inv_reframe [OF inv]) (simp_all add: fr)
  assume "color s n = 2"
  then have "frames_ok (children es) (color s) None ((k, cs) # fs)"
    unfolding frames_ok.simps using ps rest by (intro conjI exI [of _ "ps @ [n]"]) auto
  then show "dfs_inv es None (s\<lparr>dfs_frames := (k, cs) # fs\<rparr>)"
    by (intro dfs_inv_reframe [OF inv]) (simp_all add: fr)
qed

lemma frames_ok_pop:
  assumes "frames_ok ch col (Some k) fs" and "col' k = 2" and "\<And>x. col x = 2 \<Longrightarrow> col' x = 2"
  shows "frames_ok ch col' None fs"
proof (cases fs)
  case (Cons f fs')
  obtain j cs where f: "f = (j, cs)" by (cases f)
  from assms(1) Cons f obtain ps where "ch j = ps @ cs" "\<forall>c \<in> set ps. col c = 2 \<or> c = k"
    and rest: "frames_ok ch col (Some j) fs'" by auto
  moreover have "frames_ok ch col' (Some j) fs'" using rest assms(3) by (rule frames_ok_mono)
  ultimately show ?thesis using Cons f assms(2,3) by (auto intro!: exI [of _ ps])
qed simp

lemma dfs_inv_pop:
  assumes inv: "dfs_inv es None s" and fr: "dfs_frames s = (k, []) # fs"
  shows "dfs_inv es None (dfs_pop k s)" and "dfs_out (dfs_pop k s) = dfs_out s"
    and "dfs_frames (dfs_pop k s) = fs"
    and "color (dfs_pop k s) = (\<lambda>x. if x = k then 2 else color s x)"
proof -
  note d = dfs_invD [OF inv]
  have stack: "dfs_stack s = rev (map fst fs) @ [k]" using d(1) fr by simp
  have k: "dfs_index s k = Some (length fs)" using d(5) [of "length fs"] stack by (simp add: nth_append)
  let ?s = "dfs_pop k s"
  have s': "?s = s\<lparr>dfs_frames := fs, dfs_stack := rev (map fst fs),
      dfs_index := (dfs_index s)(k := None), dfs_color := (dfs_color s)(k \<mapsto> 2)\<rparr>"
    using k fr stack by (simp add: dfs_pop_def)
  show "dfs_out ?s = dfs_out s" "dfs_frames ?s = fs" by (simp_all add: s')
  have col: "color ?s x = (if x = k then 2 else color s x)" for x by (simp add: s' color_def)
  then show "color ?s = (\<lambda>x. if x = k then 2 else color s x)" by (simp add: fun_eq_iff)
  have dist: "distinct (map fst fs)" "k \<notin> set (map fst fs)" using d(2) stack by auto
  have grey: "color s x = 1 \<longleftrightarrow> x \<in> set (map fst fs) \<or> x = k" for x
    using d(3) [of x] stack by auto
  have blk: "color s c = 2" if "(k, c) \<in> set es" for c
    using d(6) fr that by (auto simp flip: children_iff)
  show "dfs_inv es None ?s"
  proof (rule dfs_invI)
    show "dfs_stack ?s = rev (map fst (dfs_frames ?s))" "distinct (dfs_stack ?s)"
      using dist by (simp_all add: s')
    have "dfs_stack ?s = rev (map fst fs)" by (simp add: s')
    then show "color ?s x = 1 \<longleftrightarrow> x \<in> set (dfs_stack ?s)" for x
      using dist grey [of x] by (auto simp: col)
    show "color ?s x \<le> 2" for x using d(4) [of x] by (simp add: col)
    show "dfs_index ?s (dfs_stack ?s ! i) = Some i" if "i < length (dfs_stack ?s)" for i
    proof -
      from that have i: "i < length fs" by (simp add: s')
      then have "rev (map fst fs) ! i \<in> set (map fst fs)"
        by (metis length_map length_rev nth_mem set_rev)
      with dist(2) have "rev (map fst fs) ! i \<noteq> k" by auto
      with d(5) [of i] i show ?thesis by (simp add: s' stack nth_append)
    qed
    have "frames_ok (children es) (color s) (Some k) fs" using d(6) fr by auto
    then have "frames_ok (children es) (color ?s) None fs"
      by (rule frames_ok_pop) (simp_all add: col)
    then show "frames_ok (children es) (color ?s) None (dfs_frames ?s)" by (simp add: s')
    show "color ?s b = 2" if "(a, b) \<in> set es" "color ?s a = 2" for a b
      using that d(7) [of a b] blk [of b] by (simp add: col split: if_splits)
    show "acyclic {(a, b). (a, b) \<in> set es \<and> color ?s a = 2}"
    proof (rule acyclic_add_source [OF d(8), where n = k])
      have "color s k = 1" using grey by simp
      then show "(x, k) \<notin> {(a, b). (a, b) \<in> set es \<and> color ?s a = 2}" for x
        using blk [of k] d(7) [of x k] by (auto simp: col split: if_splits)
    qed (auto simp: col split: if_splits)
  qed
qed

section \<open>The loop: termination and partial correctness\<close>

definition walk :: "(ref_key \<times> ref_key) list \<Rightarrow> ref_key list \<Rightarrow> bool" where
  "walk es ks \<longleftrightarrow> successively (\<lambda>a b. (a, b) \<in> set es) ks"

definition closed_walk :: "(ref_key \<times> ref_key) list \<Rightarrow> ref_key list \<Rightarrow> bool" where
  "closed_walk es ks \<longleftrightarrow> 2 \<le> length ks \<and> hd ks = last ks \<and> distinct (butlast ks) \<and> walk es ks"

lemma stack_walk:
  assumes "dfs_inv es up s"
  shows "walk es (dfs_stack s)"
  using frames_ok_walk [OF dfs_invD(6) [OF assms]] dfs_invD(1) [OF assms]
  by (simp add: walk_def successively_rev)

lemma walk_drop: "walk es ks \<Longrightarrow> walk es (drop i ks)"
  by (metis append_take_drop_id successively_append_iff walk_def)

lemma grey_child_cycle:
  assumes inv: "dfs_inv es None s" and fr: "dfs_frames s = (k, n # cs) # fs" and grey: "color s n = 1"
  obtains i where "dfs_index s n = Some i" "closed_walk es (drop i (dfs_stack s) @ [n])"
proof -
  note d = dfs_invD [OF inv]
  from d(3) [of n] grey obtain i where i: "i < length (dfs_stack s)" "dfs_stack s ! i = n"
    by (auto simp: in_set_conv_nth)
  let ?d = "drop i (dfs_stack s)"
  have ne: "?d \<noteq> []" "hd ?d = n" using i by (auto simp: hd_drop_conv_nth)
  have last: "last ?d = k" using d(1) fr i by (simp add: last_drop)
  have "(k, n) \<in> set es" using d(6) fr by (auto simp flip: children_iff)
  with walk_drop [OF stack_walk [OF inv], of i] ne last have "walk es (?d @ [n])"
    by (simp add: walk_def successively_append_iff)
  moreover have "distinct ?d" using d(2) by simp
  ultimately have "closed_walk es (?d @ [n])"
    using ne by (cases ?d) (auto simp: closed_walk_def)
  with d(5) i that show ?thesis by metis
qed

definition white_count :: "(ref_key \<times> ref_key) list \<Rightarrow> dfs \<Rightarrow> nat" where
  "white_count es s = card {k \<in> set (graph_nodes es). color s k = 0}"

definition frame_work :: "dfs \<Rightarrow> nat" where
  "frame_work s = sum_list (map (\<lambda>f. Suc (length (snd f))) (dfs_frames s))"

definition dfs_measure :: "(ref_key \<times> ref_key) list \<Rightarrow> dfs \<Rightarrow> nat" where
  "dfs_measure es s = 2 * (white_count es s * (length es + 2) + frame_work s)
     + (if dfs_out s = Running then 1 else 0)"

lemma white_count_push:
  assumes "color s n = 0" and "n \<in> set (graph_nodes es)"
  shows "white_count es s = Suc (white_count es (dfs_push es n s))"
proof -
  have "{k \<in> set (graph_nodes es). color s k = 0}
      = insert n {k \<in> set (graph_nodes es). color (dfs_push es n s) k = 0}"
    using assms by auto
  then show ?thesis unfolding white_count_def by (simp add: card_insert_if)
qed

text \<open>The property one turn of the loop keeps, and what a reported cycle is.\<close>

definition dfs_good :: "(ref_key \<times> ref_key) list \<Rightarrow> dfs \<Rightarrow> bool" where
  "dfs_good es s \<longleftrightarrow> (case dfs_out s of Running \<Rightarrow> dfs_inv es None s
     | Cycle ks \<Rightarrow> closed_walk es ks | KeyFailure \<Rightarrow> False)"

lemma dfs_out_push [simp]: "dfs_out (dfs_push es n s) = dfs_out s"
  by (simp add: dfs_push_def)

lemma dfs_step_cases:
  assumes "dfs_active s" and "dfs_good es s"
  obtains (pop) k fs where "dfs_frames s = (k, []) # fs" "dfs_step es s = dfs_pop k s"
  | (grey) k n cs fs i where "dfs_frames s = (k, n # cs) # fs" "dfs_index s n = Some i"
      "closed_walk es (drop i (dfs_stack s) @ [n])"
      "dfs_step es s = s\<lparr>dfs_frames := (k, cs) # fs, dfs_out := Cycle (drop i (dfs_stack s) @ [n])\<rparr>"
  | (white) k n cs fs where "dfs_frames s = (k, n # cs) # fs" "color s n = 0" "(k, n) \<in> set es"
      "dfs_step es s = dfs_push es n (s\<lparr>dfs_frames := (k, cs) # fs\<rparr>)"
  | (black) k n cs fs where "dfs_frames s = (k, n # cs) # fs" "color s n = 2"
      "dfs_step es s = s\<lparr>dfs_frames := (k, cs) # fs\<rparr>"
proof -
  from assms have inv: "dfs_inv es None s" by (simp add: dfs_active_def dfs_good_def)
  from assms(1) obtain k todo fs where fr: "dfs_frames s = (k, todo) # fs"
    by (cases "dfs_frames s") (auto simp: dfs_active_def)
  show ?thesis
  proof (cases todo)
    case Nil
    with fr pop show ?thesis by (simp add: dfs_step_def)
  next
    case (Cons n cs)
    with fr have fr': "dfs_frames s = (k, n # cs) # fs" by simp
    have edge: "(k, n) \<in> set es" using dfs_invD(6) [OF inv] fr' by (auto simp flip: children_iff)
    from dfs_invD(4) [OF inv, of n] consider "color s n = 0" | "color s n = 1" | "color s n = 2"
      by linarith
    then show ?thesis
    proof cases
      case 1
      with fr' edge white show ?thesis by (simp add: dfs_step_def)
    next
      case 2
      then obtain i where "dfs_index s n = Some i" "closed_walk es (drop i (dfs_stack s) @ [n])"
        using grey_child_cycle [OF inv fr'] by blast
      with 2 fr' grey show ?thesis by (simp add: dfs_step_def)
    next
      case 3
      with fr' black show ?thesis by (simp add: dfs_step_def)
    qed
  qed
qed

lemma dfs_step_good:
  assumes act: "dfs_active s" and good: "dfs_good es s"
  shows "dfs_good es (dfs_step es s) \<and> dfs_measure es (dfs_step es s) < dfs_measure es s"
proof -
  from act good have inv: "dfs_inv es None s" and run: "dfs_out s = Running"
    by (simp_all add: dfs_active_def dfs_good_def)
  from act good show ?thesis
  proof (cases rule: dfs_step_cases)
    case (pop k fs)
    note p = dfs_inv_pop [OF inv pop(1)]
    have "{x \<in> set (graph_nodes es). color (dfs_pop k s) x = 0}
        \<subseteq> {x \<in> set (graph_nodes es). color s x = 0}" by (auto simp: p(4) split: if_splits)
    then have "white_count es (dfs_pop k s) \<le> white_count es s"
      unfolding white_count_def by (intro card_mono) auto
    then have "white_count es (dfs_pop k s) * (length es + 2) \<le> white_count es s * (length es + 2)"
      by (rule mult_le_mono1)
    with pop p run show ?thesis by (simp add: dfs_good_def dfs_measure_def frame_work_def)
  next
    case (grey k n cs fs i)
    have "white_count es (dfs_step es s) = white_count es s"
      by (simp add: grey white_count_def)
    with grey run show ?thesis by (simp add: dfs_good_def dfs_measure_def frame_work_def)
  next
    case (white k n cs fs)
    let ?s = "s\<lparr>dfs_frames := (k, cs) # fs\<rparr>"
    have "dfs_inv es None (dfs_push es n ?s)"
      by (rule dfs_inv_push [OF dfs_inv_consume(1) [OF inv white(1)]]) (simp add: white)
    moreover have "white_count es s = Suc (white_count es (dfs_push es n ?s))"
      using white_count_push [of ?s n es] white(2,3) by (force simp: white_count_def)
    ultimately show ?thesis using white run length_children [of es n]
      by (simp add: dfs_good_def dfs_measure_def frame_work_def dfs_push_def)
  next
    case (black k n cs fs)
    have "white_count es (dfs_step es s) = white_count es s" by (simp add: black white_count_def)
    with black run dfs_inv_consume(2) [OF inv black(1,2)] show ?thesis
      by (simp add: dfs_good_def dfs_measure_def frame_work_def)
  qed
qed

lemma dfs_step_black_mono:
  assumes "dfs_active s" and "dfs_good es s" and "color s x \<noteq> 0"
  shows "color (dfs_step es s) x \<noteq> 0"
proof -
  from assms(1,2) have inv: "dfs_inv es None s" by (simp add: dfs_active_def dfs_good_def)
  from assms(1,2) show ?thesis
    by (cases rule: dfs_step_cases) (use assms(3) dfs_inv_pop(4) [OF inv] in auto)
qed

lemma dfs_loop_total:
  assumes "dfs_good es s"
  shows "\<exists>t. dfs_loop es s = Some t \<and> dfs_good es t \<and> (dfs_out t = Running \<longrightarrow> dfs_frames t = [])
    \<and> (\<forall>x. color s x \<noteq> 0 \<longrightarrow> color t x \<noteq> 0)"
proof -
  obtain t where t: "dfs_loop es s = Some t"
    using measure_while_option_Some [of "dfs_good es" dfs_active "dfs_step es" "dfs_measure es"]
      dfs_step_good assms unfolding dfs_loop_def by blast
  have "dfs_good es t \<and> (\<forall>x. color s x \<noteq> 0 \<longrightarrow> color t x \<noteq> 0)"
    using t unfolding dfs_loop_def
    by (rule while_option_rule [rotated, where
        P = "\<lambda>t. dfs_good es t \<and> (\<forall>x. color s x \<noteq> 0 \<longrightarrow> color t x \<noteq> 0)"])
      (use assms dfs_step_good dfs_step_black_mono in blast)+
  moreover have "\<not> dfs_active t" using t unfolding dfs_loop_def by (rule while_option_stop)
  ultimately show ?thesis using t by (auto simp: dfs_active_def)
qed

text \<open>Between two roots the path is empty: every node is white or black.\<close>

definition settled :: "(ref_key \<times> ref_key) list \<Rightarrow> dfs \<Rightarrow> bool" where
  "settled es s \<longleftrightarrow> dfs_out s = Running \<and> dfs_inv es None s \<and> dfs_frames s = []"

lemma dfs_roots_total:
  assumes "settled es s"
  shows "\<exists>t. dfs_roots es ns s = Some t \<and> dfs_out t \<noteq> KeyFailure
    \<and> (\<forall>ks. dfs_out t = Cycle ks \<longrightarrow> closed_walk es ks)
    \<and> (dfs_out t = Running \<longrightarrow> settled es t \<and> (\<forall>n \<in> set ns. color t n \<noteq> 0)
         \<and> (\<forall>x. color s x \<noteq> 0 \<longrightarrow> color t x \<noteq> 0))"
  using assms
proof (induction ns arbitrary: s)
  case Nil
  then show ?case by (simp add: settled_def)
next
  case (Cons n ns)
  show ?case
  proof (cases "color s n = 0")
    case False
    with Cons.IH [OF Cons.prems] show ?thesis by auto
  next
    case True
    from Cons.prems have "dfs_inv es (Some n) s" by (simp add: settled_def dfs_inv_def)
    then have "dfs_good es (dfs_push es n s)"
      using dfs_inv_push True Cons.prems by (simp add: dfs_good_def settled_def)
    then obtain s' where s': "dfs_loop es (dfs_push es n s) = Some s'" "dfs_good es s'"
        "dfs_out s' = Running \<longrightarrow> dfs_frames s' = []"
      and mono: "\<forall>x. color (dfs_push es n s) x \<noteq> 0 \<longrightarrow> color s' x \<noteq> 0"
      using dfs_loop_total by blast
    show ?thesis
    proof (cases "dfs_out s' = Running")
      case run: True
      with s' have "settled es s'" by (simp add: settled_def dfs_good_def)
      from Cons.IH [OF this] show ?thesis using True s'(1) run mono by auto
    next
      case False
      with True s' show ?thesis by (cases "dfs_out s'") (auto simp: dfs_good_def)
    qed
  qed
qed

section \<open>What the cycle check answers\<close>

definition dep_edges :: "dependency list \<Rightarrow> (ref_key \<times> ref_key) set" where
  "dep_edges deps = {(a, b). \<exists>d \<in> set deps.
     ref_key (dep_dependent_ref d) = Inr a \<and> ref_key (dep_dependency_ref d) = Inr b}"

definition all_pinned :: "dependency list \<Rightarrow> bool" where
  "all_pinned deps \<longleftrightarrow> (\<forall>d \<in> set deps. \<not> unpinned (dep_dependent_ref d)
     \<and> \<not> unpinned (dep_dependency_ref d))"

lemma ref_key_Inr_iff: "ref_key r = Inr k \<longleftrightarrow> r = key_ref k"
  by (cases r; cases k) (auto simp: ref_key_def key_ref_def oref_def split: option.splits)

lemma ref_key_pinned: "\<not> unpinned r \<Longrightarrow> \<exists>k. ref_key r = Inr k"
  by (auto simp: ref_key_def unpinned_def)

lemma edge_keys_edges: "edge_keys deps = Inr es \<Longrightarrow> set es = dep_edges deps"
proof -
  assume "edge_keys deps = Inr es"
  then have "list_all2 (\<lambda>d e. ref_key (dep_dependent_ref d) = Inr (fst e)
      \<and> ref_key (dep_dependency_ref d) = Inr (snd e)) deps es"
    by (force simp: edge_keys_def result_map_Inr_iff elim!: list_all2_mono)
  then show ?thesis
  proof (induction deps es rule: list_all2_induct)
    case (Cons d deps e es)
    then have "dep_edges (d # deps) = insert e (dep_edges deps)"
      by (cases e) (auto simp: dep_edges_def)
    with Cons show ?case by simp
  qed (simp add: dep_edges_def)
qed

lemma edge_keys_pinned: "all_pinned deps \<Longrightarrow> \<exists>es. edge_keys deps = Inr es"
proof (induction deps)
  case (Cons d deps)
  then obtain es a b where "edge_keys deps = Inr es"
    "ref_key (dep_dependent_ref d) = Inr a" "ref_key (dep_dependency_ref d) = Inr b"
    using ref_key_pinned by (fastforce simp: all_pinned_def)
  then show ?case by (simp add: edge_keys_def)
qed (simp add: edge_keys_def)

lemma edge_keys_Inl: "edge_keys deps = Inl e \<Longrightarrow> e = UnpinnedRef \<and> \<not> all_pinned deps"
proof (induction deps)
  case (Cons d deps)
  show ?case
  proof (cases "edge_keys deps")
    case (Inl e')
    with Cons show ?thesis
      by (auto simp: edge_keys_def all_pinned_def result_bind_Inl_iff ref_key_def unpinned_def
          split: option.splits)
  next
    case (Inr es)
    with Cons.prems show ?thesis
      by (auto simp: edge_keys_def all_pinned_def result_bind_Inl_iff ref_key_def unpinned_def
          split: option.splits)
  qed
qed (simp add: edge_keys_def)

lemma settled_init: "settled es dfs_init"
  by (simp add: settled_def dfs_inv_def dfs_init_def color_def acyclic_def)

lemma settled_acyclic:
  assumes "settled es t" and "\<forall>n \<in> set (graph_nodes es). color t n \<noteq> 0"
  shows "acyclic (set es)"
proof -
  have inv: "dfs_inv es None t" and fr: "dfs_frames t = []" using assms(1) by (simp_all add: settled_def)
  note d = dfs_invD [OF inv]
  have "color t a = 2" if "(a, b) \<in> set es" for a b
  proof -
    have "a \<in> set (graph_nodes es)" using that by force
    with assms(2) have "color t a \<noteq> 0" by blast
    moreover have "color t a \<noteq> 1" using d(1) d(3) [of a] fr by simp
    ultimately show ?thesis using d(4) [of a] by linarith
  qed
  then have "{(a, b). (a, b) \<in> set es \<and> color t a = 2} = set es" by auto
  with d(8) show ?thesis by simp
qed

lemma closed_walk_not_acyclic: "closed_walk es ks \<Longrightarrow> \<not> acyclic (set es)"
proof -
  assume cw: "closed_walk es ks"
  then obtain a ls where ks: "ks = a # ls" "ls \<noteq> []" "a = last ls"
    by (cases ks) (auto simp: closed_walk_def split: if_splits)
  have "(x, last ys) \<in> (set es)\<^sup>+" if "ys \<noteq> []" "walk es (x # ys)" for x ys
    using that
  proof (induction ys arbitrary: x)
    case (Cons y ys)
    from Cons.prems have xy: "(x, y) \<in> set es" by (simp add: walk_def)
    show ?case
    proof (cases "ys = []")
      case False
      with Cons have "(y, last ys) \<in> (set es)\<^sup>+" by (simp add: walk_def)
      with xy False show ?thesis by (simp add: trancl_into_trancl2)
    qed (use xy in auto)
  qed simp
  with ks cw have "(a, a) \<in> (set es)\<^sup>+" by (auto simp: closed_walk_def)
  then show ?thesis by (auto simp: acyclic_def)
qed

lemma find_dependency_cycle_cases:
  assumes "edge_keys deps = Inr es"
  shows "(find_dependency_cycle deps = Some (Inr None) \<and> acyclic (set es))
    \<or> (\<exists>ks. find_dependency_cycle deps = Some (Inr (Some (map key_ref ks))) \<and> closed_walk es ks)"
proof -
  obtain t where t: "dfs_roots es (graph_nodes es) dfs_init = Some t" "dfs_out t \<noteq> KeyFailure"
      "\<forall>ks. dfs_out t = Cycle ks \<longrightarrow> closed_walk es ks"
      "dfs_out t = Running \<longrightarrow> settled es t \<and> (\<forall>n \<in> set (graph_nodes es). color t n \<noteq> 0)"
    using dfs_roots_total [OF settled_init] by blast
  then show ?thesis
    using assms settled_acyclic by (cases "dfs_out t") (auto simp: find_dependency_cycle_def)
qed

lemma closed_walk_dep_edges:
  "edge_keys deps = Inr es \<Longrightarrow> closed_walk es ks \<Longrightarrow> \<not> acyclic (dep_edges deps)"
  using closed_walk_not_acyclic edge_keys_edges by metis

lemma find_dependency_cycle_iff:
  assumes "all_pinned deps"
  shows "find_dependency_cycle deps = Some (Inr None) \<longleftrightarrow> acyclic (dep_edges deps)"
proof -
  obtain es where es: "edge_keys deps = Inr es" using edge_keys_pinned [OF assms] by blast
  from find_dependency_cycle_cases [OF es] closed_walk_dep_edges [OF es] edge_keys_edges [OF es]
  show ?thesis by auto
qed

lemma validate_acyclic_iff:
  "validate_dependency_graph_acyclic deps = Some (Inr ()) \<longleftrightarrow>
     all_pinned deps \<and> acyclic (dep_edges deps)"
proof (cases "edge_keys deps")
  case (Inl e)
  with edge_keys_Inl [OF Inl] show ?thesis
    by (simp add: validate_dependency_graph_acyclic_def find_dependency_cycle_def)
next
  case (Inr es)
  have "all_pinned deps"
    using Inr
  proof (induction deps arbitrary: es)
    case (Cons d deps)
    then show ?case
      by (auto simp: edge_keys_def all_pinned_def ref_key_def unpinned_def split: option.splits)
  qed (simp add: all_pinned_def)
  moreover from find_dependency_cycle_cases [OF Inr] closed_walk_dep_edges [OF Inr] edge_keys_edges [OF Inr]
  have "validate_dependency_graph_acyclic deps = Some (Inr ()) \<longleftrightarrow> acyclic (dep_edges deps)"
    by (auto simp: validate_dependency_graph_acyclic_def)
  ultimately show ?thesis by simp
qed

section \<open>What the reverse scan answers\<close>

lemma reverse_dependents_iff [simp]: "set (reverse_dependents es k) = {x. (x, k) \<in> set es}"
  by (force simp: reverse_dependents_def)

lemma scan_dependents_effect:
  "\<exists>news. distinct news \<and> set news = set ds - set (sc_visited s)
     \<and> sc_visited (scan_dependents tr ds s) = rev news @ sc_visited s
     \<and> sc_impacted (scan_dependents tr ds s) = sc_impacted s @ news
     \<and> sc_queue (scan_dependents tr ds s) = sc_queue s @ (if tr then news else [])"
proof (induction ds arbitrary: s)
  case Nil
  show ?case by (intro exI [of _ "[]"]) simp
next
  case (Cons d ds)
  show ?case
  proof (cases "d \<in> set (sc_visited s)")
    case True
    with Cons.IH [of s] show ?thesis by (auto simp: insert_absorb)
  next
    case False
    let ?s = "s\<lparr>sc_visited := d # sc_visited s, sc_impacted := sc_impacted s @ [d],
             sc_queue := (if tr then sc_queue s @ [d] else sc_queue s)\<rparr>"
    from Cons.IH [of ?s] obtain news where n: "distinct news"
      "set news = set ds - insert d (set (sc_visited s))"
      "sc_visited (scan_dependents tr ds ?s) = rev news @ d # sc_visited s"
      "sc_impacted (scan_dependents tr ds ?s) = sc_impacted s @ d # news"
      "sc_queue (scan_dependents tr ds ?s) = sc_queue s @ (if tr then d # news else [])" by force
    then show ?thesis using False by (intro exI [of _ "d # news"]) auto
  qed
qed

text \<open>
  The scan's invariant: the visited nodes are the start and the reported ones, all of them
  reach the start, and the dependents of every visited node outside the queue are visited.
\<close>

definition scan_inv :: "(ref_key \<times> ref_key) list \<Rightarrow> ref_key \<Rightarrow> scan \<Rightarrow> bool" where
  "scan_inv es k s \<longleftrightarrow> sc_visited s = rev (sc_impacted s) @ [k] \<and> distinct (sc_visited s)
     \<and> set (sc_queue s) \<subseteq> set (sc_visited s)
     \<and> (\<forall>x \<in> set (sc_impacted s). (x, k) \<in> (set es)\<^sup>+)
     \<and> (\<forall>y \<in> set (sc_visited s) - set (sc_queue s). \<forall>x. (x, y) \<in> set es \<longrightarrow> x \<in> set (sc_visited s))"

definition scan_measure :: "(ref_key \<times> ref_key) list \<Rightarrow> ref_key \<Rightarrow> scan \<Rightarrow> nat" where
  "scan_measure es k s =
     2 * card (insert k (set (graph_nodes es)) - set (sc_visited s)) + length (sc_queue s)"

lemma scan_step_inv:
  assumes inv: "scan_inv es k s" and q: "sc_queue s = y # q"
  shows "scan_inv es k (scan_step es True s)
    \<and> scan_measure es k (scan_step es True s) < scan_measure es k s"
proof -
  let ?t = "scan_step es True s" and ?N = "insert k (set (graph_nodes es))"
  obtain news where n: "distinct news" "set news = {x. (x, y) \<in> set es} - set (sc_visited s)"
    "sc_visited ?t = rev news @ sc_visited s" "sc_impacted ?t = sc_impacted s @ news"
    "sc_queue ?t = q @ news"
    using scan_dependents_effect [of "reverse_dependents es y" "s\<lparr>sc_queue := q\<rparr>" True] q
    by (auto simp: scan_step_def)
  have vis: "sc_visited s = rev (sc_impacted s) @ [k]" "distinct (sc_visited s)"
    "set (sc_queue s) \<subseteq> set (sc_visited s)" "\<forall>x \<in> set (sc_impacted s). (x, k) \<in> (set es)\<^sup>+"
    using inv unfolding scan_inv_def by blast+
  have "y \<in> set (sc_visited s)" using vis(3) q by simp
  then have y: "y = k \<or> (y, k) \<in> (set es)\<^sup>+" using vis(1,4) by auto
  have reach: "\<forall>x \<in> set news. (x, k) \<in> (set es)\<^sup>+"
    using n(2) y by (auto intro: trancl_into_trancl2)
  have closed: "x \<in> set (sc_visited ?t)"
    if "z \<in> set (sc_visited ?t) - set (sc_queue ?t)" "(x, z) \<in> set es" for z x
  proof (cases "z = y")
    case True
    with that(2) n(2,3) show ?thesis by auto
  next
    case False
    with that n(3,5) q have "z \<in> set (sc_visited s) - set (sc_queue s)" by auto
    moreover have "\<forall>y \<in> set (sc_visited s) - set (sc_queue s).
        \<forall>x. (x, y) \<in> set es \<longrightarrow> x \<in> set (sc_visited s)" using inv unfolding scan_inv_def by blast
    ultimately have "x \<in> set (sc_visited s)" using that(2) by blast
    with n(3) show ?thesis by simp
  qed
  have "scan_inv es k ?t"
    unfolding scan_inv_def
  proof (intro conjI)
    show "sc_visited ?t = rev (sc_impacted ?t) @ [k]" using vis(1) n by simp
    show "distinct (sc_visited ?t)" using vis(2) n(1-3) by auto
    show "set (sc_queue ?t) \<subseteq> set (sc_visited ?t)" using vis(3) q n by auto
    show "\<forall>x \<in> set (sc_impacted ?t). (x, k) \<in> (set es)\<^sup>+" using vis(4) n(4) reach by auto
  qed (use closed in blast)
  moreover have "scan_measure es k ?t < scan_measure es k s"
  proof -
    have sub: "set news \<subseteq> ?N - set (sc_visited s)" using n(2) by force
    have "?N - set (sc_visited ?t) = (?N - set (sc_visited s)) - set news" using n(3) by auto
    then have "card (?N - set (sc_visited ?t)) = card (?N - set (sc_visited s)) - length news"
      using sub n(1) by (simp add: card_Diff_subset distinct_card del: set_graph_nodes)
    moreover have "length news \<le> card (?N - set (sc_visited s))"
      using card_mono [OF _ sub] n(1) by (simp add: distinct_card del: set_graph_nodes)
    ultimately show ?thesis using n(5) q by (simp add: scan_measure_def del: set_graph_nodes)
  qed
  ultimately show ?thesis by blast
qed

lemma scan_loop_result:
  "\<exists>t. scan_loop es True \<lparr>sc_queue = [k], sc_visited = [k], sc_impacted = []\<rparr> = Some t
     \<and> distinct (sc_impacted t) \<and> set (sc_impacted t) = {x. (x, k) \<in> (set es)\<^sup>+} - {k}"
proof -
  let ?s = "\<lparr>sc_queue = [k], sc_visited = [k], sc_impacted = []\<rparr>"
  have init: "scan_inv es k ?s" by (simp add: scan_inv_def)
  have step: "scan_inv es k (scan_step es True s)
      \<and> scan_measure es k (scan_step es True s) < scan_measure es k s"
    if "scan_inv es k s" "sc_queue s \<noteq> []" for s
    using that scan_step_inv by (cases "sc_queue s") auto
  obtain t where t: "scan_loop es True ?s = Some t"
    using measure_while_option_Some [of "scan_inv es k" "\<lambda>s. sc_queue s \<noteq> []"
        "scan_step es True" "scan_measure es k", OF step init] unfolding scan_loop_def by blast
  have inv: "scan_inv es k t"
    using t unfolding scan_loop_def by (rule while_option_rule [rotated]) (use step init in auto)
  have empty: "sc_queue t = []" using t unfolding scan_loop_def by (auto dest: while_option_stop)
  have "x \<in> set (sc_visited t)" if "(x, k) \<in> (set es)\<^sup>+" for x
    using that
  proof (induction rule: converse_trancl_induct)
    case (base x)
    with inv empty show ?case by (auto simp: scan_inv_def)
  next
    case (step x z)
    with inv empty show ?case unfolding scan_inv_def by force
  qed
  then have "set (sc_impacted t) = {x. (x, k) \<in> (set es)\<^sup>+} - {k}"
    using inv by (auto simp: scan_inv_def)
  moreover have "distinct (sc_impacted t)" using inv by (auto simp: scan_inv_def)
  ultimately show ?thesis using t by blast
qed

lemma inj_key_ref: "inj key_ref"
  by (auto simp: inj_def key_ref_def prod_eq_iff)

lemma collect_impacted_result:
  assumes "ref_key changed = Inr k" and "edge_keys deps = Inr es"
  shows "\<exists>rs. collect_impacted_dependents deps changed True = Some (Inr rs) \<and> distinct rs
    \<and> set rs = key_ref ` ({x. (x, k) \<in> (dep_edges deps)\<^sup>+} - {k})"
proof -
  obtain t where "scan_loop es True \<lparr>sc_queue = [k], sc_visited = [k], sc_impacted = []\<rparr> = Some t"
     and t: "distinct (sc_impacted t)" "set (sc_impacted t) = {x. (x, k) \<in> (set es)\<^sup>+} - {k}"
    using scan_loop_result by blast
  then have "collect_impacted_dependents deps changed True = Some (Inr (map key_ref (sc_impacted t)))"
    using assms by (simp add: collect_impacted_dependents_def)
  moreover have "distinct (map key_ref (sc_impacted t))"
    using t(1) inj_on_subset [OF inj_key_ref subset_UNIV] by (simp add: distinct_map)
  ultimately show ?thesis using t(2) edge_keys_edges [OF assms(2)] by simp
qed

end
