(* ===== verification/WorldStore.thy ===== *)
theory WorldStore
  imports DepGraph "HOL-Library.AList" "HOL-Library.Sublist"
begin

text \<open>
  The tables of storage/sqlite_store.py and its read surfaces. A table is the list of its
  rows in insertion order; a TEXT timestamp is its instant, and \<open>payload_json\<close> is what it
  decodes to: a world object, a tombstone, or text that is not a JSON object. A result is
  \<open>Inl\<close> of the exception. SHA-256 is the parameter \<open>digest\<close>, applied to the canonical
  request identity.
\<close>

datatype store_error =
    StoreError error_code string
  | RawError contract_error
  | IntegerOverflow
  | DoesNotReturn

record tombstone =
  tb_reason :: string
  tb_authz_ref :: string
  tb_previous_revision :: int
  tb_object_id :: string

datatype payload = PayloadObject world_object | PayloadTombstone tombstone | PayloadCorrupt

datatype revision_kind = RK_content | RK_tombstone

record revision_row =
  rr_object_id :: string
  rr_revision :: int
  rr_object_type :: object_type
  rr_subject_id :: string
  rr_world_revision :: int
  rr_learned_at :: instant
  rr_recorded_at :: instant
  rr_payload :: payload
  rr_revision_kind :: revision_kind

record commit_row =
  cm_world_revision :: int
  cm_committed_at :: instant
  cm_operation_id :: string
  cm_session_id :: "string option"
  cm_reason :: string
  cm_source_class :: source_class

record operation_row =
  or_operation_id :: string
  or_session_id :: "string option"
  or_operation_name :: string
  or_arguments :: pydict
  or_expected_world_revision :: int
  or_reason :: string
  or_idempotency_key :: string
  or_result_world_revision :: int
  or_created_at :: instant

text \<open>
  \<open>result_json\<close>: its fingerprint member is missing in rows of older releases, and both it
  and the result can have been damaged (\<open>None\<close>: the result does not validate).
\<close>

datatype 'h fingerprint_cell = FingerprintMissing | FingerprintText 'h | FingerprintOther

datatype 'h result_cell = ResultCorrupt | ResultData "commit_result option" "'h fingerprint_cell"

record 'h idempotency_row =
  ir_idempotency_key :: string
  ir_operation_id :: string
  ir_world_revision :: int
  ir_result :: "'h result_cell"

record cold_row =
  cr_cold_object_id :: string
  cr_cold_revision :: int
  cr_cold_payload :: payload
  cr_cold_archived_at :: instant
  cr_cold_authz_ref :: string
  cr_cold_reason :: string

text \<open>The \<open>world_meta\<close> cell of the world revision: text that \<open>int()\<close> reads, or not.\<close>

datatype meta_cell = MetaInt int | MetaText string

record 'h world_store =
  ws_world_revision :: "meta_cell option"
  ws_commits :: "commit_row list"
  ws_revisions :: "revision_row list"
  ws_operations :: "operation_row list"
  ws_idempotency :: "'h idempotency_row list"
  ws_cold_archive :: "cold_row list"

definition initial_store :: "'h world_store" where
  "initial_store = \<lparr>ws_world_revision = Some (MetaInt 0), ws_commits = [], ws_revisions = [],
     ws_operations = [], ws_idempotency = [], ws_cold_archive = []\<rparr>"

section \<open>Arguments of queries\<close>

definition sqlite_int64_max :: int where
  "sqlite_int64_max = 9223372036854775807"

definition fits_int64 :: "int \<Rightarrow> bool" where
  "fits_int64 i \<longleftrightarrow> - sqlite_int64_max - 1 \<le> i \<and> i \<le> sqlite_int64_max"

definition normalize_query_integer :: "int \<Rightarrow> store_error + int" where
  "normalize_query_integer v =
     (if fits_int64 v then Inr v else Inl (StoreError EC_INVALID_ARGUMENT ''query_integer_out_of_range''))"

definition normalize_query_cutoff :: "datetime \<Rightarrow> store_error + instant" where
  "normalize_query_cutoff d =
     (if is_naive d then Inl (RawError (NotAware ''knowledge_cutoff''))
      else case canonical_utc_iso d ''knowledge_cutoff'' of
        Inl e \<Rightarrow> Inl (StoreError EC_INVALID_ARGUMENT ''query_timestamp_invalid'')
      | Inr t \<Rightarrow> Inr t)"

definition normalize_opt :: "('a \<Rightarrow> store_error + 'b) \<Rightarrow> 'a option \<Rightarrow> store_error + 'b option" where
  "normalize_opt f v = (case v of None \<Rightarrow> Inr None | Some x \<Rightarrow> result_bind (f x) (\<lambda>y. Inr (Some y)))"

definition parse_world_revision_row :: "meta_cell option \<Rightarrow> store_error + int" where
  "parse_world_revision_row row = (case row of
     None \<Rightarrow> Inl (StoreError EC_STORAGE_FAILURE ''missing_world_revision'')
   | Some (MetaText s) \<Rightarrow> Inl (StoreError EC_STORAGE_FAILURE ''corrupt_world_revision'')
   | Some (MetaInt v) \<Rightarrow>
       if v < 0 \<or> sqlite_int64_max < v then Inl (StoreError EC_STORAGE_FAILURE ''corrupt_world_revision'')
       else Inr v)"

definition decode_payload :: "string \<Rightarrow> payload \<Rightarrow> store_error + payload" where
  "decode_payload reason p = (case p of PayloadCorrupt \<Rightarrow> Inl (StoreError EC_STORAGE_FAILURE reason)
     | _ \<Rightarrow> Inr p)"

section \<open>Read surfaces\<close>

definition current_world_revision :: "'h world_store \<Rightarrow> store_error + int" where
  "current_world_revision st = parse_world_revision_row (ws_world_revision st)"

definition rows_of :: "string \<Rightarrow> 'h world_store \<Rightarrow> revision_row list" where
  "rows_of oid st = filter (\<lambda>r. rr_object_id r = oid) (ws_revisions st)"

definition object_versions :: "'h world_store \<Rightarrow> string \<Rightarrow> int list" where
  "object_versions st oid = map rr_revision (rows_of oid st)"

definition latest_revision :: "'h world_store \<Rightarrow> string \<Rightarrow> int option" where
  "latest_revision st oid = sql_max (object_versions st oid)"

definition latest_row :: "'h world_store \<Rightarrow> string \<Rightarrow> revision_row option" where
  "latest_row st oid = latest_by rr_revision (rows_of oid st)"

definition latest_object_type :: "'h world_store \<Rightarrow> string \<Rightarrow> object_type option" where
  "latest_object_type st oid = map_option rr_object_type (latest_row st oid)"

definition find_row :: "'h world_store \<Rightarrow> string \<Rightarrow> int \<Rightarrow> revision_row option" where
  "find_row st oid v = List.find (\<lambda>r. rr_object_id r = oid \<and> rr_revision r = v) (ws_revisions st)"

definition commit_source_class :: "'h world_store \<Rightarrow> int \<Rightarrow> source_class option" where
  "commit_source_class st w =
     map_option cm_source_class (List.find (\<lambda>c. cm_world_revision c = w) (ws_commits st))"

record object_record =
  orc_row :: revision_row
  orc_source_class :: source_class
  orc_latest_revision :: int
  orc_is_latest :: bool

definition object_revision_record ::
    "'h world_store \<Rightarrow> string \<Rightarrow> int \<Rightarrow> store_error + object_record" where
  "object_revision_record st oid revision =
     result_bind (normalize_query_integer revision) (\<lambda>v.
     case find_row st oid v of
       None \<Rightarrow> Inl (StoreError EC_NOT_FOUND ''exact_revision_not_found'')
     | Some r \<Rightarrow>
        (case (commit_source_class st (rr_world_revision r), latest_revision st oid) of
           (Some sc, Some latest) \<Rightarrow>
             Inr \<lparr>orc_row = r, orc_source_class = sc, orc_latest_revision = latest,
                  orc_is_latest = (latest = rr_revision r)\<rparr>
         | _ \<Rightarrow> Inl (StoreError EC_NOT_FOUND ''exact_revision_not_found'')))"

text \<open>A negative \<open>LIMIT\<close> is no limit in SQLite.\<close>

definition sql_limit :: "int \<Rightarrow> 'a list \<Rightarrow> 'a list" where
  "sql_limit n xs = (if n < 0 then xs else take (nat n) xs)"

definition triggerable_commits_after :: "'h world_store \<Rightarrow> int \<Rightarrow> int \<Rightarrow> commit_row list" where
  "triggerable_commits_after st w limit = sql_limit limit (sort_key cm_world_revision
     (filter (\<lambda>c. w < cm_world_revision c \<and> cm_source_class c \<noteq> SC_MAINTENANCE) (ws_commits st)))"

definition row_key :: "revision_row \<Rightarrow> string \<times> int" where
  "row_key r = (rr_object_id r, rr_revision r)"

definition revisions_after ::
    "'h world_store \<Rightarrow> int \<Rightarrow> int \<Rightarrow> bool \<Rightarrow> contract_error + revision_row list" where
  "revisions_after st w limit complete_commits =
     (if limit < 1 then Inl (Violation ''limit must be a positive integer'')
      else
        let rows = take (nat limit) (sort_key (\<lambda>r. (rr_world_revision r, row_key r))
                     (filter (\<lambda>r. w < rr_world_revision r) (ws_revisions st)))
        in if complete_commits \<and> int (length rows) = limit then
             Inr (rows @ sort_key row_key
               (filter (\<lambda>r. rr_world_revision r = rr_world_revision (last rows)
                          \<and> row_key (last rows) < row_key r) (ws_revisions st)))
           else Inr rows)"

text \<open>The rows a historical cut admits.\<close>

definition visible :: "int option \<Rightarrow> instant option \<Rightarrow> revision_row \<Rightarrow> bool" where
  "visible as_of cutoff r \<longleftrightarrow>
     (case as_of of None \<Rightarrow> True | Some w \<Rightarrow> rr_world_revision r \<le> w)
   \<and> (case cutoff of None \<Rightarrow> True | Some t \<Rightarrow> rr_learned_at r \<le> t)"

definition get_payload ::
    "'h world_store \<Rightarrow> string \<Rightarrow> int option \<Rightarrow> int option \<Rightarrow> datetime option \<Rightarrow> store_error + payload" where
  "get_payload st oid revision as_of cutoff =
     result_bind (normalize_opt normalize_query_integer revision) (\<lambda>revision.
     result_bind (normalize_opt normalize_query_integer as_of) (\<lambda>as_of.
     result_bind (normalize_opt normalize_query_cutoff cutoff) (\<lambda>cutoff.
     case latest_by rr_revision (filter (\<lambda>r. rr_object_id r = oid
            \<and> (case revision of None \<Rightarrow> True | Some v \<Rightarrow> rr_revision r = v)
            \<and> visible as_of cutoff r) (ws_revisions st)) of
       None \<Rightarrow> Inl (StoreError EC_NOT_FOUND ''object not found'')
     | Some r \<Rightarrow> decode_payload ''corrupt_object_payload'' (rr_payload r))))"

text \<open>Newest visible revision first, then the filters on mutable columns.\<close>

definition selects :: "object_type option \<Rightarrow> string option \<Rightarrow> revision_row \<Rightarrow> bool" where
  "selects object_type subject r \<longleftrightarrow>
     (case object_type of None \<Rightarrow> True | Some t \<Rightarrow> rr_object_type r = t)
   \<and> (case subject of None \<Rightarrow> True | Some s \<Rightarrow> rr_subject_id r = s)"

fun first_per_object :: "string list \<Rightarrow> revision_row list \<Rightarrow> revision_row list" where
  "first_per_object seen [] = []"
| "first_per_object seen (r # rs) =
     (if rr_object_id r \<in> set seen then first_per_object seen rs
      else r # first_per_object (rr_object_id r # seen) rs)"

definition list_payloads_historical ::
    "'h world_store \<Rightarrow> object_type option \<Rightarrow> string option \<Rightarrow> int option \<Rightarrow> datetime option
       \<Rightarrow> store_error + payload list" where
  "list_payloads_historical st object_type subject as_of cutoff =
     result_bind (normalize_opt normalize_query_integer as_of) (\<lambda>as_of.
     result_bind (normalize_opt normalize_query_cutoff cutoff) (\<lambda>cutoff.
     let rows = sort_key (\<lambda>r. (rr_object_id r, - rr_revision r))
                  (filter (visible as_of cutoff) (ws_revisions st));
         selected = filter (selects object_type subject) (first_per_object [] rows)
     in result_map (\<lambda>r. decode_payload ''corrupt_object_payload'' (rr_payload r))
          (sort_key rr_recorded_at selected)))"

definition latest_rows :: "'h world_store \<Rightarrow> revision_row list" where
  "latest_rows st = filter (\<lambda>r. latest_revision st (rr_object_id r) = Some (rr_revision r)) (ws_revisions st)"

definition list_payloads ::
    "'h world_store \<Rightarrow> object_type option \<Rightarrow> string option \<Rightarrow> int option \<Rightarrow> datetime option
       \<Rightarrow> store_error + payload list" where
  "list_payloads st object_type subject as_of cutoff =
     result_bind (normalize_opt normalize_query_integer as_of) (\<lambda>as_of'.
     if as_of' \<noteq> None \<or> cutoff \<noteq> None
     then list_payloads_historical st object_type subject as_of' cutoff
     else result_map (\<lambda>r. decode_payload ''corrupt_object_payload'' (rr_payload r))
            (sort_key rr_recorded_at (filter (selects object_type subject) (latest_rows st))))"

definition is_latest_pruned :: "'h world_store \<Rightarrow> string \<Rightarrow> bool" where
  "is_latest_pruned st oid = (case latest_row st oid of
     None \<Rightarrow> False | Some r \<Rightarrow> rr_revision_kind r = RK_tombstone)"

definition operation_for_idempotency_key :: "'h world_store \<Rightarrow> string \<Rightarrow> operation_row option" where
  "operation_for_idempotency_key st key =
     List.find (\<lambda>r. or_idempotency_key r = key) (ws_operations st)"

definition find_operation :: "'h world_store \<Rightarrow> string \<Rightarrow> operation_row option" where
  "find_operation st oid = List.find (\<lambda>r. or_operation_id r = oid) (ws_operations st)"

definition operation_record :: "'h world_store \<Rightarrow> string \<Rightarrow> store_error + operation_row" where
  "operation_record st oid = (case find_operation st oid of
     None \<Rightarrow> Inl (StoreError EC_NOT_FOUND ''operation not found'') | Some r \<Rightarrow> Inr r)"

end
