(* ===== verification/Idempotency.thy ===== *)
theory Idempotency
  imports WorldStore
begin

text \<open>
  storage/idempotency.py: what a value becomes when it is stored as JSON, the identity of a
  commit request, and its fingerprints. A typed reference in an \<open>Any\<close> position is
  flattened to a plain mapping by the durable form, but stays a reference in the semantic
  identity. SHA-256 of a canonical text is \<open>digest\<close> of what the text determines.
\<close>

section \<open>The durable form\<close>

primrec durable_value :: "pyval \<Rightarrow> pyval" where
  "durable_value (PRef r) = PDict [(''object_id'', PStr (ref_object_id r)),
     (''revision'', case ref_revision r of None \<Rightarrow> PNone | Some v \<Rightarrow> PInt v)]"
| "durable_value (PSource s) = PDict [(''object_id'', PStr (src_object_id s)),
     (''revision'', case src_revision s of None \<Rightarrow> PNone | Some v \<Rightarrow> PInt v),
     (''source_locator'', case src_locator s of None \<Rightarrow> PNone | Some l \<Rightarrow> PStr l)]"
| "durable_value (PList xs) = PList (map durable_value xs)"
| "durable_value (PDict kvs) = PDict (map (map_prod id durable_value) kvs)"
| "durable_value PNone = PNone"
| "durable_value (PBool b) = PBool b"
| "durable_value (PInt i) = PInt i"
| "durable_value (PHugeInt i) = PHugeInt i"
| "durable_value (PFloat x) = PFloat x"
| "durable_value PNaN = PNaN"
| "durable_value PInf = PInf"
| "durable_value PNegInf = PNegInf"
| "durable_value (PStr s) = PStr s"
| "durable_value POpaque = POpaque"

definition durable_dict :: "pydict \<Rightarrow> pydict" where
  "durable_dict d = map (map_prod id durable_value) d"

primrec durable_body :: "object_body \<Rightarrow> object_body" where
  "durable_body (Observation e) = Observation (e\<lparr>obs_value := durable_value (obs_value e),
     obs_data_quality := durable_dict (obs_data_quality e)\<rparr>)"
| "durable_body (Entity e) = Entity e"
| "durable_body (Relation e) = Relation e"
| "durable_body (DimensionDefinition e) = DimensionDefinition
     (e\<lparr>dim_maintenance_policy := durable_dict (dim_maintenance_policy e)\<rparr>)"
| "durable_body (DimensionMembership e) = DimensionMembership e"
| "durable_body (DimensionDerivation e) = DimensionDerivation
     (e\<lparr>dder_applicable_scope := durable_dict (dder_applicable_scope e)\<rparr>)"
| "durable_body (Claim e) = Claim e"
| "durable_body (EvidenceSet e) = EvidenceSet (e\<lparr>evs_selector :=
     map_option (\<lambda>s. s\<lparr>sel_filters := durable_dict (sel_filters s)\<rparr>) (evs_selector e)\<rparr>)"
| "durable_body (EventAnchor e) = EventAnchor e"
| "durable_body (Summary e) = Summary (e\<lparr>sum_coverage := durable_dict (sum_coverage e)\<rparr>)"
| "durable_body (Goal e) = Goal e"
| "durable_body (Dependency e) = Dependency e"
| "durable_body (Task e) = Task (e\<lparr>
     tsk_recurrence := map_option durable_dict (tsk_recurrence e),
     tsk_completion_condition := durable_dict (tsk_completion_condition e),
     tsk_cancel_condition := durable_dict (tsk_cancel_condition e)\<rparr>)"
| "durable_body (Wake e) = Wake e"
| "durable_body (Session e) = Session (e\<lparr>ses_checkpoint := durable_dict (ses_checkpoint e)\<rparr>)"
| "durable_body (Action e) = Action (e\<lparr>act_payload := durable_dict (act_payload e)\<rparr>)"
| "durable_body (Outcome e) = Outcome (e\<lparr>out_payload := durable_dict (out_payload e)\<rparr>)"
| "durable_body (OperationExperience e) = OperationExperience
     (e\<lparr>exp_applicability := durable_dict (exp_applicability e)\<rparr>)"
| "durable_body (ToolProposal e) = ToolProposal
     (e\<lparr>tlp_proposed_interface := durable_dict (tlp_proposed_interface e)\<rparr>)"
| "durable_body (Prediction e) = Prediction e"
| "durable_body (LifeChapter e) = LifeChapter e"
| "durable_body (Reinterpretation e) = Reinterpretation e"
| "durable_body (CommunicationExperience e) = CommunicationExperience
     (e\<lparr>cxp_applicable_conditions := durable_dict (cxp_applicable_conditions e)\<rparr>)"
| "durable_body (CognitivePolicy e) = CognitivePolicy (e\<lparr>
     cgp_default_value := durable_value (cgp_default_value e),
     cgp_current_value := durable_value (cgp_current_value e),
     cgp_allowed_range_or_choices := durable_value (cgp_allowed_range_or_choices e)\<rparr>)"
| "durable_body (BudgetPolicy e) = BudgetPolicy e"
| "durable_body (AssemblyPolicy e) = AssemblyPolicy e"
| "durable_body (NarrativeSegment e) = NarrativeSegment e"
| "durable_body (DimensionCurvePoint e) = DimensionCurvePoint e"

definition durable_object :: "world_object \<Rightarrow> world_object" where
  "durable_object ob = ob\<lparr>wo_metadata := durable_dict (wo_metadata ob),
     wo_body := durable_body (wo_body ob)\<rparr>"

section \<open>Request identity\<close>

definition object_key :: "world_object \<Rightarrow> string \<times> int" where
  "object_key ob = (wo_object_id ob, wo_revision ob)"

record request_identity =
  ri_operation_id :: string
  ri_session_id :: "string option"
  ri_operation_name :: string
  ri_arguments :: pydict
  ri_expected_world_revision :: int
  ri_reason :: string
  ri_idempotency_key :: string
  ri_objects :: "(string \<times> int \<times> payload) list"

datatype identity_text = SemanticText request_identity | LegacyText request_identity

datatype fingerprint_error = RequestInvalid contract_error | RequestNotDurable durable_json_error

definition entry_key :: "string \<times> int \<times> payload \<Rightarrow> string \<times> int" where
  "entry_key e = (fst e, fst (snd e))"

definition object_entries :: "(world_object \<Rightarrow> world_object) \<Rightarrow> world_object list
    \<Rightarrow> (string \<times> int \<times> payload) list" where
  "object_entries f obs = sort_key entry_key
     (map (\<lambda>ob. (wo_object_id ob, wo_revision ob, PayloadObject (f ob))) obs)"

definition request_identity_of :: "operation_request \<Rightarrow> world_object list \<Rightarrow> request_identity" where
  "request_identity_of op obs = \<lparr>
     ri_operation_id = op_operation_id op,
     ri_session_id = op_session_id op,
     ri_operation_name = op_operation_name op,
     ri_arguments = op_arguments op,
     ri_expected_world_revision = op_expected_world_revision op,
     ri_reason = op_reason op,
     ri_idempotency_key = op_idempotency_key op,
     ri_objects = object_entries id obs\<rparr>"

definition normalize_objects ::
    "(string \<Rightarrow> bool) \<Rightarrow> world_object list \<Rightarrow> fingerprint_error + world_object list" where
  "normalize_objects zones obs = result_map (\<lambda>ob. case normalize_world_object zones ob of
     Inl e \<Rightarrow> Inl (RequestInvalid e) | Inr ob' \<Rightarrow> Inr ob') obs"

definition normalize_request ::
    "(string \<Rightarrow> bool) \<Rightarrow> operation_request \<Rightarrow> world_object list
       \<Rightarrow> fingerprint_error + operation_request \<times> world_object list" where
  "normalize_request zones op obs = (case normalize_operation op of
     Inl e \<Rightarrow> Inl (RequestInvalid e)
   | Inr op' \<Rightarrow> result_bind (normalize_objects zones obs) (\<lambda>obs'. Inr (op', obs')))"

text \<open>\<open>Mapping\<close> of the arguments is one level below the request's own mapping.\<close>

definition request_fingerprint ::
    "(string \<Rightarrow> bool) \<Rightarrow> (identity_text \<Rightarrow> 'h) \<Rightarrow> operation_request \<Rightarrow> world_object list
       \<Rightarrow> fingerprint_error + 'h" where
  "request_fingerprint zones digest op obs =
     result_bind (normalize_request zones op obs) (\<lambda>(op', obs').
     case or_else (semantic_identity_error (PDict (op_arguments op')) 1)
            (first_some (map identity_json_error obs')) of
       Some e \<Rightarrow> Inl (RequestNotDurable e)
     | None \<Rightarrow> Inr (digest (SemanticText (request_identity_of op' obs'))))"

section \<open>Rows of older releases\<close>

definition legacy_ambiguous_object :: "world_object \<Rightarrow> bool" where
  "legacy_ambiguous_object ob \<longleftrightarrow> collect_refs ob \<noteq> []
     \<or> list_ex (\<lambda>f. legacy_ambiguous (snd f)) (object_any_fields ob)"

definition legacy_request_fingerprint ::
    "(string \<Rightarrow> bool) \<Rightarrow> (identity_text \<Rightarrow> 'h) \<Rightarrow> operation_request \<Rightarrow> world_object list
       \<Rightarrow> fingerprint_error + 'h" where
  "legacy_request_fingerprint zones digest op obs =
     result_bind (normalize_request zones op obs) (\<lambda>(op', obs').
     if legacy_ambiguous (PDict (op_arguments op')) \<or> list_ex legacy_ambiguous_object obs'
     then Inl (RequestNotDurable NotSerializable)
     else case or_else (canonical_json_error (PDict (op_arguments op')) 0)
            (first_some (map payload_json_error obs')) of
       Some e \<Rightarrow> Inl (RequestNotDurable e)
     | None \<Rightarrow> Inr (digest (LegacyText ((request_identity_of op' obs')
         \<lparr>ri_arguments := durable_dict (op_arguments op'),
          ri_objects := object_entries durable_object obs'\<rparr>))))"

text \<open>\<open>None\<close>: the records are internally inconsistent.\<close>

definition stored_request_fingerprint ::
    "(identity_text \<Rightarrow> 'h) \<Rightarrow> 'h world_store \<Rightarrow> string \<Rightarrow> int \<Rightarrow> 'h option" where
  "stored_request_fingerprint digest st operation_id w =
     (case find_operation st operation_id of
        None \<Rightarrow> None
      | Some op \<Rightarrow>
          let rows = sort_key row_key (filter (\<lambda>r. rr_world_revision r = w) (ws_revisions st)) in
          if list_ex (\<lambda>r. rr_payload r = PayloadCorrupt) rows then None
          else Some (digest (LegacyText \<lparr>
            ri_operation_id = or_operation_id op,
            ri_session_id = or_session_id op,
            ri_operation_name = or_operation_name op,
            ri_arguments = or_arguments op,
            ri_expected_world_revision = or_expected_world_revision op,
            ri_reason = or_reason op,
            ri_idempotency_key = or_idempotency_key op,
            ri_objects = map (\<lambda>r. (rr_object_id r, rr_revision r, rr_payload r)) rows\<rparr>)))"

section \<open>What the durable form keeps\<close>

lemma durable_body_type [simp]: "body_object_type (durable_body b) = body_object_type b"
  by (cases b) simp_all

lemma durable_object_fields [simp]:
  "wo_object_id (durable_object ob) = wo_object_id ob"
  "wo_revision (durable_object ob) = wo_revision ob"
  "wo_subject_id (durable_object ob) = wo_subject_id ob"
  "wo_learned_at (durable_object ob) = wo_learned_at ob"
  "wo_recorded_at (durable_object ob) = wo_recorded_at ob"
  "wo_object_type (durable_object ob) = wo_object_type ob"
  by (simp_all add: durable_object_def wo_object_type_def)

lemma durable_dependency [simp]:
  "wo_body (durable_object ob) = Dependency e \<longleftrightarrow> wo_body ob = Dependency e"
  by (cases "wo_body ob") (simp_all add: durable_object_def)

lemma valid_durable_dependency:
  assumes "valid_object zones ob" and "wo_body ob = Dependency e"
  shows "valid_object zones (durable_object ob)"
  using assms
  by (simp add: valid_object_def world_object_guards_def world_base_fields_def validate_times_def
      durable_object_def)

text \<open>The durable form of a value holds no typed reference, and storing it again keeps it.\<close>

lemma durable_value_refs [simp]: "pyval_refs (durable_value v) = []"
  by (induction v) (auto split: option.splits)

lemma durable_value_idem [simp]: "durable_value (durable_value v) = durable_value v"
  by (induction v) (auto split: option.splits)

end
