(* ===== verification/Directives.thy ===== *)
theory Directives
  imports Idempotency
begin

text \<open>
  The exact provider reply: runtime/cognitive_runtime.py's usage, provenance and directive
  with their validators, and the encoder and strict decoder of
  runtime/background_attempt.py. The texts of \<open>json.dumps\<close>, the parser \<open>json.loads\<close> and
  SHA-256 belong to the standard library's codecs and are fields of the environment: the
  parser answers the tree of a text with its object pairs in order, before the hook that
  rejects duplicate keys.
\<close>

datatype json = JScalar pyval | JArray "json list" | JObject "(string \<times> json) list"

record codec =
  cd_dumps :: "pyval \<Rightarrow> string"
  cd_loads :: "string \<Rightarrow> json option"
  cd_sha256 :: "string \<Rightarrow> nat list"

section \<open>Hexadecimal text\<close>

definition hex_digit :: "nat \<Rightarrow> char" where
  "hex_digit n = (if n < 10 then char_of (48 + n) else char_of (87 + n))"

definition hex_byte :: "nat \<Rightarrow> string" where
  "hex_byte b = [hex_digit (b div 16), hex_digit (b mod 16)]"

definition hexdigest :: "codec \<Rightarrow> string \<Rightarrow> string" where
  "hexdigest cd text = concat (map hex_byte (cd_sha256 cd text))"

section \<open>Usage, provenance, directive\<close>

record model_usage =
  mu_total_tokens :: int
  mu_input_tokens :: "int option"
  mu_output_tokens :: "int option"
  mu_reasoning_tokens :: "int option"
  mu_cached_input_tokens :: "int option"
  mu_provider :: "string option"
  mu_model :: "string option"
  mu_request_id :: "string option"

record model_provenance =
  mp_provider :: string
  mp_model :: string
  mp_request_id :: string

record capability_call =
  cc_name :: string
  cc_arguments :: pydict
  cc_call_id :: "string option"

record model_directive =
  md_capability_calls :: "capability_call list"
  md_response :: "string option"
  md_silence :: bool
  md_usage :: "model_usage option"
  md_provenance :: "model_provenance option"

datatype directive_error = DirectiveInvalid string | DirectiveNotDurable durable_json_error

definition some_negative :: "int option \<Rightarrow> bool" where
  "some_negative v = (case v of None \<Rightarrow> False | Some n \<Rightarrow> n < 0)"

definition some_blank :: "string option \<Rightarrow> bool" where
  "some_blank v = (case v of None \<Rightarrow> False | Some s \<Rightarrow> blank s)"

definition usage_guards :: "model_usage \<Rightarrow> (bool \<times> directive_error) list" where
  "usage_guards u =
     [(mu_total_tokens u < 0, DirectiveInvalid ''total_tokens must be a non-negative integer''),
      (some_negative (mu_input_tokens u), DirectiveInvalid ''input_tokens must be a non-negative integer''),
      (some_negative (mu_output_tokens u), DirectiveInvalid ''output_tokens must be a non-negative integer''),
      (some_negative (mu_reasoning_tokens u), DirectiveInvalid ''reasoning_tokens must be a non-negative integer''),
      (some_negative (mu_cached_input_tokens u), DirectiveInvalid ''cached_input_tokens must be a non-negative integer''),
      (case (mu_input_tokens u, mu_output_tokens u) of
         (Some i, Some n) \<Rightarrow> mu_total_tokens u < i + n + (case mu_reasoning_tokens u of None \<Rightarrow> 0 | Some r \<Rightarrow> r)
       | _ \<Rightarrow> False,
       DirectiveInvalid ''total_tokens must cover reported tokens''),
      (some_blank (mu_provider u), DirectiveInvalid ''provider must be non-blank when provided''),
      (some_blank (mu_model u), DirectiveInvalid ''model must be non-blank when provided''),
      (some_blank (mu_request_id u), DirectiveInvalid ''request_id must be non-blank when provided'')]"

definition provenance_guards :: "model_provenance \<Rightarrow> (bool \<times> directive_error) list" where
  "provenance_guards p =
     [(blank (mp_provider p), DirectiveInvalid ''provider must be non-blank''),
      (blank (mp_model p), DirectiveInvalid ''model must be non-blank''),
      (blank (mp_request_id p), DirectiveInvalid ''request_id must be non-blank'')]"

definition differs :: "string option \<Rightarrow> string \<Rightarrow> bool" where
  "differs u p \<longleftrightarrow> u \<noteq> None \<and> u \<noteq> Some p"

definition directive_guards :: "model_directive \<Rightarrow> (bool \<times> directive_error) list" where
  "directive_guards d =
     [(md_silence d \<and> md_response d \<noteq> None,
         DirectiveInvalid ''directive cannot be silent and respond simultaneously''),
      (md_silence d \<and> md_capability_calls d \<noteq> [],
         DirectiveInvalid ''directive cannot be silent and request capabilities simultaneously''),
      (md_capability_calls d = [] \<and> \<not> md_silence d \<and> md_response d = None,
         DirectiveInvalid ''directive must request capabilities, respond, or stay silent''),
      (some_blank (md_response d), DirectiveInvalid ''response must be non-blank when provided'')]
     @ (case (md_usage d, md_provenance d) of
          (Some u, Some p) \<Rightarrow>
            [(differs (mu_provider u) (mp_provider p), DirectiveInvalid ''usage provider conflicts''),
             (differs (mu_model u) (mp_model p), DirectiveInvalid ''usage model conflicts''),
             (differs (mu_request_id u) (mp_request_id p), DirectiveInvalid ''usage request_id conflicts'')]
        | _ \<Rightarrow> [])"

text \<open>What the constructors of the three dataclasses accept.\<close>

definition constructed :: "model_directive \<Rightarrow> bool" where
  "constructed d \<longleftrightarrow> first_raise (directive_guards d) = None
     \<and> (\<forall>u \<in> set_option (md_usage d). first_raise (usage_guards u) = None)
     \<and> (\<forall>p \<in> set_option (md_provenance d). first_raise (provenance_guards p) = None)"

section \<open>Encoding\<close>

definition py_opt_str :: "string option \<Rightarrow> pyval" where
  "py_opt_str v = (case v of None \<Rightarrow> PNone | Some s \<Rightarrow> PStr s)"

definition py_opt_int :: "int option \<Rightarrow> pyval" where
  "py_opt_int v = (case v of None \<Rightarrow> PNone | Some n \<Rightarrow> PInt n)"

definition encode_call :: "capability_call \<Rightarrow> pyval" where
  "encode_call c = PDict [(''arguments'', PDict (cc_arguments c)), (''call_id'', py_opt_str (cc_call_id c)),
     (''name'', PStr (cc_name c))]"

definition encode_usage :: "model_usage option \<Rightarrow> pyval" where
  "encode_usage v = (case v of None \<Rightarrow> PNone | Some u \<Rightarrow> PDict [
     (''input_tokens'', py_opt_int (mu_input_tokens u)), (''model'', py_opt_str (mu_model u)),
     (''output_tokens'', py_opt_int (mu_output_tokens u)), (''provider'', py_opt_str (mu_provider u)),
     (''request_id'', py_opt_str (mu_request_id u)), (''total_tokens'', PInt (mu_total_tokens u))])"

definition encode_provenance :: "model_provenance option \<Rightarrow> pyval" where
  "encode_provenance v = (case v of None \<Rightarrow> PNone | Some p \<Rightarrow> PDict [
     (''model'', PStr (mp_model p)), (''provider'', PStr (mp_provider p)),
     (''request_id'', PStr (mp_request_id p))])"

definition directive_payload :: "model_directive \<Rightarrow> pyval" where
  "directive_payload d = PDict [
     (''capability_calls'', PList (map encode_call (md_capability_calls d))),
     (''provenance'', encode_provenance (md_provenance d)), (''response'', py_opt_str (md_response d)),
     (''silence'', PBool (md_silence d)), (''usage'', encode_usage (md_usage d))]"

definition canonical_json_dumps :: "codec \<Rightarrow> pyval \<Rightarrow> directive_error + string" where
  "canonical_json_dumps cd v = (case canonical_json_error v 0 of
     Some e \<Rightarrow> Inl (DirectiveNotDurable e) | None \<Rightarrow> Inr (cd_dumps cd (durable_value v)))"

definition encode_model_directive :: "codec \<Rightarrow> model_directive \<Rightarrow> directive_error + string" where
  "encode_model_directive cd d = canonical_json_dumps cd (directive_payload d)"

text \<open>The fingerprint hashes a mapping with the same members as the encoding.\<close>

definition response_fingerprint :: "codec \<Rightarrow> model_directive \<Rightarrow> directive_error + string" where
  "response_fingerprint cd d = result_bind (canonical_json_dumps cd (directive_payload d))
     (\<lambda>text. Inr (hexdigest cd text))"

definition or_str :: "string option \<Rightarrow> string option \<Rightarrow> string option" where
  "or_str a b = (if a = None \<or> a = Some [] then b else a)"

definition provider_identity ::
    "model_directive \<Rightarrow> string option \<times> string option \<times> string option" where
  "provider_identity d =
     (let provider = map_option mp_provider (md_provenance d);
          model = map_option mp_model (md_provenance d);
          request_id = map_option mp_request_id (md_provenance d)
      in case md_usage d of
           None \<Rightarrow> (provider, model, request_id)
         | Some u \<Rightarrow> (or_str (mu_provider u) provider, or_str (mu_model u) model,
                      or_str (mu_request_id u) request_id))"

section \<open>Strict decoding\<close>

fun collect :: "('e + 'a) list \<Rightarrow> 'e + 'a list" where
  "collect [] = Inr []"
| "collect (r # rs) = result_bind r (\<lambda>x. result_bind (collect rs) (\<lambda>xs. Inr (x # xs)))"

primrec strict_json :: "json \<Rightarrow> directive_error + pyval" where
  "strict_json (JScalar v) = Inr v"
| "strict_json (JArray xs) = result_bind (collect (map strict_json xs)) (\<lambda>vs. Inr (PList vs))"
| "strict_json (JObject kvs) =
     result_bind (collect (map (\<lambda>kr. result_bind (snd kr) (\<lambda>v. Inr (fst kr, v)))
        (map (map_prod id strict_json) kvs))) (\<lambda>ps.
     if distinct (map fst ps) then Inr (PDict (sort_key fst ps))
     else Inl (DirectiveInvalid ''duplicate JSON key''))"

definition fields_of :: "string list \<Rightarrow> pyval \<Rightarrow> pydict option" where
  "fields_of names v = (case v of
     PDict d \<Rightarrow> if set (map fst d) = set names then Some d else None | _ \<Rightarrow> None)"

definition as_int :: "pyval \<Rightarrow> int option" where
  "as_int v = (case v of PInt n \<Rightarrow> Some n | PHugeInt n \<Rightarrow> Some n | _ \<Rightarrow> None)"

definition decode_opt_int :: "pyval \<Rightarrow> directive_error + int option" where
  "decode_opt_int v = (if v = PNone then Inr None else case as_int v of
     None \<Rightarrow> Inl (DirectiveInvalid ''usage tokens must be an integer or null'') | Some n \<Rightarrow> Inr (Some n))"

definition decode_text :: "pyval \<Rightarrow> directive_error + string" where
  "decode_text v = (case v of PStr s \<Rightarrow>
       if blank s then Inl (DirectiveInvalid ''must be non-blank text'') else Inr s
     | _ \<Rightarrow> Inl (DirectiveInvalid ''must be non-blank text''))"

definition decode_opt_text :: "pyval \<Rightarrow> directive_error + string option" where
  "decode_opt_text v = (if v = PNone then Inr None
     else result_bind (decode_text v) (\<lambda>s. Inr (Some s)))"

definition decode_call :: "pyval \<Rightarrow> directive_error + capability_call" where
  "decode_call v = (case fields_of [''name'', ''arguments'', ''call_id''] v of
     None \<Rightarrow> Inl (DirectiveInvalid ''capability call has unexpected fields'')
   | Some d \<Rightarrow>
      result_bind (decode_text (dict_get d ''name'')) (\<lambda>name.
      case dict_get d ''arguments'' of
        PDict a \<Rightarrow> result_bind (decode_opt_text (dict_get d ''call_id'')) (\<lambda>call_id.
          Inr \<lparr>cc_name = name, cc_arguments = a, cc_call_id = call_id\<rparr>)
      | _ \<Rightarrow> Inl (DirectiveInvalid ''capability arguments must be an object'')))"

definition decode_usage :: "pyval \<Rightarrow> directive_error + model_usage option" where
  "decode_usage v = (if v = PNone then Inr None else
     case fields_of [''total_tokens'', ''input_tokens'', ''output_tokens'', ''provider'', ''model'', ''request_id''] v of
       None \<Rightarrow> Inl (DirectiveInvalid ''usage has unexpected fields'')
     | Some d \<Rightarrow>
        (case as_int (dict_get d ''total_tokens'') of
           None \<Rightarrow> Inl (DirectiveInvalid ''usage total_tokens must be an integer'')
         | Some total_tokens \<Rightarrow>
            result_bind (decode_opt_int (dict_get d ''input_tokens'')) (\<lambda>input.
            result_bind (decode_opt_int (dict_get d ''output_tokens'')) (\<lambda>output.
            result_bind (decode_opt_text (dict_get d ''provider'')) (\<lambda>provider.
            result_bind (decode_opt_text (dict_get d ''model'')) (\<lambda>model.
            result_bind (decode_opt_text (dict_get d ''request_id'')) (\<lambda>request_id.
            let u = \<lparr>mu_total_tokens = total_tokens, mu_input_tokens = input, mu_output_tokens = output,
                  mu_reasoning_tokens = None, mu_cached_input_tokens = None,
                  mu_provider = provider, mu_model = model, mu_request_id = request_id\<rparr>
            in result_bind (raising (usage_guards u) u) (\<lambda>u. Inr (Some u)))))))))"

definition decode_provenance :: "pyval \<Rightarrow> directive_error + model_provenance option" where
  "decode_provenance v = (if v = PNone then Inr None else
     case fields_of [''provider'', ''model'', ''request_id''] v of
       None \<Rightarrow> Inl (DirectiveInvalid ''provenance has unexpected fields'')
     | Some d \<Rightarrow>
        result_bind (decode_text (dict_get d ''provider'')) (\<lambda>provider.
        result_bind (decode_text (dict_get d ''model'')) (\<lambda>model.
        result_bind (decode_text (dict_get d ''request_id'')) (\<lambda>request_id.
        Inr (Some \<lparr>mp_provider = provider, mp_model = model, mp_request_id = request_id\<rparr>)))))"

definition decode_directive :: "pyval \<Rightarrow> directive_error + model_directive" where
  "decode_directive v =
     (case fields_of [''capability_calls'', ''response'', ''silence'', ''usage'', ''provenance''] v of
        None \<Rightarrow> Inl (DirectiveInvalid ''payload has unexpected fields'')
      | Some d \<Rightarrow>
         (case dict_get d ''capability_calls'' of
            PList xs \<Rightarrow>
              result_bind (result_map decode_call xs) (\<lambda>calls.
              result_bind (case dict_get d ''response'' of PNone \<Rightarrow> Inr None | PStr s \<Rightarrow> Inr (Some s)
                 | _ \<Rightarrow> Inl (DirectiveInvalid ''response must be text or null'')) (\<lambda>response.
              result_bind (case dict_get d ''silence'' of PBool b \<Rightarrow> Inr b
                 | _ \<Rightarrow> Inl (DirectiveInvalid ''silence must be a boolean'')) (\<lambda>silence.
              result_bind (decode_usage (dict_get d ''usage'')) (\<lambda>usage.
              result_bind (decode_provenance (dict_get d ''provenance'')) (\<lambda>provenance.
              let r = \<lparr>md_capability_calls = calls, md_response = response, md_silence = silence,
                    md_usage = usage, md_provenance = provenance\<rparr>
              in raising (directive_guards r) r)))))
          | _ \<Rightarrow> Inl (DirectiveInvalid ''capability_calls must be a list'')))"

definition decode_model_directive :: "codec \<Rightarrow> string \<Rightarrow> directive_error + model_directive" where
  "decode_model_directive cd text =
     (if blank text then Inl (DirectiveInvalid ''payload must be non-blank text'')
      else case cd_loads cd text of
        None \<Rightarrow> Inl (DirectiveInvalid ''payload is not valid JSON'')
      | Some t \<Rightarrow> result_bind (strict_json t) decode_directive)"

section \<open>What survives the encoding\<close>

text \<open>
  The encoder drops two token counters, and a typed reference among the arguments of a call
  becomes the mapping that stands for it in JSON.
\<close>

definition durable_call :: "capability_call \<Rightarrow> capability_call" where
  "durable_call c = c\<lparr>cc_arguments := durable_dict (cc_arguments c)\<rparr>"

definition without_counters :: "model_usage \<Rightarrow> model_usage" where
  "without_counters u = u\<lparr>mu_reasoning_tokens := None, mu_cached_input_tokens := None\<rparr>"

definition durable_directive :: "model_directive \<Rightarrow> model_directive" where
  "durable_directive d = d\<lparr>md_capability_calls := map durable_call (md_capability_calls d),
     md_usage := map_option without_counters (md_usage d)\<rparr>"

definition decodable_call :: "capability_call \<Rightarrow> bool" where
  "decodable_call c \<longleftrightarrow> \<not> blank (cc_name c) \<and> \<not> some_blank (cc_call_id c)"

lemma durable_opt [simp]:
  "durable_value (py_opt_str v) = py_opt_str v" "durable_value (py_opt_int w) = py_opt_int w"
  by (simp_all add: py_opt_str_def py_opt_int_def split: option.splits)

lemma durable_PDict: "durable_value (PDict d) = PDict (durable_dict d)"
  by (simp add: durable_dict_def)

lemma durable_dict_idem [simp]: "durable_dict (durable_dict d) = durable_dict d"
  using durable_value_idem [of "PDict d"] by (simp only: durable_PDict pyval.inject)

lemma durable_call_idem [simp]: "durable_call (durable_call c) = durable_call c"
  by (simp add: durable_call_def)

lemma durable_encode_call: "durable_value (encode_call c) = encode_call (durable_call c)"
  by (simp add: encode_call_def durable_call_def durable_dict_def)

lemma durable_payload:
  "durable_value (directive_payload d) = durable_value (directive_payload (durable_directive d))"
  by (simp add: directive_payload_def durable_directive_def durable_encode_call
      without_counters_def encode_usage_def encode_provenance_def comp_def split: option.splits)

lemma depth_error_durable:
  "canonical_json_error v n = None \<Longrightarrow> canonical_json_error (durable_value v) n = None"
  by (induction v arbitrary: n) (auto simp: depth_error_def split: option.splits if_splits)

lemma canonical_payload:
  assumes "canonical_json_error (directive_payload d) 0 = None"
  shows "canonical_json_error (directive_payload (durable_directive d)) 0 = None"
proof -
  have args: "canonical_json_error (PDict (durable_dict a)) n = None"
    if "canonical_json_error (PDict a) n = None" for a n
    using depth_error_durable [OF that] by (simp add: durable_dict_def)
  have call: "canonical_json_error (encode_call (durable_call c)) n = None"
    if "canonical_json_error (encode_call c) n = None" for c n
    using that args by (simp add: encode_call_def durable_call_def del: canonical_json_error.simps(14))
      (simp del: canonical_json_error.simps(14) add: canonical_json_error.simps(14) [of "_ # _"])
  show ?thesis
    using assms call
    by (simp add: directive_payload_def durable_directive_def encode_usage_def without_counters_def
        split: option.splits)
qed

lemma dict_get_Cons [simp]: "dict_get ((k, v) # d) n = (if k = n then v else dict_get d n)"
  by (simp add: dict_get_def)

text \<open>The encoder's member lists have exactly the fields the decoder asks for.\<close>

lemma fields_of_encoded:
  "fields_of [''name'', ''arguments'', ''call_id''] (PDict [(''arguments'', a), (''call_id'', b), (''name'', c)])
     = Some [(''arguments'', a), (''call_id'', b), (''name'', c)]"
  "fields_of [''provider'', ''model'', ''request_id'']
      (PDict [(''model'', a), (''provider'', b), (''request_id'', c)])
     = Some [(''model'', a), (''provider'', b), (''request_id'', c)]"
  "fields_of [''total_tokens'', ''input_tokens'', ''output_tokens'', ''provider'', ''model'', ''request_id'']
      (PDict [(''input_tokens'', a), (''model'', b), (''output_tokens'', c), (''provider'', e),
        (''request_id'', f), (''total_tokens'', g)])
     = Some [(''input_tokens'', a), (''model'', b), (''output_tokens'', c), (''provider'', e),
        (''request_id'', f), (''total_tokens'', g)]"
  "fields_of [''capability_calls'', ''response'', ''silence'', ''usage'', ''provenance'']
      (PDict [(''capability_calls'', a), (''provenance'', b), (''response'', c), (''silence'', e),
        (''usage'', f)])
     = Some [(''capability_calls'', a), (''provenance'', b), (''response'', c), (''silence'', e),
        (''usage'', f)]"
proof -
  have same: "fields_of names (PDict d) = Some d" if "set (map fst d) = set names" for names d
    using that by (simp add: fields_of_def)
  show "fields_of [''name'', ''arguments'', ''call_id''] (PDict [(''arguments'', a), (''call_id'', b), (''name'', c)])
     = Some [(''arguments'', a), (''call_id'', b), (''name'', c)]"
    by (rule same) (simp only: list.map fst_conv list.set, rule equalityI;
      simp only: insert_subset insert_iff simp_thms empty_subsetI)
  show "fields_of [''provider'', ''model'', ''request_id'']
      (PDict [(''model'', a), (''provider'', b), (''request_id'', c)])
     = Some [(''model'', a), (''provider'', b), (''request_id'', c)]"
    by (rule same) (simp only: list.map fst_conv list.set, rule equalityI;
      simp only: insert_subset insert_iff simp_thms empty_subsetI)
  show "fields_of [''total_tokens'', ''input_tokens'', ''output_tokens'', ''provider'', ''model'', ''request_id'']
      (PDict [(''input_tokens'', a), (''model'', b), (''output_tokens'', c), (''provider'', e),
        (''request_id'', f), (''total_tokens'', g)])
     = Some [(''input_tokens'', a), (''model'', b), (''output_tokens'', c), (''provider'', e),
        (''request_id'', f), (''total_tokens'', g)]"
    by (rule same) (simp only: list.map fst_conv list.set, rule equalityI;
      simp only: insert_subset insert_iff simp_thms empty_subsetI)
  show "fields_of [''capability_calls'', ''response'', ''silence'', ''usage'', ''provenance'']
      (PDict [(''capability_calls'', a), (''provenance'', b), (''response'', c), (''silence'', e),
        (''usage'', f)])
     = Some [(''capability_calls'', a), (''provenance'', b), (''response'', c), (''silence'', e),
        (''usage'', f)]"
    by (rule same) (simp only: list.map fst_conv list.set, rule equalityI;
      simp only: insert_subset insert_iff simp_thms empty_subsetI)
qed

lemma decode_opt_simps [simp]:
  "\<not> some_blank v \<Longrightarrow> decode_opt_text (py_opt_str v) = Inr v"
  "decode_opt_int (py_opt_int w) = Inr w"
  "as_int (PInt n) = Some n"
  by (auto simp: decode_opt_text_def py_opt_str_def decode_text_def some_blank_def decode_opt_int_def
      py_opt_int_def as_int_def split: option.splits)

lemma decode_encode_call:
  "decodable_call c \<Longrightarrow> decode_call (durable_value (encode_call c)) = Inr (durable_call c)"
  by (simp add: decode_call_def encode_call_def decodable_call_def fields_of_encoded
      decode_text_def durable_call_def durable_dict_def)

text \<open>
  The encoder takes every call, the decoder refuses a blank name and a blank call id.
\<close>

definition refused_call :: directive_error where
  "refused_call = DirectiveInvalid ''must be non-blank text''"

lemma decode_call_refused:
  "\<not> decodable_call c \<Longrightarrow> decode_call (durable_value (encode_call c)) = Inl refused_call"
  by (auto simp: decode_call_def encode_call_def decodable_call_def fields_of_encoded refused_call_def
      decode_text_def decode_opt_text_def py_opt_str_def some_blank_def split: option.splits)

lemma result_map_refused:
  "\<forall>x \<in> set xs. f x = Inl e \<or> (\<exists>y. f x = Inr y) \<Longrightarrow> \<exists>x \<in> set xs. f x = Inl e \<Longrightarrow> result_map f xs = Inl e"
proof (induction xs)
  case (Cons x xs)
  show ?case
  proof (cases "f x")
    case (Inr y)
    then have "result_map f xs = Inl e" using Cons.prems by (intro Cons.IH) auto
    with Inr show ?thesis by simp
  qed (use Cons.prems in auto)
qed simp

lemma decode_encode_refused:
  assumes "\<exists>c \<in> set (md_capability_calls d). \<not> decodable_call c"
  shows "decode_directive (durable_value (directive_payload d)) = Inl refused_call"
proof -
  have "result_map decode_call (map durable_value (map encode_call (md_capability_calls d))) = Inl refused_call"
    using assms decode_call_refused decode_encode_call by (intro result_map_refused) auto
  then show ?thesis by (simp add: decode_directive_def directive_payload_def fields_of_encoded)
qed

lemma usage_guards_without_counters:
  "first_raise (usage_guards u) = None \<Longrightarrow> first_raise (usage_guards (without_counters u)) = None"
  by (auto simp: usage_guards_def without_counters_def some_negative_def split: option.splits)

lemma without_counters_eq: "without_counters u = \<lparr>mu_total_tokens = mu_total_tokens u,
    mu_input_tokens = mu_input_tokens u, mu_output_tokens = mu_output_tokens u,
    mu_reasoning_tokens = None, mu_cached_input_tokens = None, mu_provider = mu_provider u,
    mu_model = mu_model u, mu_request_id = mu_request_id u\<rparr>"
  by (simp add: without_counters_def)

lemma durable_directive_eq: "durable_directive d = \<lparr>
    md_capability_calls = map durable_call (md_capability_calls d), md_response = md_response d,
    md_silence = md_silence d, md_usage = map_option without_counters (md_usage d),
    md_provenance = md_provenance d\<rparr>"
  by (simp add: durable_directive_def)

lemma decode_encode_usage:
  assumes "\<And>u. v = Some u \<Longrightarrow> first_raise (usage_guards u) = None"
  shows "decode_usage (durable_value (encode_usage v)) = Inr (map_option without_counters v)"
proof (cases v)
  case (Some u)
  then have ok: "first_raise (usage_guards u) = None" using assms by simp
  have "\<not> some_blank (mu_provider u)" "\<not> some_blank (mu_model u)" "\<not> some_blank (mu_request_id u)"
    using ok by (simp_all add: usage_guards_def)
  then show ?thesis using Some usage_guards_without_counters [OF ok, unfolded without_counters_eq]
    by (simp add: decode_usage_def encode_usage_def fields_of_encoded without_counters_eq Let_def)
qed (simp add: decode_usage_def encode_usage_def)

lemma decode_encode_provenance:
  assumes "\<And>p. v = Some p \<Longrightarrow> first_raise (provenance_guards p) = None"
  shows "decode_provenance (durable_value (encode_provenance v)) = Inr v"
  using assms
  by (cases v) (simp_all add: decode_provenance_def encode_provenance_def fields_of_encoded
      provenance_guards_def decode_text_def)

lemma directive_guards_durable:
  "first_raise (directive_guards (durable_directive d)) = first_raise (directive_guards d)"
  by (simp add: directive_guards_def durable_directive_def without_counters_def first_raise.simps
      split: option.splits)

lemma decode_encode_directive:
  assumes "constructed d" and "\<forall>c \<in> set (md_capability_calls d). decodable_call c"
  shows "decode_directive (durable_value (directive_payload d)) = Inr (durable_directive d)"
proof -
  have calls: "result_map decode_call (map durable_value (map encode_call (md_capability_calls d)))
      = Inr (map durable_call (md_capability_calls d))"
    using assms(2) by (simp add: result_map_Inr_iff list_all2_conv_all_nth decode_encode_call)
  have usage: "decode_usage (durable_value (encode_usage (md_usage d)))
      = Inr (map_option without_counters (md_usage d))"
    using assms(1) by (intro decode_encode_usage) (auto simp: constructed_def)
  have prov: "decode_provenance (durable_value (encode_provenance (md_provenance d)))
      = Inr (md_provenance d)"
    using assms(1) by (intro decode_encode_provenance) (auto simp: constructed_def)
  have ok: "first_raise (directive_guards (durable_directive d)) = None"
    using assms(1) by (simp add: constructed_def directive_guards_durable)
  show ?thesis
    using calls usage prov ok
    by (cases "md_response d") (simp_all add: decode_directive_def directive_payload_def
        fields_of_encoded durable_directive_eq py_opt_str_def Let_def)
qed

lemma encode_Inr_iff:
  "encode_model_directive cd d = Inr text \<longleftrightarrow> canonical_json_error (directive_payload d) 0 = None
     \<and> text = cd_dumps cd (durable_value (directive_payload d))"
  by (auto simp: encode_model_directive_def canonical_json_dumps_def split: option.splits)

lemma response_fingerprint_Inr_iff:
  "response_fingerprint cd d = Inr h \<longleftrightarrow>
     (\<exists>text. encode_model_directive cd d = Inr text \<and> h = hexdigest cd text)"
  by (auto simp: response_fingerprint_def encode_model_directive_def)

lemma encode_durable:
  "encode_model_directive cd d = Inr text \<Longrightarrow> encode_model_directive cd (durable_directive d) = Inr text"
  by (simp add: encode_Inr_iff canonical_payload durable_payload [symmetric])

lemma fingerprint_durable:
  "response_fingerprint cd d = Inr h \<Longrightarrow> response_fingerprint cd (durable_directive d) = Inr h"
  using encode_durable by (auto simp: response_fingerprint_Inr_iff)

lemma decode_of_encoded:
  assumes "encode_model_directive cd d = Inr text" and "\<not> blank text"
    and "cd_loads cd text = Some t" and "strict_json t = Inr (durable_value (directive_payload d))"
    and "constructed d"
  shows "decode_model_directive cd text = (if \<forall>c \<in> set (md_capability_calls d). decodable_call c
    then Inr (durable_directive d) else Inl refused_call)"
  using assms decode_encode_directive decode_encode_refused by (auto simp: decode_model_directive_def)

text \<open>What a decoded payload satisfies: only accepted directives come out of the decoder.\<close>

lemma decoded_usage_ok:
  "decode_usage v = Inr (Some u) \<Longrightarrow> first_raise (usage_guards u) = None"
  by (auto simp: decode_usage_def Let_def split: if_splits option.splits)

lemma decoded_provenance_ok:
  "decode_provenance v = Inr (Some p) \<Longrightarrow> first_raise (provenance_guards p) = None"
  by (auto simp: decode_provenance_def decode_text_def provenance_guards_def
      split: if_splits option.splits pyval.splits)

lemma decoded_parts:
  assumes "decode_directive v = Inr r"
  obtains x y where "decode_usage x = Inr (md_usage r)" "decode_provenance y = Inr (md_provenance r)"
proof (cases "fields_of [''capability_calls'', ''response'', ''silence'', ''usage'', ''provenance''] v")
  case None
  with assms show ?thesis by (simp add: decode_directive_def)
next
  case (Some d)
  with assms that show ?thesis
    by (cases "dict_get d ''capability_calls''") (auto simp: decode_directive_def Let_def)
qed

lemma decoded_call_ok: "decode_call v = Inr c \<Longrightarrow> decodable_call c"
  by (auto simp: decode_call_def decode_text_def decode_opt_text_def decodable_call_def some_blank_def
      split: if_splits option.splits pyval.splits)

end
