(* ===== verification/LateReturn.thy ===== *)
theory LateReturn
  imports Directives
begin

text \<open>
  runtime/late_return.py: the verifier for provider returns that arrive after the process
  died. The regular expressions are written out; \<open>$\<close> of Python's \<open>re\<close> also matches before
  one trailing newline, which the grammar of the module text does not mention. Modular
  exponentiation, the byte conversions and the padding of PKCS #1 v1.5 are computed on
  natural numbers and lists of bytes.
\<close>

datatype late_error = LateEncoding string

section \<open>Grammars\<close>

definition lowercase_hex :: "char \<Rightarrow> bool" where
  "lowercase_hex c \<longleftrightarrow> (let n = (of_char c :: nat) in 48 \<le> n \<and> n \<le> 57 \<or> 97 \<le> n \<and> n \<le> 102)"

definition ascii_alnum :: "char \<Rightarrow> bool" where
  "ascii_alnum c \<longleftrightarrow> (let n = (of_char c :: nat) in
     48 \<le> n \<and> n \<le> 57 \<or> 65 \<le> n \<and> n \<le> 90 \<or> 97 \<le> n \<and> n \<le> 122)"

definition key_id_char :: "char \<Rightarrow> bool" where
  "key_id_char c \<longleftrightarrow> ascii_alnum c \<or> c \<in> {CHR ''.'', CHR ''_'', CHR ''-''}"

definition until_dollar :: "(string \<Rightarrow> bool) \<Rightarrow> string \<Rightarrow> bool" where
  "until_dollar p s \<longleftrightarrow> p s \<or> s \<noteq> [] \<and> last s = CHR 0x0A \<and> p (butlast s)"

definition key_id_shape :: "string \<Rightarrow> bool" where
  "key_id_shape s \<longleftrightarrow> (case s of [] \<Rightarrow> False
     | c # cs \<Rightarrow> ascii_alnum c \<and> list_all key_id_char cs \<and> length cs \<le> 127)"

definition modulus_hex_shape :: "string \<Rightarrow> bool" where
  "modulus_hex_shape s \<longleftrightarrow> (case s of [] \<Rightarrow> False
     | c # cs \<Rightarrow> c = CHR ''0'' \<and> cs = [] \<or> lowercase_hex c \<and> c \<noteq> CHR ''0'' \<and> list_all lowercase_hex cs)"

definition signature_shape :: "string \<Rightarrow> bool" where
  "signature_shape s \<longleftrightarrow> s \<noteq> [] \<and> list_all lowercase_hex s"

section \<open>Hexadecimal numbers\<close>

definition hex_value :: "char \<Rightarrow> nat" where
  "hex_value c = (let n = of_char c in if n \<le> 57 then n - 48 else n - 87)"

definition hex_int :: "string \<Rightarrow> nat" where
  "hex_int s = foldl (\<lambda>a c. 16 * a + hex_value c) 0 s"

fun hex_text :: "nat \<Rightarrow> string" where
  "hex_text n = (if n < 16 then [hex_digit n] else hex_text (n div 16) @ [hex_digit (n mod 16)])"

fun bit_length :: "nat \<Rightarrow> nat" where
  "bit_length n = (if n = 0 then 0 else Suc (bit_length (n div 2)))"

declare hex_text.simps [simp del] bit_length.simps [simp del]

section \<open>Canonical parameters\<close>

definition canonical_key_id :: "string \<Rightarrow> late_error + string" where
  "canonical_key_id k = (if until_dollar key_id_shape k then Inr k
     else Inl (LateEncoding ''key_id''))"

definition canonical_modulus_hex :: "string \<Rightarrow> late_error + string \<times> nat" where
  "canonical_modulus_hex m =
     (if \<not> until_dollar modulus_hex_shape m then Inl (LateEncoding ''modulus_hex'')
      else let modulus = hex_int (py_strip m) in
        raising [(modulus = 0, LateEncoding ''modulus must be positive''),
                 (even modulus, LateEncoding ''modulus must be odd''),
                 (bit_length modulus < 2048, LateEncoding ''modulus must be at least 2048 bits''),
                 (hex_text modulus \<noteq> m, LateEncoding ''not the canonical normalization'')]
          (m, modulus))"

definition canonical_public_exponent :: "int \<Rightarrow> nat \<Rightarrow> late_error + int" where
  "canonical_public_exponent e modulus =
     raising [(e \<le> 1, LateEncoding ''exponent must be greater than 1''),
              (even e, LateEncoding ''exponent must be odd''),
              (int modulus \<le> e, LateEncoding ''exponent must be smaller than the modulus'')] e"

section \<open>Proof text\<close>

definition proof_prefix :: string where
  "proof_prefix = ''bglate_rsa_v1:''"

definition partition_colon :: "string \<Rightarrow> (string \<times> string) option" where
  "partition_colon s = (case dropWhile (\<lambda>c. c \<noteq> CHR '':'') s of
     [] \<Rightarrow> None | c # rest \<Rightarrow> Some (takeWhile (\<lambda>c. c \<noteq> CHR '':'') s, rest))"

definition has_prefix :: "string \<Rightarrow> string \<Rightarrow> bool" where
  "has_prefix p s \<longleftrightarrow> take (length p) s = p"

definition decode_late_return_proof :: "string \<Rightarrow> late_error + string \<times> string" where
  "decode_late_return_proof proof_text =
     (if \<not> has_prefix proof_prefix proof_text then Inl (LateEncoding ''proof prefix'')
      else case partition_colon (drop (length proof_prefix) proof_text) of
        None \<Rightarrow> Inl (LateEncoding ''proof must contain a key id and a signature'')
      | Some (key_id, signature_hex) \<Rightarrow>
          if CHR '':'' \<in> set signature_hex then Inl (LateEncoding ''reserved delimiter'')
          else result_bind (canonical_key_id key_id) (\<lambda>_.
            if \<not> until_dollar signature_shape signature_hex then Inl (LateEncoding ''signature'')
            else Inr (key_id, signature_hex)))"

definition canonical_late_return_proof :: "string \<Rightarrow> string \<Rightarrow> late_error + string" where
  "canonical_late_return_proof key_id signature_hex =
     result_bind (canonical_key_id key_id) (\<lambda>canonical.
     if \<not> until_dollar signature_shape signature_hex then Inl (LateEncoding ''signature'')
     else let encoded = proof_prefix @ canonical @ '':'' @ signature_hex in
       result_bind (decode_late_return_proof encoded) (\<lambda>(k, s).
       if k \<noteq> canonical \<or> s \<noteq> signature_hex then Inl (LateEncoding ''does not round-trip'')
       else Inr encoded))"

section \<open>Verifier\<close>

record late_return_verifier =
  lv_key_id :: string
  lv_algorithm :: string
  lv_modulus_hex :: string
  lv_public_exponent :: int

definition validate_verifier :: "late_return_verifier \<Rightarrow> late_error + late_return_verifier" where
  "validate_verifier v =
     (if lv_algorithm v \<noteq> ''rsa-pkcs1v15-sha256'' then Inl (LateEncoding ''algorithm'')
      else result_bind (canonical_key_id (lv_key_id v)) (\<lambda>_.
        result_bind (canonical_modulus_hex (lv_modulus_hex v)) (\<lambda>(_, modulus).
        result_bind (canonical_public_exponent (lv_public_exponent v) modulus) (\<lambda>_. Inr v))))"

definition modulus_int :: "late_return_verifier \<Rightarrow> nat" where
  "modulus_int v = hex_int (py_strip (lv_modulus_hex v))"

section \<open>Message and signature\<close>

record request_scope =
  sc_attempt_id :: string
  sc_subject_id :: string
  sc_work_kind :: string
  sc_work_id :: string
  sc_model_round_index :: int
  sc_outbound_request_fingerprint :: string
  sc_relay_id :: string

record response_identity =
  rp_provider :: string
  rp_model :: string
  rp_provider_request_id :: string
  rp_response_fingerprint :: string
  rp_payload_sha256 :: string

definition binding_payload :: "string \<Rightarrow> request_scope \<Rightarrow> response_identity \<Rightarrow> pyval" where
  "binding_payload schema s r = PDict [
     (''attempt_id'', PStr (sc_attempt_id s)), (''model'', PStr (rp_model r)),
     (''model_round_index'', PInt (sc_model_round_index s)),
     (''outbound_request_fingerprint'', PStr (sc_outbound_request_fingerprint s)),
     (''payload_sha256'', PStr (rp_payload_sha256 r)), (''provider'', PStr (rp_provider r)),
     (''provider_request_id'', PStr (rp_provider_request_id r)), (''relay_id'', PStr (sc_relay_id s)),
     (''response_fingerprint'', PStr (rp_response_fingerprint r)), (''schema'', PStr schema),
     (''subject_id'', PStr (sc_subject_id s)), (''work_id'', PStr (sc_work_id s)),
     (''work_kind'', PStr (sc_work_kind s))]"

definition late_return_message :: "codec \<Rightarrow> request_scope \<Rightarrow> response_identity \<Rightarrow> string" where
  "late_return_message cd s r =
     cd_dumps cd (binding_payload ''aios.background-model-late-return.rsa.v1'' s r)"

definition ascii_space :: "char \<Rightarrow> bool" where
  "ascii_space c \<longleftrightarrow> (let n = (of_char c :: nat) in 9 \<le> n \<and> n \<le> 13 \<or> n = 32)"

fun bytes_fromhex :: "string \<Rightarrow> nat list option" where
  "bytes_fromhex [] = Some []"
| "bytes_fromhex [c] = (if ascii_space c then Some [] else None)"
| "bytes_fromhex (c # d # s) =
     (if ascii_space c then bytes_fromhex (d # s)
      else if lowercase_hex c \<and> lowercase_hex d
      then map_option ((#) (16 * hex_value c + hex_value d)) (bytes_fromhex s) else None)"

definition from_bytes :: "nat list \<Rightarrow> nat" where
  "from_bytes bs = foldl (\<lambda>a b. 256 * a + b) 0 bs"

fun to_bytes :: "nat \<Rightarrow> nat \<Rightarrow> nat list" where
  "to_bytes 0 n = []"
| "to_bytes (Suc w) n = to_bytes w (n div 256) @ [n mod 256]"

definition digest_info_prefix :: "nat list" where
  "digest_info_prefix = the (bytes_fromhex ''3031300d060960864801650304020105000420'')"

definition padded_digest :: "nat \<Rightarrow> nat list \<Rightarrow> nat list" where
  "padded_digest width digest =
     (let digest_info = digest_info_prefix @ digest in
      [0, 1] @ replicate (width - length digest_info - 3) 255 @ [0] @ digest_info)"

definition verify_late_return_proof ::
    "codec \<Rightarrow> late_return_verifier \<Rightarrow> string \<Rightarrow> string \<Rightarrow> bool" where
  "verify_late_return_proof cd v message proof_text =
     (case decode_late_return_proof proof_text of
        Inl _ \<Rightarrow> False
      | Inr (key_id, signature_hex) \<Rightarrow>
         if key_id \<noteq> lv_key_id v then False
         else case bytes_fromhex signature_hex of
           None \<Rightarrow> False
         | Some signature \<Rightarrow>
            let modulus = modulus_int v;
                width = (bit_length modulus + 7) div 8;
                s = from_bytes signature
            in if length signature \<noteq> width \<or> s = 0 \<or> modulus \<le> s then False
               else if width < length (digest_info_prefix @ cd_sha256 cd message) + 3 + 8 then False
               else to_bytes width (s ^ nat (lv_public_exponent v) mod modulus)
                      = padded_digest width (cd_sha256 cd message))"

section \<open>Hexadecimal text and numbers\<close>

lemma of_char_hex_digit:
  "n < 16 \<Longrightarrow> (of_char (hex_digit n) :: nat) = (if n < 10 then 48 + n else 87 + n)"
  by (simp add: hex_digit_def)

lemma hex_value_digit: "n < 16 \<Longrightarrow> hex_value (hex_digit n) = n"
  by (simp add: hex_value_def of_char_hex_digit Let_def)

lemma lowercase_hex_digit: "n < 16 \<Longrightarrow> lowercase_hex (hex_digit n)"
  by (simp add: lowercase_hex_def of_char_hex_digit Let_def)

lemma hex_digit_value:
  assumes "lowercase_hex c"
  shows "hex_digit (hex_value c) = c" "hex_value c < 16"
proof -
  have "char_of (of_char c :: nat) = c" by simp
  then show "hex_digit (hex_value c) = c"
    using assms by (auto simp: lowercase_hex_def hex_value_def hex_digit_def Let_def)
  show "hex_value c < 16" using assms by (auto simp: lowercase_hex_def hex_value_def Let_def)
qed

lemma hex_int_snoc: "hex_int (s @ [c]) = 16 * hex_int s + hex_value c"
  by (simp add: hex_int_def)

lemma hex_int_text: "hex_int (hex_text n) = n"
proof (induction n rule: hex_text.induct)
  case (1 n)
  show ?case
  proof (cases "n < 16")
    case True
    then show ?thesis by (simp add: hex_text.simps [of n] hex_int_def hex_value_digit)
  next
    case False
    with 1 show ?thesis by (simp add: hex_text.simps [of n] hex_int_snoc hex_value_digit)
  qed
qed

lemma hex_text_hex: "list_all lowercase_hex (hex_text n)"
  by (induction n rule: hex_text.induct) (simp add: hex_text.simps lowercase_hex_digit)

lemma zero_digit: "hex_digit 0 = CHR ''0''"
  by code_simp

lemma hex_text_shape: "modulus_hex_shape (hex_text n)"
proof (induction n rule: hex_text.induct)
  case (1 n)
  show ?case
  proof (cases "n < 16")
    case True
    then show ?thesis using lowercase_hex_digit [OF True] hex_value_digit [OF True] zero_digit
      by (cases "n = 0") (auto simp: hex_text.simps [of n] hex_text.simps [of 0] modulus_hex_shape_def hex_value_def)
  next
    case False
    then have "modulus_hex_shape (hex_text (n div 16))" and "hex_text (n div 16) \<noteq> ''0''"
      using 1 hex_int_text [of "n div 16"] by (auto simp: hex_int_def hex_value_def)
    then show ?thesis using False
      by (auto simp: hex_text.simps [of n] modulus_hex_shape_def lowercase_hex_digit
          split: list.splits)
  qed
qed

text \<open>A text in the grammar is what \<open>%x\<close> prints for its value.\<close>

lemma hex_text_int:
  assumes "modulus_hex_shape s"
  shows "hex_text (hex_int s) = s"
  using assms
proof (induction s rule: rev_induct)
  case (snoc c s)
  show ?case
  proof (cases s)
    case Nil
    with snoc.prems have "lowercase_hex c"
      by (auto simp: modulus_hex_shape_def lowercase_hex_def)
    with Nil show ?thesis by (simp add: hex_int_def hex_text.simps hex_digit_value)
  next
    case (Cons d t)
    with snoc.prems have d: "lowercase_hex d" "d \<noteq> CHR ''0''" and all: "list_all lowercase_hex (t @ [c])"
      by (auto simp: modulus_hex_shape_def)
    then have shape: "modulus_hex_shape s" using Cons by (simp add: modulus_hex_shape_def)
    have "hex_int s \<noteq> 0"
    proof
      assume "hex_int s = 0"
      with snoc.IH [OF shape] have "s = ''0''" by (simp add: hex_text.simps zero_digit)
      with Cons d show False by simp
    qed
    moreover have "hex_value c < 16" "hex_digit (hex_value c) = c" using all hex_digit_value by auto
    ultimately show ?thesis
      using snoc.IH [OF shape] by (simp add: hex_int_snoc hex_text.simps [of "16 * _ + _"])
  qed
qed (simp add: modulus_hex_shape_def)

lemma bit_length_bounds: "0 < n \<Longrightarrow> 2 ^ (bit_length n - 1) \<le> n \<and> n < 2 ^ bit_length n"
proof (induction n rule: bit_length.induct)
  case (1 n)
  show ?case
  proof (cases "n = 1")
    case True
    then show ?thesis by (simp add: bit_length.simps)
  next
    case False
    with 1 have ih: "2 ^ (bit_length (n div 2) - 1) \<le> n div 2" "n div 2 < 2 ^ bit_length (n div 2)"
      and pos: "0 < n div 2" by auto
    then have "0 < bit_length (n div 2)" by (simp add: bit_length.simps [of "n div 2"])
    then have "(2::nat) ^ bit_length (n div 2) = 2 * 2 ^ (bit_length (n div 2) - 1)"
      by (cases "bit_length (n div 2)") simp_all
    with ih 1(2) show ?thesis by (simp add: bit_length.simps [of n]) linarith
  qed
qed

lemma bit_length_ge: "m \<le> bit_length n \<Longrightarrow> 0 < m \<Longrightarrow> 2 ^ (m - 1) \<le> n"
proof -
  assume "m \<le> bit_length n" "0 < m"
  then have "0 < n" and "(2::nat) ^ (m - 1) \<le> 2 ^ (bit_length n - 1)"
    by (auto simp: bit_length.simps [of n] split: if_splits)
  with bit_length_bounds [of n] show ?thesis by linarith
qed

section \<open>What the canonical forms accept\<close>

lemma strip_id: "list_all (\<lambda>c. \<not> py_isspace c) s \<Longrightarrow> py_strip s = s"
proof -
  have drop: "dropWhile py_isspace t = t" if "list_all (\<lambda>c. \<not> py_isspace c) t" for t
    using that by (cases t) auto
  assume a: "list_all (\<lambda>c. \<not> py_isspace c) s"
  then have "list_all (\<lambda>c. \<not> py_isspace c) (rev s)" by (simp add: list_all_iff)
  with a show ?thesis by (simp add: py_strip_def drop)
qed

lemma hex_not_space: "lowercase_hex c \<Longrightarrow> \<not> py_isspace c"
  by (auto simp: lowercase_hex_def py_isspace_def Let_def)

lemma strip_hex: "list_all lowercase_hex s \<Longrightarrow> py_strip s = s"
  by (intro strip_id) (auto simp: list_all_iff hex_not_space)

lemma canonical_modulus_hex_Inr_iff:
  "canonical_modulus_hex m = Inr r \<longleftrightarrow>
     (\<exists>n. m = hex_text n \<and> r = (m, n) \<and> odd n \<and> 2048 \<le> bit_length n)"
proof
  assume "canonical_modulus_hex m = Inr r"
  then show "\<exists>n. m = hex_text n \<and> r = (m, n) \<and> odd n \<and> 2048 \<le> bit_length n"
    by (auto simp: canonical_modulus_hex_def Let_def split: if_splits)
next
  assume "\<exists>n. m = hex_text n \<and> r = (m, n) \<and> odd n \<and> 2048 \<le> bit_length n"
  then show "canonical_modulus_hex m = Inr r"
    using hex_text_shape strip_hex [OF hex_text_hex]
    by (auto simp: canonical_modulus_hex_def Let_def until_dollar_def hex_int_text odd_pos)
qed

lemma canonical_public_exponent_Inr_iff:
  "canonical_public_exponent e n = Inr r \<longleftrightarrow> r = e \<and> 3 \<le> e \<and> odd e \<and> e < int n"
proof -
  have "1 < e \<and> odd e \<longleftrightarrow> 3 \<le> e \<and> odd e" by presburger
  then show ?thesis by (auto simp: canonical_public_exponent_def)
qed

lemma validate_verifier_Inr_iff:
  "validate_verifier v = Inr w \<longleftrightarrow> w = v \<and> lv_algorithm v = ''rsa-pkcs1v15-sha256''
     \<and> until_dollar key_id_shape (lv_key_id v)
     \<and> lv_modulus_hex v = hex_text (modulus_int v) \<and> odd (modulus_int v)
     \<and> 2048 \<le> bit_length (modulus_int v)
     \<and> 3 \<le> lv_public_exponent v \<and> odd (lv_public_exponent v)
     \<and> lv_public_exponent v < int (modulus_int v)"
proof -
  have "modulus_int v = n" if "lv_modulus_hex v = hex_text n" for n
    using that strip_hex [OF hex_text_hex] by (simp add: modulus_int_def hex_int_text)
  then show ?thesis
    by (auto simp: validate_verifier_def canonical_key_id_def canonical_modulus_hex_Inr_iff
        canonical_public_exponent_Inr_iff split: if_splits)
qed

section \<open>The proof text is unambiguous\<close>

lemma key_id_no_colon: "until_dollar key_id_shape k \<Longrightarrow> CHR '':'' \<notin> set k"
proof -
  have *: "CHR '':'' \<notin> set s" if "key_id_shape s" for s
    using that by (cases s)
      (auto simp: key_id_shape_def list_all_iff key_id_char_def ascii_alnum_def)
  assume "until_dollar key_id_shape k"
  then consider "key_id_shape k" | "k = butlast k @ [CHR 0x0A]" "key_id_shape (butlast k)"
    by (auto simp: until_dollar_def) (metis append_butlast_last_id)
  then show ?thesis
  proof cases
    case 2
    then have "set k = insert (CHR 0x0A) (set (butlast k))" by (metis Un_insert_right list.set(1)
      list.set(2) set_append sup_bot.right_neutral)
    with * [OF 2(2)] show ?thesis by simp
  qed (rule *)
qed

lemma signature_no_colon: "until_dollar signature_shape s \<Longrightarrow> CHR '':'' \<notin> set s"
proof -
  have *: "CHR '':'' \<notin> set t" if "signature_shape t" for t
    using that by (auto simp: signature_shape_def list_all_iff lowercase_hex_def)
  assume "until_dollar signature_shape s"
  then consider "signature_shape s" | "s = butlast s @ [CHR 0x0A]" "signature_shape (butlast s)"
    by (auto simp: until_dollar_def) (metis append_butlast_last_id)
  then show ?thesis
  proof cases
    case 2
    then have "set s = insert (CHR 0x0A) (set (butlast s))" by (metis Un_insert_right list.set(1)
      list.set(2) set_append sup_bot.right_neutral)
    with * [OF 2(2)] show ?thesis by simp
  qed (rule *)
qed

lemma partition_colon_iff:
  "partition_colon s = Some (k, r) \<longleftrightarrow> s = k @ '':'' @ r \<and> CHR '':'' \<notin> set k"
proof
  assume "partition_colon s = Some (k, r)"
  then obtain c where d: "dropWhile (\<lambda>c. c \<noteq> CHR '':'') s = c # r"
    and k: "k = takeWhile (\<lambda>c. c \<noteq> CHR '':'') s"
    by (auto simp: partition_colon_def split: list.splits)
  from d have "c = CHR '':''" by (metis (full_types) dropWhile_eq_Cons_conv)
  with d k show "s = k @ '':'' @ r \<and> CHR '':'' \<notin> set k"
    by (metis (mono_tags, lifting) append_Cons append_Nil set_takeWhileD takeWhile_dropWhile_id)
next
  assume a: "s = k @ '':'' @ r \<and> CHR '':'' \<notin> set k"
  then have "\<And>c. c \<in> set k \<Longrightarrow> c \<noteq> CHR '':''" by auto
  with a show "partition_colon s = Some (k, r)"
    by (simp add: partition_colon_def takeWhile_append2 dropWhile_append2 cong: list.case_cong)
qed

lemma has_prefix_iff: "has_prefix p s \<longleftrightarrow> (\<exists>r. s = p @ r)"
  by (metis append_eq_conv_conj append_take_drop_id has_prefix_def)

lemma decode_proof_Inr_iff:
  "decode_late_return_proof t = Inr (k, s) \<longleftrightarrow> t = proof_prefix @ k @ '':'' @ s
     \<and> until_dollar key_id_shape k \<and> until_dollar signature_shape s"
proof
  assume "decode_late_return_proof t = Inr (k, s)"
  then show "t = proof_prefix @ k @ '':'' @ s \<and> until_dollar key_id_shape k
      \<and> until_dollar signature_shape s"
    by (auto simp: decode_late_return_proof_def has_prefix_iff partition_colon_iff canonical_key_id_def
        split: if_splits option.splits)
next
  assume a: "t = proof_prefix @ k @ '':'' @ s \<and> until_dollar key_id_shape k
    \<and> until_dollar signature_shape s"
  then have "partition_colon (k @ '':'' @ s) = Some (k, s)"
    using key_id_no_colon by (simp add: partition_colon_iff del: append_Cons)
  then show "decode_late_return_proof t = Inr (k, s)"
    using a signature_no_colon
    by (auto simp: decode_late_return_proof_def has_prefix_iff canonical_key_id_def)
qed

lemma canonical_proof_Inr_iff:
  "canonical_late_return_proof k s = Inr t \<longleftrightarrow> t = proof_prefix @ k @ '':'' @ s
     \<and> until_dollar key_id_shape k \<and> until_dollar signature_shape s"
proof (cases "until_dollar key_id_shape k \<and> until_dollar signature_shape s")
  case True
  then have "decode_late_return_proof (proof_prefix @ k @ '':'' @ s) = Inr (k, s)"
    by (simp add: decode_proof_Inr_iff del: append_Cons)
  with True show ?thesis
    by (auto simp: canonical_late_return_proof_def canonical_key_id_def Let_def)
qed (auto simp: canonical_late_return_proof_def canonical_key_id_def Let_def split: if_splits)

section \<open>A proof binds one message\<close>

lemma replicate_delimited:
  assumes "replicate a x @ y # s = replicate b x @ y # t" and "x \<noteq> y"
  shows "a = b \<and> s = t"
  using assms(1)
proof (induction a arbitrary: b)
  case 0
  with assms(2) show ?case by (cases b) auto
next
  case (Suc a)
  with assms(2) show ?case by (cases b) auto
qed

lemma padded_digest_inj: "padded_digest w d = padded_digest w e \<Longrightarrow> d = e"
proof -
  let ?pad = "\<lambda>x. w - length (digest_info_prefix @ x) - 3"
  assume "padded_digest w d = padded_digest w e"
  then have "replicate (?pad d) (255::nat) @ 0 # (digest_info_prefix @ d)
      = replicate (?pad e) 255 @ 0 # (digest_info_prefix @ e)"
    unfolding padded_digest_def Let_def by simp
  then have "digest_info_prefix @ d = digest_info_prefix @ e"
    by (rule replicate_delimited [THEN conjunct2]) simp
  then show "d = e" by simp
qed

lemma verify_proof_iff:
  "verify_late_return_proof cd v message proof_text \<longleftrightarrow>
     (\<exists>s signature. decode_late_return_proof proof_text = Inr (lv_key_id v, s)
        \<and> bytes_fromhex s = Some signature
        \<and> length signature = (bit_length (modulus_int v) + 7) div 8
        \<and> 0 < from_bytes signature \<and> from_bytes signature < modulus_int v
        \<and> length (digest_info_prefix @ cd_sha256 cd message) + 11 \<le> length signature
        \<and> to_bytes (length signature) (from_bytes signature ^ nat (lv_public_exponent v) mod modulus_int v)
            = padded_digest (length signature) (cd_sha256 cd message))"
proof (cases "decode_late_return_proof proof_text")
  case (Inr r)
  obtain k s where "r = (k, s)" by (cases r)
  with Inr show ?thesis
    by (cases "bytes_fromhex s") (auto simp: verify_late_return_proof_def Let_def)
qed (simp add: verify_late_return_proof_def)

lemma verified_digest_unique:
  assumes "verify_late_return_proof cd v message proof_text"
    and "verify_late_return_proof cd v message' proof_text"
  shows "cd_sha256 cd message = cd_sha256 cd message'"
proof -
  from assms obtain w where "padded_digest w (cd_sha256 cd message) = padded_digest w (cd_sha256 cd message')"
    unfolding verify_proof_iff by fastforce
  then show ?thesis by (rule padded_digest_inj)
qed

lemma from_bytes_snoc: "from_bytes (bs @ [b]) = 256 * from_bytes bs + b"
  by (simp add: from_bytes_def)

lemma from_to_bytes: "n < 256 ^ w \<Longrightarrow> from_bytes (to_bytes w n) = n"
proof (induction w n rule: to_bytes.induct)
  case (2 w n)
  then have "n div 256 < 256 ^ w" by (simp add: less_mult_imp_div_less mult.commute)
  with 2 show ?case by (simp add: from_bytes_snoc)
qed (simp add: from_bytes_def)

lemma verified_by_digest:
  assumes "verify_late_return_proof cd v message proof_text" and "cd_sha256 cd message' = cd_sha256 cd message"
  shows "verify_late_return_proof cd v message' proof_text"
  using assms(1) unfolding verify_proof_iff assms(2) .

text \<open>An accepted signature is an \<open>e\<close>-th root, modulo \<open>n\<close>, of the padded digest read as a number.\<close>

lemma modulus_fits: "n < 256 ^ ((bit_length n + 7) div 8)"
proof (cases "n = 0")
  case False
  then have "n < 2 ^ bit_length n" using bit_length_bounds by simp
  also have "\<dots> \<le> 2 ^ (8 * ((bit_length n + 7) div 8))"
    by (intro power_increasing) (presburger, simp)
  also have "\<dots> = 256 ^ ((bit_length n + 7) div 8)" by (simp add: power_mult)
  finally show ?thesis .
qed simp

lemma verified_is_root:
  assumes "verify_late_return_proof cd v message proof_text"
  obtains s signature where "decode_late_return_proof proof_text = Inr (lv_key_id v, s)"
    "bytes_fromhex s = Some signature" "length signature = (bit_length (modulus_int v) + 7) div 8"
    "0 < from_bytes signature" "from_bytes signature < modulus_int v"
    "from_bytes signature ^ nat (lv_public_exponent v) mod modulus_int v
       = from_bytes (padded_digest (length signature) (cd_sha256 cd message))"
proof -
  let ?n = "modulus_int v" and ?w = "(bit_length (modulus_int v) + 7) div 8"
  from assms obtain s signature where d: "decode_late_return_proof proof_text = Inr (lv_key_id v, s)"
    "bytes_fromhex s = Some signature" "length signature = ?w"
    and s: "0 < from_bytes signature" "from_bytes signature < ?n"
    and eq: "to_bytes ?w (from_bytes signature ^ nat (lv_public_exponent v) mod ?n)
      = padded_digest ?w (cd_sha256 cd message)"
    unfolding verify_proof_iff by auto
  have "from_bytes signature ^ nat (lv_public_exponent v) mod ?n < ?n" using s by simp
  then have "from_bytes signature ^ nat (lv_public_exponent v) mod ?n < 256 ^ ?w"
    using modulus_fits by (rule less_trans)
  then have "from_bytes (to_bytes ?w (from_bytes signature ^ nat (lv_public_exponent v) mod ?n))
      = from_bytes signature ^ nat (lv_public_exponent v) mod ?n" by (rule from_to_bytes)
  with eq d(3) show ?thesis by (intro that [OF d s]) simp
qed

end
