(* ===== verification/Attempts.thy ===== *)
theory Attempts
  imports LateReturn
begin

text \<open>
  runtime/background_attempt.py: the durable ledger of model attempts. The tables of the
  runtime database are lists of rows in insertion order; an operation is one transaction
  and answers its result together with the tables, because some operations commit a change
  of state and then raise. A rolled back transaction answers the tables it started from.
  Reading an attempt row validates it (\<open>_from_row\<close>), so a row can be unreadable; the rows of
  the other tables are only written with values their models accept.
\<close>

section \<open>Rows\<close>

datatype work_kind = WkWake | WkPeriodicReview | WkUserTurn

primrec work_kind_text :: "work_kind \<Rightarrow> string" where
  "work_kind_text WkWake = ''wake''"
| "work_kind_text WkPeriodicReview = ''periodic_review''"
| "work_kind_text WkUserTurn = ''user_turn''"

datatype attempt_state = Admitted | Dispatching | NotSubmitted | InDoubt | ResponseReturned | Metered

record work_identity =
  wi_subject_id :: string
  wi_work_kind :: work_kind
  wi_work_id :: string
  wi_model_round_index :: int

record attempt =
  at_attempt_id :: string
  at_work :: work_identity
  at_wake_reason :: string
  at_admission_world_revision :: int
  at_state :: attempt_state
  at_admitted_at :: instant
  at_updated_at :: instant
  at_provider :: "string option"
  at_model :: "string option"
  at_provider_request_id :: "string option"
  at_response_fingerprint :: "string option"
  at_meter_record_id :: "string option"
  at_failure_kind :: "string option"
  at_failure_detail :: "string option"
  at_reconciliation_evidence :: "string option"

record request_binding =
  rb_scope :: request_scope
  rb_bound_at :: instant

record verifier_row =
  vr_scope :: request_scope
  vr_verifier :: late_return_verifier
  vr_bound_at :: instant
  vr_consumed_at :: "instant option"

record receipt =
  rc_scope :: request_scope
  rc_response :: response_identity
  rc_authenticity_proof :: string
  rc_captured_at :: instant

record handoff =
  hf_attempt_id :: string
  hf_directive_payload :: string
  hf_payload_sha256 :: string
  hf_authenticity_proof :: string

record staging =
  sg_attempt_id :: string
  sg_response :: response_identity
  sg_directive_payload :: string
  sg_authenticity_proof :: "string option"
  sg_staged_at :: instant
  sg_evidence :: string

record attempt_store =
  as_attempts :: "attempt list"
  as_bindings :: "request_binding list"
  as_verifiers :: "verifier_row list"
  as_capabilities :: "string list option"
  as_receipts :: "receipt list"
  as_handoffs :: "handoff list"
  as_responses :: "staging list"

datatype attempt_error =
    UnknownAttempt string
  | InvalidArgument string
  | BadInstant contract_error
  | Undecodable directive_error
  | UnreadableRow
  | Overflow
  | NotDurable string
  | Conflict attempt string
  | ExecutionInDoubt attempt
  | ResponsePending attempt
  | Blocked attempt

type_synonym ('r) attempt_result = "(attempt_error + 'r) \<times> attempt_store"

section \<open>Table access\<close>

definition find_row :: "('r \<Rightarrow> string) \<Rightarrow> string \<Rightarrow> 'r list \<Rightarrow> 'r option" where
  "find_row key k rows = List.find (\<lambda>r. key r = k) rows"

definition update_rows :: "('r \<Rightarrow> bool) \<Rightarrow> ('r \<Rightarrow> 'r) \<Rightarrow> 'r list \<Rightarrow> 'r list" where
  "update_rows p f rows = map (\<lambda>r. if p r then f r else r) rows"

definition insert_or_ignore :: "bool \<Rightarrow> 'r \<Rightarrow> 'r list \<Rightarrow> 'r list" where
  "insert_or_ignore ignored r rows = (if ignored then rows else rows @ [r])"

definition binding_row :: "attempt_store \<Rightarrow> string \<Rightarrow> request_binding option" where
  "binding_row st k = find_row (\<lambda>r. sc_attempt_id (rb_scope r)) k (as_bindings st)"

definition return_verifier_row :: "attempt_store \<Rightarrow> string \<Rightarrow> verifier_row option" where
  "return_verifier_row st k = find_row (\<lambda>r. sc_attempt_id (vr_scope r)) k (as_verifiers st)"

definition receipt_row :: "attempt_store \<Rightarrow> string \<Rightarrow> receipt option" where
  "receipt_row st k = find_row (\<lambda>r. sc_attempt_id (rc_scope r)) k (as_receipts st)"

definition handoff_row :: "attempt_store \<Rightarrow> string \<Rightarrow> handoff option" where
  "handoff_row st k = find_row hf_attempt_id k (as_handoffs st)"

definition staged_response :: "attempt_store \<Rightarrow> string \<Rightarrow> staging option" where
  "staged_response st k = find_row sg_attempt_id k (as_responses st)"

definition attempt_row :: "attempt_store \<Rightarrow> string \<Rightarrow> attempt option" where
  "attempt_row st k = find_row at_attempt_id k (as_attempts st)"

text \<open>The field constraints of \<open>BackgroundModelAttempt\<close>.\<close>

definition readable :: "attempt \<Rightarrow> bool" where
  "readable a \<longleftrightarrow> at_attempt_id a \<noteq> [] \<and> wi_subject_id (at_work a) \<noteq> [] \<and> wi_work_id (at_work a) \<noteq> []
     \<and> at_wake_reason a \<noteq> [] \<and> 0 \<le> wi_model_round_index (at_work a) \<and> 0 \<le> at_admission_world_revision a"

definition from_row :: "attempt \<Rightarrow> attempt_error + attempt" where
  "from_row a = (if readable a then Inr a else Inl UnreadableRow)"

definition get_attempt :: "attempt_store \<Rightarrow> string \<Rightarrow> attempt_error + attempt option" where
  "get_attempt st k = (case attempt_row st k of None \<Rightarrow> Inr None
     | Some a \<Rightarrow> result_bind (from_row a) (\<lambda>a. Inr (Some a)))"

text \<open>Read the row an operation is about; a missing or unreadable row ends it with a rollback.\<close>

definition with_attempt ::
    "attempt_store \<Rightarrow> string \<Rightarrow> (attempt \<Rightarrow> 'r attempt_result) \<Rightarrow> 'r attempt_result" where
  "with_attempt st k f = (case get_attempt st k of
     Inl e \<Rightarrow> (Inl e, st) | Inr None \<Rightarrow> (Inl (UnknownAttempt k), st) | Inr (Some a) \<Rightarrow> f a)"

text \<open>Read the row again after the commit.\<close>

definition reread ::
    "attempt_store \<Rightarrow> string \<Rightarrow> (attempt \<Rightarrow> attempt_error + 'r) \<Rightarrow> 'r attempt_result" where
  "reread st k f = with_attempt st k (\<lambda>a. (f a, st))"

definition update_attempt ::
    "string \<Rightarrow> attempt_state set \<Rightarrow> (attempt \<Rightarrow> attempt) \<Rightarrow> attempt_store \<Rightarrow> attempt_store" where
  "update_attempt k states f st = st\<lparr>as_attempts :=
     update_rows (\<lambda>a. at_attempt_id a = k \<and> at_state a \<in> states) f (as_attempts st)\<rparr>"

definition at_moment ::
    "datetime \<Rightarrow> string \<Rightarrow> attempt_store \<Rightarrow> (instant \<Rightarrow> 'r attempt_result) \<Rightarrow> 'r attempt_result" where
  "at_moment d field st f = (case as_utc d field of Inl e \<Rightarrow> (Inl (BadInstant e), st) | Inr t \<Rightarrow> f t)"

section \<open>Identities\<close>

definition attempt_id_for :: "codec \<Rightarrow> work_identity \<Rightarrow> string" where
  "attempt_id_for cd w = ''bgattempt_'' @ take 32 (hexdigest cd (cd_dumps cd (PList
     [PStr (wi_subject_id w), PStr (work_kind_text (wi_work_kind w)), PStr (wi_work_id w),
      PInt (wi_model_round_index w)])))"

definition relay_id_for :: "codec \<Rightarrow> request_scope \<Rightarrow> string" where
  "relay_id_for cd s = ''relay_'' @ hexdigest cd (cd_dumps cd (PDict
     [(''attempt_id'', PStr (sc_attempt_id s)), (''model_round_index'', PInt (sc_model_round_index s)),
      (''outbound_request_fingerprint'', PStr (sc_outbound_request_fingerprint s)),
      (''subject_id'', PStr (sc_subject_id s)), (''work_id'', PStr (sc_work_id s)),
      (''work_kind'', PStr (sc_work_kind s))]))"

text \<open>The scope an attempt's request has: its identity, the fingerprint of the request, its relay.\<close>

definition scope_for :: "attempt \<Rightarrow> string \<Rightarrow> string \<Rightarrow> request_scope" where
  "scope_for a fingerprint relay = \<lparr>sc_attempt_id = at_attempt_id a,
     sc_subject_id = wi_subject_id (at_work a), sc_work_kind = work_kind_text (wi_work_kind (at_work a)),
     sc_work_id = wi_work_id (at_work a), sc_model_round_index = wi_model_round_index (at_work a),
     sc_outbound_request_fingerprint = fingerprint, sc_relay_id = relay\<rparr>"

definition bound_scope :: "codec \<Rightarrow> attempt \<Rightarrow> string \<Rightarrow> request_scope" where
  "bound_scope cd a fingerprint =
     scope_for a fingerprint (relay_id_for cd (scope_for a fingerprint []))"

definition receipt_message :: "codec \<Rightarrow> request_scope \<Rightarrow> response_identity \<Rightarrow> string" where
  "receipt_message cd s r =
     cd_dumps cd (binding_payload ''aios.background-model-response-receipt.v1'' s r)"

definition receipt_proof :: "codec \<Rightarrow> request_scope \<Rightarrow> response_identity \<Rightarrow> string" where
  "receipt_proof cd s r = ''bgresponse_v2_'' @ hexdigest cd (receipt_message cd s r)"

section \<open>Admission and dispatch\<close>

definition new_attempt :: "string \<Rightarrow> work_identity \<Rightarrow> string \<Rightarrow> int \<Rightarrow> attempt_state \<Rightarrow> instant \<Rightarrow> attempt" where
  "new_attempt k w wake_reason revision state moment = \<lparr>at_attempt_id = k, at_work = w,
     at_wake_reason = wake_reason, at_admission_world_revision = revision, at_state = state,
     at_admitted_at = moment, at_updated_at = moment, at_provider = None, at_model = None,
     at_provider_request_id = None, at_response_fingerprint = None, at_meter_record_id = None,
     at_failure_kind = None, at_failure_detail = None, at_reconciliation_evidence = None\<rparr>"

text \<open>The primary key, the UNIQUE and the CHECK constraints of the attempts table.\<close>

definition insert_attempt :: "attempt \<Rightarrow> attempt_store \<Rightarrow> attempt_store" where
  "insert_attempt a st = st\<lparr>as_attempts := insert_or_ignore
     (list_ex (\<lambda>b. at_attempt_id b = at_attempt_id a \<or> at_work b = at_work a) (as_attempts st)
      \<or> wi_model_round_index (at_work a) < 0 \<or> at_admission_world_revision a < 0)
     a (as_attempts st)\<rparr>"

definition durable_submission_artifacts :: "attempt_store \<Rightarrow> string \<Rightarrow> string list" where
  "durable_submission_artifacts st k =
     (if binding_row st k \<noteq> None then [''background_model_request_bindings''] else [])
     @ (if return_verifier_row st k \<noteq> None then [''background_model_return_verifiers''] else [])
     @ (case as_capabilities st of None \<Rightarrow> []
        | Some ks \<Rightarrow> if k \<in> set ks then [''background_model_return_capabilities''] else [])
     @ (if receipt_row st k \<noteq> None then [''background_model_response_receipts''] else [])"

definition admit ::
    "codec \<Rightarrow> work_identity \<Rightarrow> string \<Rightarrow> int \<Rightarrow> datetime \<Rightarrow> attempt_store \<Rightarrow> attempt attempt_result" where
  "admit cd w wake_reason revision admitted_at st = at_moment admitted_at ''admitted_at'' st (\<lambda>moment.
     let k = attempt_id_for cd w;
         st' = insert_attempt (new_attempt k w wake_reason revision Admitted moment) st
     in if \<not> fits_int64 (wi_model_round_index w) \<or> \<not> fits_int64 revision then (Inl Overflow, st)
        else case get_attempt st' k of
          Inl e \<Rightarrow> (Inl e, st)
        | Inr None \<Rightarrow> (Inl (NotDurable ''admission was not durable''), st)
        | Inr (Some current) \<Rightarrow>
            if at_work current \<noteq> w \<or> at_wake_reason current \<noteq> wake_reason
            then (Inl (NotDurable ''attempt identity conflicts with durable work identity''), st)
            else (case at_state current of
              NotSubmitted \<Rightarrow>
                if durable_submission_artifacts st' k \<noteq> [] then (Inl (Blocked current), st)
                else reread (update_attempt k {NotSubmitted} (\<lambda>a. a\<lparr>at_state := Admitted,
                    at_updated_at := moment, at_failure_kind := None, at_failure_detail := None\<rparr>) st')
                  k Inr
            | Admitted \<Rightarrow> (Inr current, st')
            | Dispatching \<Rightarrow>
                reread (update_attempt k {Dispatching} (\<lambda>a. a\<lparr>at_state := InDoubt, at_updated_at := moment,
                    at_failure_kind := Some ''restart_after_dispatch_boundary'',
                    at_failure_detail := Some ''provider dispatch boundary was crossed without a durable response''\<rparr>) st')
                  k (\<lambda>a. Inl (ExecutionInDoubt a))
            | InDoubt \<Rightarrow> (Inl (ExecutionInDoubt current), st')
            | ResponseReturned \<Rightarrow> (Inl (ResponsePending current), st')
            | Metered \<Rightarrow> (Inl (Blocked current), st')))"

definition mark_dispatching ::
    "codec \<Rightarrow> string \<Rightarrow> datetime \<Rightarrow> string \<Rightarrow> late_return_verifier option \<Rightarrow> attempt_store
      \<Rightarrow> attempt attempt_result" where
  "mark_dispatching cd k dispatched_at outbound_request_fingerprint verifier st =
     (if blank outbound_request_fingerprint
      then (Inl (InvalidArgument ''outbound request fingerprint must be non-blank''), st)
      else at_moment dispatched_at ''dispatched_at'' st (\<lambda>moment.
        with_attempt st k (\<lambda>current.
          let fingerprint = py_strip outbound_request_fingerprint;
              scope = bound_scope cd current fingerprint
          in if at_state current \<noteq> Admitted then
               (Inl (if at_state current \<in> {Dispatching, InDoubt} then ExecutionInDoubt current
                     else if at_state current = ResponseReturned then ResponsePending current
                     else Blocked current), st)
             else if durable_submission_artifacts st k \<noteq> [] then (Inl (Blocked current), st)
             else if (case verifier of None \<Rightarrow> False | Some v \<Rightarrow> \<not> fits_int64 (lv_public_exponent v))
             then (Inl Overflow, st)
             else reread
               ((update_attempt k {Admitted} (\<lambda>a. a\<lparr>at_state := Dispatching, at_updated_at := moment\<rparr>) st)
                 \<lparr>as_bindings := as_bindings st @ [\<lparr>rb_scope = scope, rb_bound_at = moment\<rparr>],
                  as_verifiers := as_verifiers st @ (case verifier of None \<Rightarrow> [] | Some v \<Rightarrow>
                    [\<lparr>vr_scope = scope, vr_verifier = v, vr_bound_at = moment, vr_consumed_at = None\<rparr>])\<rparr>)
               k Inr)))"

definition adopt_legacy_in_doubt ::
    "codec \<Rightarrow> work_identity \<Rightarrow> string \<Rightarrow> int \<Rightarrow> datetime \<Rightarrow> attempt_store \<Rightarrow> attempt attempt_result" where
  "adopt_legacy_in_doubt cd w wake_reason revision observed_at st =
     at_moment observed_at ''observed_at'' st (\<lambda>moment.
       let k = attempt_id_for cd w;
           st' = insert_attempt ((new_attempt k w wake_reason revision InDoubt moment)\<lparr>
             at_failure_kind := Some ''legacy_running_without_attempt'',
             at_failure_detail :=
               Some ''pre-upgrade RUNNING work has no durable provider-attempt boundary''\<rparr>) st
       in if \<not> fits_int64 (wi_model_round_index w) \<or> \<not> fits_int64 revision then (Inl Overflow, st)
          else case get_attempt st' k of
            Inl e \<Rightarrow> (Inl e, st')
          | Inr None \<Rightarrow> (Inl (NotDurable ''adoption was not durable''), st')
          | Inr (Some a) \<Rightarrow> (Inr a, st'))"

end
