(* ===== verification/AttemptReturns.thy ===== *)
theory AttemptReturns
  imports Attempts
begin

text \<open>
  The second half of runtime/background_attempt.py: failures, live completions, externally
  proven late returns, exact staging and recovery.
\<close>

section \<open>Failure and reconciliation\<close>

definition route_post_binding_failure_to_in_doubt ::
    "string \<Rightarrow> instant \<Rightarrow> string \<Rightarrow> string \<Rightarrow> attempt_store \<Rightarrow> attempt_store" where
  "route_post_binding_failure_to_in_doubt k moment kind detail =
     update_attempt k {Dispatching} (\<lambda>a. a\<lparr>at_state := InDoubt, at_updated_at := moment,
       at_failure_kind := Some kind, at_failure_detail := Some detail\<rparr>)"

definition mark_failure ::
    "string \<Rightarrow> datetime \<Rightarrow> bool \<Rightarrow> string \<Rightarrow> string \<Rightarrow> attempt_store \<Rightarrow> attempt attempt_result" where
  "mark_failure k failed_at definitely_not_submitted kind text st =
     at_moment failed_at ''failed_at'' st (\<lambda>moment. with_attempt st k (\<lambda>current.
       let detail = take 1000 text;
           target = (if definitely_not_submitted then NotSubmitted else InDoubt);
           allowed = (if definitely_not_submitted then {Admitted} else {Admitted, Dispatching})
       in if definitely_not_submitted
            \<and> (at_state current \<noteq> Admitted \<or> durable_submission_artifacts st k \<noteq> [])
          then reread (route_post_binding_failure_to_in_doubt k moment kind detail st) k
            (\<lambda>a. Inl (Conflict a ''not_submitted requires state=admitted with zero durable facts''))
          else reread (update_attempt k allowed (\<lambda>a. a\<lparr>at_state := target, at_updated_at := moment,
                at_failure_kind := Some kind, at_failure_detail := Some detail\<rparr>) st) k
            (\<lambda>a. if at_state a \<notin> {target, ResponseReturned, Metered} then Inl (Blocked a) else Inr a)))"

definition reconcile_not_submitted ::
    "string \<Rightarrow> datetime \<Rightarrow> string \<Rightarrow> attempt_store \<Rightarrow> attempt attempt_result" where
  "reconcile_not_submitted k reconciled_at evidence st =
     (if blank evidence then (Inl (InvalidArgument ''reconciliation evidence must be non-blank''), st)
      else at_moment reconciled_at ''reconciled_at'' st (\<lambda>moment. with_attempt st k (\<lambda>current.
        let artifacts = durable_submission_artifacts st k
        in if at_state current = NotSubmitted \<and> artifacts = [] then (Inr current, st)
           else if at_state current \<noteq> Admitted \<or> artifacts \<noteq> []
           then reread (route_post_binding_failure_to_in_doubt k moment ''reconcile_not_submitted_refused''
                  ''post-binding non-submission reconciliation is forbidden'' st) k
             (\<lambda>a. Inl (Conflict a ''not_submitted reconciliation requires state=admitted''))
           else reread (update_attempt k {Admitted} (\<lambda>a. a\<lparr>at_state := NotSubmitted,
                  at_updated_at := moment, at_reconciliation_evidence := Some (py_strip evidence),
                  at_failure_kind := None, at_failure_detail := None\<rparr>) st) k
             (\<lambda>a. if at_state a \<noteq> NotSubmitted then Inl (Blocked a) else Inr a))))"

definition reconcile_response :: "string \<Rightarrow> attempt_store \<Rightarrow> attempt attempt_result" where
  "reconcile_response k st = with_attempt st k (\<lambda>a.
     (Inl (Conflict a ''metadata-only response reconciliation is disabled''), st))"

section \<open>Live completion\<close>

definition outbound_request_binding :: "attempt_store \<Rightarrow> string \<Rightarrow> request_binding option" where
  "outbound_request_binding st k = binding_row st k"

definition require_origin_binding ::
    "codec \<Rightarrow> attempt \<Rightarrow> request_binding option \<Rightarrow> string \<Rightarrow> bool \<Rightarrow> attempt_error + request_binding" where
  "require_origin_binding cd a binding supplied_request_id require_relay_echo =
     (case binding of
        None \<Rightarrow> Inl (Conflict a ''durable originating request binding is missing'')
      | Some b \<Rightarrow>
         let s = rb_scope b
         in if s \<noteq> scope_for a (sc_outbound_request_fingerprint s) (sc_relay_id s)
            then Inl (Conflict a ''binding does not match the attempt'')
            else if sc_relay_id s \<noteq> relay_id_for cd s
            then Inl (Conflict a ''binding is internally inconsistent'')
            else if require_relay_echo \<and> supplied_request_id \<noteq> sc_relay_id s
            then Inl (Conflict a ''exact response is not bound to this originating request'')
            else Inr b)"

definition provenance_of :: "attempt \<Rightarrow> string option \<times> string option \<times> string option \<times> string option" where
  "provenance_of a = (at_provider a, at_model a, at_provider_request_id a, at_response_fingerprint a)"

definition with_provenance ::
    "string option \<times> string option \<times> string option \<times> string option \<Rightarrow> attempt \<Rightarrow> attempt" where
  "with_provenance p a = (case p of (provider, model, request_id, fingerprint) \<Rightarrow>
     a\<lparr>at_provider := provider, at_model := model, at_provider_request_id := request_id,
       at_response_fingerprint := fingerprint\<rparr>)"

definition record_response ::
    "codec \<Rightarrow> string \<Rightarrow> datetime \<Rightarrow> model_directive \<Rightarrow> attempt_store \<Rightarrow> attempt attempt_result" where
  "record_response cd k returned_at directive st =
     at_moment returned_at ''returned_at'' st (\<lambda>moment.
       case response_fingerprint cd directive of
         Inl e \<Rightarrow> (Inl (Undecodable e), st)
       | Inr fingerprint \<Rightarrow>
          (case provider_identity directive of (provider, model, request_id) \<Rightarrow>
           let provenance = (provider, model, request_id, Some fingerprint)
           in with_attempt st k (\<lambda>current.
             if receipt_row st k \<noteq> None \<or> handoff_row st k \<noteq> None \<or> staged_response st k \<noteq> None
             then (Inl (Conflict current ''durable trusted provider-return state already exists''), st)
             else case (if provider \<noteq> None \<and> model \<noteq> None \<and> request_id \<noteq> None
                        then result_bind (require_origin_binding cd current (binding_row st k)
                               (the request_id) False) (\<lambda>_. Inr ())
                        else Inr ()) of
               Inl e \<Rightarrow> (Inl e, st)
             | Inr _ \<Rightarrow>
                 reread (update_attempt k {Dispatching} (\<lambda>a. with_provenance provenance
                     (a\<lparr>at_state := ResponseReturned, at_updated_at := moment,
                        at_failure_kind := None, at_failure_detail := None\<rparr>)) st) k
                   (\<lambda>a. if at_state a \<notin> {ResponseReturned, Metered} then Inl (Blocked a)
                        else if provenance_of a \<noteq> provenance
                        then Inl (NotDurable ''provider response conflicts with durable provenance'')
                        else Inr a))))"

section \<open>Exact staging\<close>

definition ascii_text :: "string \<Rightarrow> bool" where
  "ascii_text s \<longleftrightarrow> list_all (\<lambda>c. (of_char c :: nat) < 128) s"

definition verify_response_authenticity ::
    "codec \<Rightarrow> attempt_store \<Rightarrow> attempt \<Rightarrow> request_binding \<Rightarrow> response_identity \<Rightarrow> string
      \<Rightarrow> attempt_error + receipt" where
  "verify_response_authenticity cd st a b response proof_text =
     (case receipt_row st (at_attempt_id a) of
        None \<Rightarrow> Inl (Conflict a ''authenticity receipt is missing'')
      | Some r \<Rightarrow>
         if \<not> ascii_text (rc_authenticity_proof r) \<or> \<not> ascii_text proof_text
         then Inl (InvalidArgument ''comparing strings with non-ASCII characters'')
         else if rc_authenticity_proof r \<noteq> receipt_proof cd (rc_scope r) (rc_response r)
         then Inl (Conflict a ''receipt authenticator is invalid'')
         else if proof_text \<noteq> rc_authenticity_proof r
         then Inl (Conflict a ''supplied authenticity proof is invalid'')
         else if rc_scope r \<noteq> scope_for a (sc_outbound_request_fingerprint (rb_scope b)) (sc_relay_id (rb_scope b))
              \<or> rc_response r \<noteq> response
         then Inl (Conflict a ''receipt does not bind the exact attempt and response'')
         else Inr r)"

definition stagable :: "attempt_state set" where
  "stagable = {Dispatching, InDoubt, ResponseReturned, Metered}"

definition response_provenance ::
    "response_identity \<Rightarrow> string option \<times> string option \<times> string option \<times> string option" where
  "response_provenance r = (Some (rp_provider r), Some (rp_model r), Some (rp_provider_request_id r),
     Some (rp_response_fingerprint r))"

definition full_identity :: "model_directive \<Rightarrow> (string \<times> string \<times> string) option" where
  "full_identity d = (case provider_identity d of
     (Some p, Some m, Some r) \<Rightarrow> Some (p, m, r) | _ \<Rightarrow> None)"

text \<open>The checks before the transaction: what the supplied fields and the payload agree on.\<close>

definition exact_response ::
    "codec \<Rightarrow> string \<Rightarrow> string \<Rightarrow> string \<Rightarrow> string \<Rightarrow> string \<Rightarrow> attempt_error + response_identity" where
  "exact_response cd provider model request_id fingerprint payload =
     (case decode_model_directive cd payload of
        Inl e \<Rightarrow> Inl (Undecodable e)
      | Inr d \<Rightarrow>
         (case response_fingerprint cd d of
            Inl e \<Rightarrow> Inl (Undecodable e)
          | Inr h \<Rightarrow>
             if h \<noteq> fingerprint
             then Inl (InvalidArgument ''fingerprint does not match the supplied directive'')
             else (case full_identity d of
                None \<Rightarrow> Inl (InvalidArgument ''must carry a full identity'')
              | Some identity \<Rightarrow>
                 if identity \<noteq> (provider, model, request_id)
                 then Inl (InvalidArgument ''identity conflicts with its own directive'')
                 else Inr \<lparr>rp_provider = provider, rp_model = model, rp_provider_request_id = request_id,
                   rp_response_fingerprint = fingerprint, rp_payload_sha256 = hexdigest cd payload\<rparr>)))"

text \<open>The two rows staging can write for the attempt, and the tables it leaves.\<close>

definition returned_row :: "response_identity \<Rightarrow> instant \<Rightarrow> string \<Rightarrow> attempt \<Rightarrow> attempt" where
  "returned_row response moment evidence a = with_provenance (response_provenance response)
     (a\<lparr>at_state := ResponseReturned, at_updated_at := moment, at_reconciliation_evidence := Some evidence,
        at_failure_kind := None, at_failure_detail := None\<rparr>)"

definition corrected_row :: "response_identity \<Rightarrow> instant \<Rightarrow> string \<Rightarrow> attempt \<Rightarrow> attempt" where
  "corrected_row response moment evidence a = with_provenance (response_provenance response)
     (a\<lparr>at_reconciliation_evidence := Some evidence, at_updated_at := moment\<rparr>)"

definition insert_response :: "staging \<Rightarrow> attempt_store \<Rightarrow> attempt_store" where
  "insert_response staged st = st\<lparr>as_responses :=
     insert_or_ignore (staged_response st (sg_attempt_id staged) \<noteq> None) staged (as_responses st)\<rparr>"

definition supersedes_unverified_local :: "attempt \<Rightarrow> response_identity \<Rightarrow> bool" where
  "supersedes_unverified_local current response \<longleftrightarrow> at_state current \<in> {ResponseReturned, Metered}
     \<and> provenance_of current \<noteq> response_provenance response"

definition close_round ::
    "string \<Rightarrow> attempt \<Rightarrow> response_identity \<Rightarrow> instant \<Rightarrow> string \<Rightarrow> attempt_store \<Rightarrow> attempt_store" where
  "close_round k current response moment evidence st =
     (if at_state current \<in> {Dispatching, InDoubt}
      then update_attempt k {Dispatching, InDoubt} (returned_row response moment evidence) st
      else if supersedes_unverified_local current response
      then update_attempt k {ResponseReturned, Metered} (corrected_row response moment evidence) st
      else st)"

definition conflicting_receipt :: "attempt_store \<Rightarrow> string \<Rightarrow> string option \<Rightarrow> bool" where
  "conflicting_receipt st k supplied_proof = (case receipt_row st k of None \<Rightarrow> False
     | Some r \<Rightarrow> rc_authenticity_proof r \<noteq>
         (case supplied_proof of None \<Rightarrow> ''None'' | Some p \<Rightarrow> py_strip p))"

definition authenticate ::
    "codec \<Rightarrow> attempt_store \<Rightarrow> attempt \<Rightarrow> response_identity \<Rightarrow> string option \<Rightarrow> attempt_error + receipt" where
  "authenticate cd st current response supplied_proof =
     result_bind (require_origin_binding cd current (binding_row st (at_attempt_id current))
         (rp_provider_request_id response)
         (supplied_proof = None \<and> at_state current \<in> {Dispatching, InDoubt}))
       (\<lambda>b. case supplied_proof of
          None \<Rightarrow> Inl (Conflict current ''authenticity proof is missing'')
        | Some p \<Rightarrow> verify_response_authenticity cd st current b response p)"

definition stage_transaction ::
    "codec \<Rightarrow> instant \<Rightarrow> response_identity \<Rightarrow> staging \<Rightarrow> attempt_store \<Rightarrow> staging attempt_result" where
  "stage_transaction cd moment response staged st =
     (let k = sg_attempt_id staged; st' = insert_response staged st in
      with_attempt st k (\<lambda>current.
        if at_state current \<notin> stagable
        then (Inl (Conflict current ''attempt did not cross the provider boundary''), st)
        else if supersedes_unverified_local current response
          \<and> conflicting_receipt st k (sg_authenticity_proof staged)
        then (Inl (Conflict current ''identity conflicts with durable attempt provenance''), st)
        else case authenticate cd st current response (sg_authenticity_proof staged) of
          Inl e \<Rightarrow> (Inl e, st)
        | Inr _ \<Rightarrow>
           (case staged_response st' k of
              None \<Rightarrow> (Inl (NotDurable ''staging was not durable''), st)
            | Some row \<Rightarrow>
               if (response_provenance (sg_response row), sg_directive_payload row, sg_authenticity_proof row)
                  \<noteq> (response_provenance response, sg_directive_payload staged, sg_authenticity_proof staged)
               then (Inl (Conflict current ''durable response conflicts with the staged replay''), st)
               else reread (close_round k current response moment (sg_evidence staged) st') k
                 (\<lambda>a. if at_state a \<notin> {ResponseReturned, Metered} then Inl (Blocked a) else Inr row))))"

definition stage_exact_response ::
    "codec \<Rightarrow> string \<Rightarrow> datetime \<Rightarrow> string \<Rightarrow> string \<Rightarrow> string \<Rightarrow> string \<Rightarrow> string \<Rightarrow> string option \<Rightarrow> string
      \<Rightarrow> attempt_store \<Rightarrow> staging attempt_result" where
  "stage_exact_response cd k staged_at provider model request_id fingerprint payload proof_arg evidence st =
     at_moment staged_at ''staged_at'' st (\<lambda>moment.
       if blank provider \<or> blank model \<or> blank request_id \<or> blank fingerprint \<or> blank payload \<or> blank evidence
       then (Inl (InvalidArgument ''exact provider response fields must be non-blank''), st)
       else case exact_response cd (py_strip provider) (py_strip model) (py_strip request_id)
              (py_strip fingerprint) payload of
         Inl e \<Rightarrow> (Inl e, st)
       | Inr response \<Rightarrow> stage_transaction cd moment response
           \<lparr>sg_attempt_id = k, sg_response = response, sg_directive_payload = payload,
            sg_authenticity_proof = (case proof_arg of None \<Rightarrow> None
               | Some p \<Rightarrow> if blank p then None else Some (py_strip p)),
            sg_staged_at = moment, sg_evidence = py_strip evidence\<rparr> st)"

end
