(* ===== verification/AttemptLate.thy ===== *)
theory AttemptLate
  imports AttemptReturns
begin

text \<open>
  Externally proven late returns (\<open>attach_late_trusted_return\<close>), and the reads recovery is
  built on. Attaching is two transactions: the first verifies the proof and makes the
  receipt and the exact bytes durable, the second stages them; the process can die between.
\<close>

section \<open>Late trusted returns\<close>

definition late_return_verifier_of :: "attempt_store \<Rightarrow> string \<Rightarrow> late_error + late_return_verifier option" where
  "late_return_verifier_of st k = (case return_verifier_row st k of
     None \<Rightarrow> Inr None
   | Some r \<Rightarrow> result_bind (validate_verifier (vr_verifier r)) (\<lambda>v. Inr (Some v)))"

definition late_return_signing_context :: "attempt_store \<Rightarrow> string \<Rightarrow> (request_scope \<times> string) option" where
  "late_return_signing_context st k = map_option
     (\<lambda>r. (vr_scope r, lv_key_id (vr_verifier r))) (return_verifier_row st k)"

text \<open>
  What the first transaction writes once the proof is verified: receipt and handoff unless
  rows exist, which must then be equal, and the mark that the verifier is consumed.
\<close>

definition insert_receipt :: "receipt \<Rightarrow> attempt_store \<Rightarrow> attempt_store" where
  "insert_receipt r st = st\<lparr>as_receipts := insert_or_ignore
     (list_ex (\<lambda>q. sc_attempt_id (rc_scope q) = sc_attempt_id (rc_scope r)
        \<or> rc_authenticity_proof q = rc_authenticity_proof r) (as_receipts st)) r (as_receipts st)\<rparr>"

definition insert_handoff :: "handoff \<Rightarrow> attempt_store \<Rightarrow> attempt_store" where
  "insert_handoff h st = st\<lparr>as_handoffs :=
     insert_or_ignore (handoff_row st (hf_attempt_id h) \<noteq> None) h (as_handoffs st)\<rparr>"

definition consume_verifier :: "string \<Rightarrow> instant \<Rightarrow> attempt_store \<Rightarrow> attempt_store" where
  "consume_verifier k moment st = st\<lparr>as_verifiers := update_rows
     (\<lambda>r. sc_attempt_id (vr_scope r) = k \<and> vr_consumed_at r = None)
     (\<lambda>r. r\<lparr>vr_consumed_at := Some moment\<rparr>) (as_verifiers st)\<rparr>"

definition adopt_proven_return ::
    "codec \<Rightarrow> attempt \<Rightarrow> verifier_row \<Rightarrow> response_identity \<Rightarrow> string \<Rightarrow> instant \<Rightarrow> attempt_store
      \<Rightarrow> string attempt_result" where
  "adopt_proven_return cd a vr response payload moment st =
     (let k = at_attempt_id a;
          proof_mark = receipt_proof cd (vr_scope vr) response;
          st1 = insert_receipt \<lparr>rc_scope = vr_scope vr, rc_response = response,
            rc_authenticity_proof = proof_mark, rc_captured_at = moment\<rparr> st;
          st2 = insert_handoff \<lparr>hf_attempt_id = k, hf_directive_payload = payload,
            hf_payload_sha256 = rp_payload_sha256 response, hf_authenticity_proof = proof_mark\<rparr> st1
      in if vr_consumed_at vr \<noteq> None \<and> (receipt_row st k = None \<or> handoff_row st k = None)
         then (Inl (Conflict a ''verifier is consumed but its receipt or handoff is missing''), st)
         else case receipt_row st1 k of
           None \<Rightarrow> (Inl (NotDurable ''verified late return receipt was not durable''), st)
         | Some r \<Rightarrow>
            if (rc_scope r, rc_response r, rc_authenticity_proof r) \<noteq> (vr_scope vr, response, proof_mark)
            then (Inl (Conflict a ''verified late return conflicts with existing receipt''), st)
            else case handoff_row st2 k of
              None \<Rightarrow> (Inl (Conflict a ''verified late return conflicts with existing exact handoff''), st)
            | Some h \<Rightarrow>
               if (hf_directive_payload h, hf_payload_sha256 h, hf_authenticity_proof h)
                  \<noteq> (payload, rp_payload_sha256 response, proof_mark)
               then (Inl (Conflict a ''verified late return conflicts with existing exact handoff''), st)
               else (Inr proof_mark, if vr_consumed_at vr = None then consume_verifier k moment st2 else st2))"

definition late_response :: "codec \<Rightarrow> string \<Rightarrow> attempt_error + response_identity" where
  "late_response cd payload =
     (case decode_model_directive cd payload of
        Inl e \<Rightarrow> Inl (Undecodable e)
      | Inr d \<Rightarrow>
         (case full_identity d of
            None \<Rightarrow> Inl (InvalidArgument ''late trusted return requires full identity'')
          | Some (provider, model, request_id) \<Rightarrow>
             (case response_fingerprint cd d of
                Inl e \<Rightarrow> Inl (Undecodable e)
              | Inr fingerprint \<Rightarrow> Inr \<lparr>rp_provider = provider, rp_model = model,
                  rp_provider_request_id = request_id, rp_response_fingerprint = fingerprint,
                  rp_payload_sha256 = hexdigest cd payload\<rparr>)))"

definition attach_transaction ::
    "codec \<Rightarrow> string \<Rightarrow> instant \<Rightarrow> response_identity \<Rightarrow> string \<Rightarrow> string \<Rightarrow> attempt_store
      \<Rightarrow> string attempt_result" where
  "attach_transaction cd k moment response payload late_return_proof st =
     with_attempt st k (\<lambda>a.
       if at_state a \<notin> stagable
       then (Inl (Conflict a ''late trusted return cannot attach before durable dispatch''), st)
       else case require_origin_binding cd a (binding_row st k) (rp_provider_request_id response) False of
         Inl e \<Rightarrow> (Inl e, st)
       | Inr b \<Rightarrow>
          (case return_verifier_row st k of
             None \<Rightarrow> (Inl (Conflict a ''no external late-return verifier was bound before dispatch''), st)
           | Some vr \<Rightarrow>
              if vr_scope vr \<noteq> scope_for a (sc_outbound_request_fingerprint (rb_scope b)) (sc_relay_id (rb_scope b))
              then (Inl (Conflict a ''verifier scope does not match durable request binding''), st)
              else case validate_verifier (vr_verifier vr) of
                Inl _ \<Rightarrow> (Inl (Conflict a ''bound verifier is not a canonical external authority''), st)
              | Inr v \<Rightarrow>
                 if \<not> verify_late_return_proof cd v (late_return_message cd (vr_scope vr) response)
                        (py_strip late_return_proof)
                 then (Inl (Conflict a ''late trusted return signature is invalid''), st)
                 else adopt_proven_return cd a vr response payload moment st))"

definition attach_late_trusted_return ::
    "codec \<Rightarrow> string \<Rightarrow> datetime \<Rightarrow> string \<Rightarrow> string \<Rightarrow> string \<Rightarrow> attempt_store \<Rightarrow> staging attempt_result" where
  "attach_late_trusted_return cd k attached_at payload late_return_proof evidence st =
     (if blank payload \<or> blank late_return_proof \<or> blank evidence
      then (Inl (InvalidArgument ''late trusted return arguments must be non-blank''), st)
      else at_moment attached_at ''attached_at'' st (\<lambda>moment.
        case late_response cd payload of
          Inl e \<Rightarrow> (Inl e, st)
        | Inr response \<Rightarrow>
           (case attach_transaction cd k moment response payload late_return_proof st of
              (Inl e, st') \<Rightarrow> (Inl e, st')
            | (Inr proof_mark, st') \<Rightarrow>
                stage_exact_response cd k (utc_datetime moment) (rp_provider response) (rp_model response)
                  (rp_provider_request_id response) (rp_response_fingerprint response) payload
                  (Some proof_mark) (py_strip evidence) st')))"

definition response_authenticity_receipt :: "attempt_store \<Rightarrow> string \<Rightarrow> receipt option" where
  "response_authenticity_receipt st k = receipt_row st k"

section \<open>Reads and recovery\<close>

definition inspect_attempt :: "codec \<Rightarrow> work_identity \<Rightarrow> attempt_store \<Rightarrow> attempt_error + attempt option" where
  "inspect_attempt cd w st = get_attempt st (attempt_id_for cd w)"

definition recovery_disposition :: "attempt \<Rightarrow> string" where
  "recovery_disposition a = (case at_state a of
     Admitted \<Rightarrow> ''safe_to_retry'' | NotSubmitted \<Rightarrow> ''safe_to_retry''
   | Dispatching \<Rightarrow> ''in_doubt'' | InDoubt \<Rightarrow> ''in_doubt''
   | ResponseReturned \<Rightarrow> ''response_returned'' | Metered \<Rightarrow> ''metered'')"

definition list_for_work ::
    "attempt_store \<Rightarrow> string \<Rightarrow> work_kind \<Rightarrow> string \<Rightarrow> attempt_error + attempt list" where
  "list_for_work st subject kind work_id = result_map from_row
     (sort_key (\<lambda>a. wi_model_round_index (at_work a)) (filter (\<lambda>a. wi_subject_id (at_work a) = subject
        \<and> wi_work_kind (at_work a) = kind \<and> wi_work_id (at_work a) = work_id) (as_attempts st)))"

definition pending_exact_response ::
    "attempt_store \<Rightarrow> string \<Rightarrow> work_kind \<Rightarrow> string \<Rightarrow> attempt_error + (attempt \<times> staging) option" where
  "pending_exact_response st subject kind work_id =
     result_bind (list_for_work st subject kind work_id) (\<lambda>attempts.
       Inr (if attempts = [] then None
         else let latest = last attempts in
           if at_state latest \<in> {Admitted, NotSubmitted} then None
           else case staged_response st (at_attempt_id latest) of
             None \<Rightarrow> None
           | Some staged \<Rightarrow>
              if list_ex (\<lambda>a. at_state a \<noteq> Metered) (butlast attempts) then None
              else Some (latest, staged)))"

definition exact_response_directive :: "codec \<Rightarrow> attempt_store \<Rightarrow> string \<Rightarrow> attempt_error + model_directive" where
  "exact_response_directive cd st k =
     (case get_attempt st k of
        Inl e \<Rightarrow> Inl e
      | Inr None \<Rightarrow> Inl (UnknownAttempt k)
      | Inr (Some a) \<Rightarrow>
         (case staged_response st k of
            None \<Rightarrow> Inl (ResponsePending a)
          | Some sg \<Rightarrow>
             if at_state a \<notin> {ResponseReturned, Metered}
             then Inl (Conflict a ''staged response is not reconciled with the attempt'')
             else if provenance_of a \<noteq> response_provenance (sg_response sg)
             then Inl (Conflict a ''staged response does not match durable provenance'')
             else if hexdigest cd (sg_directive_payload sg) \<noteq> rp_payload_sha256 (sg_response sg)
             then Inl (Conflict a ''staged bytes do not match their durable payload hash'')
             else case decode_model_directive cd (sg_directive_payload sg) of
               Inl e \<Rightarrow> Inl (Undecodable e)
             | Inr d \<Rightarrow>
                (case response_fingerprint cd d of
                   Inl e \<Rightarrow> Inl (Undecodable e)
                 | Inr h \<Rightarrow>
                    if Some h \<noteq> at_response_fingerprint a
                    then Inl (Conflict a ''staged directive does not reproduce the fingerprint'')
                    else result_bind (require_origin_binding cd a (outbound_request_binding st k)
                             (rp_provider_request_id (sg_response sg)) False) (\<lambda>b.
                      case sg_authenticity_proof sg of
                        None \<Rightarrow> Inl (Conflict a ''staged response has no authenticity proof'')
                      | Some p \<Rightarrow> result_bind
                          (verify_response_authenticity cd st a b (sg_response sg) p) (\<lambda>_. Inr d)))))"

definition recover_trusted_handoff ::
    "codec \<Rightarrow> string \<Rightarrow> work_kind \<Rightarrow> string \<Rightarrow> attempt_store \<Rightarrow> (attempt \<times> staging) option attempt_result" where
  "recover_trusted_handoff cd subject kind work_id st =
     (case list_for_work st subject kind work_id of
        Inl e \<Rightarrow> (Inl e, st)
      | Inr attempts \<Rightarrow>
         if attempts = [] then (Inr None, st)
         else if list_ex (\<lambda>a. at_state a \<noteq> Metered) (butlast attempts) then (Inr None, st)
         else let latest = last attempts; k = at_attempt_id latest in
           case handoff_row st k of
             None \<Rightarrow> (pending_exact_response st subject kind work_id, st)
           | Some h \<Rightarrow>
              if hexdigest cd (hf_directive_payload h) \<noteq> hf_payload_sha256 h
              then (Inl (Conflict latest ''trusted return handoff payload or digest is corrupt''), st)
              else case decode_model_directive cd (hf_directive_payload h) of
                Inl e \<Rightarrow> (Inl (Undecodable e), st)
              | Inr d \<Rightarrow>
                 (case full_identity d of
                    None \<Rightarrow> (Inl (Conflict latest ''trusted return handoff has no provider identity''), st)
                  | Some (provider, model, request_id) \<Rightarrow>
                     (case staged_response st k of
                        Some existing \<Rightarrow>
                          (case exact_response_directive cd st k of
                             Inl e \<Rightarrow> (Inl e, st)
                           | Inr _ \<Rightarrow>
                              if (sg_directive_payload existing, rp_payload_sha256 (sg_response existing),
                                  sg_authenticity_proof existing)
                                \<noteq> (hf_directive_payload h, hf_payload_sha256 h, Some (hf_authenticity_proof h))
                              then (Inl (Conflict latest ''staged response conflicts with handoff''), st)
                              else (Inr (Some (latest, existing)), st))
                      | None \<Rightarrow>
                          (case response_fingerprint cd d of
                             Inl e \<Rightarrow> (Inl (Undecodable e), st)
                           | Inr fingerprint \<Rightarrow>
                              (case stage_exact_response cd k (utc_datetime (at_admitted_at latest)) provider
                                      model request_id fingerprint (hf_directive_payload h)
                                      (Some (hf_authenticity_proof h)) ''Core trusted provider-return handoff'' st of
                                 (Inl e, st') \<Rightarrow> (Inl e, st')
                               | (Inr staged, st') \<Rightarrow> (Inr (Some (latest, staged)), st'))))))"

end
