(* ===== verification/AttemptInv.thy ===== *)
theory AttemptInv
  imports AttemptLate
begin

text \<open>
  The invariant of the attempts database and its preservation. Every table is keyed by the
  attempt, so the invariant speaks, for one attempt at a time, about the rows a lookup finds;
  the lookup lemmas below describe each effect an operation can have on the tables.
\<close>

named_theorems lookup_simps \<open>what the lookups find after an effect on the tables\<close>

section \<open>Lookups after an effect\<close>

lemma find_row_key: "find_row key k rows = Some r \<Longrightarrow> key r = k"
  by (auto simp: find_row_def find_Some_iff)

lemma find_row_append [lookup_simps]: "find_row key k (rows @ [r]) =
    (case find_row key k rows of Some x \<Rightarrow> Some x | None \<Rightarrow> if key r = k then Some r else None)"
  by (induction rows) (auto simp: find_row_def)

lemma find_row_insert [lookup_simps]: "find_row key k (insert_or_ignore b r rows) =
    (if b then find_row key k rows else find_row key k (rows @ [r]))"
  by (simp add: insert_or_ignore_def)

lemma find_row_update:
  assumes "\<And>r. p r \<Longrightarrow> key (f r) = key r"
  shows "find_row key k (update_rows p f rows) = map_option (\<lambda>r. if p r then f r else r) (find_row key k rows)"
  using assms by (induction rows) (auto simp: find_row_def update_rows_def)

lemma find_row_None_iff: "find_row key k rows = None \<longleftrightarrow> (\<forall>r \<in> set rows. key r \<noteq> k)"
  by (auto simp: find_row_def find_None_iff)

lemma attempt_row_id: "attempt_row st k = Some a \<Longrightarrow> at_attempt_id a = k"
  by (auto simp: attempt_row_def dest: find_row_key)

lemma binding_row_id: "binding_row st k = Some b \<Longrightarrow> sc_attempt_id (rb_scope b) = k"
  by (auto simp: binding_row_def dest: find_row_key)

lemma receipt_row_id: "receipt_row st k = Some r \<Longrightarrow> sc_attempt_id (rc_scope r) = k"
  by (auto simp: receipt_row_def dest: find_row_key)

lemma verifier_row_id: "return_verifier_row st k = Some r \<Longrightarrow> sc_attempt_id (vr_scope r) = k"
  by (auto simp: return_verifier_row_def dest: find_row_key)

lemma update_attempt_other [simp]:
  "binding_row (update_attempt k S f st) j = binding_row st j"
  "return_verifier_row (update_attempt k S f st) j = return_verifier_row st j"
  "receipt_row (update_attempt k S f st) j = receipt_row st j"
  "handoff_row (update_attempt k S f st) j = handoff_row st j"
  "staged_response (update_attempt k S f st) j = staged_response st j"
  "as_capabilities (update_attempt k S f st) = as_capabilities st"
  by (simp_all add: update_attempt_def binding_row_def return_verifier_row_def receipt_row_def
      handoff_row_def staged_response_def)

lemma update_attempt_row:
  assumes "\<And>a. at_attempt_id (f a) = at_attempt_id a"
  shows "attempt_row (update_attempt k S f st) j
    = map_option (\<lambda>a. if at_attempt_id a = k \<and> at_state a \<in> S then f a else a) (attempt_row st j)"
  using assms by (simp add: attempt_row_def update_attempt_def find_row_update)

lemma insert_attempt_other [simp]:
  "binding_row (insert_attempt a st) j = binding_row st j"
  "return_verifier_row (insert_attempt a st) j = return_verifier_row st j"
  "receipt_row (insert_attempt a st) j = receipt_row st j"
  "handoff_row (insert_attempt a st) j = handoff_row st j"
  "staged_response (insert_attempt a st) j = staged_response st j"
  by (simp_all add: insert_attempt_def binding_row_def return_verifier_row_def receipt_row_def
      handoff_row_def staged_response_def)

lemma insert_attempt_row: "attempt_row (insert_attempt a st) j
    = (if j = at_attempt_id a \<and> attempt_row st j = None \<and> attempt_row (insert_attempt a st) j \<noteq> None
       then Some a else attempt_row st j)"
  by (auto simp: attempt_row_def insert_attempt_def lookup_simps split: option.splits)

lemma insert_attempt_other_row: "j \<noteq> at_attempt_id a \<Longrightarrow> attempt_row (insert_attempt a st) j = attempt_row st j"
  by (subst insert_attempt_row) simp

lemma with_provenance_id [simp]:
  "at_attempt_id (with_provenance p a) = at_attempt_id a"
  "at_work (with_provenance p a) = at_work a" "at_state (with_provenance p a) = at_state a"
  "at_meter_record_id (with_provenance p a) = at_meter_record_id a"
  "at_wake_reason (with_provenance p a) = at_wake_reason a"
  "at_admission_world_revision (with_provenance p a) = at_admission_world_revision a"
  "provenance_of (with_provenance p a) = p"
  by (cases p; simp add: with_provenance_def provenance_of_def)+

lemma provenance_update [simp]:
  "provenance_of (a\<lparr>at_state := s\<rparr>) = provenance_of a"
  "provenance_of (a\<lparr>at_updated_at := t\<rparr>) = provenance_of a"
  "provenance_of (a\<lparr>at_failure_kind := x\<rparr>) = provenance_of a"
  "provenance_of (a\<lparr>at_failure_detail := x\<rparr>) = provenance_of a"
  "provenance_of (a\<lparr>at_reconciliation_evidence := x\<rparr>) = provenance_of a"
  "provenance_of (a\<lparr>at_meter_record_id := x\<rparr>) = provenance_of a"
  by (simp_all add: provenance_of_def)

section \<open>The invariant\<close>

text \<open>A verified external proof stands behind a receipt.\<close>

definition proven :: "codec \<Rightarrow> late_return_verifier \<Rightarrow> request_scope \<Rightarrow> response_identity \<Rightarrow> bool" where
  "proven cd v s r \<longleftrightarrow> validate_verifier v = Inr v
     \<and> (\<exists>proof_text. verify_late_return_proof cd v (late_return_message cd s r) proof_text)"

definition identity_inv :: "codec \<Rightarrow> attempt_store \<Rightarrow> string \<Rightarrow> bool" where
  "identity_inv cd st k \<longleftrightarrow> (case attempt_row st k of
     None \<Rightarrow> binding_row st k = None \<and> return_verifier_row st k = None \<and> receipt_row st k = None
       \<and> handoff_row st k = None \<and> staged_response st k = None
   | Some a \<Rightarrow> k = attempt_id_for cd (at_work a)
       \<and> (at_state a \<in> {Admitted, NotSubmitted} \<longrightarrow> binding_row st k = None))"

definition binding_inv :: "codec \<Rightarrow> attempt_store \<Rightarrow> string \<Rightarrow> bool" where
  "binding_inv cd st k \<longleftrightarrow>
     (\<forall>a b. attempt_row st k = Some a \<longrightarrow> binding_row st k = Some b \<longrightarrow>
        \<not> blank (sc_outbound_request_fingerprint (rb_scope b))
        \<and> rb_scope b = bound_scope cd a (sc_outbound_request_fingerprint (rb_scope b)))
     \<and> (\<forall>vr. return_verifier_row st k = Some vr \<longrightarrow>
        (\<exists>b. binding_row st k = Some b \<and> vr_scope vr = rb_scope b)
        \<and> (vr_consumed_at vr \<noteq> None \<longleftrightarrow> receipt_row st k \<noteq> None))"

definition receipt_inv :: "codec \<Rightarrow> attempt_store \<Rightarrow> string \<Rightarrow> bool" where
  "receipt_inv cd st k \<longleftrightarrow>
     (\<forall>r. receipt_row st k = Some r \<longrightarrow>
        (\<exists>vr. return_verifier_row st k = Some vr \<and> rc_scope r = vr_scope vr
          \<and> proven cd (vr_verifier vr) (rc_scope r) (rc_response r))
        \<and> rc_authenticity_proof r = receipt_proof cd (rc_scope r) (rc_response r)
        \<and> (\<exists>h. handoff_row st k = Some h \<and> late_response cd (hf_directive_payload h) = Inr (rc_response r)
            \<and> hf_payload_sha256 h = rp_payload_sha256 (rc_response r)
            \<and> hf_authenticity_proof h = rc_authenticity_proof r))
     \<and> (handoff_row st k \<noteq> None \<longrightarrow> receipt_row st k \<noteq> None)"

definition staged_inv :: "codec \<Rightarrow> attempt_store \<Rightarrow> string \<Rightarrow> bool" where
  "staged_inv cd st k \<longleftrightarrow> (\<forall>sg. staged_response st k = Some sg \<longrightarrow>
     (\<exists>a r. attempt_row st k = Some a \<and> receipt_row st k = Some r
        \<and> readable a \<and> ascii_text (rc_authenticity_proof r)
        \<and> at_state a \<in> {ResponseReturned, Metered}
        \<and> provenance_of a = response_provenance (sg_response sg)
        \<and> sg_response sg = rc_response r
        \<and> sg_authenticity_proof sg = Some (rc_authenticity_proof r)
        \<and> late_response cd (sg_directive_payload sg) = Inr (sg_response sg)))"

definition key_inv :: "codec \<Rightarrow> attempt_store \<Rightarrow> string \<Rightarrow> bool" where
  "key_inv cd st k \<longleftrightarrow> identity_inv cd st k \<and> binding_inv cd st k \<and> receipt_inv cd st k \<and> staged_inv cd st k"

definition attempt_inv :: "codec \<Rightarrow> attempt_store \<Rightarrow> bool" where
  "attempt_inv cd st \<longleftrightarrow> (\<forall>k. key_inv cd st k)"

lemmas inv_parts = identity_inv_def binding_inv_def receipt_inv_def staged_inv_def

definition empty_attempts :: "string list option \<Rightarrow> attempt_store" where
  "empty_attempts caps = \<lparr>as_attempts = [], as_bindings = [], as_verifiers = [], as_capabilities = caps,
     as_receipts = [], as_handoffs = [], as_responses = []\<rparr>"

lemma find_row_Nil [simp]: "find_row key k [] = None"
  by (simp add: find_row_def)

lemma attempt_inv_empty: "attempt_inv cd (empty_attempts caps)"
  by (simp add: attempt_inv_def key_inv_def inv_parts empty_attempts_def attempt_row_def binding_row_def
      return_verifier_row_def receipt_row_def handoff_row_def staged_response_def)

section \<open>Effects keep the invariant\<close>

text \<open>The invariant of a key only depends on the rows that are found under it.\<close>

lemma key_inv_cong:
  assumes "attempt_row st' j = attempt_row st j" "binding_row st' j = binding_row st j"
    "return_verifier_row st' j = return_verifier_row st j" "receipt_row st' j = receipt_row st j"
    "handoff_row st' j = handoff_row st j" "staged_response st' j = staged_response st j"
  shows "key_inv cd st' j = key_inv cd st j"
  by (simp only: key_inv_def inv_parts assms)

lemma attempt_invD: "attempt_inv cd st \<Longrightarrow> identity_inv cd st j \<and> binding_inv cd st j
    \<and> receipt_inv cd st j \<and> staged_inv cd st j"
  by (simp add: attempt_inv_def key_inv_def)

lemma attempt_invI:
  assumes "attempt_inv cd st" and "key_inv cd st' k"
    and "\<And>j. j \<noteq> k \<Longrightarrow> attempt_row st' j = attempt_row st j \<and> binding_row st' j = binding_row st j
      \<and> return_verifier_row st' j = return_verifier_row st j \<and> receipt_row st' j = receipt_row st j
      \<and> handoff_row st' j = handoff_row st j \<and> staged_response st' j = staged_response st j"
  shows "attempt_inv cd st'"
proof -
  have "key_inv cd st' j" for j
  proof (cases "j = k")
    case False
    with assms(3) [OF this] have "key_inv cd st' j = key_inv cd st j" by (intro key_inv_cong) simp_all
    with assms(1) show ?thesis by (simp add: attempt_inv_def)
  qed (use assms(2) in simp)
  then show ?thesis by (simp add: attempt_inv_def)
qed

text \<open>A change of one attempt's own row.\<close>

lemma inv_update:
  assumes "attempt_inv cd st"
    and id: "\<And>a. at_attempt_id (f a) = at_attempt_id a" "\<And>a. at_work (f a) = at_work a"
      "\<And>a. readable (f a) = readable a"
    and pre: "\<And>a. attempt_row st k = Some a \<Longrightarrow> at_state a \<in> S \<Longrightarrow>
      (at_state (f a) \<in> {Admitted, NotSubmitted} \<longrightarrow> binding_row st k = None)
      \<and> (staged_response st k \<noteq> None \<longrightarrow> at_state (f a) \<in> {ResponseReturned, Metered}
           \<and> provenance_of (f a) = provenance_of a)"
  shows "attempt_inv cd (update_attempt k S f st)"
proof (rule attempt_invI [OF assms(1)])
  let ?st = "update_attempt k S f st"
  have row: "attempt_row ?st j
      = map_option (\<lambda>a. if at_attempt_id a = k \<and> at_state a \<in> S then f a else a) (attempt_row st j)" for j
    using id(1) by (rule update_attempt_row)
  show "attempt_row ?st j = attempt_row st j \<and> binding_row ?st j = binding_row st j
      \<and> return_verifier_row ?st j = return_verifier_row st j \<and> receipt_row ?st j = receipt_row st j
      \<and> handoff_row ?st j = handoff_row st j \<and> staged_response ?st j = staged_response st j" if "j \<noteq> k" for j
    using that by (cases "attempt_row st j") (auto simp: row dest: attempt_row_id)
  show "key_inv cd ?st k"
  proof (cases "\<exists>a. attempt_row st k = Some a \<and> at_state a \<in> S")
    case True
    then obtain a where a: "attempt_row st k = Some a" "at_state a \<in> S" by blast
    then have row': "attempt_row ?st k = Some (f a)" using attempt_row_id [OF a(1)] by (simp add: row)
    have scope: "bound_scope cd (f a) x = bound_scope cd a x" for x
      using id by (simp add: bound_scope_def scope_for_def)
    have inv: "identity_inv cd st k" "binding_inv cd st k" "receipt_inv cd st k" "staged_inv cd st k"
      using attempt_invD [OF assms(1), of k] by simp_all
    have "identity_inv cd ?st k"
      using inv(1) a pre [OF a] unfolding identity_inv_def row' update_attempt_other by (simp add: id)
    moreover have "binding_inv cd ?st k"
      using inv(2) a by (simp add: binding_inv_def row' scope)
    moreover have "receipt_inv cd ?st k"
      using inv(3) unfolding receipt_inv_def update_attempt_other .
    moreover have "staged_inv cd ?st k"
      using inv(4) a pre [OF a] unfolding staged_inv_def update_attempt_other row' by (fastforce simp: id(3))
    ultimately show ?thesis by (simp add: key_inv_def)
  next
    case False
    then have "attempt_row ?st k = attempt_row st k" by (cases "attempt_row st k") (auto simp: row)
    then have "key_inv cd ?st k = key_inv cd st k" by (intro key_inv_cong) simp_all
    with assms(1) show ?thesis by (simp add: attempt_inv_def)
  qed
qed

lemma inv_insert:
  assumes "attempt_inv cd st" and "at_attempt_id a = attempt_id_for cd (at_work a)"
  shows "attempt_inv cd (insert_attempt a st)"
proof (rule attempt_invI [OF assms(1), where k = "at_attempt_id a"])
  show "key_inv cd (insert_attempt a st) (at_attempt_id a)"
  proof (cases "attempt_row (insert_attempt a st) (at_attempt_id a) = attempt_row st (at_attempt_id a)")
    case True
    then have "key_inv cd (insert_attempt a st) (at_attempt_id a) = key_inv cd st (at_attempt_id a)"
      by (intro key_inv_cong) simp_all
    with assms(1) show ?thesis by (simp add: attempt_inv_def)
  next
    case False
    then have "attempt_row st (at_attempt_id a) = None" "attempt_row (insert_attempt a st) (at_attempt_id a) = Some a"
      using insert_attempt_row [of a st "at_attempt_id a"] by (auto split: if_splits)
    with attempt_invD [OF assms(1), of "at_attempt_id a"] assms(2) show ?thesis
      by (simp add: key_inv_def inv_parts)
  qed
qed (simp add: insert_attempt_other_row)

text \<open>Dispatch: the binding, and possibly a verifier, of an attempt that has none.\<close>

definition dispatched ::
    "codec \<Rightarrow> attempt \<Rightarrow> string \<Rightarrow> late_return_verifier option \<Rightarrow> instant \<Rightarrow> attempt_store \<Rightarrow> attempt_store" where
  "dispatched cd a fingerprint verifier moment st =
     (update_attempt (at_attempt_id a) {Admitted} (\<lambda>a. a\<lparr>at_state := Dispatching, at_updated_at := moment\<rparr>) st)
       \<lparr>as_bindings := as_bindings st @ [\<lparr>rb_scope = bound_scope cd a fingerprint, rb_bound_at = moment\<rparr>],
        as_verifiers := as_verifiers st @ (case verifier of None \<Rightarrow> [] | Some v \<Rightarrow>
          [\<lparr>vr_scope = bound_scope cd a fingerprint, vr_verifier = v, vr_bound_at = moment,
            vr_consumed_at = None\<rparr>])\<rparr>"

lemma bound_scope_sel [simp]:
  "sc_attempt_id (bound_scope cd a fp) = at_attempt_id a"
  "sc_outbound_request_fingerprint (bound_scope cd a fp) = fp"
  by (simp_all add: bound_scope_def scope_for_def)

lemma bound_scope_state [simp]:
  "bound_scope cd (a\<lparr>at_state := s\<rparr>) fp = bound_scope cd a fp"
  "bound_scope cd (a\<lparr>at_updated_at := t\<rparr>) fp = bound_scope cd a fp"
  by (simp_all add: bound_scope_def scope_for_def)

lemma dispatched_lookups [simp]:
  "binding_row (dispatched cd a fp v moment st) j = (case binding_row st j of Some b \<Rightarrow> Some b
     | None \<Rightarrow> if j = at_attempt_id a then Some \<lparr>rb_scope = bound_scope cd a fp, rb_bound_at = moment\<rparr> else None)"
  "return_verifier_row (dispatched cd a fp v moment st) j = (case return_verifier_row st j of Some r \<Rightarrow> Some r
     | None \<Rightarrow> if j = at_attempt_id a then map_option (\<lambda>v. \<lparr>vr_scope = bound_scope cd a fp,
         vr_verifier = v, vr_bound_at = moment, vr_consumed_at = None\<rparr>) v else None)"
  "receipt_row (dispatched cd a fp v moment st) j = receipt_row st j"
  "handoff_row (dispatched cd a fp v moment st) j = handoff_row st j"
  "staged_response (dispatched cd a fp v moment st) j = staged_response st j"
  by (auto simp: dispatched_def binding_row_def return_verifier_row_def receipt_row_def handoff_row_def
      staged_response_def update_attempt_def lookup_simps split: option.splits)

lemma dispatched_attempt:
  "attempt_row (dispatched cd a fp v moment st) j = map_option (\<lambda>b. if at_attempt_id b = at_attempt_id a
     \<and> at_state b = Admitted then b\<lparr>at_state := Dispatching, at_updated_at := moment\<rparr> else b) (attempt_row st j)"
  using update_attempt_row [of "\<lambda>a. a\<lparr>at_state := Dispatching, at_updated_at := moment\<rparr>"
      "at_attempt_id a" "{Admitted}" st j]
  by (simp add: dispatched_def attempt_row_def)

lemma artifacts_Nil_iff: "durable_submission_artifacts st k = [] \<longleftrightarrow> binding_row st k = None
    \<and> return_verifier_row st k = None \<and> receipt_row st k = None
    \<and> (case as_capabilities st of None \<Rightarrow> True | Some ks \<Rightarrow> k \<notin> set ks)"
  by (auto simp: durable_submission_artifacts_def split: option.splits)

lemma inv_dispatched:
  assumes inv: "attempt_inv cd st" and row: "attempt_row st k = Some a" and st: "at_state a = Admitted"
    and none: "durable_submission_artifacts st k = []" and fp: "\<not> blank fp"
  shows "attempt_inv cd (dispatched cd a fp v moment st)"
proof (rule attempt_invI [OF inv])
  let ?st = "dispatched cd a fp v moment st"
  have k: "at_attempt_id a = k" using row by (rule attempt_row_id)
  show "attempt_row ?st j = attempt_row st j \<and> binding_row ?st j = binding_row st j
      \<and> return_verifier_row ?st j = return_verifier_row st j \<and> receipt_row ?st j = receipt_row st j
      \<and> handoff_row ?st j = handoff_row st j \<and> staged_response ?st j = staged_response st j" if "j \<noteq> k" for j
    using that k by (cases "attempt_row st j") (auto simp: dispatched_attempt dest: attempt_row_id
        split: option.splits)
  have free: "binding_row st k = None" "return_verifier_row st k = None" "receipt_row st k = None"
    using none by (simp_all add: artifacts_Nil_iff)
  then have more: "handoff_row st k = None" "staged_response st k = None"
    using attempt_invD [OF inv, of k] by (auto simp: receipt_inv_def staged_inv_def)
  show "key_inv cd ?st k"
    using attempt_invD [OF inv, of k] k row st free more fp
    by (cases v) (auto simp: key_inv_def inv_parts dispatched_attempt)
qed

end
