(* ===== verification/AttemptProofs.thy ===== *)
theory AttemptProofs
  imports AttemptInv
begin

text \<open>
  What staging and attaching do to the tables, and that both keep the invariant: a receipt
  and its bytes are written once, together, and only staged bytes close an attempt with an
  externally proven identity.
\<close>

section \<open>Adopting a proven return\<close>

text \<open>The tables after the first adoption of a proven return.\<close>

definition adopted ::
    "codec \<Rightarrow> verifier_row \<Rightarrow> response_identity \<Rightarrow> string \<Rightarrow> instant \<Rightarrow> attempt_store \<Rightarrow> attempt_store" where
  "adopted cd vr response payload moment st =
     (let k = sc_attempt_id (vr_scope vr); p = receipt_proof cd (vr_scope vr) response in
      st\<lparr>as_receipts := as_receipts st @ [\<lparr>rc_scope = vr_scope vr, rc_response = response,
           rc_authenticity_proof = p, rc_captured_at = moment\<rparr>],
         as_handoffs := as_handoffs st @ [\<lparr>hf_attempt_id = k, hf_directive_payload = payload,
           hf_payload_sha256 = rp_payload_sha256 response, hf_authenticity_proof = p\<rparr>],
         as_verifiers := update_rows (\<lambda>r. sc_attempt_id (vr_scope r) = k \<and> vr_consumed_at r = None)
           (\<lambda>r. r\<lparr>vr_consumed_at := Some moment\<rparr>) (as_verifiers st)\<rparr>)"

lemma adopted_lookups:
  "attempt_row (adopted cd vr response payload moment st) j = attempt_row st j"
  "binding_row (adopted cd vr response payload moment st) j = binding_row st j"
  "staged_response (adopted cd vr response payload moment st) j = staged_response st j"
  "receipt_row (adopted cd vr response payload moment st) j = (case receipt_row st j of Some r \<Rightarrow> Some r
     | None \<Rightarrow> if j = sc_attempt_id (vr_scope vr) then Some \<lparr>rc_scope = vr_scope vr, rc_response = response,
         rc_authenticity_proof = receipt_proof cd (vr_scope vr) response, rc_captured_at = moment\<rparr> else None)"
  "handoff_row (adopted cd vr response payload moment st) j = (case handoff_row st j of Some h \<Rightarrow> Some h
     | None \<Rightarrow> if j = sc_attempt_id (vr_scope vr) then Some \<lparr>hf_attempt_id = j, hf_directive_payload = payload,
         hf_payload_sha256 = rp_payload_sha256 response,
         hf_authenticity_proof = receipt_proof cd (vr_scope vr) response\<rparr> else None)"
  "return_verifier_row (adopted cd vr response payload moment st) j = map_option
     (\<lambda>r. if sc_attempt_id (vr_scope r) = sc_attempt_id (vr_scope vr) \<and> vr_consumed_at r = None
       then r\<lparr>vr_consumed_at := Some moment\<rparr> else r) (return_verifier_row st j)"
  by (auto simp: adopted_def Let_def attempt_row_def binding_row_def staged_response_def receipt_row_def
      handoff_row_def return_verifier_row_def find_row_append find_row_update split: option.splits)

lemma insert_receipt_None:
  assumes "receipt_row st (sc_attempt_id (rc_scope r)) = None"
    and "receipt_row (insert_receipt r st) (sc_attempt_id (rc_scope r)) \<noteq> None"
  shows "insert_receipt r st = st\<lparr>as_receipts := as_receipts st @ [r]\<rparr>"
  using assms by (auto simp: insert_receipt_def insert_or_ignore_def receipt_row_def split: if_splits)

lemma insert_receipt_Some:
  assumes "receipt_row st (sc_attempt_id (rc_scope r)) = Some q"
  shows "insert_receipt r st = st"
proof -
  have "list_ex (\<lambda>q. sc_attempt_id (rc_scope q) = sc_attempt_id (rc_scope r)) (as_receipts st)"
    using assms find_row_None_iff [of "\<lambda>q. sc_attempt_id (rc_scope q)" "sc_attempt_id (rc_scope r)"
        "as_receipts st"] by (simp add: receipt_row_def list_ex_iff)
  then have "list_ex (\<lambda>q. sc_attempt_id (rc_scope q) = sc_attempt_id (rc_scope r)
      \<or> rc_authenticity_proof q = rc_authenticity_proof r) (as_receipts st)" by (auto simp: list_ex_iff)
  then show ?thesis by (simp add: insert_receipt_def insert_or_ignore_def)
qed

lemma insert_receipt_handoff [simp]: "handoff_row (insert_receipt r st) j = handoff_row st j"
  "as_handoffs (insert_receipt r st) = as_handoffs st"
  by (simp_all add: insert_receipt_def handoff_row_def)

lemma insert_handoff_Some: "handoff_row st (hf_attempt_id h) \<noteq> None \<Longrightarrow> insert_handoff h st = st"
  by (simp add: insert_handoff_def insert_or_ignore_def)

lemma insert_handoff_None: "handoff_row st (hf_attempt_id h) = None \<Longrightarrow>
    insert_handoff h st = st\<lparr>as_handoffs := as_handoffs st @ [h]\<rparr>"
  by (simp add: insert_handoff_def insert_or_ignore_def)

lemma adopt_proven_cases:
  assumes run: "adopt_proven_return cd a vr response payload moment st = (res, st')"
    and inv: "attempt_inv cd st" and a: "attempt_row st k = Some a"
    and vr: "return_verifier_row st k = Some vr"
  shows "st' = st \<and> (\<forall>p. res = Inr p \<longrightarrow> (\<exists>r h. receipt_row st k = Some r \<and> handoff_row st k = Some h
        \<and> rc_response r = response \<and> p = rc_authenticity_proof r \<and> hf_directive_payload h = payload))
    \<or> (receipt_row st k = None \<and> res = Inr (receipt_proof cd (vr_scope vr) response)
        \<and> st' = adopted cd vr response payload moment st)"
proof -
  have k: "at_attempt_id a = k" "sc_attempt_id (vr_scope vr) = k"
    using attempt_row_id [OF a] verifier_row_id [OF vr] by simp_all
  let ?r = "\<lparr>rc_scope = vr_scope vr, rc_response = response,
    rc_authenticity_proof = receipt_proof cd (vr_scope vr) response, rc_captured_at = moment\<rparr>"
  let ?h = "\<lparr>hf_attempt_id = k, hf_directive_payload = payload,
    hf_payload_sha256 = rp_payload_sha256 response,
    hf_authenticity_proof = receipt_proof cd (vr_scope vr) response\<rparr>"
  have consumed: "vr_consumed_at vr \<noteq> None \<longleftrightarrow> receipt_row st k \<noteq> None"
    using attempt_invD [OF inv, of k] vr by (simp add: binding_inv_def)
  have both: "receipt_row st k \<noteq> None \<longleftrightarrow> handoff_row st k \<noteq> None"
    using attempt_invD [OF inv, of k] by (auto simp: receipt_inv_def)
  show ?thesis
  proof (cases "receipt_row st k")
    case (Some r)
    with both obtain h where h: "handoff_row st k = Some h" by auto
    have "insert_receipt ?r st = st" using Some k by (intro insert_receipt_Some) simp
    moreover have "insert_handoff ?h st = st" using h by (intro insert_handoff_Some) simp
    ultimately show ?thesis using run Some h consumed k
      by (auto simp: adopt_proven_return_def Let_def split: if_splits)
  next
    case None
    with both consumed have h: "handoff_row st k = None" and c: "vr_consumed_at vr = None" by simp_all
    show ?thesis
    proof (cases "receipt_row (insert_receipt ?r st) k")
      case None
      with run c k show ?thesis by (auto simp: adopt_proven_return_def Let_def)
    next
      case (Some r)
      then have ins: "insert_receipt ?r st = st\<lparr>as_receipts := as_receipts st @ [?r]\<rparr>"
        using None k by (intro insert_receipt_None) simp_all
      then have "insert_handoff ?h (insert_receipt ?r st)
          = (insert_receipt ?r st)\<lparr>as_handoffs := as_handoffs st @ [?h]\<rparr>"
        using h by (intro insert_handoff_None [of "insert_receipt ?r st" ?h, simplified insert_receipt_handoff]) simp
      then have "consume_verifier k moment (insert_handoff ?h (insert_receipt ?r st))
          = adopted cd vr response payload moment st"
        using ins k by (simp add: consume_verifier_def adopted_def Let_def)
      then show ?thesis using run Some None c k
        by (auto simp: adopt_proven_return_def Let_def split: if_splits option.splits)
    qed
  qed
qed

lemma inv_adopted:
  assumes inv: "attempt_inv cd st" and a: "attempt_row st k = Some a"
    and vr: "return_verifier_row st k = Some vr" and none: "receipt_row st k = None"
    and proven: "proven cd (vr_verifier vr) (vr_scope vr) response"
    and payload: "late_response cd payload = Inr response"
  shows "attempt_inv cd (adopted cd vr response payload moment st)"
proof (rule attempt_invI [OF inv])
  let ?st = "adopted cd vr response payload moment st"
  have k: "sc_attempt_id (vr_scope vr) = k" using vr by (rule verifier_row_id)
  show "attempt_row ?st j = attempt_row st j \<and> binding_row ?st j = binding_row st j
      \<and> return_verifier_row ?st j = return_verifier_row st j \<and> receipt_row ?st j = receipt_row st j
      \<and> handoff_row ?st j = handoff_row st j \<and> staged_response ?st j = staged_response st j" if "j \<noteq> k" for j
    using that k by (cases "return_verifier_row st j") (auto simp: adopted_lookups dest: verifier_row_id
        split: option.splits)
  have old: "identity_inv cd st k" "binding_inv cd st k" "receipt_inv cd st k" "staged_inv cd st k"
    using attempt_invD [OF inv, of k] by simp_all
  then have fresh: "vr_consumed_at vr = None" "handoff_row st k = None" "staged_response st k = None"
    using vr none by (auto simp: binding_inv_def receipt_inv_def staged_inv_def)
  have "identity_inv cd ?st k"
    using old(1) unfolding identity_inv_def a adopted_lookups option.case .
  moreover have "binding_inv cd ?st k"
    using old(2) a vr none k by (simp add: binding_inv_def adopted_lookups)
  moreover have "receipt_inv cd ?st k"
    using vr none k fresh proven payload by (simp add: receipt_inv_def adopted_lookups)
  moreover have "staged_inv cd ?st k"
    using fresh by (simp add: staged_inv_def adopted_lookups)
  ultimately show "key_inv cd ?st k" by (simp add: key_inv_def)
qed

lemma attach_transaction_cases:
  assumes run: "attach_transaction cd k moment response payload text st = (res, st')"
    and inv: "attempt_inv cd st"
  obtains (unchanged) e where "res = Inl e" "st' = st"
  | (adopt) a vr where "attempt_row st k = Some a" "at_state a \<in> stagable"
      "return_verifier_row st k = Some vr" "proven cd (vr_verifier vr) (vr_scope vr) response"
      "adopt_proven_return cd a vr response payload moment st = (res, st')"
  using run
  by (fastforce simp: attach_transaction_def with_attempt_def get_attempt_def from_row_def proven_def
      validate_verifier_Inr_iff split: option.splits sum.splits if_splits)

section \<open>Staging\<close>

lemma exact_response_Inr_iff: "exact_response cd provider model request_id fingerprint payload = Inr r \<longleftrightarrow>
    late_response cd payload = Inr r \<and> rp_provider r = provider \<and> rp_model r = model
    \<and> rp_provider_request_id r = request_id \<and> rp_response_fingerprint r = fingerprint"
  by (cases r) (auto simp: exact_response_def late_response_def split: sum.splits option.splits)

lemma get_attempt_Some: "get_attempt st k = Inr (Some a) \<longleftrightarrow> attempt_row st k = Some a \<and> readable a"
  by (auto simp: get_attempt_def from_row_def split: option.splits)

lemma with_attempt_cases:
  assumes "with_attempt st k f = (res, st')"
  obtains (missing) e where "res = Inl e" "st' = st"
  | (found) a where "attempt_row st k = Some a" "readable a" "f a = (res, st')"
  using assms by (auto simp: with_attempt_def get_attempt_def from_row_def split: option.splits if_splits)

lemma at_moment_cases:
  assumes "at_moment d field st f = (res, st')"
  obtains (bad) e where "res = Inl e" "st' = st" | (ok) t where "as_utc d field = Inr t" "f t = (res, st')"
  using assms by (auto simp: at_moment_def split: sum.splits)

lemma reread_readable:
  "attempt_row st k = Some a \<Longrightarrow> readable a \<Longrightarrow> reread st k f = (f a, st)"
  by (simp add: reread_def with_attempt_def get_attempt_def from_row_def)

lemma reread_state [simp]: "snd (reread st k f) = st"
  by (auto simp: reread_def with_attempt_def split: sum.splits option.splits)

lemma insert_response_lookups [simp]:
  "attempt_row (insert_response sg st) j = attempt_row st j"
  "binding_row (insert_response sg st) j = binding_row st j"
  "return_verifier_row (insert_response sg st) j = return_verifier_row st j"
  "receipt_row (insert_response sg st) j = receipt_row st j"
  "handoff_row (insert_response sg st) j = handoff_row st j"
  "staged_response (insert_response sg st) j = (case staged_response st j of Some x \<Rightarrow> Some x
     | None \<Rightarrow> if j = sg_attempt_id sg then Some sg else None)"
  by (auto simp: insert_response_def attempt_row_def binding_row_def return_verifier_row_def
      receipt_row_def handoff_row_def staged_response_def lookup_simps split: option.splits)

lemma close_round_lookups [simp]:
  "binding_row (close_round k a r t e st) j = binding_row st j"
  "return_verifier_row (close_round k a r t e st) j = return_verifier_row st j"
  "receipt_row (close_round k a r t e st) j = receipt_row st j"
  "handoff_row (close_round k a r t e st) j = handoff_row st j"
  "staged_response (close_round k a r t e st) j = staged_response st j"
  by (simp_all add: close_round_def)

lemma row_changes [simp]:
  "at_attempt_id (returned_row r t e a) = at_attempt_id a" "at_work (returned_row r t e a) = at_work a"
  "at_attempt_id (corrected_row r t e a) = at_attempt_id a" "at_work (corrected_row r t e a) = at_work a"
  "at_state (returned_row r t e a) = ResponseReturned" "at_state (corrected_row r t e a) = at_state a"
  "provenance_of (returned_row r t e a) = response_provenance r"
  "provenance_of (corrected_row r t e a) = response_provenance r"
  "at_meter_record_id (returned_row r t e a) = at_meter_record_id a"
  "at_meter_record_id (corrected_row r t e a) = at_meter_record_id a"
  "readable (returned_row r t e a) = readable a" "readable (corrected_row r t e a) = readable a"
  by (simp_all add: returned_row_def corrected_row_def readable_def)

text \<open>Closing a round: the row of the attempt then carries the response it was closed with.\<close>

definition closed_row :: "attempt \<Rightarrow> response_identity \<Rightarrow> attempt \<Rightarrow> bool" where
  "closed_row a r a' \<longleftrightarrow> at_attempt_id a' = at_attempt_id a \<and> at_work a' = at_work a
     \<and> at_meter_record_id a' = at_meter_record_id a \<and> readable a' = readable a
     \<and> at_state a' = (if at_state a = Metered then Metered else ResponseReturned)
     \<and> provenance_of a' = response_provenance r"

lemma close_round_row:
  assumes "attempt_row st k = Some a" and "at_state a \<in> stagable"
  shows "\<exists>a'. attempt_row (close_round k a r t e st) k = Some a' \<and> closed_row a r a'"
    and "j \<noteq> k \<Longrightarrow> attempt_row (close_round k a r t e st) j = attempt_row st j"
proof -
  have k: "at_attempt_id a = k" using assms(1) by (rule attempt_row_id)
  show "\<exists>a'. attempt_row (close_round k a r t e st) k = Some a' \<and> closed_row a r a'"
    using assms k by (auto simp: close_round_def update_attempt_row closed_row_def stagable_def
        supersedes_unverified_local_def)
  show "attempt_row (close_round k a r t e st) j = attempt_row st j" if "j \<noteq> k"
    using that by (cases "attempt_row st j")
      (auto simp: close_round_def update_attempt_row dest: attempt_row_id)
qed

lemma verify_response_Inr:
  assumes "verify_response_authenticity cd st a b response p = Inr r"
  shows "receipt_row st (at_attempt_id a) = Some r" "ascii_text (rc_authenticity_proof r)" "p = rc_authenticity_proof r" "rc_response r = response"
    "rc_scope r = scope_for a (sc_outbound_request_fingerprint (rb_scope b)) (sc_relay_id (rb_scope b))"
  using assms by (auto simp: verify_response_authenticity_def split: option.splits if_splits)

lemma stage_transaction_cases:
  assumes run: "stage_transaction cd moment response staged st = (res, st')"
  obtains (unchanged) e where "res = Inl e" "st' = st"
  | (staged) a r row where "attempt_row st (sg_attempt_id staged) = Some a" "readable a" "at_state a \<in> stagable"
      "receipt_row st (sg_attempt_id staged) = Some r" "rc_response r = response"
      "sg_authenticity_proof staged = Some (rc_authenticity_proof r)" "ascii_text (rc_authenticity_proof r)"
      "staged_response (insert_response staged st) (sg_attempt_id staged) = Some row"
      "response_provenance (sg_response row) = response_provenance response"
      "sg_directive_payload row = sg_directive_payload staged"
      "sg_authenticity_proof row = sg_authenticity_proof staged"
      "res = Inr row"
      "st' = close_round (sg_attempt_id staged) a response moment (sg_evidence staged) (insert_response staged st)"
proof -
  let ?k = "sg_attempt_id staged"
  let ?st = "insert_response staged st"
  from run show ?thesis
    unfolding stage_transaction_def Let_def
  proof (cases rule: with_attempt_cases)
    case (found a)
    have k: "at_attempt_id a = ?k" using found(1) by (rule attempt_row_id)
    show ?thesis
    proof (cases "at_state a \<in> stagable")
      case False
      with found(3) unchanged show ?thesis by auto
    next
      case True
      show ?thesis
      proof (cases "authenticate cd st a response (sg_authenticity_proof staged)")
        case (Inl e)
        with found(3) True unchanged show ?thesis by (auto split: if_splits)
      next
        case (Inr r)
        then obtain p b where p: "sg_authenticity_proof staged = Some p"
          and v: "verify_response_authenticity cd st a b response p = Inr r"
          by (auto simp: authenticate_def split: option.splits)
        note r = verify_response_Inr [OF v]
        show ?thesis
        proof (cases "staged_response ?st ?k")
          case None
          with found(3) True Inr unchanged show ?thesis by (auto split: if_splits)
        next
          case (Some row)
          let ?st' = "close_round ?k a response moment (sg_evidence staged) ?st"
          have "\<exists>a'. attempt_row ?st' ?k = Some a' \<and> closed_row a response a'"
            using found(1) True by (intro close_round_row(1)) simp_all
          then obtain a' where a': "attempt_row ?st' ?k = Some a'" "closed_row a response a'" by blast
          then have "readable a'" "at_state a' \<in> {ResponseReturned, Metered}"
            using found(2) by (auto simp: closed_row_def)
          then have "reread ?st' ?k (\<lambda>a. if at_state a \<notin> {ResponseReturned, Metered} then Inl (Blocked a) else Inr row)
              = (Inr row, ?st')" using a'(1) by (simp add: reread_readable)
          with found(3) True Inr Some show ?thesis
            using unchanged staged [OF found(1,2) True r(1) [unfolded k] r(4) p [unfolded r(3)] r(2) Some]
            by (auto split: if_splits)
        qed
      qed
    qed
  qed (rule unchanged)
qed

lemma inv_staged:
  assumes inv: "attempt_inv cd st" and a: "attempt_row st k = Some a" "at_state a \<in> stagable"
    and r: "receipt_row st k = Some r" "rc_response r = response" "readable a" "ascii_text (rc_authenticity_proof r)"
    and sg: "sg_attempt_id staged = k" "sg_response staged = response"
      "sg_authenticity_proof staged = Some (rc_authenticity_proof r)"
      "late_response cd (sg_directive_payload staged) = Inr response"
  shows "attempt_inv cd (close_round k a response moment evidence (insert_response staged st))"
proof (rule attempt_invI [OF inv])
  let ?st = "close_round k a response moment evidence (insert_response staged st)"
  have row: "attempt_row (insert_response staged st) k = Some a" using a(1) by simp
  show "attempt_row ?st j = attempt_row st j \<and> binding_row ?st j = binding_row st j
      \<and> return_verifier_row ?st j = return_verifier_row st j \<and> receipt_row ?st j = receipt_row st j
      \<and> handoff_row ?st j = handoff_row st j \<and> staged_response ?st j = staged_response st j" if "j \<noteq> k" for j
    using that close_round_row(2) [OF row a(2) that] sg(1) by (auto split: option.splits)
  obtain a' where a': "attempt_row ?st k = Some a'" "closed_row a response a'"
    using close_round_row(1) [OF row a(2)] by blast
  have old: "identity_inv cd st k" "binding_inv cd st k" "receipt_inv cd st k" "staged_inv cd st k"
    using attempt_invD [OF inv, of k] by simp_all
  have scope: "bound_scope cd a' x = bound_scope cd a x" for x
    using a'(2) by (simp add: closed_row_def bound_scope_def scope_for_def)
  have "identity_inv cd ?st k"
    using old(1) a(1) a'(2) unfolding identity_inv_def a'(1) close_round_lookups insert_response_lookups
    by (simp add: closed_row_def)
  moreover have "binding_inv cd ?st k"
    using old(2) a(1) unfolding binding_inv_def a'(1) close_round_lookups insert_response_lookups
    by (simp add: scope)
  moreover have "receipt_inv cd ?st k"
    using old(3) unfolding receipt_inv_def close_round_lookups insert_response_lookups .
  moreover have "staged_inv cd ?st k"
    using old(4) a r sg a'(2)
    unfolding staged_inv_def a'(1) close_round_lookups insert_response_lookups(1-5)
    by (cases "staged_response st k") (auto simp: closed_row_def)
  ultimately show "key_inv cd ?st k" by (simp add: key_inv_def)
qed

end
