(* ===== verification/Metering.thy ===== *)
theory Metering
  imports AttemptLate
begin

text \<open>
  runtime/metering.py: the append-only ledger of model calls beside the attempts table of the
  same database. \<open>uuid4\<close> is the argument \<open>fresh_id\<close>.
\<close>

datatype execution_class = EcUserInteraction | EcBackground | EcPeriodicReview | EcSafety | EcOther

record metering_record =
  mr_record_id :: string
  mr_subject_id :: string
  mr_world_revision :: int
  mr_recorded_at :: instant
  mr_execution_class :: execution_class
  mr_wake_id :: "string option"
  mr_session_id :: "string option"
  mr_wake_reason :: string
  mr_model_round_index :: int
  mr_provider :: "string option"
  mr_model :: "string option"
  mr_provider_request_id :: "string option"
  mr_background_attempt_id :: "string option"
  mr_usage_complete :: bool
  mr_input_tokens :: "int option"
  mr_output_tokens :: "int option"
  mr_total_tokens :: "int option"

record runtime_db =
  rd_attempts :: attempt_store
  rd_metering :: "metering_record list"

text \<open>The field constraints and the validator of \<open>MeteringRecord\<close>.\<close>

definition metering_guards :: "metering_record \<Rightarrow> (bool \<times> attempt_error) list" where
  "metering_guards r =
     [(mr_record_id r = [], InvalidArgument ''record_id''),
      (mr_subject_id r = [], InvalidArgument ''subject_id''),
      (mr_world_revision r < 0, InvalidArgument ''world_revision''),
      (mr_wake_reason r = [], InvalidArgument ''wake_reason''),
      (mr_model_round_index r < 0, InvalidArgument ''model_round_index''),
      (some_negative (mr_input_tokens r), InvalidArgument ''input_tokens''),
      (some_negative (mr_output_tokens r), InvalidArgument ''output_tokens''),
      (some_negative (mr_total_tokens r), InvalidArgument ''total_tokens''),
      (some_blank (mr_wake_id r), InvalidArgument ''wake_id must be non-blank when provided''),
      (some_blank (mr_session_id r), InvalidArgument ''session_id must be non-blank when provided''),
      (some_blank (mr_provider r), InvalidArgument ''provider must be non-blank when provided''),
      (some_blank (mr_model r), InvalidArgument ''model must be non-blank when provided''),
      (some_blank (mr_provider_request_id r),
         InvalidArgument ''provider_request_id must be non-blank when provided''),
      (some_blank (mr_background_attempt_id r),
         InvalidArgument ''background_attempt_id must be non-blank when provided''),
      (mr_usage_complete r \<and> mr_total_tokens r = None,
         InvalidArgument ''complete metering record requires total_tokens''),
      (\<not> mr_usage_complete r
         \<and> (mr_input_tokens r \<noteq> None \<or> mr_output_tokens r \<noteq> None \<or> mr_total_tokens r \<noteq> None),
         InvalidArgument ''incomplete metering record must not invent token values'')]"

definition nonempty :: "string option \<Rightarrow> bool" where
  "nonempty v \<longleftrightarrow> v \<noteq> None \<and> v \<noteq> Some []"

definition record_id_for ::
    "codec \<Rightarrow> string \<Rightarrow> string option \<Rightarrow> string option \<Rightarrow> string option \<Rightarrow> string" where
  "record_id_for cd fresh_id provider request_id attempt_id = ''meter_'' @
     (if nonempty provider \<and> nonempty request_id
      then take 32 (hexdigest cd (the provider @ [CHR 0x00] @ the request_id))
      else if nonempty attempt_id
      then take 32 (hexdigest cd (''background-attempt'' @ [CHR 0x00] @ the attempt_id))
      else fresh_id)"

text \<open>Usage and provenance may both name the provider, the model and the request.\<close>

definition usage_conflicts :: "model_usage option \<Rightarrow> model_provenance option \<Rightarrow> bool" where
  "usage_conflicts u p = (case (u, p) of
     (Some u, Some p) \<Rightarrow> differs (mu_provider u) (mp_provider p) \<or> differs (mu_model u) (mp_model p)
       \<or> differs (mu_request_id u) (mp_request_id p)
   | _ \<Rightarrow> False)"

definition int64_option :: "int option \<Rightarrow> bool" where
  "int64_option v = (case v of None \<Rightarrow> True | Some i \<Rightarrow> fits_int64 i)"

definition metering_fits :: "metering_record \<Rightarrow> bool" where
  "metering_fits r \<longleftrightarrow> fits_int64 (mr_world_revision r) \<and> fits_int64 (mr_model_round_index r)
     \<and> int64_option (mr_input_tokens r) \<and> int64_option (mr_output_tokens r)
     \<and> int64_option (mr_total_tokens r)"

text \<open>The primary key and the two partial unique indexes.\<close>

definition metering_clash :: "metering_record \<Rightarrow> metering_record \<Rightarrow> bool" where
  "metering_clash r q \<longleftrightarrow> mr_record_id q = mr_record_id r
     \<or> (mr_provider r \<noteq> None \<and> mr_provider_request_id r \<noteq> None
        \<and> mr_provider q = mr_provider r \<and> mr_provider_request_id q = mr_provider_request_id r)
     \<or> (mr_background_attempt_id r \<noteq> None \<and> mr_background_attempt_id q = mr_background_attempt_id r)"

definition insert_metering :: "metering_record \<Rightarrow> metering_record list \<Rightarrow> metering_record list" where
  "insert_metering r rows = insert_or_ignore (list_ex (metering_clash r) rows) r rows"

definition same_call :: "metering_record \<Rightarrow> metering_record \<Rightarrow> bool" where
  "same_call r q \<longleftrightarrow> q\<lparr>mr_record_id := mr_record_id r, mr_world_revision := mr_world_revision r,
     mr_recorded_at := mr_recorded_at r\<rparr> = r"

definition metering_record_of ::
    "codec \<Rightarrow> string \<Rightarrow> string \<Rightarrow> int \<Rightarrow> instant \<Rightarrow> execution_class \<Rightarrow> string \<Rightarrow> int
      \<Rightarrow> model_usage option \<Rightarrow> model_provenance option \<Rightarrow> string option \<Rightarrow> string option \<Rightarrow> string option
      \<Rightarrow> metering_record" where
  "metering_record_of cd fresh_id subject revision moment cls wake_reason round_index usage provenance
       wake_id session_id attempt_id =
     (let pick = (\<lambda>f g. case usage of None \<Rightarrow> map_option g provenance
            | Some u \<Rightarrow> or_str (f u) (map_option g provenance));
          provider = pick mu_provider mp_provider;
          model = pick mu_model mp_model;
          request_id = pick mu_request_id mp_request_id
      in \<lparr>mr_record_id = record_id_for cd fresh_id provider request_id attempt_id,
          mr_subject_id = subject, mr_world_revision = revision, mr_recorded_at = moment,
          mr_execution_class = cls, mr_wake_id = wake_id, mr_session_id = session_id,
          mr_wake_reason = wake_reason, mr_model_round_index = round_index, mr_provider = provider,
          mr_model = model, mr_provider_request_id = request_id,
          mr_background_attempt_id = attempt_id, mr_usage_complete = (usage \<noteq> None),
          mr_input_tokens = Option.bind usage mu_input_tokens,
          mr_output_tokens = Option.bind usage mu_output_tokens,
          mr_total_tokens = map_option mu_total_tokens usage\<rparr>)"

text \<open>The checks of the attempt a record claims, and the closing of that attempt.\<close>

definition attempt_admits :: "attempt_store \<Rightarrow> metering_record \<Rightarrow> attempt_error option" where
  "attempt_admits st r = (case mr_background_attempt_id r of
     None \<Rightarrow> None
   | Some k \<Rightarrow>
      (case attempt_row st k of
         None \<Rightarrow> Some (NotDurable ''metering references an unknown background model attempt'')
       | Some a \<Rightarrow>
          let w = at_work a in
          if wi_subject_id w \<noteq> mr_subject_id r
             \<or> (wi_work_kind w \<noteq> WkUserTurn \<and> wi_work_id w \<noteq> (case mr_wake_id r of None \<Rightarrow> [] | Some i \<Rightarrow> i))
             \<or> wi_model_round_index w \<noteq> mr_model_round_index r
          then Some (NotDurable ''metering background attempt conflicts with durable work identity'')
          else if at_state a \<notin> {ResponseReturned, Metered}
          then Some (NotDurable ''background attempt must durably record provider response before metering'')
          else None))"

definition close_attempt :: "string \<Rightarrow> string \<Rightarrow> instant \<Rightarrow> attempt_store \<Rightarrow> attempt_store" where
  "close_attempt k record_id moment st = st\<lparr>as_attempts := update_rows
     (\<lambda>a. at_attempt_id a = k \<and> at_state a \<in> {ResponseReturned, Metered}
        \<and> (at_meter_record_id a = None \<or> at_meter_record_id a = Some record_id))
     (\<lambda>a. a\<lparr>at_state := Metered, at_meter_record_id := Some record_id, at_updated_at := moment\<rparr>)
     (as_attempts st)\<rparr>"

definition attempt_closed :: "attempt_store \<Rightarrow> string \<Rightarrow> string \<Rightarrow> bool" where
  "attempt_closed st k record_id \<longleftrightarrow> (case attempt_row st k of None \<Rightarrow> False
     | Some a \<Rightarrow> at_state a = Metered \<and> at_meter_record_id a = Some record_id)"

definition meter_transaction ::
    "metering_record \<Rightarrow> runtime_db \<Rightarrow> (attempt_error + metering_record) \<times> runtime_db" where
  "meter_transaction r db =
     (case attempt_admits (rd_attempts db) r of
        Some e \<Rightarrow> (Inl e, db)
      | None \<Rightarrow>
         if \<not> metering_fits r then (Inl Overflow, db)
         else let rows = insert_metering r (rd_metering db) in
           case find_row mr_record_id (mr_record_id r) rows of
             None \<Rightarrow> (Inl (NotDurable ''metering record insert was not durable''), db)
           | Some persisted \<Rightarrow>
              if \<not> same_call r persisted
              then (Inl (NotDurable ''metering replay conflicts with durable provider response identity''), db)
              else (case mr_background_attempt_id r of
                None \<Rightarrow> (Inr persisted, db\<lparr>rd_metering := rows\<rparr>)
              | Some k \<Rightarrow>
                 let st = close_attempt k (mr_record_id persisted) (mr_recorded_at r) (rd_attempts db)
                 in if \<not> attempt_closed st k (mr_record_id persisted)
                    then (Inl (NotDurable ''metering could not atomically close the background attempt''), db)
                    else (Inr persisted, \<lparr>rd_attempts = st, rd_metering = rows\<rparr>)))"

definition record_model_call ::
    "codec \<Rightarrow> string \<Rightarrow> string \<Rightarrow> int \<Rightarrow> datetime \<Rightarrow> execution_class \<Rightarrow> string \<Rightarrow> int
      \<Rightarrow> model_usage option \<Rightarrow> model_provenance option \<Rightarrow> string option \<Rightarrow> string option \<Rightarrow> string option
      \<Rightarrow> runtime_db \<Rightarrow> (attempt_error + metering_record) \<times> runtime_db" where
  "record_model_call cd fresh_id subject revision recorded_at cls wake_reason round_index usage provenance
       wake_id session_id attempt_id db =
     (if usage_conflicts usage provenance
      then (Inl (InvalidArgument ''usage conflicts with model-call provenance''), db)
      else case as_utc recorded_at ''recorded_at'' of
        Inl e \<Rightarrow> (Inl (BadInstant e), db)
      | Inr moment \<Rightarrow>
         (case raising (metering_guards (metering_record_of cd fresh_id subject revision moment cls
                 wake_reason round_index usage provenance wake_id session_id attempt_id))
               (metering_record_of cd fresh_id subject revision moment cls
                 wake_reason round_index usage provenance wake_id session_id attempt_id) of
            Inl e \<Rightarrow> (Inl e, db)
          | Inr r \<Rightarrow> meter_transaction r db))"

definition in_window :: "instant option \<Rightarrow> instant option \<Rightarrow> instant \<Rightarrow> bool" where
  "in_window start_at end_at t \<longleftrightarrow> (case start_at of None \<Rightarrow> True | Some s \<Rightarrow> s \<le> t)
     \<and> (case end_at of None \<Rightarrow> True | Some e \<Rightarrow> t < e)"

definition list_model_calls ::
    "string \<Rightarrow> datetime option \<Rightarrow> datetime option \<Rightarrow> execution_class list \<Rightarrow> string option \<Rightarrow> runtime_db
      \<Rightarrow> attempt_error + metering_record list" where
  "list_model_calls subject start_at end_at classes wake_id db =
     (let instant_of = (\<lambda>d f. case d of None \<Rightarrow> Inr None
            | Some x \<Rightarrow> (case canonical_utc_iso x f of Inl e \<Rightarrow> Inl (BadInstant e) | Inr t \<Rightarrow> Inr (Some t)))
      in result_bind (instant_of start_at ''start_at'') (\<lambda>s.
         result_bind (instant_of end_at ''end_at'') (\<lambda>e.
         Inr (sort_key (\<lambda>r. (mr_recorded_at r, mr_record_id r)) (filter (\<lambda>r.
           mr_subject_id r = subject \<and> in_window s e (mr_recorded_at r)
           \<and> (classes = [] \<or> mr_execution_class r \<in> set classes)
           \<and> (wake_id = None \<or> mr_wake_id r = wake_id)) (rd_metering db))))))"

end
