(* ===== verification/AttemptSteps.thy ===== *)
theory AttemptSteps
  imports AttemptProofs Metering
begin

text \<open>
  The contract of the attempts database: a small machine for each attempt (how far its
  request went, and the rows that are written once), which every operation refines.
\<close>

section \<open>The machine of one attempt\<close>

fun rank :: "attempt_state \<Rightarrow> nat" where
  "rank Admitted = 1" | "rank NotSubmitted = 1" | "rank Dispatching = 2" | "rank InDoubt = 3"
| "rank ResponseReturned = 4" | "rank Metered = 5"

record attempt_view =
  av_rank :: nat
  av_binding :: "request_binding option"
  av_receipt :: "receipt option"
  av_handoff :: "handoff option"
  av_staged :: "staging option"

definition view :: "attempt_store \<Rightarrow> string \<Rightarrow> attempt_view" where
  "view st k = \<lparr>av_rank = (case attempt_row st k of None \<Rightarrow> 0 | Some a \<Rightarrow> rank (at_state a)),
     av_binding = binding_row st k, av_receipt = receipt_row st k, av_handoff = handoff_row st k,
     av_staged = staged_response st k\<rparr>"

text \<open>
  A request goes forward only; its binding is written when it crosses the provider boundary,
  a proven return is written once and only for a bound request, staging once and only over a
  proven return.
\<close>

definition view_step :: "attempt_view \<Rightarrow> attempt_view \<Rightarrow> bool" where
  "view_step v w \<longleftrightarrow> av_rank v \<le> av_rank w
     \<and> (av_binding w = av_binding v \<or> av_binding v = None \<and> av_rank v = 1 \<and> av_rank w = 2)
     \<and> (av_receipt w = av_receipt v \<and> av_handoff w = av_handoff v
        \<or> av_receipt v = None \<and> av_handoff v = None \<and> av_binding v \<noteq> None \<and> 2 \<le> av_rank v
          \<and> av_receipt w \<noteq> None \<and> av_handoff w \<noteq> None)
     \<and> (av_staged w = av_staged v
        \<or> av_staged v = None \<and> av_receipt v \<noteq> None \<and> av_staged w \<noteq> None \<and> 4 \<le> av_rank w)"

lemma view_step_refl [simp]: "view_step v v"
  by (simp add: view_step_def)

section \<open>The operations as effects\<close>

inductive effect :: "codec \<Rightarrow> attempt_store \<Rightarrow> attempt_store \<Rightarrow> bool" for cd where
  same: "effect cd st st"
| insert: "\<lbrakk>at_attempt_id a = attempt_id_for cd (at_work a); at_meter_record_id a = None; at_state a \<noteq> Metered\<rbrakk>
    \<Longrightarrow> effect cd st (insert_attempt a st)"
| update: "\<lbrakk>S \<subseteq> {Admitted, NotSubmitted, Dispatching}; \<And>a. at_attempt_id (f a) = at_attempt_id a; \<And>a. at_work (f a) = at_work a;
    \<And>a. readable (f a) = readable a; \<And>a. at_meter_record_id (f a) = at_meter_record_id a;
    \<And>a. at_state a \<in> S \<Longrightarrow> rank (at_state a) \<le> rank (at_state (f a)) \<and> at_state (f a) \<noteq> Metered\<rbrakk>
    \<Longrightarrow> effect cd st (update_attempt k S f st)"
| dispatch: "\<lbrakk>attempt_row st k = Some a; at_state a = Admitted; durable_submission_artifacts st k = [];
    \<not> blank fp\<rbrakk> \<Longrightarrow> effect cd st (dispatched cd a fp v moment st)"
| adopt: "\<lbrakk>attempt_row st k = Some a; at_state a \<in> stagable; return_verifier_row st k = Some vr;
    receipt_row st k = None; proven cd (vr_verifier vr) (vr_scope vr) response;
    late_response cd payload = Inr response\<rbrakk>
    \<Longrightarrow> effect cd st (adopted cd vr response payload moment st)"
| stage: "\<lbrakk>attempt_row st k = Some a; at_state a \<in> stagable; receipt_row st k = Some r;
    rc_response r = response; readable a; ascii_text (rc_authenticity_proof r);
    sg_attempt_id staged = k; sg_response staged = response;
    sg_authenticity_proof staged = Some (rc_authenticity_proof r);
    late_response cd (sg_directive_payload staged) = Inr response\<rbrakk>
    \<Longrightarrow> effect cd st (close_round k a response moment evidence (insert_response staged st))"

declare effect.same [simp, intro!]

lemma unsent_unbound:
  assumes "attempt_inv cd st" and "attempt_row st k = Some a" and "at_state a \<in> {Admitted, NotSubmitted}"
  shows "binding_row st k = None"
  using attempt_invD [OF assms(1), of k] assms(3) unfolding identity_inv_def assms(2) option.case by blast

lemma effect_inv:
  assumes "effect cd st st'" and "attempt_inv cd st"
  shows "attempt_inv cd st'"
  using assms
proof cases
  case (insert a)
  with assms(2) show ?thesis by (simp add: inv_insert)
next
  case (update S f k)
  show ?thesis
    unfolding update(1)
  proof (rule inv_update [OF assms(2) update(3-5)])
    fix a assume a: "attempt_row st k = Some a" "at_state a \<in> S"
    have "staged_response st k = None"
      using a update(2) attempt_invD [OF assms(2), of k]
      by (cases "staged_response st k") (auto simp: staged_inv_def)
    moreover have "binding_row st k = None" if f: "at_state (f a) \<in> {Admitted, NotSubmitted}"
    proof -
      have "rank (at_state a) \<le> rank (at_state (f a))" using a(2) update(7) by blast
      with f have "at_state a \<in> {Admitted, NotSubmitted}" by (cases "at_state a") auto
      then show ?thesis by (rule unsent_unbound [OF assms(2) a(1)])
    qed
    ultimately show "(at_state (f a) \<in> {Admitted, NotSubmitted} \<longrightarrow> binding_row st k = None)
      \<and> (staged_response st k \<noteq> None \<longrightarrow> at_state (f a) \<in> {ResponseReturned, Metered}
           \<and> provenance_of (f a) = provenance_of a)" by simp
  qed
next
  case (dispatch k a fp v moment)
  with assms(2) show ?thesis by (auto intro: inv_dispatched)
next
  case (adopt k a vr response payload moment)
  with assms(2) show ?thesis by (auto intro: inv_adopted)
next
  case (stage k a r response staged moment evidence)
  with assms(2) show ?thesis by (auto intro: inv_staged)
qed simp

lemma effect_view:
  assumes "effect cd st st'" and inv: "attempt_inv cd st"
  shows "view_step (view st j) (view st' j)"
  using assms(1)
proof cases
  case (insert a)
  show ?thesis
  proof (cases "attempt_row st' j = attempt_row st j")
    case True
    then show ?thesis by (simp add: insert(1) view_def view_step_def)
  next
    case False
    then have "attempt_row st j = None"
      using insert_attempt_row [of a st j] insert(1) by (auto split: if_splits)
    then show ?thesis by (simp add: insert(1) view_def view_step_def)
  qed
next
  case (update S f k)
  have "rank (at_state b) \<le> rank (at_state (if at_attempt_id b = k \<and> at_state b \<in> S then f b else b))" for b
    using update(7) by simp
  then show ?thesis unfolding update(1)
    by (auto simp: view_def view_step_def update_attempt_row [OF update(3)] split: option.split)
next
  case (dispatch k a fp v moment)
  then have "at_attempt_id a = k" "binding_row st k = None" by (auto simp: attempt_row_id artifacts_Nil_iff)
  then show ?thesis unfolding dispatch(1)
    using dispatch by (cases "j = k") (auto simp: view_def view_step_def dispatched_attempt
        dest: attempt_row_id split: option.split)
next
  case (adopt k a vr response payload moment)
  have k: "sc_attempt_id (vr_scope vr) = k" using adopt(4) by (rule verifier_row_id)
  have none: "handoff_row st k = None"
    using attempt_invD [OF inv, of k] adopt(5) by (simp add: receipt_inv_def)
  have bound: "binding_row st k \<noteq> None"
    using attempt_invD [OF inv, of k] adopt(4) by (auto simp: binding_inv_def)
  have "2 \<le> rank (at_state a)" using adopt(3) by (auto simp: stagable_def)
  then show ?thesis unfolding adopt(1)
    using adopt k none bound by (cases "j = k") (auto simp: view_def view_step_def adopted_lookups split: option.split)
next
  case (stage k a r response staged moment evidence)
  have row: "attempt_row (insert_response staged st) k = Some a" using stage(2) by simp
  obtain a' where a': "attempt_row st' k = Some a'" "closed_row a response a'"
    using close_round_row(1) [OF row stage(3)] stage(1) by blast
  then have "4 \<le> rank (at_state a')" "rank (at_state a) \<le> rank (at_state a')"
    using stage(3) by (auto simp: closed_row_def stagable_def)
  moreover have "attempt_row st' j = attempt_row st j" if "j \<noteq> k"
    using close_round_row(2) [OF row stage(3) that] stage(1) by simp
  ultimately show ?thesis
    using stage a'(1) by (cases "j = k") (auto simp: view_def view_step_def split: option.split)
qed simp

section \<open>Every operation is an effect\<close>

lemma insert_attempt_ignored:
  assumes "attempt_row st (at_attempt_id a) \<noteq> None"
  shows "insert_attempt a st = st"
proof -
  have "list_ex (\<lambda>b. at_attempt_id b = at_attempt_id a) (as_attempts st)"
    using assms find_row_None_iff [of at_attempt_id "at_attempt_id a" "as_attempts st"]
    by (simp add: attempt_row_def list_ex_iff)
  then have "list_ex (\<lambda>b. at_attempt_id b = at_attempt_id a \<or> at_work b = at_work a) (as_attempts st)"
    by (auto simp: list_ex_iff)
  then show ?thesis by (simp add: insert_attempt_def insert_or_ignore_def)
qed

lemma with_attempt_effect:
  assumes "\<And>a. attempt_row st k = Some a \<Longrightarrow> readable a \<Longrightarrow> effect cd st (snd (f a))"
  shows "effect cd st (snd (with_attempt st k f))"
  using assms by (auto simp: with_attempt_def get_attempt_def from_row_def intro: effect.same
      split: sum.split option.split)

lemma at_moment_effect:
  assumes "\<And>t. effect cd st (snd (f t))"
  shows "effect cd st (snd (at_moment d field st f))"
  using assms by (auto simp: at_moment_def intro: effect.same split: sum.split)

lemma new_attempt_sel [simp]:
  "at_attempt_id (new_attempt k w r n s t) = k" "at_work (new_attempt k w r n s t) = w"
  "at_state (new_attempt k w r n s t) = s" "at_meter_record_id (new_attempt k w r n s t) = None"
  by (simp_all add: new_attempt_def)

lemma readable_update [simp]:
  "readable (a\<lparr>at_state := s\<rparr>) = readable a" "readable (a\<lparr>at_updated_at := t\<rparr>) = readable a"
  "readable (a\<lparr>at_failure_kind := x\<rparr>) = readable a" "readable (a\<lparr>at_failure_detail := x\<rparr>) = readable a"
  "readable (a\<lparr>at_reconciliation_evidence := x\<rparr>) = readable a"
  "readable (with_provenance p a) = readable a"
  by (simp_all add: readable_def)

lemma admit_effect: "effect cd st (snd (admit cd w reason revision d st))"
proof (unfold admit_def, rule at_moment_effect, unfold Let_def)
  fix moment
  let ?k = "attempt_id_for cd w"
  let ?new = "new_attempt ?k w reason revision Admitted moment"
  let ?st = "insert_attempt ?new st"
  have ins: "effect cd st ?st" by (intro effect.insert) simp_all
  have old: "attempt_row st ?k = Some a \<and> ?st = st" if "attempt_row ?st ?k = Some a" "at_state a \<noteq> Admitted" for a
  proof -
    have "attempt_row st ?k = Some a"
      using that insert_attempt_row [of ?new st ?k] by (auto split: if_splits)
    then show ?thesis by (simp add: insert_attempt_ignored)
  qed
  show "effect cd st (snd (if \<not> fits_int64 (wi_model_round_index w) \<or> \<not> fits_int64 revision then (Inl Overflow, st)
        else case get_attempt ?st ?k of
          Inl e \<Rightarrow> (Inl e, st)
        | Inr None \<Rightarrow> (Inl (NotDurable ''admission was not durable''), st)
        | Inr (Some current) \<Rightarrow>
            if at_work current \<noteq> w \<or> at_wake_reason current \<noteq> reason
            then (Inl (NotDurable ''attempt identity conflicts with durable work identity''), st)
            else (case at_state current of
              NotSubmitted \<Rightarrow>
                if durable_submission_artifacts ?st ?k \<noteq> [] then (Inl (Blocked current), st)
                else reread (update_attempt ?k {NotSubmitted} (\<lambda>a. a\<lparr>at_state := Admitted,
                    at_updated_at := moment, at_failure_kind := None, at_failure_detail := None\<rparr>) ?st)
                  ?k Inr
            | Admitted \<Rightarrow> (Inr current, ?st)
            | Dispatching \<Rightarrow>
                reread (update_attempt ?k {Dispatching} (\<lambda>a. a\<lparr>at_state := InDoubt, at_updated_at := moment,
                    at_failure_kind := Some ''restart_after_dispatch_boundary'',
                    at_failure_detail := Some ''provider dispatch boundary was crossed without a durable response''\<rparr>) ?st)
                  ?k (\<lambda>a. Inl (ExecutionInDoubt a))
            | InDoubt \<Rightarrow> (Inl (ExecutionInDoubt current), ?st)
            | ResponseReturned \<Rightarrow> (Inl (ResponsePending current), ?st)
            | Metered \<Rightarrow> (Inl (Blocked current), ?st))))"
  proof (cases "get_attempt ?st ?k")
    case (Inr ao)
    show ?thesis
    proof (cases ao)
      case (Some a)
      then have row: "attempt_row ?st ?k = Some a" using Inr by (simp add: get_attempt_Some)
      show ?thesis
      proof (cases "at_state a")
        case NotSubmitted
        with old [OF row] have "attempt_row st ?k = Some a" "?st = st" by simp_all
        then show ?thesis using Inr Some NotSubmitted
          by (auto intro: effect.same intro!: effect.update)
      next
        case Dispatching
        with old [OF row] have "attempt_row st ?k = Some a" "?st = st" by simp_all
        then show ?thesis using Inr Some Dispatching
          by (auto intro: effect.same intro!: effect.update)
      qed (use Inr Some ins in \<open>auto intro: effect.same\<close>)
    qed (use Inr in \<open>auto intro: effect.same\<close>)
  qed (auto intro: effect.same)
qed

lemma dispatch_effect: "effect cd st (snd (mark_dispatching cd k d fp v st))"
proof (cases "blank fp")
  case False
  show ?thesis
    unfolding mark_dispatching_def if_not_P [OF False] Let_def
  proof (rule at_moment_effect, rule with_attempt_effect)
    fix t a assume a: "attempt_row st k = Some a" "readable a"
    have "effect cd st (dispatched cd a (py_strip fp) v t st)"
      if "at_state a = Admitted" "durable_submission_artifacts st k = []"
      using a(1) that False by (intro effect.dispatch) auto
    then show "effect cd st (snd (if at_state a \<noteq> Admitted then
               (Inl (if at_state a \<in> {Dispatching, InDoubt} then ExecutionInDoubt a
                     else if at_state a = ResponseReturned then ResponsePending a
                     else Blocked a), st)
             else if durable_submission_artifacts st k \<noteq> [] then (Inl (Blocked a), st)
             else if (case v of None \<Rightarrow> False | Some v \<Rightarrow> \<not> fits_int64 (lv_public_exponent v))
             then (Inl Overflow, st)
             else reread
               ((update_attempt k {Admitted} (\<lambda>a. a\<lparr>at_state := Dispatching, at_updated_at := t\<rparr>) st)
                 \<lparr>as_bindings := as_bindings st @ [\<lparr>rb_scope = bound_scope cd a (py_strip fp), rb_bound_at = t\<rparr>],
                  as_verifiers := as_verifiers st @ (case v of None \<Rightarrow> [] | Some v \<Rightarrow>
                    [\<lparr>vr_scope = bound_scope cd a (py_strip fp), vr_verifier = v, vr_bound_at = t, vr_consumed_at = None\<rparr>])\<rparr>)
               k Inr))"
      using attempt_row_id [OF a(1)] by (auto simp: dispatched_def intro: effect.same)
  qed
qed (simp add: mark_dispatching_def effect.same)

lemma adopt_legacy_effect: "effect cd st (snd (adopt_legacy_in_doubt cd w reason revision d st))"
  unfolding adopt_legacy_in_doubt_def Let_def
  by (rule at_moment_effect) (auto intro: effect.same intro!: effect.insert split: sum.split option.split)

lemma mark_failure_effect: "effect cd st (snd (mark_failure k d definitely kind text st))"
  unfolding mark_failure_def Let_def route_post_binding_failure_to_in_doubt_def
  by (rule at_moment_effect, rule with_attempt_effect) (auto intro!: effect.update)

lemma reconcile_not_submitted_effect: "effect cd st (snd (reconcile_not_submitted k d evidence st))"
  unfolding reconcile_not_submitted_def Let_def route_post_binding_failure_to_in_doubt_def
  by (auto intro!: at_moment_effect with_attempt_effect effect.update intro: effect.same)

lemma record_response_effect: "effect cd st (snd (record_response cd k d directive st))"
  unfolding record_response_def Let_def
  by (auto intro!: at_moment_effect with_attempt_effect effect.update intro: effect.same
      split: sum.split prod.split)

lemma attach_effect:
  assumes "attempt_inv cd st" and "late_response cd payload = Inr response"
  shows "effect cd st (snd (attach_transaction cd k moment response payload text st))"
proof -
  obtain res st' where run: "attach_transaction cd k moment response payload text st = (res, st')"
    by fastforce
  then show ?thesis using assms(1)
  proof (cases rule: attach_transaction_cases)
    case (adopt a vr)
    from adopt_proven_cases [OF adopt(5) assms(1) adopt(1,3)] show ?thesis
      using run adopt assms(2) by (auto intro: effect.same effect.adopt)
  qed (use run in \<open>auto intro: effect.same\<close>)
qed

lemma stage_transaction_effect:
  assumes "late_response cd (sg_directive_payload staged) = Inr (sg_response staged)"
  shows "effect cd st (snd (stage_transaction cd moment (sg_response staged) staged st))"
proof -
  obtain res st' where run: "stage_transaction cd moment (sg_response staged) staged st = (res, st')"
    by fastforce
  then show ?thesis
  proof (cases rule: stage_transaction_cases)
    case (staged a r row)
    with run assms show ?thesis by (auto intro: effect.stage)
  qed (use run in \<open>auto intro: effect.same\<close>)
qed

lemma stage_effect:
  "effect cd st (snd (stage_exact_response cd k d provider model request_id fingerprint payload pf evidence st))"
  unfolding stage_exact_response_def
proof (rule at_moment_effect)
  fix t
  show "effect cd st (snd (if blank provider \<or> blank model \<or> blank request_id \<or> blank fingerprint \<or> blank payload \<or> blank evidence
       then (Inl (InvalidArgument ''exact provider response fields must be non-blank''), st)
       else case exact_response cd (py_strip provider) (py_strip model) (py_strip request_id)
              (py_strip fingerprint) payload of
         Inl e \<Rightarrow> (Inl e, st)
       | Inr response \<Rightarrow> stage_transaction cd t response
           \<lparr>sg_attempt_id = k, sg_response = response, sg_directive_payload = payload,
            sg_authenticity_proof = (case pf of None \<Rightarrow> None
               | Some p \<Rightarrow> if blank p then None else Some (py_strip p)),
            sg_staged_at = t, sg_evidence = py_strip evidence\<rparr> st))"
  proof (cases "exact_response cd (py_strip provider) (py_strip model) (py_strip request_id)
      (py_strip fingerprint) payload")
    case (Inr response)
    let ?sg = "\<lparr>sg_attempt_id = k, sg_response = response, sg_directive_payload = payload,
      sg_authenticity_proof = (case pf of None \<Rightarrow> None | Some p \<Rightarrow> if blank p then None else Some (py_strip p)),
      sg_staged_at = t, sg_evidence = py_strip evidence\<rparr>"
    have "effect cd st (snd (stage_transaction cd t response ?sg st))"
      using stage_transaction_effect [of cd ?sg st t] Inr by (simp add: exact_response_Inr_iff)
    with Inr show ?thesis by (simp add: effect.same)
  qed (simp add: effect.same)
qed

text \<open>An effect neither removes an attempt nor touches what metering writes.\<close>

definition same_meter :: "attempt \<Rightarrow> attempt \<Rightarrow> bool" where
  "same_meter a b \<longleftrightarrow> at_meter_record_id b = at_meter_record_id a \<and> at_work b = at_work a
     \<and> (at_state b = Metered \<longleftrightarrow> at_state a = Metered)"

lemma effect_attempt:
  assumes "effect cd st st'" and "attempt_row st k = Some a"
  shows "\<exists>b. attempt_row st' k = Some b \<and> same_meter a b"
  using assms(1)
proof cases
  case (insert b)
  show ?thesis
    using insert_attempt_row [of b st k] assms(2) insert(1) by (auto simp: same_meter_def)
next
  case (update S f j)
  have "at_state (f a) = Metered \<longleftrightarrow> at_state a = Metered" if "at_state a \<in> S"
    using that update(2,7) by auto
  then show ?thesis
    using assms(2) update(4,6) by (auto simp: update(1) update_attempt_row [OF update(3)] same_meter_def)
next
  case (dispatch j b fp v moment)
  with assms(2) show ?thesis by (auto simp: dispatched_attempt same_meter_def)
next
  case (adopt j b vr response payload moment)
  with assms(2) show ?thesis by (auto simp: adopted_lookups same_meter_def)
next
  case (stage j b r response staged moment evidence)
  have row: "attempt_row (insert_response staged st) j = Some b" using stage(2) by simp
  show ?thesis
  proof (cases "k = j")
    case True
    with stage(2) assms(2) have "b = a" by simp
    with close_round_row(1) [OF row stage(3)] True show ?thesis
      unfolding stage(1) by (fastforce simp: closed_row_def same_meter_def)
  next
    case False
    with close_round_row(2) [OF row stage(3) False] assms(2) stage(1) show ?thesis
      by (simp add: same_meter_def)
  qed
qed (use assms(2) in \<open>simp add: same_meter_def\<close>)

lemma effect_new_attempt:
  assumes "effect cd st st'" and "attempt_row st k = None" and "attempt_row st' k = Some b"
  shows "at_meter_record_id b = None \<and> at_state b \<noteq> Metered"
  using assms(1)
proof cases
  case (insert a)
  with insert_attempt_row [of a st k] assms(2,3) show ?thesis by (auto split: if_splits)
next
  case (stage j c r response staged moment evidence)
  have "attempt_row (insert_response staged st) j = Some c" using stage(2) by simp
  from close_round_row(2) [OF this stage(3), of k] stage assms(2,3) show ?thesis by (cases "k = j") auto
qed (use assms in \<open>auto simp: update_attempt_row dispatched_attempt adopted_lookups\<close>)

end
