(* ===== verification/Chains.thy ===== *)
theory Chains
  imports Prelude
begin

text \<open>
  Three interfaces that several stores implement. A version chain numbers the versions of
  each key \<open>1, 2, \<dots>, n\<close> and every step either leaves a key alone or appends the next
  number. A clocked log only ever appends rows stamped later than its clock, so a read cut
  at a past clock value keeps answering what it answered then. A refined machine shows, of each key at a time, only the
  changes of a small abstract machine.
\<close>

locale version_chain =
  fixes versions :: "'s \<Rightarrow> 'k \<Rightarrow> int list"
    and inv :: "'s \<Rightarrow> bool"
    and step :: "'s \<Rightarrow> 's \<Rightarrow> bool"
  assumes inv_contiguous: "inv s \<Longrightarrow> contiguous (versions s k)"
    and inv_step: "inv s \<Longrightarrow> step s t \<Longrightarrow> inv t"
    and step_versions: "inv s \<Longrightarrow> step s t \<Longrightarrow>
      versions t k = versions s k \<or> versions t k = versions s k @ [next_version (versions s k)]"
begin

lemma steps_inv: "step\<^sup>*\<^sup>* s t \<Longrightarrow> inv s \<Longrightarrow> inv t"
  by (induction rule: rtranclp_induct) (auto intro: inv_step)

lemma steps_append:
  assumes "step\<^sup>*\<^sup>* s t" and "inv s"
  shows "\<exists>new. versions t k = versions s k @ new"
  using assms
proof (induction rule: rtranclp_induct)
  case (step t u)
  then obtain new where "versions t k = versions s k @ new" by blast
  moreover have "inv t" using step steps_inv by blast
  ultimately show ?case using step_versions [OF _ step.hyps(2), of k] by auto
qed simp

lemma steps_newest:
  assumes "step\<^sup>*\<^sup>* s t" and "inv s"
  shows "versions t k = map int [1 ..< Suc (length (versions t k))]
    \<and> length (versions s k) \<le> length (versions t k)"
proof -
  have "contiguous (versions t k)" using steps_inv [OF assms] by (rule inv_contiguous)
  moreover obtain new where "versions t k = versions s k @ new" using steps_append [OF assms] by blast
  ultimately show ?thesis unfolding contiguous_def by (metis length_append le_add1)
qed

lemma no_gap:
  assumes "inv s" and "v \<in> set (versions s k)" and "1 \<le> u" "u \<le> v"
  shows "u \<in> set (versions s k)"
  using assms contiguous_set [OF inv_contiguous [OF assms(1), of k]] by auto

end

locale clocked_log =
  fixes log_rows :: "'s \<Rightarrow> 'r list"
    and stamp :: "'r \<Rightarrow> int"
    and clock :: "'s \<Rightarrow> int"
    and inv :: "'s \<Rightarrow> bool"
    and step :: "'s \<Rightarrow> 's \<Rightarrow> bool"
  assumes inv_step: "inv s \<Longrightarrow> step s t \<Longrightarrow> inv t"
    and step_log: "inv s \<Longrightarrow> step s t \<Longrightarrow>
      \<exists>new. log_rows t = log_rows s @ new \<and> (\<forall>r \<in> set new. clock s < stamp r)"
    and step_clock: "inv s \<Longrightarrow> step s t \<Longrightarrow> clock s \<le> clock t"
    and inv_stamps: "inv s \<Longrightarrow> r \<in> set (log_rows s) \<Longrightarrow> stamp r \<le> clock s"
begin

lemma steps_inv: "step\<^sup>*\<^sup>* s t \<Longrightarrow> inv s \<Longrightarrow> inv t"
  by (induction rule: rtranclp_induct) (auto intro: inv_step)

lemma steps_log:
  assumes "step\<^sup>*\<^sup>* s t" and "inv s"
  shows "clock s \<le> clock t
    \<and> (\<exists>new. log_rows t = log_rows s @ new \<and> (\<forall>r \<in> set new. clock s < stamp r))"
  using assms
proof (induction rule: rtranclp_induct)
  case (step t u)
  then obtain new where new: "clock s \<le> clock t" "log_rows t = log_rows s @ new"
    "\<forall>r \<in> set new. clock s < stamp r" by blast
  have t: "inv t" using step steps_inv by blast
  obtain new' where "log_rows u = log_rows t @ new'" "\<forall>r \<in> set new'. clock t < stamp r"
    using step_log [OF t step.hyps(2)] by blast
  with new step_clock [OF t step.hyps(2)] show ?case by (auto intro: exI [of _ "new @ new'"])
qed simp

lemma cut_stable:
  assumes "step\<^sup>*\<^sup>* s t" and "inv s" and "w \<le> clock s"
    and "\<And>r. P r \<Longrightarrow> stamp r \<le> w"
  shows "filter P (log_rows t) = filter P (log_rows s)"
proof -
  obtain new where "log_rows t = log_rows s @ new" "\<forall>r \<in> set new. clock s < stamp r"
    using steps_log [OF assms(1,2)] by blast
  moreover then have "filter P new = []" using assms(3,4) by (fastforce simp: filter_empty_conv)
  ultimately show ?thesis by simp
qed

lemma after_cut:
  assumes "step\<^sup>*\<^sup>* s t" and "inv s"
  shows "log_rows t = log_rows s @ filter (\<lambda>r. clock s < stamp r) (log_rows t)"
proof -
  obtain new where new: "log_rows t = log_rows s @ new" "\<forall>r \<in> set new. clock s < stamp r"
    using steps_log [OF assms] by blast
  have "filter (\<lambda>r. clock s < stamp r) (log_rows s) = []"
    using inv_stamps [OF assms(2)] by (fastforce simp: filter_empty_conv)
  moreover have "filter (\<lambda>r. clock s < stamp r) new = new" using new(2) by simp
  ultimately show ?thesis using new(1) by simp
qed

end

locale refined_machine =
  fixes key_view :: "'s \<Rightarrow> 'k \<Rightarrow> 'v"
    and change :: "'v \<Rightarrow> 'v \<Rightarrow> bool"
    and inv :: "'s \<Rightarrow> bool"
    and step :: "'s \<Rightarrow> 's \<Rightarrow> bool"
  assumes inv_step: "inv s \<Longrightarrow> step s t \<Longrightarrow> inv t"
    and step_change: "inv s \<Longrightarrow> step s t \<Longrightarrow> change (key_view s k) (key_view t k)"
begin

lemma steps_inv: "step\<^sup>*\<^sup>* s t \<Longrightarrow> inv s \<Longrightarrow> inv t"
  by (induction rule: rtranclp_induct) (auto intro: inv_step)

text \<open>What every change of the machine keeps holds for ever.\<close>

lemma steps_keep:
  assumes "step\<^sup>*\<^sup>* s t" and "inv s" and "P (key_view s k)"
    and "\<And>v w. P v \<Longrightarrow> change v w \<Longrightarrow> P w"
  shows "P (key_view t k)"
  using assms(1)
proof (induction rule: rtranclp_induct)
  case (step t u)
  have "inv t" using steps_inv [OF step.hyps(1) assms(2)] .
  from assms(4) [OF step.IH step_change [OF this step.hyps(2)]] show ?case .
qed (rule assms(3))

end

end
