(* ===== verification/AttemptSafety.thy ===== *)
theory AttemptSafety
  imports AttemptSteps Chains
begin

text \<open>
  The runtime database over time: every interleaving of the operations of the attempts
  ledger and of metering, the invariant of the reachable databases, and the safety of the
  provider boundary: one request per attempt, one proven return, one meter record.
\<close>

section \<open>Steps\<close>

definition on_attempts :: "(attempt_store \<Rightarrow> 'r attempt_result) \<Rightarrow> runtime_db \<Rightarrow> runtime_db" where
  "on_attempts f db = db\<lparr>rd_attempts := snd (f (rd_attempts db))\<rparr>"

text \<open>
  \<open>attach_transaction\<close> is a step of its own: between it and the staging that follows, other
  processes run, or this one dies.
\<close>

inductive runtime_step :: "codec \<Rightarrow> runtime_db \<Rightarrow> runtime_db \<Rightarrow> bool" for cd where
  step_admit: "runtime_step cd db (on_attempts (admit cd w reason revision d) db)"
| step_dispatch: "runtime_step cd db (on_attempts (mark_dispatching cd k d fp v) db)"
| step_adopt: "runtime_step cd db (on_attempts (adopt_legacy_in_doubt cd w reason revision d) db)"
| step_failure: "runtime_step cd db (on_attempts (mark_failure k d definitely kind text) db)"
| step_reconcile: "runtime_step cd db (on_attempts (reconcile_not_submitted k d evidence) db)"
| step_respond: "runtime_step cd db (on_attempts (record_response cd k d directive) db)"
| step_attach: "late_response cd payload = Inr response \<Longrightarrow>
    runtime_step cd db (on_attempts (attach_transaction cd k t response payload proof_text) db)"
| step_stage: "runtime_step cd db (on_attempts
    (stage_exact_response cd k d provider model request_id fingerprint payload pf evidence) db)"
| step_meter: "runtime_step cd db (snd (record_model_call cd fresh_id subject revision d cls reason
    round_index usage provenance wake_id session_id attempt_id db))"

definition runtime_steps :: "codec \<Rightarrow> runtime_db \<Rightarrow> runtime_db \<Rightarrow> bool" where
  "runtime_steps cd = (runtime_step cd)\<^sup>*\<^sup>*"

definition empty_runtime :: runtime_db where
  "empty_runtime = \<lparr>rd_attempts = empty_attempts None, rd_metering = []\<rparr>"

section \<open>Metering\<close>

definition meter_inv :: "runtime_db \<Rightarrow> bool" where
  "meter_inv db \<longleftrightarrow>
     (\<forall>k a. attempt_row (rd_attempts db) k = Some a \<longrightarrow>
        (at_state a = Metered \<longleftrightarrow> at_meter_record_id a \<noteq> None)
        \<and> (\<forall>i. at_meter_record_id a = Some i \<longrightarrow>
             (\<exists>r \<in> set (rd_metering db). mr_record_id r = i \<and> mr_background_attempt_id r = Some k)))
     \<and> (\<forall>r \<in> set (rd_metering db). \<forall>k. mr_background_attempt_id r = Some k \<longrightarrow>
          attempt_closed (rd_attempts db) k (mr_record_id r))
     \<and> sorted_wrt (\<lambda>q r. \<not> metering_clash r q) (rd_metering db)"

definition runtime_inv :: "codec \<Rightarrow> runtime_db \<Rightarrow> bool" where
  "runtime_inv cd db \<longleftrightarrow> attempt_inv cd (rd_attempts db) \<and> meter_inv db"

lemma runtime_inv_empty: "runtime_inv cd empty_runtime"
  using attempt_inv_empty [of cd None]
  by (simp add: runtime_inv_def empty_runtime_def meter_inv_def empty_attempts_def attempt_row_def)

lemma attempt_closed_iff: "attempt_closed st k i \<longleftrightarrow>
    (\<exists>a. attempt_row st k = Some a \<and> at_state a = Metered \<and> at_meter_record_id a = Some i)"
  by (auto simp: attempt_closed_def split: option.splits)

lemma effect_meter_inv:
  assumes "effect cd (rd_attempts db) st" and "meter_inv db"
  shows "meter_inv (db\<lparr>rd_attempts := st\<rparr>)"
proof -
  have "(at_state b = Metered \<longleftrightarrow> at_meter_record_id b \<noteq> None)
      \<and> (\<forall>i. at_meter_record_id b = Some i \<longrightarrow>
          (\<exists>r \<in> set (rd_metering db). mr_record_id r = i \<and> mr_background_attempt_id r = Some k))"
    if b: "attempt_row st k = Some b" for k b
  proof (cases "attempt_row (rd_attempts db) k")
    case None
    with effect_new_attempt [OF assms(1) None b] show ?thesis by simp
  next
    case (Some a)
    with effect_attempt [OF assms(1) Some] b have "same_meter a b" by simp
    then show ?thesis using assms(2) Some unfolding meter_inv_def same_meter_def by metis
  qed
  moreover have "attempt_closed st k i" if "attempt_closed (rd_attempts db) k i" for k i
    using that effect_attempt [OF assms(1)] unfolding attempt_closed_iff same_meter_def by metis
  ultimately show ?thesis using assms(2) by (simp add: meter_inv_def)
qed

lemma close_attempt_other [simp]:
  "binding_row (close_attempt k i t st) j = binding_row st j"
  "return_verifier_row (close_attempt k i t st) j = return_verifier_row st j"
  "receipt_row (close_attempt k i t st) j = receipt_row st j"
  "handoff_row (close_attempt k i t st) j = handoff_row st j"
  "staged_response (close_attempt k i t st) j = staged_response st j"
  by (simp_all add: close_attempt_def binding_row_def return_verifier_row_def receipt_row_def
      handoff_row_def staged_response_def)

lemma close_attempt_row: "attempt_row (close_attempt k i t st) j = map_option
    (\<lambda>a. if at_attempt_id a = k \<and> at_state a \<in> {ResponseReturned, Metered}
         \<and> (at_meter_record_id a = None \<or> at_meter_record_id a = Some i)
       then a\<lparr>at_state := Metered, at_meter_record_id := Some i, at_updated_at := t\<rparr> else a) (attempt_row st j)"
  by (simp add: attempt_row_def close_attempt_def find_row_update)

lemma close_attempt_inv:
  assumes "attempt_inv cd st"
  shows "attempt_inv cd (close_attempt k i t st)"
proof (rule attempt_invI [OF assms])
  let ?st = "close_attempt k i t st"
  show "attempt_row ?st j = attempt_row st j \<and> binding_row ?st j = binding_row st j
      \<and> return_verifier_row ?st j = return_verifier_row st j \<and> receipt_row ?st j = receipt_row st j
      \<and> handoff_row ?st j = handoff_row st j \<and> staged_response ?st j = staged_response st j" if "j \<noteq> k" for j
    using that by (cases "attempt_row st j") (auto simp: close_attempt_row dest: attempt_row_id)
  show "key_inv cd ?st k"
  proof (cases "attempt_row ?st k = attempt_row st k")
    case True
    then have "key_inv cd ?st k = key_inv cd st k" by (intro key_inv_cong) simp_all
    with assms show ?thesis by (simp add: attempt_inv_def)
  next
    case False
    then obtain a where a: "attempt_row st k = Some a" "at_state a \<in> {ResponseReturned, Metered}"
      "attempt_row ?st k = Some (a\<lparr>at_state := Metered, at_meter_record_id := Some i, at_updated_at := t\<rparr>)"
      by (cases "attempt_row st k") (auto simp: close_attempt_row split: if_splits)
    have old: "identity_inv cd st k" "binding_inv cd st k" "receipt_inv cd st k" "staged_inv cd st k"
      using attempt_invD [OF assms, of k] by simp_all
    have scope: "bound_scope cd (a\<lparr>at_state := s, at_meter_record_id := m\<rparr>) x = bound_scope cd a x" for s m x
      by (simp add: bound_scope_def scope_for_def)
    have "identity_inv cd ?st k"
      using old(1) unfolding identity_inv_def a(1,3) option.case by simp
    moreover have "binding_inv cd ?st k"
      using old(2) unfolding binding_inv_def a(1,3) close_attempt_other by (simp add: scope)
    moreover have "receipt_inv cd ?st k"
      using old(3) unfolding receipt_inv_def close_attempt_other .
    moreover have "staged_inv cd ?st k"
      using old(4) unfolding staged_inv_def a(1,3) close_attempt_other by (fastforce simp: readable_def)
    ultimately show ?thesis by (simp add: key_inv_def)
  qed
qed

lemma close_attempt_view: "view_step (view st j) (view (close_attempt k i t st) j)"
  by (cases "attempt_row st j") (auto simp: view_def view_step_def close_attempt_row)

lemma meter_transaction_cases:
  assumes "meter_transaction r db = (res, db')"
  obtains (refused) e where "res = Inl e" "db' = db"
  | (recorded) q where "res = Inr q" "same_call r q"
      "find_row mr_record_id (mr_record_id r) (insert_metering r (rd_metering db)) = Some q"
      "mr_background_attempt_id r = None"
      "db' = db\<lparr>rd_metering := insert_metering r (rd_metering db)\<rparr>"
  | (closed) q k where "res = Inr q" "same_call r q"
      "find_row mr_record_id (mr_record_id r) (insert_metering r (rd_metering db)) = Some q"
      "mr_background_attempt_id r = Some k"
      "attempt_admits (rd_attempts db) r = None"
      "attempt_closed (close_attempt k (mr_record_id r) (mr_recorded_at r) (rd_attempts db)) k (mr_record_id r)"
      "db' = \<lparr>rd_attempts = close_attempt k (mr_record_id r) (mr_recorded_at r) (rd_attempts db),
        rd_metering = insert_metering r (rd_metering db)\<rparr>"
proof (cases "attempt_admits (rd_attempts db) r")
  case (Some e)
  with assms have "res = Inl e" "db' = db" by (simp_all add: meter_transaction_def)
  then show ?thesis by (rule refused)
next
  case None
  note admits = this
  let ?rows = "insert_metering r (rd_metering db)"
  show ?thesis
  proof (cases "find_row mr_record_id (mr_record_id r) ?rows")
    case None
    with admits assms refused show ?thesis by (auto simp: meter_transaction_def Let_def split: if_splits)
  next
    case (Some q)
    then have id: "mr_record_id q = mr_record_id r" by (rule find_row_key)
    show ?thesis
    proof (cases "mr_background_attempt_id r")
      case None
      with admits Some id assms show ?thesis
        by (auto simp: meter_transaction_def Let_def split: if_splits intro: refused recorded)
    next
      case (Some k)
      with admits \<open>find_row _ _ _ = _\<close> id assms show ?thesis
        by (auto simp: meter_transaction_def Let_def split: if_splits intro: refused closed)
    qed
  qed
qed

lemma same_call_attempt: "same_call r q \<Longrightarrow> mr_background_attempt_id q = mr_background_attempt_id r"
  by (cases r; cases q) (simp add: same_call_def)

lemma insert_metering_cases: "insert_metering r rows = rows \<or>
    insert_metering r rows = rows @ [r] \<and> (\<forall>q \<in> set rows. \<not> metering_clash r q)"
  by (auto simp: insert_metering_def insert_or_ignore_def list_ex_iff)

lemma set_insert_metering: "set rows \<subseteq> set (insert_metering r rows)"
  using insert_metering_cases [of r rows] by auto

lemma sorted_insert_metering:
  "sorted_wrt (\<lambda>q r. \<not> metering_clash r q) rows \<Longrightarrow> sorted_wrt (\<lambda>q r. \<not> metering_clash r q) (insert_metering r rows)"
  using insert_metering_cases [of r rows] by (auto simp: sorted_wrt_append)

lemma meter_transaction_inv:
  assumes run: "meter_transaction r db = (res, db')" and inv: "meter_inv db"
  shows "meter_inv db'"
  using run
proof (cases rule: meter_transaction_cases)
  case refused
  with inv show ?thesis by simp
next
  case (recorded q)
  have "attempt_closed (rd_attempts db) k (mr_record_id p)"
    if "p \<in> set (insert_metering r (rd_metering db))" "mr_background_attempt_id p = Some k" for p k
    using that inv insert_metering_cases [of r "rd_metering db"] recorded(4) by (auto simp: meter_inv_def)
  then show ?thesis
    using inv set_insert_metering [of "rd_metering db" r] sorted_insert_metering [of "rd_metering db" r]
    unfolding recorded(5) meter_inv_def by (simp, blast)
next
  case (closed q k)
  let ?st = "close_attempt k (mr_record_id r) (mr_recorded_at r) (rd_attempts db)"
  let ?rows = "insert_metering r (rd_metering db)"
  have q: "q \<in> set ?rows" "mr_record_id q = mr_record_id r" "mr_background_attempt_id q = Some k"
    using closed(3) same_call_attempt [OF closed(2)] closed(4)
    by (auto simp: find_row_def find_Some_iff)
  have rows: "(at_state b = Metered \<longleftrightarrow> at_meter_record_id b \<noteq> None)
      \<and> (\<forall>i. at_meter_record_id b = Some i \<longrightarrow> (\<exists>p \<in> set ?rows. mr_record_id p = i \<and> mr_background_attempt_id p = Some j))"
    if b: "attempt_row ?st j = Some b" for j b
  proof -
    from b obtain a where a: "attempt_row (rd_attempts db) j = Some a"
      and ab: "b = (if at_attempt_id a = k \<and> at_state a \<in> {ResponseReturned, Metered}
          \<and> (at_meter_record_id a = None \<or> at_meter_record_id a = Some (mr_record_id r))
        then a\<lparr>at_state := Metered, at_meter_record_id := Some (mr_record_id r), at_updated_at := mr_recorded_at r\<rparr>
        else a)"
      unfolding close_attempt_row by blast
    then have "b = a \<or> j = k \<and> at_state b = Metered \<and> at_meter_record_id b = Some (mr_record_id r)"
      using attempt_row_id [OF a] by auto
    then show ?thesis
    proof
      assume "b = a"
      with a inv set_insert_metering [of "rd_metering db" r] show ?thesis unfolding meter_inv_def by blast
    qed (use q in auto)
  qed
  have keep: "attempt_closed ?st j i" if old: "attempt_closed (rd_attempts db) j i" for j i
  proof -
    obtain a where a: "attempt_row (rd_attempts db) j = Some a" "at_state a = Metered" "at_meter_record_id a = Some i"
      using old unfolding attempt_closed_iff by blast
    then show ?thesis unfolding attempt_closed_iff close_attempt_row a(1) by simp
  qed
  have "attempt_closed ?st j (mr_record_id p)"
    if "p \<in> set ?rows" "mr_background_attempt_id p = Some j" for p j
  proof (cases "p \<in> set (rd_metering db)")
    case True
    with inv that keep show ?thesis by (auto simp: meter_inv_def)
  next
    case False
    then have "p = r" using that insert_metering_cases [of r "rd_metering db"] by auto
    with closed(4,6) that show ?thesis by simp
  qed
  with rows inv sorted_insert_metering [of "rd_metering db" r] show ?thesis
    unfolding closed(7) meter_inv_def by simp
qed

section \<open>Reachable databases\<close>

lemma record_model_call_cases:
  assumes "record_model_call cd fresh_id subject revision d cls reason round_index usage provenance
    wake_id session_id attempt_id db = (res, db')"
  obtains (refused) e where "res = Inl e" "db' = db" | (run) r where "meter_transaction r db = (res, db')"
    "mr_background_attempt_id r = attempt_id" "\<exists>t. r = metering_record_of cd fresh_id subject revision t cls
       reason round_index usage provenance wake_id session_id attempt_id"
  using assms unfolding record_model_call_def
  by (auto simp: metering_record_of_def Let_def split: if_splits sum.splits)

lemma on_attempts_effect: "effect cd (rd_attempts db) (snd (f (rd_attempts db))) \<Longrightarrow>
    \<exists>st. effect cd (rd_attempts db) st \<and> on_attempts f db = db\<lparr>rd_attempts := st\<rparr>"
  by (auto simp: on_attempts_def)

lemma runtime_step_cases:
  assumes "runtime_step cd db db'" and "attempt_inv cd (rd_attempts db)"
  shows "(\<exists>st. effect cd (rd_attempts db) st \<and> db' = db\<lparr>rd_attempts := st\<rparr>)
    \<or> (\<exists>r res. meter_transaction r db = (res, db'))"
  using assms(1)
proof cases
  case (step_meter fresh_id subject revision d cls reason round_index usage provenance wake_id session_id attempt_id)
  then obtain res where "record_model_call cd fresh_id subject revision d cls reason round_index usage
      provenance wake_id session_id attempt_id db = (res, db')" by (metis prod.collapse)
  then show ?thesis
  proof (cases rule: record_model_call_cases)
    case refused
    then show ?thesis using effect.same by (intro disjI1 exI [of _ "rd_attempts db"]) auto
  qed blast
next
  case step_admit
  show ?thesis unfolding step_admit(1) by (rule disjI1, rule on_attempts_effect, rule admit_effect)
next
  case step_dispatch
  show ?thesis unfolding step_dispatch(1) by (rule disjI1, rule on_attempts_effect, rule dispatch_effect)
next
  case step_adopt
  show ?thesis unfolding step_adopt(1) by (rule disjI1, rule on_attempts_effect, rule adopt_legacy_effect)
next
  case step_failure
  show ?thesis unfolding step_failure(1) by (rule disjI1, rule on_attempts_effect, rule mark_failure_effect)
next
  case step_reconcile
  show ?thesis unfolding step_reconcile(1) by (rule disjI1, rule on_attempts_effect, rule reconcile_not_submitted_effect)
next
  case step_respond
  show ?thesis unfolding step_respond(1) by (rule disjI1, rule on_attempts_effect, rule record_response_effect)
next
  case step_attach
  show ?thesis unfolding step_attach(1) by (rule disjI1, rule on_attempts_effect, rule attach_effect [OF assms(2) step_attach(2)])
next
  case step_stage
  show ?thesis unfolding step_stage(1) by (rule disjI1, rule on_attempts_effect, rule stage_effect)
qed

lemma meter_transaction_attempts:
  assumes "meter_transaction r db = (res, db')"
  obtains "rd_attempts db' = rd_attempts db"
  | k i t where "rd_attempts db' = close_attempt k i t (rd_attempts db)"
  using assms by (cases rule: meter_transaction_cases) auto

lemma runtime_step_inv:
  assumes "runtime_step cd db db'" and "runtime_inv cd db"
  shows "runtime_inv cd db'" and "view_step (view (rd_attempts db) k) (view (rd_attempts db') k)"
proof -
  have inv: "attempt_inv cd (rd_attempts db)" "meter_inv db" using assms(2) by (simp_all add: runtime_inv_def)
  have "runtime_inv cd db' \<and> view_step (view (rd_attempts db) k) (view (rd_attempts db') k)"
    using assms(1) inv(1)
  proof (rule runtime_step_cases [THEN disjE]; elim exE conjE)
    fix st assume "effect cd (rd_attempts db) st" "db' = db\<lparr>rd_attempts := st\<rparr>"
    then show ?thesis using inv effect_inv effect_view effect_meter_inv by (fastforce simp: runtime_inv_def)
  next
    fix r res assume meter: "meter_transaction r db = (res, db')"
    then have "meter_inv db'" using inv(2) by (rule meter_transaction_inv)
    from meter show ?thesis
      by (cases rule: meter_transaction_attempts)
        (use \<open>meter_inv db'\<close> inv(1) close_attempt_inv close_attempt_view in \<open>auto simp: runtime_inv_def\<close>)
  qed
  then show "runtime_inv cd db'" "view_step (view (rd_attempts db) k) (view (rd_attempts db') k)" by auto
qed

lemma runtime_steps_refl [simp, intro!]: "runtime_steps cd db db"
  by (simp add: runtime_steps_def)

lemma runtime_steps_step: "runtime_steps cd db db' \<Longrightarrow> runtime_step cd db' db'' \<Longrightarrow> runtime_steps cd db db''"
  by (simp add: runtime_steps_def)

lemma runtime_steps_induct [consumes 1, case_names refl step]:
  assumes "runtime_steps cd db db'" and "P db"
    and "\<And>x y. runtime_steps cd db x \<Longrightarrow> runtime_step cd x y \<Longrightarrow> P x \<Longrightarrow> P y"
  shows "P db'"
  using assms(1) unfolding runtime_steps_def
  by (induction rule: rtranclp_induct) (use assms(2,3) in \<open>auto simp: runtime_steps_def\<close>)

interpretation attempts: refined_machine "\<lambda>db. view (rd_attempts db)" view_step "runtime_inv cd" "runtime_step cd" for cd
  by unfold_locales (blast intro: runtime_step_inv)+

lemma runtime_steps_inv: "runtime_steps cd db db' \<Longrightarrow> runtime_inv cd db \<Longrightarrow> runtime_inv cd db'"
  unfolding runtime_steps_def by (rule attempts.steps_inv)

lemma reachable_inv: "runtime_steps cd empty_runtime db \<Longrightarrow> runtime_inv cd db"
  using runtime_steps_inv runtime_inv_empty by blast

text \<open>What stays true of one attempt once it is true.\<close>

definition settled :: "attempt_view \<Rightarrow> attempt_view \<Rightarrow> bool" where
  "settled v w \<longleftrightarrow> av_rank v \<le> av_rank w
     \<and> (2 \<le> av_rank v \<longrightarrow> av_binding w = av_binding v)
     \<and> (av_binding v \<noteq> None \<longrightarrow> av_binding w = av_binding v)
     \<and> (av_receipt v \<noteq> None \<longrightarrow> av_receipt w = av_receipt v \<and> av_handoff w = av_handoff v)
     \<and> (av_staged v \<noteq> None \<longrightarrow> av_staged w = av_staged v)"

lemma settled_step: "settled u v \<Longrightarrow> view_step v w \<Longrightarrow> settled u w"
  unfolding settled_def view_step_def by (elim conjE) (intro conjI impI; auto)

lemma runtime_steps_settled:
  assumes "runtime_steps cd db db'" and "runtime_inv cd db"
  shows "settled (view (rd_attempts db) k) (view (rd_attempts db') k)"
proof (rule attempts.steps_keep [where P = "settled (view (rd_attempts db) k)", OF _ assms(2) _ settled_step])
  show "(runtime_step cd)\<^sup>*\<^sup>* db db'" using assms(1) by (simp add: runtime_steps_def)
  show "settled (view (rd_attempts db) k) (view (rd_attempts db) k)" by (simp add: settled_def)
qed

end
