(* ===== verification/AttemptGuarantees.thy ===== *)
theory AttemptGuarantees
  imports AttemptSafety
begin

text \<open>
  What the attempts ledger guarantees: one dispatch per attempt, no artifact before it, a
  verified external proof behind every receipt, recovery of every staged response, adoption
  of every verified return, one meter record per attempt.
\<close>

section \<open>The provider boundary is crossed once\<close>

lemma mark_dispatching_Inr:
  assumes "mark_dispatching cd k d fp v st = (Inr a, st')"
  obtains b t where "attempt_row st k = Some b" "at_state b = Admitted" "durable_submission_artifacts st k = []"
    "\<not> blank fp" "st' = dispatched cd b (py_strip fp) v t st"
proof -
  have fp: "\<not> blank fp" using assms by (auto simp: mark_dispatching_def)
  note run = assms [unfolded mark_dispatching_def if_not_P [OF fp]]
  from run show ?thesis
  proof (cases rule: at_moment_cases)
    case (ok t)
    note outer = ok(2)
    from outer show ?thesis
    proof (cases rule: with_attempt_cases)
      case (found b)
      have id: "at_attempt_id b = k" using found(1) by (rule attempt_row_id)
      have st: "at_state b = Admitted" "durable_submission_artifacts st k = []"
        using found(3) by (auto simp: Let_def split: if_splits)
      have "st' = snd (Inr a :: attempt_error + attempt, st')" by simp
      also have "\<dots> = dispatched cd b (py_strip fp) v t st"
        using found(3) st unfolding Let_def
        by (auto simp: dispatched_def id split: if_splits dest!: arg_cong [where f = snd])
      finally show ?thesis using that found(1) st fp by blast
    qed simp
  qed simp
qed

lemma crossed_never_dispatches:
  assumes "attempt_row st k = Some a" and "2 \<le> rank (at_state a)"
  shows "\<exists>e. mark_dispatching cd k d fp v st = (Inl e, st)"
proof -
  have "at_state a \<noteq> Admitted" using assms(2) by auto
  then show ?thesis using assms(1)
    by (auto simp: mark_dispatching_def at_moment_def with_attempt_def get_attempt_def from_row_def
        split: sum.split)
qed

lemma crossed_never_admitted:
  assumes "attempt_row st (attempt_id_for cd w) = Some a" and "2 \<le> rank (at_state a)"
  shows "\<exists>e. fst (admit cd w reason revision d st) = Inl e"
proof -
  let ?k = "attempt_id_for cd w"
  have same: "insert_attempt (new_attempt ?k w reason revision Admitted t) st = st" for t
    using assms(1) by (intro insert_attempt_ignored) simp
  have reread: "\<exists>e. fst (reread st' ?k (\<lambda>a. Inl (ExecutionInDoubt a))) = Inl e" for st'
    by (auto simp: reread_def with_attempt_def split: sum.split option.split)
  have "at_state a \<noteq> Admitted" "at_state a \<noteq> NotSubmitted" using assms(2) by auto
  then show ?thesis
    using assms(1) reread
    by (cases "at_state a") (auto simp: admit_def at_moment_def same Let_def get_attempt_def from_row_def
        split: sum.split)
qed

lemma rank_view: "av_rank (view st k) = (case attempt_row st k of None \<Rightarrow> 0 | Some a \<Rightarrow> rank (at_state a))"
  by (simp add: view_def)

lemma dispatched_once:
  assumes inv: "runtime_inv cd db"
    and run: "mark_dispatching cd k d fp v (rd_attempts db) = (Inr a, st)"
    and later: "runtime_steps cd (db\<lparr>rd_attempts := st\<rparr>) db'"
  shows "binding_row (rd_attempts db') k = binding_row st k" and "binding_row st k \<noteq> None"
    and "\<exists>b. attempt_row (rd_attempts db') k = Some b \<and> 2 \<le> rank (at_state b)"
proof -
  obtain b t where b: "attempt_row (rd_attempts db) k = Some b" "at_state b = Admitted"
    "durable_submission_artifacts (rd_attempts db) k = []" "st = dispatched cd b (py_strip fp) v t (rd_attempts db)"
    using run by (elim mark_dispatching_Inr) blast
  have id: "at_attempt_id b = k" using b(1) by (rule attempt_row_id)
  have none: "binding_row (rd_attempts db) k = None" using b(3) by (simp add: artifacts_Nil_iff)
  have now: "av_rank (view st k) = 2" using b id by (simp add: rank_view dispatched_attempt)
  show bound: "binding_row st k \<noteq> None" using none id b(4) by simp
  have step: "runtime_step cd db (db\<lparr>rd_attempts := st\<rparr>)"
    using step_dispatch [of cd db k d fp v] run by (simp add: on_attempts_def)
  have "runtime_inv cd (db\<lparr>rd_attempts := st\<rparr>)" using runtime_step_inv(1) [OF step inv] .
  then have "settled (view st k) (view (rd_attempts db') k)"
    using runtime_steps_settled [OF later, of k] by simp
  then have "av_binding (view (rd_attempts db') k) = av_binding (view st k)"
    "2 \<le> av_rank (view (rd_attempts db') k)" using now by (simp_all add: settled_def)
  then show "binding_row (rd_attempts db') k = binding_row st k"
    "\<exists>b. attempt_row (rd_attempts db') k = Some b \<and> 2 \<le> rank (at_state b)"
    by (auto simp: view_def split: option.splits)
qed

section \<open>Before the boundary there is nothing\<close>

lemma effect_capabilities: "effect cd st st' \<Longrightarrow> as_capabilities st' = as_capabilities st"
  by (cases rule: effect.cases)
    (auto simp: insert_attempt_def dispatched_def adopted_def Let_def close_round_def insert_response_def
      update_attempt_def)

lemma runtime_step_capabilities:
  assumes "runtime_step cd db db'" and "attempt_inv cd (rd_attempts db)"
  shows "as_capabilities (rd_attempts db') = as_capabilities (rd_attempts db)"
  using runtime_step_cases [OF assms]
proof (elim disjE exE conjE)
  fix r res assume "meter_transaction r db = (res, db')"
  then show ?thesis by (cases rule: meter_transaction_attempts) (auto simp: close_attempt_def)
qed (auto dest: effect_capabilities)

lemma reachable_capabilities:
  assumes "runtime_steps cd empty_runtime db"
  shows "as_capabilities (rd_attempts db) = None"
  using assms
proof (induction rule: runtime_steps_induct)
  case refl
  show ?case by (simp add: empty_runtime_def empty_attempts_def)
next
  case (step x y)
  then have "attempt_inv cd (rd_attempts x)" using reachable_inv by (simp add: runtime_inv_def)
  with step show ?case using runtime_step_capabilities by metis
qed

lemma unsent_has_no_artifacts:
  assumes "runtime_steps cd empty_runtime db" and "attempt_row (rd_attempts db) k = Some a"
    and "at_state a \<in> {Admitted, NotSubmitted}"
  shows "durable_submission_artifacts (rd_attempts db) k = []"
    and "handoff_row (rd_attempts db) k = None" and "staged_response (rd_attempts db) k = None"
proof -
  have inv: "attempt_inv cd (rd_attempts db)" using reachable_inv [OF assms(1)] by (simp add: runtime_inv_def)
  note parts = attempt_invD [OF inv, of k]
  have b: "binding_row (rd_attempts db) k = None" using unsent_unbound [OF inv assms(2,3)] .
  then have v: "return_verifier_row (rd_attempts db) k = None"
    using parts by (cases "return_verifier_row (rd_attempts db) k") (auto simp: binding_inv_def)
  then have r: "receipt_row (rd_attempts db) k = None"
    using parts by (cases "receipt_row (rd_attempts db) k") (auto simp: receipt_inv_def)
  then show "handoff_row (rd_attempts db) k = None" using parts by (simp add: receipt_inv_def)
  show "staged_response (rd_attempts db) k = None"
    using parts r by (cases "staged_response (rd_attempts db) k") (auto simp: staged_inv_def)
  show "durable_submission_artifacts (rd_attempts db) k = []"
    using b v r reachable_capabilities [OF assms(1)] by (simp add: artifacts_Nil_iff)
qed

text \<open>The attempts table has one row per attempt, so a scan sees what lookups find.\<close>

definition distinct_attempts :: "attempt_store \<Rightarrow> bool" where
  "distinct_attempts st \<longleftrightarrow> distinct (map at_attempt_id (as_attempts st))"

lemma update_rows_ids:
  assumes "\<And>a. key (f a) = key a"
  shows "map key (update_rows p f rows) = map key rows"
  using assms by (simp add: update_rows_def)

lemma distinct_update_attempt:
  assumes "\<And>a. at_attempt_id (f a) = at_attempt_id a"
  shows "distinct_attempts (update_attempt k S f st) = distinct_attempts st"
  using assms by (simp add: distinct_attempts_def update_attempt_def update_rows_ids)

lemma distinct_close_attempt: "distinct_attempts (close_attempt k i t st) = distinct_attempts st"
  by (simp add: distinct_attempts_def close_attempt_def update_rows_ids)

lemma distinct_insert_attempt: "distinct_attempts st \<Longrightarrow> distinct_attempts (insert_attempt a st)"
  by (auto simp: distinct_attempts_def insert_attempt_def insert_or_ignore_def list_ex_iff)

lemma effect_distinct:
  assumes "effect cd st st'" and "distinct_attempts st"
  shows "distinct_attempts st'"
  using assms(1)
proof cases
  case (dispatch k a fp v moment)
  from assms(2) show ?thesis
    unfolding dispatch(1) dispatched_def
    using distinct_update_attempt [of "\<lambda>a. a\<lparr>at_state := Dispatching, at_updated_at := moment\<rparr>"]
    by (simp add: distinct_attempts_def)
next
  case (stage k a r response staged moment evidence)
  from assms(2) have "distinct_attempts (insert_response staged st)"
    by (simp add: distinct_attempts_def insert_response_def)
  then show ?thesis
    unfolding stage(1) close_round_def
    by (auto simp: distinct_update_attempt returned_row_def corrected_row_def with_provenance_def
        response_provenance_def)
next
  case (adopt k a vr response payload moment)
  from assms(2) show ?thesis unfolding adopt(1) by (simp add: adopted_def Let_def distinct_attempts_def)
qed (use assms(2) in \<open>simp_all add: distinct_insert_attempt distinct_update_attempt\<close>)

lemma reachable_distinct:
  assumes "runtime_steps cd empty_runtime db"
  shows "distinct_attempts (rd_attempts db)"
  using assms
proof (induction rule: runtime_steps_induct)
  case refl
  show ?case by (simp add: distinct_attempts_def empty_runtime_def empty_attempts_def)
next
  case (step x y)
  then have "attempt_inv cd (rd_attempts x)" using reachable_inv by (simp add: runtime_inv_def)
  from runtime_step_cases [OF step(2) this] show ?case
  proof (elim disjE exE conjE)
    fix r res assume "meter_transaction r x = (res, y)"
    then show ?thesis
      by (cases rule: meter_transaction_attempts) (use step(3) in \<open>simp_all add: distinct_close_attempt\<close>)
  qed (use step(3) effect_distinct in auto)
qed

lemma listed_attempt_found:
  assumes "distinct_attempts st" and "a \<in> set (as_attempts st)"
  shows "attempt_row st (at_attempt_id a) = Some a"
proof -
  have "distinct (map at_attempt_id rows) \<Longrightarrow> a \<in> set rows \<Longrightarrow> find_row at_attempt_id (at_attempt_id a) rows = Some a"
    for rows by (induction rows) (auto simp: find_row_def)
  with assms show ?thesis by (simp add: distinct_attempts_def attempt_row_def)
qed

section \<open>Receipts\<close>

lemma receipt_is_proven:
  assumes "runtime_steps cd empty_runtime db" and "receipt_row (rd_attempts db) k = Some r"
  obtains vr proof_text where "return_verifier_row (rd_attempts db) k = Some vr"
    "validate_verifier (vr_verifier vr) = Inr (vr_verifier vr)"
    "verify_late_return_proof cd (vr_verifier vr) (late_return_message cd (rc_scope r) (rc_response r)) proof_text"
    "vr_consumed_at vr \<noteq> None"
proof -
  have "attempt_inv cd (rd_attempts db)" using reachable_inv [OF assms(1)] by (simp add: runtime_inv_def)
  with assms(2) that show ?thesis using attempt_invD [of cd "rd_attempts db" k]
    by (fastforce simp: receipt_inv_def binding_inv_def proven_def)
qed

lemma attach_other_return:
  assumes inv: "attempt_inv cd st" and r: "receipt_row st k = Some r"
    and other: "late_response cd payload = Inr response" "response \<noteq> rc_response r"
  shows "\<exists>e. attach_late_trusted_return cd k d payload text evidence st = (Inl e, st)"
proof -
  have trans: "\<exists>e. attach_transaction cd k t response payload text st = (Inl e, st)" for t
  proof -
    obtain res st' where run: "attach_transaction cd k t response payload text st = (res, st')" by fastforce
    then show ?thesis using inv
    proof (cases rule: attach_transaction_cases)
      case (adopt a vr)
      from adopt_proven_cases [OF adopt(5) inv adopt(1,3)] r other(2) run show ?thesis
        by (cases res) auto
    qed (use run in auto)
  qed
  show ?thesis
  proof (cases "as_utc d ''attached_at''")
    case (Inr t)
    with trans [of t] other(1) show ?thesis by (auto simp: attach_late_trusted_return_def at_moment_def)
  qed (auto simp: attach_late_trusted_return_def at_moment_def)
qed

lemma receipt_permanent:
  assumes "runtime_inv cd db" and "runtime_steps cd db db'" and "receipt_row (rd_attempts db) k = Some r"
  shows "receipt_row (rd_attempts db') k = Some r"
    and "handoff_row (rd_attempts db') k = handoff_row (rd_attempts db) k"
  using runtime_steps_settled [OF assms(2,1), of k] assms(3) by (auto simp: settled_def view_def)

end
