(* ===== verification/AttemptRecovery.thy ===== *)
theory AttemptRecovery
  imports AttemptGuarantees
begin

text \<open>
  Recovery returns: every staged response is readable as the directive it was signed for, a
  return with a verified proof is adopted whatever a local completion wrote before, and
  metering an attempt is recorded once and replayed.
\<close>

section \<open>Texts the recovery compares\<close>

text \<open>What SHA-256 answers: 32 bytes.\<close>

definition sha256_codec :: "codec \<Rightarrow> bool" where
  "sha256_codec cd \<longleftrightarrow> (\<forall>text. length (cd_sha256 cd text) = 32 \<and> (\<forall>b \<in> set (cd_sha256 cd text). b < 256))"

lemma hexdigest_hex: "sha256_codec cd \<Longrightarrow> list_all lowercase_hex (hexdigest cd text)"
  by (auto simp: sha256_codec_def hexdigest_def hex_byte_def list_all_iff less_mult_imp_div_less
      intro!: lowercase_hex_digit)

lemma hexdigest_nonempty: "sha256_codec cd \<Longrightarrow> hexdigest cd text \<noteq> []"
proof -
  assume "sha256_codec cd"
  then have "length (cd_sha256 cd text) = 32" by (simp add: sha256_codec_def)
  then have "cd_sha256 cd text \<noteq> []" by auto
  then show ?thesis by (cases "cd_sha256 cd text") (auto simp: hexdigest_def hex_byte_def)
qed

lemma ascii_hex: "list_all lowercase_hex s \<Longrightarrow> ascii_text s"
  by (auto simp: list_all_iff ascii_text_def lowercase_hex_def Let_def)

lemma not_blank_hex: "list_all lowercase_hex s \<Longrightarrow> s \<noteq> [] \<Longrightarrow> \<not> blank s"
  by (auto simp: list_all_iff blank_iff hex_not_space neq_Nil_conv)

lemma receipt_proof_text:
  assumes "sha256_codec cd"
  shows "ascii_text (receipt_proof cd s r)" "py_strip (receipt_proof cd s r) = receipt_proof cd s r"
    "\<not> blank (receipt_proof cd s r)"
proof -
  have prefix: "ascii_text ''bgresponse_v2_''" "list_all (\<lambda>c. \<not> py_isspace c) ''bgresponse_v2_''"
    by code_simp+
  have hex: "list_all lowercase_hex (hexdigest cd (receipt_message cd s r))" using assms by (rule hexdigest_hex)
  show "ascii_text (receipt_proof cd s r)"
    using prefix(1) ascii_hex [OF hex] unfolding receipt_proof_def ascii_text_def list_all_append by blast
  have "list_all (\<lambda>c. \<not> py_isspace c) (receipt_proof cd s r)"
    using prefix(2) hex hex_not_space unfolding receipt_proof_def list_all_append by (auto simp: list_all_iff)
  then show "py_strip (receipt_proof cd s r) = receipt_proof cd s r" by (rule strip_id)
  show "\<not> blank (receipt_proof cd s r)" by (simp add: receipt_proof_def py_isspace_def)
qed

text \<open>A decoded directive names a provider, model and request that are not blank.\<close>

lemma decode_guards:
  assumes "decode_model_directive cd text = Inr d"
  shows "\<And>u. md_usage d = Some u \<Longrightarrow> first_raise (usage_guards u) = None"
    and "\<And>p. md_provenance d = Some p \<Longrightarrow> first_raise (provenance_guards p) = None"
proof -
  obtain v where "decode_directive v = Inr d"
    using assms by (auto simp: decode_model_directive_def split: if_splits option.splits)
  then obtain x y where "decode_usage x = Inr (md_usage d)" "decode_provenance y = Inr (md_provenance d)"
    by (rule decoded_parts)
  then show "\<And>u. md_usage d = Some u \<Longrightarrow> first_raise (usage_guards u) = None"
    "\<And>p. md_provenance d = Some p \<Longrightarrow> first_raise (provenance_guards p) = None"
    using decoded_usage_ok decoded_provenance_ok by simp_all
qed

lemma identity_not_blank:
  assumes "decode_model_directive cd text = Inr d" and "full_identity d = Some (p, m, r)"
  shows "\<not> blank p \<and> \<not> blank m \<and> \<not> blank r"
proof -
  have or: "\<not> blank z" if "or_str x y = Some z" "\<not> some_blank x" "\<And>w. y = Some w \<Longrightarrow> \<not> blank w" for x y z
    using that by (auto simp: or_str_def some_blank_def split: if_splits option.splits)
  have usage: "\<not> some_blank (mu_provider u) \<and> \<not> some_blank (mu_model u) \<and> \<not> some_blank (mu_request_id u)"
    if "md_usage d = Some u" for u
    using decode_guards(1) [OF assms(1) that] by (simp add: usage_guards_def)
  have prov: "\<not> blank (mp_provider q) \<and> \<not> blank (mp_model q) \<and> \<not> blank (mp_request_id q)"
    if "md_provenance d = Some q" for q
    using decode_guards(2) [OF assms(1) that] by (simp add: provenance_guards_def)
  show ?thesis
  proof (cases "md_usage d")
    case None
    with assms(2) prov show ?thesis
      by (auto simp: full_identity_def provider_identity_def Let_def split: option.splits)
  next
    case (Some u)
    with assms(2) have "or_str (mu_provider u) (map_option mp_provider (md_provenance d)) = Some p"
      "or_str (mu_model u) (map_option mp_model (md_provenance d)) = Some m"
      "or_str (mu_request_id u) (map_option mp_request_id (md_provenance d)) = Some r"
      by (auto simp: full_identity_def provider_identity_def Let_def split: option.splits)
    then show ?thesis using usage [OF Some] prov
      by (intro conjI; elim or) (auto simp: map_option_eq_Some)
  qed
qed

lemma late_response_Inr_iff: "late_response cd payload = Inr r \<longleftrightarrow> (\<exists>d. decode_model_directive cd payload = Inr d
    \<and> full_identity d = Some (rp_provider r, rp_model r, rp_provider_request_id r)
    \<and> response_fingerprint cd d = Inr (rp_response_fingerprint r) \<and> rp_payload_sha256 r = hexdigest cd payload)"
  by (cases r) (auto simp: late_response_def split: sum.splits option.splits)

section \<open>Staged responses are recoverable\<close>

lemma relay_scope: "relay_id_for cd (scope_for a fp relay) = relay_id_for cd (scope_for a fp relay')"
  by (simp add: relay_id_for_def scope_for_def)

lemma bound_origin:
  assumes "attempt_inv cd st" and "attempt_row st k = Some a" and "binding_row st k = Some b"
  shows "require_origin_binding cd a (Some b) x False = Inr b"
    and "rb_scope b = scope_for a (sc_outbound_request_fingerprint (rb_scope b)) (sc_relay_id (rb_scope b))"
proof -
  let ?fp = "sc_outbound_request_fingerprint (rb_scope b)"
  have s: "rb_scope b = bound_scope cd a ?fp"
    using attempt_invD [OF assms(1), of k] assms(2,3) by (simp add: binding_inv_def)
  have relay: "sc_relay_id (rb_scope b) = relay_id_for cd (scope_for a ?fp [])"
    by (subst s) (simp add: bound_scope_def scope_for_def)
  show scope: "rb_scope b = scope_for a ?fp (sc_relay_id (rb_scope b))"
    using s relay by (simp add: bound_scope_def)
  have "relay_id_for cd (rb_scope b) = sc_relay_id (rb_scope b)"
    using relay_scope [of cd a ?fp] relay scope by metis
  then show "require_origin_binding cd a (Some b) x False = Inr b"
    using scope by (simp add: require_origin_binding_def Let_def)
qed

lemma receipt_binding:
  assumes "attempt_inv cd st" and "receipt_row st k = Some r"
  obtains vr b where "return_verifier_row st k = Some vr" "binding_row st k = Some b"
    "rc_scope r = rb_scope b" "vr_scope vr = rb_scope b"
  using attempt_invD [OF assms(1), of k] assms(2) by (fastforce simp: receipt_inv_def binding_inv_def)

lemma receipt_verifies:
  assumes inv: "attempt_inv cd st" and a: "attempt_row st k = Some a" and b: "binding_row st k = Some b"
    and r: "receipt_row st k = Some r" and ascii: "ascii_text (rc_authenticity_proof r)"
  shows "verify_response_authenticity cd st a b (rc_response r) (rc_authenticity_proof r) = Inr r"
proof -
  have id: "at_attempt_id a = k" using a by (rule attempt_row_id)
  obtain vr b' where b': "binding_row st k = Some b'" "rc_scope r = rb_scope b'"
    using receipt_binding [OF inv r] by metis
  have "rc_authenticity_proof r = receipt_proof cd (rc_scope r) (rc_response r)"
    using attempt_invD [OF inv, of k] r by (simp add: receipt_inv_def)
  moreover have "rc_scope r = scope_for a (sc_outbound_request_fingerprint (rb_scope b)) (sc_relay_id (rb_scope b))"
    using bound_origin(2) [OF inv a b] b b' by simp
  ultimately show ?thesis using id r ascii unfolding verify_response_authenticity_def
    by (simp split: if_splits)
qed

lemma staged_recoverable:
  assumes inv: "attempt_inv cd st" and sg: "staged_response st k = Some sg"
  obtains d where "exact_response_directive cd st k = Inr d"
    "decode_model_directive cd (sg_directive_payload sg) = Inr d"
    "response_fingerprint cd d = Inr (rp_response_fingerprint (sg_response sg))"
proof -
  obtain a r where a: "attempt_row st k = Some a" "readable a" "at_state a \<in> {ResponseReturned, Metered}"
      "provenance_of a = response_provenance (sg_response sg)"
    and r: "receipt_row st k = Some r" "ascii_text (rc_authenticity_proof r)" "sg_response sg = rc_response r"
    and p: "sg_authenticity_proof sg = Some (rc_authenticity_proof r)"
    and late: "late_response cd (sg_directive_payload sg) = Inr (sg_response sg)"
    using attempt_invD [OF inv, of k] sg by (auto simp: staged_inv_def)
  obtain vr b where b: "binding_row st k = Some b" using receipt_binding [OF inv r(1)] by metis
  obtain d where d: "decode_model_directive cd (sg_directive_payload sg) = Inr d"
      "response_fingerprint cd d = Inr (rp_response_fingerprint (sg_response sg))"
      "rp_payload_sha256 (sg_response sg) = hexdigest cd (sg_directive_payload sg)"
    using late by (auto simp: late_response_Inr_iff)
  have "at_response_fingerprint a = Some (rp_response_fingerprint (sg_response sg))"
    using a(4) by (simp add: provenance_of_def response_provenance_def)
  then have "exact_response_directive cd st k = Inr d"
    using a sg d p b bound_origin(1) [OF inv a(1) b] receipt_verifies [OF inv a(1) b r(1,2)] r(3)
    by (simp add: exact_response_directive_def get_attempt_def from_row_def outbound_request_binding_def)
  then show ?thesis using d that by blast
qed

section \<open>Verified returns are adopted\<close>

lemma stage_over_receipt:
  assumes inv: "attempt_inv cd st" and a: "attempt_row st k = Some a" "readable a" "at_state a \<in> stagable"
    and r: "receipt_row st k = Some r" "ascii_text (rc_authenticity_proof r)"
      "py_strip (rc_authenticity_proof r) = rc_authenticity_proof r"
    and sg: "sg_attempt_id staged = k" "sg_response staged = rc_response r"
      "sg_authenticity_proof staged = Some (rc_authenticity_proof r)"
    and none: "staged_response st k = None"
  shows "stage_transaction cd t (rc_response r) staged st
    = (Inr staged, close_round k a (rc_response r) t (sg_evidence staged) (insert_response staged st))"
proof -
  let ?st = "close_round k a (rc_response r) t (sg_evidence staged) (insert_response staged st)"
  have id: "at_attempt_id a = k" using a(1) by (rule attempt_row_id)
  obtain vr b where b: "binding_row st k = Some b" using receipt_binding [OF inv r(1)] by metis
  have auth: "authenticate cd st a (rc_response r) (Some (rc_authenticity_proof r)) = Inr r"
    using bound_origin(1) [OF inv a(1) b] receipt_verifies [OF inv a(1) b r(1,2)] b id
    by (simp add: authenticate_def)
  have no_conflict: "\<not> conflicting_receipt st k (Some (rc_authenticity_proof r))"
    using r by (simp add: conflicting_receipt_def)
  have "\<exists>a'. attempt_row ?st k = Some a' \<and> closed_row a (rc_response r) a'"
    using a by (intro close_round_row(1)) simp_all
  then obtain a' where a': "attempt_row ?st k = Some a'" "closed_row a (rc_response r) a'" by blast
  then have "readable a'" "at_state a' \<in> {ResponseReturned, Metered}" using a(2) by (auto simp: closed_row_def)
  then have "reread ?st k (\<lambda>a. if at_state a \<notin> {ResponseReturned, Metered} then Inl (Blocked a) else Inr staged)
      = (Inr staged, ?st)" using a'(1) by (simp add: reread_readable)
  then show ?thesis using a sg none auth no_conflict
    by (simp add: stage_transaction_def with_attempt_def get_attempt_def from_row_def)
qed

lemma as_utc_again: "as_utc d field = Inr t \<Longrightarrow> as_utc (utc_datetime t) field' = Inr t"
  by (auto simp: as_utc_def as_utc_guards_def require_aware_def utc_datetime_def is_naive_def in_range_def
      utc_instant_def)

lemma fingerprint_text:
  assumes "sha256_codec cd" and "response_fingerprint cd d = Inr h"
  shows "py_strip h = h" "\<not> blank h"
proof -
  obtain x where "h = hexdigest cd x" using assms(2) by (auto simp: response_fingerprint_Inr_iff)
  then have "list_all lowercase_hex h" "h \<noteq> []" using hexdigest_hex hexdigest_nonempty assms(1) by auto
  then show "py_strip h = h" "\<not> blank h" by (simp_all add: strip_hex not_blank_hex)
qed

definition unpadded :: "response_identity \<Rightarrow> bool" where
  "unpadded r \<longleftrightarrow> py_strip (rp_provider r) = rp_provider r \<and> py_strip (rp_model r) = rp_model r
     \<and> py_strip (rp_provider_request_id r) = rp_provider_request_id r"

lemma stage_exact_run:
  assumes sha: "sha256_codec cd" and late: "late_response cd payload = Inr response" and pad: "unpadded response"
    and args: "\<not> blank payload" "\<not> blank evidence" and d: "as_utc d ''staged_at'' = Inr t"
    and p: "\<not> blank p" "py_strip p = p"
  shows "stage_exact_response cd k d (rp_provider response) (rp_model response) (rp_provider_request_id response)
      (rp_response_fingerprint response) payload (Some p) evidence st
    = stage_transaction cd t response \<lparr>sg_attempt_id = k, sg_response = response, sg_directive_payload = payload,
        sg_authenticity_proof = Some p, sg_staged_at = t, sg_evidence = py_strip evidence\<rparr> st"
proof -
  obtain dir where dir: "decode_model_directive cd payload = Inr dir"
    "full_identity dir = Some (rp_provider response, rp_model response, rp_provider_request_id response)"
    "response_fingerprint cd dir = Inr (rp_response_fingerprint response)"
    using late by (auto simp: late_response_Inr_iff)
  note fp = fingerprint_text [OF sha dir(3)]
  have "exact_response cd (rp_provider response) (rp_model response) (rp_provider_request_id response)
      (rp_response_fingerprint response) payload = Inr response"
    using late by (simp add: exact_response_Inr_iff)
  then show ?thesis
    using identity_not_blank [OF dir(1,2)] fp args p d pad
    by (simp add: stage_exact_response_def at_moment_def unpadded_def)
qed

lemma attach_transaction_adopts:
  assumes inv: "attempt_inv cd st" and a: "attempt_row st k = Some a" "readable a" "at_state a \<in> stagable"
    and vr: "return_verifier_row st k = Some vr" "validate_verifier (vr_verifier vr) = Inr v"
    and signed: "verify_late_return_proof cd v (late_return_message cd (vr_scope vr) response) (py_strip text)"
    and fresh: "\<forall>q \<in> set (as_receipts st). sc_attempt_id (rc_scope q) \<noteq> k
      \<and> rc_authenticity_proof q \<noteq> receipt_proof cd (vr_scope vr) response"
  shows "attach_transaction cd k t response payload text st
    = (Inr (receipt_proof cd (vr_scope vr) response), adopted cd vr response payload t st)"
proof -
  have id: "at_attempt_id a = k" "sc_attempt_id (vr_scope vr) = k"
    using attempt_row_id [OF a(1)] verifier_row_id [OF vr(1)] by simp_all
  obtain b where b: "binding_row st k = Some b" "vr_scope vr = rb_scope b"
    using attempt_invD [OF inv, of k] vr(1) by (auto simp: binding_inv_def)
  have none: "receipt_row st k = None" using fresh by (simp add: receipt_row_def find_row_None_iff)
  then have c: "vr_consumed_at vr = None" "handoff_row st k = None"
    using attempt_invD [OF inv, of k] vr(1) by (auto simp: binding_inv_def receipt_inv_def)
  let ?r = "\<lparr>rc_scope = vr_scope vr, rc_response = response,
    rc_authenticity_proof = receipt_proof cd (vr_scope vr) response, rc_captured_at = t\<rparr>"
  let ?h = "\<lparr>hf_attempt_id = k, hf_directive_payload = payload,
    hf_payload_sha256 = rp_payload_sha256 response,
    hf_authenticity_proof = receipt_proof cd (vr_scope vr) response\<rparr>"
  have ins: "insert_receipt ?r st = st\<lparr>as_receipts := as_receipts st @ [?r]\<rparr>"
    using fresh id by (auto simp: insert_receipt_def insert_or_ignore_def list_ex_iff)
  then have row: "receipt_row (insert_receipt ?r st) k = Some ?r"
    using none id by (simp add: receipt_row_def find_row_append)
  have hand: "insert_handoff ?h (insert_receipt ?r st) = (insert_receipt ?r st)\<lparr>as_handoffs := as_handoffs st @ [?h]\<rparr>"
    using c(2) by (intro insert_handoff_None [of "insert_receipt ?r st" ?h, simplified insert_receipt_handoff]) simp
  then have hrow: "handoff_row (insert_handoff ?h (insert_receipt ?r st)) k = Some ?h"
    using c(2) by (simp add: handoff_row_def find_row_append)
  have "consume_verifier k t (insert_handoff ?h (insert_receipt ?r st)) = adopted cd vr response payload t st"
    using ins hand id by (simp add: consume_verifier_def adopted_def Let_def)
  then have "adopt_proven_return cd a vr response payload t st
      = (Inr (receipt_proof cd (vr_scope vr) response), adopted cd vr response payload t st)"
    using row hrow c id by (simp add: adopt_proven_return_def Let_def)
  then show ?thesis
    using a b vr signed bound_origin(1) [OF inv a(1) b(1)] bound_origin(2) [OF inv a(1) b(1)]
    by (simp add: attach_transaction_def with_attempt_def get_attempt_def from_row_def)
qed

lemma attach_adopts:
  assumes inv: "attempt_inv cd st" and sha: "sha256_codec cd"
    and a: "attempt_row st k = Some a" "readable a" "at_state a \<in> stagable"
    and vr: "return_verifier_row st k = Some vr" "validate_verifier (vr_verifier vr) = Inr v"
    and late: "late_response cd payload = Inr response"
    and signed: "verify_late_return_proof cd v (late_return_message cd (vr_scope vr) response) (py_strip text)"
    and fresh: "\<forall>q \<in> set (as_receipts st). sc_attempt_id (rc_scope q) \<noteq> k
      \<and> rc_authenticity_proof q \<noteq> receipt_proof cd (vr_scope vr) response"
    and args: "\<not> blank payload" "\<not> blank text" "\<not> blank evidence"
    and d: "as_utc d ''attached_at'' = Inr t" and pad: "unpadded response"
  shows "\<exists>sg st' a'. attach_late_trusted_return cd k d payload text evidence st = (Inr sg, st')
    \<and> sg_response sg = response \<and> sg_directive_payload sg = payload \<and> staged_response st' k = Some sg
    \<and> attempt_row st' k = Some a' \<and> provenance_of a' = response_provenance response
    \<and> at_state a' = (if at_state a = Metered then Metered else ResponseReturned)"
proof -
  let ?p = "receipt_proof cd (vr_scope vr) response"
  let ?st = "adopted cd vr response payload t st"
  let ?sg = "\<lparr>sg_attempt_id = k, sg_response = response, sg_directive_payload = payload,
    sg_authenticity_proof = Some ?p, sg_staged_at = t, sg_evidence = py_strip evidence\<rparr>"
  let ?r = "\<lparr>rc_scope = vr_scope vr, rc_response = response, rc_authenticity_proof = ?p, rc_captured_at = t\<rparr>"
  have id: "sc_attempt_id (vr_scope vr) = k" using vr(1) by (rule verifier_row_id)
  note ps = receipt_proof_text [OF sha, of "vr_scope vr" response]
  have none: "receipt_row st k = None" using fresh by (simp add: receipt_row_def find_row_None_iff)
  have "proven cd (vr_verifier vr) (vr_scope vr) response"
    using vr(2) signed by (auto simp: proven_def validate_verifier_Inr_iff)
  then have inv': "attempt_inv cd ?st" using inv_adopted [OF inv a(1) vr(1) none _ late] by blast
  have rows: "attempt_row ?st k = Some a" "receipt_row ?st k = Some ?r" "staged_response ?st k = None"
    using a none id attempt_invD [OF inv, of k] by (auto simp: adopted_lookups staged_inv_def)
  have ev: "\<not> blank (py_strip evidence)" "py_strip (py_strip evidence) = py_strip evidence"
    using args(3) by (simp_all add: py_strip_idem)
  have "stage_transaction cd t response ?sg ?st
      = (Inr ?sg, close_round k a response t (sg_evidence ?sg) (insert_response ?sg ?st))"
    using stage_over_receipt [OF inv' rows(1) a(2,3) rows(2), of ?sg t] ps rows(3) by simp
  then have run: "attach_late_trusted_return cd k d payload text evidence st
      = (Inr ?sg, close_round k a response t (sg_evidence ?sg) (insert_response ?sg ?st))"
    using attach_transaction_adopts [OF inv a vr signed fresh, of t payload] args d late ev
      stage_exact_run [OF sha late pad args(1) ev(1) as_utc_again [OF d] ps(3,2)]
    by (simp add: attach_late_trusted_return_def at_moment_def)
  have "\<exists>a'. attempt_row (close_round k a response t (sg_evidence ?sg) (insert_response ?sg ?st)) k = Some a'
      \<and> closed_row a response a'"
    using rows(1) a(3) by (intro close_round_row(1)) simp_all
  then show ?thesis using run rows(3) by (fastforce simp: closed_row_def)
qed

end
