(* ===== verification/MeteringFacts.thy ===== *)
theory MeteringFacts
  imports AttemptRecovery
begin

text \<open>
  Metering over time: the ledger only grows, an attempt owns at most one record, and the
  same call recorded again is answered with the first record.
\<close>

section \<open>Padded identities\<close>

lemma stage_exact_padded:
  assumes "late_response cd payload = Inr response" and "\<not> unpadded response"
  shows "\<exists>e. stage_exact_response cd k d (rp_provider response) (rp_model response)
      (rp_provider_request_id response) (rp_response_fingerprint response) payload pf evidence st = (Inl e, st)"
proof (cases "exact_response cd (py_strip (rp_provider response)) (py_strip (rp_model response))
      (py_strip (rp_provider_request_id response)) (py_strip (rp_response_fingerprint response)) payload")
  case (Inl e)
  then show ?thesis unfolding stage_exact_response_def at_moment_def Inl
    by (cases "as_utc d ''staged_at''") simp_all
next
  case (Inr r)
  note r = Inr [unfolded exact_response_Inr_iff]
  have "response = r" using conjunct1 [OF r] assms(1) by simp
  then have "unpadded response" using conjunct2 [OF r] unfolding unpadded_def by (elim conjE) (intro conjI; metis)
  with assms(2) show ?thesis ..
qed

lemma attach_padded_fails:
  assumes "late_response cd payload = Inr response" and "\<not> unpadded response"
  shows "\<exists>e. fst (attach_late_trusted_return cd k d payload proof_text evidence st) = Inl e"
proof -
  have "\<exists>e. fst (stage_exact_response cd k d (rp_provider response) (rp_model response)
      (rp_provider_request_id response) (rp_response_fingerprint response) payload pf ev st') = Inl e" for d pf ev st'
    using stage_exact_padded [OF assms] by (metis fst_conv)
  then show ?thesis using assms(1)
    by (auto simp: attach_late_trusted_return_def at_moment_def split: sum.splits prod.splits)
qed

text \<open>
  What attaching a proven return does, by the two conditions the source does not check
  before it writes: a readable row, and an identity without surrounding whitespace.
\<close>

lemma attach_padded_keeps_receipt:
  assumes inv: "attempt_inv cd st"
    and a: "attempt_row st k = Some a" "readable a" "at_state a \<in> stagable"
    and vr: "return_verifier_row st k = Some vr" "validate_verifier (vr_verifier vr) = Inr v"
    and late: "late_response cd payload = Inr response"
    and signed: "verify_late_return_proof cd v (late_return_message cd (vr_scope vr) response) (py_strip text)"
    and fresh: "\<forall>q \<in> set (as_receipts st). sc_attempt_id (rc_scope q) \<noteq> k
      \<and> rc_authenticity_proof q \<noteq> receipt_proof cd (vr_scope vr) response"
    and args: "\<not> blank payload" "\<not> blank text" "\<not> blank evidence"
    and d: "as_utc d ''attached_at'' = Inr t" and pad: "\<not> unpadded response"
  shows "\<exists>e st' r. attach_late_trusted_return cd k d payload text evidence st = (Inl e, st')
    \<and> receipt_row st' k = Some r \<and> rc_response r = response \<and> staged_response st' k = None
    \<and> attempt_row st' k = Some a"
proof -
  let ?st = "adopted cd vr response payload t st" and ?p = "receipt_proof cd (vr_scope vr) response"
  let ?stage = "stage_exact_response cd k (utc_datetime t) (rp_provider response) (rp_model response)
    (rp_provider_request_id response) (rp_response_fingerprint response) payload (Some ?p) (py_strip evidence)"
  have id: "sc_attempt_id (vr_scope vr) = k" using vr(1) by (rule verifier_row_id)
  have none: "receipt_row st k = None" using fresh by (simp add: receipt_row_def find_row_None_iff)
  have run: "attach_late_trusted_return cd k d payload text evidence st = ?stage ?st"
    using attach_transaction_adopts [OF inv a vr signed fresh, of t payload] args d late
    by (simp add: attach_late_trusted_return_def at_moment_def)
  obtain e where "?stage ?st = (Inl e, ?st)" using stage_exact_padded [OF late pad] by blast
  moreover have "attempt_row ?st k = Some a" "staged_response ?st k = None"
    "\<exists>r. receipt_row ?st k = Some r \<and> rc_response r = response"
    using a(1) none id attempt_invD [OF inv, of k] by (auto simp: adopted_lookups staged_inv_def)
  ultimately show ?thesis using run by metis
qed

lemma attach_unreadable:
  assumes "attempt_row st k = Some a" and "\<not> readable a" and "late_response cd payload = Inr response"
    and "\<not> blank payload" "\<not> blank text" "\<not> blank evidence" and "as_utc d ''attached_at'' = Inr t"
  shows "attach_late_trusted_return cd k d payload text evidence st = (Inl UnreadableRow, st)"
  using assms
  by (simp add: attach_late_trusted_return_def at_moment_def attach_transaction_def with_attempt_def get_attempt_def
      from_row_def)

section \<open>The ledger grows\<close>

lemma meter_transaction_rows:
  assumes "meter_transaction r db = (res, db')"
  shows "\<exists>more. rd_metering db' = rd_metering db @ more"
  using assms insert_metering_cases [of r "rd_metering db"]
  by (cases rule: meter_transaction_cases) auto

lemma runtime_step_rows:
  assumes "runtime_step cd db db'" and "attempt_inv cd (rd_attempts db)"
  shows "\<exists>more. rd_metering db' = rd_metering db @ more"
  using runtime_step_cases [OF assms] meter_transaction_rows by fastforce

lemma close_attempt_keeps:
  assumes "attempt_row st j = Some a"
  shows "\<exists>b. attempt_row (close_attempt k i t st) j = Some b \<and> at_work b = at_work a
    \<and> (at_state a = Metered \<longrightarrow> at_meter_record_id a \<noteq> None \<longrightarrow>
        at_state b = Metered \<and> at_meter_record_id b = at_meter_record_id a)"
  using assms by (auto simp: close_attempt_row)

lemma runtime_step_attempt:
  assumes "runtime_step cd db db'" and "runtime_inv cd db" and a: "attempt_row (rd_attempts db) k = Some a"
  shows "\<exists>b. attempt_row (rd_attempts db') k = Some b \<and> at_work b = at_work a
    \<and> (at_state a = Metered \<longrightarrow> at_state b = Metered \<and> at_meter_record_id b = at_meter_record_id a)"
proof -
  have inv: "attempt_inv cd (rd_attempts db)" "meter_inv db" using assms(2) by (simp_all add: runtime_inv_def)
  show ?thesis
    using runtime_step_cases [OF assms(1) inv(1)]
  proof (elim disjE exE conjE)
    fix st assume "effect cd (rd_attempts db) st" "db' = db\<lparr>rd_attempts := st\<rparr>"
    then show ?thesis using effect_attempt [OF _ a] by (fastforce simp: same_meter_def)
  next
    fix r res assume run: "meter_transaction r db = (res, db')"
    have "at_state a = Metered \<longrightarrow> at_meter_record_id a \<noteq> None" using inv(2) a by (simp add: meter_inv_def)
    note meter = this
    from run show ?thesis
    proof (cases rule: meter_transaction_attempts)
      case 1
      with a show ?thesis by simp
    next
      case (2 j i t)
      from close_attempt_keeps [OF a, of j i t] meter show ?thesis unfolding 2 by blast
    qed
  qed
qed

lemma runtime_steps_keep:
  assumes "runtime_steps cd db db'" and "runtime_inv cd db"
  shows "\<exists>more. rd_metering db' = rd_metering db @ more"
    and "attempt_row (rd_attempts db) k = Some a \<Longrightarrow> \<exists>b. attempt_row (rd_attempts db') k = Some b
      \<and> at_work b = at_work a
      \<and> (at_state a = Metered \<longrightarrow> at_state b = Metered \<and> at_meter_record_id b = at_meter_record_id a)"
proof -
  have "(\<exists>more. rd_metering db' = rd_metering db @ more) \<and>
    (attempt_row (rd_attempts db) k = Some a \<longrightarrow> (\<exists>b. attempt_row (rd_attempts db') k = Some b
      \<and> at_work b = at_work a
      \<and> (at_state a = Metered \<longrightarrow> at_state b = Metered \<and> at_meter_record_id b = at_meter_record_id a)))"
    using assms(1)
  proof (induction rule: runtime_steps_induct)
    case (step x y)
    have inv: "runtime_inv cd x" using runtime_steps_inv [OF step(1) assms(2)] .
    then have rows: "\<exists>more. rd_metering y = rd_metering x @ more"
      using runtime_step_rows [OF step(2)] by (simp add: runtime_inv_def)
    have att: "\<exists>b. attempt_row (rd_attempts y) k = Some b \<and> at_work b = at_work c
        \<and> (at_state c = Metered \<longrightarrow> at_state b = Metered \<and> at_meter_record_id b = at_meter_record_id c)"
      if "attempt_row (rd_attempts x) k = Some c" for c
      using runtime_step_attempt [OF step(2) inv that] .
    from step(3) rows show ?case
    proof (intro conjI impI)
      assume "attempt_row (rd_attempts db) k = Some a"
      then obtain c where c: "attempt_row (rd_attempts x) k = Some c" "at_work c = at_work a"
        "at_state a = Metered \<longrightarrow> at_state c = Metered \<and> at_meter_record_id c = at_meter_record_id a"
        using step(3) by blast
      from att [OF c(1)] c show "\<exists>b. attempt_row (rd_attempts y) k = Some b \<and> at_work b = at_work a
          \<and> (at_state a = Metered \<longrightarrow> at_state b = Metered \<and> at_meter_record_id b = at_meter_record_id a)"
        by auto
    qed auto
  qed simp
  then show "\<exists>more. rd_metering db' = rd_metering db @ more"
    and "attempt_row (rd_attempts db) k = Some a \<Longrightarrow> \<exists>b. attempt_row (rd_attempts db') k = Some b
      \<and> at_work b = at_work a
      \<and> (at_state a = Metered \<longrightarrow> at_state b = Metered \<and> at_meter_record_id b = at_meter_record_id a)"
    by blast+
qed

section \<open>One record per attempt\<close>

lemma one_record:
  assumes "sorted_wrt (\<lambda>q r. \<not> metering_clash r q) rows"
  shows "length (filter (\<lambda>r. mr_background_attempt_id r = Some k) rows) \<le> 1"
  using assms
proof (induction rows)
  case (Cons r rows)
  show ?case
  proof (cases "mr_background_attempt_id r = Some k")
    case True
    with Cons.prems have "filter (\<lambda>r. mr_background_attempt_id r = Some k) rows = []"
      by (auto simp: filter_empty_conv metering_clash_def)
    with True show ?thesis by simp
  next
    case False
    with Cons show ?thesis by simp
  qed
qed simp

definition metered :: "attempt_store \<Rightarrow> string \<Rightarrow> bool" where
  "metered st k \<longleftrightarrow> (case attempt_row st k of None \<Rightarrow> False | Some a \<Rightarrow> at_state a = Metered)"

definition records_of :: "runtime_db \<Rightarrow> string \<Rightarrow> metering_record list" where
  "records_of db k = filter (\<lambda>r. mr_background_attempt_id r = Some k) (rd_metering db)"

lemma records_count:
  assumes "meter_inv db"
  shows "length (records_of db k) = (if metered (rd_attempts db) k then 1 else 0)"
proof (cases "metered (rd_attempts db) k")
  case True
  then obtain a where a: "attempt_row (rd_attempts db) k = Some a" "at_state a = Metered"
    by (auto simp: metered_def split: option.splits)
  then have "\<exists>r \<in> set (rd_metering db). mr_background_attempt_id r = Some k"
    using assms unfolding meter_inv_def by fastforce
  then have "records_of db k \<noteq> []" by (auto simp: records_of_def filter_empty_conv)
  moreover have "length (records_of db k) \<le> 1"
    using one_record assms unfolding records_of_def meter_inv_def by blast
  ultimately show ?thesis using True by (cases "records_of db k") auto
next
  case False
  have "records_of db k = []"
  proof (rule ccontr)
    assume "records_of db k \<noteq> []"
    then obtain r where "r \<in> set (rd_metering db)" "mr_background_attempt_id r = Some k"
      by (auto simp: records_of_def filter_empty_conv)
    then have "attempt_closed (rd_attempts db) k (mr_record_id r)" using assms unfolding meter_inv_def by blast
    with False show False by (auto simp: attempt_closed_iff metered_def)
  qed
  with False show ?thesis by simp
qed

section \<open>Replaying a meter record\<close>

lemma same_call_iff: "same_call r q \<longleftrightarrow> mr_subject_id q = mr_subject_id r
    \<and> mr_execution_class q = mr_execution_class r \<and> mr_wake_id q = mr_wake_id r
    \<and> mr_session_id q = mr_session_id r \<and> mr_wake_reason q = mr_wake_reason r
    \<and> mr_model_round_index q = mr_model_round_index r \<and> mr_provider q = mr_provider r
    \<and> mr_model q = mr_model r \<and> mr_provider_request_id q = mr_provider_request_id r
    \<and> mr_background_attempt_id q = mr_background_attempt_id r \<and> mr_usage_complete q = mr_usage_complete r
    \<and> mr_input_tokens q = mr_input_tokens r \<and> mr_output_tokens q = mr_output_tokens r
    \<and> mr_total_tokens q = mr_total_tokens r"
  by (cases r; cases q) (auto simp: same_call_def)

lemma meter_replayed:
  assumes inv: "runtime_inv cd db" and first: "meter_transaction r db = (Inr q, db1)"
    and later: "runtime_steps cd db1 db2" and inv1: "runtime_inv cd db1"
    and again: "same_call r r'" "mr_record_id r' = mr_record_id r" "metering_fits r'"
  shows "\<exists>db3. meter_transaction r' db2 = (Inr q, db3) \<and> rd_metering db3 = rd_metering db2"
proof -
  obtain more where more: "rd_metering db2 = rd_metering db1 @ more"
    using runtime_steps_keep(1) [OF later inv1] by blast
  have found: "find_row mr_record_id (mr_record_id r) (rd_metering db1) = Some q" and same: "same_call r q"
    using first by (cases rule: meter_transaction_cases; simp)+
  have id: "mr_record_id q = mr_record_id r" using found by (rule find_row_key)
  have found2: "find_row mr_record_id (mr_record_id r) (rd_metering db2) = Some q"
    using found more by (auto simp: find_row_def find_Some_iff nth_append)
  then have "q \<in> set (rd_metering db2)" by (auto simp: find_row_def find_Some_iff)
  then have rows: "insert_metering r' (rd_metering db2) = rd_metering db2"
    using id again(2) by (auto simp: insert_metering_def insert_or_ignore_def list_ex_iff metering_clash_def)
  have same': "same_call r' q" using same again(1) by (simp add: same_call_iff)
  show ?thesis
  proof (cases "mr_background_attempt_id r")
    case None
    then have "mr_background_attempt_id r' = None" using again(1) by (simp add: same_call_iff)
    then show ?thesis using rows found2 same' again(2,3)
      by (simp add: meter_transaction_def attempt_admits_def)
  next
    case (Some k)
    then have k: "mr_background_attempt_id r' = Some k" using again(1) by (simp add: same_call_iff)
    have "attempt_admits (rd_attempts db) r = None
        \<and> attempt_closed (rd_attempts db1) k (mr_record_id r)
        \<and> (\<exists>i t. rd_attempts db1 = close_attempt k i t (rd_attempts db))"
      using first Some by (cases rule: meter_transaction_cases) auto
    then obtain i t where adm: "attempt_admits (rd_attempts db) r = None"
      and closed: "attempt_closed (rd_attempts db1) k (mr_record_id r)"
      and db1: "rd_attempts db1 = close_attempt k i t (rd_attempts db)" by blast
    obtain b where b: "attempt_row (rd_attempts db1) k = Some b" "at_state b = Metered"
        "at_meter_record_id b = Some (mr_record_id r)"
      using closed by (auto simp: attempt_closed_iff)
    obtain c where c: "attempt_row (rd_attempts db2) k = Some c" "at_work c = at_work b" "at_state c = Metered"
        "at_meter_record_id c = Some (mr_record_id r)"
      using runtime_steps_keep(2) [OF later inv1 b(1)] b by auto
    obtain a where a: "attempt_row (rd_attempts db) k = Some a" "at_work b = at_work a"
      using b(1) unfolding db1 close_attempt_row by (auto split: if_splits)
    have admits: "attempt_admits (rd_attempts db2) r' = None"
      using adm a c Some k again(1) by (auto simp: attempt_admits_def same_call_iff Let_def split: if_splits)
    have "attempt_closed (close_attempt k (mr_record_id r) (mr_recorded_at r') (rd_attempts db2)) k (mr_record_id r)"
      using c attempt_row_id [OF c(1)] by (simp add: attempt_closed_iff close_attempt_row)
    then show ?thesis using rows found2 same' again(2,3) admits k id
      by (simp add: meter_transaction_def Let_def)
  qed
qed

end
