(* ===== verification/LateExamples.thy ===== *)
theory LateExamples
  imports MeteringFacts
begin

text \<open>
  A concrete external signer. With public exponent 3 and the modulus \<open>2 ^ 2049 - m\<close>, where \<open>m\<close>
  is the padded digest read as a number, the signature \<open>2 ^ 683\<close> verifies: its cube is
  \<open>2 ^ 2049\<close>, which is \<open>m\<close> modulo that number.
\<close>

section \<open>Numbers and bytes\<close>

lemma from_bytes_append: "from_bytes (xs @ ys) = from_bytes xs * 256 ^ length ys + from_bytes ys"
  by (induction ys rule: rev_induct)
    (simp_all add: from_bytes_snoc from_bytes_def [of "[]"] append_assoc [symmetric] algebra_simps
      del: append_assoc)

lemma from_bytes_zeros: "from_bytes (replicate n 0) = 0"
  by (induction n) (simp_all add: from_bytes_def)

lemma from_bytes_bound: "\<forall>b \<in> set bs. b < 256 \<Longrightarrow> from_bytes bs < 256 ^ length bs"
  by (induction bs rule: rev_induct) (auto simp: from_bytes_snoc from_bytes_def [of "[]"])

lemma to_from_bytes: "\<forall>b \<in> set bs. b < 256 \<Longrightarrow> to_bytes (length bs) (from_bytes bs) = bs"
  by (induction bs rule: rev_induct) (auto simp: from_bytes_snoc)

lemma from_bytes_parity: "odd (from_bytes (bs @ [b])) \<longleftrightarrow> odd b"
  by (simp add: from_bytes_snoc)

lemma bytes_fromhex_text: "\<forall>b \<in> set bs. b < 256 \<Longrightarrow> bytes_fromhex (concat (map hex_byte bs)) = Some bs"
proof (induction bs)
  case (Cons b bs)
  then have h: "b div 16 < 16" "b mod 16 < 16" by auto
  have space: "\<not> ascii_space (hex_digit n)" if "n < 16" for n
    using that by (simp add: ascii_space_def of_char_hex_digit Let_def)
  show ?case using Cons h
    by (simp add: hex_byte_def lowercase_hex_digit hex_value_digit space)
qed simp

lemma hex_bytes_shape:
  assumes "\<forall>b \<in> set bs. b < 256" and "bs \<noteq> []"
  shows "signature_shape (concat (map hex_byte bs))"
proof -
  have "list_all lowercase_hex (concat (map hex_byte bs))"
    using assms(1) by (auto simp: list_all_iff hex_byte_def intro!: lowercase_hex_digit)
  then show ?thesis using assms(2) by (auto simp: signature_shape_def hex_byte_def neq_Nil_conv)
qed

lemma bit_length_unique: "2 ^ m \<le> n \<Longrightarrow> n < 2 ^ Suc m \<Longrightarrow> bit_length n = Suc m"
proof (induction m arbitrary: n)
  case 0
  then have "n = 1" by simp
  then show ?case by (simp add: bit_length.simps)
next
  case (Suc m)
  then have "2 ^ m \<le> n div 2" "n div 2 < 2 ^ Suc m" "n \<noteq> 0" by (auto intro!: Nat.gr0I)
  with Suc.IH [of "n div 2"] show ?case by (simp add: bit_length.simps [of n])
qed

section \<open>The signer\<close>

definition ex_digest :: "nat list" where
  "ex_digest = replicate 32 7"

definition padded_number :: nat where
  "padded_number = from_bytes (padded_digest 257 ex_digest)"

definition ex_modulus :: nat where
  "ex_modulus = 2 ^ 2049 - padded_number"

definition ex_verifier :: late_return_verifier where
  "ex_verifier = \<lparr>lv_key_id = ''k1'', lv_algorithm = ''rsa-pkcs1v15-sha256'',
     lv_modulus_hex = hex_text ex_modulus, lv_public_exponent = 3\<rparr>"

definition signature_bytes :: "nat list" where
  "signature_bytes = replicate 171 0 @ [8] @ replicate 85 0"

definition ex_proof :: string where
  "ex_proof = proof_prefix @ ''k1'' @ '':'' @ concat (map hex_byte signature_bytes)"

lemma digest_info_bytes: "\<forall>b \<in> set digest_info_prefix. b < 256"
  by code_simp

lemma digest_info_length [simp]: "length digest_info_prefix = 19"
  by code_simp

lemma padded_bytes: "padded_digest 257 ex_digest
    = 0 # 1 # (replicate 203 255 @ 0 # digest_info_prefix @ replicate 31 7) @ [7]"
proof -
  have "ex_digest = replicate 31 7 @ [7]" by (simp add: ex_digest_def numeral_eq_Suc)
  moreover have "length ex_digest = 32" by (simp add: ex_digest_def)
  ultimately show ?thesis by (simp add: padded_digest_def Let_def)
qed

lemma padded_number_facts: "odd padded_number" "padded_number < 2 ^ 2048"
proof -
  let ?bs = "1 # (replicate 203 255 @ 0 # digest_info_prefix @ replicate 31 7) @ [7] :: nat list"
  have "padded_number = from_bytes ((0 # 1 # (replicate 203 255 @ 0 # digest_info_prefix @ replicate 31 7)) @ [7])"
    by (simp add: padded_number_def padded_bytes)
  then show "odd padded_number"
    using from_bytes_parity [of "0 # 1 # (replicate 203 255 @ 0 # digest_info_prefix @ replicate 31 7)" 7]
    by (metis odd_numeral)
  have "padded_number = from_bytes ?bs" by (simp add: padded_number_def padded_bytes from_bytes_def)
  also have "\<dots> < 256 ^ length ?bs"
    using digest_info_bytes by (intro from_bytes_bound) auto
  also have "length ?bs = 256" by simp
  also have "(256::nat) ^ 256 = 2 ^ 2048"
    using power_mult [of "2::nat" 8 256] by simp
  finally show "padded_number < 2 ^ 2048" .
qed

lemma ex_modulus_facts: "odd ex_modulus" "bit_length ex_modulus = 2049" "padded_number < ex_modulus"
  "ex_modulus + padded_number = 2 ^ 2049"
proof -
  have p: "(2::nat) ^ 2049 = 2 * 2 ^ 2048" using power_Suc [of "2::nat" 2048] by simp
  show sum: "ex_modulus + padded_number = 2 ^ 2049"
    unfolding ex_modulus_def using padded_number_facts(2) p by linarith
  then have "even (ex_modulus + padded_number)" by simp
  then show "odd ex_modulus" using padded_number_facts(1) by simp
  show "padded_number < ex_modulus" using sum p padded_number_facts(2) by linarith
  have "0 < padded_number" using padded_number_facts(1) by (rule odd_pos)
  then have "2 ^ 2048 \<le> ex_modulus" "ex_modulus < 2 ^ Suc 2048"
    using sum p padded_number_facts(2) by simp_all
  then show "bit_length ex_modulus = 2049" using bit_length_unique [of 2048 ex_modulus] by simp
qed

lemma ex_key_shape: "until_dollar key_id_shape ''k1''"
  by code_simp

lemma ex_verifier_valid: "validate_verifier ex_verifier = Inr ex_verifier"
proof -
  have "modulus_int ex_verifier = ex_modulus"
    using strip_hex [OF hex_text_hex] by (simp add: modulus_int_def ex_verifier_def hex_int_text)
  moreover have "int ex_modulus > 3"
  proof -
    have "(2::nat) ^ 2048 \<le> ex_modulus" using bit_length_ge [of 2049 ex_modulus] ex_modulus_facts(2) by simp
    then show ?thesis by simp
  qed
  ultimately show ?thesis
    using ex_modulus_facts ex_key_shape unfolding validate_verifier_Inr_iff
    by (simp add: ex_verifier_def)
qed

lemma signature_number: "from_bytes signature_bytes = 2 ^ 683"
proof -
  have "from_bytes signature_bytes = 8 * 256 ^ 85"
    unfolding signature_bytes_def from_bytes_append from_bytes_zeros by (simp add: from_bytes_def)
  also have "\<dots> = 2 ^ 3 * 2 ^ (8 * 85)" using power_mult [of "2::nat" 8 85] by simp
  also have "\<dots> = 2 ^ 683" using power_add [of "2::nat" 3 680] by simp
  finally show ?thesis .
qed

lemma ex_proof_verifies:
  assumes "cd_sha256 cd message = ex_digest"
  shows "verify_late_return_proof cd ex_verifier message ex_proof"
proof -
  have bytes: "\<forall>b \<in> set signature_bytes. b < 256" "length signature_bytes = 257" "signature_bytes \<noteq> []"
    by (auto simp: signature_bytes_def)
  have "signature_shape (concat (map hex_byte signature_bytes))" using bytes by (intro hex_bytes_shape)
  then have decode: "decode_late_return_proof ex_proof = Inr (lv_key_id ex_verifier, concat (map hex_byte signature_bytes))"
    using ex_key_shape unfolding decode_proof_Inr_iff ex_proof_def by (simp add: ex_verifier_def until_dollar_def)
  have n: "modulus_int ex_verifier = ex_modulus"
    using strip_hex [OF hex_text_hex] by (simp add: modulus_int_def ex_verifier_def hex_int_text)
  have small: "2 ^ 683 < ex_modulus"
  proof -
    have "(2::nat) ^ 683 < 2 ^ 2048" by (intro power_strict_increasing) simp_all
    also have "2 ^ 2048 \<le> ex_modulus" using bit_length_ge [of 2049 ex_modulus] ex_modulus_facts(2) by simp
    finally show ?thesis .
  qed
  have "(2 ^ 683) ^ nat (lv_public_exponent ex_verifier) = (2::nat) ^ (683 * 3)"
    unfolding power_mult by (simp add: ex_verifier_def)
  also have "\<dots> = ex_modulus + padded_number" using ex_modulus_facts(4) by simp
  finally have "(2 ^ 683) ^ nat (lv_public_exponent ex_verifier) mod ex_modulus = padded_number"
    using ex_modulus_facts(3) by simp
  moreover have "\<forall>b \<in> set (padded_digest 257 ex_digest). b < 256" "length (padded_digest 257 ex_digest) = 257"
    unfolding padded_bytes using digest_info_bytes by auto
  then have "to_bytes 257 padded_number = padded_digest 257 ex_digest"
    using to_from_bytes [of "padded_digest 257 ex_digest"] by (simp add: padded_number_def)
  moreover have "length (digest_info_prefix @ ex_digest) + 11 \<le> 257"
    by (simp add: ex_digest_def)
  ultimately show ?thesis
    unfolding verify_proof_iff n signature_number
    using decode bytes_fromhex_text [OF bytes(1)] bytes(2) ex_modulus_facts(2) small signature_number assms
    by (intro exI [of _ "concat (map hex_byte signature_bytes)"] exI [of _ signature_bytes]) simp
qed

end
