(* ===== verification/RuntimeExamples.thy ===== *)
theory RuntimeExamples
  imports LateExamples
begin

text \<open>
  One background attempt from admission to its meter record, with a return the external
  signer of \<open>LateExamples\<close> proved: the inputs the witnesses use.
\<close>

section \<open>A codec\<close>

definition reply_tree :: "string \<Rightarrow> json" where
  "reply_tree provider = JObject [
     (''capability_calls'', JArray []),
     (''provenance'', JObject [(''model'', JScalar (PStr ''m'')), (''provider'', JScalar (PStr provider)),
        (''request_id'', JScalar (PStr ''r''))]),
     (''response'', JScalar (PStr ''hello'')), (''silence'', JScalar (PBool False)),
     (''usage'', JScalar PNone)]"

text \<open>The texts \<open>''x''\<close>, \<open>''y''\<close> and \<open>''z''\<close> are replies of three providers; the name of the last is padded.\<close>

definition ex_codec :: codec where
  "ex_codec = \<lparr>cd_dumps = (\<lambda>_. ''x''),
     cd_loads = (\<lambda>t. Some (reply_tree (if t = ''x'' then ''p'' else if t = ''y'' then ''q'' else '' p''))),
     cd_sha256 = (\<lambda>_. ex_digest)\<rparr>"

lemma ex_codec_sel [simp]: "cd_dumps ex_codec v = ''x''" "cd_sha256 ex_codec t = ex_digest"
  by (simp_all add: ex_codec_def)

lemma ex_sha256: "sha256_codec ex_codec"
  by (simp add: sha256_codec_def ex_digest_def)

definition ex_directive :: "string \<Rightarrow> model_directive" where
  "ex_directive provider = \<lparr>md_capability_calls = [], md_response = Some ''hello'', md_silence = False,
     md_usage = None, md_provenance = Some \<lparr>mp_provider = provider, mp_model = ''m'', mp_request_id = ''r''\<rparr>\<rparr>"

definition ex_fingerprint :: string where
  "ex_fingerprint = hexdigest ex_codec []"

definition ex_response :: "string \<Rightarrow> response_identity" where
  "ex_response provider = \<lparr>rp_provider = provider, rp_model = ''m'', rp_provider_request_id = ''r'',
     rp_response_fingerprint = ex_fingerprint, rp_payload_sha256 = ex_fingerprint\<rparr>"

lemma ex_hexdigest: "hexdigest ex_codec t = ex_fingerprint"
  by (simp add: ex_fingerprint_def hexdigest_def)

lemma ex_decode: "decode_model_directive ex_codec ''x'' = Inr (ex_directive ''p'')"
  "decode_model_directive ex_codec ''y'' = Inr (ex_directive ''q'')"
  "decode_model_directive ex_codec ''z'' = Inr (ex_directive '' p'')"
  by code_simp+

lemma ex_fingerprint_of: "response_fingerprint ex_codec (ex_directive provider) = Inr ex_fingerprint"
  unfolding response_fingerprint_Inr_iff encode_Inr_iff
  by (simp add: ex_hexdigest ex_directive_def directive_payload_def encode_usage_def encode_provenance_def
      py_opt_str_def depth_error_def max_canonical_depth_def)

lemma ex_identity: "full_identity (ex_directive provider) = Some (provider, ''m'', ''r'')"
  by (simp add: full_identity_def provider_identity_def ex_directive_def)

lemma ex_late_response:
  "decode_model_directive ex_codec t = Inr (ex_directive provider) \<Longrightarrow>
    late_response ex_codec t = Inr (ex_response provider)"
  using ex_identity by (simp add: late_response_Inr_iff ex_fingerprint_of ex_hexdigest ex_response_def)

lemmas ex_late = ex_late_response [OF ex_decode(1)] ex_late_response [OF ex_decode(2)]
  ex_late_response [OF ex_decode(3)]

section \<open>Admission, dispatch, return\<close>

definition ex_work :: work_identity where
  "ex_work = \<lparr>wi_subject_id = ''s'', wi_work_kind = WkUserTurn,
     wi_work_id = ''turnexec_'' @ take 32 ex_fingerprint, wi_model_round_index = 0\<rparr>"

definition ex_id :: string where
  "ex_id = attempt_id_for ex_codec ex_work"

definition at_second :: "int \<Rightarrow> datetime" where
  "at_second n = utc_datetime (1000000 * n)"

definition ex_admitted :: attempt where
  "ex_admitted = new_attempt ex_id ex_work ''why'' 0 Admitted 0"

definition ex_db1 :: runtime_db where
  "ex_db1 = \<lparr>rd_attempts = (empty_attempts None)\<lparr>as_attempts := [ex_admitted]\<rparr>, rd_metering = []\<rparr>"

lemma at_second_utc [simp]: "0 \<le> n \<Longrightarrow> n \<le> 1000 \<Longrightarrow> as_utc (at_second n) f = Inr (1000000 * n)"
  unfolding at_second_def by (rule as_utc_roundtrip) (simp_all add: max_instant_def)

lemma ex_id_nonempty [simp]: "ex_id \<noteq> []"
  by (simp add: ex_id_def attempt_id_for_def)

lemma ex_readable: "readable ex_admitted"
  by (simp add: readable_def ex_admitted_def new_attempt_def ex_work_def)

lemma find_row_single: "find_row key k [r] = (if key r = k then Some r else None)"
  by (simp add: find_row_def)

lemma ex_admit: "admit ex_codec ex_work ''why'' 0 (at_second 0) (rd_attempts empty_runtime)
    = (Inr ex_admitted, rd_attempts ex_db1)"
proof -
  have ins: "insert_attempt (new_attempt ex_id ex_work ''why'' 0 Admitted 0) (rd_attempts empty_runtime)
      = rd_attempts ex_db1"
    by (simp add: insert_attempt_def insert_or_ignore_def empty_runtime_def empty_attempts_def ex_db1_def
        ex_admitted_def ex_work_def new_attempt_def)
  have "get_attempt (rd_attempts ex_db1) ex_id = Inr (Some ex_admitted)"
    using ex_readable by (simp add: get_attempt_Some attempt_row_def ex_db1_def find_row_single)
      (simp add: ex_admitted_def)
  then show ?thesis using ins
    by (simp add: admit_def at_moment_def ex_id_def [symmetric] Let_def fits_int64_def sqlite_int64_max_def
        ex_work_def [THEN arg_cong [where f = wi_model_round_index]])
      (simp add: ex_admitted_def new_attempt_def)
qed

definition ex_db2 :: runtime_db where
  "ex_db2 = ex_db1\<lparr>rd_attempts := dispatched ex_codec ex_admitted ''fp'' (Some ex_verifier) 1000000 (rd_attempts ex_db1)\<rparr>"

lemma ex_row1: "attempt_row (rd_attempts ex_db1) ex_id = Some ex_admitted"
  by (simp add: attempt_row_def ex_db1_def find_row_single) (simp add: ex_admitted_def)

lemma ex_free1: "binding_row (rd_attempts ex_db1) k = None" "return_verifier_row (rd_attempts ex_db1) k = None"
  "receipt_row (rd_attempts ex_db1) k = None" "handoff_row (rd_attempts ex_db1) k = None"
  "staged_response (rd_attempts ex_db1) k = None" "as_capabilities (rd_attempts ex_db1) = None"
  by (simp_all add: ex_db1_def empty_attempts_def binding_row_def return_verifier_row_def receipt_row_def
      handoff_row_def staged_response_def)

definition ex_dispatched :: attempt where
  "ex_dispatched = ex_admitted\<lparr>at_state := Dispatching, at_updated_at := 1000000\<rparr>"

lemma ex_row2: "attempt_row (rd_attempts ex_db2) ex_id = Some ex_dispatched"
  using ex_row1 by (simp add: ex_db2_def dispatched_attempt ex_dispatched_def)
    (simp add: ex_admitted_def new_attempt_def)

lemma ex_dispatch: "mark_dispatching ex_codec ex_id (at_second 1) ''fp'' (Some ex_verifier) (rd_attempts ex_db1)
    = (Inr ex_dispatched, rd_attempts ex_db2)"
proof -
  have fp: "\<not> blank ''fp''" "py_strip ''fp'' = ''fp''" by code_simp+
  have exp: "fits_int64 (lv_public_exponent ex_verifier)"
    by (simp add: ex_verifier_def fits_int64_def sqlite_int64_max_def)
  have arts: "durable_submission_artifacts (rd_attempts ex_db1) ex_id = []"
    by (simp add: artifacts_Nil_iff ex_free1)
  have adm: "at_state ex_admitted = Admitted" "at_attempt_id ex_admitted = ex_id"
    by (simp_all add: ex_admitted_def)
  have db2: "rd_attempts ex_db2 = (update_attempt ex_id {Admitted} (\<lambda>a. a\<lparr>at_state := Dispatching, at_updated_at := 1000000\<rparr>)
        (rd_attempts ex_db1))
       \<lparr>as_bindings := as_bindings (rd_attempts ex_db1) @ [\<lparr>rb_scope = bound_scope ex_codec ex_admitted ''fp'', rb_bound_at = 1000000\<rparr>],
        as_verifiers := as_verifiers (rd_attempts ex_db1) @ [\<lparr>vr_scope = bound_scope ex_codec ex_admitted ''fp'',
          vr_verifier = ex_verifier, vr_bound_at = 1000000, vr_consumed_at = None\<rparr>]\<rparr>"
    by (simp add: ex_db2_def dispatched_def adm)
  have "readable ex_dispatched" using ex_readable by (simp add: ex_dispatched_def)
  then have "reread (rd_attempts ex_db2) ex_id Inr = (Inr ex_dispatched, rd_attempts ex_db2)"
    using ex_row2 by (rule reread_readable [rotated])
  then show ?thesis using fp exp arts adm ex_row1 ex_readable
    by (simp add: mark_dispatching_def at_moment_def with_attempt_def get_attempt_def from_row_def Let_def db2)
qed

definition ex_verifier_row :: verifier_row where
  "ex_verifier_row = \<lparr>vr_scope = bound_scope ex_codec ex_admitted ''fp'', vr_verifier = ex_verifier,
     vr_bound_at = 1000000, vr_consumed_at = None\<rparr>"

lemma ex_verifier_row2: "return_verifier_row (rd_attempts ex_db2) ex_id = Some ex_verifier_row"
  by (simp add: ex_db2_def ex_free1 ex_verifier_row_def) (simp add: ex_admitted_def)

lemma ex_step1: "runtime_step ex_codec empty_runtime ex_db1"
proof -
  have "runtime_step ex_codec empty_runtime (on_attempts (admit ex_codec ex_work ''why'' 0 (at_second 0)) empty_runtime)"
    by (rule step_admit)
  then show ?thesis by (simp add: on_attempts_def ex_admit) (simp add: empty_runtime_def ex_db1_def)
qed

lemma ex_steps1: "runtime_steps ex_codec empty_runtime ex_db1"
  using ex_step1 by (blast intro: runtime_steps_step)

lemma ex_steps2: "runtime_steps ex_codec empty_runtime ex_db2"
proof -
  have "runtime_step ex_codec ex_db1
      (on_attempts (mark_dispatching ex_codec ex_id (at_second 1) ''fp'' (Some ex_verifier)) ex_db1)"
    by (rule step_dispatch)
  then have "runtime_step ex_codec ex_db1 ex_db2"
    by (simp add: on_attempts_def ex_dispatch) (simp add: ex_db2_def)
  with ex_steps1 show ?thesis by (rule runtime_steps_step)
qed

lemma ex_inv1: "runtime_inv ex_codec ex_db1"
  using reachable_inv [OF ex_steps1] .

lemma ex_inv2: "attempt_inv ex_codec (rd_attempts ex_db2)"
  using reachable_inv [OF ex_steps2] by (simp add: runtime_inv_def)

lemma ex_dispatched_facts: "readable ex_dispatched" "at_state ex_dispatched \<in> stagable"
  using ex_readable by (simp_all add: ex_dispatched_def stagable_def)

lemma ex_proof_text: "py_strip ex_proof = ex_proof" "\<not> blank ex_proof"
proof -
  have "signature_shape (concat (map hex_byte signature_bytes))"
    by (intro hex_bytes_shape) (auto simp: signature_bytes_def)
  then have "list_all (\<lambda>c. \<not> py_isspace c) (concat (map hex_byte signature_bytes))"
    using hex_not_space by (auto simp: signature_shape_def list_all_iff)
  moreover have "list_all (\<lambda>c. \<not> py_isspace c) (proof_prefix @ ''k1'' @ '':'')" by code_simp
  ultimately have plain: "list_all (\<lambda>c. \<not> py_isspace c) ex_proof" by (simp add: ex_proof_def)
  then show "py_strip ex_proof = ex_proof" by (rule strip_id)
  have "ex_proof \<noteq> []" by (simp add: ex_proof_def)
  with plain show "\<not> blank ex_proof" by (auto simp: blank_iff list_all_iff neq_Nil_conv)
qed

lemma ex_signed: "verify_late_return_proof ex_codec ex_verifier
    (late_return_message ex_codec (vr_scope ex_verifier_row) r) (py_strip ex_proof)"
  by (simp add: ex_proof_text ex_proof_verifies)

lemma ex_no_receipts: "as_receipts (rd_attempts ex_db2) = []"
  by (simp add: ex_db2_def dispatched_def ex_db1_def empty_attempts_def update_attempt_def)

definition ex_db3 :: runtime_db where
  "ex_db3 = ex_db2\<lparr>rd_attempts := adopted ex_codec ex_verifier_row (ex_response ''p'') ''x'' 2000000 (rd_attempts ex_db2)\<rparr>"

lemma ex_vr_sel [simp]: "vr_verifier ex_verifier_row = ex_verifier" "sc_attempt_id (vr_scope ex_verifier_row) = ex_id"
  by (simp_all add: ex_verifier_row_def ex_admitted_def)

lemma ex_attach: "attach_transaction ex_codec ex_id 2000000 (ex_response ''p'') ''x'' ex_proof (rd_attempts ex_db2)
    = (Inr (receipt_proof ex_codec (vr_scope ex_verifier_row) (ex_response ''p'')), rd_attempts ex_db3)"
  using attach_transaction_adopts [OF ex_inv2 ex_row2 ex_dispatched_facts ex_verifier_row2 _ ex_signed]
    ex_verifier_valid ex_no_receipts by (simp add: ex_db3_def)

lemma ex_steps3: "runtime_steps ex_codec ex_db2 ex_db3"
proof -
  have "runtime_step ex_codec ex_db2
      (on_attempts (attach_transaction ex_codec ex_id 2000000 (ex_response ''p'') ''x'' ex_proof) ex_db2)"
    by (rule step_attach [OF ex_late(1)])
  then have "runtime_step ex_codec ex_db2 ex_db3"
    by (simp add: on_attempts_def ex_attach) (simp add: ex_db3_def)
  then show ?thesis by (blast intro: runtime_steps_step)
qed

lemma ex_reach3: "runtime_steps ex_codec empty_runtime ex_db3"
  using ex_steps2 ex_steps3 by (auto simp: runtime_steps_def)

lemma ex_inv3: "attempt_inv ex_codec (rd_attempts ex_db3)" "runtime_inv ex_codec ex_db3"
  using reachable_inv [OF ex_reach3] by (simp_all add: runtime_inv_def)

definition ex_receipt :: receipt where
  "ex_receipt = \<lparr>rc_scope = vr_scope ex_verifier_row, rc_response = ex_response ''p'',
     rc_authenticity_proof = receipt_proof ex_codec (vr_scope ex_verifier_row) (ex_response ''p''),
     rc_captured_at = 2000000\<rparr>"

lemma ex_rows3: "receipt_row (rd_attempts ex_db3) ex_id = Some ex_receipt"
  "attempt_row (rd_attempts ex_db3) ex_id = Some ex_dispatched"
  "staged_response (rd_attempts ex_db3) ex_id = None"
  by (simp_all add: ex_db3_def adopted_lookups ex_row2 ex_receipt_def)
    (simp_all add: ex_db2_def ex_free1)

definition ex_staged :: staging where
  "ex_staged = \<lparr>sg_attempt_id = ex_id, sg_response = ex_response ''p'', sg_directive_payload = ''x'',
     sg_authenticity_proof = Some (rc_authenticity_proof ex_receipt), sg_staged_at = 3000000, sg_evidence = ''e''\<rparr>"

definition ex_db4 :: runtime_db where
  "ex_db4 = ex_db3\<lparr>rd_attempts := close_round ex_id ex_dispatched (ex_response ''p'') 3000000 ''e''
     (insert_response ex_staged (rd_attempts ex_db3))\<rparr>"

lemma ex_stage: "stage_exact_response ex_codec ex_id (at_second 3) ''p'' ''m'' ''r'' ex_fingerprint ''x''
    (Some (rc_authenticity_proof ex_receipt)) ''e'' (rd_attempts ex_db3) = (Inr ex_staged, rd_attempts ex_db4)"
proof -
  note ps = receipt_proof_text [OF ex_sha256, of "vr_scope ex_verifier_row" "ex_response ''p''"]
  have "py_strip ''p'' = ''p''" "py_strip ''m'' = ''m''" "py_strip ''r'' = ''r''" by code_simp+
  then have "unpadded (ex_response ''p'')" by (simp add: unpadded_def ex_response_def)
  moreover have "\<not> blank ''x''" "\<not> blank ''e''" "py_strip ''e'' = ''e''" by code_simp+
  ultimately have pad: "unpadded (ex_response ''p'')" "\<not> blank ''x''" "\<not> blank ''e''" "py_strip ''e'' = ''e''"
    by blast+
  have "stage_transaction ex_codec 3000000 (ex_response ''p'') ex_staged (rd_attempts ex_db3)
      = (Inr ex_staged, rd_attempts ex_db4)"
    using stage_over_receipt [OF ex_inv3(1) ex_rows3(2) ex_dispatched_facts ex_rows3(1), of ex_staged 3000000]
      ps ex_rows3(3) by (simp add: ex_staged_def ex_receipt_def ex_db4_def)
  then show ?thesis
    using stage_exact_run [OF ex_sha256 ex_late(1) pad(1-3) at_second_utc [of 3] ps(3,2), of ex_id "rd_attempts ex_db3"]
      pad(4) by (simp add: ex_staged_def ex_receipt_def ex_response_def)
qed

lemma ex_steps4: "runtime_steps ex_codec ex_db3 ex_db4"
proof -
  have "runtime_step ex_codec ex_db3 (on_attempts (stage_exact_response ex_codec ex_id (at_second 3) ''p'' ''m''
      ''r'' ex_fingerprint ''x'' (Some (rc_authenticity_proof ex_receipt)) ''e'') ex_db3)"
    by (rule step_stage)
  then have "runtime_step ex_codec ex_db3 ex_db4" by (simp add: on_attempts_def ex_stage) (simp add: ex_db4_def)
  then show ?thesis by (blast intro: runtime_steps_step)
qed

lemma ex_reach4: "runtime_steps ex_codec empty_runtime ex_db4"
  using ex_reach3 ex_steps4 by (auto simp: runtime_steps_def)

lemma ex_inv4: "attempt_inv ex_codec (rd_attempts ex_db4)" "runtime_inv ex_codec ex_db4"
  using reachable_inv [OF ex_reach4] by (simp_all add: runtime_inv_def)

lemma ex_staged4: "staged_response (rd_attempts ex_db4) ex_id = Some ex_staged"
  using ex_rows3(3) by (simp add: ex_db4_def ex_staged_def)

section \<open>Metering\<close>

definition ex_usage :: model_usage where
  "ex_usage = \<lparr>mu_total_tokens = 7, mu_input_tokens = Some 4, mu_output_tokens = Some 3,
     mu_reasoning_tokens = None, mu_cached_input_tokens = None, mu_provider = Some ''p'',
     mu_model = Some ''m'', mu_request_id = Some ''r''\<rparr>"

definition ex_meter :: metering_record where
  "ex_meter = metering_record_of ex_codec [] ''s'' 1 4000000 EcBackground ''why'' 0 (Some ex_usage) None
     (Some ''w'') None (Some ex_id)"

definition ex_db5 :: runtime_db where
  "ex_db5 = \<lparr>rd_attempts = close_attempt ex_id (mr_record_id ex_meter) 4000000 (rd_attempts ex_db4),
     rd_metering = [ex_meter]\<rparr>"

lemma ex_returned4:
  obtains a where "attempt_row (rd_attempts ex_db4) ex_id = Some a" "at_work a = ex_work"
    "at_state a = ResponseReturned" "at_meter_record_id a = None" "at_attempt_id a = ex_id"
    "provenance_of a = response_provenance (ex_response ''p'')"
proof -
  have "attempt_row (insert_response ex_staged (rd_attempts ex_db3)) ex_id = Some ex_dispatched"
    using ex_rows3(2) by simp
  then obtain a where "attempt_row (rd_attempts ex_db4) ex_id = Some a" "closed_row ex_dispatched (ex_response ''p'') a"
    using close_round_row(1) [OF _ ex_dispatched_facts(2)] by (fastforce simp: ex_db4_def)
  with that show ?thesis
    by (auto simp: closed_row_def ex_dispatched_def ex_admitted_def new_attempt_def)
qed

lemma ex_meter_sel: "mr_background_attempt_id ex_meter = Some ex_id" "mr_subject_id ex_meter = ''s''"
  "mr_wake_id ex_meter = Some ''w''" "mr_model_round_index ex_meter = 0" "mr_recorded_at ex_meter = 4000000"
  "metering_fits ex_meter"
  by (simp_all add: ex_meter_def metering_record_of_def Let_def metering_fits_def ex_usage_def fits_int64_def
      sqlite_int64_max_def int64_option_def)

lemma ex_rows4: "rd_metering ex_db4 = []"
  by (simp add: ex_db4_def ex_db3_def ex_db2_def ex_db1_def)

lemma ex_metered: "meter_transaction ex_meter ex_db4 = (Inr ex_meter, ex_db5)"
proof -
  obtain a where a: "attempt_row (rd_attempts ex_db4) ex_id = Some a" "at_work a = ex_work"
    "at_state a = ResponseReturned" "at_meter_record_id a = None" "at_attempt_id a = ex_id"
    by (rule ex_returned4)
  have admits: "attempt_admits (rd_attempts ex_db4) ex_meter = None"
    using a by (simp add: attempt_admits_def ex_meter_sel ex_work_def)
  have "attempt_closed (close_attempt ex_id (mr_record_id ex_meter) 4000000 (rd_attempts ex_db4)) ex_id (mr_record_id ex_meter)"
    using a by (simp add: attempt_closed_iff close_attempt_row)
  then show ?thesis using admits
    by (simp add: meter_transaction_def ex_meter_sel ex_rows4 insert_metering_def insert_or_ignore_def
        find_row_single same_call_def Let_def ex_db5_def)
qed

lemma ex_record: "record_model_call ex_codec [] ''s'' 1 (at_second 4) EcBackground ''why'' 0 (Some ex_usage) None
    (Some ''w'') None (Some ex_id) ex_db4 = (Inr ex_meter, ex_db5)"
proof -
  have "mr_record_id ex_meter \<noteq> []"
    by (simp add: ex_meter_def metering_record_of_def Let_def record_id_for_def)
  moreover have "\<not> some_blank (Some ex_id)"
  proof -
    have "ex_id = CHR ''b'' # tl ex_id" by (simp add: ex_id_def attempt_id_for_def)
    moreover have "\<not> py_isspace (CHR ''b'')" by code_simp
    ultimately show ?thesis by (metis blank_Cons some_blank_def option.simps(5))
  qed
  moreover have "\<not> some_blank (Some ''w'')" "\<not> some_blank (Some ''p'')" "\<not> some_blank (Some ''m'')"
    "\<not> some_blank (Some ''r'')" by code_simp+
  ultimately have "first_raise (metering_guards ex_meter) = None"
    by (simp add: metering_guards_def ex_meter_def metering_record_of_def Let_def ex_usage_def some_negative_def
        or_str_def) (simp add: some_blank_def)
  then show ?thesis using ex_metered
    by (simp add: record_model_call_def usage_conflicts_def raising_def ex_meter_def [symmetric])
qed

lemma ex_steps5: "runtime_steps ex_codec ex_db4 ex_db5"
proof -
  have "runtime_step ex_codec ex_db4 (snd (record_model_call ex_codec [] ''s'' 1 (at_second 4) EcBackground ''why'' 0
      (Some ex_usage) None (Some ''w'') None (Some ex_id) ex_db4))"
    by (rule step_meter)
  then have "runtime_step ex_codec ex_db4 ex_db5" by (simp add: ex_record)
  then show ?thesis by (blast intro: runtime_steps_step)
qed

lemma ex_reach5: "runtime_steps ex_codec empty_runtime ex_db5"
  using ex_reach4 ex_steps5 by (auto simp: runtime_steps_def)

end
