(* ===== verification/TurnExec.thy ===== *)
theory TurnExec
  imports Metering
begin

text \<open>
  runtime/turn_execution.py: the durable claim of a user turn. A row is claimed before the
  turn has side effects; a second run needs a retry that an operator authorizes from the
  attempts ledger, and durable assistant output completes the turn without a run. The store
  reads the attempts tables and the object table of the same database file, so its state
  holds all three; the tables exist. A transaction that raises is rolled back, except that a
  claim that finds output commits the completion before it raises.
\<close>

section \<open>Rows and results\<close>

datatype turn_state = TurnStarted | TurnCompleted

record turn_key =
  tk_subject_id :: string
  tk_session_id :: string
  tk_turn_index :: int

record turn_row =
  tx_key :: turn_key
  tx_input_hash :: string
  tx_state :: turn_state
  tx_attempt_protocol :: "string option"
  tx_retry_authorized :: bool
  tx_retry_count :: int
  tx_reconciliation_evidence :: "string option"

text \<open>What a caller repeats with every call: the turn, its input, and where its output goes.\<close>

record turn_request =
  tq_key :: turn_key
  tq_user_input :: string
  tq_occurred_at :: string
  tq_assistant_id :: string

record 'h turn_db =
  td_turns :: "turn_row list"
  td_runtime :: runtime_db
  td_world :: "'h world_store"

datatype turn_error =
    TurnInputConflict "object_ref option"
  | TurnAlreadyCompleted string "object_ref option"
  | TurnInDoubt string "object_ref option"
  | TurnArgument string
  | TurnOverflow
  | NoMatchingClaim

datatype turn_disposition =
  NotStarted | DoneTurn | SafeToRetry | RetryAuthorized | TurnDoubtful | ExactResponseReady

record turn_status =
  ts_execution_id :: string
  ts_state :: string
  ts_recovery_disposition :: turn_disposition
  ts_assistant_ref :: "object_ref option"
  ts_attempt_ids :: "string list"
  ts_attempt_states :: "attempt_state list"
  ts_retry_authorized :: bool
  ts_retry_count :: int
  ts_reconciliation_evidence :: "string option"

type_synonym ('h, 'r) turn_result = "(turn_error + 'r) \<times> 'h turn_db"

definition pre_attempt_protocol :: string where
  "pre_attempt_protocol = ''model_attempt_pre_admission_v1''"

definition model_attempt_protocol :: string where
  "model_attempt_protocol = ''model_attempt_v1''"

section \<open>What the transactions read\<close>

definition execution_id_for :: "codec \<Rightarrow> turn_key \<Rightarrow> string" where
  "execution_id_for cd k = ''turnexec_'' @ take 32 (hexdigest cd (cd_dumps cd (PList
     [PStr (tk_subject_id k), PStr (tk_session_id k), PInt (tk_turn_index k)])))"

definition input_hash :: "codec \<Rightarrow> turn_request \<Rightarrow> string" where
  "input_hash cd q = hexdigest cd (cd_dumps cd (PList [PStr (tq_user_input q), PStr (tq_occurred_at q)]))"

definition assistant_ref :: "'h turn_db \<Rightarrow> string \<Rightarrow> object_ref option" where
  "assistant_ref db assistant_id =
     map_option (\<lambda>r. oref assistant_id (Some r)) (latest_revision (td_world db) assistant_id)"

definition turn_of :: "'h turn_db \<Rightarrow> turn_key \<Rightarrow> turn_row option" where
  "turn_of db k = List.find (\<lambda>r. tx_key r = k) (td_turns db)"

definition turn_attempts :: "codec \<Rightarrow> 'h turn_db \<Rightarrow> turn_key \<Rightarrow> attempt list" where
  "turn_attempts cd db k = sort_key (\<lambda>a. wi_model_round_index (at_work a))
     (filter (\<lambda>a. wi_subject_id (at_work a) = tk_subject_id k \<and> wi_work_kind (at_work a) = WkUserTurn
        \<and> wi_work_id (at_work a) = execution_id_for cd k) (as_attempts (rd_attempts (td_runtime db))))"

text \<open>The newest round that has a staged response, when its attempt has the response too.\<close>

definition staged_exact_response_attempt_id :: "codec \<Rightarrow> 'h turn_db \<Rightarrow> turn_key \<Rightarrow> string option" where
  "staged_exact_response_attempt_id cd db k =
     (case rev (filter (\<lambda>a. staged_response (rd_attempts (td_runtime db)) (at_attempt_id a) \<noteq> None)
             (turn_attempts cd db k)) of
        [] \<Rightarrow> None
      | a # _ \<Rightarrow> if at_state a \<in> {ResponseReturned, Metered} then Some (at_attempt_id a) else None)"

definition unsent_states :: "attempt_state set" where
  "unsent_states = {Admitted, NotSubmitted}"

definition disposition ::
    "turn_row \<Rightarrow> object_ref option \<Rightarrow> attempt_state list \<Rightarrow> string option \<Rightarrow> turn_disposition" where
  "disposition row ref states exact_attempt_id =
     (if tx_state row = TurnCompleted \<or> ref \<noteq> None then DoneTurn
      else if tx_retry_authorized row then RetryAuthorized
      else if states \<noteq> [] then
        (if tx_attempt_protocol row \<notin> {Some pre_attempt_protocol, Some model_attempt_protocol}
         then TurnDoubtful
         else if list_all (\<lambda>s. s \<in> unsent_states) states then SafeToRetry
         else if exact_attempt_id \<noteq> None then ExactResponseReady
         else TurnDoubtful)
      else if tx_attempt_protocol row = Some pre_attempt_protocol then SafeToRetry
      else TurnDoubtful)"

section \<open>Operations\<close>

text \<open>SQLite binds 64-bit integers; a claimed turn is only read by the input that claimed it.\<close>

definition with_key :: "turn_key \<Rightarrow> 'h turn_db \<Rightarrow> ('h, 'r) turn_result \<Rightarrow> ('h, 'r) turn_result" where
  "with_key k db run = (if fits_int64 (tk_turn_index k) then run else (Inl TurnOverflow, db))"

definition validate_input ::
    "codec \<Rightarrow> turn_request \<Rightarrow> turn_row \<Rightarrow> object_ref option \<Rightarrow> turn_error option" where
  "validate_input cd q row ref =
     (if tx_input_hash row \<noteq> input_hash cd q then Some (TurnInputConflict ref) else None)"

definition blank_status :: "string \<Rightarrow> string \<Rightarrow> turn_disposition \<Rightarrow> object_ref option \<Rightarrow> turn_status" where
  "blank_status execution_id state d ref = \<lparr>ts_execution_id = execution_id, ts_state = state,
     ts_recovery_disposition = d, ts_assistant_ref = ref, ts_attempt_ids = [], ts_attempt_states = [],
     ts_retry_authorized = False, ts_retry_count = 0, ts_reconciliation_evidence = None\<rparr>"

definition inspect_turn :: "codec \<Rightarrow> turn_request \<Rightarrow> 'h turn_db \<Rightarrow> turn_error + turn_status" where
  "inspect_turn cd q db =
     (let k = tq_key q;
          execution_id = execution_id_for cd k;
          ref = assistant_ref db (tq_assistant_id q)
      in if \<not> fits_int64 (tk_turn_index k) then Inl TurnOverflow
         else case turn_of db k of
           None \<Rightarrow> Inr (if ref \<noteq> None
             then blank_status execution_id ''legacy_output_present'' DoneTurn ref
             else blank_status execution_id ''not_started'' NotStarted None)
         | Some row \<Rightarrow>
            (case validate_input cd q row ref of
               Some e \<Rightarrow> Inl e
             | None \<Rightarrow>
                let attempts = turn_attempts cd db k in
                Inr \<lparr>ts_execution_id = execution_id,
                  ts_state = (case tx_state row of TurnStarted \<Rightarrow> ''started'' | TurnCompleted \<Rightarrow> ''completed''),
                  ts_recovery_disposition = disposition row ref (map at_state attempts)
                    (staged_exact_response_attempt_id cd db k),
                  ts_assistant_ref = ref, ts_attempt_ids = map at_attempt_id attempts,
                  ts_attempt_states = map at_state attempts,
                  ts_retry_authorized = tx_retry_authorized row, ts_retry_count = tx_retry_count row,
                  ts_reconciliation_evidence = tx_reconciliation_evidence row\<rparr>))"

text \<open>\<open>UPDATE \<dots> WHERE\<close> on the row of a turn: how many rows matched, and the tables after it.\<close>

definition matching :: "turn_key \<Rightarrow> (turn_row \<Rightarrow> bool) \<Rightarrow> 'h turn_db \<Rightarrow> nat" where
  "matching k p db = length (filter (\<lambda>r. tx_key r = k \<and> p r) (td_turns db))"

definition update_turn ::
    "turn_key \<Rightarrow> (turn_row \<Rightarrow> bool) \<Rightarrow> (turn_row \<Rightarrow> turn_row) \<Rightarrow> 'h turn_db \<Rightarrow> 'h turn_db" where
  "update_turn k p f db = db\<lparr>td_turns := update_rows (\<lambda>r. tx_key r = k \<and> p r) f (td_turns db)\<rparr>"

abbreviation started :: "turn_row \<Rightarrow> bool" where
  "started r \<equiv> tx_state r = TurnStarted"

definition claim :: "codec \<Rightarrow> turn_request \<Rightarrow> 'h turn_db \<Rightarrow> ('h, unit) turn_result" where
  "claim cd q db = with_key (tq_key q) db
     (let k = tq_key q; ref = assistant_ref db (tq_assistant_id q) in
      case turn_of db k of
        Some row \<Rightarrow>
          (case validate_input cd q row ref of
             Some e \<Rightarrow> (Inl e, db)
           | None \<Rightarrow>
              if tx_state row = TurnCompleted then (Inl (TurnAlreadyCompleted ''completed'' ref), db)
              else if ref \<noteq> None
              then (Inl (TurnAlreadyCompleted ''recovered_completed_output'' ref),
                    update_turn k started (\<lambda>r. r\<lparr>tx_state := TurnCompleted, tx_retry_authorized := False,
                      tx_reconciliation_evidence := (case tx_reconciliation_evidence r of
                        None \<Rightarrow> Some ''durable assistant output recovered during admission''
                      | Some e \<Rightarrow> Some e)\<rparr>) db)
              else if tx_retry_authorized row
              then (let p = (\<lambda>r. started r \<and> tx_retry_authorized r) in
                    if matching k p db \<noteq> 1 then (Inl (TurnInDoubt ''retry_authorization_race'' None), db)
                    else (Inr (), update_turn k p (\<lambda>r. r\<lparr>tx_retry_authorized := False,
                      tx_retry_count := tx_retry_count r + 1\<rparr>) db))
              else (Inl (TurnInDoubt ''started_or_interrupted'' ref), db))
      | None \<Rightarrow>
          if ref \<noteq> None then (Inl (TurnAlreadyCompleted ''legacy_output_present'' ref), db)
          else (Inr (), db\<lparr>td_turns := td_turns db @ [\<lparr>tx_key = k, tx_input_hash = input_hash cd q,
            tx_state = TurnStarted, tx_attempt_protocol = Some pre_attempt_protocol,
            tx_retry_authorized = False, tx_retry_count = 0, tx_reconciliation_evidence = None\<rparr>]\<rparr>))"

text \<open>The checks the later operations share: a claim of this input that has no output yet.\<close>

definition with_open_claim ::
    "codec \<Rightarrow> turn_request \<Rightarrow> 'h turn_db \<Rightarrow> (turn_row \<Rightarrow> ('h, 'r) turn_result) \<Rightarrow> ('h, 'r) turn_result" where
  "with_open_claim cd q db run = with_key (tq_key q) db
     (let ref = assistant_ref db (tq_assistant_id q) in
      case turn_of db (tq_key q) of
        None \<Rightarrow> (Inl (TurnInDoubt ''no_durable_execution_claim'' ref), db)
      | Some row \<Rightarrow>
          (case validate_input cd q row ref of
             Some e \<Rightarrow> (Inl e, db)
           | None \<Rightarrow>
              if tx_state row = TurnCompleted \<or> ref \<noteq> None
              then (Inl (TurnAlreadyCompleted ''completed_output_present'' ref), db)
              else run row))"

definition mark_initial_attempt_admitted ::
    "codec \<Rightarrow> turn_request \<Rightarrow> 'h turn_db \<Rightarrow> ('h, unit) turn_result" where
  "mark_initial_attempt_admitted cd q db = with_open_claim cd q db (\<lambda>row.
     let k = tq_key q; p = (\<lambda>r. started r \<and> tx_attempt_protocol r = Some pre_attempt_protocol) in
     if tx_attempt_protocol row = Some model_attempt_protocol then (Inr (), db)
     else if tx_attempt_protocol row \<noteq> Some pre_attempt_protocol
     then (Inl (TurnInDoubt ''unknown_attempt_protocol'' None), db)
     else if \<not> list_ex (\<lambda>a. wi_model_round_index (at_work a) = 0) (turn_attempts cd db k)
     then (Inl (TurnInDoubt ''initial_attempt_not_durable'' None), db)
     else if matching k p db \<noteq> 1
     then (Inl (TurnInDoubt ''attempt_protocol_promotion_race'' None), db)
     else (Inr (), update_turn k p (\<lambda>r. r\<lparr>tx_attempt_protocol := Some model_attempt_protocol\<rparr>) db))"

text \<open>The two authorizations and the reconciliation answer a new inspection after the commit.\<close>

definition inspected :: "codec \<Rightarrow> turn_request \<Rightarrow> 'h turn_db \<Rightarrow> ('h, turn_status) turn_result" where
  "inspected cd q db = (inspect_turn cd q db, db)"

definition authorize_exact_response_recovery ::
    "codec \<Rightarrow> turn_request \<Rightarrow> string \<Rightarrow> 'h turn_db \<Rightarrow> ('h, turn_status) turn_result" where
  "authorize_exact_response_recovery cd q evidence db =
     (if blank evidence then (Inl (TurnArgument ''exact-response recovery evidence must be non-blank''), db)
      else with_open_claim cd q db (\<lambda>row.
        let k = tq_key q in
        if tx_retry_authorized row
        then (Inl (TurnInDoubt ''retry_authorization_conflicts_with_exact_recovery'' None), db)
        else if staged_exact_response_attempt_id cd db k = None
        then (Inl (TurnInDoubt ''no_durable_exact_provider_response'' None), db)
        else if matching k started db \<noteq> 1
        then (Inl (TurnInDoubt ''exact_response_recovery_race'' None), db)
        else inspected cd q (update_turn k started
          (\<lambda>r. r\<lparr>tx_reconciliation_evidence := Some (py_strip evidence)\<rparr>) db)))"

definition provably_unsent :: "codec \<Rightarrow> 'h turn_db \<Rightarrow> turn_row \<Rightarrow> bool" where
  "provably_unsent cd db row \<longleftrightarrow>
     (let states = map at_state (turn_attempts cd db (tx_key row)) in
      tx_attempt_protocol row = Some pre_attempt_protocol \<and> states = []
      \<or> states \<noteq> [] \<and> tx_attempt_protocol row \<in> {Some pre_attempt_protocol, Some model_attempt_protocol}
        \<and> list_all (\<lambda>s. s \<in> unsent_states) states)"

definition authorize_retry ::
    "codec \<Rightarrow> turn_request \<Rightarrow> string \<Rightarrow> 'h turn_db \<Rightarrow> ('h, turn_status) turn_result" where
  "authorize_retry cd q evidence db =
     (if blank evidence then (Inl (TurnArgument ''retry authorization evidence must be non-blank''), db)
      else with_open_claim cd q db (\<lambda>row.
        if \<not> provably_unsent cd db row
        then (Inl (TurnInDoubt ''provider_execution_not_proven_absent'' None), db)
        else inspected cd q (update_turn (tq_key q) started
          (\<lambda>r. r\<lparr>tx_retry_authorized := True, tx_reconciliation_evidence := Some (py_strip evidence)\<rparr>) db)))"

definition reconcile_completed ::
    "codec \<Rightarrow> turn_request \<Rightarrow> string \<Rightarrow> 'h turn_db \<Rightarrow> ('h, turn_status) turn_result" where
  "reconcile_completed cd q evidence db =
     (if blank evidence then (Inl (TurnArgument ''completion reconciliation evidence must be non-blank''), db)
      else with_key (tq_key q) db
       (let k = tq_key q; ref = assistant_ref db (tq_assistant_id q) in
        case turn_of db k of
          None \<Rightarrow>
            if ref = None then (Inl (TurnInDoubt ''no_completion_receipt'' None), db)
            else (Inr ((blank_status (execution_id_for cd k) ''legacy_output_present'' DoneTurn ref)
                   \<lparr>ts_reconciliation_evidence := Some (py_strip evidence)\<rparr>), db)
        | Some row \<Rightarrow>
            (case validate_input cd q row ref of
               Some e \<Rightarrow> (Inl e, db)
             | None \<Rightarrow>
                if ref = None then (Inl (TurnInDoubt ''assistant_output_not_durable'' None), db)
                else inspected cd q (update_turn k (\<lambda>_. True) (\<lambda>r. r\<lparr>tx_state := TurnCompleted,
                  tx_retry_authorized := False, tx_reconciliation_evidence := Some (py_strip evidence)\<rparr>) db))))"

definition complete_turn :: "turn_key \<Rightarrow> 'h turn_db \<Rightarrow> ('h, unit) turn_result" where
  "complete_turn k db = with_key k db
     (if matching k started db \<noteq> 1 then (Inl NoMatchingClaim, db)
      else (Inr (), update_turn k started (\<lambda>r. r\<lparr>tx_state := TurnCompleted, tx_retry_authorized := False\<rparr>) db))"

end
