(* ===== verification/WorldCommit.thy ===== *)
theory WorldCommit
  imports Idempotency
begin

text \<open>
  The writing operations of storage/sqlite_store.py: \<open>commit\<close> with its idempotent replay,
  its checks in source order and its inserts, \<open>prune\<close>, \<open>replay_exact_operation\<close> and
  \<open>commit_or_replay\<close>. A transaction that raises is rolled back: its result is \<open>Inl\<close> and the
  store it leaves is the one it found. \<open>utc_now\<close> is the argument \<open>now\<close>; the string of a
  \<open>StoreError\<close> is the reason the code puts in the error's context, or the words of its
  message where the context has none.
\<close>

section \<open>Inserts under the constraints of the schema\<close>

definition integrity_error :: store_error where
  "integrity_error = StoreError EC_STORAGE_FAILURE ''sqlite_integrity_error''"

definition insert_commit :: "commit_row \<Rightarrow> 'h world_store \<Rightarrow> store_error + 'h world_store" where
  "insert_commit c st =
     (if \<not> fits_int64 (cm_world_revision c) then Inl IntegerOverflow
      else if list_ex (\<lambda>d. cm_world_revision d = cm_world_revision c
                   \<or> cm_operation_id d = cm_operation_id c) (ws_commits st)
      then Inl integrity_error
      else Inr (st\<lparr>ws_commits := ws_commits st @ [c]\<rparr>))"

definition insert_revision :: "revision_row \<Rightarrow> 'h world_store \<Rightarrow> store_error + 'h world_store" where
  "insert_revision r st =
     (if \<not> fits_int64 (rr_revision r) then Inl IntegerOverflow
      else if list_ex (\<lambda>q. row_key q = row_key r) (ws_revisions st)
        \<or> \<not> list_ex (\<lambda>c. cm_world_revision c = rr_world_revision r) (ws_commits st)
      then Inl integrity_error
      else Inr (st\<lparr>ws_revisions := ws_revisions st @ [r]\<rparr>))"

fun insert_revisions :: "revision_row list \<Rightarrow> 'h world_store \<Rightarrow> store_error + 'h world_store" where
  "insert_revisions [] st = Inr st"
| "insert_revisions (r # rs) st = result_bind (insert_revision r st) (insert_revisions rs)"

definition insert_operation :: "operation_row \<Rightarrow> 'h world_store \<Rightarrow> store_error + 'h world_store" where
  "insert_operation r st =
     (if list_ex (\<lambda>q. or_operation_id q = or_operation_id r
                   \<or> or_idempotency_key q = or_idempotency_key r) (ws_operations st)
      then Inl integrity_error
      else Inr (st\<lparr>ws_operations := ws_operations st @ [r]\<rparr>))"

definition insert_idempotency ::
    "'h idempotency_row \<Rightarrow> 'h world_store \<Rightarrow> store_error + 'h world_store" where
  "insert_idempotency r st =
     (if list_ex (\<lambda>q. ir_idempotency_key q = ir_idempotency_key r) (ws_idempotency st)
      then Inl integrity_error
      else Inr (st\<lparr>ws_idempotency := ws_idempotency st @ [r]\<rparr>))"

definition update_world_revision :: "int \<Rightarrow> 'h world_store \<Rightarrow> 'h world_store" where
  "update_world_revision w st =
     st\<lparr>ws_world_revision := map_option (\<lambda>_. MetaInt w) (ws_world_revision st)\<rparr>"

section \<open>Idempotent replay\<close>

definition find_idempotency :: "'h world_store \<Rightarrow> string \<Rightarrow> 'h idempotency_row option" where
  "find_idempotency st key = List.find (\<lambda>r. ir_idempotency_key r = key) (ws_idempotency st)"

definition original_fingerprint ::
    "(string \<Rightarrow> bool) \<Rightarrow> (identity_text \<Rightarrow> 'h) \<Rightarrow> operation_request \<Rightarrow> world_object list
       \<Rightarrow> 'h world_store \<Rightarrow> 'h idempotency_row \<Rightarrow> 'h fingerprint_cell \<Rightarrow> 'h
       \<Rightarrow> store_error + 'h \<times> 'h" where
  "original_fingerprint zones digest op objs st row cell incoming = (case cell of
     FingerprintText original \<Rightarrow> Inr (incoming, original)
   | FingerprintOther \<Rightarrow> Inl (StoreError EC_STORAGE_FAILURE ''corrupt_idempotency_fingerprint'')
   | FingerprintMissing \<Rightarrow>
      (case legacy_request_fingerprint zones digest op objs of
         Inl e \<Rightarrow> Inl (StoreError EC_IDEMPOTENCY_CONFLICT ''request_revalidation_failed'')
       | Inr legacy \<Rightarrow>
          (case stored_request_fingerprint digest st (ir_operation_id row) (ir_world_revision row) of
             None \<Rightarrow> Inl (StoreError EC_STORAGE_FAILURE ''corrupt_legacy_idempotency_state'')
           | Some original \<Rightarrow> Inr (legacy, original))))"

definition get_idempotent_result ::
    "(string \<Rightarrow> bool) \<Rightarrow> (identity_text \<Rightarrow> 'h) \<Rightarrow> operation_request \<Rightarrow> world_object list
       \<Rightarrow> 'h world_store \<Rightarrow> store_error + commit_result option" where
  "get_idempotent_result zones digest op objs st =
     (if op_idempotency_key op = []
      then Inl (StoreError EC_INVALID_ARGUMENT ''idempotency_key_revalidation_failed'')
      else case find_idempotency st (op_idempotency_key op) of
        None \<Rightarrow> Inr None
      | Some row \<Rightarrow>
         (case request_fingerprint zones digest op objs of
            Inl e \<Rightarrow> Inl (StoreError EC_IDEMPOTENCY_CONFLICT ''request_revalidation_failed'')
          | Inr incoming \<Rightarrow>
             (case ir_result row of
                ResultCorrupt \<Rightarrow> Inl (StoreError EC_STORAGE_FAILURE ''corrupt_idempotency_result'')
              | ResultData res cell \<Rightarrow>
                 result_bind (original_fingerprint zones digest op objs st row cell incoming)
                   (\<lambda>(incoming', original).
                 if incoming' \<noteq> original
                 then Inl (StoreError EC_IDEMPOTENCY_CONFLICT ''request_fingerprint_mismatch'')
                 else case res of
                   None \<Rightarrow> Inl (StoreError EC_STORAGE_FAILURE ''corrupt_idempotency_result'')
                 | Some r \<Rightarrow> Inr (Some (r\<lparr>cr_idempotent_replay := True\<rparr>))))))"

section \<open>The checks of a fresh commit\<close>

definition revalidate_operation :: "operation_request \<Rightarrow> store_error + operation_request" where
  "revalidate_operation op = (case normalize_operation op of
     Inl e \<Rightarrow> Inl (StoreError EC_INVALID_ARGUMENT ''operation_persistence_revalidation_failed'')
   | Inr op' \<Rightarrow> Inr op')"

definition revalidate_object :: "(string \<Rightarrow> bool) \<Rightarrow> world_object \<Rightarrow> store_error + world_object" where
  "revalidate_object zones ob = (case normalize_world_object zones ob of
     Inl e \<Rightarrow> Inl (StoreError EC_INVALID_ARGUMENT ''persistence_revalidation_failed'')
   | Inr ob' \<Rightarrow> Inr ob')"

text \<open>The JSON texts of the arguments and payloads, then the fingerprint.\<close>

definition durable_request ::
    "(string \<Rightarrow> bool) \<Rightarrow> (identity_text \<Rightarrow> 'h) \<Rightarrow> operation_request \<Rightarrow> world_object list
       \<Rightarrow> store_error + 'h" where
  "durable_request zones digest op objs =
     (case or_else (canonical_json_error (PDict (op_arguments op)) 0)
             (first_some (map payload_json_error objs)) of
        Some e \<Rightarrow> Inl (StoreError EC_INVALID_ARGUMENT ''durable_json_validation_failed'')
      | None \<Rightarrow>
         (case request_fingerprint zones digest op objs of
            Inl e \<Rightarrow> Inl (StoreError EC_INVALID_ARGUMENT ''durable_json_validation_failed'')
          | Inr h \<Rightarrow> Inr h))"

definition check_revision :: "'h world_store \<Rightarrow> world_object \<Rightarrow> store_error + unit" where
  "check_revision st ob =
     (if wo_revision ob \<noteq> next_version (object_versions st (wo_object_id ob))
      then Inl (StoreError EC_VERSION_CONFLICT ''must write revision'')
      else if latest_object_type st (wo_object_id ob) \<notin> {None, Some (wo_object_type ob)}
      then Inl (StoreError EC_VERSION_CONFLICT ''object type cannot change across revisions'')
      else Inr ())"

definition pending_object :: "world_object list \<Rightarrow> string \<times> int \<Rightarrow> world_object option" where
  "pending_object pending k = List.find (\<lambda>ob. object_key ob = k) pending"

definition reference_exists ::
    "'h world_store \<Rightarrow> world_object list \<Rightarrow> instant \<Rightarrow> object_ref \<Rightarrow> store_error + bool" where
  "reference_exists st pending cutoff r = (case ref_revision r of
     Some v \<Rightarrow>
      (case pending_object pending (ref_object_id r, v) of
         Some target \<Rightarrow> Inr (utc_instant (wo_learned_at target) \<le> cutoff)
       | None \<Rightarrow>
          if \<not> fits_int64 v then Inl IntegerOverflow
          else Inr (list_ex (\<lambda>q. row_key q = (ref_object_id r, v) \<and> rr_learned_at q \<le> cutoff)
                 (ws_revisions st)))
   | None \<Rightarrow> Inr (
       list_ex (\<lambda>ob. wo_object_id ob = ref_object_id r \<and> utc_instant (wo_learned_at ob) \<le> cutoff) pending
       \<or> list_ex (\<lambda>q. rr_object_id q = ref_object_id r \<and> rr_learned_at q \<le> cutoff)
            (ws_revisions st)))"

definition reference_cutoff :: "world_object \<Rightarrow> datetime" where
  "reference_cutoff ob = (case wo_body ob of
     EvidenceSet e \<Rightarrow> kw_knowledge_cutoff (evs_knowledge_window e) | _ \<Rightarrow> wo_learned_at ob)"

definition check_reference ::
    "'h world_store \<Rightarrow> world_object list \<Rightarrow> world_object \<Rightarrow> object_ref \<Rightarrow> store_error + unit" where
  "check_reference st pending ob r =
     (if ref_object_id r = wo_object_id ob \<and> ref_revision r \<in> {None, Some (wo_revision ob)}
      then Inl (StoreError EC_DEPENDENCY_INVALID ''self_reference'')
      else case canonical_utc_iso (reference_cutoff ob) ''knowledge_cutoff'' of
        Inl e \<Rightarrow> Inl (RawError e)
      | Inr cutoff \<Rightarrow> result_bind (reference_exists st pending cutoff r) (\<lambda>ok.
          if ok then Inr ()
          else Inl (StoreError EC_NOT_FOUND ''reference_not_visible_or_missing'')))"

definition check_references ::
    "'h world_store \<Rightarrow> world_object list \<Rightarrow> world_object \<Rightarrow> store_error + unit" where
  "check_references st pending ob = result_bind
     (result_map (check_reference st pending ob) (collect_refs ob)) (\<lambda>_. Inr ())"

section \<open>The dependency graph\<close>

definition dependency_of :: "world_object \<Rightarrow> dependency option" where
  "dependency_of ob = (case wo_body ob of Dependency e \<Rightarrow> Some e | _ \<Rightarrow> None)"

definition pending_dependencies :: "world_object list \<Rightarrow> (string \<times> dependency) list" where
  "pending_dependencies objs = List.map_filter
     (\<lambda>ob. map_option (\<lambda>e. (wo_object_id ob, e)) (dependency_of ob)) objs"

definition dependency_versions :: "'h world_store \<Rightarrow> string \<Rightarrow> int list" where
  "dependency_versions st oid = map rr_revision
     (filter (\<lambda>r. rr_object_type r = OT_DEPENDENCY) (rows_of oid st))"

definition dependency_rows :: "'h world_store \<Rightarrow> revision_row list" where
  "dependency_rows st = filter (\<lambda>r. rr_object_type r = OT_DEPENDENCY
       \<and> sql_max (dependency_versions st (rr_object_id r)) = Some (rr_revision r)) (ws_revisions st)"

definition dependency_payload ::
    "(string \<Rightarrow> bool) \<Rightarrow> payload \<Rightarrow> store_error + string \<times> dependency" where
  "dependency_payload zones p = (case p of
     PayloadObject ob \<Rightarrow>
      (case dependency_of ob of
         Some e \<Rightarrow> if valid_object zones ob then Inr (wo_object_id ob, e)
                   else Inl (StoreError EC_STORAGE_FAILURE ''corrupt_dependency_payload'')
       | None \<Rightarrow> Inl (StoreError EC_STORAGE_FAILURE ''corrupt_dependency_payload''))
   | _ \<Rightarrow> Inl (StoreError EC_STORAGE_FAILURE ''corrupt_dependency_payload''))"

definition update_all :: "(string \<times> 'a) list \<Rightarrow> (string \<times> 'a) list \<Rightarrow> (string \<times> 'a) list" where
  "update_all kvs m = fold (\<lambda>(k, v). AList.update k v) kvs m"

definition validate_dependency_graph ::
    "(string \<Rightarrow> bool) \<Rightarrow> 'h world_store \<Rightarrow> world_object list \<Rightarrow> store_error + unit" where
  "validate_dependency_graph zones st objs =
     (if pending_dependencies objs = [] then Inr ()
      else result_bind
        (result_map (\<lambda>r. dependency_payload zones (rr_payload r)) (dependency_rows st)) (\<lambda>current.
      case validate_dependency_graph_acyclic
             (map snd (update_all (current @ pending_dependencies objs) [])) of
        None \<Rightarrow> Inl DoesNotReturn
      | Some (Inr u) \<Rightarrow> Inr ()
      | Some (Inl GraphKeyError) \<Rightarrow> Inl (RawError (Violation ''KeyError''))
      | Some (Inl e) \<Rightarrow> Inl (StoreError EC_DEPENDENCY_INVALID ''dependency_cycle'')))"

section \<open>Commit\<close>

definition content_row :: "int \<Rightarrow> world_object \<Rightarrow> revision_row" where
  "content_row w ob = \<lparr>
     rr_object_id = wo_object_id ob,
     rr_revision = wo_revision ob,
     rr_object_type = wo_object_type ob,
     rr_subject_id = wo_subject_id ob,
     rr_world_revision = w,
     rr_learned_at = utc_instant (wo_learned_at ob),
     rr_recorded_at = utc_instant (wo_recorded_at ob),
     rr_payload = PayloadObject (durable_object ob),
     rr_revision_kind = RK_content\<rparr>"

definition commit_row_of :: "int \<Rightarrow> instant \<Rightarrow> operation_request \<Rightarrow> commit_row" where
  "commit_row_of w now op = \<lparr>
     cm_world_revision = w,
     cm_committed_at = now,
     cm_operation_id = op_operation_id op,
     cm_session_id = op_session_id op,
     cm_reason = op_reason op,
     cm_source_class = op_source_class op\<rparr>"

definition operation_row_of :: "int \<Rightarrow> instant \<Rightarrow> operation_request \<Rightarrow> operation_row" where
  "operation_row_of w now op = \<lparr>
     or_operation_id = op_operation_id op,
     or_session_id = op_session_id op,
     or_operation_name = op_operation_name op,
     or_arguments = durable_dict (op_arguments op),
     or_expected_world_revision = op_expected_world_revision op,
     or_reason = op_reason op,
     or_idempotency_key = op_idempotency_key op,
     or_result_world_revision = w,
     or_created_at = now\<rparr>"

definition commit_result_of :: "int \<Rightarrow> operation_request \<Rightarrow> world_object list \<Rightarrow> commit_result" where
  "commit_result_of w op objs = \<lparr>
     cr_operation_id = op_operation_id op,
     cr_world_revision = w,
     cr_object_refs = map object_key objs,
     cr_idempotent_replay = False\<rparr>"

definition write_commit ::
    "instant \<Rightarrow> int \<Rightarrow> operation_request \<Rightarrow> world_object list \<Rightarrow> 'h \<Rightarrow> 'h world_store
       \<Rightarrow> store_error + commit_result \<times> 'h world_store" where
  "write_commit now w op objs identity st =
     result_bind (insert_commit (commit_row_of w now op) st) (\<lambda>st.
     result_bind (insert_revisions (map (content_row w) objs) st) (\<lambda>st.
     result_bind (insert_operation (operation_row_of w now op) st) (\<lambda>st.
     result_bind (insert_idempotency \<lparr>
         ir_idempotency_key = op_idempotency_key op,
         ir_operation_id = op_operation_id op,
         ir_world_revision = w,
         ir_result = ResultData (Some (commit_result_of w op objs)) (FingerprintText identity)\<rparr> st)
       (\<lambda>st. Inr (commit_result_of w op objs, update_world_revision w st)))))"

definition fresh_commit ::
    "(string \<Rightarrow> bool) \<Rightarrow> (identity_text \<Rightarrow> 'h) \<Rightarrow> instant \<Rightarrow> world_object list \<Rightarrow> operation_request
       \<Rightarrow> 'h world_store \<Rightarrow> store_error + commit_result \<times> 'h world_store" where
  "fresh_commit zones digest now objs op st =
     result_bind (revalidate_operation op) (\<lambda>op.
     if find_operation st (op_operation_id op) \<noteq> None
     then Inl (StoreError EC_IDEMPOTENCY_CONFLICT ''operation_id_reused'')
     else result_bind (parse_world_revision_row (ws_world_revision st)) (\<lambda>w.
     if op_expected_world_revision op \<noteq> w
     then Inl (StoreError EC_VERSION_CONFLICT ''expected world revision'')
     else result_bind (result_map (revalidate_object zones) objs) (\<lambda>objs.
     result_bind (durable_request zones digest op objs) (\<lambda>identity.
     if \<not> distinct (map object_key objs)
     then Inl (StoreError EC_INVALID_ARGUMENT ''duplicate_revision'')
     else result_bind (result_map (check_revision st) objs) (\<lambda>_.
     result_bind (result_map (check_references st objs) objs) (\<lambda>_.
     result_bind (validate_dependency_graph zones st objs) (\<lambda>_.
     write_commit now (w + 1) op objs identity st)))))))"

definition commit_transaction ::
    "(string \<Rightarrow> bool) \<Rightarrow> (identity_text \<Rightarrow> 'h) \<Rightarrow> instant \<Rightarrow> world_object list \<Rightarrow> operation_request
       \<Rightarrow> 'h world_store \<Rightarrow> store_error + commit_result \<times> 'h world_store" where
  "commit_transaction zones digest now objs op st =
     (if objs = [] then Inl (StoreError EC_INVALID_ARGUMENT ''empty_commit'')
      else result_bind (get_idempotent_result zones digest op objs st) (\<lambda>replay.
      case replay of
        Some r \<Rightarrow> Inr (r, st)
      | None \<Rightarrow> fresh_commit zones digest now objs op st))"

text \<open>\<open>except Exception: conn.rollback(); raise\<close>.\<close>

definition rolling_back :: "store_error + 'a \<times> 'h world_store \<Rightarrow> 'h world_store
    \<Rightarrow> (store_error + 'a) \<times> 'h world_store" where
  "rolling_back r st = (case r of Inl e \<Rightarrow> (Inl e, st) | Inr (x, st') \<Rightarrow> (Inr x, st'))"

definition commit ::
    "(string \<Rightarrow> bool) \<Rightarrow> (identity_text \<Rightarrow> 'h) \<Rightarrow> instant \<Rightarrow> world_object list \<Rightarrow> operation_request
       \<Rightarrow> 'h world_store \<Rightarrow> (store_error + commit_result) \<times> 'h world_store" where
  "commit zones digest now objs op st =
     rolling_back (commit_transaction zones digest now objs op st) st"

section \<open>Replay of an exact operation\<close>

definition replay_object ::
    "(string \<Rightarrow> bool) \<Rightarrow> 'h world_store \<Rightarrow> string \<times> int \<Rightarrow> store_error + world_object" where
  "replay_object zones st k = (case find_row st (fst k) (snd k) of
     None \<Rightarrow> Inl (StoreError EC_STORAGE_FAILURE ''replay_object_missing'')
   | Some r \<Rightarrow>
      result_bind (decode_payload ''corrupt_replay_object_payload'' (rr_payload r)) (\<lambda>p.
      case p of
        PayloadObject ob \<Rightarrow>
          if wo_object_type ob = rr_object_type r \<and> valid_object zones ob then Inr ob
          else Inl (StoreError EC_STORAGE_FAILURE ''corrupt_replay_object'')
      | _ \<Rightarrow> Inl (StoreError EC_STORAGE_FAILURE ''corrupt_replay_object'')))"

text \<open>\<open>Inr None\<close>: no durable operation exists for the key.\<close>

definition replay_exact_operation ::
    "(string \<Rightarrow> bool) \<Rightarrow> (identity_text \<Rightarrow> 'h) \<Rightarrow> instant \<Rightarrow> operation_request \<Rightarrow> 'h world_store
       \<Rightarrow> (store_error + commit_result option) \<times> 'h world_store" where
  "replay_exact_operation zones digest now op st =
     (if op_idempotency_key op = []
      then (Inl (StoreError EC_INVALID_ARGUMENT ''idempotency_key_revalidation_failed''), st)
      else case operation_for_idempotency_key st (op_idempotency_key op) of
        None \<Rightarrow> (Inr None, st)
      | Some original \<Rightarrow>
         (case find_idempotency st (op_idempotency_key op) of
            None \<Rightarrow> (Inl (StoreError EC_STORAGE_FAILURE ''operation_idempotency_skew''), st)
          | Some idem \<Rightarrow>
             if ir_operation_id idem \<noteq> or_operation_id original
             then (Inl (StoreError EC_STORAGE_FAILURE ''operation_idempotency_skew''), st)
             else case ir_result idem of
               ResultCorrupt \<Rightarrow> (Inl (StoreError EC_STORAGE_FAILURE ''corrupt_idempotency_result''), st)
             | ResultData None cell \<Rightarrow>
                 (Inl (StoreError EC_STORAGE_FAILURE ''corrupt_idempotency_result''), st)
             | ResultData (Some res) cell \<Rightarrow>
                (case result_map (replay_object zones st) (cr_object_refs res) of
                   Inl e \<Rightarrow> (Inl e, st)
                 | Inr objs \<Rightarrow>
                    (case commit zones digest now objs
                        (op\<lparr>op_operation_id := or_operation_id original,
                            op_expected_world_revision := or_expected_world_revision original\<rparr>) st of
                       (Inl e, st') \<Rightarrow> (Inl e, st')
                     | (Inr r, st') \<Rightarrow> (Inr (Some r), st')))))"

definition commit_or_replay ::
    "(string \<Rightarrow> bool) \<Rightarrow> (identity_text \<Rightarrow> 'h) \<Rightarrow> instant \<Rightarrow> world_object list \<Rightarrow> operation_request
       \<Rightarrow> 'h world_store \<Rightarrow> (store_error + commit_result) \<times> 'h world_store" where
  "commit_or_replay zones digest now objs op st =
     (case replay_exact_operation zones digest now op st of
        (Inl e, st') \<Rightarrow> (Inl e, st')
      | (Inr (Some r), st') \<Rightarrow> (Inr r, st')
      | (Inr None, st') \<Rightarrow> commit zones digest now objs op st')"

section \<open>Prune\<close>

text \<open>\<open>str(n)\<close> of a world revision.\<close>

fun nat_decimal :: "nat \<Rightarrow> string" where
  "nat_decimal n = (if n < 10 then [char_of (48 + n)]
     else nat_decimal (n div 10) @ [char_of (48 + n mod 10)])"

declare nat_decimal.simps [simp del]

definition int_decimal :: "int \<Rightarrow> string" where
  "int_decimal i = (if i < 0 then ''-'' @ nat_decimal (nat (- i)) else nat_decimal (nat i))"

definition prune_operation_id :: "string \<Rightarrow> int \<Rightarrow> string" where
  "prune_operation_id oid w = ''op_prune_'' @ oid @ ''_'' @ int_decimal w"

definition archive_cold :: "cold_row \<Rightarrow> 'h world_store \<Rightarrow> 'h world_store" where
  "archive_cold c st = st\<lparr>ws_cold_archive :=
     filter (\<lambda>d. (cr_cold_object_id d, cr_cold_revision d)
               \<noteq> (cr_cold_object_id c, cr_cold_revision c)) (ws_cold_archive st) @ [c]\<rparr>"

text \<open>\<open>int(...)\<close> of the meta cell, without the range check of \<open>_parse_world_revision_row\<close>.\<close>

definition raw_world_revision :: "meta_cell option \<Rightarrow> store_error + int" where
  "raw_world_revision row = (case row of
     None \<Rightarrow> Inl (RawError (Violation ''TypeError''))
   | Some (MetaText s) \<Rightarrow> Inl (RawError (Violation ''ValueError''))
   | Some (MetaInt v) \<Rightarrow> Inr v)"

definition tombstone_row :: "instant \<Rightarrow> int \<Rightarrow> string \<Rightarrow> string \<Rightarrow> revision_row \<Rightarrow> revision_row" where
  "tombstone_row now w authz_ref reason r = \<lparr>
     rr_object_id = rr_object_id r,
     rr_revision = rr_revision r + 1,
     rr_object_type = rr_object_type r,
     rr_subject_id = rr_subject_id r,
     rr_world_revision = w,
     rr_learned_at = rr_learned_at r,
     rr_recorded_at = now,
     rr_payload = PayloadTombstone \<lparr>tb_reason = reason, tb_authz_ref = authz_ref,
       tb_previous_revision = rr_revision r, tb_object_id = rr_object_id r\<rparr>,
     rr_revision_kind = RK_tombstone\<rparr>"

definition prune_commit_row :: "instant \<Rightarrow> int \<Rightarrow> string \<Rightarrow> string \<Rightarrow> commit_row" where
  "prune_commit_row now w oid reason = \<lparr>
     cm_world_revision = w,
     cm_committed_at = now,
     cm_operation_id = prune_operation_id oid w,
     cm_session_id = None,
     cm_reason = reason,
     cm_source_class = SC_MAINTENANCE\<rparr>"

definition prune_transaction ::
    "instant \<Rightarrow> string \<Rightarrow> string \<Rightarrow> string \<Rightarrow> 'h world_store
       \<Rightarrow> store_error + unit \<times> 'h world_store" where
  "prune_transaction now oid authz_ref reason st = (case latest_row st oid of
     None \<Rightarrow> Inl (StoreError EC_NOT_FOUND ''not found to prune'')
   | Some r \<Rightarrow>
      let archived = archive_cold \<lparr>cr_cold_object_id = oid, cr_cold_revision = rr_revision r,
            cr_cold_payload = rr_payload r, cr_cold_archived_at = now,
            cr_cold_authz_ref = authz_ref, cr_cold_reason = reason\<rparr> st
      in result_bind (raw_world_revision (ws_world_revision archived)) (\<lambda>w.
         result_bind (insert_commit (prune_commit_row now (w + 1) oid reason) archived) (\<lambda>st.
         result_bind (insert_revision (tombstone_row now (w + 1) authz_ref reason r)
             (update_world_revision (w + 1) st)) (\<lambda>st. Inr ((), st)))))"

definition prune ::
    "instant \<Rightarrow> string \<Rightarrow> string \<Rightarrow> string \<Rightarrow> 'h world_store
       \<Rightarrow> (store_error + unit) \<times> 'h world_store" where
  "prune now oid authz_ref reason st =
     rolling_back (prune_transaction now oid authz_ref reason st) st"

end
