(* ===== verification/WorldEffects.thy ===== *)
theory WorldEffects
  imports WorldCommit
begin

text \<open>
  What an accepted write does to the tables: the checks an accepted commit has passed, the
  exact rows it appends, and the same for a prune. The component proofs rest on these
  facts and no longer unfold the transactions.
\<close>

section \<open>Accepted commits\<close>

definition accepted ::
    "(string \<Rightarrow> bool) \<Rightarrow> (identity_text \<Rightarrow> 'h) \<Rightarrow> world_object list \<Rightarrow> operation_request
       \<Rightarrow> 'h world_store \<Rightarrow> int \<Rightarrow> 'h \<Rightarrow> bool" where
  "accepted zones digest objs op st w h \<longleftrightarrow>
     normalize_operation op = Inr op
   \<and> find_operation st (op_operation_id op) = None
   \<and> parse_world_revision_row (ws_world_revision st) = Inr w
   \<and> op_expected_world_revision op = w
   \<and> (\<forall>ob \<in> set objs. valid_object zones ob)
   \<and> durable_request zones digest op objs = Inr h
   \<and> distinct (map object_key objs)
   \<and> (\<forall>ob \<in> set objs. check_revision st ob = Inr ())
   \<and> (\<forall>ob \<in> set objs. check_references st objs ob = Inr ())
   \<and> validate_dependency_graph zones st objs = Inr ()"

lemma revalidate_operation_Inr [simp]:
  "revalidate_operation op = Inr op' \<longleftrightarrow> op' = op \<and> normalize_operation op = Inr op"
proof (cases "normalize_operation op")
  case (Inr x)
  then have "x = op" by (rule normalize_operation_Inr [THEN conjunct1])
  with Inr show ?thesis by (auto simp: revalidate_operation_def)
qed (simp add: revalidate_operation_def)

lemma revalidate_object_Inr [simp]:
  "revalidate_object zones ob = Inr ob' \<longleftrightarrow> ob' = ob \<and> valid_object zones ob"
  by (auto simp: revalidate_object_def normalize_world_object_def valid_object_def split: sum.splits)

lemma result_map_id:
  assumes "\<And>x y. f x = Inr y \<longleftrightarrow> y = x \<and> P x"
  shows "result_map f xs = Inr ys \<longleftrightarrow> ys = xs \<and> (\<forall>x \<in> set xs. P x)"
  by (induction xs arbitrary: ys) (auto simp: assms)

lemma result_map_unit:
  "result_map f xs = Inr us \<longleftrightarrow> us = replicate (length xs) () \<and> (\<forall>x \<in> set xs. f x = Inr ())"
  by (induction xs arbitrary: us) auto

lemma revalidate_objects [simp]:
  "result_map (revalidate_object zones) objs = Inr objs' \<longleftrightarrow>
     objs' = objs \<and> (\<forall>ob \<in> set objs. valid_object zones ob)"
  by (rule result_map_id) simp

lemma fresh_commit_Inr:
  "fresh_commit zones digest now objs op st = Inr r \<longleftrightarrow>
     (\<exists>w h. accepted zones digest objs op st w h \<and> write_commit now (w + 1) op objs h st = Inr r)"
  by (auto simp: fresh_commit_def accepted_def result_map_unit)

section \<open>The rows an accepted commit appends\<close>

definition idempotency_row_of ::
    "int \<Rightarrow> operation_request \<Rightarrow> world_object list \<Rightarrow> 'h \<Rightarrow> 'h idempotency_row" where
  "idempotency_row_of w op objs h = \<lparr>
     ir_idempotency_key = op_idempotency_key op,
     ir_operation_id = op_operation_id op,
     ir_world_revision = w,
     ir_result = ResultData (Some (commit_result_of w op objs)) (FingerprintText h)\<rparr>"

lemma insert_revisions_Inr:
  "insert_revisions rs st = Inr st' \<Longrightarrow> st' = st\<lparr>ws_revisions := ws_revisions st @ rs\<rparr>
     \<and> (\<forall>r \<in> set rs. fits_int64 (rr_revision r))"
proof (induction rs arbitrary: st)
  case (Cons r rs)
  then obtain s where "insert_revision r st = Inr s" and s: "insert_revisions rs s = Inr st'" by auto
  then have "s = st\<lparr>ws_revisions := ws_revisions st @ [r]\<rparr>" "fits_int64 (rr_revision r)"
    by (auto simp: insert_revision_def split: if_splits)
  with Cons.IH [OF s] show ?case by simp
qed simp

definition appended ::
    "instant \<Rightarrow> int \<Rightarrow> operation_request \<Rightarrow> world_object list \<Rightarrow> 'h \<Rightarrow> 'h world_store
       \<Rightarrow> 'h world_store" where
  "appended now w op objs h st = \<lparr>
     ws_world_revision = map_option (\<lambda>_. MetaInt w) (ws_world_revision st),
     ws_commits = ws_commits st @ [commit_row_of w now op],
     ws_revisions = ws_revisions st @ map (content_row w) objs,
     ws_operations = ws_operations st @ [operation_row_of w now op],
     ws_idempotency = ws_idempotency st @ [idempotency_row_of w op objs h],
     ws_cold_archive = ws_cold_archive st\<rparr>"

lemma appended_simps [simp]:
  "ws_world_revision (appended now w op objs h st) = map_option (\<lambda>_. MetaInt w) (ws_world_revision st)"
  "ws_commits (appended now w op objs h st) = ws_commits st @ [commit_row_of w now op]"
  "ws_revisions (appended now w op objs h st) = ws_revisions st @ map (content_row w) objs"
  "ws_operations (appended now w op objs h st) = ws_operations st @ [operation_row_of w now op]"
  "ws_idempotency (appended now w op objs h st) = ws_idempotency st @ [idempotency_row_of w op objs h]"
  "ws_cold_archive (appended now w op objs h st) = ws_cold_archive st"
  by (simp_all add: appended_def)

lemma content_row_simps [simp]:
  "rr_object_id (content_row w ob) = wo_object_id ob"
  "rr_revision (content_row w ob) = wo_revision ob"
  "rr_object_type (content_row w ob) = wo_object_type ob"
  "rr_subject_id (content_row w ob) = wo_subject_id ob"
  "rr_world_revision (content_row w ob) = w"
  "rr_learned_at (content_row w ob) = utc_instant (wo_learned_at ob)"
  "rr_recorded_at (content_row w ob) = utc_instant (wo_recorded_at ob)"
  "rr_payload (content_row w ob) = PayloadObject (durable_object ob)"
  "rr_revision_kind (content_row w ob) = RK_content"
  by (simp_all add: content_row_def)

lemma commit_row_simps [simp]:
  "cm_world_revision (commit_row_of w now op) = w"
  "cm_operation_id (commit_row_of w now op) = op_operation_id op"
  "cm_source_class (commit_row_of w now op) = op_source_class op"
  "cm_committed_at (commit_row_of w now op) = now"
  by (simp_all add: commit_row_of_def)

lemma operation_row_simps [simp]:
  "or_operation_id (operation_row_of w now op) = op_operation_id op"
  "or_idempotency_key (operation_row_of w now op) = op_idempotency_key op"
  "or_result_world_revision (operation_row_of w now op) = w"
  "or_expected_world_revision (operation_row_of w now op) = op_expected_world_revision op"
  by (simp_all add: operation_row_of_def)

lemma idempotency_row_simps [simp]:
  "ir_idempotency_key (idempotency_row_of w op objs h) = op_idempotency_key op"
  "ir_operation_id (idempotency_row_of w op objs h) = op_operation_id op"
  "ir_world_revision (idempotency_row_of w op objs h) = w"
  "ir_result (idempotency_row_of w op objs h)
     = ResultData (Some (commit_result_of w op objs)) (FingerprintText h)"
  by (simp_all add: idempotency_row_of_def)

lemma write_commit_Inr:
  assumes "write_commit now w op objs h st = Inr (res, st')"
  shows "res = commit_result_of w op objs" and "st' = appended now w op objs h st"
    and "fits_int64 w" and "\<forall>c \<in> set (ws_commits st). cm_operation_id c \<noteq> op_operation_id op"
    and "\<forall>q \<in> set (ws_operations st). or_operation_id q \<noteq> op_operation_id op
           \<and> or_idempotency_key q \<noteq> op_idempotency_key op"
    and "\<forall>q \<in> set (ws_idempotency st). ir_idempotency_key q \<noteq> op_idempotency_key op"
    and "\<forall>ob \<in> set objs. fits_int64 (wo_revision ob)"
proof -
  obtain s1 s2 s3 s4 where s: "insert_commit (commit_row_of w now op) st = Inr s1"
    "insert_revisions (map (content_row w) objs) s1 = Inr s2"
    "insert_operation (operation_row_of w now op) s2 = Inr s3"
    "insert_idempotency (idempotency_row_of w op objs h) s3 = Inr s4"
    "res = commit_result_of w op objs" "st' = update_world_revision w s4"
    using assms by (auto simp: write_commit_def idempotency_row_of_def [symmetric])
  note s2 = insert_revisions_Inr [OF s(2)]
  from s(1) have s1: "s1 = st\<lparr>ws_commits := ws_commits st @ [commit_row_of w now op]\<rparr>" "fits_int64 w"
    "\<forall>c \<in> set (ws_commits st). cm_operation_id c \<noteq> op_operation_id op"
    by (auto simp: insert_commit_def list_ex_iff split: if_splits)
  from s(3) s2 s1(1)
  have s3: "s3 = s2\<lparr>ws_operations := ws_operations s2 @ [operation_row_of w now op]\<rparr>"
    "\<forall>q \<in> set (ws_operations st). or_operation_id q \<noteq> op_operation_id op
       \<and> or_idempotency_key q \<noteq> op_idempotency_key op"
    by (auto simp: insert_operation_def list_ex_iff split: if_splits)
  from s(4) s3(1) s2 s1(1)
  have s4: "s4 = s3\<lparr>ws_idempotency := ws_idempotency s3 @ [idempotency_row_of w op objs h]\<rparr>"
    "\<forall>q \<in> set (ws_idempotency st). ir_idempotency_key q \<noteq> op_idempotency_key op"
    by (auto simp: insert_idempotency_def list_ex_iff split: if_splits)
  show "st' = appended now w op objs h st"
    using s(6) s4(1) s3(1) s2 s1(1) by (simp add: update_world_revision_def appended_def)
  show "\<forall>ob \<in> set objs. fits_int64 (wo_revision ob)" using s2 by simp
  show "res = commit_result_of w op objs" "fits_int64 w"
    "\<forall>c \<in> set (ws_commits st). cm_operation_id c \<noteq> op_operation_id op"
    "\<forall>q \<in> set (ws_operations st). or_operation_id q \<noteq> op_operation_id op
           \<and> or_idempotency_key q \<noteq> op_idempotency_key op"
    "\<forall>q \<in> set (ws_idempotency st). ir_idempotency_key q \<noteq> op_idempotency_key op"
    using s(5) s1 s3 s4 by auto
qed

text \<open>What an answered commit is: a replay that writes nothing, or an accepted one.\<close>

lemma commit_Inr_cases:
  assumes "commit zones digest now objs op st = (Inr res, st')"
  obtains (replay) "get_idempotent_result zones digest op objs st = Inr (Some res)" "st' = st"
  | (fresh) w h where "get_idempotent_result zones digest op objs st = Inr None" "objs \<noteq> []"
      "accepted zones digest objs op st w h" "write_commit now (w + 1) op objs h st = Inr (res, st')"
proof -
  from assms have t: "commit_transaction zones digest now objs op st = Inr (res, st')"
    by (auto simp: commit_def rolling_back_def split: sum.splits)
  then obtain r where "objs \<noteq> []" "get_idempotent_result zones digest op objs st = Inr r"
    by (auto simp: commit_transaction_def split: if_splits)
  note r = this
  show thesis
  proof (cases r)
    case None
    with t r have "fresh_commit zones digest now objs op st = Inr (res, st')"
      by (simp add: commit_transaction_def)
    then show thesis using fresh r None unfolding fresh_commit_Inr by blast
  next
    case (Some x)
    with t r have "x = res" "st' = st" by (simp_all add: commit_transaction_def)
    then show thesis using replay r Some by simp
  qed
qed

lemma commit_Inl: "commit zones digest now objs op st = (Inl e, st') \<Longrightarrow> st' = st"
  by (auto simp: commit_def rolling_back_def split: sum.splits)

section \<open>Accepted prunes\<close>

lemma tombstone_row_simps [simp]:
  "rr_object_id (tombstone_row now w a reason r) = rr_object_id r"
  "rr_revision (tombstone_row now w a reason r) = rr_revision r + 1"
  "rr_object_type (tombstone_row now w a reason r) = rr_object_type r"
  "rr_subject_id (tombstone_row now w a reason r) = rr_subject_id r"
  "rr_world_revision (tombstone_row now w a reason r) = w"
  "rr_learned_at (tombstone_row now w a reason r) = rr_learned_at r"
  "rr_recorded_at (tombstone_row now w a reason r) = now"
  "rr_revision_kind (tombstone_row now w a reason r) = RK_tombstone"
  by (simp_all add: tombstone_row_def)

lemma prune_commit_row_simps [simp]:
  "cm_world_revision (prune_commit_row now w oid reason) = w"
  "cm_operation_id (prune_commit_row now w oid reason) = prune_operation_id oid w"
  "cm_source_class (prune_commit_row now w oid reason) = SC_MAINTENANCE"
  by (simp_all add: prune_commit_row_def)

lemma prune_Inr:
  assumes "prune now oid authz_ref reason st = (Inr u, st')"
  obtains r w where "latest_row st oid = Some r" "raw_world_revision (ws_world_revision st) = Inr w"
    and "fits_int64 (w + 1)" and "fits_int64 (rr_revision r + 1)"
    and "\<forall>c \<in> set (ws_commits st). cm_operation_id c \<noteq> prune_operation_id oid (w + 1)"
    and "ws_world_revision st' = map_option (\<lambda>_. MetaInt (w + 1)) (ws_world_revision st)"
    and "ws_commits st' = ws_commits st @ [prune_commit_row now (w + 1) oid reason]"
    and "ws_revisions st' = ws_revisions st @ [tombstone_row now (w + 1) authz_ref reason r]"
    and "ws_operations st' = ws_operations st" "ws_idempotency st' = ws_idempotency st"
    and "ws_cold_archive st' = filter (\<lambda>d. (cr_cold_object_id d, cr_cold_revision d) \<noteq> (oid, rr_revision r))
           (ws_cold_archive st)
         @ [\<lparr>cr_cold_object_id = oid, cr_cold_revision = rr_revision r,
              cr_cold_payload = rr_payload r, cr_cold_archived_at = now,
              cr_cold_authz_ref = authz_ref, cr_cold_reason = reason\<rparr>]"
proof -
  from assms have t: "prune_transaction now oid authz_ref reason st = Inr (u, st')"
    by (auto simp: prune_def rolling_back_def split: sum.splits)
  then obtain r where r: "latest_row st oid = Some r"
    by (auto simp: prune_transaction_def split: option.splits)
  let ?a = "archive_cold \<lparr>cr_cold_object_id = oid, cr_cold_revision = rr_revision r,
            cr_cold_payload = rr_payload r, cr_cold_archived_at = now,
            cr_cold_authz_ref = authz_ref, cr_cold_reason = reason\<rparr> st"
  from t r obtain w s where w: "raw_world_revision (ws_world_revision ?a) = Inr w"
    and s: "insert_commit (prune_commit_row now (w + 1) oid reason) ?a = Inr s"
    and st': "insert_revision (tombstone_row now (w + 1) authz_ref reason r)
             (update_world_revision (w + 1) s) = Inr st'"
    by (auto simp: prune_transaction_def Let_def)
  from s have s': "s = ?a\<lparr>ws_commits := ws_commits ?a @ [prune_commit_row now (w + 1) oid reason]\<rparr>"
    "fits_int64 (w + 1)"
    "\<forall>c \<in> set (ws_commits st). cm_operation_id c \<noteq> prune_operation_id oid (w + 1)"
    by (auto simp: insert_commit_def list_ex_iff archive_cold_def split: if_splits)
  from st' have st'': "st' = (update_world_revision (w + 1) s)\<lparr>ws_revisions :=
      ws_revisions (update_world_revision (w + 1) s) @ [tombstone_row now (w + 1) authz_ref reason r]\<rparr>"
    "fits_int64 (rr_revision r + 1)"
    by (auto simp: insert_revision_def split: if_splits)
  from w have w': "raw_world_revision (ws_world_revision st) = Inr w" by (simp add: archive_cold_def)
  show thesis
    by (rule that [OF r w' s'(2) st''(2) s'(3)])
      (simp_all add: st''(1) s'(1) archive_cold_def update_world_revision_def)
qed

lemma prune_Inl: "prune now oid a reason st = (Inl e, st') \<Longrightarrow> st' = st"
  by (auto simp: prune_def rolling_back_def split: sum.splits)

end
