(* ===== verification/WorldInv.thy ===== *)
theory WorldInv
  imports WorldEffects Chains
begin

text \<open>
  The invariants of the world store and that \<open>commit\<close> and \<open>prune\<close> keep them: world
  revisions count the commits, every object's revisions are a chain of one type, rows are
  stamped by commits in order, operations and idempotency records agree, payloads match
  their rows, references resolve to rows visible at their cutoff, and the live dependency
  edges are acyclic.
\<close>

section \<open>The invariant\<close>

definition clock_inv :: "'h world_store \<Rightarrow> bool" where
  "clock_inv st \<longleftrightarrow> contiguous (map cm_world_revision (ws_commits st))
     \<and> ws_world_revision st = Some (MetaInt (int (length (ws_commits st))))
     \<and> int (length (ws_commits st)) \<le> sqlite_int64_max
     \<and> distinct (map cm_operation_id (ws_commits st))"

definition type_stable :: "revision_row list \<Rightarrow> bool" where
  "type_stable rs \<longleftrightarrow> (\<forall>r \<in> set rs. \<forall>q \<in> set rs.
     rr_object_id r = rr_object_id q \<longrightarrow> rr_object_type r = rr_object_type q)"

definition chain_inv :: "'h world_store \<Rightarrow> bool" where
  "chain_inv st \<longleftrightarrow> (\<forall>oid. contiguous (object_versions st oid)) \<and> type_stable (ws_revisions st)"

definition stamp_inv :: "'h world_store \<Rightarrow> bool" where
  "stamp_inv st \<longleftrightarrow> sorted (map rr_world_revision (ws_revisions st))
     \<and> (\<forall>r \<in> set (ws_revisions st). 1 \<le> rr_world_revision r
          \<and> rr_world_revision r \<le> int (length (ws_commits st)))"

definition op_ids :: "'h world_store \<Rightarrow> (string \<times> string \<times> int) list" where
  "op_ids st = map (\<lambda>r. (or_idempotency_key r, or_operation_id r, or_result_world_revision r))
     (ws_operations st)"

definition keys_at :: "int \<Rightarrow> 'h world_store \<Rightarrow> (string \<times> int) list" where
  "keys_at w st = map row_key (filter (\<lambda>r. rr_world_revision r = w) (ws_revisions st))"

definition idem_row_ok :: "'h world_store \<Rightarrow> 'h idempotency_row \<Rightarrow> bool" where
  "idem_row_ok st i \<longleftrightarrow> (\<exists>h. ir_result i = ResultData (Some \<lparr>
       cr_operation_id = ir_operation_id i, cr_world_revision = ir_world_revision i,
       cr_object_refs = keys_at (ir_world_revision i) st, cr_idempotent_replay = False\<rparr>)
     (FingerprintText h))"

definition ledger_inv :: "'h world_store \<Rightarrow> bool" where
  "ledger_inv st \<longleftrightarrow>
     map (\<lambda>i. (ir_idempotency_key i, ir_operation_id i, ir_world_revision i)) (ws_idempotency st)
       = op_ids st
   \<and> distinct (map or_idempotency_key (ws_operations st))
   \<and> distinct (map or_operation_id (ws_operations st))
   \<and> (\<forall>i \<in> set (ws_idempotency st). idem_row_ok st i
        \<and> 1 \<le> ir_world_revision i \<and> ir_world_revision i \<le> int (length (ws_commits st)))"

definition payload_ok :: "(string \<Rightarrow> bool) \<Rightarrow> revision_row \<Rightarrow> bool" where
  "payload_ok zones r \<longleftrightarrow> fits_int64 (rr_revision r) \<and> (case rr_revision_kind r of
     RK_content \<Rightarrow> (\<exists>ob. valid_object zones ob \<and> rr_payload r = PayloadObject (durable_object ob)
        \<and> object_key ob = row_key r \<and> wo_object_type ob = rr_object_type r
        \<and> wo_subject_id ob = rr_subject_id r
        \<and> utc_instant (wo_learned_at ob) = rr_learned_at r
        \<and> utc_instant (wo_recorded_at ob) = rr_recorded_at r)
   | RK_tombstone \<Rightarrow> 2 \<le> rr_revision r \<and> (\<exists>t. rr_payload r = PayloadTombstone t
        \<and> tb_object_id t = rr_object_id r \<and> tb_previous_revision t + 1 = rr_revision r))"

definition payload_inv :: "(string \<Rightarrow> bool) \<Rightarrow> 'h world_store \<Rightarrow> bool" where
  "payload_inv zones st \<longleftrightarrow> (\<forall>r \<in> set (ws_revisions st). payload_ok zones r)"

text \<open>A reference resolves to a row that is not newer in the store and visible at the cutoff.\<close>

definition resolves :: "'h world_store \<Rightarrow> int \<Rightarrow> instant \<Rightarrow> object_ref \<Rightarrow> bool" where
  "resolves st w cutoff r \<longleftrightarrow> (\<exists>q \<in> set (ws_revisions st). rr_object_id q = ref_object_id r
     \<and> (\<forall>v. ref_revision r = Some v \<longrightarrow> rr_revision q = v)
     \<and> rr_learned_at q \<le> cutoff \<and> rr_world_revision q \<le> w)"

definition row_resolved :: "'h world_store \<Rightarrow> revision_row \<Rightarrow> bool" where
  "row_resolved st r \<longleftrightarrow> (\<forall>ob. rr_payload r = PayloadObject ob \<longrightarrow> (\<forall>x \<in> set (collect_refs ob).
     resolves st (rr_world_revision r) (utc_instant (reference_cutoff ob)) x
     \<and> \<not> (ref_object_id x = rr_object_id r \<and> ref_revision x \<in> {None, Some (rr_revision r)})))"

definition reference_inv :: "'h world_store \<Rightarrow> bool" where
  "reference_inv st \<longleftrightarrow> (\<forall>r \<in> set (ws_revisions st). row_resolved st r)"

text \<open>The dependencies whose newest version is content (a pruned one has no edge).\<close>

definition row_dependency :: "revision_row \<Rightarrow> dependency option" where
  "row_dependency r = (case rr_payload r of PayloadObject ob \<Rightarrow> dependency_of ob | _ \<Rightarrow> None)"

definition live_dependencies :: "'h world_store \<Rightarrow> dependency list" where
  "live_dependencies st = List.map_filter row_dependency (dependency_rows st)"

definition graph_inv :: "'h world_store \<Rightarrow> bool" where
  "graph_inv st \<longleftrightarrow> acyclic (dep_edges (live_dependencies st))"

definition world_inv :: "(string \<Rightarrow> bool) \<Rightarrow> 'h world_store \<Rightarrow> bool" where
  "world_inv zones st \<longleftrightarrow> clock_inv st \<and> chain_inv st \<and> stamp_inv st \<and> ledger_inv st
     \<and> payload_inv zones st \<and> reference_inv st \<and> graph_inv st"

section \<open>The clock\<close>

lemma clock_revision:
  assumes "clock_inv st"
  shows "parse_world_revision_row (ws_world_revision st) = Inr (int (length (ws_commits st)))"
    and "raw_world_revision (ws_world_revision st) = Inr (int (length (ws_commits st)))"
    and "next_version (map cm_world_revision (ws_commits st)) = int (length (ws_commits st)) + 1"
  using assms contiguous_next [of "map cm_world_revision (ws_commits st)"]
  by (simp_all add: clock_inv_def parse_world_revision_row_def raw_world_revision_def)

lemma clock_snoc:
  assumes "clock_inv st" and "cm_world_revision c = int (length (ws_commits st)) + 1"
    and "cm_world_revision c \<le> sqlite_int64_max"
    and "\<forall>d \<in> set (ws_commits st). cm_operation_id d \<noteq> cm_operation_id c"
    and "ws_commits st' = ws_commits st @ [c]"
    and "ws_world_revision st' = map_option (\<lambda>_. MetaInt (cm_world_revision c)) (ws_world_revision st)"
  shows "clock_inv st'"
proof -
  have "contiguous (map cm_world_revision (ws_commits st) @ [cm_world_revision c])"
    using contiguous_snoc [of "map cm_world_revision (ws_commits st)"] clock_revision(3) [OF assms(1)]
      assms(1,2) by (simp add: clock_inv_def)
  moreover have "distinct (map cm_operation_id (ws_commits st) @ [cm_operation_id c])"
    using assms(1,4) by (auto simp: clock_inv_def)
  moreover have "ws_world_revision st = Some (MetaInt (int (length (ws_commits st))))"
    using assms(1) by (simp add: clock_inv_def)
  ultimately show ?thesis using assms(2,3,5,6) by (simp add: clock_inv_def)
qed

section \<open>Object chains\<close>

lemma type_stableD:
  "type_stable rs \<Longrightarrow> r \<in> set rs \<Longrightarrow> q \<in> set rs \<Longrightarrow> rr_object_id r = rr_object_id q
     \<Longrightarrow> rr_object_type r = rr_object_type q"
  unfolding type_stable_def by blast

lemma type_stable_append:
  assumes "type_stable rs" and "type_stable ns"
    and "\<And>n r. n \<in> set ns \<Longrightarrow> r \<in> set rs \<Longrightarrow> rr_object_id r = rr_object_id n
           \<Longrightarrow> rr_object_type r = rr_object_type n"
  shows "type_stable (rs @ ns)"
  unfolding type_stable_def set_append
proof (intro ballI impI, elim UnE)
  fix r q :: revision_row assume rq: "rr_object_id r = rr_object_id q"
  show "rr_object_type r = rr_object_type q" if "r \<in> set rs" "q \<in> set rs"
    using type_stableD [OF assms(1) that rq] .
  show "rr_object_type r = rr_object_type q" if "r \<in> set ns" "q \<in> set ns"
    using type_stableD [OF assms(2) that rq] .
  show "rr_object_type r = rr_object_type q" if "r \<in> set rs" "q \<in> set ns"
    using assms(3) that rq by simp
  show "rr_object_type r = rr_object_type q" if "r \<in> set ns" "q \<in> set rs"
    using assms(3) [OF that] rq by simp
qed

lemma chain_types: "chain_inv st \<Longrightarrow> type_stable (ws_revisions st)"
  by (simp add: chain_inv_def)

lemma versions_append:
  "ws_revisions st' = ws_revisions st @ rs \<Longrightarrow>
     object_versions st' oid = object_versions st oid
       @ map rr_revision (filter (\<lambda>r. rr_object_id r = oid) rs)"
  by (simp add: object_versions_def rows_of_def)

lemma filter_distinct_id:
  "distinct (map f xs) \<Longrightarrow> x \<in> set xs \<Longrightarrow> filter (\<lambda>y. f y = f x) xs = [x]"
proof (induction xs)
  case (Cons y ys)
  then have "f y \<notin> f ` set ys" by simp
  with Cons show ?case by (auto simp: filter_empty_conv image_iff)
qed simp

lemma check_revision_Inr:
  "check_revision st ob = Inr () \<longleftrightarrow>
     wo_revision ob = next_version (object_versions st (wo_object_id ob))
     \<and> latest_object_type st (wo_object_id ob) \<in> {None, Some (wo_object_type ob)}"
  by (auto simp: check_revision_def split: if_splits)

lemma accepted_distinct_ids:
  assumes "accepted zones digest objs op st w h"
  shows "distinct (map wo_object_id objs)"
proof -
  have "inj_on wo_object_id (set objs)"
  proof (rule inj_onI)
    fix x y assume "x \<in> set objs" "y \<in> set objs" "wo_object_id x = wo_object_id y"
    moreover with assms have "object_key x = object_key y"
      by (auto simp: accepted_def check_revision_Inr object_key_def)
    ultimately show "x = y" using assms
      by (auto simp: accepted_def distinct_map inj_on_def)
  qed
  moreover have "distinct objs" using assms by (auto simp: accepted_def distinct_map)
  ultimately show ?thesis by (simp add: distinct_map)
qed

lemma commit_versions:
  assumes "accepted zones digest objs op st w h"
    and "ws_revisions st' = ws_revisions st @ map (content_row w') objs"
  shows "object_versions st' oid = object_versions st oid
    @ (if oid \<in> wo_object_id ` set objs then [next_version (object_versions st oid)] else [])"
proof (cases "oid \<in> wo_object_id ` set objs")
  case True
  then obtain ob where ob: "ob \<in> set objs" "oid = wo_object_id ob" by auto
  then have "filter (\<lambda>x. wo_object_id x = oid) objs = [ob]"
    using filter_distinct_id [OF accepted_distinct_ids [OF assms(1)]] by simp
  moreover have "wo_revision ob = next_version (object_versions st oid)"
    using assms(1) ob by (auto simp: accepted_def check_revision_Inr)
  ultimately show ?thesis using True versions_append [OF assms(2), of oid]
    by (simp add: filter_map comp_def)
next
  case False
  then have "filter (\<lambda>x. wo_object_id x = oid) objs = []" by (auto simp: filter_empty_conv)
  then show ?thesis using False versions_append [OF assms(2), of oid]
    by (simp add: filter_map comp_def)
qed

lemma latest_row_Some:
  "latest_row st oid = Some r \<Longrightarrow> r \<in> set (ws_revisions st) \<and> rr_object_id r = oid
     \<and> (\<forall>q \<in> set (ws_revisions st). rr_object_id q = oid \<longrightarrow> rr_revision q \<le> rr_revision r)"
  unfolding latest_row_def by (drule latest_by_Some) (auto simp: rows_of_def)

lemma latest_row_None: "latest_row st oid = None \<longleftrightarrow> oid \<notin> rr_object_id ` set (ws_revisions st)"
  by (auto simp: latest_row_def rows_of_def filter_empty_conv)

lemma latest_row_next:
  assumes "chain_inv st" and "latest_row st oid = Some r"
  shows "rr_revision r + 1 = next_version (object_versions st oid)"
proof -
  have c: "contiguous (object_versions st oid)" using assms(1) by (simp add: chain_inv_def)
  let ?n = "int (length (object_versions st oid))"
  note r = latest_row_Some [OF assms(2)]
  have set: "set (object_versions st oid) = {1 .. ?n}" using contiguous_set [OF c] .
  have "rr_revision r \<in> set (object_versions st oid)" using r by (auto simp: object_versions_def rows_of_def)
  moreover have "\<forall>v \<in> set (object_versions st oid). v \<le> rr_revision r"
    using r by (auto simp: object_versions_def rows_of_def)
  ultimately have "rr_revision r \<le> ?n" "?n \<le> rr_revision r" unfolding set by auto
  then have "rr_revision r = ?n" by simp
  then show ?thesis using contiguous_next [OF c] by simp
qed

lemma prune_versions:
  assumes "chain_inv st" and "latest_row st oid = Some r"
    and "ws_revisions st' = ws_revisions st @ [tombstone_row now w a reason r]"
  shows "object_versions st' k = object_versions st k
    @ (if k = oid then [next_version (object_versions st k)] else [])"
  using versions_append [OF assms(3), of k] latest_row_next [OF assms(1,2)] latest_row_Some [OF assms(2)]
  by auto

lemma rows_unique:
  assumes "chain_inv st" and "r \<in> set (ws_revisions st)" and "q \<in> set (ws_revisions st)"
    and "row_key r = row_key q"
  shows "r = q"
proof -
  have "distinct (object_versions st (rr_object_id r))"
    using assms(1) by (auto simp: chain_inv_def intro: contiguous_distinct)
  then have "inj_on rr_revision (set (rows_of (rr_object_id r) st))"
    by (simp add: object_versions_def distinct_map)
  then show ?thesis using assms(2-) by (auto simp: inj_on_def rows_of_def row_key_def)
qed

lemma chain_commit:
  assumes "chain_inv st" and "accepted zones digest objs op st w h"
    and "ws_revisions st' = ws_revisions st @ map (content_row w') objs"
  shows "chain_inv st'"
proof -
  have cont: "contiguous (object_versions st' oid)" for oid
    using assms(1) commit_versions [OF assms(2,3), of oid] contiguous_snoc
    by (auto simp: chain_inv_def)
  have "rr_object_type q = wo_object_type ob"
    if "q \<in> set (ws_revisions st)" "ob \<in> set objs" "rr_object_id q = wo_object_id ob" for q ob
  proof -
    have "wo_object_id ob \<in> rr_object_id ` set (ws_revisions st)" using that by (metis imageI)
    then obtain l where l: "latest_row st (wo_object_id ob) = Some l"
      using latest_row_None [of st "wo_object_id ob"] by blast
    with assms(2) that(2) have "rr_object_type l = wo_object_type ob"
      by (auto simp: accepted_def check_revision_Inr latest_object_type_def)
    with latest_row_Some [OF l] that show ?thesis
      using type_stableD [OF chain_types [OF assms(1)], of q l] by simp
  qed
  moreover have "x = y" if "x \<in> set objs" "y \<in> set objs" "wo_object_id x = wo_object_id y" for x y
    using that accepted_distinct_ids [OF assms(2)] by (auto simp: distinct_map inj_on_def)
  ultimately have "type_stable (ws_revisions st')"
    unfolding assms(3) by (intro type_stable_append chain_types [OF assms(1)])
      (auto simp: type_stable_def)
  with cont show ?thesis by (simp add: chain_inv_def)
qed

lemma chain_prune:
  assumes "chain_inv st" and "latest_row st oid = Some r"
    and "ws_revisions st' = ws_revisions st @ [tombstone_row now w a reason r]"
  shows "chain_inv st'"
proof -
  have "contiguous (object_versions st' k)" for k
    using assms(1) prune_versions [OF assms, of k] contiguous_snoc by (auto simp: chain_inv_def)
  moreover have "type_stable (ws_revisions st')"
    unfolding assms(3)
  proof (rule type_stable_append)
    show "type_stable (ws_revisions st)" using assms(1) by (rule chain_types)
    show "rr_object_type q = rr_object_type n" if "n \<in> set [tombstone_row now w a reason r]"
      "q \<in> set (ws_revisions st)" "rr_object_id q = rr_object_id n" for n q
      using type_stableD [OF chain_types [OF assms(1)], of q r] that latest_row_Some [OF assms(2)] by simp
  qed (simp add: type_stable_def)
  ultimately show ?thesis by (simp add: chain_inv_def)
qed

end
