(* ===== verification/WorldTables.thy ===== *)
theory WorldTables
  imports WorldInv
begin

text \<open>
  Commit and prune keep the stamps, the ledger of operations, the payloads and the
  references of the world store.
\<close>

section \<open>Stamps\<close>

lemma stamp_append:
  assumes "stamp_inv st" and "ws_commits st' = ws_commits st @ [c]"
    and "ws_revisions st' = ws_revisions st @ rs"
    and "\<forall>r \<in> set rs. rr_world_revision r = int (length (ws_commits st)) + 1"
  shows "stamp_inv st'"
proof -
  have "sorted (map rr_world_revision rs)"
    using assms(4) by (auto simp: sorted_wrt_iff_nth_less)
  moreover have "rr_world_revision r \<le> rr_world_revision q"
    if "r \<in> set (ws_revisions st)" "q \<in> set rs" for r q
    using that assms(1,4) by (fastforce simp: stamp_inv_def)
  ultimately have "sorted (map rr_world_revision (ws_revisions st'))"
    using assms(1,3) by (simp add: stamp_inv_def sorted_append)
  moreover have "1 \<le> rr_world_revision r \<and> rr_world_revision r \<le> int (length (ws_commits st'))"
    if "r \<in> set (ws_revisions st')" for r
    using that assms by (fastforce simp: stamp_inv_def)
  ultimately show ?thesis by (simp add: stamp_inv_def)
qed

section \<open>The ledger\<close>

lemma keys_at_append:
  assumes "stamp_inv st" and "ws_revisions st' = ws_revisions st @ rs"
    and "\<forall>r \<in> set rs. rr_world_revision r = int (length (ws_commits st)) + 1"
  shows "w \<le> int (length (ws_commits st)) \<Longrightarrow> keys_at w st' = keys_at w st"
    and "keys_at (int (length (ws_commits st)) + 1) st' = map row_key rs"
proof -
  assume "w \<le> int (length (ws_commits st))"
  then have "filter (\<lambda>r. rr_world_revision r = w) rs = []" using assms(3) by (auto simp: filter_empty_conv)
  then show "keys_at w st' = keys_at w st" by (simp add: keys_at_def assms(2))
next
  have "filter (\<lambda>r. rr_world_revision r = int (length (ws_commits st)) + 1) (ws_revisions st) = []"
    using assms(1) by (fastforce simp: stamp_inv_def filter_empty_conv)
  moreover have "filter (\<lambda>r. rr_world_revision r = int (length (ws_commits st)) + 1) rs = rs"
    using assms(3) by simp
  ultimately show "keys_at (int (length (ws_commits st)) + 1) st' = map row_key rs"
    by (simp add: keys_at_def assms(2))
qed

lemma idem_row_keep:
  assumes "stamp_inv st" and "ws_revisions st' = ws_revisions st @ rs"
    and "\<forall>r \<in> set rs. rr_world_revision r = int (length (ws_commits st)) + 1"
    and "ir_world_revision i \<le> int (length (ws_commits st))"
  shows "idem_row_ok st' i = idem_row_ok st i"
  by (simp add: idem_row_ok_def keys_at_append(1) [OF assms])

lemma row_key_content [simp]: "row_key (content_row w ob) = object_key ob"
  by (simp add: row_key_def object_key_def)

lemma ledger_commit:
  assumes "ledger_inv st" and "stamp_inv st" and w: "w = int (length (ws_commits st)) + 1"
    and "write_commit now w op objs h st = Inr (res, st')"
  shows "ledger_inv st'"
proof -
  note f = write_commit_Inr [OF assms(4)]
  let ?i = "idempotency_row_of w op objs h"
  have rows: "ws_revisions st' = ws_revisions st @ map (content_row w) objs"
    "\<forall>r \<in> set (map (content_row w) objs). rr_world_revision r = int (length (ws_commits st)) + 1"
    using f(2) w by simp_all
  have "idem_row_ok st' ?i"
    using keys_at_append(2) [OF assms(2) rows] w
    by (simp add: idem_row_ok_def commit_result_of_def comp_def)
  moreover have "idem_row_ok st' i" if "i \<in> set (ws_idempotency st)" for i
    using idem_row_keep [OF assms(2) rows] assms(1) that by (simp add: ledger_inv_def)
  moreover have "\<forall>i \<in> set (ws_idempotency st). 1 \<le> ir_world_revision i
       \<and> ir_world_revision i \<le> int (length (ws_commits st))"
    using assms(1) by (simp add: ledger_inv_def)
  ultimately have "\<forall>i \<in> set (ws_idempotency st'). idem_row_ok st' i
       \<and> 1 \<le> ir_world_revision i \<and> ir_world_revision i \<le> int (length (ws_commits st'))"
    using f(2) w by fastforce
  moreover have "map (\<lambda>i. (ir_idempotency_key i, ir_operation_id i, ir_world_revision i))
      (ws_idempotency st') = op_ids st'"
    using assms(1) f(2) by (simp add: ledger_inv_def op_ids_def)
  moreover have "distinct (map or_idempotency_key (ws_operations st'))"
    "distinct (map or_operation_id (ws_operations st'))"
    using assms(1) f(2,5) by (auto simp: ledger_inv_def)
  ultimately show ?thesis unfolding ledger_inv_def by blast
qed

lemma ledger_prune:
  assumes "ledger_inv st" and "stamp_inv st" and "ws_commits st' = ws_commits st @ [c]"
    and rows: "ws_revisions st' = ws_revisions st @ rs"
      "\<forall>r \<in> set rs. rr_world_revision r = int (length (ws_commits st)) + 1"
    and same: "ws_operations st' = ws_operations st" "ws_idempotency st' = ws_idempotency st"
  shows "ledger_inv st'"
proof -
  have "idem_row_ok st' i \<and> 1 \<le> ir_world_revision i
      \<and> ir_world_revision i \<le> int (length (ws_commits st'))" if "i \<in> set (ws_idempotency st)" for i
    using idem_row_keep [OF assms(2) rows] assms(1,3) that by (fastforce simp: ledger_inv_def)
  then show ?thesis using assms(1) same unfolding ledger_inv_def by (simp add: op_ids_def)
qed

section \<open>Payloads\<close>

lemma payload_content:
  assumes "valid_object zones ob" and "fits_int64 (wo_revision ob)"
  shows "payload_ok zones (content_row w ob)"
  using assms by (auto simp: payload_ok_def row_key_def object_key_def)

lemma payload_tombstone:
  "1 \<le> rr_revision r \<Longrightarrow> fits_int64 (rr_revision r + 1)
     \<Longrightarrow> payload_ok zones (tombstone_row now w a reason r)"
  by (simp add: payload_ok_def) (simp add: tombstone_row_def)

lemma payload_append:
  "payload_inv zones st \<Longrightarrow> ws_revisions st' = ws_revisions st @ rs
     \<Longrightarrow> (\<And>r. r \<in> set rs \<Longrightarrow> payload_ok zones r) \<Longrightarrow> payload_inv zones st'"
  by (auto simp: payload_inv_def)

text \<open>A payload that is an object is the durable form of a valid one with the row's key.\<close>

lemma payload_objectD:
  assumes "payload_ok zones r" and "rr_payload r = PayloadObject ob"
  obtains src where "valid_object zones src" "ob = durable_object src"
    "wo_object_id src = rr_object_id r" "wo_revision src = rr_revision r"
    "wo_object_type src = rr_object_type r"
    "utc_instant (wo_learned_at src) = rr_learned_at r"
    "utc_instant (wo_recorded_at src) = rr_recorded_at r"
  using assms
  by (auto simp: payload_ok_def object_key_def row_key_def split: revision_kind.splits)

lemma payload_object_id:
  assumes "payload_ok zones r" and "rr_payload r = PayloadObject ob"
  shows "wo_object_id ob = rr_object_id r"
  using payload_objectD [OF assms] by (metis durable_object_fields(1))

lemma row_revision_pos:
  assumes "chain_inv st" and "r \<in> set (ws_revisions st)"
  shows "1 \<le> rr_revision r"
proof -
  have "contiguous (object_versions st (rr_object_id r))" using assms(1) by (simp add: chain_inv_def)
  from contiguous_set [OF this] show ?thesis
    using assms(2) by (fastforce simp: object_versions_def rows_of_def)
qed

section \<open>References\<close>

lemma pydict_refs_durable [simp]: "pydict_refs (durable_dict d) = []"
  by (auto simp: pydict_refs_def durable_dict_def)

lemma durable_refs_subset: "set (collect_refs (durable_object ob)) \<subseteq> set (collect_refs ob)"
proof -
  have "set (body_refs (durable_body b)) \<subseteq> set (body_refs b)" for b
    by (cases b) (auto split: option.splits)
  then show ?thesis by (auto simp: collect_refs_def durable_object_def)
qed

lemma durable_cutoff [simp]: "reference_cutoff (durable_object ob) = reference_cutoff ob"
  by (cases "wo_body ob") (simp_all add: reference_cutoff_def durable_object_def)

lemma reference_exists_resolves:
  assumes "reference_exists st objs cutoff r = Inr True" and "stamp_inv st"
    and "ws_revisions st' = ws_revisions st @ map (content_row w) objs"
    and w: "int (length (ws_commits st)) \<le> w"
  shows "resolves st' w cutoff r"
proof -
  have old: "rr_world_revision q \<le> w" if "q \<in> set (ws_revisions st)" for q
    using that assms(2) w by (fastforce simp: stamp_inv_def)
  show ?thesis
  proof (cases "ref_revision r")
    case None
    with assms(1) consider
        ob where "ob \<in> set objs" "wo_object_id ob = ref_object_id r" "utc_instant (wo_learned_at ob) \<le> cutoff"
      | q where "q \<in> set (ws_revisions st)" "rr_object_id q = ref_object_id r" "rr_learned_at q \<le> cutoff"
      by (auto simp: reference_exists_def list_ex_iff)
    then show ?thesis
    proof cases
      case 1
      then show ?thesis unfolding resolves_def assms(3)
        by (intro bexI [of _ "content_row w ob"]) (auto simp: None)
    next
      case 2
      with old show ?thesis unfolding resolves_def assms(3) by (intro bexI [of _ q]) (auto simp: None)
    qed
  next
    case (Some v)
    show ?thesis
    proof (cases "pending_object objs (ref_object_id r, v)")
      case None
      with assms(1) Some obtain q where "q \<in> set (ws_revisions st)"
        "row_key q = (ref_object_id r, v)" "rr_learned_at q \<le> cutoff"
        by (auto simp: reference_exists_def list_ex_iff split: if_splits)
      with old Some show ?thesis unfolding resolves_def assms(3)
        by (intro bexI [of _ q]) (auto simp: row_key_def)
    next
      case (Some t)
      then have "t \<in> set objs" "object_key t = (ref_object_id r, v)"
        by (auto simp: pending_object_def dest: find_Some_in)
      with assms(1) Some \<open>ref_revision r = Some v\<close> show ?thesis
        unfolding resolves_def assms(3)
        by (intro bexI [of _ "content_row w t"]) (auto simp: reference_exists_def object_key_def)
    qed
  qed
qed

lemma check_references_Inr:
  assumes "check_references st objs ob = Inr ()" and "x \<in> set (collect_refs ob)"
  shows "\<not> (ref_object_id x = wo_object_id ob \<and> ref_revision x \<in> {None, Some (wo_revision ob)})"
    and "reference_exists st objs (utc_instant (reference_cutoff ob)) x = Inr True"
proof -
  have "check_reference st objs ob x = Inr ()"
    using assms by (auto simp: check_references_def result_map_unit)
  then show "\<not> (ref_object_id x = wo_object_id ob \<and> ref_revision x \<in> {None, Some (wo_revision ob)})"
    and "reference_exists st objs (utc_instant (reference_cutoff ob)) x = Inr True"
    by (auto simp: check_reference_def canonical_Inr_iff split: if_splits sum.splits)
qed

lemma resolves_mono:
  "resolves st w c x \<Longrightarrow> set (ws_revisions st) \<subseteq> set (ws_revisions st') \<Longrightarrow> resolves st' w c x"
  unfolding resolves_def by blast

lemma row_resolved_mono:
  "row_resolved st r \<Longrightarrow> set (ws_revisions st) \<subseteq> set (ws_revisions st') \<Longrightarrow> row_resolved st' r"
  unfolding row_resolved_def using resolves_mono by blast

lemma reference_commit:
  assumes "reference_inv st" and "stamp_inv st" and "accepted zones digest objs op st w h"
    and rows: "ws_revisions st' = ws_revisions st @ map (content_row w') objs"
    and "int (length (ws_commits st)) \<le> w'"
  shows "reference_inv st'"
proof -
  have "row_resolved st' (content_row w' ob)" if "ob \<in> set objs" for ob
  proof -
    have ok: "check_references st objs ob = Inr ()" using assms(3) that by (simp add: accepted_def)
    show ?thesis unfolding row_resolved_def
    proof (intro allI impI ballI)
      fix o' x assume "rr_payload (content_row w' ob) = PayloadObject o'" "x \<in> set (collect_refs o')"
      then have o': "o' = durable_object ob" and x: "x \<in> set (collect_refs ob)"
        using durable_refs_subset by auto
      from check_references_Inr [OF ok x] reference_exists_resolves [OF _ assms(2) rows assms(5)] o'
      show "resolves st' (rr_world_revision (content_row w' ob)) (utc_instant (reference_cutoff o')) x
        \<and> \<not> (ref_object_id x = rr_object_id (content_row w' ob)
              \<and> ref_revision x \<in> {None, Some (rr_revision (content_row w' ob))})" by simp
    qed
  qed
  moreover have "row_resolved st' r" if "r \<in> set (ws_revisions st)" for r
    using row_resolved_mono [of st r st'] assms(1) rows that by (simp add: reference_inv_def)
  ultimately show ?thesis using rows unfolding reference_inv_def by auto
qed

lemma reference_prune:
  assumes "reference_inv st" and rows: "ws_revisions st' = ws_revisions st @ [tombstone_row now w a reason r]"
  shows "reference_inv st'"
proof -
  have "row_resolved st' (tombstone_row now w a reason r)"
    by (simp add: row_resolved_def tombstone_row_def)
  moreover have "row_resolved st' q" if "q \<in> set (ws_revisions st)" for q
    using row_resolved_mono [of st q st'] assms(1) rows that by (auto simp: reference_inv_def)
  ultimately show ?thesis using rows by (simp add: reference_inv_def)
qed

end
