(* ===== verification/WorldGraph.thy ===== *)
theory WorldGraph
  imports WorldTables
begin

text \<open>
  The dependency graph over the newest versions stays acyclic: an accepted commit checked
  the graph it leads to. With it, every step of the store keeps the whole invariant, and
  the store is a version chain and a clocked log.
\<close>

section \<open>The graph a commit checks\<close>

lemma map_of_update_all: "map_of (update_all kvs m) = map_of m ++ map_of (rev kvs)"
proof (induction kvs arbitrary: m)
  case (Cons kv kvs)
  then show ?case by (cases kv) (simp add: update_all_def update_conv' map_add_upd_left fun_eq_iff map_add_def split: option.splits)
qed (simp add: update_all_def)

lemma map_of_functional:
  assumes "(k, v) \<in> set kvs" and "\<And>v'. (k, v') \<in> set kvs \<Longrightarrow> v' = v"
  shows "map_of (rev kvs) k = Some v"
proof (cases "map_of (rev kvs) k")
  case None
  with assms(1) show ?thesis by (force simp: map_of_eq_None_iff)
next
  case (Some v')
  then have "(k, v') \<in> set kvs" by (auto dest: map_of_SomeD)
  with assms(2) Some show ?thesis by simp
qed

lemma update_all_mem: "map_of (rev kvs) k = Some v \<Longrightarrow> v \<in> set (map snd (update_all kvs []))"
proof -
  assume "map_of (rev kvs) k = Some v"
  then have "map_of (update_all kvs []) k = Some v" by (simp add: map_of_update_all)
  then show ?thesis by (force dest: map_of_SomeD)
qed

text \<open>The later list wins.\<close>

lemma update_all_later:
  assumes "(k, v) \<in> set kvs" and "\<And>v'. (k, v') \<in> set kvs \<Longrightarrow> v' = v"
  shows "v \<in> set (map snd (update_all (old @ kvs) []))"
  using map_of_functional [OF assms] by (intro update_all_mem [of _ k]) (simp add: map_add_def)

lemma update_all_earlier:
  assumes "(k, v) \<in> set old" and "\<And>v'. (k, v') \<in> set old \<Longrightarrow> v' = v" and "k \<notin> fst ` set kvs"
  shows "v \<in> set (map snd (update_all (old @ kvs) []))"
proof -
  have "map_of (rev kvs) k = None" using assms(3) by (simp add: map_of_eq_None_iff)
  with map_of_functional [OF assms(1,2)] show ?thesis
    by (intro update_all_mem [of _ k]) (simp add: map_add_def)
qed

lemma dep_edges_mono: "set ds \<subseteq> set es \<Longrightarrow> dep_edges ds \<subseteq> dep_edges es"
  by (auto simp: dep_edges_def)

lemma acyclic_dep_edges_mono: "acyclic (dep_edges es) \<Longrightarrow> set ds \<subseteq> set es \<Longrightarrow> acyclic (dep_edges ds)"
  using acyclic_subset dep_edges_mono by blast

lemma map_filter_set: "set (List.map_filter f xs) = {y. \<exists>x \<in> set xs. f x = Some y}"
  by (force simp: List.map_filter_def)

lemma pending_dependencies_iff:
  "(k, e) \<in> set (pending_dependencies objs) \<longleftrightarrow>
     (\<exists>ob \<in> set objs. k = wo_object_id ob \<and> dependency_of ob = Some e)"
  by (auto simp: pending_dependencies_def map_filter_set)

lemma live_dependencies_iff:
  "e \<in> set (live_dependencies st) \<longleftrightarrow> (\<exists>r \<in> set (dependency_rows st). row_dependency r = Some e)"
  by (simp add: live_dependencies_def map_filter_set)

lemma dependency_of_type: "dependency_of ob = Some e \<longleftrightarrow> wo_body ob = Dependency e"
  by (cases "wo_body ob") (auto simp: dependency_of_def)

lemma dependency_of_durable [simp]: "dependency_of (durable_object ob) = dependency_of ob"
  by (cases "wo_body ob") (simp_all add: dependency_of_def durable_object_def)

lemma dependency_type: "dependency_of ob \<noteq> None \<longleftrightarrow> wo_object_type ob = OT_DEPENDENCY"
  by (cases "wo_body ob") (simp_all add: dependency_of_def wo_object_type_def)

lemma validate_graph_Inr:
  assumes "validate_dependency_graph zones st objs = Inr ()" and "pending_dependencies objs \<noteq> []"
  obtains current where
    "result_map (\<lambda>r. dependency_payload zones (rr_payload r)) (dependency_rows st) = Inr current"
    and "acyclic (dep_edges (map snd (update_all (current @ pending_dependencies objs) [])))"
proof -
  from assms obtain current where c:
    "result_map (\<lambda>r. dependency_payload zones (rr_payload r)) (dependency_rows st) = Inr current"
    by (auto simp: validate_dependency_graph_def)
  with assms have "validate_dependency_graph_acyclic
      (map snd (update_all (current @ pending_dependencies objs) [])) = Some (Inr ())"
    by (auto simp: validate_dependency_graph_def split: option.splits sum.splits graph_error.splits)
  then show thesis using that [OF c] by (simp add: validate_acyclic_iff)
qed

lemma dependency_payload_Inr:
  "dependency_payload zones p = Inr (k, e) \<longleftrightarrow> (\<exists>ob. p = PayloadObject ob \<and> k = wo_object_id ob
     \<and> dependency_of ob = Some e \<and> valid_object zones ob)"
  by (auto simp: dependency_payload_def split: payload.splits option.splits if_splits)

text \<open>A live dependency after a commit was live before and is not rewritten, or is pending.\<close>

lemma dependency_rows_unique:
  assumes "chain_inv st" and "r \<in> set (dependency_rows st)" and "q \<in> set (dependency_rows st)"
    and "rr_object_id r = rr_object_id q"
  shows "r = q"
  using assms by (intro rows_unique [OF assms(1)]) (auto simp: dependency_rows_def row_key_def)

lemma dependency_rows_append:
  assumes "ws_revisions st' = ws_revisions st @ rs" and "r \<in> set (dependency_rows st')"
    and "r \<in> set (ws_revisions st)"
  shows "r \<in> set (dependency_rows st)
    \<and> (\<forall>q \<in> set rs. rr_object_type q = OT_DEPENDENCY \<longrightarrow> rr_object_id q = rr_object_id r
         \<longrightarrow> rr_revision q \<le> rr_revision r)"
proof -
  let ?vs = "dependency_versions st (rr_object_id r)"
  have app: "dependency_versions st' (rr_object_id r) = ?vs
      @ map rr_revision (filter (\<lambda>q. rr_object_type q = OT_DEPENDENCY)
          (filter (\<lambda>q. rr_object_id q = rr_object_id r) rs))"
    using assms(1) by (simp add: dependency_versions_def rows_of_def)
  have r: "rr_object_type r = OT_DEPENDENCY"
    "sql_max (dependency_versions st' (rr_object_id r)) = Some (rr_revision r)"
    using assms(2) by (auto simp: dependency_rows_def)
  have in_vs: "rr_revision r \<in> set ?vs"
    using r(1) assms(3) by (auto simp: dependency_versions_def rows_of_def)
  have all: "\<forall>v \<in> set (dependency_versions st' (rr_object_id r)). v \<le> rr_revision r"
    using sql_max_Some [OF r(2)] by blast
  have "Max (set ?vs) = rr_revision r" using in_vs all app by (intro Max_eqI) auto
  then have "sql_max ?vs = Some (rr_revision r)" using in_vs by (auto simp: sql_max_def)
  then show ?thesis using r assms(3) all app by (auto simp: dependency_rows_def)
qed

text \<open>What the commit decoded from the current dependency rows.\<close>

lemma current_dependencies:
  assumes "payload_inv zones st"
    and "result_map (\<lambda>r. dependency_payload zones (rr_payload r)) (dependency_rows st) = Inr current"
  shows "(k, e) \<in> set current \<longleftrightarrow>
    (\<exists>r \<in> set (dependency_rows st). k = rr_object_id r \<and> row_dependency r = Some e)"
proof -
  have all: "list_all2 (\<lambda>r ke. dependency_payload zones (rr_payload r) = Inr ke) (dependency_rows st) current"
    using assms(2) by (simp add: result_map_Inr_iff)
  have id: "ke = (rr_object_id r, e')"
    if "r \<in> set (dependency_rows st)" "dependency_payload zones (rr_payload r) = Inr ke"
      "row_dependency r = Some e'" for r ke e'
  proof -
    have "payload_ok zones r" using that(1) assms(1) by (auto simp: payload_inv_def dependency_rows_def)
    with that(2,3) payload_object_id show ?thesis
      by (cases ke) (auto simp: dependency_payload_Inr row_dependency_def)
  qed
  have dep: "row_dependency r = Some (snd ke)" if "dependency_payload zones (rr_payload r) = Inr ke" for r ke
    using that by (cases ke) (auto simp: dependency_payload_Inr row_dependency_def)
  show ?thesis
  proof
    assume "(k, e) \<in> set current"
    with all obtain r where r: "r \<in> set (dependency_rows st)"
      "dependency_payload zones (rr_payload r) = Inr (k, e)"
      by (blast dest: list_all2_right)
    from dep [OF r(2)] have "row_dependency r = Some e" by simp
    with id [OF r this] r(1) show "\<exists>r \<in> set (dependency_rows st). k = rr_object_id r
        \<and> row_dependency r = Some e" by (intro bexI [of _ r]) simp_all
  next
    assume "\<exists>r \<in> set (dependency_rows st). k = rr_object_id r \<and> row_dependency r = Some e"
    then obtain r where r: "r \<in> set (dependency_rows st)" "k = rr_object_id r" "row_dependency r = Some e"
      by blast
    with all obtain ke where "ke \<in> set current" "dependency_payload zones (rr_payload r) = Inr ke"
      by (blast dest: list_all2_left)
    with id [OF r(1) _ r(3)] r show "(k, e) \<in> set current" by simp
  qed
qed

text \<open>A rewritten dependency is not live in its old version.\<close>

lemma live_not_pending:
  assumes "chain_inv st" and acc: "accepted zones digest objs op st w h"
    and rows: "ws_revisions st' = ws_revisions st @ map (content_row w') objs"
    and r: "r \<in> set (dependency_rows st')" "r \<in> set (ws_revisions st)"
  shows "(rr_object_id r, e) \<notin> set (pending_dependencies objs)"
proof
  assume "(rr_object_id r, e) \<in> set (pending_dependencies objs)"
  then obtain ob where ob: "ob \<in> set objs" "rr_object_id r = wo_object_id ob" "dependency_of ob = Some e"
    by (auto simp: pending_dependencies_iff)
  let ?vs = "object_versions st (wo_object_id ob)"
  have "wo_object_type ob = OT_DEPENDENCY" using ob(3) dependency_type by force
  with dependency_rows_append [OF rows r] ob have "wo_revision ob \<le> rr_revision r" by fastforce
  moreover have "wo_revision ob = next_version ?vs"
    using acc ob(1) by (auto simp: accepted_def check_revision_Inr)
  moreover have "rr_revision r \<in> set ?vs"
    using r(2) ob(2) by (auto simp: object_versions_def rows_of_def)
  moreover have c: "contiguous ?vs" using assms(1) by (simp add: chain_inv_def)
  ultimately show False using contiguous_next [OF c] contiguous_set [OF c] by auto
qed

lemma live_after_commit:
  assumes inv: "chain_inv st" "payload_inv zones st"
    and acc: "accepted zones digest objs op st w h"
    and rows: "ws_revisions st' = ws_revisions st @ map (content_row w') objs"
    and cur: "result_map (\<lambda>r. dependency_payload zones (rr_payload r)) (dependency_rows st) = Inr current"
  shows "set (live_dependencies st')
    \<subseteq> set (map snd (update_all (current @ pending_dependencies objs) []))"
proof
  fix e assume "e \<in> set (live_dependencies st')"
  then obtain r where r: "r \<in> set (dependency_rows st')" "row_dependency r = Some e"
    by (auto simp: live_dependencies_iff)
  note mem = current_dependencies [OF inv(2) cur]
  show "e \<in> set (map snd (update_all (current @ pending_dependencies objs) []))"
  proof (cases "r \<in> set (ws_revisions st)")
    case True
    with dependency_rows_append [OF rows r(1)] have old: "r \<in> set (dependency_rows st)" by blast
    show ?thesis
    proof (rule update_all_earlier)
      show "(rr_object_id r, e) \<in> set current" using mem old r(2) by blast
      show "e' = e" if "(rr_object_id r, e') \<in> set current" for e'
        using that mem dependency_rows_unique [OF inv(1) old] r(2) by fastforce
      show "rr_object_id r \<notin> fst ` set (pending_dependencies objs)"
        using live_not_pending [OF inv(1) acc rows r(1) True] by auto
    qed
  next
    case False
    with r rows obtain ob where ob: "ob \<in> set objs" "r = content_row w' ob"
      by (auto simp: dependency_rows_def)
    with r(2) have "dependency_of ob = Some e" by (simp add: row_dependency_def)
    with ob(1) have "(wo_object_id ob, e) \<in> set (pending_dependencies objs)"
      by (auto simp: pending_dependencies_iff)
    then show ?thesis
    proof (rule update_all_later)
      show "e' = e" if "(wo_object_id ob, e') \<in> set (pending_dependencies objs)" for e'
        using that ob(1) \<open>dependency_of ob = Some e\<close> accepted_distinct_ids [OF acc]
        by (auto simp: pending_dependencies_iff distinct_map inj_on_def)
    qed
  qed
qed

lemma live_without_pending:
  assumes "pending_dependencies objs = []"
    and rows: "ws_revisions st' = ws_revisions st @ map (content_row w') objs"
  shows "set (live_dependencies st') \<subseteq> set (live_dependencies st)"
proof
  fix e assume "e \<in> set (live_dependencies st')"
  then obtain r where r: "r \<in> set (dependency_rows st')" "row_dependency r = Some e"
    by (auto simp: live_dependencies_iff)
  have "r \<in> set (ws_revisions st)"
  proof (rule ccontr)
    assume "r \<notin> set (ws_revisions st)"
    with r rows obtain ob where ob: "ob \<in> set objs" "r = content_row w' ob"
      by (auto simp: dependency_rows_def)
    with r(2) have "dependency_of ob = Some e" by (simp add: row_dependency_def)
    with ob(1) have "(wo_object_id ob, e) \<in> set (pending_dependencies objs)"
      by (auto simp: pending_dependencies_iff)
    with assms(1) show False by simp
  qed
  with dependency_rows_append [OF rows r(1)] r(2) show "e \<in> set (live_dependencies st)"
    by (auto simp: live_dependencies_iff)
qed

lemma graph_commit:
  assumes inv: "graph_inv st" "chain_inv st" "payload_inv zones st"
    and acc: "accepted zones digest objs op st w h"
    and rows: "ws_revisions st' = ws_revisions st @ map (content_row w') objs"
  shows "graph_inv st'"
proof (cases "pending_dependencies objs = []")
  case True
  from inv(1) live_without_pending [OF True rows] show ?thesis
    unfolding graph_inv_def by (rule acyclic_dep_edges_mono)
next
  case False
  have "validate_dependency_graph zones st objs = Inr ()" using acc by (simp add: accepted_def)
  then obtain current where
    cur: "result_map (\<lambda>r. dependency_payload zones (rr_payload r)) (dependency_rows st) = Inr current"
    and "acyclic (dep_edges (map snd (update_all (current @ pending_dependencies objs) [])))"
    using validate_graph_Inr False by blast
  then show ?thesis using live_after_commit [OF inv(2,3) acc rows cur]
    unfolding graph_inv_def by (metis acyclic_dep_edges_mono)
qed

lemma graph_prune:
  assumes "graph_inv st" and rows: "ws_revisions st' = ws_revisions st @ [tombstone_row now w a reason r]"
  shows "graph_inv st'"
proof -
  have "set (live_dependencies st') \<subseteq> set (live_dependencies st)"
  proof
    fix e assume "e \<in> set (live_dependencies st')"
    then obtain q where q: "q \<in> set (dependency_rows st')" "row_dependency q = Some e"
      by (auto simp: live_dependencies_iff)
    then have "q \<noteq> tombstone_row now w a reason r" by (auto simp: row_dependency_def tombstone_row_def)
    moreover have "q \<in> set (ws_revisions st')" using q(1) by (simp add: dependency_rows_def)
    ultimately have "q \<in> set (ws_revisions st)" using rows by simp
    with dependency_rows_append [OF rows q(1)] q(2) show "e \<in> set (live_dependencies st)"
      by (auto simp: live_dependencies_iff)
  qed
  with assms(1) show ?thesis unfolding graph_inv_def by (rule acyclic_dep_edges_mono)
qed

section \<open>Every step keeps the invariant\<close>

lemma world_inv_initial: "world_inv zones initial_store"
  by (simp add: world_inv_def clock_inv_def chain_inv_def stamp_inv_def ledger_inv_def
      payload_inv_def reference_inv_def graph_inv_def initial_store_def object_versions_def
      rows_of_def type_stable_def op_ids_def live_dependencies_def dependency_rows_def
      List.map_filter_def dep_edges_def acyclic_def sqlite_int64_max_def)

lemma world_inv_commit:
  assumes "world_inv zones st" and "commit zones digest now objs op st = (r, st')"
  shows "world_inv zones st'"
proof (cases r)
  case (Inl e)
  with assms commit_Inl show ?thesis by fast
next
  case (Inr res)
  with assms(2) have "commit zones digest now objs op st = (Inr res, st')" by simp
  then show ?thesis
  proof (cases rule: commit_Inr_cases)
    case replay
    with assms(1) show ?thesis by simp
  next
    case (fresh w h)
    have inv: "clock_inv st" "chain_inv st" "stamp_inv st" "ledger_inv st"
      "payload_inv zones st" "reference_inv st" "graph_inv st"
      using assms(1) by (simp_all add: world_inv_def)
    note f = write_commit_Inr [OF fresh(4)]
    have w: "w = int (length (ws_commits st))"
      using fresh(3) clock_revision(1) [OF inv(1)] by (simp add: accepted_def)
    have rows: "ws_revisions st' = ws_revisions st @ map (content_row (w + 1)) objs"
      and coms: "ws_commits st' = ws_commits st @ [commit_row_of (w + 1) now op]"
      using f(2) by simp_all
    have "clock_inv st'"
      using f(2-4) w by (intro clock_snoc [OF inv(1) _ _ _ coms]) (auto simp: fits_int64_def)
    moreover have "stamp_inv st'" using w by (intro stamp_append [OF inv(3) coms rows]) auto
    moreover have "ledger_inv st'" using ledger_commit [OF inv(4,3) _ fresh(4)] w by simp
    moreover have "payload_inv zones st'"
      using fresh(3) f(7) payload_content
      by (intro payload_append [OF inv(5) rows]) (auto simp: accepted_def)
    moreover have "reference_inv st'"
      using reference_commit [OF inv(6,3) fresh(3) rows] w by simp
    ultimately show ?thesis
      using chain_commit [OF inv(2) fresh(3) rows] graph_commit [OF inv(7,2,5) fresh(3) rows]
      by (simp add: world_inv_def)
  qed
qed

lemma world_inv_prune:
  assumes "world_inv zones st" and "prune now oid authz_ref reason st = (r, st')"
  shows "world_inv zones st'"
proof (cases r)
  case (Inl e)
  with assms prune_Inl show ?thesis by fast
next
  case (Inr u)
  with assms(2) have p: "prune now oid authz_ref reason st = (Inr u, st')" by simp
  have inv: "clock_inv st" "chain_inv st" "stamp_inv st" "ledger_inv st"
    "payload_inv zones st" "reference_inv st" "graph_inv st"
    using assms(1) by (simp_all add: world_inv_def)
  from p show ?thesis
  proof (cases rule: prune_Inr)
    case (1 x w)
    have w: "w = int (length (ws_commits st))" using 1(2) clock_revision(2) [OF inv(1)] by simp
    have "clock_inv st'"
      using 1(3,5,6) w by (intro clock_snoc [OF inv(1) _ _ _ 1(7)]) (auto simp: fits_int64_def)
    moreover have "stamp_inv st'" using w by (intro stamp_append [OF inv(3) 1(7,8)]) auto
    moreover have "ledger_inv st'" using w by (intro ledger_prune [OF inv(4,3) 1(7,8) _ 1(9,10)]) auto
    moreover have "payload_inv zones st'"
      using row_revision_pos [OF inv(2)] latest_row_Some [OF 1(1)] payload_tombstone 1(4)
      by (intro payload_append [OF inv(5) 1(8)]) auto
    ultimately show ?thesis
      using chain_prune [OF inv(2) 1(1,8)] graph_prune [OF inv(7) 1(8)] reference_prune [OF inv(6) 1(8)]
      by (simp add: world_inv_def)
  qed
qed

end
