(* ===== verification/WorldHistory.thy ===== *)
theory WorldHistory
  imports WorldGraph
begin

text \<open>
  Runs of the world store: the step relation over commits and prunes, the store as a
  version chain and as two clocked logs, and what a reader or a retrying writer can rely on
  however the store goes on: historical reads do not change, a retry answers the first
  result, a key never serves a second request.
\<close>

section \<open>Steps\<close>

inductive world_step ::
    "(string \<Rightarrow> bool) \<Rightarrow> (identity_text \<Rightarrow> 'h) \<Rightarrow> 'h world_store \<Rightarrow> 'h world_store \<Rightarrow> bool"
  for zones digest where
  step_commit: "commit zones digest now objs op st = (r, st') \<Longrightarrow> world_step zones digest st st'"
| step_prune: "prune now oid authz_ref reason st = (r, st') \<Longrightarrow> world_step zones digest st st'"

inductive_cases world_stepE: "world_step zones digest st st'"

lemma world_step_cases:
  assumes "world_step zones digest st st'"
  obtains (commit) now objs op r where "commit zones digest now objs op st = (r, st')"
  | (prune) now oid authz_ref reason r where "prune now oid authz_ref reason st = (r, st')"
  using assms by (elim world_stepE) blast+

abbreviation world_steps ::
    "(string \<Rightarrow> bool) \<Rightarrow> (identity_text \<Rightarrow> 'h) \<Rightarrow> 'h world_store \<Rightarrow> 'h world_store \<Rightarrow> bool" where
  "world_steps zones digest \<equiv> (world_step zones digest)\<^sup>*\<^sup>*"

definition world_clock :: "'h world_store \<Rightarrow> int" where
  "world_clock st = int (length (ws_commits st))"

lemma world_inv_step: "world_inv zones st \<Longrightarrow> world_step zones digest st st' \<Longrightarrow> world_inv zones st'"
  by (elim world_stepE) (auto intro: world_inv_commit world_inv_prune)

text \<open>What one step appends: nothing, or rows of one new commit.\<close>

lemma world_step_appends:
  assumes "world_inv zones st" and "world_step zones digest st st'"
  shows "st' = st \<or> (\<exists>c rs. ws_commits st' = ws_commits st @ [c]
    \<and> cm_world_revision c = world_clock st + 1
    \<and> ws_revisions st' = ws_revisions st @ rs
    \<and> (\<forall>r \<in> set rs. rr_world_revision r = world_clock st + 1)
    \<and> (\<exists>ops. ws_operations st' = ws_operations st @ ops)
    \<and> (\<exists>ids. ws_idempotency st' = ws_idempotency st @ ids))"
proof -
  have clk: "clock_inv st" using assms(1) by (simp add: world_inv_def)
  from assms(2) show ?thesis
  proof (cases rule: world_step_cases)
    case (commit now objs op r)
    show ?thesis
    proof (cases r)
      case (Inl e)
      with commit commit_Inl show ?thesis by blast
    next
      case (Inr res)
      with commit have "commit zones digest now objs op st = (Inr res, st')" by simp
      then show ?thesis
      proof (cases rule: commit_Inr_cases)
        case (fresh w h)
        then have "w = world_clock st"
          using clock_revision(1) [OF clk] by (simp add: accepted_def world_clock_def)
        with write_commit_Inr(2) [OF fresh(4)] show ?thesis
          by (intro disjI2 exI [of _ "commit_row_of (w + 1) now op"]
              exI [of _ "map (content_row (w + 1)) objs"]) simp
      qed simp
    qed
  next
    case (prune now oid a reason r)
    show ?thesis
    proof (cases r)
      case (Inl e)
      with prune prune_Inl show ?thesis by blast
    next
      case (Inr u)
      with prune have "prune now oid a reason st = (Inr u, st')" by simp
      then show ?thesis
      proof (cases rule: prune_Inr)
        case (1 x w)
        then have "w = world_clock st" using clock_revision(2) [OF clk] by (simp add: world_clock_def)
        with 1 show ?thesis by simp
      qed
    qed
  qed
qed

lemma world_step_versions:
  assumes "world_inv zones st" and "world_step zones digest st st'"
  shows "object_versions st' oid = object_versions st oid
    \<or> object_versions st' oid = object_versions st oid @ [next_version (object_versions st oid)]"
proof -
  have chain: "chain_inv st" using assms(1) by (simp add: world_inv_def)
  from assms(2) show ?thesis
  proof (cases rule: world_step_cases)
    case (commit now objs op r)
    show ?thesis
    proof (cases r)
      case (Inl e)
      with commit commit_Inl show ?thesis by blast
    next
      case (Inr res)
      with commit have "commit zones digest now objs op st = (Inr res, st')" by simp
      then show ?thesis
      proof (cases rule: commit_Inr_cases)
        case (fresh w h)
        then show ?thesis
          using commit_versions [OF fresh(3), of st' "w + 1" oid] write_commit_Inr(2) [OF fresh(4)]
          by auto
      qed simp
    qed
  next
    case (prune now k a reason r)
    show ?thesis
    proof (cases r)
      case (Inl e)
      with prune prune_Inl show ?thesis by blast
    next
      case (Inr u)
      with prune have "prune now k a reason st = (Inr u, st')" by simp
      then show ?thesis
      proof (cases rule: prune_Inr)
        case (1 x w)
        then show ?thesis using prune_versions [OF chain 1(1,8), of oid] by auto
      qed
    qed
  qed
qed

section \<open>The store as a version chain and as clocked logs\<close>

interpretation objects: version_chain object_versions "world_inv zones" "world_step zones digest"
  for zones and digest :: "identity_text \<Rightarrow> 'h"
proof
  show "contiguous (object_versions st oid)" if "world_inv zones st" for st :: "'h world_store" and oid
    using that by (simp add: world_inv_def chain_inv_def)
qed (fact world_inv_step world_step_versions)+

interpretation commits: clocked_log ws_commits cm_world_revision world_clock "world_inv zones"
    "world_step zones digest"
  for zones and digest :: "identity_text \<Rightarrow> 'h"
proof
  fix st st' :: "'h world_store" and c
  show "cm_world_revision c \<le> world_clock st" if "world_inv zones st" "c \<in> set (ws_commits st)"
  proof -
    have "contiguous (map cm_world_revision (ws_commits st))"
      using that(1) by (simp add: world_inv_def clock_inv_def)
    from contiguous_set [OF this] that(2) show ?thesis by (fastforce simp: world_clock_def)
  qed
  assume inv: "world_inv zones st" and step: "world_step zones digest st st'"
  show "world_inv zones st'" using inv step by (rule world_inv_step)
  show "\<exists>new. ws_commits st' = ws_commits st @ new \<and> (\<forall>r \<in> set new. world_clock st < cm_world_revision r)"
    and "world_clock st \<le> world_clock st'"
    using world_step_appends [OF inv step] by (auto simp: world_clock_def)
qed

interpretation revisions: clocked_log ws_revisions rr_world_revision world_clock "world_inv zones"
    "world_step zones digest"
  for zones and digest :: "identity_text \<Rightarrow> 'h"
proof
  fix st st' :: "'h world_store" and r
  show "rr_world_revision r \<le> world_clock st" if "world_inv zones st" "r \<in> set (ws_revisions st)"
    using that by (auto simp: world_inv_def stamp_inv_def world_clock_def)
  assume inv: "world_inv zones st" and step: "world_step zones digest st st'"
  show "world_inv zones st'" using inv step by (rule world_inv_step)
  show "\<exists>new. ws_revisions st' = ws_revisions st @ new \<and> (\<forall>r \<in> set new. world_clock st < rr_world_revision r)"
    and "world_clock st \<le> world_clock st'"
    using world_step_appends [OF inv step] by (auto simp: world_clock_def)
qed

section \<open>Historical reads\<close>

lemma get_payload_stable:
  assumes "world_steps zones digest st st'" and "world_inv zones st" and "w \<le> world_clock st"
  shows "get_payload st' oid revision (Some w) cutoff = get_payload st oid revision (Some w) cutoff"
proof -
  have "filter (\<lambda>r. rr_object_id r = oid \<and> (case v of None \<Rightarrow> True | Some v \<Rightarrow> rr_revision r = v)
      \<and> visible (Some w) c r) (ws_revisions st')
    = filter (\<lambda>r. rr_object_id r = oid \<and> (case v of None \<Rightarrow> True | Some v \<Rightarrow> rr_revision r = v)
      \<and> visible (Some w) c r) (ws_revisions st)" for v c
    by (rule revisions.cut_stable [OF assms]) (simp add: visible_def)
  then have eq: "latest_by rr_revision (filter (\<lambda>r. rr_object_id r = oid
      \<and> (case v of None \<Rightarrow> True | Some v \<Rightarrow> rr_revision r = v) \<and> visible (Some w) c r) (ws_revisions st'))
    = latest_by rr_revision (filter (\<lambda>r. rr_object_id r = oid
      \<and> (case v of None \<Rightarrow> True | Some v \<Rightarrow> rr_revision r = v) \<and> visible (Some w) c r) (ws_revisions st))" for v c
    by simp
  show ?thesis unfolding get_payload_def normalize_opt_def
    by (cases "normalize_query_integer w") (auto simp: result_bind_def normalize_query_integer_def eq
        split: sum.splits if_splits)
qed

lemma list_payloads_stable:
  assumes "world_steps zones digest st st'" and "world_inv zones st" and "w \<le> world_clock st"
  shows "list_payloads st' t s (Some w) cutoff = list_payloads st t s (Some w) cutoff"
proof -
  have eq: "filter (visible (Some w) c) (ws_revisions st') = filter (visible (Some w) c) (ws_revisions st)" for c
    by (rule revisions.cut_stable [OF assms]) (simp add: visible_def)
  show ?thesis
    by (cases "normalize_query_integer w")
      (auto simp: list_payloads_def list_payloads_historical_def normalize_opt_def
        normalize_query_integer_def result_bind_def eq split: sum.splits if_splits)
qed

end
