(* ===== verification/TurnSafety.thy ===== *)
theory TurnSafety
  imports TurnExec AttemptRecovery WorldHistory
begin

text \<open>
  The claims of user turns over time. Every operation changes the row of a turn as a small
  machine allows; runs are counted by events, and a retry is tied to what the attempts ledger
  proves about the requests of the turn.
\<close>

section \<open>One row\<close>

lemma find_map:
  assumes "\<And>x. P (f x) = P x"
  shows "List.find P (map f xs) = map_option f (List.find P xs)"
  using assms by (induction xs) auto

lemma turn_of_key: "turn_of db k = Some r \<Longrightarrow> tx_key r = k"
  by (auto simp: turn_of_def find_Some_iff)

lemma turn_of_update:
  assumes "\<And>r. tx_key (f r) = tx_key r"
  shows "turn_of (update_turn k p f db) j = map_option (\<lambda>r. if tx_key r = k \<and> p r then f r else r) (turn_of db j)"
  using assms by (simp add: turn_of_def update_turn_def update_rows_def find_map)

lemma turn_of_append: "turn_of (db\<lparr>td_turns := td_turns db @ [r]\<rparr>) j =
    (case turn_of db j of None \<Rightarrow> if tx_key r = j then Some r else None | Some q \<Rightarrow> Some q)"
proof -
  have "List.find P (xs @ [r]) = (case List.find P xs of None \<Rightarrow> if P r then Some r else None | Some q \<Rightarrow> Some q)"
    for P and xs :: "turn_row list" by (induction xs) auto
  then show ?thesis by (simp add: turn_of_def)
qed

lemma turn_of_other [simp]:
  "turn_of (db\<lparr>td_runtime := rt\<rparr>) j = turn_of db j" "turn_of (db\<lparr>td_world := w\<rparr>) j = turn_of db j"
  by (simp_all add: turn_of_def)

lemma update_turn_other [simp]:
  "td_runtime (update_turn k p f db) = td_runtime db" "td_world (update_turn k p f db) = td_world db"
  by (simp_all add: update_turn_def)

section \<open>Events and runs\<close>

datatype turn_event = Granted turn_key | Authorized turn_key | Quiet

definition event_of :: "turn_event \<Rightarrow> ('h, 'r) turn_result \<Rightarrow> turn_event" where
  "event_of e run = (case fst run of Inr _ \<Rightarrow> e | Inl _ \<Rightarrow> Quiet)"

inductive turn_step ::
    "(string \<Rightarrow> bool) \<Rightarrow> (identity_text \<Rightarrow> 'h) \<Rightarrow> codec \<Rightarrow> turn_event \<Rightarrow> 'h turn_db \<Rightarrow> 'h turn_db \<Rightarrow> bool"
  for zones digest cd where
  step_claim: "turn_step zones digest cd (event_of (Granted (tq_key q)) (claim cd q db)) db (snd (claim cd q db))"
| step_promote: "turn_step zones digest cd Quiet db (snd (mark_initial_attempt_admitted cd q db))"
| step_recover: "turn_step zones digest cd Quiet db (snd (authorize_exact_response_recovery cd q evidence db))"
| step_retry: "turn_step zones digest cd (event_of (Authorized (tq_key q)) (authorize_retry cd q evidence db)) db
    (snd (authorize_retry cd q evidence db))"
| step_reconcile_turn: "turn_step zones digest cd Quiet db (snd (reconcile_completed cd q evidence db))"
| step_complete: "turn_step zones digest cd Quiet db (snd (complete_turn k db))"
| step_runtime: "runtime_step cd (td_runtime db) rt \<Longrightarrow> turn_step zones digest cd Quiet db (db\<lparr>td_runtime := rt\<rparr>)"
| step_world: "world_step zones digest (td_world db) w \<Longrightarrow> turn_step zones digest cd Quiet db (db\<lparr>td_world := w\<rparr>)"

inductive turn_run ::
    "(string \<Rightarrow> bool) \<Rightarrow> (identity_text \<Rightarrow> 'h) \<Rightarrow> codec \<Rightarrow> turn_event list \<Rightarrow> 'h turn_db \<Rightarrow> 'h turn_db \<Rightarrow> bool"
  for zones digest cd where
  turn_run_Nil: "turn_run zones digest cd [] db db"
| turn_run_snoc: "turn_run zones digest cd es db db' \<Longrightarrow> turn_step zones digest cd e db' db''
    \<Longrightarrow> turn_run zones digest cd (es @ [e]) db db''"

text \<open>
  The machine of one turn: a grant inserts the row or uses up an authorization, a
  completed row stays completed and is never authorized again, the input never changes.
\<close>

definition turn_change :: "turn_key \<Rightarrow> turn_event \<Rightarrow> turn_row option \<Rightarrow> turn_row option \<Rightarrow> bool" where
  "turn_change k e u v = (case (u, v) of
     (None, None) \<Rightarrow> e \<noteq> Granted k
   | (None, Some s) \<Rightarrow> e = Granted k \<and> started s \<and> \<not> tx_retry_authorized s \<and> tx_retry_count s = 0
   | (Some r, None) \<Rightarrow> False
   | (Some r, Some s) \<Rightarrow> tx_input_hash s = tx_input_hash r
       \<and> (\<not> started r \<longrightarrow> \<not> started s \<and> e \<noteq> Granted k \<and> (tx_retry_authorized s \<longrightarrow> tx_retry_authorized r))
       \<and> (if e = Granted k
          then started r \<and> tx_retry_authorized r \<and> \<not> tx_retry_authorized s \<and> tx_retry_count s = tx_retry_count r + 1
          else tx_retry_count s = tx_retry_count r
            \<and> (tx_retry_authorized s \<longrightarrow> tx_retry_authorized r \<or> e = Authorized k)))"

lemma turn_change_same [simp]: "turn_change k Quiet u u"
  by (cases u) (simp_all add: turn_change_def)

section \<open>What each operation does to the rows\<close>

lemma with_key_cases:
  assumes "with_key k db run = (res, db')"
  obtains "res = Inl TurnOverflow" "db' = db" | "run = (res, db')" "fits_int64 (tk_turn_index k)"
  using assms by (cases "fits_int64 (tk_turn_index k)") (auto simp: with_key_def)

definition open_row :: "codec \<Rightarrow> turn_request \<Rightarrow> 'h turn_db \<Rightarrow> turn_row \<Rightarrow> bool" where
  "open_row cd q db row \<longleftrightarrow> fits_int64 (tk_turn_index (tq_key q))
     \<and> turn_of db (tq_key q) = Some row \<and> tx_input_hash row = input_hash cd q
     \<and> started row \<and> assistant_ref db (tq_assistant_id q) = None"

lemma with_open_claim_cases:
  assumes "with_open_claim cd q db run = (res, db')"
  obtains (refused) e where "res = Inl e" "db' = db"
  | (run) row where "open_row cd q db row" "run row = (res, db')"
  using assms unfolding with_open_claim_def
proof (cases rule: with_key_cases)
  case 2
  then show ?thesis
    using that by (cases "tx_state (the (turn_of db (tq_key q)))")
      (auto simp: Let_def validate_input_def open_row_def split: option.splits if_splits)
qed (use that in auto)

lemma claim_cases:
  assumes "claim cd q db = (res, db')"
  obtains (refused) e where "res = Inl e" "db' = db"
  | (finished) e f where "res = Inl e" "db' = update_turn (tq_key q) started f db"
      "\<And>r. tx_key (f r) = tx_key r" "\<And>r. tx_input_hash (f r) = tx_input_hash r"
      "\<And>r. \<not> started (f r)" "\<And>r. \<not> tx_retry_authorized (f r)" "\<And>r. tx_retry_count (f r) = tx_retry_count r"
  | (again) row where "res = Inr ()" "open_row cd q db row" "tx_retry_authorized row"
      "db' = update_turn (tq_key q) (\<lambda>r. started r \<and> tx_retry_authorized r)
         (\<lambda>r. r\<lparr>tx_retry_authorized := False, tx_retry_count := tx_retry_count r + 1\<rparr>) db"
  | (first) row where "res = Inr ()" "turn_of db (tq_key q) = None" "tx_key row = tq_key q" "started row"
      "\<not> tx_retry_authorized row" "tx_retry_count row = 0" "tx_input_hash row = input_hash cd q"
      "assistant_ref db (tq_assistant_id q) = None" "db' = db\<lparr>td_turns := td_turns db @ [row]\<rparr>"
  using assms unfolding claim_def
proof (cases rule: with_key_cases)
  case 2
  show ?thesis
  proof (cases "turn_of db (tq_key q)")
    case None
    show ?thesis
    proof (cases "assistant_ref db (tq_assistant_id q) = None")
      case True
      then show ?thesis by (intro first) (use 2 None in \<open>auto simp: Let_def\<close>)
    next
      case False
      then show ?thesis by (intro refused) (use 2 None in \<open>auto simp: Let_def\<close>)
    qed
  next
    case (Some row)
    note run = 2 [unfolded Some option.case Let_def]
    show ?thesis
    proof (cases "validate_input cd q row (assistant_ref db (tq_assistant_id q))")
      case None
      then have hash: "tx_input_hash row = input_hash cd q" by (auto simp: validate_input_def split: if_splits)
      show ?thesis
      proof (cases "started row \<and> assistant_ref db (tq_assistant_id q) = None")
        case True
        with run None Some hash show ?thesis
          by (auto simp: open_row_def split: if_splits intro: refused again)
      next
        case False
        with run None show ?thesis
          by (cases "tx_state row") (auto split: if_splits intro: refused finished)
      qed
    qed (use run in \<open>auto intro: refused\<close>)
  qed
qed (auto intro: refused)

lemma change_update:
  assumes "\<And>r. tx_key (f r) = tx_key r"
    and "\<And>r. turn_of db j = Some r \<Longrightarrow> j = k \<Longrightarrow> p r \<Longrightarrow> turn_change k e (Some r) (Some (f r))"
    and "e \<noteq> Granted j \<or> (\<exists>r. turn_of db j = Some r \<and> j = k \<and> p r)"
  shows "turn_change j e (turn_of db j) (turn_of (update_turn k p f db) j)"
proof (cases "turn_of db j")
  case None
  with assms(3) show ?thesis by (simp add: turn_of_update [OF assms(1)] turn_change_def)
next
  case (Some r)
  with assms(2,3) turn_of_key [OF Some] show ?thesis
    by (cases "j = k \<and> p r") (auto simp: turn_of_update [OF assms(1)] turn_change_def)
qed

lemma claim_change: "turn_change j (event_of (Granted (tq_key q)) (claim cd q db)) (turn_of db j)
    (turn_of (snd (claim cd q db)) j)"
proof -
  obtain res db' where run: "claim cd q db = (res, db')" by fastforce
  then show ?thesis
  proof (cases rule: claim_cases)
    case (finished e f)
    have "turn_change j Quiet (turn_of db j) (turn_of db' j)"
      unfolding finished(2) by (rule change_update) (simp_all add: finished turn_change_def)
    with run finished(1) show ?thesis by (simp add: event_of_def)
  next
    case (again row)
    have "turn_change j (Granted (tq_key q)) (turn_of db j) (turn_of db' j)"
      unfolding again(4) by (rule change_update) (use again in \<open>auto simp: turn_change_def open_row_def\<close>)
    with run again(1) show ?thesis by (simp add: event_of_def)
  next
    case (first row)
    have "turn_change j (Granted (tq_key q)) (turn_of db j) (turn_of db' j)"
      using first by (auto simp: turn_of_append turn_change_def split: option.splits)
    with run first(1) show ?thesis by (simp add: event_of_def)
  qed (use run in \<open>simp add: event_of_def\<close>)
qed

lemma inspect_open: "open_row cd q db row \<Longrightarrow> inspect_turn cd q db = Inr
    \<lparr>ts_execution_id = execution_id_for cd (tq_key q), ts_state = ''started'',
      ts_recovery_disposition = disposition row None (map at_state (turn_attempts cd db (tq_key q)))
        (staged_exact_response_attempt_id cd db (tq_key q)),
      ts_assistant_ref = None, ts_attempt_ids = map at_attempt_id (turn_attempts cd db (tq_key q)),
      ts_attempt_states = map at_state (turn_attempts cd db (tq_key q)),
      ts_retry_authorized = tx_retry_authorized row, ts_retry_count = tx_retry_count row,
      ts_reconciliation_evidence = tx_reconciliation_evidence row\<rparr>"
  by (simp add: inspect_turn_def open_row_def validate_input_def Let_def)

lemma open_row_update:
  assumes "open_row cd q db row" and "\<And>r. tx_key (f r) = tx_key r"
    and "tx_input_hash (f row) = tx_input_hash row" and "tx_state (f row) = tx_state row"
  shows "open_row cd q (update_turn (tq_key q) started f db) (f row)"
  using assms turn_of_key [of db "tq_key q" row]
  by (simp add: open_row_def turn_of_update assistant_ref_def)

text \<open>The other operations update the row of an open claim, or complete it.\<close>

lemma promote_cases:
  obtains "snd (mark_initial_attempt_admitted cd q db) = db"
  | p where "snd (mark_initial_attempt_admitted cd q db) =
      update_turn (tq_key q) p (\<lambda>r. r\<lparr>tx_attempt_protocol := Some model_attempt_protocol\<rparr>) db"
proof -
  obtain res db' where run: "mark_initial_attempt_admitted cd q db = (res, db')" by fastforce
  show ?thesis
    using run [unfolded mark_initial_attempt_admitted_def]
  proof (cases rule: with_open_claim_cases)
    case (run row)
    with that \<open>mark_initial_attempt_admitted cd q db = _\<close> show ?thesis
      by (auto simp: Let_def split: if_splits)
  qed (use run that in simp)
qed

lemma authorize_exact_cases:
  assumes "authorize_exact_response_recovery cd q evidence db = (res, db')"
  obtains (refused) e where "res = Inl e" "db' = db"
  | (ok) row i where "\<not> blank evidence" "open_row cd q db row" "\<not> tx_retry_authorized row"
      "staged_exact_response_attempt_id cd db (tq_key q) = Some i"
      "db' = update_turn (tq_key q) started
        (\<lambda>r. r\<lparr>tx_reconciliation_evidence := Some (py_strip evidence)\<rparr>) db"
      "open_row cd q db' (row\<lparr>tx_reconciliation_evidence := Some (py_strip evidence)\<rparr>)"
      "res = inspect_turn cd q db'"
proof (cases "blank evidence")
  case True
  then show ?thesis by (intro refused) (use assms in \<open>auto simp: authorize_exact_response_recovery_def\<close>)
next
  case False
  from assms [unfolded authorize_exact_response_recovery_def if_not_P [OF False]] show ?thesis
  proof (cases rule: with_open_claim_cases)
    case (run row)
    note again = open_row_update [OF run(1)]
    from False run show ?thesis
      by (auto simp: Let_def inspected_def split: if_splits intro: refused ok intro!: again)
  qed (rule refused)
qed

lemma authorize_retry_cases:
  assumes "authorize_retry cd q evidence db = (res, db')"
  obtains (refused) e where "res = Inl e" "db' = db"
  | (ok) row where "\<not> blank evidence" "open_row cd q db row" "provably_unsent cd db row"
      "db' = update_turn (tq_key q) started (\<lambda>r. r\<lparr>tx_retry_authorized := True,
        tx_reconciliation_evidence := Some (py_strip evidence)\<rparr>) db"
      "open_row cd q db' (row\<lparr>tx_retry_authorized := True,
        tx_reconciliation_evidence := Some (py_strip evidence)\<rparr>)"
      "res = inspect_turn cd q db'"
proof (cases "blank evidence")
  case True
  then show ?thesis by (intro refused) (use assms in \<open>auto simp: authorize_retry_def\<close>)
next
  case False
  from assms [unfolded authorize_retry_def if_not_P [OF False]] show ?thesis
  proof (cases rule: with_open_claim_cases)
    case (run row)
    note again = open_row_update [OF run(1)]
    from False run show ?thesis
      by (auto simp: Let_def inspected_def split: if_splits intro: refused ok intro!: again)
  qed (rule refused)
qed

lemma completing_cases:
  assumes "k = tq_key q \<and> db' = snd (reconcile_completed cd q evidence db) \<or> db' = snd (complete_turn k db)"
  obtains "db' = db"
  | p f where "db' = update_turn k p f db" "\<And>r. tx_key (f r) = tx_key r"
      "\<And>r. tx_input_hash (f r) = tx_input_hash r" "\<And>r. \<not> started (f r)"
      "\<And>r. \<not> tx_retry_authorized (f r)" "\<And>r. tx_retry_count (f r) = tx_retry_count r"
  using assms unfolding reconcile_completed_def complete_turn_def with_key_def Let_def inspected_def
  by (auto split: if_splits option.splits)

lemma completing_change:
  assumes "k = tq_key q \<and> db' = snd (reconcile_completed cd q evidence db) \<or> db' = snd (complete_turn k db)"
  shows "turn_change j Quiet (turn_of db j) (turn_of db' j)"
  using assms
proof (cases rule: completing_cases)
  case (2 p f)
  show ?thesis unfolding 2(1) by (rule change_update) (simp_all add: 2 turn_change_def)
qed simp

lemma turn_step_change:
  assumes "turn_step zones digest cd e db db'"
  shows "turn_change j e (turn_of db j) (turn_of db' j)"
  using assms
proof cases
  case (step_claim q)
  show ?thesis unfolding step_claim by (rule claim_change)
next
  case (step_promote q)
  show ?thesis
  proof (cases rule: promote_cases [of cd q db])
    case (2 p)
    show ?thesis unfolding step_promote 2 by (rule change_update) (simp_all add: turn_change_def)
  qed (simp add: step_promote)
next
  case (step_recover q evidence)
  obtain res where "authorize_exact_response_recovery cd q evidence db = (res, db')"
    unfolding step_recover by (metis prod.collapse)
  then show ?thesis
  proof (cases rule: authorize_exact_cases)
    case (ok row i)
    show ?thesis unfolding step_recover(1) ok(5) by (rule change_update) (simp_all add: turn_change_def)
  qed (simp add: step_recover(1))
next
  case (step_retry q evidence)
  obtain res where run: "authorize_retry cd q evidence db = (res, db')"
    unfolding step_retry by (metis prod.collapse)
  then show ?thesis
  proof (cases rule: authorize_retry_cases)
    case (ok row)
    then have e: "e = Authorized (tq_key q)"
      unfolding step_retry(1) run by (simp add: event_of_def inspect_open)
    show ?thesis unfolding e ok(4) by (rule change_update) (auto simp: turn_change_def)
  qed (simp add: step_retry(1) run event_of_def)
next
  case (step_reconcile_turn q evidence)
  show ?thesis unfolding step_reconcile_turn(1) by (rule completing_change) (use step_reconcile_turn(2) in blast)
next
  case (step_complete k)
  show ?thesis unfolding step_complete(1) by (rule completing_change) (use step_complete(2) in blast)
qed simp_all

section \<open>Runs\<close>

lemma turn_run_granted:
  assumes "turn_run zones digest cd es db db'" and "turn_of db k = None"
  shows "case turn_of db' k of
      None \<Rightarrow> Granted k \<notin> set es
    | Some r \<Rightarrow> int (count_list es (Granted k)) = 1 + tx_retry_count r
        \<and> count_list es (Granted k) + (if started r \<and> tx_retry_authorized r then 1 else 0)
            \<le> 1 + count_list es (Authorized k)"
  using assms
proof (induction rule: turn_run.induct)
  case (turn_run_snoc es db db' e db'')
  note change = turn_step_change [OF turn_run_snoc(2), of k]
  from turn_run_snoc(3) [OF turn_run_snoc(4)] change show ?case
    by (cases "turn_of db' k"; cases "turn_of db'' k"; cases e)
      (auto simp: turn_change_def count_list_0_iff split: if_splits)
qed simp

definition same_tables :: "'h turn_db \<Rightarrow> 'h turn_db \<Rightarrow> bool" where
  "same_tables db db' \<longleftrightarrow> td_runtime db' = td_runtime db \<and> td_world db' = td_world db"

lemma same_tables_refl [simp]: "same_tables db db"
  by (simp add: same_tables_def)

lemma same_tables_update [simp]: "same_tables db (update_turn k p f db)" "same_tables db (db\<lparr>td_turns := rs\<rparr>)"
  by (simp_all add: same_tables_def)

lemma claim_same_tables: "same_tables db (snd (claim cd q db))"
proof -
  obtain res db' where run: "claim cd q db = (res, db')" by fastforce
  then show ?thesis by (cases rule: claim_cases) (simp_all add: run)
qed

lemma promote_same_tables: "same_tables db (snd (mark_initial_attempt_admitted cd q db))"
  by (cases rule: promote_cases [of cd q db]) simp_all

lemma authorize_exact_same_tables: "same_tables db (snd (authorize_exact_response_recovery cd q evidence db))"
proof -
  obtain res db' where run: "authorize_exact_response_recovery cd q evidence db = (res, db')" by fastforce
  then show ?thesis by (cases rule: authorize_exact_cases) (simp_all add: run)
qed

lemma authorize_retry_same_tables: "same_tables db (snd (authorize_retry cd q evidence db))"
proof -
  obtain res db' where run: "authorize_retry cd q evidence db = (res, db')" by fastforce
  then show ?thesis by (cases rule: authorize_retry_cases) (simp_all add: run)
qed

lemma completing_same_tables:
  assumes "k = tq_key q \<and> db' = snd (reconcile_completed cd q evidence db) \<or> db' = snd (complete_turn k db)"
  shows "same_tables db db'"
  using assms by (cases rule: completing_cases) simp_all

lemma turn_step_tables:
  assumes "turn_step zones digest cd e db db'"
  shows "runtime_steps cd (td_runtime db) (td_runtime db')"
    and "world_steps zones digest (td_world db) (td_world db')"
proof -
  have "same_tables db db' \<or> runtime_step cd (td_runtime db) (td_runtime db') \<and> td_world db' = td_world db
      \<or> world_step zones digest (td_world db) (td_world db') \<and> td_runtime db' = td_runtime db"
    using assms
    by cases (auto simp: claim_same_tables promote_same_tables authorize_exact_same_tables
        authorize_retry_same_tables intro: completing_same_tables)
  then show "runtime_steps cd (td_runtime db) (td_runtime db')"
    "world_steps zones digest (td_world db) (td_world db')"
    by (auto simp: same_tables_def intro: runtime_steps_step)
qed

lemma turn_run_tables:
  assumes "turn_run zones digest cd es db db'"
  shows "runtime_steps cd (td_runtime db) (td_runtime db')"
    and "world_steps zones digest (td_world db) (td_world db')"
  using assms
proof (induction rule: turn_run.induct)
  case (turn_run_snoc es db db' e db'')
  show "runtime_steps cd (td_runtime db) (td_runtime db'')"
    using turn_run_snoc(3) turn_step_tables(1) [OF turn_run_snoc(2)] by (simp add: runtime_steps_def)
  show "world_steps zones digest (td_world db) (td_world db'')"
    using turn_run_snoc(4) turn_step_tables(2) [OF turn_run_snoc(2)] by (meson rtranclp_trans)
qed simp_all

section \<open>Retries and the attempts ledger\<close>

lemma turn_attempt_listed: "a \<in> set (turn_attempts cd db k) \<Longrightarrow> a \<in> set (as_attempts (rd_attempts (td_runtime db)))"
  by (simp add: turn_attempts_def)

lemma unsent_attempts:
  assumes "runtime_steps cd empty_runtime (td_runtime db)" and "provably_unsent cd db row"
    and "a \<in> set (turn_attempts cd db (tx_key row))"
  shows "durable_submission_artifacts (rd_attempts (td_runtime db)) (at_attempt_id a) = []"
    and "staged_response (rd_attempts (td_runtime db)) (at_attempt_id a) = None"
proof -
  have found: "attempt_row (rd_attempts (td_runtime db)) (at_attempt_id a) = Some a"
    using listed_attempt_found [OF reachable_distinct [OF assms(1)] turn_attempt_listed [OF assms(3)]] .
  have "at_state a \<in> {Admitted, NotSubmitted}"
    using assms(2,3) by (auto simp: provably_unsent_def Let_def unsent_states_def list_all_iff)
  from unsent_has_no_artifacts [OF assms(1) found this]
  show "durable_submission_artifacts (rd_attempts (td_runtime db)) (at_attempt_id a) = []"
    "staged_response (rd_attempts (td_runtime db)) (at_attempt_id a) = None" by blast+
qed

lemma staged_attempt_id:
  assumes "staged_exact_response_attempt_id cd db k = Some i"
  obtains a where "a \<in> set (turn_attempts cd db k)" "at_attempt_id a = i"
    "at_state a \<in> {ResponseReturned, Metered}"
    "staged_response (rd_attempts (td_runtime db)) i \<noteq> None"
proof -
  let ?rows = "filter (\<lambda>a. staged_response (rd_attempts (td_runtime db)) (at_attempt_id a) \<noteq> None) (turn_attempts cd db k)"
  obtain a as where rows: "rev ?rows = a # as" and a: "at_attempt_id a = i" "at_state a \<in> {ResponseReturned, Metered}"
    using assms unfolding staged_exact_response_attempt_id_def by (auto split: list.splits if_splits)
  have "a \<in> set ?rows" using rows by (metis set_rev list.set_intros(1))
  then show ?thesis by (intro that [OF _ a]) (auto simp: a)
qed

section \<open>What an authorization is worth\<close>

definition distinct_turns :: "'h turn_db \<Rightarrow> bool" where
  "distinct_turns db \<longleftrightarrow> distinct (map tx_key (td_turns db))"

lemma distinct_update_turn:
  "(\<And>r. tx_key (f r) = tx_key r) \<Longrightarrow> distinct_turns (update_turn k p f db) = distinct_turns db"
  by (simp add: distinct_turns_def update_turn_def update_rows_ids)

lemma matching_one:
  assumes "distinct_turns db" and "turn_of db k = Some r" and "p r"
  shows "matching k p db = 1"
proof -
  have "length (filter (\<lambda>r. tx_key r = k \<and> p r) rows) = 1"
    if "distinct (map tx_key rows)" "List.find (\<lambda>r. tx_key r = k) rows = Some r" for rows
    using that
  proof (induction rows)
    case (Cons q rows)
    have "filter (\<lambda>r. tx_key r = k \<and> p r) rows = []" if "tx_key q = k"
    proof -
      have "tx_key x \<noteq> k" if "x \<in> set rows" for x
        using imageI [OF that, of tx_key] \<open>tx_key q = k\<close> Cons.prems(1) by auto
      then show ?thesis by (simp add: filter_empty_conv)
    qed
    with Cons assms(3) show ?case by (auto split: if_splits)
  qed simp
  then show ?thesis using assms(1,2) by (simp add: matching_def distinct_turns_def turn_of_def)
qed

lemma turn_step_distinct:
  assumes "turn_step zones digest cd e db db'" and "distinct_turns db"
  shows "distinct_turns db'"
  using assms(1)
proof cases
  case (step_claim q)
  obtain res where "claim cd q db = (res, db')" unfolding step_claim by (metis prod.collapse)
  then show ?thesis
  proof (cases rule: claim_cases)
    case (first row)
    then have "tq_key q \<notin> set (map tx_key (td_turns db))" by (auto simp: turn_of_def find_None_iff)
    with assms(2) first show ?thesis by (auto simp: distinct_turns_def)
  qed (use assms(2) in \<open>simp_all add: distinct_update_turn\<close>)
next
  case (step_promote q)
  show ?thesis
    by (cases rule: promote_cases [of cd q db])
      (use assms(2) in \<open>simp_all add: step_promote distinct_update_turn\<close>)
next
  case (step_recover q evidence)
  obtain res where "authorize_exact_response_recovery cd q evidence db = (res, db')"
    unfolding step_recover by (metis prod.collapse)
  then show ?thesis
    by (cases rule: authorize_exact_cases) (use assms(2) in \<open>simp_all add: distinct_update_turn\<close>)
next
  case (step_retry q evidence)
  obtain res where "authorize_retry cd q evidence db = (res, db')"
    unfolding step_retry by (metis prod.collapse)
  then show ?thesis
    by (cases rule: authorize_retry_cases) (use assms(2) in \<open>simp_all add: distinct_update_turn\<close>)
next
  case (step_reconcile_turn q evidence)
  then have "tq_key q = tq_key q \<and> db' = snd (reconcile_completed cd q evidence db) \<or> db' = snd (complete_turn (tq_key q) db)"
    by simp
  then show ?thesis by (cases rule: completing_cases) (use assms(2) in \<open>simp_all add: distinct_update_turn\<close>)
next
  case (step_complete k)
  then have "k = tq_key q \<and> db' = snd (reconcile_completed cd q e db) \<or> db' = snd (complete_turn k db)" for q e
    by simp
  then show ?thesis by (cases rule: completing_cases) (use assms(2) in \<open>simp_all add: distinct_update_turn\<close>)
qed (use assms(2) in \<open>simp_all add: distinct_turns_def\<close>)

definition empty_turns :: "'h turn_db" where
  "empty_turns = \<lparr>td_turns = [], td_runtime = empty_runtime, td_world = initial_store\<rparr>"

definition reachable_turns ::
    "(string \<Rightarrow> bool) \<Rightarrow> (identity_text \<Rightarrow> 'h) \<Rightarrow> codec \<Rightarrow> 'h turn_db \<Rightarrow> bool" where
  "reachable_turns zones digest cd db \<longleftrightarrow> (\<exists>es. turn_run zones digest cd es empty_turns db)"

lemma reachable_turns_facts:
  assumes "reachable_turns zones digest cd db"
  shows "distinct_turns db" and "runtime_steps cd empty_runtime (td_runtime db)"
    and "world_steps zones digest initial_store (td_world db)"
proof -
  obtain es where run: "turn_run zones digest cd es empty_turns db"
    using assms unfolding reachable_turns_def by blast
  have "turn_run zones digest cd es db' db \<Longrightarrow> distinct_turns db' \<Longrightarrow> distinct_turns db" for db'
    by (induction rule: turn_run.induct) (auto intro: turn_step_distinct)
  with run show "distinct_turns db" by (simp add: distinct_turns_def empty_turns_def)
  show "runtime_steps cd empty_runtime (td_runtime db)" "world_steps zones digest initial_store (td_world db)"
    using turn_run_tables [OF run] by (simp_all add: empty_turns_def)
qed

lemma open_claim_run: "open_row cd q db row \<Longrightarrow> with_open_claim cd q db run = run row"
  by (simp add: with_open_claim_def with_key_def open_row_def validate_input_def Let_def)

lemma authorize_retry_Inr_iff:
  assumes "open_row cd q db row" and "\<not> blank evidence"
  shows "(\<exists>s. fst (authorize_retry cd q evidence db) = Inr s) \<longleftrightarrow> provably_unsent cd db row"
proof -
  have "\<exists>s. inspect_turn cd q (update_turn (tq_key q) started (\<lambda>r. r\<lparr>tx_retry_authorized := True,
      tx_reconciliation_evidence := Some (py_strip evidence)\<rparr>) db) = Inr s"
    using inspect_open [OF open_row_update [OF assms(1)]] by simp
  then show ?thesis
    by (auto simp: authorize_retry_def assms(2) open_claim_run [OF assms(1)] inspected_def)
qed

lemma disposition_unsent:
  assumes "open_row cd q db row"
  shows "disposition row None (map at_state (turn_attempts cd db (tq_key q))) i = SafeToRetry
    \<longleftrightarrow> \<not> tx_retry_authorized row \<and> provably_unsent cd db row"
proof -
  have "tx_key row = tq_key q" "started row" using assms by (auto simp: open_row_def dest: turn_of_key)
  then show ?thesis by (auto simp: disposition_def provably_unsent_def Let_def)
qed

lemma authorized_claim:
  assumes "open_row cd q db row" and "tx_retry_authorized row" and "distinct_turns db"
  obtains db' where "claim cd q db = (Inr (), db')" "claim cd q db' = (Inl (TurnInDoubt ''started_or_interrupted'' None), db')"
proof -
  let ?f = "\<lambda>r. r\<lparr>tx_retry_authorized := False, tx_retry_count := tx_retry_count r + 1\<rparr>"
  let ?p = "\<lambda>r. started r \<and> tx_retry_authorized r"
  let ?db = "update_turn (tq_key q) ?p ?f db"
  have row: "turn_of db (tq_key q) = Some row" "started row" "tx_input_hash row = input_hash cd q"
    "fits_int64 (tk_turn_index (tq_key q))" "assistant_ref db (tq_assistant_id q) = None"
    using assms(1) by (simp_all add: open_row_def)
  have one: "matching (tq_key q) ?p db = 1" using matching_one [OF assms(3) row(1)] row(2) assms(2) by simp
  have run: "claim cd q db = (Inr (), ?db)"
    using row assms(2) one by (simp add: claim_def with_key_def validate_input_def Let_def)
  have new: "turn_of ?db (tq_key q) = Some (?f row)"
    using row assms(2) turn_of_key [OF row(1)] by (simp add: turn_of_update)
  have "claim cd q ?db = (Inl (TurnInDoubt ''started_or_interrupted'' None), ?db)"
    using row new by (simp add: claim_def with_key_def validate_input_def Let_def assistant_ref_def)
  with run show ?thesis by (rule that)
qed

lemma authorized_retry:
  assumes reach: "reachable_turns zones digest cd db"
    and run: "authorize_retry cd q evidence db = (Inr s, db')"
  shows "a \<in> set (turn_attempts cd db (tq_key q)) \<Longrightarrow>
      durable_submission_artifacts (rd_attempts (td_runtime db)) (at_attempt_id a) = []
      \<and> staged_response (rd_attempts (td_runtime db)) (at_attempt_id a) = None"
    and "\<exists>db''. claim cd q db' = (Inr (), db'')
      \<and> claim cd q db'' = (Inl (TurnInDoubt ''started_or_interrupted'' None), db'')"
proof -
  note facts = reachable_turns_facts [OF reach]
  obtain row where ok: "open_row cd q db row" "provably_unsent cd db row"
    "db' = update_turn (tq_key q) started (\<lambda>r. r\<lparr>tx_retry_authorized := True,
       tx_reconciliation_evidence := Some (py_strip evidence)\<rparr>) db"
    "open_row cd q db' (row\<lparr>tx_retry_authorized := True, tx_reconciliation_evidence := Some (py_strip evidence)\<rparr>)"
    using run by (cases rule: authorize_retry_cases) auto
  have key: "tx_key row = tq_key q" using ok(1) turn_of_key by (auto simp: open_row_def)
  show "durable_submission_artifacts (rd_attempts (td_runtime db)) (at_attempt_id a) = []
      \<and> staged_response (rd_attempts (td_runtime db)) (at_attempt_id a) = None"
    if "a \<in> set (turn_attempts cd db (tq_key q))"
    using unsent_attempts [OF facts(2) ok(2), unfolded key, OF that] by blast
  have "distinct_turns db'" using facts(1) unfolding ok(3) by (simp add: distinct_update_turn)
  then show "\<exists>db''. claim cd q db' = (Inr (), db'')
      \<and> claim cd q db'' = (Inl (TurnInDoubt ''started_or_interrupted'' None), db'')"
    by (rule authorized_claim [OF ok(4), rotated]) auto
qed

lemma exact_recovery_resumes:
  assumes reach: "reachable_turns zones digest cd db"
    and run: "authorize_exact_response_recovery cd q evidence db = (Inr s, db')"
  obtains i d where "staged_exact_response_attempt_id cd db (tq_key q) = Some i"
    "exact_response_directive cd (rd_attempts (td_runtime db')) i = Inr d"
    "\<not> ts_retry_authorized s" "ts_recovery_disposition s \<in> {ExactResponseReady, TurnDoubtful}"
    "\<exists>e. claim cd q db' = (Inl e, db')"
proof -
  obtain row i where ok: "open_row cd q db row" "\<not> tx_retry_authorized row"
    "staged_exact_response_attempt_id cd db (tq_key q) = Some i"
    "db' = update_turn (tq_key q) started (\<lambda>r. r\<lparr>tx_reconciliation_evidence := Some (py_strip evidence)\<rparr>) db"
    "open_row cd q db' (row\<lparr>tx_reconciliation_evidence := Some (py_strip evidence)\<rparr>)"
    "inspect_turn cd q db' = Inr s"
    using run by (cases rule: authorize_exact_cases) auto
  note inv = reachable_inv [OF reachable_turns_facts(2) [OF reach]]
  have same: "td_runtime db' = td_runtime db" by (simp add: ok(4))
  obtain a sg where a: "a \<in> set (turn_attempts cd db (tq_key q))" "at_state a \<in> {ResponseReturned, Metered}"
    and sg: "staged_response (rd_attempts (td_runtime db)) i = Some sg"
    using staged_attempt_id [OF ok(3)] by blast
  have "attempt_inv cd (rd_attempts (td_runtime db))" using inv by (simp add: runtime_inv_def)
  then obtain d where d: "exact_response_directive cd (rd_attempts (td_runtime db')) i = Inr d"
    using staged_recoverable [OF _ sg] unfolding same by metis
  have attempts: "turn_attempts cd db' k = turn_attempts cd db k"
    "staged_exact_response_attempt_id cd db' k = staged_exact_response_attempt_id cd db k" for k
    by (simp_all add: turn_attempts_def staged_exact_response_attempt_id_def same)
  have states: "at_state a \<in> set (map at_state (turn_attempts cd db (tq_key q)))"
    "at_state a \<notin> unsent_states" using a by (auto simp: unsent_states_def)
  have s: "\<not> ts_retry_authorized s" "ts_recovery_disposition s \<in> {ExactResponseReady, TurnDoubtful}"
    using inspect_open [OF ok(5)] ok(1,2,3,6) states
    by (auto simp: attempts disposition_def open_row_def list_all_iff split: if_splits)
  have "\<exists>e. claim cd q db' = (Inl e, db')"
    using ok(2,5) by (auto simp: claim_def with_key_def open_row_def validate_input_def Let_def)
  with ok(3) d s show ?thesis by (rule that)
qed

lemma inspect_cases:
  assumes "inspect_turn cd q db = Inr s"
  obtains (absent) "turn_of db (tq_key q) = None" "ts_recovery_disposition s \<in> {NotStarted, DoneTurn}"
  | (ended) r where "turn_of db (tq_key q) = Some r" "ts_recovery_disposition s = DoneTurn"
      "\<not> started r \<or> assistant_ref db (tq_assistant_id q) \<noteq> None"
  | (open_claim) row where "open_row cd q db row" "ts_recovery_disposition s = disposition row None
      (map at_state (turn_attempts cd db (tq_key q))) (staged_exact_response_attempt_id cd db (tq_key q))"
proof (cases "turn_of db (tq_key q)")
  case None
  with assms show ?thesis by (intro absent) (auto simp: inspect_turn_def blank_status_def Let_def split: if_splits)
next
  case (Some r)
  show ?thesis
  proof (cases "started r \<and> assistant_ref db (tq_assistant_id q) = None")
    case True
    then have row: "open_row cd q db r"
      using assms Some by (auto simp: inspect_turn_def open_row_def validate_input_def Let_def split: if_splits)
    show ?thesis by (rule open_claim [OF row]) (use assms inspect_open [OF row] in auto)
  next
    case False
    have "ts_recovery_disposition s = DoneTurn"
      using assms Some False by (cases "tx_state r")
        (auto simp: inspect_turn_def validate_input_def disposition_def Let_def split: if_splits)
    with Some False show ?thesis by (intro ended) auto
  qed
qed

lemma closed_claim_run:
  assumes "turn_of db (tq_key q) = None \<or> (\<exists>r. turn_of db (tq_key q) = Some r
    \<and> (\<not> started r \<or> assistant_ref db (tq_assistant_id q) \<noteq> None))"
  shows "\<exists>e. with_open_claim cd q db run = (Inl e, db)"
proof -
  obtain res db' where run: "with_open_claim cd q db run = (res, db')" by fastforce
  then show ?thesis using assms by (cases rule: with_open_claim_cases) (auto simp: open_row_def run)
qed

lemma inspect_retry:
  assumes "inspect_turn cd q db = Inr s" and ev: "\<not> blank evidence"
  shows "(ts_recovery_disposition s = SafeToRetry \<longrightarrow> (\<exists>t. fst (authorize_retry cd q evidence db) = Inr t))
    \<and> ((\<exists>t. fst (authorize_retry cd q evidence db) = Inr t)
       \<longrightarrow> ts_recovery_disposition s \<in> {SafeToRetry, RetryAuthorized})"
  using assms(1)
proof (cases rule: inspect_cases)
  case (open_claim row)
  have st: "started row" using open_claim(1) by (simp add: open_row_def)
  show ?thesis
  proof (cases "tx_retry_authorized row")
    case True
    with open_claim(2) st show ?thesis by (simp add: disposition_def)
  next
    case False
    then show ?thesis
      using authorize_retry_Inr_iff [OF open_claim(1) ev] disposition_unsent [OF open_claim(1)] open_claim(2)
      by simp
  qed
next
  case (ended r)
  then have "\<exists>e. authorize_retry cd q evidence db = (Inl e, db)"
    unfolding authorize_retry_def if_not_P [OF ev] by (intro closed_claim_run) auto
  with ended(2) show ?thesis by auto
next
  case absent
  then have "\<exists>e. authorize_retry cd q evidence db = (Inl e, db)"
    unfolding authorize_retry_def if_not_P [OF ev] by (intro closed_claim_run) auto
  with absent(2) show ?thesis by auto
qed

lemma ready_recovers:
  assumes reach: "reachable_turns zones digest cd db" and ev: "\<not> blank evidence"
    and ins: "inspect_turn cd q db = Inr s" and ready: "ts_recovery_disposition s = ExactResponseReady"
  shows "\<exists>t db'. authorize_exact_response_recovery cd q evidence db = (Inr t, db')"
  using ins
proof (cases rule: inspect_cases)
  case (open_claim row)
  have row: "turn_of db (tq_key q) = Some row" "started row" using open_claim(1) by (simp_all add: open_row_def)
  have "\<not> tx_retry_authorized row" "staged_exact_response_attempt_id cd db (tq_key q) \<noteq> None"
    using ready row(2) unfolding open_claim(2) by (auto simp: disposition_def split: if_splits)
  moreover have "matching (tq_key q) started db = 1"
    using matching_one [OF reachable_turns_facts(1) [OF reach] row(1)] row(2) .
  ultimately show ?thesis
    using inspect_open [OF open_row_update [OF open_claim(1)]]
    by (simp add: authorize_exact_response_recovery_def ev open_claim_run [OF open_claim(1)] inspected_def Let_def)
qed (use ready in auto)

interpretation turns: refined_machine turn_of "\<lambda>u v. \<exists>k e. turn_change k e u v" "\<lambda>_. True"
    "\<lambda>db db'. \<exists>e. turn_step zones digest cd e db db'"
  for zones digest cd
  by unfold_locales (auto dest: turn_step_change)

lemma turn_run_steps: "turn_run zones digest cd es db db' \<Longrightarrow> (\<lambda>db db'. \<exists>e. turn_step zones digest cd e db db')\<^sup>*\<^sup>* db db'"
  by (induction rule: turn_run.induct) (auto intro: rtranclp.rtrancl_into_rtrancl)

lemma completed_stays:
  assumes "turn_run zones digest cd es db db'" and "turn_of db k = Some r" and "\<not> started r"
  shows "\<exists>r. turn_of db' k = Some r \<and> \<not> started r"
proof (rule turns.steps_keep [OF turn_run_steps [OF assms(1)] TrueI, of "\<lambda>v. \<exists>r. v = Some r \<and> \<not> started r"])
  show "\<exists>r. turn_of db k = Some r \<and> \<not> started r" using assms(2,3) by blast
  show "\<exists>r. w = Some r \<and> \<not> started r"
    if "\<exists>r. v = Some r \<and> \<not> started r" "\<exists>k e. turn_change k e v w" for v w
    using that by (cases w) (auto simp: turn_change_def)
qed

lemma output_stays:
  assumes "turn_run zones digest cd es db db'" and "world_inv zones (td_world db)"
    and "assistant_ref db i \<noteq> None"
  shows "assistant_ref db' i \<noteq> None"
proof -
  have "object_versions (td_world db) i \<noteq> []"
    using assms(3) by (auto simp: assistant_ref_def latest_revision_def sql_max_def)
  moreover obtain new where "object_versions (td_world db') i = object_versions (td_world db) i @ new"
    using objects.steps_append [OF turn_run_tables(2) [OF assms(1)] assms(2)] by blast
  ultimately show ?thesis by (auto simp: assistant_ref_def latest_revision_def sql_max_def)
qed

lemma claim_refused:
  assumes "assistant_ref db (tq_assistant_id q) \<noteq> None \<or> (\<exists>r. turn_of db (tq_key q) = Some r \<and> \<not> started r)"
  shows "\<exists>e. fst (claim cd q db) = Inl e"
proof -
  obtain res db' where run: "claim cd q db = (res, db')" by fastforce
  then show ?thesis using assms by (cases rule: claim_cases) (auto simp: open_row_def run)
qed

end
