(* ===== verification/WorldReplay.thy ===== *)
theory WorldReplay
  imports WorldHistory
begin

text \<open>
  Retries and readers: a request that was applied once is answered from its record for as
  long as the store lives, a key never serves a second request, a stale writer never wins,
  references stay readable, and change feeds end at commit boundaries.
\<close>

section \<open>The recorded result\<close>

lemma find_append_unique:
  "List.find P (xs @ ys) = (case List.find P xs of None \<Rightarrow> List.find P ys | Some x \<Rightarrow> Some x)"
  by (induction xs) auto

lemma idempotency_grows:
  assumes "world_steps zones digest st st'" and "world_inv zones st"
  shows "\<exists>ids. ws_idempotency st' = ws_idempotency st @ ids"
    and "\<exists>ops. ws_operations st' = ws_operations st @ ops"
  using assms
proof (induction rule: rtranclp_induct)
  case (step t u)
  have "world_inv zones t" using commits.steps_inv [OF step.hyps(1) assms(2)] .
  from world_step_appends [OF this step.hyps(2)]
  have "(\<exists>ids. ws_idempotency u = ws_idempotency t @ ids) \<and> (\<exists>ops. ws_operations u = ws_operations t @ ops)"
    by force
  moreover from step.IH [OF assms(2)] obtain ids ops where
    "ws_idempotency t = ws_idempotency st @ ids" "ws_operations t = ws_operations st @ ops" by blast
  ultimately show "\<exists>ids. ws_idempotency u = ws_idempotency st @ ids"
    and "\<exists>ops. ws_operations u = ws_operations st @ ops" by auto
qed auto

lemma find_idempotency_grows:
  assumes "world_steps zones digest st st'" and "world_inv zones st"
    and "find_idempotency st key = Some row"
  shows "find_idempotency st' key = Some row"
  using idempotency_grows(1) [OF assms(1,2)] assms(3)
  by (auto simp: find_idempotency_def find_append_unique)

lemma operation_for_key_grows:
  assumes "world_steps zones digest st st'" and "world_inv zones st"
    and "operation_for_idempotency_key st key = Some row"
  shows "operation_for_idempotency_key st' key = Some row"
  using idempotency_grows(2) [OF assms(1,2)] assms(3)
  by (auto simp: operation_for_idempotency_key_def find_append_unique)

lemma find_row_grows:
  assumes "world_steps zones digest st st'" and "world_inv zones st" and "find_row st oid v = Some r"
  shows "find_row st' oid v = Some r"
  using revisions.steps_log [OF assms(1,2)] assms(3) by (auto simp: find_row_def find_append_unique)

lemma find_last: "\<not> P y \<or> True \<Longrightarrow> (\<forall>x \<in> set xs. \<not> P x) \<Longrightarrow> P y \<Longrightarrow> List.find P (xs @ [y]) = Some y"
  by (induction xs) auto

text \<open>The fresh commit recorded its own fingerprint and result.\<close>

lemma fresh_fingerprint:
  assumes "accepted zones digest objs op st w h"
  shows "request_fingerprint zones digest op objs = Inr h"
  using assms by (auto simp: accepted_def durable_request_def split: option.splits sum.splits)

lemma accepted_key: "accepted zones digest objs op st w h \<Longrightarrow> op_idempotency_key op \<noteq> []"
  using normalize_operation_Inr by (auto simp: accepted_def)

lemma recorded:
  assumes "commit zones digest now objs op st = (Inr res, st')"
    and "get_idempotent_result zones digest op objs st = Inr None"
  obtains h where "find_idempotency st' (op_idempotency_key op)
      = Some (idempotency_row_of (cr_world_revision res) op objs h)"
    and "operation_for_idempotency_key st' (op_idempotency_key op)
      = Some (operation_row_of (cr_world_revision res) now op)"
    and "request_fingerprint zones digest op objs = Inr h" "op_idempotency_key op \<noteq> []"
    and "res = commit_result_of (cr_world_revision res) op objs"
    and "accepted zones digest objs op st (cr_world_revision res - 1) h"
    and "st' = appended now (cr_world_revision res) op objs h st"
  using assms(1)
proof (cases rule: commit_Inr_cases)
  case (fresh w h)
  note f = write_commit_Inr [OF fresh(4)]
  have w: "cr_world_revision res = w + 1" using f(1) by (simp add: commit_result_of_def)
  show thesis
  proof (rule that)
    show "find_idempotency st' (op_idempotency_key op)
        = Some (idempotency_row_of (cr_world_revision res) op objs h)"
      using f(2,6) w by (auto simp: find_idempotency_def intro: find_last)
    show "operation_for_idempotency_key st' (op_idempotency_key op)
        = Some (operation_row_of (cr_world_revision res) now op)"
      using f(2,5) w by (auto simp: operation_for_idempotency_key_def intro: find_last)
    show "op_idempotency_key op \<noteq> []" using fresh(3) by (rule accepted_key)
    show "request_fingerprint zones digest op objs = Inr h" using fresh(3) by (rule fresh_fingerprint)
  qed (use fresh(3) f(1,2) w in auto)
qed (use assms(2) in simp)

lemma replay_answer:
  assumes "find_idempotency st key = Some (idempotency_row_of w op objs h)"
    and "op_idempotency_key op' = key" "key \<noteq> []"
    and "request_fingerprint zones digest op' objs' = Inr h'"
  shows "get_idempotent_result zones digest op' objs' st =
    (if h' = h then Inr (Some ((commit_result_of w op objs)\<lparr>cr_idempotent_replay := True\<rparr>))
     else Inl (StoreError EC_IDEMPOTENCY_CONFLICT ''request_fingerprint_mismatch''))"
  using assms by (simp add: get_idempotent_result_def original_fingerprint_def)

lemma retry_answers_first_result:
  assumes "commit zones digest now objs op st = (Inr res, st')" and "world_inv zones st"
    and "get_idempotent_result zones digest op objs st = Inr None" and "objs \<noteq> []"
    and "world_steps zones digest st' st''"
  shows "commit zones digest now' objs op st'' = (Inr (res\<lparr>cr_idempotent_replay := True\<rparr>), st'')"
  using assms(1,3)
proof (rule recorded)
  fix h
  let ?w = "cr_world_revision res"
  assume r: "find_idempotency st' (op_idempotency_key op) = Some (idempotency_row_of ?w op objs h)"
    "request_fingerprint zones digest op objs = Inr h" "op_idempotency_key op \<noteq> []"
    "res = commit_result_of ?w op objs"
  have inv: "world_inv zones st'" using world_inv_commit [OF assms(2,1)] .
  have "find_idempotency st'' (op_idempotency_key op) = Some (idempotency_row_of ?w op objs h)"
    using find_idempotency_grows [OF assms(5) inv r(1)] .
  from replay_answer [OF this refl r(3,2)] r(4) assms(4) show ?thesis
    by (simp add: commit_def commit_transaction_def rolling_back_def)
qed

text \<open>Injectivity of the digest is collision resistance on the two requests at hand.\<close>

lemma request_fingerprint_Inr:
  "request_fingerprint zones digest op obs = Inr h \<Longrightarrow> h = digest (SemanticText (request_identity_of op obs))
     \<and> (\<forall>ob \<in> set obs. valid_object zones ob)"
proof -
  assume f: "request_fingerprint zones digest op obs = Inr h"
  then obtain op' obs' where n: "normalize_request zones op obs = Inr (op', obs')"
    and h: "h = digest (SemanticText (request_identity_of op' obs'))"
    by (auto simp: request_fingerprint_def split: option.splits)
  have "normalize_objects zones obs = Inr obs' \<longleftrightarrow> obs' = obs \<and> (\<forall>ob \<in> set obs. valid_object zones ob)"
    unfolding normalize_objects_def
    by (rule result_map_id) (auto simp: normalize_Inr_iff split: sum.splits
        simp: normalize_world_object_def valid_object_def)
  with n h normalize_operation_Inr show ?thesis
    by (auto simp: normalize_request_def split: sum.splits)
qed

lemma other_request_conflicts:
  assumes "commit zones digest now objs op st = (Inr res, st')" and "world_inv zones st"
    and "get_idempotent_result zones digest op objs st = Inr None"
    and "world_steps zones digest st' st''"
    and "op_idempotency_key op' = op_idempotency_key op" and "objs' \<noteq> []"
    and "request_identity_of op' objs' \<noteq> request_identity_of op objs" and "inj digest"
  shows "\<exists>reason. commit zones digest now' objs' op' st''
    = (Inl (StoreError EC_IDEMPOTENCY_CONFLICT reason), st'')"
  using assms(1,3)
proof (rule recorded)
  fix h
  let ?w = "cr_world_revision res"
  assume r: "find_idempotency st' (op_idempotency_key op) = Some (idempotency_row_of ?w op objs h)"
    "request_fingerprint zones digest op objs = Inr h" "op_idempotency_key op \<noteq> []"
  have inv: "world_inv zones st'" using world_inv_commit [OF assms(2,1)] .
  have row: "find_idempotency st'' (op_idempotency_key op) = Some (idempotency_row_of ?w op objs h)"
    using find_idempotency_grows [OF assms(4) inv r(1)] .
  show ?thesis
  proof (cases "request_fingerprint zones digest op' objs'")
    case (Inl e)
    with row r(3) assms(5,6) show ?thesis
      by (simp add: commit_def commit_transaction_def rolling_back_def get_idempotent_result_def)
  next
    case (Inr h')
    have "h' \<noteq> h"
      using request_fingerprint_Inr [OF Inr] request_fingerprint_Inr [OF r(2)] assms(7,8)
      by (auto dest: injD)
    with replay_answer [OF row assms(5) r(3) Inr] assms(6) show ?thesis
      by (simp add: commit_def commit_transaction_def rolling_back_def)
  qed
qed

section \<open>Optimistic concurrency\<close>

lemma fresh_commit_advances:
  assumes "commit zones digest now objs op st = (Inr res, st')" and "world_inv zones st"
    and "get_idempotent_result zones digest op objs st = Inr None"
  shows "op_expected_world_revision op = world_clock st" and "cr_world_revision res = world_clock st + 1"
    and "world_clock st' = world_clock st + 1"
  using assms(1,3)
proof (atomize (full), rule recorded)
  fix h assume a: "accepted zones digest objs op st (cr_world_revision res - 1) h"
    and st': "st' = appended now (cr_world_revision res) op objs h st"
  have "clock_inv st" using assms(2) by (simp add: world_inv_def)
  with a show "op_expected_world_revision op = world_clock st
      \<and> cr_world_revision res = world_clock st + 1 \<and> world_clock st' = world_clock st + 1"
    using clock_revision(1) [of st] by (simp add: accepted_def world_clock_def st')
qed

lemma stale_writer_loses:
  assumes "commit zones digest now objs op st = (Inr res, st')" and "world_inv zones st"
    and "get_idempotent_result zones digest op objs st = Inr None"
    and "world_steps zones digest st' st''"
    and "op_expected_world_revision op' = op_expected_world_revision op"
    and "get_idempotent_result zones digest op' objs' st'' = Inr None"
  shows "\<exists>e. commit zones digest now' objs' op' st'' = (Inl e, st'')"
proof -
  have inv: "world_inv zones st'" using world_inv_commit [OF assms(2,1)] .
  have inv'': "world_inv zones st''" using commits.steps_inv [OF assms(4) inv] .
  have "world_clock st < world_clock st''"
    using fresh_commit_advances(3) [OF assms(1-3)] commits.steps_log [OF assms(4) inv] by simp
  then have "op_expected_world_revision op' \<noteq> world_clock st''"
    using fresh_commit_advances(1) [OF assms(1-3)] assms(5) by simp
  then have "fst (commit zones digest now' objs' op' st'') \<noteq> Inr r" for r
    using fresh_commit_advances(1) [OF _ inv'' assms(6)] by (metis prod.collapse)
  then obtain e where "fst (commit zones digest now' objs' op' st'') = Inl e"
    by (cases "fst (commit zones digest now' objs' op' st'')") auto
  then show ?thesis using commit_Inl by (metis prod.collapse)
qed

end
