(* ===== verification/WorldService.thy ===== *)
theory WorldService
  imports WorldReplay
begin

text \<open>
  What the services above the store use: replay of an exact operation, resolution of
  references by a historical read, change feeds that end at commit boundaries, and the
  effect of pruning a dependency.
\<close>

section \<open>Replay of an exact operation\<close>

lemma find_row_in:
  assumes "chain_inv st" and "r \<in> set (ws_revisions st)"
  shows "find_row st (rr_object_id r) (rr_revision r) = Some r"
proof -
  have "find_row st (rr_object_id r) (rr_revision r) \<noteq> None"
    using assms(2) by (auto simp: find_row_def find_None_iff)
  then obtain q where q: "find_row st (rr_object_id r) (rr_revision r) = Some q" by blast
  then have "q \<in> set (ws_revisions st)" "row_key q = row_key r"
    by (auto simp: find_row_def row_key_def dest: find_Some_in)
  with rows_unique [OF assms(1)] assms(2) q show ?thesis by blast
qed

lemma replay_object_recorded:
  assumes "chain_inv st" and "content_row w ob \<in> set (ws_revisions st)"
    and "valid_object zones ob" and "durable_object ob = ob"
  shows "replay_object zones st (object_key ob) = Inr ob"
  using find_row_in [OF assms(1,2)] assms(3,4)
  by (simp add: replay_object_def object_key_def decode_payload_def)

lemma replay_objects_recorded:
  assumes "\<And>ob. ob \<in> set objs \<Longrightarrow> f (object_key ob) = Inr ob"
  shows "result_map f (map object_key objs) = Inr objs"
  using assms by (induction objs) auto

text \<open>The fingerprint reads the arguments and the identity of the request only.\<close>

lemma request_fingerprint_cong:
  assumes "request_fingerprint zones digest op obs = Inr h" and "normalize_operation op' = Inr op'"
    and "request_identity_of op' obs = request_identity_of op obs"
  shows "request_fingerprint zones digest op' obs = Inr h"
proof -
  have args: "op_arguments op' = op_arguments op"
    using assms(3) by (simp add: request_identity_of_def)
  from assms(1) obtain op1 obs' where n: "normalize_request zones op obs = Inr (op1, obs')"
    by (auto simp: request_fingerprint_def)
  then have no: "normalize_operation op = Inr op1" "normalize_objects zones obs = Inr obs'"
    by (auto simp: normalize_request_def split: sum.splits)
  then have op1: "op1 = op" using normalize_operation_Inr by blast
  have "obs' = obs" using no(2) unfolding normalize_objects_def
  proof (induction obs arbitrary: obs')
    case (Cons ob obs)
    then show ?case by (auto simp: normalize_world_object_def raising_def split: sum.splits option.splits)
  qed simp
  with n no assms op1 args show ?thesis
    by (auto simp: request_fingerprint_def normalize_request_def split: option.splits)
qed

lemma exact_operation_replay:
  assumes "commit zones digest now objs op st = (Inr res, st')" and "world_inv zones st"
    and "get_idempotent_result zones digest op objs st = Inr None" and "objs \<noteq> []"
    and "\<forall>ob \<in> set objs. durable_object ob = ob"
    and "world_steps zones digest st' st''"
    and key: "op_idempotency_key op' = op_idempotency_key op"
    and op2: "op2 = op'\<lparr>op_operation_id := op_operation_id op,
      op_expected_world_revision := op_expected_world_revision op\<rparr>"
    and "normalize_operation op2 = Inr op2"
    and "request_identity_of op2 objs = request_identity_of op objs"
  shows "replay_exact_operation zones digest now' op' st''
    = (Inr (Some (res\<lparr>cr_idempotent_replay := True\<rparr>)), st'')"
  using assms(1,3)
proof (rule recorded)
  fix h
  let ?w = "cr_world_revision res"
  assume r: "find_idempotency st' (op_idempotency_key op) = Some (idempotency_row_of ?w op objs h)"
    "operation_for_idempotency_key st' (op_idempotency_key op) = Some (operation_row_of ?w now op)"
    "request_fingerprint zones digest op objs = Inr h" "op_idempotency_key op \<noteq> []"
    "res = commit_result_of ?w op objs" "accepted zones digest objs op st (?w - 1) h"
    "st' = appended now ?w op objs h st"
  have inv: "world_inv zones st'" using world_inv_commit [OF assms(2,1)] .
  have chain: "chain_inv st''" using commits.steps_inv [OF assms(6) inv] by (simp add: world_inv_def)
  have row: "find_idempotency st'' (op_idempotency_key op) = Some (idempotency_row_of ?w op objs h)"
    "operation_for_idempotency_key st'' (op_idempotency_key op) = Some (operation_row_of ?w now op)"
    using find_idempotency_grows [OF assms(6) inv r(1)] operation_for_key_grows [OF assms(6) inv r(2)]
    by simp_all
  have "set (ws_revisions st') \<subseteq> set (ws_revisions st'')"
    using revisions.steps_log [OF assms(6) inv] by auto
  then have "content_row ?w ob \<in> set (ws_revisions st'')" if "ob \<in> set objs" for ob
    using that r(7) by (metis appended_simps(3) image_eqI set_append UnI2 set_map subsetD)
  then have objs: "result_map (replay_object zones st'') (map object_key objs) = Inr objs"
    using r(6) assms(5) unfolding accepted_def
    by (intro replay_objects_recorded replay_object_recorded [OF chain]) blast+
  have key2: "op_idempotency_key op2 = op_idempotency_key op" using op2 key by simp
  have "get_idempotent_result zones digest op2 objs st''
      = Inr (Some (res\<lparr>cr_idempotent_replay := True\<rparr>))"
    using replay_answer [OF row(1) key2 r(4) request_fingerprint_cong [OF r(3) assms(9,10)]] r(5) by simp
  then have "commit zones digest now' objs op2 st'' = (Inr (res\<lparr>cr_idempotent_replay := True\<rparr>), st'')"
    using assms(4) by (simp add: commit_def commit_transaction_def rolling_back_def)
  moreover have "cr_object_refs (commit_result_of ?w op objs) = map object_key objs"
    by (simp add: commit_result_of_def)
  ultimately show ?thesis
    using row key r(4) objs op2
    by (simp add: replay_exact_operation_def)
qed

lemma exact_replay:
  assumes "commit zones digest now objs op st = (Inr res, st')" and "world_inv zones st"
    and "get_idempotent_result zones digest op objs st = Inr None" and "objs \<noteq> []"
    and "\<forall>ob \<in> set objs. durable_object ob = ob"
    and "world_steps zones digest st' st''"
    and key: "op_idempotency_key op' = op_idempotency_key op"
    and op2: "op2 = op'\<lparr>op_operation_id := op_operation_id op,
      op_expected_world_revision := op_expected_world_revision op\<rparr>"
    and "normalize_operation op2 = Inr op2"
    and "request_identity_of op2 objs = request_identity_of op objs"
  shows "commit_or_replay zones digest now' objs' op' st''
    = (Inr (res\<lparr>cr_idempotent_replay := True\<rparr>), st'')"
  using exact_operation_replay [OF assms] by (simp add: commit_or_replay_def)

section \<open>References can be read back\<close>

lemma get_payload_found:
  assumes "payload_inv zones st" and "q \<in> set (ws_revisions st)" and "rr_object_id q = oid"
    and "case revision of None \<Rightarrow> True | Some v \<Rightarrow> rr_revision q = v"
    and "rr_world_revision q \<le> w" "fits_int64 w" "rr_learned_at q \<le> t" "0 \<le> t" "t \<le> max_instant"
  shows "\<exists>p. get_payload st oid revision (Some w) (Some (utc_datetime t)) = Inr p"
proof -
  let ?P = "\<lambda>r. rr_object_id r = oid \<and> (case revision of None \<Rightarrow> True | Some v \<Rightarrow> rr_revision r = v)
      \<and> visible (Some w) (Some t) r"
  have "q \<in> set (filter ?P (ws_revisions st))" using assms(2-5,7) by (simp add: visible_def)
  then have "latest_by rr_revision (filter ?P (ws_revisions st)) \<noteq> None"
    unfolding latest_by_None by (metis empty_iff empty_set)
  then obtain r where r: "latest_by rr_revision (filter ?P (ws_revisions st)) = Some r" by blast
  then have "r \<in> set (ws_revisions st)" using latest_by_Some by fastforce
  with assms(1) have "payload_ok zones r" by (simp add: payload_inv_def)
  then have "rr_payload r \<noteq> PayloadCorrupt" by (auto simp: payload_ok_def split: revision_kind.splits)
  then have d: "decode_payload ''corrupt_object_payload'' (rr_payload r) = Inr (rr_payload r)"
    by (cases "rr_payload r") (simp_all add: decode_payload_def)
  have v: "normalize_opt normalize_query_integer revision = Inr revision"
    using assms(1,2,4)
    by (cases revision) (auto simp: normalize_opt_def normalize_query_integer_def payload_inv_def payload_ok_def)
  have c: "normalize_query_cutoff (utc_datetime t) = Inr t"
    using assms(8,9) by (simp add: normalize_query_cutoff_def is_naive_def utc_datetime_def
        canonical_Inr_iff in_range_def utc_instant_def canonical_utc_iso_def as_utc_def as_utc_guards_def
        require_aware_def raising_def first_raise.simps)
  show ?thesis using r d v c assms(6)
    by (auto simp: get_payload_def normalize_opt_def normalize_query_integer_def)
qed

lemma reference_readable:
  assumes "world_inv zones st" and "r \<in> set (ws_revisions st)" and "rr_payload r = PayloadObject ob"
    and "x \<in> set (collect_refs ob)" and "t = utc_instant (reference_cutoff ob)"
    and "0 \<le> t" "t \<le> max_instant"
  shows "\<exists>p. get_payload st (ref_object_id x) (ref_revision x) (Some (rr_world_revision r))
           (Some (utc_datetime t)) = Inr p"
proof -
  have inv: "payload_inv zones st" "reference_inv st" "stamp_inv st" "clock_inv st"
    using assms(1) by (simp_all add: world_inv_def)
  from inv(2) assms(2-5) have "resolves st (rr_world_revision r) t x"
    by (auto simp: reference_inv_def row_resolved_def)
  then obtain q where q: "q \<in> set (ws_revisions st)" "rr_object_id q = ref_object_id x"
    "\<forall>v. ref_revision x = Some v \<longrightarrow> rr_revision q = v" "rr_learned_at q \<le> t"
    "rr_world_revision q \<le> rr_world_revision r" unfolding resolves_def by blast
  have "1 \<le> rr_world_revision r" "rr_world_revision r \<le> sqlite_int64_max"
    using inv(3,4) assms(2) by (fastforce simp: stamp_inv_def clock_inv_def)+
  then have "fits_int64 (rr_world_revision r)" by (simp add: fits_int64_def sqlite_int64_max_def)
  with q assms(6,7) show ?thesis
    by (intro get_payload_found [OF inv(1) q(1)]) (auto split: option.splits)
qed

section \<open>Change feeds\<close>

lemma sorted_take_drop:
  assumes "sorted (map f xs)" and "x \<in> set (take n xs)" and "y \<in> set (drop n xs)"
  shows "f x \<le> f y"
proof -
  have "sorted (map f (take n xs) @ map f (drop n xs))" using assms(1)
    by (metis append_take_drop_id map_append)
  with assms(2,3) show ?thesis by (auto simp: sorted_append)
qed

lemma sorted_last: "sorted (map f xs) \<Longrightarrow> x \<in> set xs \<Longrightarrow> f x \<le> f (last xs)"
  by (induction xs) auto

text \<open>
  A complete feed answers every row up to the newest world revision it mentions, so the
  watermark a consumer stores never cuts a commit.
\<close>

lemma revisions_after_complete:
  assumes "chain_inv st" and "revisions_after st w limit True = Inr rows" and "r \<in> set rows"
    and "q \<in> set (ws_revisions st)" and "w < rr_world_revision q"
    and "rr_world_revision q \<le> rr_world_revision r"
  shows "q \<in> set rows"
proof -
  define key where "key = (\<lambda>r. (rr_world_revision r, row_key r))"
  define all where "all = sort_key key (filter (\<lambda>r. w < rr_world_revision r) (ws_revisions st))"
  define page where "page = take (nat limit) all"
  define rest where "rest = sort_key row_key (filter (\<lambda>r. rr_world_revision r = rr_world_revision (last page)
      \<and> row_key (last page) < row_key r) (ws_revisions st))"
  have limit: "1 \<le> limit" using assms(2) by (auto simp: revisions_after_def split: if_splits)
  have rows: "rows = (if int (length page) = limit then page @ rest else page)"
    using assms(2) limit
    by (auto simp: revisions_after_def Let_def page_def rest_def all_def key_def split: if_splits)
  have sorted: "sorted (map key all)" by (simp add: all_def)
  have q: "q \<in> set all" using assms(4,5) by (simp add: all_def)
  show ?thesis
  proof (cases "q \<in> set page")
    case True
    then show ?thesis using rows by auto
  next
    case False
    with q have later: "q \<in> set (drop (nat limit) all)"
      unfolding page_def by (metis Un_iff append_take_drop_id set_append)
    then have "length all > nat limit" by (metis drop_all empty_iff empty_set not_le)
    then have len: "int (length page) = limit" "page \<noteq> []"
      using limit by (auto simp: page_def)
    then have lp: "last page \<in> set page" by simp
    have "key (last page) \<le> key q"
      using sorted_take_drop [OF sorted _ later] lp unfolding page_def by blast
    moreover have "rr_world_revision r \<le> rr_world_revision (last page)"
    proof (cases "r \<in> set page")
      case True
      have "sorted (map key page)"
        using sorted unfolding page_def by (metis take_map sorted_wrt_take)
      then have "key r \<le> key (last page)" using True by (rule sorted_last)
      then show ?thesis by (auto simp: key_def less_eq_prod_def)
    next
      case False
      then show ?thesis using assms(3) rows by (auto simp: rest_def split: if_splits)
    qed
    moreover have "row_key q \<noteq> row_key (last page)"
    proof
      assume "row_key q = row_key (last page)"
      moreover have "last page \<in> set (ws_revisions st)"
        using lp by (auto simp: page_def all_def dest: in_set_takeD)
      ultimately have "q = last page" using rows_unique [OF assms(1,4)] by blast
      with lp False show False by simp
    qed
    ultimately have "q \<in> set rest"
      using assms(4,6) by (auto simp: rest_def key_def order.strict_iff_order)
    with rows len show ?thesis by simp
  qed
qed

lemma revisions_after_sound:
  "revisions_after st w limit True = Inr rows \<Longrightarrow> set rows \<subseteq> set (ws_revisions st)
     \<and> (\<forall>r \<in> set rows. w < rr_world_revision r)"
proof -
  assume a: "revisions_after st w limit True = Inr rows"
  define page where "page = take (nat limit) (sort_key (\<lambda>r. (rr_world_revision r, row_key r))
      (filter (\<lambda>r. w < rr_world_revision r) (ws_revisions st)))"
  have page: "r \<in> set (ws_revisions st) \<and> w < rr_world_revision r" if "r \<in> set page" for r
    using that by (auto simp: page_def dest: in_set_takeD)
  have "page \<noteq> [] \<Longrightarrow> last page \<in> set page" by simp
  with a page show ?thesis
    by (fastforce simp: revisions_after_def Let_def page_def [symmetric] split: if_splits)
qed

section \<open>Pruning a dependency\<close>

text \<open>
  The newest version of a pruned dependency is a tombstone, which the graph check of a
  later commit cannot decode as a dependency.
\<close>

definition dependency_pruned :: "'h world_store \<Rightarrow> bool" where
  "dependency_pruned st \<longleftrightarrow> (\<exists>r \<in> set (dependency_rows st). rr_revision_kind r = RK_tombstone)"

lemma graph_check_corrupt:
  assumes "payload_inv zones st" and "dependency_pruned st" and "pending_dependencies objs \<noteq> []"
  shows "validate_dependency_graph zones st objs
    = Inl (StoreError EC_STORAGE_FAILURE ''corrupt_dependency_payload'')"
proof -
  let ?f = "\<lambda>r. dependency_payload zones (rr_payload r)"
  have one: "?f r = Inl (StoreError EC_STORAGE_FAILURE ''corrupt_dependency_payload'') \<or> (\<exists>x. ?f r = Inr x)" for r
    by (auto simp: dependency_payload_def split: payload.splits option.splits)
  obtain r where r: "r \<in> set (dependency_rows st)" "rr_revision_kind r = RK_tombstone"
    using assms(2) by (auto simp: dependency_pruned_def)
  have "payload_ok zones r" using r(1) assms(1) by (auto simp: payload_inv_def dependency_rows_def)
  then obtain t where "rr_payload r = PayloadTombstone t" using r(2) by (auto simp: payload_ok_def)
  then have bad: "?f r = Inl (StoreError EC_STORAGE_FAILURE ''corrupt_dependency_payload'')"
    by (simp add: dependency_payload_def)
  have "result_map ?f rs = Inl (StoreError EC_STORAGE_FAILURE ''corrupt_dependency_payload'')"
    if "r \<in> set rs" for rs
    using that
  proof (induction rs)
    case (Cons q qs)
    show ?case
    proof (cases "q = r")
      case False
      with Cons one [of q] show ?thesis by auto
    qed (simp add: bad)
  qed simp
  from this [OF r(1)] assms(3) show ?thesis by (simp add: validate_dependency_graph_def)
qed

lemma dependency_rows_keep:
  assumes "ws_revisions st' = ws_revisions st @ rs" and "r \<in> set (dependency_rows st)"
    and "\<forall>q \<in> set rs. rr_object_type q = OT_DEPENDENCY \<longrightarrow> rr_object_id q \<noteq> rr_object_id r"
  shows "r \<in> set (dependency_rows st')"
proof -
  have "filter (\<lambda>q. rr_object_type q = OT_DEPENDENCY) (rows_of (rr_object_id r) st')
      = filter (\<lambda>q. rr_object_type q = OT_DEPENDENCY) (rows_of (rr_object_id r) st)"
    using assms(1,3) by (auto simp: rows_of_def filter_empty_conv)
  then show ?thesis using assms(1,2) by (auto simp: dependency_rows_def dependency_versions_def)
qed

lemma dependency_row_newest:
  assumes "chain_inv st" and "latest_row st oid = Some r" and "rr_object_type r = OT_DEPENDENCY"
    and "ws_revisions st' = ws_revisions st @ [tombstone_row now w a reason r]"
  shows "tombstone_row now w a reason r \<in> set (dependency_rows st')"
proof -
  let ?vs = "dependency_versions st' (rr_object_id r)"
  have in_vs: "rr_revision r + 1 \<in> set ?vs"
    using assms(3,4) by (auto simp: dependency_versions_def rows_of_def)
  have "v \<le> rr_revision r + 1" if "v \<in> set ?vs" for v
  proof -
    from that obtain q where q: "v = rr_revision q" "rr_object_id q = rr_object_id r"
      "q \<in> set (ws_revisions st')"
      by (auto simp: dependency_versions_def rows_of_def)
    then have "q \<in> set (ws_revisions st) \<or> q = tombstone_row now w a reason r" using assms(4) by auto
    with latest_row_Some [OF assms(2)] q show ?thesis by fastforce
  qed
  then have "Max (set ?vs) = rr_revision r + 1" using in_vs by (intro Max_eqI) auto
  then have "sql_max ?vs = Some (rr_revision r + 1)" using in_vs by (auto simp: sql_max_def)
  then show ?thesis using assms(3,4) by (simp add: dependency_rows_def)
qed

lemma prune_dependency_pruned:
  assumes "world_inv zones st" and "prune now oid a reason st = (Inr u, st')"
    and "latest_object_type st oid = Some OT_DEPENDENCY \<or> dependency_pruned st"
  shows "dependency_pruned st'"
  using assms(2)
proof (cases rule: prune_Inr)
  case (1 r w)
  have chain: "chain_inv st" using assms(1) by (simp add: world_inv_def)
  show ?thesis
  proof (cases "rr_object_type r = OT_DEPENDENCY")
    case True
    with dependency_row_newest [OF chain 1(1) True 1(8)] show ?thesis
      unfolding dependency_pruned_def by (metis tombstone_row_simps(8))
  next
    case False
    with assms(3) 1(1) obtain q where q: "q \<in> set (dependency_rows st)" "rr_revision_kind q = RK_tombstone"
      by (auto simp: latest_object_type_def dependency_pruned_def)
    moreover have "q \<in> set (dependency_rows st')"
      using False by (intro dependency_rows_keep [OF 1(8) q(1)]) simp
    ultimately show ?thesis by (auto simp: dependency_pruned_def)
  qed
qed

lemma pruned_blocks_commit:
  assumes "payload_inv zones st" and "dependency_pruned st" and "accepted zones digest objs op st w h"
  shows "pending_dependencies objs = []"
  using graph_check_corrupt [OF assms(1,2)] assms(3) by (force simp: accepted_def)

lemma dependency_pruned_step:
  assumes "world_inv zones st" and "dependency_pruned st" and "world_step zones digest st st'"
  shows "dependency_pruned st'"
  using assms(3)
proof (cases rule: world_step_cases)
  case (commit now objs op r)
  show ?thesis
  proof (cases r)
    case (Inl e)
    with commit commit_Inl assms(2) show ?thesis by blast
  next
    case (Inr res)
    with commit have "commit zones digest now objs op st = (Inr res, st')" by simp
    then show ?thesis
    proof (cases rule: commit_Inr_cases)
      case (fresh w h)
      have "payload_inv zones st" using assms(1) by (simp add: world_inv_def)
      from pruned_blocks_commit [OF this assms(2) fresh(3)] have none: "pending_dependencies objs = []" .
      have rows: "ws_revisions st' = ws_revisions st @ map (content_row (w + 1)) objs"
        using write_commit_Inr(2) [OF fresh(4)] by simp
      obtain q where q: "q \<in> set (dependency_rows st)" "rr_revision_kind q = RK_tombstone"
        using assms(2) by (auto simp: dependency_pruned_def)
      have "wo_object_type ob \<noteq> OT_DEPENDENCY" if "ob \<in> set objs" for ob
        using that none dependency_type [of ob] pending_dependencies_iff [of "wo_object_id ob" _ objs] by auto
      then have "q \<in> set (dependency_rows st')" by (intro dependency_rows_keep [OF rows q(1)]) auto
      with q(2) show ?thesis by (auto simp: dependency_pruned_def)
    qed (use assms(2) in simp)
  qed
next
  case (prune now oid a reason r)
  show ?thesis
  proof (cases r)
    case (Inl e)
    with prune prune_Inl assms(2) show ?thesis by blast
  next
    case (Inr u)
    with prune prune_dependency_pruned [OF assms(1)] assms(2) show ?thesis by blast
  qed
qed

lemma pruned_dependency_blocks:
  assumes "world_inv zones st" and "dependency_pruned st" and "world_steps zones digest st st'"
    and "get_idempotent_result zones digest op objs st' = Inr None"
    and "\<exists>ob \<in> set objs. wo_object_type ob = OT_DEPENDENCY"
  shows "\<exists>e. commit zones digest now objs op st' = (Inl e, st')"
proof -
  have inv: "world_inv zones st'" using commits.steps_inv [OF assms(3,1)] .
  have "dependency_pruned st'"
    using assms(3)
  proof (induction rule: rtranclp_induct)
    case (step t u)
    then show ?case using dependency_pruned_step commits.steps_inv [OF step.hyps(1) assms(1)] by blast
  qed (rule assms(2))
  moreover have "pending_dependencies objs \<noteq> []"
    using assms(5) dependency_type pending_dependencies_iff [of _ _ objs] by (fastforce simp: neq_Nil_conv)
  ultimately have no: "\<not> accepted zones digest objs op st' w h" for w h
    using pruned_blocks_commit [of zones st'] inv unfolding world_inv_def by blast
  show ?thesis
  proof (cases "commit zones digest now objs op st'")
    case (Pair r s)
    show ?thesis
    proof (cases r)
      case (Inl e)
      with Pair commit_Inl show ?thesis by blast
    next
      case (Inr res)
      with Pair have "commit zones digest now objs op st' = (Inr res, s)" by simp
      then show ?thesis by (cases rule: commit_Inr_cases) (use assms(4) no in auto)
    qed
  qed
qed

section \<open>Stored times and policies\<close>

lemma content_times:
  assumes "payload_inv zones st" and "r \<in> set (ws_revisions st)" and "rr_revision_kind r = RK_content"
  shows "0 \<le> rr_learned_at r \<and> rr_learned_at r \<le> rr_recorded_at r \<and> rr_recorded_at r \<le> max_instant"
proof -
  have "payload_ok zones r" using assms(1,2) by (simp add: payload_inv_def)
  with assms(3) obtain ob where ob: "valid_object zones ob" "utc_instant (wo_learned_at ob) = rr_learned_at r"
    "utc_instant (wo_recorded_at ob) = rr_recorded_at r" by (auto simp: payload_ok_def)
  from valid_object_base [OF ob(1)] ob(2,3) show ?thesis by (simp add: in_range_def)
qed

lemma durable_policy:
  "wo_body (durable_object ob) = CognitivePolicy p \<Longrightarrow> \<exists>p0. wo_body ob = CognitivePolicy p0
     \<and> cgp_version p = cgp_version p0 \<and> cgp_previous_version p = cgp_previous_version p0
     \<and> cgp_rollback_pointer p = cgp_rollback_pointer p0"
  by (cases "wo_body ob") (auto simp: durable_object_def)

lemma valid_policy_versions:
  assumes "valid_object zones ob" and "wo_body ob = CognitivePolicy p"
  shows "cgp_version p = wo_revision ob"
    and "cgp_previous_version p = (if wo_revision ob = 1 then None else Some (wo_revision ob - 1))"
    and "cgp_rollback_pointer p = Some v \<Longrightarrow> 1 \<le> v \<and> v < wo_revision ob"
  using valid_object_body [OF assms(1)] valid_object_base(2) [OF assms(1)] assms(2)
  by (auto simp: cognitive_policy_guards_def opt_ge_def split: option.splits)

lemma policy_history:
  assumes "world_inv zones st" and "r \<in> set (ws_revisions st)" and "rr_payload r = PayloadObject ob"
    and "wo_body ob = CognitivePolicy p"
  shows "cgp_version p = rr_revision r"
    and "cgp_previous_version p = (if rr_revision r = 1 then None else Some (rr_revision r - 1))"
    and "v \<in> set_option (cgp_previous_version p) \<union> set_option (cgp_rollback_pointer p) \<Longrightarrow>
           v < rr_revision r \<and> v \<in> set (object_versions st (rr_object_id r))"
proof -
  have inv: "payload_inv zones st" "chain_inv st" using assms(1) by (simp_all add: world_inv_def)
  have "payload_ok zones r" using inv(1) assms(2) by (simp add: payload_inv_def)
  from payload_objectD [OF this assms(3)] obtain src where src: "valid_object zones src"
    "ob = durable_object src" "wo_revision src = rr_revision r" by metis
  then obtain p0 where p0: "wo_body src = CognitivePolicy p0" "cgp_version p = cgp_version p0"
    "cgp_previous_version p = cgp_previous_version p0" "cgp_rollback_pointer p = cgp_rollback_pointer p0"
    using durable_policy assms(4) by blast
  note v = valid_policy_versions [OF src(1) p0(1)]
  show "cgp_version p = rr_revision r" using v(1) p0 src(3) by simp
  show prev: "cgp_previous_version p = (if rr_revision r = 1 then None else Some (rr_revision r - 1))"
    using v(2) p0 src(3) by simp
  assume "v \<in> set_option (cgp_previous_version p) \<union> set_option (cgp_rollback_pointer p)"
  then have "1 \<le> v" "v < rr_revision r"
    using prev v(3) p0(4) src(3) row_revision_pos [OF inv(2) assms(2)] by (auto split: if_splits)
  moreover have "contiguous (object_versions st (rr_object_id r))" using inv(2) by (simp add: chain_inv_def)
  moreover have "rr_revision r \<in> set (object_versions st (rr_object_id r))"
    using assms(2) by (auto simp: object_versions_def rows_of_def)
  ultimately show "v < rr_revision r \<and> v \<in> set (object_versions st (rr_object_id r))"
    using contiguous_set by fastforce
qed

lemma live_dependencies_pinned: "world_inv zones st \<Longrightarrow> all_pinned (live_dependencies st)"
  unfolding all_pinned_def
proof
  fix e assume inv: "world_inv zones st" and "e \<in> set (live_dependencies st)"
  then obtain r where "r \<in> set (dependency_rows st)" and dep: "row_dependency r = Some e"
    by (auto simp: live_dependencies_iff)
  then obtain ob where r: "r \<in> set (ws_revisions st)" "rr_payload r = PayloadObject ob"
    "dependency_of ob = Some e"
    by (cases "rr_payload r") (auto simp: row_dependency_def dependency_rows_def)
  have "payload_ok zones r" using inv r(1) by (simp add: world_inv_def payload_inv_def)
  from payload_objectD [OF this r(2)] obtain src where "valid_object zones src" "ob = durable_object src"
    by metis
  with r(3) have "valid_object zones src" "wo_body src = Dependency e"
    by (simp_all add: dependency_of_type)
  from valid_dependency [OF this] show "\<not> unpinned (dep_dependent_ref e) \<and> \<not> unpinned (dep_dependency_ref e)"
    by (auto simp: unpinned_def)
qed

section \<open>Pruned objects stay listed\<close>

lemma pruned_latest:
  assumes "prune now oid a reason st = (Inr u, st')" and "latest_row st oid = Some r"
  obtains w where "tombstone_row now (w + 1) a reason r \<in> set (latest_rows st')"
proof -
  obtain w where rows: "ws_revisions st' = ws_revisions st @ [tombstone_row now (w + 1) a reason r]"
    using assms(1,2) by (cases rule: prune_Inr) auto
  note r = latest_row_Some [OF assms(2)]
  have "v \<le> rr_revision r + 1" if "v \<in> set (object_versions st' oid)" for v
    using that r by (fastforce simp: object_versions_def rows_of_def rows)
  moreover have top: "rr_revision r + 1 \<in> set (object_versions st' oid)"
    using r by (auto simp: object_versions_def rows_of_def rows)
  ultimately have "Max (set (object_versions st' oid)) = rr_revision r + 1" by (intro Max_eqI) auto
  with top have "latest_revision st' oid = Some (rr_revision r + 1)" by (auto simp: latest_revision_def sql_max_def)
  then show thesis using r by (intro that [of w]) (simp add: latest_rows_def rows)
qed

end
