(* ===== verification/WorldBatch.thy ===== *)
theory WorldBatch
  imports WorldService "HOL-Library.Multiset"
begin

text \<open>
  The batch read of storage/sqlite_store.py, \<open>get_payloads_for_ids\<close>, with its chunks of 400
  identifiers, and its equivalence with repeated single reads; the two SQL forms of
  \<open>list_payloads\<close> agree on the present.
\<close>

text \<open>\<open>dict.fromkeys\<close> keeps the first occurrence of each identifier.\<close>

fun first_occurrences :: "string list \<Rightarrow> string list \<Rightarrow> string list" where
  "first_occurrences seen [] = []"
| "first_occurrences seen (x # xs) =
     (if x = [] \<or> x \<in> set seen then first_occurrences seen xs
      else x # first_occurrences (x # seen) xs)"

definition chunk_size :: nat where
  "chunk_size = 400"

function chunks :: "'a list \<Rightarrow> 'a list list" where
  "chunks xs = (if xs = [] then [] else take chunk_size xs # chunks (drop chunk_size xs))"
  by auto
termination by (relation "measure length") (auto simp: chunk_size_def)

declare chunks.simps [simp del]

definition chunk_rows ::
    "'h world_store \<Rightarrow> int option \<Rightarrow> instant option \<Rightarrow> string list \<Rightarrow> revision_row list" where
  "chunk_rows st as_of cutoff chunk = first_per_object []
     (sort_key (\<lambda>r. (rr_object_id r, - rr_revision r))
       (filter (\<lambda>r. rr_object_id r \<in> set chunk \<and> visible as_of cutoff r) (ws_revisions st)))"

fun select_rows :: "revision_row list \<Rightarrow> (string \<times> payload) list
    \<Rightarrow> store_error + (string \<times> payload) list" where
  "select_rows [] selected = Inr selected"
| "select_rows (r # rs) selected =
     result_bind (decode_payload ''corrupt_object_payload'' (rr_payload r)) (\<lambda>p.
     select_rows rs (AList.update (rr_object_id r) p selected))"

fun select_chunks ::
    "'h world_store \<Rightarrow> int option \<Rightarrow> instant option \<Rightarrow> string list list \<Rightarrow> (string \<times> payload) list
       \<Rightarrow> store_error + (string \<times> payload) list" where
  "select_chunks st as_of cutoff [] selected = Inr selected"
| "select_chunks st as_of cutoff (c # cs) selected =
     result_bind (select_rows (chunk_rows st as_of cutoff c) selected)
       (select_chunks st as_of cutoff cs)"

definition get_payloads_for_ids ::
    "'h world_store \<Rightarrow> string list \<Rightarrow> int option \<Rightarrow> datetime option
       \<Rightarrow> store_error + (string \<times> payload) list" where
  "get_payloads_for_ids st object_ids as_of cutoff =
     (let ids = first_occurrences [] object_ids in
      if ids = [] then Inr []
      else result_bind (normalize_opt normalize_query_integer as_of) (\<lambda>as_of.
           result_bind (normalize_opt normalize_query_cutoff cutoff) (\<lambda>cutoff.
           select_chunks st as_of cutoff (chunks ids) [])))"

section \<open>The newest visible row of each object\<close>

lemma first_per_object_newest:
  assumes "sorted (map (\<lambda>r. (rr_object_id r, - rr_revision r)) rows)"
    and "inj_on row_key (set rows)" and "distinct rows"
  shows "set (first_per_object seen rows) = {r \<in> set rows. rr_object_id r \<notin> set seen
      \<and> (\<forall>q \<in> set rows. rr_object_id q = rr_object_id r \<longrightarrow> rr_revision q \<le> rr_revision r)}
    \<and> distinct (map rr_object_id (first_per_object seen rows))"
  using assms
proof (induction rows arbitrary: seen)
  case (Cons r rows)
  have later: "rr_revision q < rr_revision r" if "q \<in> set rows" "rr_object_id q = rr_object_id r" for q
  proof -
    have "(rr_object_id r, - rr_revision r) \<le> (rr_object_id q, - rr_revision q)"
      using Cons.prems(1) that(1) by auto
    then have "rr_revision q \<le> rr_revision r" using that(2) by simp
    moreover have "rr_revision q \<noteq> rr_revision r"
    proof
      assume "rr_revision q = rr_revision r"
      then have "row_key q = row_key r" using that(2) by (simp add: row_key_def)
      then have "q = r" using Cons.prems(2) that(1) by (simp add: inj_on_def)
      with that(1) Cons.prems(3) show False by simp
    qed
    ultimately show ?thesis by simp
  qed
  have prem: "sorted (map (\<lambda>r. (rr_object_id r, - rr_revision r)) rows)" "inj_on row_key (set rows)" "distinct rows"
    using Cons.prems by auto
  note IH = Cons.IH [OF prem]
  show ?case
  proof (cases "rr_object_id r \<in> set seen")
    case True
    then have "set (first_per_object seen (r # rows)) = set (first_per_object seen rows)" by simp
    also have "\<dots> = {x \<in> set (r # rows). rr_object_id x \<notin> set seen
      \<and> (\<forall>q \<in> set (r # rows). rr_object_id q = rr_object_id x \<longrightarrow> rr_revision q \<le> rr_revision x)}"
      using IH [of seen] True by auto
    finally show ?thesis using IH [of seen] True by simp
  next
    case False
    let ?s = "rr_object_id r # seen"
    have "set (first_per_object seen (r # rows)) = insert r (set (first_per_object ?s rows))"
      using False by simp
    also have "\<dots> = {x \<in> set (r # rows). rr_object_id x \<notin> set seen
      \<and> (\<forall>q \<in> set (r # rows). rr_object_id q = rr_object_id x \<longrightarrow> rr_revision q \<le> rr_revision x)}"
    proof (rule set_eqI)
      fix x
      show "x \<in> insert r (set (first_per_object ?s rows)) \<longleftrightarrow> x \<in> {x \<in> set (r # rows). rr_object_id x \<notin> set seen
        \<and> (\<forall>q \<in> set (r # rows). rr_object_id q = rr_object_id x \<longrightarrow> rr_revision q \<le> rr_revision x)}"
      proof (cases "rr_object_id x = rr_object_id r")
        case True
        then have "x \<notin> set (first_per_object ?s rows)" using IH [of ?s] by simp
        moreover have "\<not> rr_revision r \<le> rr_revision x" if "x \<in> set rows" using later [OF that True] by simp
        moreover have "\<forall>q \<in> set rows. rr_object_id q = rr_object_id r \<longrightarrow> rr_revision q \<le> rr_revision r"
          using later less_imp_le by blast
        ultimately show ?thesis using False True by auto
      next
        case other: False
        then show ?thesis using IH [of ?s] by auto
      qed
    qed
    finally show ?thesis using IH [of ?s] False by auto
  qed
qed simp

lemma rows_distinct: "chain_inv st \<Longrightarrow> distinct (map row_key (ws_revisions st))"
proof -
  assume chain: "chain_inv st"
  have "distinct (map row_key rs)" if "\<forall>oid. distinct (map rr_revision (filter (\<lambda>r. rr_object_id r = oid) rs))" for rs
    using that
  proof (induction rs)
    case (Cons r rs)
    have "distinct (map rr_revision (filter (\<lambda>x. rr_object_id x = oid) rs))" for oid
      using Cons.prems [rule_format, of oid] by (auto split: if_splits)
    moreover have "row_key r \<notin> row_key ` set rs"
    proof
      assume "row_key r \<in> row_key ` set rs"
      then obtain q where "q \<in> set rs" "rr_object_id q = rr_object_id r" "rr_revision q = rr_revision r"
        by (auto simp: row_key_def)
      with Cons.prems [rule_format, of "rr_object_id r"] show False by (auto simp: image_iff)
    qed
    ultimately show ?case using Cons.IH by simp
  qed simp
  then show ?thesis
    using chain contiguous_distinct by (auto simp: chain_inv_def object_versions_def rows_of_def)
qed

lemma newest_rows:
  fixes P :: "revision_row \<Rightarrow> bool"
  assumes "chain_inv st"
  defines "rows \<equiv> first_per_object [] (sort_key (\<lambda>r. (rr_object_id r, - rr_revision r))
      (filter P (ws_revisions st)))"
  shows "set rows = {r \<in> set (ws_revisions st). P r
      \<and> (\<forall>q \<in> set (ws_revisions st). P q \<longrightarrow> rr_object_id q = rr_object_id r \<longrightarrow> rr_revision q \<le> rr_revision r)}"
    and "distinct (map rr_object_id rows)"
proof -
  have "distinct (map row_key (ws_revisions st))" using assms(1) by (rule rows_distinct)
  then have "inj_on row_key (set (filter P (ws_revisions st)))" "distinct (filter P (ws_revisions st))"
    by (auto simp: distinct_map inj_on_def)
  then show "set rows = {r \<in> set (ws_revisions st). P r
      \<and> (\<forall>q \<in> set (ws_revisions st). P q \<longrightarrow> rr_object_id q = rr_object_id r \<longrightarrow> rr_revision q \<le> rr_revision r)}"
    and "distinct (map rr_object_id rows)"
    using first_per_object_newest [of "sort_key (\<lambda>r. (rr_object_id r, - rr_revision r))
      (filter P (ws_revisions st))" "[]"] unfolding rows_def by auto
qed

text \<open>A single read finds exactly the newest visible row.\<close>

lemma latest_by_iff:
  assumes "inj_on f (set xs)"
  shows "latest_by f xs = Some x \<longleftrightarrow> x \<in> set xs \<and> (\<forall>y \<in> set xs. f y \<le> f x)"
proof
  assume "x \<in> set xs \<and> (\<forall>y \<in> set xs. f y \<le> f x)"
  moreover then obtain z where z: "latest_by f xs = Some z"
    by (metis latest_by_None empty_iff empty_set not_Some_eq)
  ultimately have "f z = f x" using latest_by_Some [OF z] by (auto intro: antisym)
  with z latest_by_Some [OF z] \<open>x \<in> set xs \<and> _\<close> assms show "latest_by f xs = Some x"
    by (auto simp: inj_on_def)
qed (rule latest_by_Some)

section \<open>The selection loop\<close>

lemma select_rows_Inr:
  assumes "\<forall>r \<in> set rows. rr_payload r \<noteq> PayloadCorrupt" and "distinct (map rr_object_id rows)"
  shows "\<exists>m. select_rows rows acc = Inr m \<and> map_of m = map_of acc ++ (\<lambda>k.
    map_option rr_payload (List.find (\<lambda>r. rr_object_id r = k) rows))"
  using assms
proof (induction rows arbitrary: acc)
  case (Cons r rows)
  have d: "decode_payload ''corrupt_object_payload'' (rr_payload r) = Inr (rr_payload r)"
    using Cons.prems(1) by (cases "rr_payload r") (simp_all add: decode_payload_def)
  obtain m where m: "select_rows rows (AList.update (rr_object_id r) (rr_payload r) acc) = Inr m"
    "map_of m = map_of (AList.update (rr_object_id r) (rr_payload r) acc) ++ (\<lambda>k.
      map_option rr_payload (List.find (\<lambda>r. rr_object_id r = k) rows))"
    using Cons.IH [of "AList.update (rr_object_id r) (rr_payload r) acc"] Cons.prems by auto
  have "List.find (\<lambda>x. rr_object_id x = rr_object_id r) rows = None"
    using Cons.prems(2) by (auto simp: find_None_iff) (metis image_eqI)
  then have "map_of m = map_of acc ++ (\<lambda>k. map_option rr_payload (List.find (\<lambda>x. rr_object_id x = k) (r # rows)))"
    unfolding m(2) by (auto simp: fun_eq_iff map_add_def update_conv' split: option.splits)
  with m(1) d show ?case by simp
qed simp

definition newest :: "'h world_store \<Rightarrow> int option \<Rightarrow> instant option \<Rightarrow> string \<Rightarrow> revision_row option" where
  "newest st as_of cutoff oid = latest_by rr_revision
     (filter (\<lambda>r. rr_object_id r = oid \<and> visible as_of cutoff r) (ws_revisions st))"

lemma newest_iff:
  assumes "chain_inv st"
  shows "newest st as_of cutoff oid = Some r \<longleftrightarrow> r \<in> set (ws_revisions st) \<and> rr_object_id r = oid
    \<and> visible as_of cutoff r \<and> (\<forall>q \<in> set (ws_revisions st). rr_object_id q = oid \<longrightarrow>
        visible as_of cutoff q \<longrightarrow> rr_revision q \<le> rr_revision r)"
proof -
  have "inj_on rr_revision (set (filter (\<lambda>r. rr_object_id r = oid \<and> visible as_of cutoff r) (ws_revisions st)))"
    using rows_unique [OF assms] by (auto simp: inj_on_def row_key_def)
  from latest_by_iff [OF this] show ?thesis by (auto simp: newest_def)
qed

lemma chunk_rows_find:
  assumes "chain_inv st"
  shows "List.find (\<lambda>r. rr_object_id r = k) (chunk_rows st as_of cutoff c)
    = (if k \<in> set c then newest st as_of cutoff k else None)"
proof -
  note rows = newest_rows(1) [OF assms, of "\<lambda>r. rr_object_id r \<in> set c \<and> visible as_of cutoff r",
      folded chunk_rows_def]
  have mem: "r \<in> set (chunk_rows st as_of cutoff c) \<and> rr_object_id r = k
      \<longleftrightarrow> k \<in> set c \<and> newest st as_of cutoff k = Some r" for r
  proof (cases "rr_object_id r = k")
    case True
    then show ?thesis unfolding rows newest_iff [OF assms] mem_Collect_eq by metis
  next
    case False
    then show ?thesis unfolding newest_iff [OF assms] by blast
  qed
  show ?thesis
  proof (cases "List.find (\<lambda>r. rr_object_id r = k) (chunk_rows st as_of cutoff c)")
    case None
    then have "\<not> (r \<in> set (chunk_rows st as_of cutoff c) \<and> rr_object_id r = k)" for r
      by (auto simp: find_None_iff)
    then have "k \<in> set c \<Longrightarrow> newest st as_of cutoff k = None" using mem by (metis option.exhaust)
    with None show ?thesis by simp
  next
    case (Some r)
    then have "r \<in> set (chunk_rows st as_of cutoff c) \<and> rr_object_id r = k" by (auto dest: find_Some_in)
    with mem Some show ?thesis by simp
  qed
qed

lemma payload_not_corrupt: "payload_ok zones r \<Longrightarrow> rr_payload r \<noteq> PayloadCorrupt"
  by (auto simp: payload_ok_def split: revision_kind.splits)

lemma chunk_rows_ok:
  assumes "chain_inv st" and "payload_inv zones st" and "r \<in> set (chunk_rows st as_of cutoff c)"
  shows "rr_payload r \<noteq> PayloadCorrupt"
proof -
  have "r \<in> set (ws_revisions st)"
    using assms(3) newest_rows(1) [OF assms(1), of "\<lambda>r. rr_object_id r \<in> set c \<and> visible as_of cutoff r"]
    by (simp add: chunk_rows_def)
  with assms(2) have "payload_ok zones r" by (simp add: payload_inv_def)
  then show ?thesis by (rule payload_not_corrupt)
qed

lemma select_chunks_Inr:
  assumes "chain_inv st" and "payload_inv zones st"
  shows "\<exists>m. select_chunks st as_of cutoff cs acc = Inr m \<and> map_of m = map_of acc ++ (\<lambda>k.
    if k \<in> set (concat cs) then map_option rr_payload (newest st as_of cutoff k) else None)"
proof (induction cs arbitrary: acc)
  case Nil
  then show ?case by (simp add: fun_eq_iff map_add_def)
next
  case (Cons c cs)
  note rows = newest_rows [OF assms(1), of "\<lambda>r. rr_object_id r \<in> set c \<and> visible as_of cutoff r",
      folded chunk_rows_def]
  have "\<forall>r \<in> set (chunk_rows st as_of cutoff c). rr_payload r \<noteq> PayloadCorrupt"
    using chunk_rows_ok [OF assms] by blast
  from select_rows_Inr [OF this rows(2), of acc] obtain m1 where
    m1: "select_rows (chunk_rows st as_of cutoff c) acc = Inr m1"
    "map_of m1 = map_of acc ++ (\<lambda>k. map_option rr_payload
        (if k \<in> set c then newest st as_of cutoff k else None))"
    by (auto simp: chunk_rows_find [OF assms(1)])
  from Cons.IH [of m1] obtain m where m: "select_chunks st as_of cutoff cs m1 = Inr m"
    "map_of m = map_of m1 ++ (\<lambda>k. if k \<in> set (concat cs)
       then map_option rr_payload (newest st as_of cutoff k) else None)" by blast
  have "map_of m = map_of acc ++ (\<lambda>k. if k \<in> set (concat (c # cs))
       then map_option rr_payload (newest st as_of cutoff k) else None)"
    unfolding m(2) m1(2) by (auto simp: fun_eq_iff map_add_def split: option.splits)
  with m1(1) m(1) show ?case by simp
qed

lemma concat_chunks: "concat (chunks xs) = xs"
proof (induction xs rule: chunks.induct)
  case (1 xs)
  then show ?case by (subst chunks.simps) simp
qed

lemma set_first_occurrences: "set (first_occurrences seen xs) = set xs - set seen - {[]}"
  by (induction xs arbitrary: seen) auto

lemma get_payload_newest:
  "get_payload st oid None as_of cutoff =
     result_bind (normalize_opt normalize_query_integer as_of) (\<lambda>a.
     result_bind (normalize_opt normalize_query_cutoff cutoff) (\<lambda>c.
     case newest st a c oid of None \<Rightarrow> Inl (StoreError EC_NOT_FOUND ''object not found'')
     | Some r \<Rightarrow> decode_payload ''corrupt_object_payload'' (rr_payload r)))"
  by (simp add: get_payload_def normalize_opt_def newest_def)

lemma batch_equals_single_reads:
  assumes "world_inv zones st" and "get_payloads_for_ids st ids as_of cutoff = Inr m" and "oid \<noteq> []"
  shows "map_of m oid = (if oid \<in> set ids then
      (case get_payload st oid None as_of cutoff of Inr p \<Rightarrow> Some p | Inl e \<Rightarrow> None) else None)"
proof -
  have inv: "chain_inv st" "payload_inv zones st" using assms(1) by (simp_all add: world_inv_def)
  have mem: "oid \<in> set (first_occurrences [] ids) \<longleftrightarrow> oid \<in> set ids"
    using assms(3) by (simp add: set_first_occurrences)
  show ?thesis
  proof (cases "first_occurrences [] ids = []")
    case True
    with mem assms(2) show ?thesis by (simp add: get_payloads_for_ids_def)
  next
    case False
    with assms(2) obtain a c where a: "normalize_opt normalize_query_integer as_of = Inr a"
      and c: "normalize_opt normalize_query_cutoff cutoff = Inr c"
      and m: "select_chunks st a c (chunks (first_occurrences [] ids)) [] = Inr m"
      by (auto simp: get_payloads_for_ids_def)
    from select_chunks_Inr [OF inv, of a c "chunks (first_occurrences [] ids)" "[]"] m
    have "map_of m oid = (if oid \<in> set ids then map_option rr_payload (newest st a c oid) else None)"
      by (simp only: concat_chunks) (auto simp: mem map_add_def)
    moreover have "decode_payload ''corrupt_object_payload'' (rr_payload r) = Inr (rr_payload r)"
      if "newest st a c oid = Some r" for r
    proof -
      have "r \<in> set (ws_revisions st)" using that unfolding newest_iff [OF inv(1)] by blast
      then have "payload_ok zones r" using inv(2) by (simp add: payload_inv_def)
      then show ?thesis by (auto simp: payload_ok_def decode_payload_def split: revision_kind.splits)
    qed
    ultimately show ?thesis using a c by (auto simp: get_payload_newest split: option.splits)
  qed
qed

section \<open>The present is a historical cut\<close>

lemma result_map_decode:
  "\<forall>r \<in> set rs. rr_payload r \<noteq> PayloadCorrupt \<Longrightarrow>
     result_map (\<lambda>r. decode_payload ''corrupt_object_payload'' (rr_payload r)) rs = Inr (map rr_payload rs)"
proof (induction rs)
  case (Cons r rs)
  then have "decode_payload ''corrupt_object_payload'' (rr_payload r) = Inr (rr_payload r)"
    by (cases "rr_payload r") (simp_all add: decode_payload_def)
  with Cons show ?case by simp
qed simp

lemma latest_revision_iff:
  assumes "r \<in> set (ws_revisions st)"
  shows "latest_revision st (rr_object_id r) = Some (rr_revision r) \<longleftrightarrow>
    (\<forall>q \<in> set (ws_revisions st). rr_object_id q = rr_object_id r \<longrightarrow> rr_revision q \<le> rr_revision r)"
proof
  let ?vs = "object_versions st (rr_object_id r)"
  assume "\<forall>q \<in> set (ws_revisions st). rr_object_id q = rr_object_id r \<longrightarrow> rr_revision q \<le> rr_revision r"
  then have "Max (set ?vs) = rr_revision r"
    using assms by (intro Max_eqI) (auto simp: object_versions_def rows_of_def)
  moreover have "?vs \<noteq> []" using assms by (auto simp: object_versions_def rows_of_def filter_empty_conv)
  ultimately show "latest_revision st (rr_object_id r) = Some (rr_revision r)"
    by (simp add: latest_revision_def sql_max_def)
qed (auto simp: latest_revision_def object_versions_def rows_of_def dest!: sql_max_Some)

lemma present_is_cut:
  assumes "world_inv zones st"
  shows "\<exists>now cut. list_payloads st t s None None = Inr now
    \<and> list_payloads st t s (Some (world_clock st)) None = Inr cut \<and> mset cut = mset now"
proof -
  have inv: "chain_inv st" "payload_inv zones st" "stamp_inv st" "clock_inv st"
    using assms by (simp_all add: world_inv_def)
  let ?w = "world_clock st"
  have fits: "normalize_query_integer ?w = Inr ?w"
    using inv(4) by (simp add: normalize_query_integer_def fits_int64_def clock_inv_def world_clock_def
        sqlite_int64_max_def)
  have vis: "filter (visible (Some ?w) None) (ws_revisions st) = ws_revisions st"
    using inv(3) by (auto simp: filter_id_conv visible_def stamp_inv_def world_clock_def)
  have ok: "\<forall>r \<in> set (ws_revisions st). rr_payload r \<noteq> PayloadCorrupt"
    using inv(2) payload_not_corrupt by (auto simp: payload_inv_def)
  define top where "top = first_per_object [] (sort_key (\<lambda>r. (rr_object_id r, - rr_revision r)) (ws_revisions st))"
  have top: "set top = set (latest_rows st)" "distinct top"
    using newest_rows [OF inv(1), of "\<lambda>_. True"] latest_revision_iff [of _ st]
    by (auto simp: top_def latest_rows_def distinct_map)
  have "distinct (latest_rows st)"
    using rows_distinct [OF inv(1)] by (simp add: latest_rows_def distinct_map)
  with top have "mset top = mset (latest_rows st)" by (metis set_eq_iff_mset_eq_distinct)
  then have "mset (map rr_payload (sort_key rr_recorded_at (filter (selects t s) top)))
      = mset (map rr_payload (sort_key rr_recorded_at (filter (selects t s) (latest_rows st))))"
    by simp
  moreover have "list_payloads st t s None None
      = Inr (map rr_payload (sort_key rr_recorded_at (filter (selects t s) (latest_rows st))))"
    using ok by (simp add: list_payloads_def normalize_opt_def latest_rows_def result_map_decode)
  moreover have "list_payloads st t s (Some ?w) None
      = Inr (map rr_payload (sort_key rr_recorded_at (filter (selects t s) top)))"
  proof -
    have "\<forall>r \<in> set top. rr_payload r \<noteq> PayloadCorrupt" using ok top(1) by (auto simp: latest_rows_def)
    then show ?thesis
      by (simp add: list_payloads_def list_payloads_historical_def normalize_opt_def fits vis
          top_def [symmetric] result_map_decode)
  qed
  ultimately show ?thesis by blast
qed

end
