(* ===== verification/Examples.thy ===== *)
theory Examples
  imports WorldBatch
begin

text \<open>
  Concrete requests and the stores they lead to, evaluated by the kernel; the witnesses of
  the properties are stated on them. Every time zone name is accepted and the digest is the
  canonical text itself.
\<close>

definition all_zones :: "string \<Rightarrow> bool" where
  "all_zones z = True"

definition plain_object :: "string \<Rightarrow> int \<Rightarrow> object_body \<Rightarrow> world_object" where
  "plain_object oid v body = \<lparr>
     wo_object_id = oid, wo_subject_id = ''s'', wo_revision = v, wo_occurred = unknown_time,
     wo_learned_at = utc_datetime 1, wo_recorded_at = utc_datetime 2, wo_source_refs = [],
     wo_created_by = ''u'', wo_status = ''active'', wo_metadata = [], wo_body = body\<rparr>"

definition reading :: "int \<Rightarrow> object_body" where
  "reading n = Observation \<lparr>obs_source_kind = ''sensor'', obs_modality = ''n'', obs_value = PInt n,
     obs_unit = None, obs_data_quality = [], obs_raw_locator = None\<rparr>"

definition depends :: "string \<Rightarrow> string \<Rightarrow> object_body" where
  "depends a b = Dependency \<lparr>dep_dependent_ref = oref a (Some 1), dep_dependency_ref = oref b (Some 1),
     dep_dependency_type = ''input''\<rparr>"

definition request :: "string \<Rightarrow> int \<Rightarrow> operation_request" where
  "request k w = \<lparr>
     op_operation_id = ''op-'' @ k, op_session_id = None, op_operation_name = ''ingest'',
     op_arguments = [], op_expected_world_revision = w, op_reason = ''r'',
     op_idempotency_key = k, op_source_class = SC_SENSOR, op_maintenance_class = None\<rparr>"

abbreviation example_commit ::
    "instant \<Rightarrow> world_object list \<Rightarrow> operation_request \<Rightarrow> identity_text world_store
       \<Rightarrow> (store_error + commit_result) \<times> identity_text world_store" where
  "example_commit \<equiv> commit all_zones id"

text \<open>Two readings, a dependency of the second on the first, then the pruned dependency.\<close>

definition objects1 :: "world_object list" where
  "objects1 = [plain_object ''a'' 1 (reading 5), plain_object ''b'' 1 (reading 7)]"

definition objects2 :: "world_object list" where
  "objects2 = [plain_object ''d'' 1 (depends ''b'' ''a'')]"

definition store1 :: "identity_text world_store" where
  "store1 = snd (example_commit 10 objects1 (request ''k1'' 0) initial_store)"

definition store2 :: "identity_text world_store" where
  "store2 = snd (example_commit 20 objects2 (request ''k2'' 1) store1)"

definition store3 :: "identity_text world_store" where
  "store3 = snd (prune 30 ''d'' ''auth'' ''cleanup'' store2)"

definition result1 :: commit_result where
  "result1 = \<lparr>cr_operation_id = ''op-k1'', cr_world_revision = 1,
     cr_object_refs = [(''a'', 1), (''b'', 1)], cr_idempotent_replay = False\<rparr>"

definition result2 :: commit_result where
  "result2 = \<lparr>cr_operation_id = ''op-k2'', cr_world_revision = 2,
     cr_object_refs = [(''d'', 1)], cr_idempotent_replay = False\<rparr>"

lemma example_commit1: "example_commit 10 objects1 (request ''k1'' 0) initial_store = (Inr result1, store1)"
proof -
  have "fst (example_commit 10 objects1 (request ''k1'' 0) initial_store) = Inr result1"
    by code_simp
  then show ?thesis by (simp add: store1_def prod_eq_iff)
qed

lemma example_fresh1: "get_idempotent_result all_zones id (request ''k1'' 0) objects1 initial_store = Inr None"
  by code_simp

lemma example_commit2: "example_commit 20 objects2 (request ''k2'' 1) store1 = (Inr result2, store2)"
proof -
  have "fst (example_commit 20 objects2 (request ''k2'' 1) store1) = Inr result2"
    by code_simp
  then show ?thesis by (simp add: store2_def prod_eq_iff)
qed

lemma example_prune3: "prune 30 ''d'' ''auth'' ''cleanup'' store2 = (Inr (), store3)"
proof -
  have "fst (prune 30 ''d'' ''auth'' ''cleanup'' store2) = Inr ()"
    by code_simp
  then show ?thesis by (simp add: store3_def prod_eq_iff)
qed

lemma example_clock: "world_clock store1 = 1" "world_clock store2 = 2" "world_clock store3 = 3"
  by code_simp+

text \<open>The example runs are runs of the step relation.\<close>

lemma example_steps:
  "world_steps all_zones id initial_store store1" "world_steps all_zones id store1 store3"
  "world_steps all_zones id initial_store store3" "world_step all_zones id store1 store2"
  "world_step all_zones id store2 store3"
proof -
  have 1: "world_step all_zones id initial_store store1" using example_commit1 by (rule step_commit)
  show 2: "world_step all_zones id store1 store2" using example_commit2 by (rule step_commit)
  show 3: "world_step all_zones id store2 store3" using example_prune3 by (rule step_prune)
  from 1 show a: "world_steps all_zones id initial_store store1" by simp
  from 2 3 show b: "world_steps all_zones id store1 store3" by simp
  from a b show "world_steps all_zones id initial_store store3" by (rule rtranclp_trans)
qed

lemma example_inv: "world_inv all_zones store1" "world_inv all_zones store2" "world_inv all_zones store3"
  using commits.steps_inv [OF example_steps(1) world_inv_initial]
    commits.steps_inv [OF example_steps(3) world_inv_initial]
    world_inv_step [OF _ example_steps(4)] by auto

section \<open>A cycle and a policy\<close>

definition dependency_between :: "string \<Rightarrow> string \<Rightarrow> dependency" where
  "dependency_between a b = \<lparr>dep_dependent_ref = oref a (Some 1), dep_dependency_ref = oref b (Some 1),
     dep_dependency_type = ''input''\<rparr>"

definition cyclic_dependencies :: "dependency list" where
  "cyclic_dependencies = [dependency_between ''a'' ''b'', dependency_between ''b'' ''a'']"

definition policy_version :: "int \<Rightarrow> int \<Rightarrow> cognitive_policy" where
  "policy_version v x = \<lparr>
     cgp_policy_id = ''p'', cgp_scope = ''wake'', cgp_policy_class = PC_COGNITIVE_POLICY,
     cgp_default_value = PInt 3, cgp_current_value = PInt x,
     cgp_allowed_range_or_choices = PDict [(''max'', PInt 9), (''min'', PInt 1)],
     cgp_mutable_by_ai = True, cgp_reason = ''r'', cgp_evidence_refs = [], cgp_changed_by = ''ai'',
     cgp_changed_at = utc_datetime 1, cgp_version = v,
     cgp_previous_version = (if v = 1 then None else Some (v - 1)),
     cgp_rollback_pointer = (if v = 1 then None else Some 1), cgp_evaluation_window = ''7d''\<rparr>"

definition policy_store1 :: "identity_text world_store" where
  "policy_store1 = snd (example_commit 10 [plain_object ''p'' 1 (CognitivePolicy (policy_version 1 3))]
     (request ''k1'' 0) initial_store)"

definition policy_store2 :: "identity_text world_store" where
  "policy_store2 = snd (example_commit 20 [plain_object ''p'' 2 (CognitivePolicy (policy_version 2 5))]
     (request ''k2'' 1) policy_store1)"

lemma policy_steps: "world_steps all_zones id initial_store policy_store2"
proof -
  have "world_step all_zones id initial_store policy_store1"
    unfolding policy_store1_def by (rule step_commit) (rule prod.collapse [symmetric])
  moreover have "world_step all_zones id policy_store1 policy_store2"
    unfolding policy_store2_def by (rule step_commit) (rule prod.collapse [symmetric])
  ultimately show ?thesis by simp
qed

lemma policy_row: "content_row 2 (plain_object ''p'' 2 (CognitivePolicy (policy_version 2 5)))
  \<in> set (ws_revisions policy_store2)"
  by code_simp

end
