(* ===== verification/TurnExamples.thy ===== *)
theory TurnExamples
  imports TurnSafety RuntimeExamples Examples
begin

text \<open>A user turn whose only round is the attempt of \<open>RuntimeExamples\<close>.\<close>

definition ex_turn :: turn_request where
  "ex_turn = \<lparr>tq_key = \<lparr>tk_subject_id = ''s'', tk_session_id = ''t'', tk_turn_index = 0\<rparr>,
     tq_user_input = ''hi'', tq_occurred_at = ''now'', tq_assistant_id = ''reply''\<rparr>"

definition ex_turn_row :: turn_row where
  "ex_turn_row = \<lparr>tx_key = tq_key ex_turn, tx_input_hash = input_hash ex_codec ex_turn, tx_state = TurnStarted,
     tx_attempt_protocol = Some pre_attempt_protocol, tx_retry_authorized = False, tx_retry_count = 0,
     tx_reconciliation_evidence = None\<rparr>"

text \<open>The claimed turn, with the runtime tables of a run.\<close>

definition ex_turns :: "runtime_db \<Rightarrow> identity_text turn_db" where
  "ex_turns rt = \<lparr>td_turns = [ex_turn_row], td_runtime = rt, td_world = initial_store\<rparr>"

lemma ex_turn_fits [simp]: "fits_int64 (tk_turn_index (tq_key ex_turn))"
  by (simp add: ex_turn_def fits_int64_def sqlite_int64_max_def)

lemma no_output [simp]: "assistant_ref (ex_turns rt) i = None" "assistant_ref (empty_turns :: identity_text turn_db) i = None"
  by (simp_all add: assistant_ref_def ex_turns_def empty_turns_def initial_store_def latest_revision_def
      object_versions_def rows_of_def sql_max_def)

lemma ex_claim: "claim ex_codec ex_turn (empty_turns :: identity_text turn_db) = (Inr (), ex_turns empty_runtime)"
proof -
  have "turn_of (empty_turns :: identity_text turn_db) k = None" for k by (simp add: turn_of_def empty_turns_def)
  then show ?thesis
    by (simp add: claim_def with_key_def) (simp add: empty_turns_def ex_turns_def ex_turn_row_def)
qed

lemma ex_turn_run: "turn_run all_zones id ex_codec [Granted (tq_key ex_turn)] empty_turns (ex_turns empty_runtime)"
proof -
  let ?db = "empty_turns :: identity_text turn_db"
  have "turn_step all_zones id ex_codec (event_of (Granted (tq_key ex_turn)) (claim ex_codec ex_turn ?db))
      ?db (snd (claim ex_codec ex_turn ?db))" by (rule step_claim)
  then have "turn_step all_zones id ex_codec (Granted (tq_key ex_turn)) empty_turns (ex_turns empty_runtime)"
    by (simp add: ex_claim event_of_def)
  with turn_run_snoc [OF turn_run_Nil, of all_zones id ex_codec] show ?thesis by fastforce
qed

lemma turn_run_runtime:
  assumes "runtime_steps cd rt rt'" and "\<exists>es. turn_run zones digest cd es db (ex_turns rt)"
  shows "\<exists>es. turn_run zones digest cd es db (ex_turns rt')"
  using assms(1)
proof (induction rule: runtime_steps_induct)
  case (step x y)
  then obtain es where "turn_run zones digest cd es db (ex_turns x)" by blast
  moreover have "turn_step zones digest cd Quiet (ex_turns x) (ex_turns y)"
    using step_runtime [of cd "ex_turns x" y zones digest] step(2) by (simp add: ex_turns_def)
  ultimately show ?case by (blast intro: turn_run_snoc)
qed (rule assms(2))

lemma ex_turns_reachable: "runtime_steps ex_codec empty_runtime rt \<Longrightarrow> reachable_turns all_zones id ex_codec (ex_turns rt)"
  unfolding reachable_turns_def by (rule turn_run_runtime) (use ex_turn_run in blast)+

lemma ex_open: "open_row ex_codec ex_turn (ex_turns rt) ex_turn_row"
  by (simp add: open_row_def turn_of_def) (simp add: ex_turns_def ex_turn_row_def)

lemma ex_execution_id: "execution_id_for ex_codec (tq_key ex_turn) = wi_work_id ex_work"
  by (simp add: execution_id_for_def ex_work_def ex_hexdigest)

lemma ex_attempts1: "turn_attempts ex_codec (ex_turns ex_db1) (tq_key ex_turn) = [ex_admitted]"
  by (simp add: turn_attempts_def ex_execution_id)
    (simp add: ex_turns_def ex_db1_def ex_admitted_def new_attempt_def ex_work_def ex_turn_def)

lemma ex_unsent1: "provably_unsent ex_codec (ex_turns ex_db1) ex_turn_row"
  using ex_attempts1
  by (simp add: provably_unsent_def unsent_states_def ex_turn_row_def)
    (simp add: ex_admitted_def new_attempt_def)

lemma ex_attempts4: "\<exists>a. turn_attempts ex_codec (ex_turns ex_db4) (tq_key ex_turn) = [a]
    \<and> at_state a = ResponseReturned \<and> at_attempt_id a = ex_id"
proof -
  have "length (as_attempts (rd_attempts ex_db4)) = 1"
    by (simp add: ex_db4_def close_round_def update_attempt_def update_rows_def insert_response_def ex_db3_def
        adopted_def Let_def ex_db2_def dispatched_def ex_db1_def)
  then obtain b where b: "as_attempts (rd_attempts ex_db4) = [b]" by (auto simp: length_Suc_conv)
  obtain a where a: "attempt_row (rd_attempts ex_db4) ex_id = Some a" "at_work a = ex_work"
    "at_state a = ResponseReturned" "at_attempt_id a = ex_id" by (rule ex_returned4)
  then have "b = a" using b by (simp add: attempt_row_def find_row_single split: if_splits)
  then have "turn_attempts ex_codec (ex_turns ex_db4) (tq_key ex_turn) = [a]"
    using a(2) by (simp add: turn_attempts_def ex_execution_id)
      (simp add: ex_turns_def b ex_work_def ex_turn_def)
  with a(3,4) show ?thesis by blast
qed

lemma ex_ready4: "staged_exact_response_attempt_id ex_codec (ex_turns ex_db4) (tq_key ex_turn) = Some ex_id"
  using ex_attempts4 ex_staged4
  by (auto simp: staged_exact_response_attempt_id_def) (simp_all add: ex_turns_def)

lemma ex_inspect4:
  obtains s where "inspect_turn ex_codec ex_turn (ex_turns ex_db4) = Inr s"
    "ts_recovery_disposition s = ExactResponseReady"
proof -
  obtain a where "turn_attempts ex_codec (ex_turns ex_db4) (tq_key ex_turn) = [a]" "at_state a = ResponseReturned"
    using ex_attempts4 by blast
  then have "disposition ex_turn_row None (map at_state (turn_attempts ex_codec (ex_turns ex_db4) (tq_key ex_turn)))
      (staged_exact_response_attempt_id ex_codec (ex_turns ex_db4) (tq_key ex_turn)) = ExactResponseReady"
    by (simp add: disposition_def ex_ready4 unsent_states_def) (simp add: ex_turn_row_def)
  with that inspect_open [OF ex_open, of ex_db4] show ?thesis by simp
qed

end
