(* ===== verification/BudgetGate.thy ===== *)
theory BudgetGate
  imports Metering WorldCommit
begin

text \<open>
  runtime/budget_gate.py: the mechanical budget of autonomous model execution. The gate reads
  the budget policies and the wakes from the world store and the calls from the metering
  ledger. \<open>datetime.fromisoformat\<close>, \<open>isoformat\<close> and \<open>str\<close> of a value that is not text belong to
  the Python runtime and are fields of the environment.
\<close>

record gate_env =
  ge_zones :: "string \<Rightarrow> bool"
  ge_fromiso :: "string \<Rightarrow> datetime option"
  ge_isoformat :: "instant \<Rightarrow> string"
  ge_str :: "pyval \<Rightarrow> string"

datatype gate_error =
    GateStore store_error
  | GateMeter attempt_error
  | GateInvalidModel
  | GateBadTime contract_error
  | GateValue string
  | GateOverflow

section \<open>Reading policies, wakes and times\<close>

definition day_length :: int where
  "day_length = 86400000000"

definition gate_window :: "datetime \<Rightarrow> gate_error + instant \<times> instant" where
  "gate_window now = (case as_utc now ''now'' of
     Inl e \<Rightarrow> Inl (GateBadTime e)
   | Inr t \<Rightarrow> let start = t - t mod day_length in
       if max_instant < start + day_length then Inl GateOverflow else Inr (start, start + day_length))"

text \<open>\<open>model_validate\<close> of a stored payload: the fields of another model or of a tombstone do not fit.\<close>

definition validate_payload :: "gate_env \<Rightarrow> payload \<Rightarrow> gate_error + world_object" where
  "validate_payload env p = (case p of
     PayloadObject ob \<Rightarrow>
       if first_raise (world_object_guards (ge_zones env) ob) = None then Inr ob else Inl GateInvalidModel
   | _ \<Rightarrow> Inl GateInvalidModel)"

definition validate_policy :: "gate_env \<Rightarrow> payload \<Rightarrow> gate_error + world_object \<times> budget_policy" where
  "validate_policy env p = result_bind (validate_payload env p) (\<lambda>ob. case wo_body ob of
     BudgetPolicy b \<Rightarrow> Inr (ob, b) | _ \<Rightarrow> Inl GateInvalidModel)"

definition validate_wake :: "gate_env \<Rightarrow> payload \<Rightarrow> gate_error + world_object \<times> wake" where
  "validate_wake env p = result_bind (validate_payload env p) (\<lambda>ob. case wo_body ob of
     Wake w \<Rightarrow> Inr (ob, w) | _ \<Rightarrow> Inl GateInvalidModel)"

text \<open>A tombstone has no status; an empty one counts as active.\<close>

definition active_status :: "payload \<Rightarrow> bool" where
  "active_status p = (case p of PayloadObject ob \<Rightarrow> wo_status ob = [] \<or> wo_status ob = ''active'' | _ \<Rightarrow> True)"

definition listed ::
    "'h world_store \<Rightarrow> object_type \<Rightarrow> string \<Rightarrow> gate_error + payload list" where
  "listed st t subject = (case list_payloads st (Some t) (Some subject) None None of
     Inl e \<Rightarrow> Inl (GateStore e) | Inr ps \<Rightarrow> Inr ps)"

definition policy_order :: "world_object \<times> budget_policy \<Rightarrow> instant \<times> string \<times> int" where
  "policy_order x = (utc_instant (wo_recorded_at (fst x)), wo_object_id (fst x), wo_revision (fst x))"

definition policies :: "gate_env \<Rightarrow> string \<Rightarrow> 'h world_store \<Rightarrow> gate_error + (world_object \<times> budget_policy) list" where
  "policies env subject st = result_bind (listed st OT_BUDGET_POLICY subject) (\<lambda>ps.
     result_bind (result_map (validate_policy env) (filter active_status ps)) (\<lambda>xs.
     Inr (sort_key policy_order (filter (\<lambda>x. bgp_scope (snd x) = BS_BACKGROUND_DAY) xs))))"

definition py_str :: "gate_env \<Rightarrow> pyval \<Rightarrow> string" where
  "py_str env v = (case v of PStr s \<Rightarrow> s | _ \<Rightarrow> ge_str env v)"

definition utc_text :: "string \<Rightarrow> string" where
  "utc_text s = concat (map (\<lambda>c. if c = CHR ''Z'' then ''+00:00'' else [c]) s)"

definition parse_time :: "gate_env \<Rightarrow> pyval \<Rightarrow> string \<Rightarrow> gate_error + instant option" where
  "parse_time env v field = (if v = PNone then Inr None
     else case ge_fromiso env (utc_text (py_str env v)) of
       None \<Rightarrow> Inl (GateValue field)
     | Some d \<Rightarrow> (case as_utc d field of Inl e \<Rightarrow> Inl (GateBadTime e) | Inr t \<Rightarrow> Inr (Some t)))"

definition time_or ::
    "gate_error + instant option \<Rightarrow> gate_error + instant \<Rightarrow> gate_error + instant" where
  "time_or r other = result_bind r (\<lambda>v. case v of None \<Rightarrow> other | Some t \<Rightarrow> Inr t)"

definition recorded_instant :: "world_object \<Rightarrow> string \<Rightarrow> gate_error + instant" where
  "recorded_instant ob field = (case as_utc (wo_recorded_at ob) field of
     Inl e \<Rightarrow> Inl (GateBadTime e) | Inr t \<Rightarrow> Inr t)"

definition autonomous_wake :: "wake \<Rightarrow> bool" where
  "autonomous_wake w \<longleftrightarrow> wak_wake_source w \<notin> {WS_SAFETY, WS_USER_INTERACTION}"

definition positive_int :: "pyval \<Rightarrow> int option" where
  "positive_int v = (case as_int v of Some n \<Rightarrow> if 0 < n then Some n else None | None \<Rightarrow> None)"

definition exact_usage :: "metering_record \<Rightarrow> bool" where
  "exact_usage r \<longleftrightarrow> mr_usage_complete r \<and> mr_total_tokens r \<noteq> None"

section \<open>Usage\<close>

text \<open>When a queued wake was last attempted; the first value that counts as true is taken.\<close>

definition incomplete_at :: "gate_env \<Rightarrow> world_object \<Rightarrow> gate_error + instant" where
  "incomplete_at env ob =
     (let md = wo_metadata ob;
          newest = dict_get md ''runtime_incomplete_at'';
          first = dict_get md ''runtime_first_started_at'';
          recorded = recorded_instant ob ''runtime_incomplete_at''
      in if py_truth newest then time_or (parse_time env newest ''runtime_incomplete_at'') recorded
         else if py_truth first then time_or (parse_time env first ''runtime_incomplete_at'') recorded
         else recorded)"

definition queued_incomplete :: "world_object \<Rightarrow> wake \<Rightarrow> bool" where
  "queued_incomplete ob w \<longleftrightarrow> wak_wake_state w = WK_QUEUED
     \<and> py_truth (dict_get (wo_metadata ob) ''runtime_incomplete'')"

text \<open>
  What one wake uses of the window: wakes, model calls, and whether its tokens are known.
  \<open>records\<close> are the calls of this wake in the window.
\<close>

definition wake_usage ::
    "gate_env \<Rightarrow> instant \<Rightarrow> instant \<Rightarrow> metering_record list \<Rightarrow> world_object \<times> wake
      \<Rightarrow> gate_error + int \<times> int \<times> bool" where
  "wake_usage env start stop records x =
     (let ob = fst x; w = snd x; md = wo_metadata ob; calls = int (length records);
          in_span = (\<lambda>t. start \<le> t \<and> t < stop)
      in if queued_incomplete ob w then
           result_bind (incomplete_at env ob) (\<lambda>t.
             if \<not> in_span t then Inr (0, 0, True)
             else let rounds = (if records = []
                        then (case positive_int (dict_get md ''runtime_incomplete_model_rounds'') of
                                None \<Rightarrow> 0 | Some n \<Rightarrow> n)
                        else calls)
                  in Inr (if 0 < rounds then 1 else 0, rounds, records \<noteq> [] \<and> list_all exact_usage records))
         else if wak_wake_state w = WK_RUNNING then
           result_bind (time_or (parse_time env (dict_get md ''started_at'') ''started_at'')
               (recorded_instant ob ''recorded_at'')) (\<lambda>t.
             if \<not> in_span t then Inr (0, 0, True)
             else Inr (1, case positive_int (dict_get md ''budget_reserved_model_calls'') of
                 Some n \<Rightarrow> n | None \<Rightarrow> max 1 calls, False))
         else if wak_wake_state w \<noteq> WK_COMPLETED then Inr (0, 0, True)
         else
           result_bind (time_or (parse_time env (dict_get md ''completed_at'') ''completed_at'')
               (time_or (parse_time env (dict_get md ''started_at'') ''started_at'')
                  (recorded_instant ob ''recorded_at''))) (\<lambda>t.
             if \<not> in_span t then Inr (0, 0, True)
             else case positive_int (dict_get md ''model_rounds'') of
               None \<Rightarrow> Inr (0, 0, True)
             | Some rounds \<Rightarrow> Inr (if records \<noteq> [] then (1, calls, True) else (1, rounds, False))))"

definition payload_usage ::
    "gate_env \<Rightarrow> instant \<Rightarrow> instant \<Rightarrow> metering_record list \<Rightarrow> string \<Rightarrow> payload \<Rightarrow> gate_error + int \<times> int \<times> bool" where
  "payload_usage env start stop records exclude_wake_id p =
     result_bind (validate_wake env p) (\<lambda>x.
       if wo_object_id (fst x) = exclude_wake_id \<or> \<not> autonomous_wake (snd x) then Inr (0, 0, True)
       else wake_usage env start stop
         (filter (\<lambda>r. mr_wake_id r = Some (wo_object_id (fst x))) records) x)"

record budget_usage =
  bu_wakes :: int
  bu_model_calls :: int
  bu_tokens :: int
  bu_token_usage_available :: bool

definition calls_in_window ::
    "string \<Rightarrow> instant \<Rightarrow> instant \<Rightarrow> string option \<Rightarrow> runtime_db \<Rightarrow> gate_error + metering_record list" where
  "calls_in_window subject start stop wake_id rt =
     (case list_model_calls subject (Some (utc_datetime start)) (Some (utc_datetime stop))
             [EcBackground, EcPeriodicReview] wake_id rt of
        Inl e \<Rightarrow> Inl (GateMeter e) | Inr rs \<Rightarrow> Inr rs)"

definition tokens_of :: "metering_record list \<Rightarrow> int" where
  "tokens_of rs = sum_list (map (\<lambda>r. case mr_total_tokens r of None \<Rightarrow> 0 | Some n \<Rightarrow> n) (filter exact_usage rs))"

definition budget_usage_of ::
    "gate_env \<Rightarrow> string \<Rightarrow> 'h world_store \<Rightarrow> runtime_db \<Rightarrow> instant \<Rightarrow> instant \<Rightarrow> string \<Rightarrow> gate_error + budget_usage" where
  "budget_usage_of env subject st rt start stop exclude_wake_id =
     result_bind (calls_in_window subject start stop None rt) (\<lambda>all_records.
     let records = filter (\<lambda>r. mr_wake_id r \<noteq> Some exclude_wake_id) all_records in
     result_bind (listed st OT_WAKE subject) (\<lambda>ps.
     result_bind (result_map (payload_usage env start stop records exclude_wake_id) ps) (\<lambda>us.
     Inr \<lparr>bu_wakes = sum_list (map fst us), bu_model_calls = sum_list (map (\<lambda>u. fst (snd u)) us),
       bu_tokens = tokens_of records,
       bu_token_usage_available = (list_all exact_usage records \<and> list_all (\<lambda>u. snd (snd u)) us)\<rparr>)))"

text \<open>What an interrupted wake that is queued again has used itself.\<close>

definition resumed_usage ::
    "gate_env \<Rightarrow> string \<Rightarrow> runtime_db \<Rightarrow> instant \<Rightarrow> instant \<Rightarrow> world_object \<times> wake \<Rightarrow> gate_error + budget_usage" where
  "resumed_usage env subject rt start stop x =
     (let none = \<lparr>bu_wakes = 0, bu_model_calls = 0, bu_tokens = 0, bu_token_usage_available = True\<rparr> in
      if \<not> queued_incomplete (fst x) (snd x) then Inr none
      else result_bind (incomplete_at env (fst x)) (\<lambda>t.
        if \<not> (start \<le> t \<and> t < stop) then Inr none
        else result_bind (calls_in_window subject start stop (Some (wo_object_id (fst x))) rt) (\<lambda>rs.
          let rounds = (case as_int (dict_get (wo_metadata (fst x)) ''runtime_incomplete_model_rounds'') of
                None \<Rightarrow> 0 | Some n \<Rightarrow> max 0 n);
              calls = (if rs = [] then rounds else int (length rs))
          in Inr \<lparr>bu_wakes = (if 0 < calls then 1 else 0), bu_model_calls = calls, bu_tokens = tokens_of rs,
               bu_token_usage_available = (rs \<noteq> [] \<and> list_all exact_usage rs)\<rparr>)))"

definition add_usage :: "budget_usage \<Rightarrow> budget_usage \<Rightarrow> budget_usage" where
  "add_usage a b = \<lparr>bu_wakes = bu_wakes a + bu_wakes b, bu_model_calls = bu_model_calls a + bu_model_calls b,
     bu_tokens = bu_tokens a + bu_tokens b,
     bu_token_usage_available = (bu_token_usage_available a \<and> bu_token_usage_available b)\<rparr>"

section \<open>The decision\<close>

record budget_decision =
  bd_applies :: bool
  bd_available :: bool
  bd_world_revision :: int
  bd_window_start :: "instant option"
  bd_window_end :: "instant option"
  bd_policy_refs :: "object_ref list"
  bd_used_wakes :: int
  bd_used_model_calls :: int
  bd_used_tokens :: int
  bd_token_usage_available :: bool
  bd_max_wakes :: "int option"
  bd_max_model_calls :: "int option"
  bd_model_round_limit :: "int option"
  bd_reserved_model_calls :: int
  bd_reasons :: "string list"
  bd_on_exceed :: "budget_on_exceed list"

definition hard_deny :: "budget_decision \<Rightarrow> bool" where
  "hard_deny d \<longleftrightarrow> \<not> bd_available d \<and> BX_HARD_DENY \<in> set (bd_on_exceed d)"

definition requires_reservation :: "budget_decision \<Rightarrow> bool" where
  "requires_reservation d \<longleftrightarrow> bd_applies d \<and> bd_available d \<and> bd_policy_refs d \<noteq> []"

definition reservation_metadata :: "gate_env \<Rightarrow> budget_decision \<Rightarrow> pydict" where
  "reservation_metadata env d = (case (bd_window_start d, bd_window_end d) of
     (Some start, Some stop) \<Rightarrow> if \<not> requires_reservation d then [] else
       [(''budget_policy_refs'', PList (map (\<lambda>r. durable_value (PRef r)) (bd_policy_refs d))),
        (''budget_reserved_model_calls'', PInt (bd_reserved_model_calls d)),
        (''budget_reserved_wakes'', PInt 1), (''budget_scope'', PStr ''background_day''),
        (''budget_window_end'', PStr (ge_isoformat env stop)),
        (''budget_window_start'', PStr (ge_isoformat env start))]
   | _ \<Rightarrow> [])"

definition base_decision :: "int \<Rightarrow> budget_decision" where
  "base_decision world_revision = \<lparr>bd_applies = False, bd_available = True, bd_world_revision = world_revision,
     bd_window_start = None, bd_window_end = None, bd_policy_refs = [], bd_used_wakes = 0,
     bd_used_model_calls = 0, bd_used_tokens = 0, bd_token_usage_available = False, bd_max_wakes = None,
     bd_max_model_calls = None, bd_model_round_limit = None, bd_reserved_model_calls = 0, bd_reasons = [],
     bd_on_exceed = []\<rparr>"

definition min_cap :: "(budget_policy \<Rightarrow> int option) \<Rightarrow> budget_policy list \<Rightarrow> int option" where
  "min_cap cap ps = (let caps = List.map_filter cap ps in if caps = [] then None else Some (Min (set caps)))"

text \<open>\<open>tuple(dict.fromkeys(\<dots>))\<close>: without repetitions, in the order of the first ones.\<close>

definition in_first_order :: "'a list \<Rightarrow> 'a list" where
  "in_first_order xs = rev (remdups (rev xs))"

definition count_text :: "int \<Rightarrow> int \<Rightarrow> string" where
  "count_text a b = int_decimal a @ ''/'' @ int_decimal b"

text \<open>The refusals in the order the code appends them, each with the modes of its policies.\<close>

definition token_refusals :: "budget_policy list \<Rightarrow> budget_usage \<Rightarrow> (string \<times> budget_on_exceed list) list" where
  "token_refusals ps u = (let capped = filter (\<lambda>p. bgp_max_tokens p \<noteq> None) ps in
     if capped = [] then [] else
       [(if bu_token_usage_available u then ''background_token_budget_requires_preflight_token_bound''
         else ''background_token_budget_usage_incomplete'', map bgp_on_exceed capped)])"

definition wake_refusals :: "budget_policy list \<Rightarrow> budget_usage \<Rightarrow> (string \<times> budget_on_exceed list) list" where
  "wake_refusals ps u = (case min_cap bgp_max_wakes ps of
     None \<Rightarrow> []
   | Some m \<Rightarrow> if bu_wakes u < m then [] else
       [(''background_wake_budget_exhausted:'' @ count_text (bu_wakes u) m,
         map bgp_on_exceed (filter (\<lambda>p. case bgp_max_wakes p of None \<Rightarrow> False | Some c \<Rightarrow> c \<le> bu_wakes u) ps))])"

definition call_refusals ::
    "budget_policy list \<Rightarrow> budget_usage \<Rightarrow> int \<Rightarrow> bool \<Rightarrow> (string \<times> budget_on_exceed list) list" where
  "call_refusals ps u rounds full = (case min_cap bgp_max_model_calls ps of
     None \<Rightarrow> []
   | Some m \<Rightarrow>
       let remaining = m - bu_model_calls u in
       if remaining \<le> 0 then
         [(''background_model_call_budget_exhausted:'' @ count_text (bu_model_calls u) m,
           map bgp_on_exceed (filter (\<lambda>p. case bgp_max_model_calls p of None \<Rightarrow> False
             | Some c \<Rightarrow> c \<le> bu_model_calls u) ps))]
       else if full \<and> remaining < rounds then
         [(''background_model_call_budget_insufficient_for_full_run:'' @ count_text remaining rounds,
           map bgp_on_exceed (filter (\<lambda>p. bgp_max_model_calls p \<noteq> None) ps))]
       else [])"

definition budget_refusals ::
    "budget_policy list \<Rightarrow> budget_usage \<Rightarrow> int \<Rightarrow> bool \<Rightarrow> (string \<times> budget_on_exceed list) list" where
  "budget_refusals ps u rounds full = token_refusals ps u @ wake_refusals ps u @ call_refusals ps u rounds full"

definition object_refs_of :: "(world_object \<times> 'b) list \<Rightarrow> object_ref list" where
  "object_refs_of xs = map (\<lambda>x. oref (wo_object_id (fst x)) (Some (wo_revision (fst x)))) xs"

text \<open>The decision from the policies and the usage.\<close>

definition decide ::
    "int \<Rightarrow> instant \<Rightarrow> instant \<Rightarrow> (world_object \<times> budget_policy) list \<Rightarrow> budget_usage \<Rightarrow> int \<Rightarrow> bool
      \<Rightarrow> budget_decision" where
  "decide world_revision start stop xs u rounds full =
     (let ps = map snd xs;
          refusals = budget_refusals ps u rounds full;
          calls = min_cap bgp_max_model_calls ps;
          limit = map_option (\<lambda>m. if full then rounds else min rounds (m - bu_model_calls u)) calls;
          d = (base_decision world_revision)\<lparr>bd_applies := True, bd_window_start := Some start,
            bd_window_end := Some stop, bd_policy_refs := object_refs_of xs, bd_used_wakes := bu_wakes u,
            bd_used_model_calls := bu_model_calls u, bd_used_tokens := bu_tokens u,
            bd_token_usage_available := bu_token_usage_available u,
            bd_max_wakes := min_cap bgp_max_wakes ps, bd_max_model_calls := calls\<rparr>
      in if refusals \<noteq> []
         then d\<lparr>bd_available := False, bd_reasons := in_first_order (map fst refusals),
                bd_on_exceed := in_first_order (concat (map snd refusals))\<rparr>
         else d\<lparr>bd_model_round_limit := limit,
                bd_reserved_model_calls := (case limit of None \<Rightarrow> 0 | Some n \<Rightarrow> n),
                bd_on_exceed := in_first_order (map bgp_on_exceed ps)\<rparr>)"

text \<open>A running wake that holds a reservation of the current window is never a free retry.\<close>

definition reservation_running ::
    "gate_env \<Rightarrow> world_object \<times> wake \<Rightarrow> instant \<Rightarrow> gate_error + bool" where
  "reservation_running env x t =
     (let md = wo_metadata (fst x); scope = dict_get md ''budget_scope'' in
      if wak_wake_state (snd x) \<noteq> WK_RUNNING \<or> \<not> py_truth scope \<or> py_str env scope \<noteq> ''background_day''
      then Inr False
      else result_bind (parse_time env (dict_get md ''budget_window_start'') ''budget_window_start'') (\<lambda>s.
           result_bind (parse_time env (dict_get md ''budget_window_end'') ''budget_window_end'') (\<lambda>e.
           Inr (case (s, e) of (Some a, Some b) \<Rightarrow> a \<le> t \<and> t < b | _ \<Rightarrow> False))))"

definition evaluate_budget ::
    "gate_env \<Rightarrow> string \<Rightarrow> 'h world_store \<Rightarrow> runtime_db \<Rightarrow> world_object \<times> wake \<Rightarrow> datetime \<Rightarrow> int \<Rightarrow> bool
      \<Rightarrow> gate_error + budget_decision" where
  "evaluate_budget env subject st rt x now rounds full =
     (if rounds < 1 then Inl (GateValue ''max_model_rounds must be >= 1'')
      else case current_world_revision st of
        Inl e \<Rightarrow> Inl (GateStore e)
      | Inr world_revision \<Rightarrow>
         if \<not> autonomous_wake (snd x) then Inr (base_decision world_revision)
         else result_bind (policies env subject st) (\<lambda>xs.
           if xs = [] then Inr (base_decision world_revision)
           else result_bind (gate_window now) (\<lambda>(start, stop).
             result_bind (reservation_running env x (utc_instant now)) (\<lambda>running.
               if running then Inr ((base_decision world_revision)\<lparr>bd_applies := True, bd_available := False,
                 bd_window_start := Some start, bd_window_end := Some stop, bd_policy_refs := object_refs_of xs,
                 bd_reasons := [''background_budget_reservation_already_running'']\<rparr>)
               else result_bind (budget_usage_of env subject st rt start stop (wo_object_id (fst x))) (\<lambda>u.
                 result_bind (resumed_usage env subject rt start stop x) (\<lambda>v.
                   Inr (decide world_revision start stop xs (add_usage u v) rounds full)))))))"

section \<open>The status for inspection\<close>

record budget_status =
  bs_applies :: bool
  bs_world_revision :: int
  bs_window :: "(instant \<times> instant) option"
  bs_policy_refs :: "object_ref list"
  bs_usage :: budget_usage
  bs_max_wakes :: "int option"
  bs_max_model_calls :: "int option"
  bs_max_tokens :: "int option"
  bs_remaining_wakes :: "int option"
  bs_remaining_model_calls :: "int option"
  bs_remaining_tokens :: "int option"
  bs_on_exceed :: "budget_on_exceed list"

definition remaining :: "int option \<Rightarrow> int \<Rightarrow> int option" where
  "remaining cap used = map_option (\<lambda>m. max 0 (m - used)) cap"

definition budget_status_of ::
    "gate_env \<Rightarrow> string \<Rightarrow> 'h world_store \<Rightarrow> runtime_db \<Rightarrow> datetime \<Rightarrow> gate_error + budget_status" where
  "budget_status_of env subject st rt now =
     (case current_world_revision st of
        Inl e \<Rightarrow> Inl (GateStore e)
      | Inr world_revision \<Rightarrow> result_bind (policies env subject st) (\<lambda>xs.
          let ps = map snd xs;
              none = \<lparr>bu_wakes = 0, bu_model_calls = 0, bu_tokens = 0, bu_token_usage_available = False\<rparr>
          in if xs = [] then Inr \<lparr>bs_applies = False, bs_world_revision = world_revision, bs_window = None,
                 bs_policy_refs = [], bs_usage = none, bs_max_wakes = None, bs_max_model_calls = None,
                 bs_max_tokens = None, bs_remaining_wakes = None, bs_remaining_model_calls = None,
                 bs_remaining_tokens = None, bs_on_exceed = []\<rparr>
             else result_bind (gate_window now) (\<lambda>(start, stop).
               result_bind (budget_usage_of env subject st rt start stop []) (\<lambda>u.
               Inr \<lparr>bs_applies = True, bs_world_revision = world_revision, bs_window = Some (start, stop),
                 bs_policy_refs = object_refs_of xs, bs_usage = u,
                 bs_max_wakes = min_cap bgp_max_wakes ps, bs_max_model_calls = min_cap bgp_max_model_calls ps,
                 bs_max_tokens = min_cap bgp_max_tokens ps,
                 bs_remaining_wakes = remaining (min_cap bgp_max_wakes ps) (bu_wakes u),
                 bs_remaining_model_calls = remaining (min_cap bgp_max_model_calls ps) (bu_model_calls u),
                 bs_remaining_tokens = (if bu_token_usage_available u
                   then remaining (min_cap bgp_max_tokens ps) (bu_tokens u) else None),
                 bs_on_exceed = in_first_order (map bgp_on_exceed ps)\<rparr>))))"

end
