(* ===== verification/BudgetFacts.thy ===== *)
theory BudgetFacts
  imports BudgetGate WorldService
begin

text \<open>
  What the budget gate guarantees: a grant stays within every cap together with the
  reservations of the wakes that are running, and what a pruned wake does to the gate.
\<close>

section \<open>Caps and refusals\<close>

lemma min_cap_None: "min_cap cap ps = None \<longleftrightarrow> (\<forall>p \<in> set ps. cap p = None)"
  by (auto simp: min_cap_def map_filter_def filter_empty_conv Let_def)

lemma min_cap_le:
  assumes "p \<in> set ps" and "cap p = Some c"
  obtains m where "min_cap cap ps = Some m" "m \<le> c"
proof -
  have c: "c \<in> set (List.map_filter cap ps)" using assms by (force simp: map_filter_def)
  then have "min_cap cap ps = Some (Min (set (List.map_filter cap ps)))" by (auto simp: min_cap_def Let_def)
  moreover have "Min (set (List.map_filter cap ps)) \<le> c" using c by simp
  ultimately show ?thesis by (rule that)
qed

lemma no_refusals:
  assumes "budget_refusals ps u rounds full = []" and "p \<in> set ps"
  shows "bgp_max_tokens p = None"
    and "bgp_max_wakes p = Some m \<Longrightarrow> bu_wakes u + 1 \<le> m"
    and "bgp_max_model_calls p = Some c \<Longrightarrow>
      \<exists>m. min_cap bgp_max_model_calls ps = Some m \<and> m \<le> c \<and> bu_model_calls u < m
        \<and> (full \<longrightarrow> rounds \<le> m - bu_model_calls u)"
proof -
  have none: "token_refusals ps u = []" "wake_refusals ps u = []" "call_refusals ps u rounds full = []"
    using assms(1) by (simp_all add: budget_refusals_def)
  show "bgp_max_tokens p = None"
    using none(1) assms(2) by (auto simp: token_refusals_def Let_def filter_empty_conv split: if_splits)
  show "bu_wakes u + 1 \<le> m" if cap: "bgp_max_wakes p = Some m"
  proof -
    obtain m' where "min_cap bgp_max_wakes ps = Some m'" "m' \<le> m" by (rule min_cap_le [where cap = bgp_max_wakes, OF assms(2)]) (rule cap)
    with none(2) show ?thesis by (simp add: wake_refusals_def split: if_split_asm)
  qed
  show "\<exists>m. min_cap bgp_max_model_calls ps = Some m \<and> m \<le> c \<and> bu_model_calls u < m
        \<and> (full \<longrightarrow> rounds \<le> m - bu_model_calls u)" if cap: "bgp_max_model_calls p = Some c"
  proof -
    obtain m' where "min_cap bgp_max_model_calls ps = Some m'" "m' \<le> c" by (rule min_cap_le [where cap = bgp_max_model_calls, OF assms(2)]) (rule cap)
    with none(3) show ?thesis by (auto simp: call_refusals_def Let_def split: if_split_asm)
  qed
qed

lemma decide_granted:
  assumes "d = decide w start stop xs u rounds full" and "bd_available d" and "p \<in> snd ` set xs" and "1 \<le> rounds"
  shows "bgp_max_tokens p = None"
    and "bgp_max_wakes p = Some m \<Longrightarrow> bu_wakes u + 1 \<le> m"
    and "bgp_max_model_calls p = Some c \<Longrightarrow>
      1 \<le> bd_reserved_model_calls d \<and> bu_model_calls u + bd_reserved_model_calls d \<le> c"
    and "bd_reserved_model_calls d \<le> rounds" and "bd_used_wakes d = bu_wakes u"
    and "bd_used_model_calls d = bu_model_calls u"
proof -
  have none: "budget_refusals (map snd xs) u rounds full = []"
    using assms(1,2) by (auto simp: decide_def Let_def split: if_splits)
  have p: "p \<in> set (map snd xs)" using assms(3) by simp
  note free = no_refusals [OF none p]
  show "bgp_max_tokens p = None" by (rule free(1))
  show "bu_wakes u + 1 \<le> m" if "bgp_max_wakes p = Some m" using free(2) [OF that] .
  show "1 \<le> bd_reserved_model_calls d \<and> bu_model_calls u + bd_reserved_model_calls d \<le> c"
    if "bgp_max_model_calls p = Some c"
    using free(3) [OF that] none assms(1,4) by (auto simp: decide_def Let_def)
  show "bd_reserved_model_calls d \<le> rounds"
    using none assms(1,4) by (auto simp: decide_def base_decision_def Let_def split: option.splits)
  show "bd_used_wakes d = bu_wakes u" "bd_used_model_calls d = bu_model_calls u"
    using none assms(1) by (simp_all add: decide_def Let_def)
qed

section \<open>Reservations are counted\<close>

text \<open>The calls a running wake in the window has reserved.\<close>

definition reserved_calls :: "gate_env \<Rightarrow> instant \<Rightarrow> instant \<Rightarrow> string \<Rightarrow> payload \<Rightarrow> int" where
  "reserved_calls env start stop exclude_wake_id p =
     (case validate_wake env p of
        Inl _ \<Rightarrow> 0
      | Inr (ob, w) \<Rightarrow>
         if wo_object_id ob = exclude_wake_id \<or> \<not> autonomous_wake w \<or> wak_wake_state w \<noteq> WK_RUNNING then 0
         else case time_or (parse_time env (dict_get (wo_metadata ob) ''started_at'') ''started_at'')
               (recorded_instant ob ''recorded_at'') of
             Inl _ \<Rightarrow> 0
           | Inr t \<Rightarrow> if start \<le> t \<and> t < stop
               then (case positive_int (dict_get (wo_metadata ob) ''budget_reserved_model_calls'') of
                  None \<Rightarrow> 0 | Some n \<Rightarrow> n) else 0)"

lemma positive_int_pos: "positive_int v = Some n \<Longrightarrow> 0 < n"
  by (auto simp: positive_int_def split: option.splits if_splits)

lemma wake_usage_Inr:
  assumes "wake_usage env start stop rs x = Inr (a, b, c)"
  shows "0 \<le> a" "0 \<le> b"
  using assms
  by (auto simp: wake_usage_def Let_def split: if_splits option.splits dest!: positive_int_pos)

lemma payload_usage_Inr:
  assumes "payload_usage env start stop rs k p = Inr (a, b, c)"
  shows "0 \<le> a" "0 \<le> b" "reserved_calls env start stop k p \<le> b"
proof -
  obtain ob w where w: "validate_wake env p = Inr (ob, w)"
    using assms by (auto simp: payload_usage_def)
  note run = assms [unfolded payload_usage_def w result_bind_simps]
  show "0 \<le> a" "0 \<le> b" using run wake_usage_Inr by (auto split: if_splits)
  show "reserved_calls env start stop k p \<le> b"
  proof (cases "wo_object_id ob = k \<or> \<not> autonomous_wake w \<or> wak_wake_state w \<noteq> WK_RUNNING")
    case True
    then have "reserved_calls env start stop k p = 0" by (auto simp: reserved_calls_def w)
    with \<open>0 \<le> b\<close> show ?thesis by simp
  next
    case False
    with run show ?thesis
      by (auto simp: reserved_calls_def w wake_usage_def queued_incomplete_def Let_def
          split: if_splits option.splits dest: positive_int_pos)
  qed
qed

lemma usage_counts_reservations:
  assumes "budget_usage_of env subject st rt start stop k = Inr u" and "listed st OT_WAKE subject = Inr ps"
  shows "sum_list (map (reserved_calls env start stop k) ps) \<le> bu_model_calls u" and "0 \<le> bu_wakes u"
proof -
  obtain rs us where us: "result_map (payload_usage env start stop rs k) ps = Inr us"
    and u: "bu_model_calls u = sum_list (map (\<lambda>u. fst (snd u)) us)" "bu_wakes u = sum_list (map fst us)"
    using assms by (auto simp: budget_usage_of_def Let_def)
  have "list_all2 (\<lambda>p v. payload_usage env start stop rs k p = Inr v) ps us"
    using us by (simp add: result_map_Inr_iff)
  then have "sum_list (map (reserved_calls env start stop k) ps) \<le> sum_list (map (\<lambda>u. fst (snd u)) us)
      \<and> 0 \<le> sum_list (map fst us)"
  proof (induction rule: list_all2_induct)
    case (Cons p ps v us)
    obtain a b c where v: "v = (a, b, c)" by (cases v)
    from Cons payload_usage_Inr [of env start stop rs k p a b c] show ?case by (simp add: v)
  qed simp
  then show "sum_list (map (reserved_calls env start stop k) ps) \<le> bu_model_calls u" "0 \<le> bu_wakes u"
    by (simp_all add: u)
qed

lemma resumed_usage_nonneg:
  assumes "resumed_usage env subject rt start stop x = Inr u"
  shows "0 \<le> bu_model_calls u"
proof (cases "queued_incomplete (fst x) (snd x)")
  case False
  with assms show ?thesis by (auto simp: resumed_usage_def)
next
  case True
  note run = assms [unfolded resumed_usage_def Let_def]
  from True run obtain t where t: "incomplete_at env (fst x) = Inr t" by auto
  show ?thesis
  proof (cases "start \<le> t \<and> t < stop")
    case False
    with True run t show ?thesis by auto
  next
    case span: True
    with True run t obtain rs where "calls_in_window subject start stop (Some (wo_object_id (fst x))) rt = Inr rs"
      by auto
    with True run t span show ?thesis
      by (cases "as_int (dict_get (wo_metadata (fst x)) ''runtime_incomplete_model_rounds'')"; cases rs) auto
  qed
qed

lemma evaluate_cases:
  assumes "evaluate_budget env subject st rt x now rounds full = Inr d"
  obtains (Free) w where "d = base_decision w"
      "\<not> autonomous_wake (snd x) \<or> policies env subject st = Inr []"
  | (Running) "\<not> bd_available d" "reservation_running env x (utc_instant now) = Inr True"
  | (Decided) w xs start stop u v where "1 \<le> rounds" "policies env subject st = Inr xs"
      "gate_window now = Inr (start, stop)"
      "budget_usage_of env subject st rt start stop (wo_object_id (fst x)) = Inr u"
      "resumed_usage env subject rt start stop x = Inr v"
      "d = decide w start stop xs (add_usage u v) rounds full"
proof -
  note run = assms [unfolded evaluate_budget_def]
  have rounds: "1 \<le> rounds" using run by (simp split: if_split_asm)
  then obtain w where w: "current_world_revision st = Inr w" using run by (simp split: sum.split_asm)
  show ?thesis
  proof (cases "autonomous_wake (snd x)")
    case False
    then show ?thesis using run rounds w by (intro Free [of w]) simp_all
  next
    case True
    then obtain xs where xs: "policies env subject st = Inr xs" using run rounds w by auto
    show ?thesis
    proof (cases "xs = []")
      case True
      then show ?thesis using run rounds w xs \<open>autonomous_wake (snd x)\<close> by (intro Free [of w]) simp_all
    next
      case False
      have rest: "result_bind (gate_window now) (\<lambda>(start, stop).
             result_bind (reservation_running env x (utc_instant now)) (\<lambda>running.
               if running then Inr ((base_decision w)\<lparr>bd_applies := True, bd_available := False,
                 bd_window_start := Some start, bd_window_end := Some stop, bd_policy_refs := object_refs_of xs,
                 bd_reasons := [''background_budget_reservation_already_running'']\<rparr>)
               else result_bind (budget_usage_of env subject st rt start stop (wo_object_id (fst x))) (\<lambda>u.
                 result_bind (resumed_usage env subject rt start stop x) (\<lambda>v.
                   Inr (decide w start stop xs (add_usage u v) rounds full))))) = Inr d"
        using run rounds w xs \<open>autonomous_wake (snd x)\<close> False by (simp del: result_bind_Inr_iff)
      then obtain start stop where win: "gate_window now = Inr (start, stop)"
        by (cases "gate_window now") auto
      from rest obtain running where running: "reservation_running env x (utc_instant now) = Inr running"
        by (cases "reservation_running env x (utc_instant now)") (simp_all add: win)
      note rest' = rest [unfolded win running result_bind_simps prod.case]
      show ?thesis
      proof (cases running)
        case True
        with rest' running show ?thesis by (intro Running) auto
      next
        case False
        with rest' obtain u v where "budget_usage_of env subject st rt start stop (wo_object_id (fst x)) = Inr u"
          "resumed_usage env subject rt start stop x = Inr v" "d = decide w start stop xs (add_usage u v) rounds full"
          by auto
        with rounds xs win show ?thesis by (rule Decided)
      qed
    qed
  qed
qed

lemma evaluate_applies:
  assumes "evaluate_budget env subject st rt x now rounds full = Inr d" and "bd_applies d" and "bd_available d"
  obtains w xs start stop u v where "policies env subject st = Inr xs" "gate_window now = Inr (start, stop)"
    "budget_usage_of env subject st rt start stop (wo_object_id (fst x)) = Inr u"
    "resumed_usage env subject rt start stop x = Inr v" "1 \<le> rounds"
    "d = decide w start stop xs (add_usage u v) rounds full"
  using assms(1)
proof (cases rule: evaluate_cases)
  case Free
  with assms(2) show ?thesis by (simp add: base_decision_def)
next
  case Running
  with assms(3) show ?thesis by simp
qed (rule that)

lemma granted_within_caps:
  assumes run: "evaluate_budget env subject st rt x now rounds full = Inr d" "bd_applies d" "bd_available d"
    and pol: "policies env subject st = Inr xs" "p \<in> snd ` set xs"
    and wakes: "listed st OT_WAKE subject = Inr ps" "gate_window now = Inr (start, stop)"
  shows "bgp_max_tokens p = None"
    and "bgp_max_wakes p = Some m \<Longrightarrow> bd_used_wakes d + 1 \<le> m"
    and "bgp_max_model_calls p = Some c \<Longrightarrow> 1 \<le> bd_reserved_model_calls d
      \<and> bd_used_model_calls d + bd_reserved_model_calls d \<le> c
      \<and> sum_list (map (reserved_calls env start stop (wo_object_id (fst x))) ps) + bd_reserved_model_calls d \<le> c"
    and "bd_reserved_model_calls d \<le> rounds"
proof -
  obtain w u v where u: "budget_usage_of env subject st rt start stop (wo_object_id (fst x)) = Inr u"
    "resumed_usage env subject rt start stop x = Inr v" "1 \<le> rounds"
    and d: "d = decide w start stop xs (add_usage u v) rounds full"
    using evaluate_applies [OF run] pol(1) wakes(2) by (metis Inr_inject prod.inject)
  note granted = decide_granted [OF d run(3) pol(2) u(3)]
  show "bgp_max_tokens p = None" "bd_reserved_model_calls d \<le> rounds" using granted(1,4) by simp_all
  show "bd_used_wakes d + 1 \<le> m" if "bgp_max_wakes p = Some m" using granted(2) [OF that] granted(5) by simp
  have "sum_list (map (reserved_calls env start stop (wo_object_id (fst x))) ps) \<le> bd_used_model_calls d"
    using usage_counts_reservations(1) [OF u(1) wakes(1)] resumed_usage_nonneg [OF u(2)] granted(6)
    by (simp add: add_usage_def)
  then show "1 \<le> bd_reserved_model_calls d \<and> bd_used_model_calls d + bd_reserved_model_calls d \<le> c
      \<and> sum_list (map (reserved_calls env start stop (wo_object_id (fst x))) ps) + bd_reserved_model_calls d \<le> c"
    if "bgp_max_model_calls p = Some c" using granted(3) [OF that] granted(6) by simp
qed

section \<open>A pruned wake\<close>

lemma list_all2_member:
  assumes "x \<in> set xs" and "list_all2 R xs ys"
  obtains y where "y \<in> set ys" "R x y"
proof -
  obtain i where "i < length xs" "x = xs ! i" using assms(1) by (auto simp: in_set_conv_nth)
  with assms(2) that [of "ys ! i"] show ?thesis by (simp add: list_all2_conv_all_nth)
qed

lemma prune_lists_tombstone:
  assumes "prune now oid a reason st = (Inr u, st')" and "latest_row st oid = Some r"
    and "listed st' (rr_object_type r) (rr_subject_id r) = Inr ps"
  shows "\<exists>t. PayloadTombstone t \<in> set ps"
proof -
  obtain w where latest: "tombstone_row now (w + 1) a reason r \<in> set (latest_rows st')"
    by (rule pruned_latest [OF assms(1,2)])
  let ?t = "tombstone_row now (w + 1) a reason r"
  have "?t \<in> set (filter (selects (Some (rr_object_type r)) (Some (rr_subject_id r))) (latest_rows st'))"
    using latest by (simp add: selects_def)
  then have "?t \<in> set (sort_key rr_recorded_at
      (filter (selects (Some (rr_object_type r)) (Some (rr_subject_id r))) (latest_rows st')))" by simp
  moreover have "list_all2 (\<lambda>q p. decode_payload ''corrupt_object_payload'' (rr_payload q) = Inr p)
      (sort_key rr_recorded_at (filter (selects (Some (rr_object_type r)) (Some (rr_subject_id r))) (latest_rows st'))) ps"
    using assms(3) by (simp add: listed_def list_payloads_def normalize_opt_def result_map_Inr_iff split: sum.splits)
  ultimately obtain p where p: "p \<in> set ps" "decode_payload ''corrupt_object_payload'' (rr_payload ?t) = Inr p"
    by (rule list_all2_member)
  have "\<exists>t. rr_payload ?t = PayloadTombstone t" by (simp add: tombstone_row_def)
  with p show ?thesis by (auto simp: decode_payload_def)
qed

lemma tombstone_not_wake: "payload_usage env start stop rs k (PayloadTombstone t) = Inl GateInvalidModel"
  by (simp add: payload_usage_def validate_wake_def validate_payload_def)

lemma result_map_fails: "x \<in> set xs \<Longrightarrow> f x = Inl e \<Longrightarrow> \<exists>e. result_map f xs = Inl e"
proof (induction xs)
  case (Cons y ys)
  show ?case
  proof (cases "f y")
    case (Inr z)
    with Cons show ?thesis by auto
  qed simp
qed simp

lemma usage_fails:
  assumes "prune now oid a reason st = (Inr u, st')" and "latest_row st oid = Some r"
    and "rr_object_type r = OT_WAKE"
  shows "budget_usage_of env (rr_subject_id r) st' rt start stop k \<noteq> Inr us"
proof
  assume "budget_usage_of env (rr_subject_id r) st' rt start stop k = Inr us"
  then obtain rs ps vs where ps: "listed st' OT_WAKE (rr_subject_id r) = Inr ps"
    and vs: "result_map (payload_usage env start stop rs k) ps = Inr vs"
    by (auto simp: budget_usage_of_def Let_def)
  then obtain t where "PayloadTombstone t \<in> set ps"
    using prune_lists_tombstone [OF assms(1,2)] assms(3) by auto
  then have "\<exists>e. result_map (payload_usage env start stop rs k) ps = Inl e"
    by (rule result_map_fails) (rule tombstone_not_wake)
  with vs show False by simp
qed

lemma pruned_wake_fails:
  assumes "prune now oid a reason st = (Inr u, st')" and "latest_row st oid = Some r"
    and "rr_object_type r = OT_WAKE" and "policies env (rr_subject_id r) st' = Inr xs" and "xs \<noteq> []"
    and "autonomous_wake (snd x)" and "wak_wake_state (snd x) \<noteq> WK_RUNNING"
  shows "evaluate_budget env (rr_subject_id r) st' rt x now' rounds full \<noteq> Inr d"
proof
  assume "evaluate_budget env (rr_subject_id r) st' rt x now' rounds full = Inr d"
  then show False
  proof (cases rule: evaluate_cases)
    case (Free w)
    with assms(4-6) show False by simp
  next
    case Running
    with assms(7) show False by (simp add: reservation_running_def Let_def)
  next
    case Decided
    with usage_fails [OF assms(1-3)] show False by blast
  qed
qed

lemma pruned_wake_status:
  assumes "prune now oid a reason st = (Inr u, st')" and "latest_row st oid = Some r"
    and "rr_object_type r = OT_WAKE" and "policies env (rr_subject_id r) st' = Inr xs" and "xs \<noteq> []"
  shows "budget_status_of env (rr_subject_id r) st' rt now' \<noteq> Inr s"
proof
  assume run: "budget_status_of env (rr_subject_id r) st' rt now' = Inr s"
  then obtain w where w: "current_world_revision st' = Inr w" by (auto simp: budget_status_of_def split: sum.splits)
  note run' = run [unfolded budget_status_of_def w sum.case assms(4) result_bind_simps Let_def]
  then obtain start stop where win: "gate_window now' = Inr (start, stop)" using assms(5) by auto
  with run' assms(5) obtain v where "budget_usage_of env (rr_subject_id r) st' rt start stop [] = Inr v" by auto
  with usage_fails [OF assms(1-3)] show False by blast
qed

end
