(* ===== verification/BudgetExamples.thy ===== *)
theory BudgetExamples
  imports BudgetFacts AttemptSafety Examples
begin

text \<open>
  A subject with one daily policy, a running wake that holds a reservation and a queued wake
  that asks for a grant; and the same store after the running wake is pruned.
\<close>

definition ex_env :: gate_env where
  "ex_env = \<lparr>ge_zones = all_zones, ge_fromiso = (\<lambda>_. None), ge_isoformat = (\<lambda>_. ''iso''), ge_str = (\<lambda>_. ''value'')\<rparr>"

definition ex_policy :: budget_policy where
  "ex_policy = \<lparr>bgp_scope = BS_BACKGROUND_DAY, bgp_max_model_calls = Some 10, bgp_max_tokens = None,
     bgp_max_wakes = Some 5, bgp_on_exceed = BX_HARD_DENY\<rparr>"

definition ex_wake :: "wake_state \<Rightarrow> wake" where
  "ex_wake s = \<lparr>wak_wake_source = WS_TASK_DUE, wak_wake_state = s, wak_rule_id = None,
     wak_first_hit_at = utc_datetime 1, wak_last_hit_at = utc_datetime 1, wak_hit_count = 1,
     wak_evidence_refs = [], wak_priority = 50, wak_dedupe_key = None\<rparr>"

definition ex_running :: world_object where
  "ex_running = (plain_object ''w1'' 1 (Wake (ex_wake WK_RUNNING)))
     \<lparr>wo_metadata := [(''budget_reserved_model_calls'', PInt 3)]\<rparr>"

definition ex_queued :: "world_object \<times> wake" where
  "ex_queued = (plain_object ''w2'' 1 (Wake (ex_wake WK_QUEUED)), ex_wake WK_QUEUED)"

definition budget_objects :: "world_object list" where
  "budget_objects = [plain_object ''bp'' 1 (BudgetPolicy ex_policy), ex_running, fst ex_queued]"

definition budget_store :: "identity_text world_store" where
  "budget_store = snd (example_commit 10 budget_objects (request ''k1'' 0) initial_store)"

definition budget_store_pruned :: "identity_text world_store" where
  "budget_store_pruned = snd (prune 20 ''w1'' ''auth'' ''cleanup'' budget_store)"

abbreviation ex_evaluate :: "identity_text world_store \<Rightarrow> gate_error + budget_decision" where
  "ex_evaluate st \<equiv> evaluate_budget ex_env ''s'' st empty_runtime ex_queued (utc_datetime 30) 4 False"

lemma ex_window: "gate_window (utc_datetime 30) = Inr (0, day_length)"
  by code_simp

lemma ex_policies:
  "policies ex_env ''s'' budget_store = Inr [(plain_object ''bp'' 1 (BudgetPolicy ex_policy), ex_policy)]"
  "policies ex_env ''s'' budget_store_pruned = Inr [(plain_object ''bp'' 1 (BudgetPolicy ex_policy), ex_policy)]"
  by code_simp+

lemma ex_wakes: "listed budget_store OT_WAKE ''s'' = Inr [PayloadObject ex_running, PayloadObject (fst ex_queued)]"
  by code_simp

lemma ex_granted:
  "case ex_evaluate budget_store of Inl _ \<Rightarrow> False
   | Inr d \<Rightarrow> bd_applies d \<and> bd_available d \<and> bd_used_model_calls d = 3 \<and> bd_reserved_model_calls d = 4"
  by code_simp

lemma ex_reserved: "reserved_calls ex_env 0 day_length ''w2'' (PayloadObject ex_running) = 3"
  by code_simp

lemma ex_prune_wake: "prune 20 ''w1'' ''auth'' ''cleanup'' budget_store = (Inr (), budget_store_pruned)"
proof -
  have "fst (prune 20 ''w1'' ''auth'' ''cleanup'' budget_store) = Inr ()"
    by code_simp
  then show ?thesis by (simp add: budget_store_pruned_def prod_eq_iff)
qed

lemma ex_wake_row:
  obtains r where "latest_row budget_store ''w1'' = Some r" "rr_object_type r = OT_WAKE" "rr_subject_id r = ''s''"
proof -
  have "case latest_row budget_store ''w1'' of None \<Rightarrow> False
      | Some r \<Rightarrow> rr_object_type r = OT_WAKE \<and> rr_subject_id r = ''s''" by code_simp
  with that show ?thesis by (auto split: option.splits)
qed

end
