(* ===== verification/Services.thy ===== *)
theory Services
  imports Directives WorldCommit
begin

text \<open>
  What the services over the world store share: the environment they run in (the time zone
  database, the digests, \<open>json.dumps\<close>, printing and parsing of dates, \<open>str\<close>, and pydantic's JSON
  form of a free-form value), hashed object
  identifiers, reading a payload as a model, and one commit of a maintenance operation. The clock of
  a commit and the generated operation id are arguments of the call.
\<close>

record 'h service_env =
  sv_zones :: "string \<Rightarrow> bool"
  sv_digest :: "identity_text \<Rightarrow> 'h"
  sv_codec :: codec
  sv_isoformat :: "instant \<Rightarrow> string"
  sv_fromiso :: "string \<Rightarrow> datetime option"
  sv_str :: "pyval \<Rightarrow> string"
  sv_json :: "pyval \<Rightarrow> pyval"

record call_context =
  ck_now :: instant
  ck_operation_id :: string

datatype service_error =
    SvStore store_error
  | SvInvalid contract_error
  | SvValue string
  | SvType string
  | SvKey string
  | SvPermission string
  | SvOverflow string
  | SvText directive_error

definition of_store :: "store_error + 'a \<Rightarrow> service_error + 'a" where
  "of_store r = (case r of Inl e \<Rightarrow> Inl (SvStore e) | Inr x \<Rightarrow> Inr x)"

definition of_contract :: "contract_error + 'a \<Rightarrow> service_error + 'a" where
  "of_contract r = (case r of Inl e \<Rightarrow> Inl (SvInvalid e) | Inr x \<Rightarrow> Inr x)"

text \<open>\<open>_stable_id(tag, *parts)\<close>.\<close>

definition stable_id :: "'h service_env \<Rightarrow> string \<Rightarrow> pyval list \<Rightarrow> service_error + string" where
  "stable_id env tag parts = (case canonical_json_dumps (sv_codec env) (PList parts) of
     Inl e \<Rightarrow> Inl (SvText e)
   | Inr t \<Rightarrow> Inr (tag @ ''_'' @ take 24 (hexdigest (sv_codec env) t)))"

definition iso :: "'h service_env \<Rightarrow> instant \<Rightarrow> pyval" where
  "iso env t = PStr (sv_isoformat env t)"

definition text_of :: "'h service_env \<Rightarrow> pyval \<Rightarrow> string" where
  "text_of env v = (case v of PStr s \<Rightarrow> s | _ \<Rightarrow> sv_str env v)"

section \<open>Dicts in key order\<close>

text \<open>A dict is kept sorted by its keys, the order in which it is printed and stored.\<close>

definition dict_put :: "string \<Rightarrow> pyval \<Rightarrow> pydict \<Rightarrow> pydict" where
  "dict_put k v d = insort_key fst (k, v) (filter (\<lambda>x. fst x \<noteq> k) d)"

definition dict_update :: "pydict \<Rightarrow> pydict \<Rightarrow> pydict" where
  "dict_update d new = fold (\<lambda>(k, v). dict_put k v) new d"

section \<open>Models and references\<close>

definition validated :: "'h service_env \<Rightarrow> world_object \<Rightarrow> service_error + world_object" where
  "validated env ob = of_contract (normalize_world_object (sv_zones env) ob)"

text \<open>\<open>Model.model_validate(payload)\<close>: a payload of another model or a tombstone does not fit.\<close>

definition validate_payload_as ::
    "'h service_env \<Rightarrow> (object_body \<Rightarrow> 'b option) \<Rightarrow> payload \<Rightarrow> service_error + world_object \<times> 'b" where
  "validate_payload_as env body p = (case p of
     PayloadObject ob \<Rightarrow> result_bind (validated env ob) (\<lambda>ob. case body (wo_body ob) of
        Some b \<Rightarrow> Inr (ob, b) | None \<Rightarrow> Inl (SvInvalid (Violation ''object_type'')))
   | _ \<Rightarrow> Inl (SvInvalid (FieldConstraint ''payload'')))"

definition payload_subject :: "payload \<Rightarrow> string" where
  "payload_subject p = (case p of PayloadObject ob \<Rightarrow> wo_subject_id ob | _ \<Rightarrow> [])"

definition read_payload :: "'h world_store \<Rightarrow> string \<Rightarrow> int option \<Rightarrow> service_error + payload" where
  "read_payload st oid revision = of_store (get_payload st oid revision None None)"

definition subject_payloads :: "'h world_store \<Rightarrow> object_type \<Rightarrow> string \<Rightarrow> service_error + payload list" where
  "subject_payloads st t subject = of_store (list_payloads st (Some t) (Some subject) None None)"

definition world_revision_now :: "'h world_store \<Rightarrow> service_error + int" where
  "world_revision_now st = of_store (current_world_revision st)"

definition source_of :: "object_ref \<Rightarrow> source_ref" where
  "source_of r = \<lparr>src_object_id = ref_object_id r, src_revision = ref_revision r, src_locator = None\<rparr>"

definition ref_value :: "string \<Rightarrow> int option \<Rightarrow> pyval" where
  "ref_value oid revision = PDict [(''object_id'', PStr oid),
     (''revision'', case revision of None \<Rightarrow> PNone | Some v \<Rightarrow> PInt v)]"

definition moment_extent :: "instant \<Rightarrow> temporal_extent" where
  "moment_extent t = point_extent (utc_datetime t) TP_SECOND None"

section \<open>Commits of a service\<close>

definition service_request ::
    "call_context \<Rightarrow> string \<Rightarrow> pydict \<Rightarrow> int \<Rightarrow> string \<Rightarrow> string \<Rightarrow> maintenance_class option \<Rightarrow> operation_request" where
  "service_request ck name arguments expected reason key maintenance = \<lparr>
     op_operation_id = ck_operation_id ck, op_session_id = None, op_operation_name = name,
     op_arguments = arguments, op_expected_world_revision = expected, op_reason = reason,
     op_idempotency_key = key,
     op_source_class = (if maintenance = None then SC_AI_COGNITION else SC_MAINTENANCE),
     op_maintenance_class = maintenance\<rparr>"

text \<open>The request is constructed, then committed; a service that fails before leaves the store as it is.\<close>

definition submit ::
    "'h service_env \<Rightarrow> call_context \<Rightarrow> world_object list \<Rightarrow> operation_request \<Rightarrow> 'h world_store
      \<Rightarrow> (service_error + commit_result) \<times> 'h world_store" where
  "submit env ck objs op st = (case normalize_operation op of
     Inl e \<Rightarrow> (Inl (SvInvalid e), st)
   | Inr op \<Rightarrow> (case commit (sv_zones env) (sv_digest env) (ck_now ck) objs op st of
        (Inl e, st') \<Rightarrow> (Inl (SvStore e), st')
      | (Inr r, st') \<Rightarrow> (Inr r, st')))"

text \<open>Compute what to commit from the store, or refuse; then commit it.\<close>

definition submitting ::
    "'h service_env \<Rightarrow> call_context \<Rightarrow> (service_error + (world_object list \<times> operation_request))
      \<Rightarrow> 'h world_store \<Rightarrow> (service_error + commit_result) \<times> 'h world_store" where
  "submitting env ck plan st = (case plan of
     Inl e \<Rightarrow> (Inl e, st) | Inr (objs, op) \<Rightarrow> submit env ck objs op st)"

section \<open>Facts\<close>

lemma of_store_Inr [simp]: "of_store r = Inr x \<longleftrightarrow> r = Inr x"
  by (cases r) (simp_all add: of_store_def)

lemma of_contract_Inr [simp]: "of_contract r = Inr x \<longleftrightarrow> r = Inr x"
  by (cases r) (simp_all add: of_contract_def)

lemma validated_Inr: "validated env ob = Inr ob' \<longleftrightarrow> ob' = ob \<and> valid_object (sv_zones env) ob"
  by (auto simp: validated_def normalize_world_object_def valid_object_def)

lemma validate_payload_as_Inr:
  "validate_payload_as env body p = Inr (ob, b) \<longleftrightarrow>
     p = PayloadObject ob \<and> valid_object (sv_zones env) ob \<and> body (wo_body ob) = Some b"
  by (cases p) (auto simp: validate_payload_as_def validated_Inr split: option.splits)

lemma submit_cases:
  obtains (Failed) e where "submit env ck objs op st = (Inl e, st)"
  | (Committed) r st' where "submit env ck objs op st = (Inr r, st')"
      "commit (sv_zones env) (sv_digest env) (ck_now ck) objs op st = (Inr r, st')"
proof (cases "normalize_operation op")
  case (Inl e)
  then show ?thesis by (intro Failed [of "SvInvalid e"]) (simp add: submit_def)
next
  case (Inr op')
  then have "op' = op" using normalize_operation_Inr by blast
  obtain r st' where run: "commit (sv_zones env) (sv_digest env) (ck_now ck) objs op st = (r, st')"
    by (cases "commit (sv_zones env) (sv_digest env) (ck_now ck) objs op st")
  show ?thesis
  proof (cases r)
    case (Inl e)
    then have "st' = st" using run by (auto simp: commit_def rolling_back_def split: sum.splits)
    with Inl run Inr \<open>op' = op\<close> show ?thesis by (intro Failed [of "SvStore e"]) (simp add: submit_def)
  next
    case (Inr c)
    with run \<open>normalize_operation op = Inr op'\<close> \<open>op' = op\<close> show ?thesis
      by (intro Committed [of c st']) (simp_all add: submit_def)
  qed
qed

lemma submitting_cases:
  obtains (Failed) e where "submitting env ck plan st = (Inl e, st)"
  | (Committed) objs op r st' where "plan = Inr (objs, op)" "submitting env ck plan st = (Inr r, st')"
      "commit (sv_zones env) (sv_digest env) (ck_now ck) objs op st = (Inr r, st')"
proof (cases plan)
  case (Inl e)
  then show ?thesis by (intro Failed [of e]) (simp add: submitting_def)
next
  case (Inr x)
  obtain objs op where x: "x = (objs, op)" by (cases x)
  show ?thesis
    by (cases rule: submit_cases [of env ck objs op st])
      (use Failed Committed in \<open>simp_all add: submitting_def Inr x\<close>)
qed

lemma dict_get_put: "dict_get (dict_put k v d) j = (if j = k then v else dict_get d j)"
proof -
  have insort: "map_of (insort_key fst (k, v) xs) j = (if j = k then Some v else map_of xs j)"
    if "k \<notin> fst ` set xs" for xs
    using that by (induction xs) auto
  have "map_of (filter (\<lambda>x. fst x \<noteq> k) d) j = (if j = k then None else map_of d j)"
    by (induction d) auto
  moreover have "k \<notin> fst ` set (filter (\<lambda>x. fst x \<noteq> k) d)" by auto
  ultimately show ?thesis using insort by (simp add: dict_get_def dict_put_def)
qed

lemma dict_put_keys:
  assumes "sorted (map fst d)" and "distinct (map fst d)"
  shows "sorted (map fst (dict_put k v d)) \<and> distinct (map fst (dict_put k v d))"
proof -
  have keys: "map fst (insort_key fst (k, v) xs) = insort k (map fst xs)" for xs :: pydict
    by (induction xs) auto
  let ?rest = "map fst (filter (\<lambda>x. fst x \<noteq> k) d)"
  have "sorted ?rest" "distinct ?rest" "k \<notin> set ?rest"
    using assms by (auto simp: sorted_filter distinct_map_filter)
  then show ?thesis by (simp add: dict_put_def keys sorted_insort distinct_insort)
qed

end
