(* ===== verification/WakeBus.thy ===== *)
theory WakeBus
  imports Services
begin

text \<open>
  wake/service.py: the bus of wake signals. A hit of a registered trigger becomes a wake, is merged
  into a pending one, or is suppressed during a cooldown; wakes are claimed, deferred, put back
  and finished. Every change is a commit of the next revision of one wake. The search index
  that follows the store is a projection outside the model.
\<close>

section \<open>Values of the enums\<close>

primrec wake_source_value :: "wake_source \<Rightarrow> string" where
  "wake_source_value WS_MECHANICAL_CHANGE = ''mechanical_change''"
| "wake_source_value WS_KEYWORD_ENTITY = ''keyword_entity''"
| "wake_source_value WS_NO_UPDATE = ''no_update''"
| "wake_source_value WS_TASK_DUE = ''task_due''"
| "wake_source_value WS_WATCH_MATCH = ''watch_match''"
| "wake_source_value WS_USER_INTERACTION = ''user_interaction''"
| "wake_source_value WS_SAFETY = ''safety''"
| "wake_source_value WS_RECOVERY = ''recovery''"
| "wake_source_value WS_PERIODIC_REVIEW = ''periodic_review''"
| "wake_source_value WS_ATTENTION_BUNDLE = ''attention_bundle''"
| "wake_source_value WS_COGNITIVE_DERIVATION = ''cognitive_derivation''"

primrec attention_class_value :: "attention_class \<Rightarrow> string" where
  "attention_class_value AC_INTERRUPT = ''interrupt''"
| "attention_class_value AC_BACKGROUND = ''background''"
| "attention_class_value AC_REVIEW_QUEUE = ''review_queue''"

definition attention_class_of_text :: "string \<Rightarrow> attention_class option" where
  "attention_class_of_text s =
     List.find (\<lambda>a. attention_class_value a = s) [AC_INTERRUPT, AC_BACKGROUND, AC_REVIEW_QUEUE]"

section \<open>Signals and receipts\<close>

record wake_signal_request =
  wsr_wake_source :: wake_source
  wsr_rule_id :: string
  wsr_observed_at :: datetime
  wsr_evidence_refs :: "object_ref list"
  wsr_priority :: int
  wsr_dedupe_key :: string
  wsr_cooldown_seconds :: int
  wsr_attention_class :: "attention_class option"
  wsr_metadata :: pydict

definition signal_guards :: "wake_signal_request \<Rightarrow> guard list" where
  "signal_guards q =
     [nonempty_field ''rule_id'' (wsr_rule_id q), refs_field ''evidence_refs'' (wsr_evidence_refs q),
      (wsr_priority q < 0 \<or> 100 < wsr_priority q, FieldConstraint ''priority''),
      nonempty_field ''dedupe_key'' (wsr_dedupe_key q),
      (wsr_cooldown_seconds q < 0, FieldConstraint ''cooldown_seconds'')]
     @ as_utc_guards (wsr_observed_at q) ''observed_at''
     @ [(blank (wsr_rule_id q), BlankText ''rule_id''), (blank (wsr_dedupe_key q), BlankText ''dedupe_key''),
        pin_all ''evidence_refs'' (wsr_evidence_refs q)]"

record wake_state_receipt =
  wr_wake_id :: string
  wr_revision :: int
  wr_state :: wake_state
  wr_world_revision :: int

record wake_signal_receipt = wake_state_receipt +
  wr_merged :: bool
  wr_suppressed :: bool

section \<open>Reading wakes\<close>

type_synonym stored_wake = "world_object \<times> wake"

definition wake_body :: "object_body \<Rightarrow> wake option" where
  "wake_body b = (case b of Wake w \<Rightarrow> Some w | _ \<Rightarrow> None)"

definition read_wake :: "'h service_env \<Rightarrow> payload \<Rightarrow> service_error + stored_wake" where
  "read_wake env = validate_payload_as env wake_body"

definition current_wakes :: "'h service_env \<Rightarrow> string \<Rightarrow> 'h world_store \<Rightarrow> service_error + stored_wake list" where
  "current_wakes env subject st = result_bind (subject_payloads st OT_WAKE subject) (result_map (read_wake env))"

definition current_wake :: "'h service_env \<Rightarrow> string \<Rightarrow> string \<Rightarrow> 'h world_store \<Rightarrow> service_error + stored_wake" where
  "current_wake env subject wake_id st =
     result_bind (read_payload st wake_id None) (\<lambda>p.
     result_bind (read_wake env p) (\<lambda>x.
     if wo_subject_id (fst x) \<noteq> subject then Inl (SvValue ''Wake belongs to another subject'') else Inr x))"

definition pending :: "wake \<Rightarrow> bool" where
  "pending w \<longleftrightarrow> wak_wake_state w \<in> {WK_NEW, WK_QUEUED}"

definition pending_order :: "stored_wake \<Rightarrow> int \<times> instant \<times> string" where
  "pending_order x = (- wak_priority (snd x), utc_instant (wak_first_hit_at (snd x)), wo_object_id (fst x))"

definition pending_wakes :: "'h service_env \<Rightarrow> string \<Rightarrow> 'h world_store \<Rightarrow> service_error + stored_wake list" where
  "pending_wakes env subject st = result_bind (current_wakes env subject st) (\<lambda>xs.
     Inr (sort_key pending_order (filter (\<lambda>x. pending (snd x)) xs)))"

definition validate_evidence :: "string \<Rightarrow> 'h world_store \<Rightarrow> object_ref \<Rightarrow> service_error + unit" where
  "validate_evidence subject st r = (if ref_revision r = None
     then Inl (SvValue ''Wake evidence refs must pin exact revisions'')
     else result_bind (read_payload st (ref_object_id r) (ref_revision r)) (\<lambda>p.
       if payload_subject p \<noteq> subject then Inl (SvValue ''Wake evidence crosses the runtime subject scope'')
       else Inr ()))"

section \<open>Attention and the step-0 gate\<close>

definition default_attention_class :: "wake_source \<Rightarrow> attention_class" where
  "default_attention_class s = (if s \<in> {WS_SAFETY, WS_USER_INTERACTION} then AC_INTERRUPT
     else if s = WS_PERIODIC_REVIEW then AC_REVIEW_QUEUE
     else if s = WS_TASK_DUE then AC_INTERRUPT else AC_BACKGROUND)"

definition attention_class_for_wake :: "'h service_env \<Rightarrow> stored_wake \<Rightarrow> attention_class" where
  "attention_class_for_wake env x =
     (let raw = dict_get (wo_metadata (fst x)) ''attention_class'';
          fallback = default_attention_class (wak_wake_source (snd x))
      in if raw = PNone then fallback
         else case attention_class_of_text (text_of env raw) of Some a \<Rightarrow> a | None \<Rightarrow> fallback)"

datatype step0_state = S0_OK | S0_QUIET | S0_BACKGROUND | S0_REVIEW_QUEUE | S0_HARD_BLOCK

record step0_input =
  s0_convenience_allowed :: bool
  s0_channel_allowed :: bool
  s0_budget_available :: bool
  s0_hard_blocked :: bool
  s0_safety_action_complete :: bool
  s0_cognition_allowed :: bool
  s0_external_action_allowed :: bool
  s0_user_delivery_allowed :: bool
  s0_reasons :: "string list"

record step0_result =
  s0_state :: step0_state
  s0_model_allowed :: bool
  s0_action_allowed :: bool
  s0_delivery_allowed :: bool
  s0_result_reasons :: "string list"

definition default_step0_input :: step0_input where
  "default_step0_input = \<lparr>s0_convenience_allowed = True, s0_channel_allowed = True, s0_budget_available = True,
     s0_hard_blocked = False, s0_safety_action_complete = True, s0_cognition_allowed = True,
     s0_external_action_allowed = True, s0_user_delivery_allowed = True, s0_reasons = []\<rparr>"

text \<open>The checks in the order of the code, each a change of the result so far.\<close>

definition blocked :: "bool \<Rightarrow> string \<Rightarrow> step0_result \<Rightarrow> step0_result" where
  "blocked keep_model reason r = r\<lparr>s0_state := S0_HARD_BLOCK,
     s0_model_allowed := (keep_model \<and> s0_model_allowed r), s0_action_allowed := False,
     s0_delivery_allowed := False, s0_result_reasons := s0_result_reasons r @ [reason]\<rparr>"

definition quieted :: "string \<Rightarrow> step0_result \<Rightarrow> step0_result" where
  "quieted reason r = r\<lparr>s0_delivery_allowed := False, s0_result_reasons := s0_result_reasons r @ [reason],
     s0_state := (if s0_state r \<in> {S0_HARD_BLOCK, S0_REVIEW_QUEUE} then s0_state r else S0_QUIET)\<rparr>"

definition step0_start :: "attention_class \<Rightarrow> step0_input \<Rightarrow> step0_result" where
  "step0_start a g =
     (let reasons = filter (\<lambda>s. s \<noteq> []) (map py_strip (s0_reasons g)) in
      case a of
        AC_REVIEW_QUEUE \<Rightarrow> \<lparr>s0_state = S0_REVIEW_QUEUE, s0_model_allowed = False, s0_action_allowed = False,
          s0_delivery_allowed = False, s0_result_reasons = reasons @ [''queued_for_periodic_review'']\<rparr>
      | AC_BACKGROUND \<Rightarrow> \<lparr>s0_state = S0_BACKGROUND, s0_model_allowed = True,
          s0_action_allowed = s0_external_action_allowed g, s0_delivery_allowed = False,
          s0_result_reasons = reasons @ [''background_attention_no_user_interrupt'']\<rparr>
      | AC_INTERRUPT \<Rightarrow> \<lparr>s0_state = S0_OK, s0_model_allowed = True,
          s0_action_allowed = s0_external_action_allowed g, s0_delivery_allowed = s0_user_delivery_allowed g,
          s0_result_reasons = reasons\<rparr>)"

definition unique_in_order :: "'a list \<Rightarrow> 'a list" where
  "unique_in_order xs = rev (remdups (rev xs))"

definition evaluate_step0 :: "'h service_env \<Rightarrow> stored_wake \<Rightarrow> step0_input option \<Rightarrow> step0_result" where
  "evaluate_step0 env x gate =
     (let g = (case gate of None \<Rightarrow> default_step0_input | Some g \<Rightarrow> g);
          r0 = step0_start (attention_class_for_wake env x) g;
          r1 = (if wak_wake_source (snd x) = WS_SAFETY \<and> \<not> s0_safety_action_complete g
                then blocked False ''required_pre_model_safety_action_not_complete'' r0 else r0);
          r2 = (if s0_hard_blocked g then blocked True ''mechanical_hard_block'' r1 else r1);
          r3 = (if \<not> s0_channel_allowed g then quieted ''delivery_channel_not_allowed'' r2 else r2);
          r4 = (if \<not> s0_cognition_allowed g then blocked False ''cognition_not_allowed'' r3 else r3);
          r5 = (if \<not> s0_budget_available g then blocked False ''model_budget_unavailable'' r4
                else if \<not> s0_convenience_allowed g then quieted ''user_context_not_convenient_for_delivery'' r4
                else r4);
          r6 = (if \<not> s0_user_delivery_allowed g then quieted ''user_delivery_not_allowed'' r5 else r5);
          r7 = (if \<not> s0_external_action_allowed g
                then r6\<lparr>s0_action_allowed := False,
                  s0_result_reasons := s0_result_reasons r6 @ [''external_action_not_allowed'']\<rparr>
                else r6)
      in r7\<lparr>s0_result_reasons := unique_in_order (s0_result_reasons r7)\<rparr>)"

section \<open>Emitting a signal\<close>

definition wake_operation ::
    "call_context \<Rightarrow> string \<Rightarrow> pydict \<Rightarrow> int \<Rightarrow> string \<Rightarrow> string \<Rightarrow> operation_request" where
  "wake_operation ck name arguments expected reason key =
     service_request ck name arguments expected reason key (Some MC_WAKE_SCHEDULER)"

definition signal_id_of ::
    "'h service_env \<Rightarrow> string \<Rightarrow> wake_signal_request \<Rightarrow> instant \<Rightarrow> service_error + string" where
  "signal_id_of env subject q moment = stable_id env ''wake_signal''
     [PStr subject, PStr (wake_source_value (wsr_wake_source q)), PStr (wsr_rule_id q), PStr (wsr_dedupe_key q),
      iso env moment, PList (map (\<lambda>r. ref_value (ref_object_id r) (ref_revision r)) (wsr_evidence_refs q)),
      PInt (wsr_priority q), PDict (wsr_metadata q)]"

definition in_scope :: "wake_signal_request \<Rightarrow> stored_wake \<Rightarrow> bool" where
  "in_scope q x \<longleftrightarrow> wak_dedupe_key (snd x) = Some (wsr_dedupe_key q)
     \<and> wak_wake_source (snd x) = wsr_wake_source q \<and> wak_rule_id (snd x) = Some (wsr_rule_id q)"

definition last_hit :: "stored_wake \<Rightarrow> instant" where
  "last_hit x = utc_instant (wak_last_hit_at (snd x))"

definition same_scope :: "wake_signal_request \<Rightarrow> stored_wake list \<Rightarrow> stored_wake list" where
  "same_scope q xs = sort_key last_hit (filter (in_scope q) xs)"

text \<open>\<open>tuple(str(item) for item in (metadata.get("signal_ids") or ()))\<close>; a value that is not iterable raises.\<close>

definition signal_ids :: "'h service_env \<Rightarrow> stored_wake \<Rightarrow> service_error + string list" where
  "signal_ids env x =
     (let v = dict_get (wo_metadata (fst x)) ''signal_ids'' in
      if \<not> py_truth v then Inr []
      else case v of
        PList vs \<Rightarrow> Inr (map (text_of env) vs)
      | PStr s \<Rightarrow> Inr (map (\<lambda>c. [c]) s)
      | PDict d \<Rightarrow> Inr (map fst d)
      | _ \<Rightarrow> Inl (SvType ''signal_ids is not iterable''))"

text \<open>The newest wake of the scope that has already counted this signal.\<close>

fun prior_hit :: "'h service_env \<Rightarrow> string \<Rightarrow> stored_wake list \<Rightarrow> service_error + stored_wake option" where
  "prior_hit env signal_id [] = Inr None"
| "prior_hit env signal_id (x # xs) = result_bind (signal_ids env x) (\<lambda>ids.
     if signal_id \<in> set ids then Inr (Some x) else prior_hit env signal_id xs)"

definition last_option :: "'a list \<Rightarrow> 'a option" where
  "last_option xs = (if xs = [] then None else Some (last xs))"

definition attention_rank :: "attention_class \<Rightarrow> int" where
  "attention_rank a = (case a of AC_REVIEW_QUEUE \<Rightarrow> 0 | AC_BACKGROUND \<Rightarrow> 1 | AC_INTERRUPT \<Rightarrow> 2)"

definition incoming_class :: "wake_signal_request \<Rightarrow> attention_class" where
  "incoming_class q = (case wsr_attention_class q of
     Some a \<Rightarrow> a | None \<Rightarrow> default_attention_class (wsr_wake_source q))"

text \<open>The references already there, then the new ones in their order, each once.\<close>

definition merge_refs :: "object_ref list \<Rightarrow> object_ref list \<Rightarrow> object_ref list" where
  "merge_refs old new = fold (\<lambda>r acc. if r \<in> set acc then acc else acc @ [r]) new old"

text \<open>The next revision of a wake, stamped with the moment.\<close>

definition next_wake :: "stored_wake \<Rightarrow> instant \<Rightarrow> pydict \<Rightarrow> wake \<Rightarrow> world_object" where
  "next_wake x moment metadata w = (fst x)\<lparr>wo_revision := wo_revision (fst x) + 1,
     wo_occurred := moment_extent moment, wo_learned_at := utc_datetime moment,
     wo_recorded_at := utc_datetime moment, wo_metadata := metadata, wo_body := Wake w\<rparr>"

definition merged_wake ::
    "'h service_env \<Rightarrow> wake_signal_request \<Rightarrow> string \<Rightarrow> string list \<Rightarrow> instant \<Rightarrow> stored_wake \<Rightarrow> world_object" where
  "merged_wake env q signal_id ids moment x =
     (let w = snd x; existing = attention_class_for_wake env x; incoming = incoming_class q;
          refs = merge_refs (wak_evidence_refs w) (wsr_evidence_refs q);
          metadata = dict_put ''signal_ids'' (PList (map PStr (ids @ [signal_id])))
            (dict_put ''merged_hit_count'' (PInt (wak_hit_count w + 1))
            (dict_put ''last_merge_at'' (iso env moment)
            (dict_put ''attention_class'' (PStr (attention_class_value
                (if attention_rank existing < attention_rank incoming then incoming else existing)))
            (dict_update (wo_metadata (fst x)) (wsr_metadata q)))))
      in (next_wake x moment metadata (w\<lparr>wak_last_hit_at := utc_datetime moment,
            wak_hit_count := wak_hit_count w + 1, wak_priority := max (wak_priority w) (wsr_priority q),
            wak_evidence_refs := refs\<rparr>))\<lparr>wo_source_refs := map source_of refs\<rparr>)"

text \<open>A wake of a first hit: new, or suppressed by the cooldown.\<close>

definition first_wake ::
    "string \<Rightarrow> string \<Rightarrow> string \<Rightarrow> wake_state \<Rightarrow> wake_signal_request \<Rightarrow> instant \<Rightarrow> pydict \<Rightarrow> world_object" where
  "first_wake subject wake_id created_by s q moment extra =
     \<lparr>wo_object_id = wake_id, wo_subject_id = subject, wo_revision = 1, wo_occurred = moment_extent moment,
      wo_learned_at = utc_datetime moment, wo_recorded_at = utc_datetime moment,
      wo_source_refs = map source_of (wsr_evidence_refs q), wo_created_by = created_by,
      wo_status = wake_state_value s,
      wo_metadata = dict_update (dict_put ''attention_class'' (PStr (attention_class_value (incoming_class q)))
        (wsr_metadata q)) extra,
      wo_body = Wake \<lparr>wak_wake_source = wsr_wake_source q, wak_wake_state = s,
        wak_rule_id = Some (py_strip (wsr_rule_id q)), wak_first_hit_at = utc_datetime moment,
        wak_last_hit_at = utc_datetime moment, wak_hit_count = 1, wak_evidence_refs = wsr_evidence_refs q,
        wak_priority = wsr_priority q, wak_dedupe_key = Some (py_strip (wsr_dedupe_key q))\<rparr>\<rparr>"

definition in_cooldown :: "wake_signal_request \<Rightarrow> instant \<Rightarrow> stored_wake \<Rightarrow> bool" where
  "in_cooldown q moment x \<longleftrightarrow> 0 < wsr_cooldown_seconds q
     \<and> wak_wake_state (snd x) \<in> {WK_COMPLETED, WK_SUPPRESSED, WK_CANCELLED}
     \<and> moment - last_hit x < wsr_cooldown_seconds q * 1000000"

definition hit_id ::
    "'h service_env \<Rightarrow> string \<Rightarrow> string \<Rightarrow> wake_signal_request \<Rightarrow> instant \<Rightarrow> service_error + string" where
  "hit_id env tag subject q moment = stable_id env tag
     [PStr subject, PStr (wake_source_value (wsr_wake_source q)), PStr (wsr_rule_id q),
      PStr (wsr_dedupe_key q), iso env moment]"

definition cooldown_metadata :: "string \<Rightarrow> wake_signal_request \<Rightarrow> stored_wake \<Rightarrow> pydict" where
  "cooldown_metadata signal_id q latest =
     [(''signal_ids'', PList [PStr signal_id]), (''suppression_reason'', PStr ''cooldown''),
      (''cooldown_seconds'', PInt (wsr_cooldown_seconds q)),
      (''previous_wake_ref'', ref_value (wo_object_id (fst latest)) (Some (wo_revision (fst latest))))]"

text \<open>What an emitted signal does: nothing for a signal already counted, or one commit.\<close>

datatype emission =
    Counted stored_wake
  | Merges stored_wake world_object operation_request
  | Suppresses string world_object operation_request
  | Creates string world_object operation_request

definition plan_emission ::
    "'h service_env \<Rightarrow> call_context \<Rightarrow> string \<Rightarrow> wake_signal_request \<Rightarrow> 'h world_store \<Rightarrow> service_error + emission" where
  "plan_emission env ck subject q st =
     result_bind (of_contract (as_utc (wsr_observed_at q) ''observed_at'')) (\<lambda>moment.
     result_bind (result_map (validate_evidence subject st) (wsr_evidence_refs q)) (\<lambda>_.
     result_bind (signal_id_of env subject q moment) (\<lambda>signal_id.
     result_bind (current_wakes env subject st) (\<lambda>wakes.
     let scope = same_scope q wakes in
     result_bind (prior_hit env signal_id (rev scope)) (\<lambda>prior.
     case prior of
       Some x \<Rightarrow> Inr (Counted x)
     | None \<Rightarrow>
        let fresh = (\<lambda>_::unit.
              result_bind (hit_id env ''wake'' subject q moment) (\<lambda>wake_id.
              result_bind (validated env (first_wake subject wake_id ''wake_bus:trigger'' WK_NEW q moment
                [(''signal_ids'', PList [PStr signal_id])])) (\<lambda>ob.
              result_bind (world_revision_now st) (\<lambda>expected.
              Inr (Creates wake_id ob (wake_operation ck ''wake.signal.create''
                [(''dedupe_key'', PStr (wsr_dedupe_key q)), (''rule_id'', PStr (wsr_rule_id q)),
                 (''wake_id'', PStr wake_id), (''wake_source'', PStr (wake_source_value (wsr_wake_source q)))]
                expected ''registered deterministic trigger requested Resident attention''
                (''wake-create:'' @ wake_id)))))))
        in case last_option scope of
          None \<Rightarrow> fresh ()
        | Some latest \<Rightarrow>
           if moment < last_hit latest then Inl (SvValue ''out-of-order Wake hit for existing trigger scope'')
           else if pending (snd latest) then
             result_bind (signal_ids env latest) (\<lambda>ids.
             result_bind (validated env (merged_wake env q signal_id ids moment latest)) (\<lambda>ob.
             result_bind (world_revision_now st) (\<lambda>expected.
             Inr (Merges latest ob (wake_operation ck ''wake.signal.merge''
               [(''dedupe_key'', PStr (wsr_dedupe_key q)), (''revision'', PInt (wo_revision ob)),
                (''wake_id'', PStr (wo_object_id (fst latest)))]
               expected ''merge repeated deterministic Wake trigger''
               (''wake-merge:'' @ wo_object_id (fst latest) @ '':'' @ int_decimal (wo_revision ob)))))))
           else if in_cooldown q moment latest then
             result_bind (hit_id env ''wake_suppressed'' subject q moment) (\<lambda>wake_id.
             result_bind (validated env (first_wake subject wake_id ''wake_bus:cooldown'' WK_SUPPRESSED q moment
               (cooldown_metadata signal_id q latest))) (\<lambda>ob.
             result_bind (world_revision_now st) (\<lambda>expected.
             Inr (Suppresses wake_id ob (wake_operation ck ''wake.signal.suppress_cooldown''
               [(''dedupe_key'', PStr (wsr_dedupe_key q)), (''wake_id'', PStr wake_id)]
               expected ''suppress repeated Wake during deterministic cooldown''
               (''wake-suppress:'' @ wake_id))))))
           else fresh ())))))"

definition signal_receipt :: "string \<Rightarrow> int \<Rightarrow> wake_state \<Rightarrow> int \<Rightarrow> bool \<Rightarrow> bool \<Rightarrow> wake_signal_receipt" where
  "signal_receipt wake_id revision s world_revision merged suppressed = \<lparr>wr_wake_id = wake_id,
     wr_revision = revision, wr_state = s, wr_world_revision = world_revision, wr_merged = merged,
     wr_suppressed = suppressed\<rparr>"

definition committing ::
    "'h service_env \<Rightarrow> call_context \<Rightarrow> world_object \<Rightarrow> operation_request \<Rightarrow> (commit_result \<Rightarrow> 'r) \<Rightarrow> 'h world_store
      \<Rightarrow> (service_error + 'r) \<times> 'h world_store" where
  "committing env ck ob op receipt st = (case submit env ck [ob] op st of
     (Inl e, st') \<Rightarrow> (Inl e, st') | (Inr r, st') \<Rightarrow> (Inr (receipt r), st'))"

definition emit ::
    "'h service_env \<Rightarrow> call_context \<Rightarrow> string \<Rightarrow> wake_signal_request \<Rightarrow> 'h world_store
      \<Rightarrow> (service_error + wake_signal_receipt) \<times> 'h world_store" where
  "emit env ck subject q st = (case plan_emission env ck subject q st of
     Inl e \<Rightarrow> (Inl e, st)
   | Inr (Counted x) \<Rightarrow> (result_bind (world_revision_now st) (\<lambda>w. Inr (signal_receipt
       (wo_object_id (fst x)) (wo_revision (fst x)) (wak_wake_state (snd x)) w False False)), st)
   | Inr (Merges x ob op) \<Rightarrow> committing env ck ob op (\<lambda>r. signal_receipt (wo_object_id ob) (wo_revision ob)
       (wak_wake_state (snd x)) (cr_world_revision r) True False) st
   | Inr (Suppresses i ob op) \<Rightarrow> committing env ck ob op (\<lambda>r. signal_receipt i 1 WK_SUPPRESSED
       (cr_world_revision r) False True) st
   | Inr (Creates i ob op) \<Rightarrow> committing env ck ob op (\<lambda>r. signal_receipt i 1 WK_NEW
       (cr_world_revision r) False False) st)"

section \<open>The life of a wake\<close>

text \<open>A transition either finds the wake where it should be, or commits its next revision.\<close>

datatype transition = Unchanged stored_wake | Becomes world_object operation_request

definition moved_wake :: "stored_wake \<Rightarrow> instant \<Rightarrow> wake_state \<Rightarrow> pydict \<Rightarrow> world_object" where
  "moved_wake x moment s metadata =
     (next_wake x moment metadata ((snd x)\<lparr>wak_wake_state := s\<rparr>))\<lparr>wo_status := wake_state_value s\<rparr>"

definition revision_key :: "string \<Rightarrow> string \<Rightarrow> int \<Rightarrow> string" where
  "revision_key tag wake_id revision = tag @ '':'' @ wake_id @ '':'' @ int_decimal revision"

definition plan_move ::
    "'h service_env \<Rightarrow> call_context \<Rightarrow> stored_wake \<Rightarrow> instant \<Rightarrow> wake_state \<Rightarrow> pydict \<Rightarrow> string \<Rightarrow> pydict \<Rightarrow> string
      \<Rightarrow> string \<Rightarrow> (service_error + int) \<Rightarrow> service_error + transition" where
  "plan_move env ck x moment s metadata name extra_arguments reason key expected =
     result_bind (validated env (moved_wake x moment s metadata)) (\<lambda>ob.
     result_bind expected (\<lambda>expected.
     Inr (Becomes ob (wake_operation ck name
       (dict_update [(''revision'', PInt (wo_revision ob)), (''wake_id'', PStr (wo_object_id ob))] extra_arguments)
       expected reason key))))"

definition state_receipt :: "string \<Rightarrow> int \<Rightarrow> wake_state \<Rightarrow> int \<Rightarrow> wake_state_receipt" where
  "state_receipt wake_id revision s w = \<lparr>wr_wake_id = wake_id, wr_revision = revision, wr_state = s,
     wr_world_revision = w\<rparr>"

definition perform_move ::
    "'h service_env \<Rightarrow> call_context \<Rightarrow> wake_state \<Rightarrow> (service_error + transition) \<Rightarrow> 'h world_store
      \<Rightarrow> (service_error + wake_state_receipt) \<times> 'h world_store" where
  "perform_move env ck s plan st = (case plan of
     Inl e \<Rightarrow> (Inl e, st)
   | Inr (Unchanged x) \<Rightarrow> (result_bind (world_revision_now st) (\<lambda>w. Inr (state_receipt
       (wo_object_id (fst x)) (wo_revision (fst x)) (wak_wake_state (snd x)) w)), st)
   | Inr (Becomes ob op) \<Rightarrow> committing env ck ob op (\<lambda>r. state_receipt (wo_object_id ob) (wo_revision ob) s
       (cr_world_revision r)) st)"

definition plan_claim ::
    "'h service_env \<Rightarrow> call_context \<Rightarrow> string \<Rightarrow> string \<Rightarrow> datetime \<Rightarrow> int option \<Rightarrow> pydict \<Rightarrow> 'h world_store
      \<Rightarrow> service_error + transition" where
  "plan_claim env ck subject wake_id started_at expected metadata_update st =
     result_bind (of_contract (as_utc started_at ''started_at'')) (\<lambda>moment.
     result_bind (current_wake env subject wake_id st) (\<lambda>x.
     if wak_wake_state (snd x) = WK_RUNNING \<and> metadata_update = [] then Inr (Unchanged x)
     else if wak_wake_state (snd x) \<notin> {WK_NEW, WK_QUEUED, WK_RUNNING}
       then Inl (SvValue ''only NEW/QUEUED/RUNNING Wake may be claimed'')
     else plan_move env ck x moment WK_RUNNING
       (dict_update (dict_put ''started_at'' (iso env moment) (wo_metadata (fst x))) metadata_update)
       ''wake.dispatch.claim'' [] ''claim Wake for Resident CognitiveRuntime dispatch''
       (revision_key ''wake-claim'' (wo_object_id (fst x)) (wo_revision (fst x) + 1))
       (case expected of None \<Rightarrow> world_revision_now st | Some n \<Rightarrow> Inr n)))"

definition claim_wake ::
    "'h service_env \<Rightarrow> call_context \<Rightarrow> string \<Rightarrow> string \<Rightarrow> datetime \<Rightarrow> int option \<Rightarrow> pydict \<Rightarrow> 'h world_store
      \<Rightarrow> (service_error + wake_state_receipt) \<times> 'h world_store" where
  "claim_wake env ck subject wake_id started_at expected metadata_update st = perform_move env ck WK_RUNNING
     (plan_claim env ck subject wake_id started_at expected metadata_update st) st"

definition step0_state_value :: "step0_state \<Rightarrow> string" where
  "step0_state_value s = (case s of S0_OK \<Rightarrow> ''ok'' | S0_QUIET \<Rightarrow> ''quiet'' | S0_BACKGROUND \<Rightarrow> ''background''
     | S0_REVIEW_QUEUE \<Rightarrow> ''review_queue'' | S0_HARD_BLOCK \<Rightarrow> ''hard_block'')"

definition step0_metadata :: "step0_result \<Rightarrow> pydict" where
  "step0_metadata r = [(''step0_reasons'', PList (map PStr (s0_result_reasons r))),
     (''step0_state'', PStr (step0_state_value (s0_state r)))]"

definition plan_defer ::
    "'h service_env \<Rightarrow> call_context \<Rightarrow> string \<Rightarrow> string \<Rightarrow> datetime \<Rightarrow> step0_result \<Rightarrow> 'h world_store
      \<Rightarrow> service_error + transition" where
  "plan_defer env ck subject wake_id deferred_at step0 st =
     result_bind (of_contract (as_utc deferred_at ''deferred_at'')) (\<lambda>moment.
     result_bind (current_wake env subject wake_id st) (\<lambda>x.
     if wak_wake_state (snd x) = WK_QUEUED then Inr (Unchanged x)
     else if wak_wake_state (snd x) \<noteq> WK_NEW then Inl (SvValue ''only NEW Wake may be deferred'')
     else plan_move env ck x moment WK_QUEUED
       (dict_update (wo_metadata (fst x)) ((''deferred_at'', iso env moment) # step0_metadata step0))
       ''wake.dispatch.defer'' [] ''Step-0 deferred Resident model invocation''
       (revision_key ''wake-defer'' (wo_object_id (fst x)) (wo_revision (fst x) + 1)) (world_revision_now st)))"

definition defer_wake ::
    "'h service_env \<Rightarrow> call_context \<Rightarrow> string \<Rightarrow> string \<Rightarrow> datetime \<Rightarrow> step0_result \<Rightarrow> 'h world_store
      \<Rightarrow> (service_error + wake_state_receipt) \<times> 'h world_store" where
  "defer_wake env ck subject wake_id deferred_at step0 st = perform_move env ck WK_QUEUED
     (plan_defer env ck subject wake_id deferred_at step0 st) st"

text \<open>\<open>metadata.get(a) or metadata.get(b) or default\<close>, as text.\<close>

definition first_started :: "'h service_env \<Rightarrow> pydict \<Rightarrow> instant \<Rightarrow> pyval" where
  "first_started env d moment =
     (let a = dict_get d ''runtime_first_started_at''; b = dict_get d ''started_at''
      in PStr (if py_truth a then text_of env a else if py_truth b then text_of env b else sv_isoformat env moment))"

definition incomplete_attempts :: "pydict \<Rightarrow> int" where
  "incomplete_attempts d = (case map_of d ''runtime_incomplete_attempts'' of
     None \<Rightarrow> 0
   | Some v \<Rightarrow> (case as_int v of None \<Rightarrow> 0 | Some n \<Rightarrow> max 0 n))"

definition plan_requeue ::
    "'h service_env \<Rightarrow> call_context \<Rightarrow> string \<Rightarrow> string \<Rightarrow> datetime \<Rightarrow> string \<Rightarrow> int \<Rightarrow> int \<Rightarrow> string list \<Rightarrow> step0_state
      \<Rightarrow> 'h world_store \<Rightarrow> service_error + transition" where
  "plan_requeue env ck subject wake_id requeued_at termination_reason rounds next_round names s0 st =
     (if next_round < 1 then Inl (SvValue ''next_model_round_index must be a positive integer'')
      else result_bind (of_contract (as_utc requeued_at ''requeued_at'')) (\<lambda>moment.
      result_bind (current_wake env subject wake_id st) (\<lambda>x.
      if wak_wake_state (snd x) = WK_QUEUED then Inr (Unchanged x)
      else if wak_wake_state (snd x) \<noteq> WK_RUNNING
        then Inl (SvValue ''only RUNNING Wake may be requeued as runtime-incomplete'')
      else plan_move env ck x moment WK_QUEUED
        (dict_update (wo_metadata (fst x))
          [(''runtime_first_started_at'', first_started env (wo_metadata (fst x)) moment),
           (''runtime_incomplete'', PBool True), (''runtime_incomplete_at'', iso env moment),
           (''runtime_incomplete_attempts'', PInt (incomplete_attempts (wo_metadata (fst x)) + 1)),
           (''runtime_incomplete_capability_names'', PList (map PStr names)),
           (''runtime_incomplete_model_rounds'', PInt rounds),
           (''runtime_incomplete_next_model_round_index'', PInt next_round),
           (''runtime_incomplete_reason'', PStr termination_reason),
           (''runtime_incomplete_step0_state'', PStr (step0_state_value s0))])
        ''wake.dispatch.runtime_incomplete''
        [(''next_model_round_index'', PInt next_round), (''termination_reason'', PStr termination_reason)]
        ''keep semantically unfinished Resident wake durable''
        (revision_key ''wake-runtime-incomplete'' (wo_object_id (fst x)) (wo_revision (fst x) + 1))
        (world_revision_now st))))"

definition requeue_runtime_incomplete ::
    "'h service_env \<Rightarrow> call_context \<Rightarrow> string \<Rightarrow> string \<Rightarrow> datetime \<Rightarrow> string \<Rightarrow> int \<Rightarrow> int \<Rightarrow> string list \<Rightarrow> step0_state
      \<Rightarrow> 'h world_store \<Rightarrow> (service_error + wake_state_receipt) \<times> 'h world_store" where
  "requeue_runtime_incomplete env ck subject wake_id requeued_at termination_reason rounds next_round names s0 st =
     perform_move env ck WK_QUEUED
       (plan_requeue env ck subject wake_id requeued_at termination_reason rounds next_round names s0 st) st"

definition plan_finish ::
    "'h service_env \<Rightarrow> call_context \<Rightarrow> string \<Rightarrow> string \<Rightarrow> datetime \<Rightarrow> wake_state \<Rightarrow> pydict \<Rightarrow> string \<Rightarrow> 'h world_store
      \<Rightarrow> service_error + transition" where
  "plan_finish env ck subject wake_id finished_at target metadata_update reason st =
     result_bind (of_contract (as_utc finished_at ''finished_at'')) (\<lambda>moment.
     result_bind (current_wake env subject wake_id st) (\<lambda>x.
     if wak_wake_state (snd x) = target then Inr (Unchanged x)
     else if wak_wake_state (snd x) \<notin> {WK_NEW, WK_QUEUED, WK_RUNNING} then Inl (SvValue ''Wake is already terminal'')
     else plan_move env ck x moment target (dict_update (wo_metadata (fst x)) metadata_update)
       (''wake.dispatch.'' @ wake_state_value target) [] reason
       (revision_key ''wake-finish'' (wo_object_id (fst x)) (wo_revision (fst x) + 1) @ '':'' @ wake_state_value target)
       (world_revision_now st)))"

text \<open>\<open>complete\<close> and \<open>suppress\<close>: the metadata is built, with its time, before the wake is read.\<close>

definition complete_wake ::
    "'h service_env \<Rightarrow> call_context \<Rightarrow> string \<Rightarrow> string \<Rightarrow> datetime \<Rightarrow> string \<Rightarrow> int \<Rightarrow> string list \<Rightarrow> bool \<Rightarrow> step0_state
      \<Rightarrow> 'h world_store \<Rightarrow> (service_error + wake_state_receipt) \<times> 'h world_store" where
  "complete_wake env ck subject wake_id completed_at termination_reason rounds names delivery s0 st =
     perform_move env ck WK_COMPLETED (result_bind (of_contract (as_utc completed_at ''completed_at'')) (\<lambda>moment.
       plan_finish env ck subject wake_id completed_at WK_COMPLETED
         [(''capability_names'', PList (map PStr names)), (''completed_at'', iso env moment),
          (''delivery_allowed'', PBool delivery), (''model_rounds'', PInt rounds),
          (''step0_state'', PStr (step0_state_value s0)), (''termination_reason'', PStr termination_reason)]
         ''complete Resident Wake dispatch'' st)) st"

definition suppress_wake ::
    "'h service_env \<Rightarrow> call_context \<Rightarrow> string \<Rightarrow> string \<Rightarrow> datetime \<Rightarrow> step0_result \<Rightarrow> 'h world_store
      \<Rightarrow> (service_error + wake_state_receipt) \<times> 'h world_store" where
  "suppress_wake env ck subject wake_id suppressed_at step0 st =
     perform_move env ck WK_SUPPRESSED (result_bind (of_contract (as_utc suppressed_at ''suppressed_at'')) (\<lambda>moment.
       plan_finish env ck subject wake_id suppressed_at WK_SUPPRESSED
         ([(''suppressed_at'', iso env moment), (''suppression_reason'', PStr ''step0_model_block'')]
           @ step0_metadata step0)
         ''Step-0 blocked Resident model dispatch'' st)) st"

section \<open>Observation rules\<close>

record observation_wake_rule =
  owr_rule_id :: string
  owr_wake_source :: wake_source
  owr_source_kind :: "string option"
  owr_modality :: "string option"
  owr_metadata_equals :: pydict
  owr_dedupe_metadata_keys :: "string list"
  owr_priority :: int
  owr_cooldown_seconds :: int
  owr_attention_class :: "attention_class option"
  owr_enabled :: bool

definition rule_guards :: "observation_wake_rule \<Rightarrow> guard list" where
  "rule_guards r =
     [nonempty_field ''rule_id'' (owr_rule_id r),
      (owr_priority r < 0 \<or> 100 < owr_priority r, FieldConstraint ''priority''),
      (owr_cooldown_seconds r < 0, FieldConstraint ''cooldown_seconds''),
      (blank (owr_rule_id r), BlankText ''rule_id''),
      (owr_wake_source r \<notin> {WS_MECHANICAL_CHANGE, WS_KEYWORD_ENTITY, WS_WATCH_MATCH, WS_RECOVERY},
         Violation ''ObservationWakeRule supports only registered indirect observation wake sources''),
      (opt_blank (owr_source_kind r), BlankText ''source_kind''),
      (opt_blank (owr_modality r), BlankText ''modality''),
      (list_ex blank (map fst (owr_metadata_equals r) @ owr_dedupe_metadata_keys r),
         Violation ''metadata rule keys must be non-blank strings'')]"

definition observation_body :: "object_body \<Rightarrow> observation option" where
  "observation_body b = (case b of Observation x \<Rightarrow> Some x | _ \<Rightarrow> None)"

definition rule_matches :: "world_object \<Rightarrow> observation \<Rightarrow> observation_wake_rule \<Rightarrow> bool" where
  "rule_matches ob b r \<longleftrightarrow> owr_enabled r
     \<and> (owr_source_kind r = None \<or> owr_source_kind r = Some (obs_source_kind b))
     \<and> (owr_modality r = None \<or> owr_modality r = Some (obs_modality b))
     \<and> list_all (\<lambda>(k, v). py_eq (dict_get (wo_metadata ob) k) v) (owr_metadata_equals r)"

definition rule_signal ::
    "'h service_env \<Rightarrow> string \<Rightarrow> object_ref \<Rightarrow> world_object \<Rightarrow> observation \<Rightarrow> observation_wake_rule
      \<Rightarrow> service_error + wake_signal_request" where
  "rule_signal env subject observation_ref ob b r =
     (case List.find (\<lambda>k. k \<notin> set (map fst (wo_metadata ob))) (owr_dedupe_metadata_keys r) of
        Some k \<Rightarrow> Inl (SvValue ''dedupe metadata key missing from Observation'')
      | None \<Rightarrow> result_bind (stable_id env ''observation_wake_scope''
          [PStr subject, PStr (owr_rule_id r), PStr (obs_source_kind b),
           PDict (dict_update [] (map (\<lambda>k. (k, dict_get (wo_metadata ob) k)) (owr_dedupe_metadata_keys r)))]) (\<lambda>key.
        let q = \<lparr>wsr_wake_source = owr_wake_source r, wsr_rule_id = owr_rule_id r,
              wsr_observed_at = wo_recorded_at ob, wsr_evidence_refs = [observation_ref],
              wsr_priority = owr_priority r, wsr_dedupe_key = key,
              wsr_cooldown_seconds = owr_cooldown_seconds r, wsr_attention_class = owr_attention_class r,
              wsr_metadata = [(''trigger_kind'', PStr ''registered_observation_rule''),
                (''trigger_observation_ref'', ref_value (ref_object_id observation_ref) (ref_revision observation_ref)),
                (''trigger_rule_id'', PStr (owr_rule_id r))]\<rparr>
        in of_contract (raising (signal_guards q) q)))"

text \<open>The rules in order; a raise ends the evaluation and keeps the wakes emitted before it.\<close>

fun evaluate_rules ::
    "'h service_env \<Rightarrow> (nat \<Rightarrow> call_context) \<Rightarrow> nat \<Rightarrow> string \<Rightarrow> object_ref \<Rightarrow> world_object \<Rightarrow> observation
      \<Rightarrow> observation_wake_rule list \<Rightarrow> 'h world_store \<Rightarrow> (service_error + wake_signal_receipt list) \<times> 'h world_store" where
  "evaluate_rules env ck n subject r ob b [] st = (Inr [], st)"
| "evaluate_rules env ck n subject r ob b (rule # rules) st =
     (if \<not> rule_matches ob b rule then evaluate_rules env ck (Suc n) subject r ob b rules st
      else case rule_signal env subject r ob b rule of
        Inl e \<Rightarrow> (Inl e, st)
      | Inr q \<Rightarrow> (case emit env (ck n) subject q st of
          (Inl e, st') \<Rightarrow> (Inl e, st')
        | (Inr receipt, st') \<Rightarrow> (case evaluate_rules env ck (Suc n) subject r ob b rules st' of
            (Inl e, st'') \<Rightarrow> (Inl e, st'')
          | (Inr receipts, st'') \<Rightarrow> (Inr (receipt # receipts), st''))))"

definition evaluate_observation ::
    "'h service_env \<Rightarrow> (nat \<Rightarrow> call_context) \<Rightarrow> string \<Rightarrow> object_ref \<Rightarrow> observation_wake_rule list \<Rightarrow> 'h world_store
      \<Rightarrow> (service_error + wake_signal_receipt list) \<times> 'h world_store" where
  "evaluate_observation env ck subject r rules st =
     (if ref_revision r = None then (Inl (SvValue ''observation_ref must pin an exact revision''), st)
      else case result_bind (read_payload st (ref_object_id r) (ref_revision r)) (\<lambda>p.
        if (case p of PayloadObject ob \<Rightarrow> wo_object_type ob \<noteq> OT_OBSERVATION | _ \<Rightarrow> True)
        then Inl (SvValue ''observation_ref must point to an Observation'')
        else validate_payload_as env observation_body p) of
          Inl e \<Rightarrow> (Inl e, st)
        | Inr (ob, b) \<Rightarrow>
           if wo_subject_id ob \<noteq> subject then (Inl (SvValue ''Observation belongs to another subject''), st)
           else evaluate_rules env ck 0 subject r ob b rules st)"

end
