(* ===== verification/ServiceFacts.thy ===== *)
theory ServiceFacts
  imports Services WorldService WorldBatch
begin

text \<open>
  What a commit of a service does to the newest version of each object, on a store that
  satisfies the invariant: nothing when it is refused or replayed, otherwise one new version of
  every object it names.
\<close>

lemma latest_by_snoc:
  assumes "\<forall>y \<in> set xs. f y < f x"
  shows "latest_by f (xs @ [x]) = Some x"
proof -
  have "sql_max (map f (xs @ [x])) = Some (f x)"
    using assms by (auto simp: sql_max_def intro!: Max_eqI)
  moreover have "List.find (\<lambda>y. f y = f x) (xs @ [x]) = Some x"
    using assms by (induction xs) auto
  ultimately show ?thesis by (simp add: latest_by_def)
qed

lemma older_versions:
  assumes "chain_inv st" and "r \<in> set (rows_of oid st)"
  shows "rr_revision r < next_version (object_versions st oid)"
proof -
  have "rr_revision r \<in> set (object_versions st oid)" using assms(2) by (simp add: object_versions_def)
  then show ?thesis by (auto simp: next_version_def sql_max_def split: option.splits if_splits)
qed

lemma latest_row_appended:
  assumes "world_inv zones st" and "accepted zones digest objs op st w h"
  shows "latest_row (appended now w' op objs h st) oid = (case List.find (\<lambda>ob. wo_object_id ob = oid) objs of
     Some ob \<Rightarrow> Some (content_row w' ob) | None \<Rightarrow> latest_row st oid)"
proof -
  have chain: "chain_inv st" using assms(1) by (simp add: world_inv_def)
  have ids: "distinct (map wo_object_id objs)" using accepted_distinct_ids [OF assms(2)] .
  have rows: "rows_of oid (appended now w' op objs h st)
      = rows_of oid st @ map (content_row w') (filter (\<lambda>ob. wo_object_id ob = oid) objs)"
    by (simp add: rows_of_def filter_map comp_def)
  show ?thesis
  proof (cases "List.find (\<lambda>ob. wo_object_id ob = oid) objs")
    case None
    then have "filter (\<lambda>ob. wo_object_id ob = oid) objs = []" by (simp add: find_None_iff filter_empty_conv)
    with None rows show ?thesis by (simp add: latest_row_def)
  next
    case (Some ob)
    then have ob: "ob \<in> set objs" "wo_object_id ob = oid" by (auto dest: find_Some_in)
    have "filter (\<lambda>x. wo_object_id x = oid) objs = [ob]"
      using ob ids
    proof (induction objs)
      case (Cons x xs)
      then show ?case by (cases "x = ob") (auto simp: filter_empty_conv, metis image_eqI)
    qed simp
    moreover have "wo_revision ob = next_version (object_versions st oid)"
      using assms(2) ob by (auto simp: accepted_def check_revision_Inr)
    ultimately show ?thesis
      using older_versions [OF chain, of _ oid] Some rows
      by (simp add: latest_row_def latest_by_snoc)
  qed
qed

lemma commit_newest:
  assumes "world_inv zones st" and "commit zones digest now objs op st = (Inr r, st')"
  obtains (Replay) "st' = st" "get_idempotent_result zones digest op objs st = Inr (Some r)"
  | (Fresh) w h where "get_idempotent_result zones digest op objs st = Inr None" "accepted zones digest objs op st w h"
      "st' = appended now (w + 1) op objs h st" "r = commit_result_of (w + 1) op objs"
      "\<And>oid. latest_row st' oid = (case List.find (\<lambda>ob. wo_object_id ob = oid) objs of
         Some ob \<Rightarrow> Some (content_row (w + 1) ob) | None \<Rightarrow> latest_row st oid)"
  using assms(2)
proof (cases rule: commit_Inr_cases)
  case replay
  then show ?thesis by (intro Replay) simp_all
next
  case (fresh w h)
  note out = write_commit_Inr [OF fresh(4)]
  show ?thesis
    by (rule Fresh [OF fresh(1,3) out(2,1)]) (simp add: out(2) latest_row_appended [OF assms(1) fresh(3)])
qed

lemma submit_newest:
  assumes "world_inv (sv_zones env) st" and "submit env ck objs op st = (Inr r, st')"
  obtains (Replay) "st' = st" "get_idempotent_result (sv_zones env) (sv_digest env) op objs st = Inr (Some r)"
  | (Fresh) w h where "get_idempotent_result (sv_zones env) (sv_digest env) op objs st = Inr None"
      "accepted (sv_zones env) (sv_digest env) objs op st w h"
      "st' = appended (ck_now ck) (w + 1) op objs h st" "r = commit_result_of (w + 1) op objs"
      "\<And>oid. latest_row st' oid = (case List.find (\<lambda>ob. wo_object_id ob = oid) objs of
         Some ob \<Rightarrow> Some (content_row (w + 1) ob) | None \<Rightarrow> latest_row st oid)"
proof -
  have run: "commit (sv_zones env) (sv_digest env) (ck_now ck) objs op st = (Inr r, st')"
    by (cases rule: submit_cases [of env ck objs op st]) (use assms(2) in auto)
  show ?thesis
  proof (cases rule: commit_newest [OF assms(1) run])
    case 1
    then show ?thesis by (rule Replay)
  next
    case (2 w h)
    show ?thesis by (rule Fresh [OF 2])
  qed
qed

lemma submit_Inl: "submit env ck objs op st = (Inl e, st') \<Longrightarrow> st' = st"
  by (cases rule: submit_cases [of env ck objs op st]) auto

lemma submit_step: "submit env ck objs op st = (r, st') \<Longrightarrow> world_steps (sv_zones env) (sv_digest env) st st'"
  by (cases rule: submit_cases [of env ck objs op st]) (auto intro: r_into_rtranclp step_commit)

section \<open>The newest content of an object\<close>

definition newest_object :: "'h world_store \<Rightarrow> string \<Rightarrow> world_object option" where
  "newest_object st oid = (case latest_row st oid of
     Some r \<Rightarrow> (case rr_payload r of PayloadObject ob \<Rightarrow> Some ob | _ \<Rightarrow> None) | None \<Rightarrow> None)"

lemma decoded: "decode_payload reason p = Inr q \<Longrightarrow> p = q"
  by (auto simp: decode_payload_def split: payload.splits)

lemma read_newest:
  "read_payload st oid None = Inr (PayloadObject ob) \<Longrightarrow> newest_object st oid = Some ob"
proof -
  assume "read_payload st oid None = Inr (PayloadObject ob)"
  then have "case latest_row st oid of None \<Rightarrow> False
      | Some r \<Rightarrow> decode_payload ''corrupt_object_payload'' (rr_payload r) = Inr (PayloadObject ob)"
    by (simp add: read_payload_def get_payload_def normalize_opt_def visible_def latest_row_def rows_of_def
        del: latest_by_None split: option.splits)
  then show ?thesis by (auto simp: newest_object_def split: option.splits dest!: decoded)
qed

lemma latest_rows_row:
  assumes "world_inv zones st" and "r \<in> set (latest_rows st)"
  shows "latest_row st (rr_object_id r) = Some r"
proof -
  have chain: "chain_inv st" using assms(1) by (simp add: world_inv_def)
  have r: "r \<in> set (ws_revisions st)" "latest_revision st (rr_object_id r) = Some (rr_revision r)"
    using assms(2) by (auto simp: latest_rows_def)
  obtain q where q: "latest_row st (rr_object_id r) = Some q"
    using r(1) by (cases "latest_row st (rr_object_id r)") (auto simp: latest_row_None)
  note newest = latest_row_Some [OF q]
  have "rr_revision q = rr_revision r"
    using newest r by (auto simp: latest_revision_iff intro: antisym)
  then have "row_key q = row_key r" using newest by (simp add: row_key_def)
  then have "q = r" using rows_distinct [OF chain] newest r(1) by (auto simp: distinct_map dest: inj_onD)
  with q show ?thesis by simp
qed

lemma newest_identity:
  assumes "world_inv zones st" and "newest_object st oid = Some ob"
  shows "wo_object_id ob = oid" and "next_version (object_versions st oid) = wo_revision ob + 1"
    and "\<exists>r. latest_row st oid = Some r \<and> rr_payload r = PayloadObject ob \<and> rr_revision r = wo_revision ob
           \<and> rr_object_type r = wo_object_type ob"
proof -
  obtain r where r: "latest_row st oid = Some r" "rr_payload r = PayloadObject ob"
    using assms(2) by (auto simp: newest_object_def split: option.splits payload.splits)
  have mem: "r \<in> set (ws_revisions st)" "rr_object_id r = oid" using latest_row_Some [OF r(1)] by auto
  then have "payload_ok zones r" using assms(1) by (simp add: world_inv_def payload_inv_def)
  then have key: "wo_object_id ob = rr_object_id r \<and> wo_revision ob = rr_revision r \<and> wo_object_type ob = rr_object_type r"
    using r(2) by (cases "rr_revision_kind r") (auto simp: payload_ok_def object_key_def row_key_def)
  moreover have "rr_revision r + 1 = next_version (object_versions st oid)"
    using latest_row_next [OF _ r(1)] assms(1) by (simp add: world_inv_def)
  ultimately show "wo_object_id ob = oid" "next_version (object_versions st oid) = wo_revision ob + 1"
    "\<exists>r. latest_row st oid = Some r \<and> rr_payload r = PayloadObject ob \<and> rr_revision r = wo_revision ob
       \<and> rr_object_type r = wo_object_type ob"
    using mem r by auto
qed

lemma first_version_new:
  assumes "world_inv zones st" and "next_version (object_versions st oid) = 1"
  shows "newest_object st oid = None" and "latest_row st oid = None"
proof -
  have chain: "chain_inv st" using assms(1) by (simp add: world_inv_def)
  show "latest_row st oid = None"
  proof (rule ccontr)
    assume "latest_row st oid \<noteq> None"
    then obtain r where r: "latest_row st oid = Some r" by blast
    have "rr_revision r \<in> set (object_versions st oid)"
      using latest_row_Some [OF r] by (auto simp: object_versions_def rows_of_def)
    moreover have "contiguous (object_versions st oid)" using chain by (simp add: chain_inv_def)
    ultimately have "1 \<le> rr_revision r" using contiguous_set by auto
    with latest_row_next [OF chain r] assms(2) show False by simp
  qed
  then show "newest_object st oid = None" by (simp add: newest_object_def)
qed

lemma result_map_mem: "result_map f xs = Inr ys \<Longrightarrow> y \<in> set ys \<Longrightarrow> \<exists>x \<in> set xs. f x = Inr y"
  by (induction xs arbitrary: ys) auto

lemma subject_newest:
  assumes "world_inv zones st" and "subject_payloads st t subject = Inr ps" and "PayloadObject ob \<in> set ps"
  shows "newest_object st (wo_object_id ob) = Some ob"
proof -
  have "result_map (\<lambda>r. decode_payload ''corrupt_object_payload'' (rr_payload r))
      (sort_key rr_recorded_at (filter (selects (Some t) (Some subject)) (latest_rows st))) = Inr ps"
    using assms(2) by (simp add: subject_payloads_def list_payloads_def normalize_opt_def)
  from result_map_mem [OF this assms(3)] obtain r where "r \<in> set (latest_rows st)"
    "rr_payload r = PayloadObject ob" by (auto dest!: decoded)
  then have "newest_object st (rr_object_id r) = Some ob"
    using latest_rows_row [OF assms(1)] by (simp add: newest_object_def)
  then show ?thesis using newest_identity(1) [OF assms(1)] by metis
qed

lemma fresh_newest:
  assumes "\<And>oid. latest_row st' oid = (case List.find (\<lambda>ob. wo_object_id ob = oid) objs of
      Some ob \<Rightarrow> Some (content_row w ob) | None \<Rightarrow> latest_row st oid)"
  shows "newest_object st' oid = (case List.find (\<lambda>ob. wo_object_id ob = oid) objs of
      Some ob \<Rightarrow> Some (durable_object ob) | None \<Rightarrow> newest_object st oid)"
  using assms [of oid] by (simp add: newest_object_def split: option.splits)

lemma durable_object_idem: "durable_object (durable_object ob) = durable_object ob"
  by (cases "wo_body ob") (auto simp: durable_object_def durable_dict_idem option.map_comp comp_def split: option.splits)

lemma newest_durable:
  assumes "world_inv zones st" and "newest_object st oid = Some ob"
  shows "durable_object ob = ob"
proof -
  obtain r where r: "latest_row st oid = Some r" "rr_payload r = PayloadObject ob"
    using assms(2) by (auto simp: newest_object_def split: option.splits payload.splits)
  then have "payload_ok zones r" using assms(1) latest_row_Some [OF r(1)] by (auto simp: world_inv_def payload_inv_def)
  with r(2) show ?thesis by (cases "rr_revision_kind r") (auto simp: payload_ok_def durable_object_idem)
qed

end
