(* ===== verification/WakeFacts.thy ===== *)
theory WakeFacts
  imports WakeBus ServiceFacts Chains
begin

text \<open>
  What the bus guarantees: the exact rules of the step-0 gate, and the machine of one wake. The
  machine sees the newest version of a wake; every operation of the bus, on every branch, and
  every commit of other services that contains no wake is one of its changes.
\<close>

section \<open>Step 0\<close>

definition safety_pending :: "stored_wake \<Rightarrow> step0_input \<Rightarrow> bool" where
  "safety_pending x g \<longleftrightarrow> wak_wake_source (snd x) = WS_SAFETY \<and> \<not> s0_safety_action_complete g"

lemma blocked_sel [simp]:
  "s0_state (blocked k reason r) = S0_HARD_BLOCK"
  "s0_model_allowed (blocked k reason r) \<longleftrightarrow> k \<and> s0_model_allowed r"
  "s0_action_allowed (blocked k reason r) = False" "s0_delivery_allowed (blocked k reason r) = False"
  by (simp_all add: blocked_def)

definition quiet_of :: "step0_state \<Rightarrow> step0_state" where
  "quiet_of s = (if s \<in> {S0_HARD_BLOCK, S0_REVIEW_QUEUE} then s else S0_QUIET)"

lemma quiet_of_simps [simp]:
  "quiet_of S0_HARD_BLOCK = S0_HARD_BLOCK" "quiet_of S0_REVIEW_QUEUE = S0_REVIEW_QUEUE" "quiet_of S0_OK = S0_QUIET"
  "quiet_of S0_BACKGROUND = S0_QUIET" "quiet_of S0_QUIET = S0_QUIET"
  by (simp_all add: quiet_of_def)

lemma quieted_sel [simp]:
  "s0_state (quieted reason r) = quiet_of (s0_state r)"
  "s0_model_allowed (quieted reason r) = s0_model_allowed r"
  "s0_action_allowed (quieted reason r) = s0_action_allowed r" "s0_delivery_allowed (quieted reason r) = False"
  by (simp_all add: quieted_def quiet_of_def)

lemma step0_start_sel [simp]:
  "s0_state (step0_start a g) = (case a of AC_REVIEW_QUEUE \<Rightarrow> S0_REVIEW_QUEUE | AC_BACKGROUND \<Rightarrow> S0_BACKGROUND | AC_INTERRUPT \<Rightarrow> S0_OK)"
  "s0_model_allowed (step0_start a g) \<longleftrightarrow> a \<noteq> AC_REVIEW_QUEUE"
  "s0_action_allowed (step0_start a g) \<longleftrightarrow> a \<noteq> AC_REVIEW_QUEUE \<and> s0_external_action_allowed g"
  "s0_delivery_allowed (step0_start a g) \<longleftrightarrow> a = AC_INTERRUPT \<and> s0_user_delivery_allowed g"
  by (cases a; simp add: step0_start_def Let_def)+

lemmas step0_fields = if_distrib [of s0_model_allowed] if_distrib [of s0_action_allowed]
  if_distrib [of s0_delivery_allowed] if_distrib [of s0_state] if_distrib [of quiet_of]

lemmas step0_defs = evaluate_step0_def safety_pending_def Let_def step0_fields

lemma step0_model:
  "s0_model_allowed (evaluate_step0 env x (Some g)) \<longleftrightarrow>
     attention_class_for_wake env x \<noteq> AC_REVIEW_QUEUE \<and> s0_cognition_allowed g \<and> s0_budget_available g
     \<and> \<not> safety_pending x g"
  by (simp add: step0_defs)

lemma step0_action:
  "s0_action_allowed (evaluate_step0 env x (Some g)) \<longleftrightarrow>
     attention_class_for_wake env x \<noteq> AC_REVIEW_QUEUE \<and> s0_external_action_allowed g \<and> \<not> s0_hard_blocked g
     \<and> s0_cognition_allowed g \<and> s0_budget_available g \<and> \<not> safety_pending x g"
  by (simp add: step0_defs)

lemma step0_delivery:
  "s0_delivery_allowed (evaluate_step0 env x (Some g)) \<longleftrightarrow>
     attention_class_for_wake env x = AC_INTERRUPT \<and> s0_user_delivery_allowed g \<and> s0_channel_allowed g
     \<and> s0_convenience_allowed g \<and> \<not> s0_hard_blocked g
     \<and> s0_cognition_allowed g \<and> s0_budget_available g \<and> \<not> safety_pending x g"
  by (simp add: step0_defs)

lemma quiet_of_idem [simp]: "quiet_of (quiet_of s) = quiet_of s"
  by (cases s) simp_all

lemma state_chain:
  "s1 = (if safety then S0_HARD_BLOCK else s) \<Longrightarrow> s2 = (if hard then S0_HARD_BLOCK else s1) \<Longrightarrow>
   s3 = (if \<not> channel then quiet_of s2 else s2) \<Longrightarrow> s4 = (if \<not> cognition then S0_HARD_BLOCK else s3) \<Longrightarrow>
   s5 = (if \<not> budget then S0_HARD_BLOCK else if \<not> convenient then quiet_of s4 else s4) \<Longrightarrow>
   (if \<not> user then quiet_of s5 else s5) =
     (if hard \<or> \<not> cognition \<or> \<not> budget \<or> safety then S0_HARD_BLOCK
      else if \<not> channel \<or> \<not> convenient \<or> \<not> user then quiet_of s else s)"
  by simp

lemma state_other_fields:
  "s0_state (r\<lparr>s0_result_reasons := xs\<rparr>) = s0_state r" "s0_state (r\<lparr>s0_action_allowed := b\<rparr>) = s0_state r"
  by simp_all

lemma step0_state_of:
  "s0_state (evaluate_step0 env x (Some g)) =
     (if s0_hard_blocked g \<or> \<not> s0_cognition_allowed g \<or> \<not> s0_budget_available g \<or> safety_pending x g then S0_HARD_BLOCK
      else if attention_class_for_wake env x = AC_REVIEW_QUEUE then S0_REVIEW_QUEUE
      else if \<not> s0_channel_allowed g \<or> \<not> s0_convenience_allowed g \<or> \<not> s0_user_delivery_allowed g then S0_QUIET
      else if attention_class_for_wake env x = AC_BACKGROUND then S0_BACKGROUND else S0_OK)"
proof -
  let ?a = "attention_class_for_wake env x"
  let ?s = "s0_state (step0_start ?a g)"
  have "s0_state (evaluate_step0 env x (Some g)) =
     (if s0_hard_blocked g \<or> \<not> s0_cognition_allowed g \<or> \<not> s0_budget_available g \<or> safety_pending x g then S0_HARD_BLOCK
      else if \<not> s0_channel_allowed g \<or> \<not> s0_convenience_allowed g \<or> \<not> s0_user_delivery_allowed g then quiet_of ?s else ?s)"
    by (subst state_chain [OF refl refl refl refl refl, symmetric])
      (simp only: evaluate_step0_def Let_def option.case state_other_fields safety_pending_def
        if_distrib [of s0_state] blocked_sel quieted_sel if_cancel)
  then show ?thesis by (cases ?a) simp_all
qed

section \<open>Wakes in the store\<close>

definition wake_now :: "'h world_store \<Rightarrow> string \<Rightarrow> wake option" where
  "wake_now st oid = Option.bind (newest_object st oid) (\<lambda>ob. wake_body (wo_body ob))"

lemma wake_body_Some [simp]: "wake_body b = Some w \<longleftrightarrow> b = Wake w"
  by (cases b) (simp_all add: wake_body_def)

lemma wake_body_None: "(\<And>w. b \<noteq> Wake w) \<Longrightarrow> wake_body b = None"
  by (cases "wake_body b") auto

lemma read_wake_Inr: "read_wake env p = Inr x \<longleftrightarrow>
  p = PayloadObject (fst x) \<and> valid_object (sv_zones env) (fst x) \<and> wo_body (fst x) = Wake (snd x)"
  by (cases x) (simp add: read_wake_def validate_payload_as_Inr)

definition stored :: "'h world_store \<Rightarrow> stored_wake \<Rightarrow> bool" where
  "stored st x \<longleftrightarrow> newest_object st (wo_object_id (fst x)) = Some (fst x) \<and> wo_body (fst x) = Wake (snd x)"

lemma stored_now: "stored st x \<Longrightarrow> wake_now st (wo_object_id (fst x)) = Some (snd x)"
  by (simp add: stored_def wake_now_def)

lemma current_wake_stored:
  assumes "world_inv zones st" and "current_wake env subject wake_id st = Inr x"
  shows "stored st x" and "wo_object_id (fst x) = wake_id" and "wo_subject_id (fst x) = subject"
    and "valid_object (sv_zones env) (fst x)"
proof -
  have x: "read_payload st wake_id None = Inr (PayloadObject (fst x))" "wo_body (fst x) = Wake (snd x)"
    "wo_subject_id (fst x) = subject" "valid_object (sv_zones env) (fst x)"
    using assms(2) by (auto simp: current_wake_def read_wake_Inr split: if_splits)
  note ob = read_newest [OF x(1)]
  show "wo_object_id (fst x) = wake_id" using newest_identity(1) [OF assms(1) ob] .
  then show "stored st x" using ob x(2) by (simp add: stored_def)
  show "wo_subject_id (fst x) = subject" "valid_object (sv_zones env) (fst x)" by fact+
qed

lemma current_wakes_stored:
  assumes "world_inv zones st" and "current_wakes env subject st = Inr xs" and "x \<in> set xs"
  shows "stored st x"
proof -
  obtain ps where ps: "subject_payloads st OT_WAKE subject = Inr ps" "result_map (read_wake env) ps = Inr xs"
    using assms(2) by (auto simp: current_wakes_def)
  from result_map_mem [OF ps(2) assms(3)] have "PayloadObject (fst x) \<in> set ps" "wo_body (fst x) = Wake (snd x)"
    by (auto simp: read_wake_Inr)
  with subject_newest [OF assms(1) ps(1)] show ?thesis by (simp add: stored_def)
qed

section \<open>The machine of a wake\<close>

definition live :: "wake_state set" where
  "live = {WK_NEW, WK_QUEUED, WK_RUNNING}"

definition wake_moves :: "(wake_state \<times> wake_state) set" where
  "wake_moves = {(WK_NEW, WK_QUEUED), (WK_RUNNING, WK_QUEUED)}
     \<union> live \<times> {WK_RUNNING, WK_COMPLETED, WK_SUPPRESSED}"

definition hit_again :: "wake \<Rightarrow> wake \<Rightarrow> bool" where
  "hit_again w w' \<longleftrightarrow> utc_instant (wak_last_hit_at w) \<le> utc_instant (wak_last_hit_at w')
     \<and> wak_priority w \<le> wak_priority w' \<and> set (wak_evidence_refs w) \<subseteq> set (wak_evidence_refs w')
     \<and> w' = w\<lparr>wak_last_hit_at := wak_last_hit_at w', wak_hit_count := wak_hit_count w + 1,
         wak_priority := wak_priority w', wak_evidence_refs := wak_evidence_refs w'\<rparr>"

text \<open>A wake the bus created carries its rule and key without surrounding whitespace.\<close>

definition stripped_trigger :: "wake \<Rightarrow> bool" where
  "stripped_trigger w \<longleftrightarrow> (\<exists>r k. wak_rule_id w = Some (py_strip r) \<and> wak_dedupe_key w = Some (py_strip k))"

inductive wake_change :: "wake option \<Rightarrow> wake option \<Rightarrow> bool" where
  untouched: "wake_change v v"
| opened: "wak_wake_state w \<in> {WK_NEW, WK_SUPPRESSED} \<Longrightarrow> wak_hit_count w = 1 \<Longrightarrow> stripped_trigger w \<Longrightarrow>
    wake_change None (Some w)"
| counted: "pending w \<Longrightarrow> hit_again w w' \<Longrightarrow> wake_change (Some w) (Some w')"
| moved: "(wak_wake_state w, s) \<in> wake_moves \<Longrightarrow> wake_change (Some w) (Some (w\<lparr>wak_wake_state := s\<rparr>))"

inductive_cases wake_changeE: "wake_change v v'"

lemma live_moves: "(s, t) \<in> wake_moves \<Longrightarrow> s \<in> live"
  by (auto simp: wake_moves_def live_def)

lemma merge_refs_mem: "set old \<subseteq> set (merge_refs old new)"
proof (induction new arbitrary: old)
  case (Cons r new)
  show ?case using Cons [of "if r \<in> set old then old else old @ [r]"] by (auto simp: merge_refs_def)
qed (simp add: merge_refs_def)

subsection \<open>Commits of one wake\<close>

lemma committing_effect:
  assumes "world_inv (sv_zones env) st" and "committing env ck ob op receipt st = (r, st')"
  obtains (Same) "st' = st"
  | (Written) w h where "accepted (sv_zones env) (sv_digest env) [ob] op st w h"
      "\<And>oid. newest_object st' oid = (if wo_object_id ob = oid then Some (durable_object ob) else newest_object st oid)"
      "\<exists>c. r = Inr (receipt c)" "\<exists>c. submit env ck [ob] op st = (Inr c, st')"
proof (cases "submit env ck [ob] op st")
  case (Pair r' s)
  show ?thesis
  proof (cases r')
    case (Inl e)
    with Pair assms(2) submit_Inl [of env ck "[ob]" op st e s] show ?thesis
      by (intro Same) (simp add: committing_def)
  next
    case (Inr c)
    then have s: "s = st'" "r = Inr (receipt c)" using Pair assms(2) by (simp_all add: committing_def)
    from Pair Inr s(1) have "submit env ck [ob] op st = (Inr c, st')" by simp
    from assms(1) this show ?thesis
    proof (cases rule: submit_newest)
      case Replay
      then show ?thesis by (intro Same)
    next
      case (Fresh w h)
      show ?thesis
      proof (rule Written [OF Fresh(2)])
        fix oid
        show "newest_object st' oid = (if wo_object_id ob = oid then Some (durable_object ob) else newest_object st oid)"
          by (subst fresh_newest [where st = st, OF Fresh(5)]) simp
      qed (use s Pair Inr in auto)
    qed
  qed
qed

lemma wake_written:
  assumes "wo_body ob = Wake w"
    and "newest_object st' oid = (if wo_object_id ob = oid then Some (durable_object ob) else newest_object st oid)"
  shows "wake_now st' oid = (if wo_object_id ob = oid then Some w else wake_now st oid)"
  using assms by (simp add: wake_now_def durable_object_def)

subsection \<open>Moves\<close>

lemma plan_move_Becomes:
  assumes "plan_move env ck x moment s metadata name extra reason key expected = Inr t"
  obtains op where "t = Becomes (moved_wake x moment s metadata) op"
    "valid_object (sv_zones env) (moved_wake x moment s metadata)"
  using assms by (auto simp: plan_move_def validated_Inr)

lemma moved_wake_sel [simp]:
  "wo_object_id (moved_wake x moment s metadata) = wo_object_id (fst x)"
  "wo_revision (moved_wake x moment s metadata) = wo_revision (fst x) + 1"
  "wo_body (moved_wake x moment s metadata) = Wake ((snd x)\<lparr>wak_wake_state := s\<rparr>)"
  by (simp_all add: moved_wake_def next_wake_def)

text \<open>A plan of a transition: the wake is stored, and it moves along the machine.\<close>

definition sound_plan :: "'h world_store \<Rightarrow> wake_state \<Rightarrow> (service_error + transition) \<Rightarrow> bool" where
  "sound_plan st s plan \<longleftrightarrow> (case plan of
     Inr (Becomes ob op) \<Rightarrow> (\<exists>x moment metadata. stored st x \<and> (wak_wake_state (snd x), s) \<in> wake_moves
       \<and> ob = moved_wake x moment s metadata)
   | _ \<Rightarrow> True)"

lemma sound_bind: "(\<And>x. m = Inr x \<Longrightarrow> sound_plan st s (f x)) \<Longrightarrow> sound_plan st s (result_bind m f)"
  by (cases m) (simp_all add: sound_plan_def)

lemma sound_plan_move:
  assumes "world_inv zones st" and "current_wake env subject wake_id st = Inr x"
    and "(wak_wake_state (snd x), s) \<in> wake_moves"
  shows "sound_plan st s (plan_move env ck x moment s metadata name extra reason key expected)"
proof (cases "plan_move env ck x moment s metadata name extra reason key expected")
  case (Inr t)
  then obtain op where "t = Becomes (moved_wake x moment s metadata) op" by (rule plan_move_Becomes)
  with Inr current_wake_stored(1) [OF assms(1,2)] assms(3) show ?thesis
    by (simp add: sound_plan_def del: split_paired_Ex) blast
qed (simp add: sound_plan_def)

lemma sound_plans:
  assumes "world_inv zones st"
  shows "sound_plan st WK_RUNNING (plan_claim env ck subject wake_id at_time expected metadata st)"
    and "sound_plan st WK_QUEUED (plan_defer env ck subject wake_id at_time step0 st)"
    and "sound_plan st WK_QUEUED (plan_requeue env ck subject wake_id at_time why rounds next_round names s0 st)"
    and "target \<in> {WK_COMPLETED, WK_SUPPRESSED} \<Longrightarrow>
      sound_plan st target (plan_finish env ck subject wake_id at_time target metadata why st)"
proof -
  have fixed: "sound_plan st s (Inl e)" "sound_plan st s (Inr (Unchanged x))" for s e x
    by (simp_all add: sound_plan_def)
  note moves = sound_plan_move [OF assms]
  show "sound_plan st WK_RUNNING (plan_claim env ck subject wake_id at_time expected metadata st)"
    unfolding plan_claim_def by (intro sound_bind) (auto simp: fixed wake_moves_def live_def intro!: moves)
  show "sound_plan st WK_QUEUED (plan_defer env ck subject wake_id at_time step0 st)"
    unfolding plan_defer_def by (intro sound_bind) (auto simp: fixed wake_moves_def live_def intro!: moves)
  show "sound_plan st WK_QUEUED (plan_requeue env ck subject wake_id at_time why rounds next_round names s0 st)"
    unfolding plan_requeue_def
    by (auto simp: fixed wake_moves_def live_def intro!: moves sound_bind)
  show "sound_plan st target (plan_finish env ck subject wake_id at_time target metadata why st)"
    if "target \<in> {WK_COMPLETED, WK_SUPPRESSED}"
    unfolding plan_finish_def using that
    by (intro sound_bind) (auto simp: fixed wake_moves_def live_def intro!: moves)
qed

lemma perform_move_change:
  assumes inv: "world_inv (sv_zones env) st" and plan: "sound_plan st s plan"
    and run: "perform_move env ck s plan st = (r, st')"
  shows "wake_change (wake_now st oid) (wake_now st' oid)"
proof (cases plan)
  case (Inl e)
  with run show ?thesis by (simp add: perform_move_def untouched)
next
  case (Inr t)
  show ?thesis
  proof (cases t)
    case (Unchanged x)
    with Inr run show ?thesis by (simp add: perform_move_def untouched)
  next
    case (Becomes ob op)
    then obtain x moment metadata where x: "stored st x" "(wak_wake_state (snd x), s) \<in> wake_moves"
      "ob = moved_wake x moment s metadata"
      using plan Inr by (auto simp: sound_plan_def)
    have "\<exists>receipt. committing env ck ob op receipt st = (r, st')"
      using run Inr Becomes by (auto simp: perform_move_def)
    then obtain receipt where "committing env ck ob op receipt st = (r, st')" ..
    with inv show ?thesis
    proof (cases rule: committing_effect)
      case Same
      then show ?thesis by (simp add: untouched)
    next
      case (Written w h)
      have "wo_body ob = Wake ((snd x)\<lparr>wak_wake_state := s\<rparr>)" "wo_object_id ob = wo_object_id (fst x)"
        using x(3) by simp_all
      with wake_written [OF _ Written(2), of _ oid] stored_now [OF x(1)] moved [OF x(2)] show ?thesis
        by (auto simp: untouched)
    qed
  qed
qed

subsection \<open>Emissions\<close>

definition sound_emission :: "'h world_store \<Rightarrow> emission \<Rightarrow> bool" where
  "sound_emission st e \<longleftrightarrow> (case e of
     Counted x \<Rightarrow> stored st x
   | Merges x ob op \<Rightarrow> stored st x \<and> pending (snd x) \<and> wo_object_id ob = wo_object_id (fst x)
       \<and> (\<exists>w. wo_body ob = Wake w \<and> hit_again (snd x) w)
   | Suppresses i ob op \<Rightarrow> wo_object_id ob = i \<and> wo_revision ob = 1
       \<and> (\<exists>w. wo_body ob = Wake w \<and> wak_wake_state w = WK_SUPPRESSED \<and> wak_hit_count w = 1 \<and> stripped_trigger w)
   | Creates i ob op \<Rightarrow> wo_object_id ob = i \<and> wo_revision ob = 1
       \<and> (\<exists>w. wo_body ob = Wake w \<and> wak_wake_state w = WK_NEW \<and> wak_hit_count w = 1 \<and> stripped_trigger w))"

lemma first_wake_sel [simp]:
  "wo_object_id (first_wake subject i by_whom s q moment extra) = i"
  "wo_revision (first_wake subject i by_whom s q moment extra) = 1"
  "wo_body (first_wake subject i by_whom s q moment extra) = Wake \<lparr>wak_wake_source = wsr_wake_source q,
     wak_wake_state = s, wak_rule_id = Some (py_strip (wsr_rule_id q)), wak_first_hit_at = utc_datetime moment,
     wak_last_hit_at = utc_datetime moment, wak_hit_count = 1, wak_evidence_refs = wsr_evidence_refs q,
     wak_priority = wsr_priority q, wak_dedupe_key = Some (py_strip (wsr_dedupe_key q))\<rparr>"
  by (simp_all add: first_wake_def)

lemma merged_wake_sel [simp]:
  "wo_object_id (merged_wake env q i ids moment x) = wo_object_id (fst x)"
  "wo_revision (merged_wake env q i ids moment x) = wo_revision (fst x) + 1"
  "wo_body (merged_wake env q i ids moment x) = Wake ((snd x)\<lparr>wak_last_hit_at := utc_datetime moment,
     wak_hit_count := wak_hit_count (snd x) + 1, wak_priority := max (wak_priority (snd x)) (wsr_priority q),
     wak_evidence_refs := merge_refs (wak_evidence_refs (snd x)) (wsr_evidence_refs q)\<rparr>)"
  by (simp_all add: merged_wake_def next_wake_def Let_def)

lemma merged_hit: "last_hit x \<le> moment \<Longrightarrow> wo_body (merged_wake env q i ids moment x) = Wake w \<Longrightarrow> hit_again (snd x) w"
  using merge_refs_mem [of "wak_evidence_refs (snd x)" "wsr_evidence_refs q"]
  by (auto simp: hit_again_def last_hit_def utc_instant_def utc_datetime_def)

lemma prior_hit_mem: "prior_hit env i xs = Inr (Some x) \<Longrightarrow> x \<in> set xs"
  by (induction xs) (auto split: if_splits)

lemma same_scope_mem [simp]: "set (same_scope q xs) = {x \<in> set xs. in_scope q x}"
  by (simp add: same_scope_def)

text \<open>What a plan of an emission can be.\<close>

lemma plan_emission_cases:
  assumes "plan_emission env ck subject q st = Inr e"
  obtains moment i wakes prior where "as_utc (wsr_observed_at q) ''observed_at'' = Inr moment"
    "signal_id_of env subject q moment = Inr i" "current_wakes env subject st = Inr wakes"
    "prior_hit env i (rev (same_scope q wakes)) = Inr prior"
    and "(\<exists>x. prior = Some x \<and> e = Counted x)
      \<or> prior = None \<and> (\<exists>x ids op. last_option (same_scope q wakes) = Some x \<and> last_hit x \<le> moment \<and> pending (snd x)
          \<and> signal_ids env x = Inr ids \<and> e = Merges x (merged_wake env q i ids moment x) op
          \<and> valid_object (sv_zones env) (merged_wake env q i ids moment x))
      \<or> prior = None \<and> (\<exists>x wake_id op. last_option (same_scope q wakes) = Some x \<and> last_hit x \<le> moment
          \<and> in_cooldown q moment x
          \<and> e = Suppresses wake_id (first_wake subject wake_id ''wake_bus:cooldown'' WK_SUPPRESSED q moment
              (cooldown_metadata i q x)) op
          \<and> valid_object (sv_zones env) (first_wake subject wake_id ''wake_bus:cooldown'' WK_SUPPRESSED q moment
              (cooldown_metadata i q x)))
      \<or> prior = None \<and> (\<exists>wake_id op. (\<forall>x. last_option (same_scope q wakes) = Some x \<longrightarrow> last_hit x \<le> moment)
          \<and> hit_id env ''wake'' subject q moment = Inr wake_id
          \<and> e = Creates wake_id (first_wake subject wake_id ''wake_bus:trigger'' WK_NEW q moment
              [(''signal_ids'', PList [PStr i])]) op
          \<and> op_idempotency_key op = ''wake-create:'' @ wake_id
          \<and> world_revision_now st = Inr (op_expected_world_revision op)
          \<and> valid_object (sv_zones env) (first_wake subject wake_id ''wake_bus:trigger'' WK_NEW q moment
              [(''signal_ids'', PList [PStr i])]))"
proof -
  obtain moment i wakes prior us where
    step: "as_utc (wsr_observed_at q) ''observed_at'' = Inr moment"
      "result_map (validate_evidence subject st) (wsr_evidence_refs q) = Inr us"
      "signal_id_of env subject q moment = Inr i" "current_wakes env subject st = Inr wakes"
      "prior_hit env i (rev (same_scope q wakes)) = Inr prior"
    using assms by (auto simp: plan_emission_def Let_def)
  note rest = assms [unfolded plan_emission_def Let_def step result_bind_simps of_contract_def sum.case]
  show ?thesis
  proof (cases prior)
    case (Some x)
    show ?thesis by (rule that [OF step(1,3,4,5)]) (use rest Some in auto)
  next
    case None
    note rest = rest [unfolded None option.case]
    show ?thesis
    proof (cases "last_option (same_scope q wakes)")
      case none: None
      show ?thesis
        by (rule that [OF step(1,3,4,5)]) (use rest None none in \<open>auto simp: validated_Inr wake_operation_def service_request_def\<close>)
    next
      case (Some x)
      note rest = rest [unfolded Some option.case]
      show ?thesis
        by (rule that [OF step(1,3,4,5)])
          (use rest None Some in \<open>auto simp: validated_Inr not_less wake_operation_def service_request_def split: if_splits\<close>)
    qed
  qed
qed

lemma emission_sound:
  assumes "world_inv zones st" and "plan_emission env ck subject q st = Inr e"
  shows "sound_emission st e"
  using assms(2)
proof (cases rule: plan_emission_cases)
  case (1 moment i wakes prior)
  have scope: "x \<in> set wakes \<and> stored st x" if "x \<in> set (same_scope q wakes)" for x
    using that current_wakes_stored [OF assms(1) 1(3)] by simp
  have latest: "stored st x" if "last_option (same_scope q wakes) = Some x" for x
    using that scope [OF last_in_set] by (simp add: last_option_def split: if_splits)
  have "stored st x" if "prior = Some x" for x
    using prior_hit_mem 1(4) scope that by fastforce
  with 1(5) latest merged_hit show ?thesis
    by (elim disjE exE conjE) (auto simp: sound_emission_def stripped_trigger_def)
qed

lemma emission_change:
  assumes inv: "world_inv (sv_zones env) st" and run: "emit env ck subject q st = (r, st')"
  shows "wake_change (wake_now st oid) (wake_now st' oid)"
proof (cases "plan_emission env ck subject q st")
  case (Inl e)
  with run show ?thesis by (simp add: emit_def untouched)
next
  case (Inr e)
  note sound = emission_sound [OF inv Inr]
  have written: "wake_change (wake_now st oid) (wake_now st' oid)"
    if c: "committing env ck ob op receipt st = (r, st')" and b: "wo_body ob = Wake w"
      and "wo_revision ob = 1 \<Longrightarrow> wake_now st (wo_object_id ob) = None \<Longrightarrow> wake_change None (Some w)"
      and "wo_revision ob = 1 \<or> wake_change (wake_now st (wo_object_id ob)) (Some w)" for ob op receipt w
    using inv c
  proof (cases rule: committing_effect)
    case Same
    then show ?thesis by (simp add: untouched)
  next
    case (Written v h)
    have "wake_now st (wo_object_id ob) = None" if "wo_revision ob = 1"
    proof -
      have "next_version (object_versions st (wo_object_id ob)) = 1"
        using Written(1) that by (simp add: accepted_def check_revision_Inr)
      then show ?thesis using first_version_new(1) [OF inv] by (simp add: wake_now_def)
    qed
    with that(3,4) wake_written [OF b Written(2)] show ?thesis by (auto simp: untouched)
  qed
  show ?thesis
  proof (cases e)
    case (Counted x)
    with Inr run show ?thesis by (simp add: emit_def untouched)
  next
    case (Merges x ob op)
    then obtain w where w: "stored st x" "pending (snd x)" "wo_object_id ob = wo_object_id (fst x)"
      "wo_body ob = Wake w" "hit_again (snd x) w" using sound by (auto simp: sound_emission_def)
    show ?thesis
      by (rule written [OF _ w(4)]) (use Inr run Merges w stored_now [OF w(1)] counted in \<open>auto simp: emit_def\<close>)
  next
    case (Suppresses i ob op)
    then obtain w where "wo_body ob = Wake w" "wo_revision ob = 1" "wak_wake_state w = WK_SUPPRESSED" "wak_hit_count w = 1"
      "stripped_trigger w"       using sound by (auto simp: sound_emission_def)
    then show ?thesis
      by (intro written [of ob op]) (use Inr run Suppresses opened in \<open>auto simp: emit_def\<close>)
  next
    case (Creates i ob op)
    then obtain w where "wo_body ob = Wake w" "wo_revision ob = 1" "wak_wake_state w = WK_NEW" "wak_hit_count w = 1"
      "stripped_trigger w"       using sound by (auto simp: sound_emission_def)
    then show ?thesis
      by (intro written [of ob op]) (use Inr run Creates opened in \<open>auto simp: emit_def\<close>)
  qed
qed

section \<open>Runs of the bus\<close>

inductive bus_step :: "'h service_env \<Rightarrow> 'h world_store \<Rightarrow> 'h world_store \<Rightarrow> bool" for env where
  emits: "emit env ck subject q st = (r, st') \<Longrightarrow> bus_step env st st'"
| claims: "claim_wake env ck subject i t expected d st = (r', st') \<Longrightarrow> bus_step env st st'"
| defers: "defer_wake env ck subject i t step0 st = (r', st') \<Longrightarrow> bus_step env st st'"
| requeues: "requeue_runtime_incomplete env ck subject i t why n m names s0 st = (r', st') \<Longrightarrow> bus_step env st st'"
| completes: "complete_wake env ck subject i t why n names delivery s0 st = (r', st') \<Longrightarrow> bus_step env st st'"
| suppresses: "suppress_wake env ck subject i t step0 st = (r', st') \<Longrightarrow> bus_step env st st'"
| others: "commit (sv_zones env) (sv_digest env) now objs op st = (c, st') \<Longrightarrow>
    \<forall>ob \<in> set objs. wo_object_type ob \<noteq> OT_WAKE \<Longrightarrow> bus_step env st st'"

lemma committing_steps: "committing env ck ob op receipt st = (r, st') \<Longrightarrow> world_steps (sv_zones env) (sv_digest env) st st'"
  by (auto simp: committing_def split: prod.splits sum.splits intro: submit_step)

lemma perform_move_steps: "perform_move env ck s plan st = (r, st') \<Longrightarrow> world_steps (sv_zones env) (sv_digest env) st st'"
  by (auto simp: perform_move_def split: sum.splits transition.splits intro: committing_steps)

lemma emit_steps: "emit env ck subject q st = (r, st') \<Longrightarrow> world_steps (sv_zones env) (sv_digest env) st st'"
  by (auto simp: emit_def split: sum.splits emission.splits intro: committing_steps)

lemma bus_step_world: "bus_step env st st' \<Longrightarrow> world_steps (sv_zones env) (sv_digest env) st st'"
  by (induction rule: bus_step.induct)
    (auto simp: claim_wake_def defer_wake_def requeue_runtime_incomplete_def complete_wake_def suppress_wake_def
      intro: emit_steps perform_move_steps r_into_rtranclp step_commit)

lemma bus_step_inv: "world_inv (sv_zones env) st \<Longrightarrow> bus_step env st st' \<Longrightarrow> world_inv (sv_zones env) st'"
  using commits.steps_inv [OF bus_step_world] by blast

lemma other_commit_keeps:
  assumes inv: "world_inv (sv_zones env) st"
    and run: "commit (sv_zones env) (sv_digest env) now objs op st = (c, st')"
    and other: "\<forall>ob \<in> set objs. wo_object_type ob \<noteq> OT_WAKE"
  shows "wake_now st' oid = wake_now st oid"
proof (cases c)
  case (Inl e)
  with run commit_Inl show ?thesis by metis
next
  case (Inr r)
  from inv run [unfolded Inr] show ?thesis
  proof (cases rule: commit_newest)
    case Replay
    then show ?thesis by simp
  next
    case (Fresh w h)
    show ?thesis
    proof (cases "List.find (\<lambda>ob. wo_object_id ob = oid) objs")
      case None
      with fresh_newest [where st = st, OF Fresh(5), of oid] show ?thesis by (simp add: wake_now_def)
    next
      case (Some ob)
      then have ob: "ob \<in> set objs" "wo_object_id ob = oid" by (auto dest: find_Some_in)
      have "wo_body (durable_object ob) \<noteq> Wake v" for v
        using other ob(1) durable_object_fields(6) [of ob] by (auto simp: wo_object_type_def)
      then have "wake_now st' oid = None" using fresh_newest [where st = st, OF Fresh(5), of oid] Some
        by (auto simp: wake_now_def intro: wake_body_None)
      moreover have "wake_now st oid = None"
      proof (rule ccontr)
        assume "wake_now st oid \<noteq> None"
        then obtain x v where "newest_object st oid = Some x" "wo_body x = Wake v"
          by (auto simp: wake_now_def bind_eq_Some_conv)
        with newest_identity(3) [OF inv, of oid x] have "latest_object_type st oid = Some OT_WAKE"
          by (auto simp: latest_object_type_def wo_object_type_def)
        moreover have "latest_object_type st oid \<in> {None, Some (wo_object_type ob)}"
          using Fresh(2) ob by (auto simp: accepted_def check_revision_Inr)
        ultimately show False using other ob(1) by fastforce
      qed
      ultimately show ?thesis by simp
    qed
  qed
qed

lemma bus_step_change:
  assumes "world_inv (sv_zones env) st" and "bus_step env st st'"
  shows "wake_change (wake_now st oid) (wake_now st' oid)"
  using assms(2,1)
proof (induction rule: bus_step.induct)
  case (emits ck subject q st r st')
  then show ?case by (intro emission_change)
next
  case (claims ck subject i t expected d st r' st')
  then show ?case by (intro perform_move_change [OF _ sound_plans(1)]) (auto simp: claim_wake_def)
next
  case (defers ck subject i t step0 st r' st')
  then show ?case by (intro perform_move_change [OF _ sound_plans(2)]) (auto simp: defer_wake_def)
next
  case (requeues ck subject i t why n m names s0 st r' st')
  then show ?case by (intro perform_move_change [OF _ sound_plans(3)]) (auto simp: requeue_runtime_incomplete_def)
next
  case (completes ck subject i t why n names delivery s0 st r' st')
  then show ?case
    by (intro perform_move_change [OF _ sound_bind [OF sound_plans(4)]]) (auto simp: complete_wake_def)
next
  case (suppresses ck subject i t step0 st r' st')
  then show ?case
    by (intro perform_move_change [OF _ sound_bind [OF sound_plans(4)]]) (auto simp: suppress_wake_def)
next
  case (others now objs op st c st')
  then show ?case using other_commit_keeps [OF others(3,1,2)] by (simp add: untouched)
qed

interpretation bus: refined_machine wake_now wake_change "world_inv (sv_zones env)" "bus_step env"
  for env :: "'h service_env"
  by standard (fact bus_step_inv bus_step_change)+

text \<open>What never changes: the trigger of a wake; what only grows: its hits and priority.\<close>

definition same_trigger :: "wake \<Rightarrow> wake \<Rightarrow> bool" where
  "same_trigger w w' \<longleftrightarrow> wak_wake_source w' = wak_wake_source w \<and> wak_rule_id w' = wak_rule_id w
     \<and> wak_dedupe_key w' = wak_dedupe_key w \<and> wak_first_hit_at w' = wak_first_hit_at w
     \<and> wak_hit_count w \<le> wak_hit_count w' \<and> wak_priority w \<le> wak_priority w'
     \<and> set (wak_evidence_refs w) \<subseteq> set (wak_evidence_refs w')"

lemma hit_again_trigger:
  assumes "hit_again v u" and "same_trigger w v"
  shows "same_trigger w u"
proof -
  obtain t n e where u: "u = v\<lparr>wak_last_hit_at := t, wak_hit_count := wak_hit_count v + 1, wak_priority := n, wak_evidence_refs := e\<rparr>"
    "wak_priority v \<le> n" "set (wak_evidence_refs v) \<subseteq> set e"
    using assms(1) unfolding hit_again_def by metis
  show ?thesis using assms(2) u by (auto simp: same_trigger_def)
qed

lemma trigger_change:
  assumes "\<exists>w'. v = Some w' \<and> same_trigger w w'" and "wake_change v v'"
  shows "\<exists>w'. v' = Some w' \<and> same_trigger w w'"
proof -
  have state: "same_trigger w (u\<lparr>wak_wake_state := s\<rparr>) \<longleftrightarrow> same_trigger w u" for u s by (simp add: same_trigger_def)
  from assms(2,1) show ?thesis
    by (induction rule: wake_change.induct) (auto intro: hit_again_trigger simp: state)
qed

lemma trigger_kept:
  assumes "world_inv (sv_zones env) st" and "(bus_step env)\<^sup>*\<^sup>* st st'" and "wake_now st oid = Some w"
  shows "\<exists>w'. wake_now st' oid = Some w' \<and> same_trigger w w'"
  by (rule bus.steps_keep [OF assms(2,1), where P = "\<lambda>v. \<exists>w'. v = Some w' \<and> same_trigger w w'"])
    (use assms(3) trigger_change in \<open>auto simp: same_trigger_def\<close>)

lemma terminal_kept:
  assumes "world_inv (sv_zones env) st" and "(bus_step env)\<^sup>*\<^sup>* st st'"
    and "wake_now st oid = Some w" and "wak_wake_state w \<notin> live"
  shows "wake_now st' oid = Some w"
  by (rule bus.steps_keep [OF assms(2,1), where P = "\<lambda>v. v = Some w"])
    (use assms(3,4) in \<open>auto elim!: wake_changeE simp: pending_def live_def dest: live_moves\<close>)

text \<open>An evaluation of observation rules is a run of emissions.\<close>

lemma evaluate_rules_run:
  "evaluate_rules env ck n subject r ob b rules st = (x, st') \<Longrightarrow> (bus_step env)\<^sup>*\<^sup>* st st'"
proof (induction env ck n subject r ob b rules st arbitrary: x st' rule: evaluate_rules.induct)
  case (2 env ck n subject r ob b rule rules st)
  show ?case
  proof (cases "rule_matches ob b rule")
    case False
    with 2 show ?thesis by auto
  next
    case True
    show ?thesis
    proof (cases "rule_signal env subject r ob b rule")
      case (Inl e)
      with 2(3) True show ?thesis by simp
    next
      case (Inr q)
      obtain y s where e: "emit env (ck n) subject q st = (y, s)" by (cases "emit env (ck n) subject q st")
      then have first: "(bus_step env)\<^sup>*\<^sup>* st s" by (intro r_into_rtranclp emits)
      show ?thesis
      proof (cases y)
        case (Inl e')
        with 2(3) True Inr e first show ?thesis by simp
      next
        case y: (Inr receipt)
        obtain z t where rest: "evaluate_rules env ck (Suc n) subject r ob b rules s = (z, t)"
          by (cases "evaluate_rules env ck (Suc n) subject r ob b rules s")
        have "(bus_step env)\<^sup>*\<^sup>* s t" by (rule 2(2) [OF _ Inr e [symmetric] y rest]) (use True in simp)
        moreover have "t = st'" using 2(3) True Inr e y rest by (cases z) auto
        ultimately show ?thesis using first by simp
      qed
    qed
  qed
qed simp

lemma evaluate_observation_run:
  "evaluate_observation env ck subject r rules st = (x, st') \<Longrightarrow> (bus_step env)\<^sup>*\<^sup>* st st'"
  by (auto simp: evaluate_observation_def split: if_splits sum.splits prod.splits intro: evaluate_rules_run)

end
