(* ===== verification/WakeRetry.thy ===== *)
theory WakeRetry
  imports WakeFacts
begin

text \<open>
  Signals that are emitted again: what a commit leaves of the metadata, the wakes a read of the
  subject answers, and padded signals. A signal whose rule or key has surrounding whitespace is
  stored stripped and looked up as it came, so it is never found and its repeat conflicts.
\<close>

section \<open>Metadata\<close>

lemma dict_get_durable: "dict_get (durable_dict d) k = durable_value (dict_get d k)"
proof -
  have "map_of (map (map_prod id durable_value) d) k = map_option durable_value (map_of d k)"
    by (induction d) auto
  then show ?thesis by (simp add: dict_get_def durable_dict_def split: option.splits)
qed

lemma dict_update_Nil [simp]: "dict_update d [] = d"
  and dict_update_Cons [simp]: "dict_update d ((k, v) # new) = dict_update (dict_put k v d) new"
  by (simp_all add: dict_update_def)

lemma dict_get_update: "k \<notin> fst ` set new \<Longrightarrow> dict_get (dict_update d new) k = dict_get d k"
  by (induction new arbitrary: d) (auto simp: dict_get_put)

lemma first_wake_ids: "k \<notin> fst ` set extra \<Longrightarrow>
  dict_get (wo_metadata (first_wake subject i by_whom s q moment ((k, v) # extra))) k = v"
  by (simp add: first_wake_def dict_get_update dict_get_put)

lemma merged_wake_ids:
  "dict_get (wo_metadata (merged_wake env q i ids moment x)) ''signal_ids'' = PList (map PStr (ids @ [i]))"
  by (simp add: merged_wake_def next_wake_def Let_def dict_get_put)

lemma signal_ids_texts:
  assumes "dict_get (wo_metadata ob) ''signal_ids'' = PList (map PStr ids)"
  shows "signal_ids env (durable_object ob, w) = Inr ids"
proof -
  have "dict_get (wo_metadata (durable_object ob)) ''signal_ids'' = PList (map PStr ids)"
    using assms by (simp add: durable_object_def dict_get_durable comp_def)
  then show ?thesis by (simp add: signal_ids_def Let_def text_of_def comp_def)
qed

section \<open>The wakes of a subject\<close>

lemma valid_durable_wake:
  assumes "valid_object zones ob" and "wo_body ob = Wake w"
  shows "valid_object zones (durable_object ob)"
  using assms
  by (simp add: valid_object_def world_object_guards_def world_base_fields_def validate_times_def
      durable_object_def)

lemma result_map_total: "(\<And>x. x \<in> set xs \<Longrightarrow> \<exists>y. f x = Inr y) \<Longrightarrow> \<exists>ys. result_map f xs = Inr ys"
  by (induction xs) force+

lemma result_map_inv: "result_map f xs = Inr ys \<Longrightarrow> x \<in> set xs \<Longrightarrow> \<exists>y \<in> set ys. f x = Inr y"
  by (induction xs arbitrary: ys) auto

definition subject_rows :: "'h world_store \<Rightarrow> string \<Rightarrow> revision_row set" where
  "subject_rows st subject = {r. latest_row st (rr_object_id r) = Some r \<and> rr_object_type r = OT_WAKE
     \<and> rr_subject_id r = subject}"

lemma latest_rows_iff:
  assumes "world_inv zones st"
  shows "r \<in> set (latest_rows st) \<longleftrightarrow> latest_row st (rr_object_id r) = Some r"
proof
  assume "latest_row st (rr_object_id r) = Some r"
  with latest_row_Some [OF this] show "r \<in> set (latest_rows st)"
    by (auto simp: latest_rows_def latest_revision_iff)
qed (rule latest_rows_row [OF assms])

lemma current_wakes_iff:
  assumes "world_inv zones st"
  shows "(\<exists>xs. current_wakes env subject st = Inr xs) \<longleftrightarrow>
      (\<forall>r \<in> subject_rows st subject. \<exists>x. rr_payload r \<noteq> PayloadCorrupt \<and> read_wake env (rr_payload r) = Inr x)"
    and "current_wakes env subject st = Inr xs \<Longrightarrow>
      set xs = {x. \<exists>r \<in> subject_rows st subject. read_wake env (rr_payload r) = Inr x}"
proof -
  let ?rows = "sort_key rr_recorded_at (filter (selects (Some OT_WAKE) (Some subject)) (latest_rows st))"
  let ?get = "\<lambda>r. decode_payload ''corrupt_object_payload'' (rr_payload r)"
  have rows: "set ?rows = subject_rows st subject"
    using latest_rows_iff [OF assms] by (auto simp: subject_rows_def selects_def)
  have payloads: "subject_payloads st OT_WAKE subject = of_store (result_map ?get ?rows)"
    by (simp add: subject_payloads_def list_payloads_def normalize_opt_def)
  have get: "?get r = Inr p \<longleftrightarrow> rr_payload r = p \<and> p \<noteq> PayloadCorrupt" for r p
    by (cases "rr_payload r") (auto simp: decode_payload_def)
  show "(\<exists>xs. current_wakes env subject st = Inr xs) \<longleftrightarrow>
      (\<forall>r \<in> subject_rows st subject. \<exists>x. rr_payload r \<noteq> PayloadCorrupt \<and> read_wake env (rr_payload r) = Inr x)"
  proof
    assume "\<exists>xs. current_wakes env subject st = Inr xs"
    then obtain ps xs where ps: "result_map ?get ?rows = Inr ps" "result_map (read_wake env) ps = Inr xs"
      by (auto simp: current_wakes_def payloads)
    show "\<forall>r \<in> subject_rows st subject. \<exists>x. rr_payload r \<noteq> PayloadCorrupt \<and> read_wake env (rr_payload r) = Inr x"
    proof
      fix r assume "r \<in> subject_rows st subject"
      with rows have "r \<in> set ?rows" by blast
      from result_map_inv [OF ps(1) this] obtain p where "p \<in> set ps" "?get r = Inr p" by blast
      moreover from result_map_inv [OF ps(2) this(1)] obtain x where "read_wake env p = Inr x" by blast
      ultimately show "\<exists>x. rr_payload r \<noteq> PayloadCorrupt \<and> read_wake env (rr_payload r) = Inr x"
        by (simp add: get)
    qed
  next
    assume all: "\<forall>r \<in> subject_rows st subject. \<exists>x. rr_payload r \<noteq> PayloadCorrupt \<and> read_wake env (rr_payload r) = Inr x"
    then obtain ps where ps: "result_map ?get ?rows = Inr ps"
      using result_map_total [of ?rows ?get] by (metis get rows)
    have "\<exists>x. read_wake env p = Inr x" if p: "p \<in> set ps" for p
    proof -
      from result_map_mem [OF ps p] obtain r where r: "r \<in> set ?rows" "?get r = Inr p" by blast
      have "r \<in> subject_rows st subject" using r(1) unfolding rows .
      moreover have "rr_payload r = p" using r(2) unfolding get by simp
      ultimately show ?thesis using all by auto
    qed
    then obtain xs where "result_map (read_wake env) ps = Inr xs" using result_map_total [of ps "read_wake env"] by blast
    with ps show "\<exists>xs. current_wakes env subject st = Inr xs" by (simp add: current_wakes_def payloads)
  qed
  assume "current_wakes env subject st = Inr xs"
  then obtain ps where ps: "result_map ?get ?rows = Inr ps" "result_map (read_wake env) ps = Inr xs"
    by (auto simp: current_wakes_def payloads)
  show "set xs = {x. \<exists>r \<in> subject_rows st subject. read_wake env (rr_payload r) = Inr x}"
  proof (intro set_eqI iffI; clarsimp)
    fix a b assume "(a, b) \<in> set xs"
    then obtain p where p: "p \<in> set ps" "read_wake env p = Inr (a, b)" using result_map_mem [OF ps(2)] by blast
    from result_map_mem [OF ps(1) p(1)] obtain r where r: "r \<in> set ?rows" "?get r = Inr p" by blast
    have "r \<in> subject_rows st subject" using r(1) unfolding rows .
    moreover have "rr_payload r = p" using r(2) unfolding get by simp
    ultimately show "\<exists>r \<in> subject_rows st subject. read_wake env (rr_payload r) = Inr (a, b)" using p(2) by auto
  next
    fix r a b assume r: "r \<in> subject_rows st subject" "read_wake env (rr_payload r) = Inr (a, b)"
    then have "r \<in> set ?rows" using rows by blast
    from result_map_inv [OF ps(1) this] obtain p where p: "p \<in> set ps" "?get r = Inr p" by blast
    from result_map_inv [OF ps(2) p(1)] obtain y where "y \<in> set xs" "read_wake env p = Inr y" by blast
    moreover have "rr_payload r = p" using p(2) unfolding get by simp
    ultimately show "(a, b) \<in> set xs" using r(2) by simp
  qed
qed

section \<open>Padded signals\<close>

definition padded :: "wake_signal_request \<Rightarrow> bool" where
  "padded q \<longleftrightarrow> py_strip (wsr_rule_id q) \<noteq> wsr_rule_id q \<or> py_strip (wsr_dedupe_key q) \<noteq> wsr_dedupe_key q"

definition all_stripped :: "'h world_store \<Rightarrow> bool" where
  "all_stripped st \<longleftrightarrow> (\<forall>oid w. wake_now st oid = Some w \<longrightarrow> stripped_trigger w)"

lemma all_stripped_run:
  assumes "world_inv (sv_zones env) st" and "(bus_step env)\<^sup>*\<^sup>* st st'" and "all_stripped st"
  shows "all_stripped st'"
  unfolding all_stripped_def
proof (intro allI)
  fix oid w
  have "\<forall>w. wake_now st' oid = Some w \<longrightarrow> stripped_trigger w"
  proof (rule bus.steps_keep [OF assms(2,1), where P = "\<lambda>v. \<forall>w. v = Some w \<longrightarrow> stripped_trigger w"])
    fix v v' assume v: "\<forall>w. v = Some w \<longrightarrow> stripped_trigger w" and change: "wake_change v v'"
    have hit: "stripped_trigger w'" if "hit_again w w'" "stripped_trigger w" for w w'
    proof -
      have "wak_rule_id w' = wak_rule_id w \<and> wak_dedupe_key w' = wak_dedupe_key w"
        using hit_again_trigger [OF that(1), of w] by (simp add: same_trigger_def)
      with that(2) show ?thesis by (simp add: stripped_trigger_def)
    qed
    show "\<forall>w. v' = Some w \<longrightarrow> stripped_trigger w"
    proof -
      have state: "stripped_trigger (w\<lparr>wak_wake_state := s\<rparr>) = stripped_trigger w" for w s
        by (simp add: stripped_trigger_def)
      from change v show ?thesis by (cases rule: wake_change.cases) (auto intro: hit simp: state)
    qed
  qed (use assms(3) in \<open>simp add: all_stripped_def\<close>)
  then show "wake_now st' oid = Some w \<longrightarrow> stripped_trigger w" by blast
qed

lemma padded_out_of_scope:
  assumes "all_stripped st" and "padded q" and "stored st x"
  shows "\<not> in_scope q x"
proof
  assume "in_scope q x"
  moreover have "stripped_trigger (snd x)" using assms(1) stored_now [OF assms(3)] by (auto simp: all_stripped_def)
  ultimately show False using assms(2) by (auto simp: in_scope_def stripped_trigger_def padded_def py_strip_idem)
qed

lemma padded_creates:
  assumes "world_inv zones st" and "all_stripped st" and "padded q" and "plan_emission env ck subject q st = Inr e"
  obtains i ob op moment where "e = Creates i ob op" "as_utc (wsr_observed_at q) ''observed_at'' = Inr moment"
    "hit_id env ''wake'' subject q moment = Inr i" "op_idempotency_key op = ''wake-create:'' @ i"
    "world_revision_now st = Inr (op_expected_world_revision op)"
  using assms(4)
proof (cases rule: plan_emission_cases)
  case (1 moment i wakes prior)
  have "same_scope q wakes = []"
    using padded_out_of_scope [OF assms(2,3)] current_wakes_stored [OF assms(1) 1(3)]
    by (simp add: filter_empty_conv same_scope_def)
  with 1(4) have "prior = None" "last_option (same_scope q wakes) = None" by (simp_all add: last_option_def)
  with 1(1,5) that show ?thesis by auto
qed

lemma world_revision_clock:
  assumes "world_inv zones st"
  shows "world_revision_now st = Inr (world_clock st)"
  using assms clock_revision(1) [of st]
  by (simp add: world_revision_now_def current_world_revision_def world_inv_def world_clock_def)

lemma bus_steps_world:
  assumes "(bus_step env)\<^sup>*\<^sup>* st st'"
  shows "world_steps (sv_zones env) (sv_digest env) st st'"
  using assms by (induction rule: rtranclp_induct) (auto dest: bus_step_world)

text \<open>A padded signal that is emitted again, right away or after any run of the bus, raises.\<close>

lemma padded_retry_fails:
  assumes inv: "world_inv (sv_zones env) st" and "all_stripped st" and "padded q" and "inj (sv_digest env)"
    and first: "emit env ck subject q st = (Inr r, st')" and new: "st' \<noteq> st"
    and later: "(bus_step env)\<^sup>*\<^sup>* st' st''"
  shows "\<exists>e. emit env ck' subject q st'' = (Inl e, st'')"
proof -
  have step: "bus_step env st st'" using first by (rule emits)
  have inv': "world_inv (sv_zones env) st'" by (rule bus_step_inv [OF inv step])
  have inv'': "world_inv (sv_zones env) st''" by (rule bus.steps_inv [OF later inv'])
  have "(bus_step env)\<^sup>*\<^sup>* st st''" using step later by simp
  then have stripped: "all_stripped st''" by (rule all_stripped_run [OF inv _ assms(2)])
  have world: "world_steps (sv_zones env) (sv_digest env) st' st''" using later by (rule bus_steps_world)
  obtain e where plan: "plan_emission env ck subject q st = Inr e"
    using first by (cases "plan_emission env ck subject q st") (simp_all add: emit_def)
  obtain i ob op moment where e: "e = Creates i ob op" "as_utc (wsr_observed_at q) ''observed_at'' = Inr moment"
    "hit_id env ''wake'' subject q moment = Inr i" "op_idempotency_key op = ''wake-create:'' @ i"
    "world_revision_now st = Inr (op_expected_world_revision op)"
    by (rule padded_creates [OF inv assms(2,3) plan])
  obtain c where c: "submit env ck [ob] op st = (Inr c, st')"
    using first plan e(1) by (auto simp: emit_def committing_def split: prod.splits sum.splits)
  from inv c have fresh: "get_idempotent_result (sv_zones env) (sv_digest env) op [ob] st = Inr None"
    by (cases rule: submit_newest) (use new in auto)
  have run: "commit (sv_zones env) (sv_digest env) (ck_now ck) [ob] op st = (Inr c, st')"
    by (cases rule: submit_cases [of env ck "[ob]" op st]) (use c in auto)
  show ?thesis
  proof (cases "plan_emission env ck' subject q st''")
    case (Inl e')
    then show ?thesis by (simp add: emit_def)
  next
    case (Inr e')
    obtain i' ob' op' moment' where e': "e' = Creates i' ob' op'" "as_utc (wsr_observed_at q) ''observed_at'' = Inr moment'"
      "hit_id env ''wake'' subject q moment' = Inr i'" "op_idempotency_key op' = ''wake-create:'' @ i'"
      "world_revision_now st'' = Inr (op_expected_world_revision op')"
      by (rule padded_creates [OF inv'' stripped assms(3) Inr])
    have key: "op_idempotency_key op' = op_idempotency_key op" using e(2-4) e'(2-4) by simp
    have "op_expected_world_revision op < op_expected_world_revision op'"
      using fresh_commit_advances(1,3) [OF run inv fresh] commits.steps_log [OF world inv'] e'(5)
        world_revision_clock [OF inv''] by simp
    then have other: "request_identity_of op' [ob'] \<noteq> request_identity_of op [ob]"
      by (auto simp: request_identity_of_def)
    obtain reason where "commit (sv_zones env) (sv_digest env) (ck_now ck') [ob'] op' st''
        = (Inl (StoreError EC_IDEMPOTENCY_CONFLICT reason), st'')"
      using other_request_conflicts [OF run inv fresh world key _ other assms(4)] by auto
    moreover obtain y s where y: "submit env ck' [ob'] op' st'' = (y, s)" by (cases "submit env ck' [ob'] op' st''")
    ultimately obtain e'' where "submit env ck' [ob'] op' st'' = (Inl e'', st'')"
      by (cases rule: submit_cases [of env ck' "[ob']" op' st'']) auto
    with Inr e'(1) show ?thesis by (simp add: emit_def committing_def)
  qed
qed

section \<open>Retries\<close>

lemma prior_hit_None:
  "prior_hit env i xs = Inr None \<Longrightarrow> x \<in> set xs \<Longrightarrow> \<exists>ids. signal_ids env x = Inr ids \<and> i \<notin> set ids"
  by (induction xs) (auto split: if_splits)

lemma prior_hit_found:
  assumes "\<And>y. y \<in> set xs \<Longrightarrow> \<exists>ids. signal_ids env y = Inr ids \<and> (i \<in> set ids \<longleftrightarrow> y = z)" and "z \<in> set xs"
  shows "prior_hit env i xs = Inr (Some z)"
  using assms
proof (induction xs)
  case (Cons y ys)
  obtain ids where ids: "signal_ids env y = Inr ids" "i \<in> set ids \<longleftrightarrow> y = z" using Cons(2) [of y] by auto
  show ?case
  proof (cases "y = z")
    case False
    then have "prior_hit env i ys = Inr (Some z)" using Cons by (intro Cons.IH) auto
    with ids False show ?thesis by simp
  qed (use ids in simp)
qed simp

lemma exact_read_stays:
  assumes "world_inv zones st" and "world_inv zones st'" and "ws_revisions st' = ws_revisions st @ new"
    and "read_payload st oid (Some v) = Inr p"
  shows "read_payload st' oid (Some v) = Inr p"
proof -
  have chain: "distinct (map row_key (ws_revisions st'))"
    using assms(2) rows_distinct by (auto simp: world_inv_def)
  let ?P = "\<lambda>n r. rr_object_id r = oid \<and> rr_revision r = n"
  obtain n where n: "normalize_query_integer v = Inr n"
    using assms(4) by (auto simp: read_payload_def get_payload_def normalize_opt_def)
  have old: "filter (?P n) (ws_revisions st) \<noteq> []"
    using assms(4) n
    by (auto simp: read_payload_def get_payload_def normalize_opt_def visible_def latest_by_None [THEN iffD2])
  then obtain q where "q \<in> set (ws_revisions st)" "?P n q" by (auto simp: filter_empty_conv)
  then have "filter (?P n) new = []"
    using chain assms(3) by (fastforce simp: filter_empty_conv row_key_def distinct_map inj_on_def)
  with assms(3,4) n show ?thesis
    by (simp add: read_payload_def get_payload_def normalize_opt_def visible_def)
qed

lemma evidence_stays:
  assumes "world_inv zones st" and "world_inv zones st'" and "ws_revisions st' = ws_revisions st @ new"
    and "validate_evidence subject st r = Inr ()"
  shows "validate_evidence subject st' r = Inr ()"
  using assms(4) exact_read_stays [OF assms(1-3)]
  by (auto simp: validate_evidence_def split: if_splits)

end
