(* ===== verification/WakeRepeats.thy ===== *)
theory WakeRepeats
  imports WakeRetry
begin

text \<open>
  A counted signal stays counted. The wake that counted a signal carries its id in the metadata
  and no other wake of the scope does; emissions, moves and commits of other services keep that,
  so the same signal emitted again at any later time answers this wake and writes nothing.
\<close>

section \<open>The wakes of a subject after one commit\<close>

lemma current_wakes_row:
  assumes "world_inv zones st" and "current_wakes env subject st = Inr wakes" and "y \<in> set wakes"
  obtains r where "r \<in> subject_rows st subject" "read_wake env (rr_payload r) = Inr y"
    "rr_object_id r = wo_object_id (fst y)" "wo_subject_id (fst y) = subject" "stored st y"
proof -
  obtain r where r: "r \<in> subject_rows st subject" "read_wake env (rr_payload r) = Inr y"
    using assms(3) unfolding current_wakes_iff(2) [OF assms(1,2)] mem_Collect_eq by (rule bexE)
  have "payload_ok zones r"
    using r(1) assms(1) latest_row_Some by (fastforce simp: subject_rows_def world_inv_def payload_inv_def)
  with r have "wo_subject_id (fst y) = subject" "rr_object_id r = wo_object_id (fst y)"
    by (cases "rr_revision_kind r"; auto simp: payload_ok_def read_wake_Inr subject_rows_def object_key_def row_key_def)+
  with r current_wakes_stored [OF assms] that show ?thesis by blast
qed

lemma stored_wake_listed:
  assumes "world_inv zones st" and "current_wakes env subject st = Inr wakes" and "stored st x"
    and "valid_object (sv_zones env) (fst x)" and "wo_subject_id (fst x) = subject"
  shows "x \<in> set wakes"
proof -
  obtain r where r: "latest_row st (wo_object_id (fst x)) = Some r" "rr_payload r = PayloadObject (fst x)"
    "rr_object_type r = wo_object_type (fst x)"
    using newest_identity(3) [OF assms(1)] assms(3) unfolding stored_def by blast
  have mem: "r \<in> set (ws_revisions st)" "rr_object_id r = wo_object_id (fst x)" using latest_row_Some [OF r(1)] by auto
  then have "payload_ok zones r" using assms(1) by (simp add: world_inv_def payload_inv_def)
  with r(2) assms(5) have "rr_subject_id r = subject"
    by (cases "rr_revision_kind r") (auto simp: payload_ok_def)
  with r mem(2) assms(3) have "r \<in> subject_rows st subject" by (simp add: subject_rows_def stored_def wo_object_type_def)
  moreover have "read_wake env (rr_payload r) = Inr x"
    using r(2) assms(3,4) by (simp add: read_wake_Inr stored_def)
  ultimately show ?thesis unfolding current_wakes_iff(2) [OF assms(1,2)] by blast
qed

lemma stored_unique:
  assumes "stored st x" and "stored st y" and "wo_object_id (fst x) = wo_object_id (fst y)"
  shows "x = y"
proof -
  have "newest_object st (wo_object_id (fst x)) = Some (fst x)" using assms(1) unfolding stored_def ..
  moreover have "newest_object st (wo_object_id (fst x)) = Some (fst y)"
    using assms(2) unfolding stored_def assms(3) ..
  ultimately have same: "fst x = fst y" by (rule trans [OF sym, THEN option.inject [THEN iffD1]])
  have "wo_body (fst x) = Wake (snd x)" using assms(1) unfolding stored_def ..
  moreover have "wo_body (fst x) = Wake (snd y)" using assms(2) unfolding stored_def same ..
  ultimately have "Wake (snd x) = Wake (snd y)" by (rule trans [OF sym])
  with same show ?thesis by (intro prod_eqI) simp_all
qed

text \<open>One new version of a wake: it takes the place of the old one.\<close>

definition newest_replaced :: "'h world_store \<Rightarrow> world_object \<Rightarrow> 'h world_store \<Rightarrow> bool" where
  "newest_replaced st ob st' \<longleftrightarrow> (\<exists>v. \<forall>oid. latest_row st' oid =
     (if wo_object_id ob = oid then Some (content_row v ob) else latest_row st oid))"

lemma wakes_replaced:
  assumes inv: "world_inv zones st" and inv': "world_inv zones st'" and "newest_replaced st ob st'"
    and ob: "valid_object (sv_zones env) ob" "wo_body ob = Wake w"
    and wakes: "current_wakes env subject st = Inr wakes"
  obtains wakes' where "current_wakes env subject st' = Inr wakes'"
    "set wakes' = {y \<in> set wakes. wo_object_id (fst y) \<noteq> wo_object_id ob}
       \<union> {y. y = (durable_object ob, w) \<and> wo_subject_id ob = subject}"
proof -
  obtain v where v: "\<And>oid. latest_row st' oid = (if wo_object_id ob = oid then Some (content_row v ob) else latest_row st oid)"
    using assms(3) by (auto simp: newest_replaced_def)
  let ?z = "(durable_object ob, w)" and ?r = "content_row v ob"
  have z: "read_wake env (rr_payload ?r) = Inr ?z"
    using ob valid_durable_wake [of "sv_zones env" ob w] by (simp add: read_wake_Inr durable_object_def)
  have rows: "subject_rows st' subject = {r \<in> subject_rows st subject. rr_object_id r \<noteq> wo_object_id ob}
      \<union> {r. r = ?r \<and> wo_subject_id ob = subject}"
    using ob(2) by (auto simp: subject_rows_def v wo_object_type_def split: if_splits)
  have "\<exists>x. rr_payload r \<noteq> PayloadCorrupt \<and> read_wake env (rr_payload r) = Inr x" if "r \<in> subject_rows st' subject" for r
    using that z wakes current_wakes_iff(1) [OF inv, of env subject] by (auto simp: rows)
  then obtain wakes' where wakes': "current_wakes env subject st' = Inr wakes'"
    using current_wakes_iff(1) [OF inv', of env subject] by blast
  have id: "rr_object_id r = wo_object_id (fst y)" if "r \<in> subject_rows st subject" "read_wake env (rr_payload r) = Inr y" for r y
  proof -
    have "newest_object st (rr_object_id r) = Some (fst y)"
      using that by (simp add: subject_rows_def newest_object_def read_wake_Inr)
    then show ?thesis using newest_identity(1) [OF inv] by metis
  qed
  have "set wakes' = {y \<in> set wakes. wo_object_id (fst y) \<noteq> wo_object_id ob} \<union> {y. y = ?z \<and> wo_subject_id ob = subject}"
    unfolding current_wakes_iff(2) [OF inv' wakes'] current_wakes_iff(2) [OF inv wakes] rows
    using z id by (auto simp del: content_row_simps)
  with wakes' that show ?thesis by blast
qed

lemma committing_replaces:
  assumes "world_inv (sv_zones env) st" and "committing env ck ob op receipt st = (r, st')"
  obtains "st' = st"
  | w h where "accepted (sv_zones env) (sv_digest env) [ob] op st w h" "newest_replaced st ob st'"
proof (cases "submit env ck [ob] op st")
  case (Pair r' s)
  then have s: "s = st'" using assms(2) by (cases r') (auto simp: committing_def)
  show ?thesis
  proof (cases r')
    case (Inl e)
    with Pair have "s = st" by (intro submit_Inl [of env ck "[ob]" op]) simp
    with s show ?thesis by (intro that(1)) simp
  next
    case (Inr c)
    with Pair s have "submit env ck [ob] op st = (Inr c, st')" by simp
    with assms(1) show ?thesis
    proof (cases rule: submit_newest)
      case (Fresh w h)
      then show ?thesis by (intro that(2)) (auto simp: newest_replaced_def)
    qed (use that(1) in simp)
  qed
qed

section \<open>What an emission writes\<close>

section \<open>What an emission writes\<close>

text \<open>
  A wake of the subject, in the scope of the signal, whose ids are those of the wake it replaces
  and the id of the signal.
\<close>

definition carries :: "'h service_env \<Rightarrow> string \<Rightarrow> wake_signal_request \<Rightarrow> string \<Rightarrow> string list
    \<Rightarrow> world_object \<Rightarrow> wake \<Rightarrow> bool" where
  "carries env subject q i ids ob w \<longleftrightarrow> valid_object (sv_zones env) ob \<and> wo_body ob = Wake w \<and> wo_subject_id ob = subject
     \<and> in_scope q (durable_object ob, w) \<and> signal_ids env (durable_object ob, w) = Inr (ids @ [i])"

lemma first_wake_carries:
  assumes "valid_object (sv_zones env) (first_wake subject j by_whom s q moment ((''signal_ids'', PList [PStr i]) # extra))"
    and "''signal_ids'' \<notin> fst ` set extra" and "\<not> padded q"
  shows "\<exists>w. carries env subject q i [] (first_wake subject j by_whom s q moment ((''signal_ids'', PList [PStr i]) # extra)) w"
proof -
  let ?ob = "first_wake subject j by_whom s q moment ((''signal_ids'', PList [PStr i]) # extra)"
  have "dict_get (wo_metadata ?ob) ''signal_ids'' = PList (map PStr [i])"
    using first_wake_ids [OF assms(2)] by simp
  from signal_ids_texts [OF this] have ids: "signal_ids env (durable_object ?ob, w) = Inr [i]" for w .
  have "wo_subject_id ?ob = subject" by (simp add: first_wake_def)
  with assms(1,3) show ?thesis by (simp add: carries_def in_scope_def padded_def ids)
qed

lemma emission_writes:
  assumes inv: "world_inv (sv_zones env) st" and "\<not> padded q" and plan: "plan_emission env ck subject q st = Inr e"
  obtains (Counted) x where "e = Counted x"
  | (Writes) moment i wakes ids ob op w receipt where "as_utc (wsr_observed_at q) ''observed_at'' = Inr moment"
      "signal_id_of env subject q moment = Inr i" "current_wakes env subject st = Inr wakes"
      "prior_hit env i (rev (same_scope q wakes)) = Inr None" "carries env subject q i ids ob w"
      "ids = [] \<and> wo_revision ob = 1 \<or> (\<exists>x \<in> set wakes. in_scope q x \<and> signal_ids env x = Inr ids
         \<and> wo_object_id ob = wo_object_id (fst x))"
      "emit env ck subject q st = committing env ck ob op receipt st" "\<And>c. wr_wake_id (receipt c) = wo_object_id ob"
  using plan
proof (cases rule: plan_emission_cases)
  case (1 moment i wakes prior)
  note W = Writes [OF 1(1-3)]
  from 1(5) show ?thesis
  proof (elim disjE exE conjE)
    fix x assume "e = Counted x"
    then show ?thesis by (rule Counted)
  next
    fix x ids op assume x: "prior = None" "last_option (same_scope q wakes) = Some x" "signal_ids env x = Inr ids"
      "e = Merges x (merged_wake env q i ids moment x) op" "valid_object (sv_zones env) (merged_wake env q i ids moment x)"
    let ?ob = "merged_wake env q i ids moment x"
    have "x \<in> set (same_scope q wakes)"
      using x(2) last_in_set [of "same_scope q wakes"] by (simp add: last_option_def split: if_splits)
    then have mem: "x \<in> set wakes" "in_scope q x" by simp_all
    have found: "\<exists>y \<in> set wakes. in_scope q y \<and> signal_ids env y = Inr ids \<and> wo_object_id (fst x) = wo_object_id (fst y)"
      using mem x(3) by blast
    from inv 1(3) mem(1) have "wo_subject_id (fst x) = subject" by (rule current_wakes_row)
    then have subject: "wo_subject_id ?ob = subject" by (simp add: merged_wake_def next_wake_def Let_def)
    have "carries env subject q i ids ?ob ((snd x)\<lparr>wak_last_hit_at := utc_datetime moment,
       wak_hit_count := wak_hit_count (snd x) + 1, wak_priority := max (wak_priority (snd x)) (wsr_priority q),
       wak_evidence_refs := merge_refs (wak_evidence_refs (snd x)) (wsr_evidence_refs q)\<rparr>)"
      using x(5) subject mem(2) by (simp add: carries_def in_scope_def signal_ids_texts [OF merged_wake_ids])
    then show ?thesis
      by (rule W [rotated, where op = op and receipt = "\<lambda>c. signal_receipt (wo_object_id ?ob) (wo_revision ?ob)
          (wak_wake_state (snd x)) (cr_world_revision c) True False"])
        (use 1(4) x(1,4) found plan in \<open>simp_all add: emit_def signal_receipt_def\<close>)
  next
    fix x j op assume x: "prior = None"
      "e = Suppresses j (first_wake subject j ''wake_bus:cooldown'' WK_SUPPRESSED q moment (cooldown_metadata i q x)) op"
      "valid_object (sv_zones env) (first_wake subject j ''wake_bus:cooldown'' WK_SUPPRESSED q moment (cooldown_metadata i q x))"
    have "\<exists>w. carries env subject q i [] (first_wake subject j ''wake_bus:cooldown'' WK_SUPPRESSED q moment (cooldown_metadata i q x)) w"
      unfolding cooldown_metadata_def
      by (rule first_wake_carries [OF x(3) [unfolded cooldown_metadata_def] _ assms(2)]) simp
    then obtain w where "carries env subject q i [] (first_wake subject j ''wake_bus:cooldown'' WK_SUPPRESSED q moment (cooldown_metadata i q x)) w" ..
    then show ?thesis
      by (rule W [rotated, where op = op and receipt = "\<lambda>c. signal_receipt j 1 WK_SUPPRESSED (cr_world_revision c) False True"])
        (use 1(4) x(1,2) plan in \<open>simp_all add: emit_def signal_receipt_def\<close>)
  next
    fix j op assume x: "prior = None"
      "e = Creates j (first_wake subject j ''wake_bus:trigger'' WK_NEW q moment [(''signal_ids'', PList [PStr i])]) op"
      "valid_object (sv_zones env) (first_wake subject j ''wake_bus:trigger'' WK_NEW q moment [(''signal_ids'', PList [PStr i])])"
    have "\<exists>w. carries env subject q i [] (first_wake subject j ''wake_bus:trigger'' WK_NEW q moment [(''signal_ids'', PList [PStr i])]) w"
      by (rule first_wake_carries [OF x(3) _ assms(2)]) simp
    then obtain w where "carries env subject q i [] (first_wake subject j ''wake_bus:trigger'' WK_NEW q moment [(''signal_ids'', PList [PStr i])]) w" ..
    then show ?thesis
      by (rule W [rotated, where op = op and receipt = "\<lambda>c. signal_receipt j 1 WK_NEW (cr_world_revision c) False False"])
        (use 1(4) x(1,2) plan in \<open>simp_all add: emit_def signal_receipt_def\<close>)
  qed
qed

section \<open>A counted signal\<close>

text \<open>
  In the scope of the signal one wake carries its id; the ids of every wake of the scope can be read.
\<close>

definition counted_by :: "'h service_env \<Rightarrow> string \<Rightarrow> wake_signal_request \<Rightarrow> string \<Rightarrow> string \<Rightarrow> 'h world_store \<Rightarrow> bool" where
  "counted_by env subject q i wake_id st \<longleftrightarrow> (\<exists>wakes. current_wakes env subject st = Inr wakes
     \<and> (\<exists>z \<in> set wakes. in_scope q z \<and> wo_object_id (fst z) = wake_id)
     \<and> (\<forall>y \<in> set wakes. in_scope q y \<longrightarrow>
          (\<exists>ids. signal_ids env y = Inr ids \<and> (i \<in> set ids \<longleftrightarrow> wo_object_id (fst y) = wake_id))))"

lemma counted_replaced:
  assumes inv: "world_inv (sv_zones env) st" and inv': "world_inv (sv_zones env) st'"
    and counted: "counted_by env subject q i wake_id st" and "newest_replaced st ob st'"
    and "valid_object (sv_zones env) ob" "wo_body ob = Wake w"
    and ids: "wo_subject_id ob = subject \<Longrightarrow> in_scope q (durable_object ob, w) \<Longrightarrow>
      \<exists>ids. signal_ids env (durable_object ob, w) = Inr ids \<and> (i \<in> set ids \<longleftrightarrow> wo_object_id ob = wake_id)"
    and same: "wo_object_id ob = wake_id \<Longrightarrow> wo_subject_id ob = subject \<and> in_scope q (durable_object ob, w)"
  shows "counted_by env subject q i wake_id st'"
proof -
  obtain wakes z where wakes: "current_wakes env subject st = Inr wakes"
    and z: "z \<in> set wakes" "in_scope q z" "wo_object_id (fst z) = wake_id"
    and all: "\<forall>y \<in> set wakes. in_scope q y \<longrightarrow>
      (\<exists>ids. signal_ids env y = Inr ids \<and> (i \<in> set ids \<longleftrightarrow> wo_object_id (fst y) = wake_id))"
    using counted unfolding counted_by_def by blast
  obtain wakes' where wakes': "current_wakes env subject st' = Inr wakes'"
    and mem: "set wakes' = {y \<in> set wakes. wo_object_id (fst y) \<noteq> wo_object_id ob}
       \<union> {y. y = (durable_object ob, w) \<and> wo_subject_id ob = subject}"
    by (rule wakes_replaced [OF inv inv' assms(4-6) wakes])
  have "\<exists>z \<in> set wakes'. in_scope q z \<and> wo_object_id (fst z) = wake_id"
  proof (cases "wo_object_id ob = wake_id")
    case True
    with same have "(durable_object ob, w) \<in> set wakes'" "in_scope q (durable_object ob, w)" by (simp_all add: mem)
    with True show ?thesis by (intro bexI [of _ "(durable_object ob, w)"]) simp_all
  next
    case False
    with z have "z \<in> set wakes'" by (auto simp: mem)
    with z show ?thesis by blast
  qed
  moreover have "\<exists>ids. signal_ids env y = Inr ids \<and> (i \<in> set ids \<longleftrightarrow> wo_object_id (fst y) = wake_id)"
    if "y \<in> set wakes'" "in_scope q y" for y
  proof (cases "y = (durable_object ob, w) \<and> wo_subject_id ob = subject")
    case True
    then show ?thesis using ids that(2) by auto
  next
    case False
    with that(1) have "y \<in> set wakes" unfolding mem by blast
    with all that(2) show ?thesis by blast
  qed
  ultimately show ?thesis using wakes' unfolding counted_by_def by blast
qed

subsection \<open>Emissions\<close>

lemma accepted_new:
  assumes "world_inv zones st" and "accepted zones digest [ob] op st w h" and "wo_revision ob = 1"
  shows "newest_object st (wo_object_id ob) = None"
proof -
  have "next_version (object_versions st (wo_object_id ob)) = 1"
    using assms(2,3) by (simp add: accepted_def check_revision_Inr)
  then show ?thesis by (rule first_version_new(1) [OF assms(1)])
qed

lemma same_scopes:
  assumes "in_scope q x" and "in_scope p x"
  shows "in_scope p = in_scope q" and "same_scope p = same_scope q"
proof -
  show same: "in_scope p = in_scope q" using assms by (auto simp: in_scope_def fun_eq_iff)
  show "same_scope p = same_scope q" by (rule ext) (simp only: same_scope_def same)
qed

text \<open>An emission that wrote something counted its signal.\<close>

lemma emission_counts:
  assumes inv: "world_inv (sv_zones env) st" and "\<not> padded q"
    and first: "emit env ck subject q st = (Inr r, st')" and new: "st' \<noteq> st"
  obtains moment i where "as_utc (wsr_observed_at q) ''observed_at'' = Inr moment"
    "signal_id_of env subject q moment = Inr i" "counted_by env subject q i (wr_wake_id r) st'"
proof -
  obtain e where plan: "plan_emission env ck subject q st = Inr e"
    using first by (cases "plan_emission env ck subject q st") (simp_all add: emit_def)
  have inv': "world_inv (sv_zones env) st'" by (rule bus_step_inv [OF inv emits [OF first]])
  from inv assms(2) plan show ?thesis
  proof (cases rule: emission_writes)
    case (Counted x)
    with first plan new show ?thesis by (simp add: emit_def)
  next
    case (Writes moment i wakes ids ob op w receipt)
    note ob = Writes(5) [unfolded carries_def]
    have run: "committing env ck ob op receipt st = (Inr r, st')" using Writes(7) first by simp
    then have id: "wr_wake_id r = wo_object_id ob"
      using Writes(8) by (auto simp: committing_def split: prod.splits sum.splits)
    have replaced: "newest_replaced st ob st'" by (rule committing_replaces [OF inv run]) (use new in auto)
    obtain wakes' where wakes': "current_wakes env subject st' = Inr wakes'"
      and mem: "set wakes' = {y \<in> set wakes. wo_object_id (fst y) \<noteq> wo_object_id ob}
         \<union> {y. y = (durable_object ob, w) \<and> wo_subject_id ob = subject}"
      by (rule wakes_replaced [OF inv inv' replaced _ _ Writes(3), of w]) (use ob in auto)
    have "\<exists>ids. signal_ids env y = Inr ids \<and> (i \<in> set ids \<longleftrightarrow> wo_object_id (fst y) = wo_object_id ob)"
      if y: "y \<in> set wakes'" "in_scope q y" for y
    proof (cases "y = (durable_object ob, w)")
      case False
      with y have "y \<in> set (rev (same_scope q wakes))" "wo_object_id (fst y) \<noteq> wo_object_id ob" by (simp_all add: mem)
      with prior_hit_None [OF Writes(4)] show ?thesis by blast
    qed (use ob in simp)
    then have "counted_by env subject q i (wr_wake_id r) st'"
      unfolding counted_by_def id using wakes' ob
      by (intro exI [of _ wakes'] conjI bexI [of _ "(durable_object ob, w)"]) (simp_all add: mem)
    with Writes(1,2) show ?thesis by (rule that)
  qed
qed

lemma emission_keeps_count:
  assumes inv: "world_inv (sv_zones env) st" and "\<not> padded p"
    and run: "emit env ck subject' p st = (r, st')" and counted: "counted_by env subject q i wake_id st"
  shows "counted_by env subject q i wake_id st'"
proof (cases "plan_emission env ck subject' p st")
  case (Inl e)
  with run counted show ?thesis by (simp add: emit_def)
next
  case (Inr e)
  obtain wakes z where wakes: "current_wakes env subject st = Inr wakes"
    and z: "z \<in> set wakes" "in_scope q z" "wo_object_id (fst z) = wake_id"
    and all: "\<forall>y \<in> set wakes. in_scope q y \<longrightarrow>
      (\<exists>ids. signal_ids env y = Inr ids \<and> (i \<in> set ids \<longleftrightarrow> wo_object_id (fst y) = wake_id))"
    using counted unfolding counted_by_def by blast
  have stored: "stored st z" by (rule current_wakes_stored [OF inv wakes z(1)])
  have subject: "wo_subject_id (fst z) = subject" by (rule current_wakes_row [OF inv wakes z(1)])
  from inv assms(2) Inr show ?thesis
  proof (cases rule: emission_writes)
    case (Counted x)
    with run Inr counted show ?thesis by (simp add: emit_def)
  next
    case (Writes moment j wakes' ids ob op w receipt)
    note ob = Writes(5) [unfolded carries_def]
    have c: "committing env ck ob op receipt st = (r, st')" using Writes(7) run by simp
    have inv': "world_inv (sv_zones env) st'" by (rule bus_step_inv [OF inv emits [OF run]])
    from inv c show ?thesis
    proof (rule committing_replaces)
      assume "st' = st"
      with counted show ?thesis by simp
    next
      fix v h assume acc: "accepted (sv_zones env) (sv_digest env) [ob] op st v h" and new: "newest_replaced st ob st'"
      have other: "wo_object_id ob \<noteq> wake_id" if "wo_revision ob = 1"
        using accepted_new [OF inv acc that] stored z(3) by (auto simp: stored_def)
      show ?thesis
      proof (rule counted_replaced [OF inv inv' counted new])
        assume s: "wo_subject_id ob = subject" and scope: "in_scope q (durable_object ob, w)"
        have same: "in_scope p = in_scope q" "same_scope p = same_scope q" "wakes' = wakes"
          using same_scopes [OF scope, of p] ob s Writes(3) wakes by auto
        have "z \<in> set (rev (same_scope p wakes'))" using z by (simp add: same)
        from prior_hit_None [OF Writes(4) this] all z have "i \<noteq> j" by auto
        with Writes(6) other all same ob show "\<exists>ids. signal_ids env (durable_object ob, w) = Inr ids
            \<and> (i \<in> set ids \<longleftrightarrow> wo_object_id ob = wake_id)" by fastforce
      next
        assume "wo_object_id ob = wake_id"
        with Writes(6) other obtain x where x: "x \<in> set wakes'" "in_scope p x" "wo_object_id (fst x) = wake_id" by auto
        have "x = z" using stored_unique [OF current_wakes_stored [OF inv Writes(3) x(1)] stored] x(3) z(3) by simp
        moreover have "wo_subject_id (fst x) = subject'" by (rule current_wakes_row [OF inv Writes(3) x(1)])
        ultimately show "wo_subject_id ob = subject \<and> in_scope q (durable_object ob, w)"
          using same_scopes(1) [OF z(2), of p] x(2) ob subject by simp
      qed (use ob in simp_all)
    qed
  qed
qed

subsection \<open>Moves\<close>

text \<open>A move writes the next version of a stored wake with the same signal ids.\<close>

definition keeps_ids :: "'h service_env \<Rightarrow> 'h world_store \<Rightarrow> (service_error + transition) \<Rightarrow> bool" where
  "keeps_ids env st plan \<longleftrightarrow> (case plan of
     Inr (Becomes ob op) \<Rightarrow> (\<exists>subject wake_id x moment s metadata. current_wake env subject wake_id st = Inr x
       \<and> valid_object (sv_zones env) ob \<and> ob = moved_wake x moment s metadata
       \<and> dict_get metadata ''signal_ids'' = dict_get (wo_metadata (fst x)) ''signal_ids'')
   | _ \<Rightarrow> True)"

lemma keeps_bind: "(\<And>x. m = Inr x \<Longrightarrow> keeps_ids env st (f x)) \<Longrightarrow> keeps_ids env st (result_bind m f)"
  by (cases m) (simp_all add: keeps_ids_def)

lemma keeps_simps [simp]: "keeps_ids env st (Inl e)" "keeps_ids env st (Inr (Unchanged x))"
  by (simp_all add: keeps_ids_def)

lemma keeps_move:
  assumes "current_wake env subject wake_id st = Inr x"
    and "dict_get metadata ''signal_ids'' = dict_get (wo_metadata (fst x)) ''signal_ids''"
  shows "keeps_ids env st (plan_move env ck x moment s metadata name extra reason key expected)"
proof (cases "plan_move env ck x moment s metadata name extra reason key expected")
  case (Inr t)
  then obtain op where "t = Becomes (moved_wake x moment s metadata) op"
    "valid_object (sv_zones env) (moved_wake x moment s metadata)" by (rule plan_move_Becomes)
  with Inr assms show ?thesis by (simp add: keeps_ids_def del: split_paired_Ex) blast
qed simp

lemma keeps_plans:
  shows "''signal_ids'' \<notin> fst ` set d \<Longrightarrow> keeps_ids env st (plan_claim env ck subject wake_id at_time expected d st)"
    and "keeps_ids env st (plan_defer env ck subject wake_id at_time step0 st)"
    and "keeps_ids env st (plan_requeue env ck subject wake_id at_time why rounds next_round names s0 st)"
    and "''signal_ids'' \<notin> fst ` set d \<Longrightarrow> keeps_ids env st (plan_finish env ck subject wake_id at_time target d why st)"
proof -
  show "keeps_ids env st (plan_claim env ck subject wake_id at_time expected d st)" if "''signal_ids'' \<notin> fst ` set d"
    unfolding plan_claim_def using that
    by (intro keeps_bind) (auto intro!: keeps_move simp: dict_get_update dict_get_put)
  show "keeps_ids env st (plan_defer env ck subject wake_id at_time step0 st)"
    unfolding plan_defer_def
    by (intro keeps_bind) (auto intro!: keeps_move simp: dict_get_update dict_get_put step0_metadata_def)
  show "keeps_ids env st (plan_requeue env ck subject wake_id at_time why rounds next_round names s0 st)"
    unfolding plan_requeue_def
    by (auto intro!: keeps_move keeps_bind simp: dict_get_put)
  show "keeps_ids env st (plan_finish env ck subject wake_id at_time target d why st)" if "''signal_ids'' \<notin> fst ` set d"
    unfolding plan_finish_def using that
    by (intro keeps_bind) (auto intro!: keeps_move simp: dict_get_update)
qed

lemma moved_ids:
  assumes "world_inv zones st" and "stored st x"
    and "dict_get metadata ''signal_ids'' = dict_get (wo_metadata (fst x)) ''signal_ids''"
  shows "signal_ids env (durable_object (moved_wake x moment s metadata), w) = signal_ids env x"
proof -
  have "durable_object (fst x) = fst x" using newest_durable [OF assms(1)] assms(2) unfolding stored_def by blast
  then have "durable_dict (wo_metadata (fst x)) = wo_metadata (fst x)" by (auto simp: durable_object_def dest: arg_cong [of _ _ wo_metadata])
  then have "durable_value (dict_get (wo_metadata (fst x)) ''signal_ids'') = dict_get (wo_metadata (fst x)) ''signal_ids''"
    by (metis dict_get_durable)
  then have "dict_get (wo_metadata (durable_object (moved_wake x moment s metadata))) ''signal_ids''
      = dict_get (wo_metadata (fst x)) ''signal_ids''"
    using assms(3) by (simp add: durable_object_def moved_wake_def next_wake_def dict_get_durable)
  then show ?thesis by (simp add: signal_ids_def)
qed

lemma move_keeps_count:
  assumes inv: "world_inv (sv_zones env) st" and plan: "keeps_ids env st plan"
    and run: "perform_move env ck s plan st = (r, st')" and inv': "world_inv (sv_zones env) st'"
    and counted: "counted_by env subject q i wake_id st"
  shows "counted_by env subject q i wake_id st'"
proof (cases "\<exists>ob op. plan = Inr (Becomes ob op)")
  case False
  then have "st' = st" using run by (auto simp: perform_move_def split: sum.splits transition.splits)
  with counted show ?thesis by simp
next
  case True
  then obtain ob op subject' j x moment s' metadata where p: "plan = Inr (Becomes ob op)"
    and x: "current_wake env subject' j st = Inr x" "valid_object (sv_zones env) ob" "ob = moved_wake x moment s' metadata"
      "dict_get metadata ''signal_ids'' = dict_get (wo_metadata (fst x)) ''signal_ids''"
    using plan by (auto simp: keeps_ids_def)
  obtain receipt where c: "committing env ck ob op receipt st = (r, st')" using run p by (auto simp: perform_move_def)
  obtain wakes z where wakes: "current_wakes env subject st = Inr wakes"
    and z: "z \<in> set wakes" "in_scope q z" "wo_object_id (fst z) = wake_id"
    and all: "\<forall>y \<in> set wakes. in_scope q y \<longrightarrow>
      (\<exists>ids. signal_ids env y = Inr ids \<and> (i \<in> set ids \<longleftrightarrow> wo_object_id (fst y) = wake_id))"
    using counted unfolding counted_by_def by blast
  note stored = current_wake_stored [OF inv x(1)]
  let ?w = "(snd x)\<lparr>wak_wake_state := s'\<rparr>"
  have ids: "signal_ids env (durable_object ob, ?w) = signal_ids env x"
    unfolding x(3) by (rule moved_ids [OF inv stored(1) x(4)])
  have scope: "in_scope q (durable_object ob, ?w) = in_scope q x" by (simp add: in_scope_def)
  have same: "wo_object_id ob = wo_object_id (fst x)" "wo_subject_id ob = wo_subject_id (fst x)"
    by (simp_all add: x(3)) (simp add: moved_wake_def next_wake_def)
  from inv c show ?thesis
  proof (rule committing_replaces)
    fix v h assume "newest_replaced st ob st'"
    with inv inv' counted show ?thesis
    proof (rule counted_replaced)
      assume "wo_subject_id ob = subject" and "in_scope q (durable_object ob, ?w)"
      then have "x \<in> set wakes" "in_scope q x"
        using stored_wake_listed [OF inv wakes stored(1,4)] same scope by simp_all
      with all show "\<exists>ids. signal_ids env (durable_object ob, ?w) = Inr ids \<and> (i \<in> set ids \<longleftrightarrow> wo_object_id ob = wake_id)"
        unfolding ids same by blast
    next
      assume "wo_object_id ob = wake_id"
      then have "x = z" using stored_unique [OF stored(1) current_wakes_stored [OF inv wakes z(1)]] z(3) same by simp
      moreover have "wo_subject_id (fst z) = subject" by (rule current_wakes_row [OF inv wakes z(1)])
      ultimately show "wo_subject_id ob = subject \<and> in_scope q (durable_object ob, ?w)" using z(2) same scope by simp
    qed (use x(2,3) in simp_all)
  qed (use counted in simp)
qed

subsection \<open>Other commits\<close>

lemma other_commit_wakes:
  assumes inv: "world_inv zones st" and run: "commit zones digest now objs op st = (c, st')"
    and other: "\<forall>ob \<in> set objs. wo_object_type ob \<noteq> OT_WAKE"
  shows "subject_rows st' subject = subject_rows st subject"
proof (cases c)
  case (Inl e)
  with run commit_Inl have "st' = st" by metis
  then show ?thesis by simp
next
  case (Inr r)
  from inv run [unfolded Inr] show ?thesis
  proof (cases rule: commit_newest)
    case (Fresh w h)
    have "latest_row st' (rr_object_id q) = Some q \<longleftrightarrow> latest_row st (rr_object_id q) = Some q"
      if q: "rr_object_type q = OT_WAKE" for q
    proof (cases "List.find (\<lambda>ob. wo_object_id ob = rr_object_id q) objs")
      case None
      with Fresh(5) show ?thesis by simp
    next
      case (Some ob)
      then have ob: "ob \<in> set objs" "wo_object_id ob = rr_object_id q" by (auto dest: find_Some_in)
      have "latest_row st' (rr_object_id q) \<noteq> Some q" using Fresh(5) Some other ob(1) q by auto
      moreover have "latest_object_type st (rr_object_id q) \<in> {None, Some (wo_object_type ob)}"
        using Fresh(2) ob by (auto simp: accepted_def check_revision_Inr)
      then have "latest_row st (rr_object_id q) \<noteq> Some q"
        using other ob(1) q by (auto simp: latest_object_type_def)
      ultimately show ?thesis by simp
    qed
    then show ?thesis unfolding subject_rows_def by blast
  qed simp
qed

lemma other_keeps_count:
  assumes inv: "world_inv zones st" and inv': "world_inv zones st'"
    and rows: "subject_rows st' subject = subject_rows st subject" and counted: "counted_by env subject q i wake_id st"
  shows "counted_by env subject q i wake_id st'"
proof -
  obtain wakes where wakes: "current_wakes env subject st = Inr wakes"
    and all: "\<exists>z \<in> set wakes. in_scope q z \<and> wo_object_id (fst z) = wake_id"
      "\<forall>y \<in> set wakes. in_scope q y \<longrightarrow>
        (\<exists>ids. signal_ids env y = Inr ids \<and> (i \<in> set ids \<longleftrightarrow> wo_object_id (fst y) = wake_id))"
    using counted unfolding counted_by_def by blast
  obtain wakes' where wakes': "current_wakes env subject st' = Inr wakes'"
    using current_wakes_iff(1) [OF inv, of env subject] current_wakes_iff(1) [OF inv', of env subject] wakes rows by auto
  have "set wakes' = set wakes"
    unfolding current_wakes_iff(2) [OF inv wakes] current_wakes_iff(2) [OF inv' wakes'] rows ..
  with wakes' all show ?thesis unfolding counted_by_def by metis
qed

section \<open>Any later time\<close>

text \<open>
  The steps of the bus, without padded signals and without a claim whose metadata update replaces the
  signal ids of the wake; the dispatcher names other members only.
\<close>

inductive plain_step :: "'h service_env \<Rightarrow> 'h world_store \<Rightarrow> 'h world_store \<Rightarrow> bool" for env where
  plain_emits: "\<not> padded q \<Longrightarrow> emit env ck subject q st = (r, st') \<Longrightarrow> plain_step env st st'"
| plain_claims: "''signal_ids'' \<notin> fst ` set d \<Longrightarrow> claim_wake env ck subject i t expected d st = (r', st') \<Longrightarrow>
    plain_step env st st'"
| plain_defers: "defer_wake env ck subject i t step0 st = (r', st') \<Longrightarrow> plain_step env st st'"
| plain_requeues: "requeue_runtime_incomplete env ck subject i t why n m names s0 st = (r', st') \<Longrightarrow> plain_step env st st'"
| plain_completes: "complete_wake env ck subject i t why n names delivery s0 st = (r', st') \<Longrightarrow> plain_step env st st'"
| plain_suppresses: "suppress_wake env ck subject i t step0 st = (r', st') \<Longrightarrow> plain_step env st st'"
| plain_others: "commit (sv_zones env) (sv_digest env) now objs op st = (c, st') \<Longrightarrow>
    \<forall>ob \<in> set objs. wo_object_type ob \<noteq> OT_WAKE \<Longrightarrow> plain_step env st st'"

lemma plain_bus: "plain_step env st st' \<Longrightarrow> bus_step env st st'"
  by (induction rule: plain_step.induct) (auto intro: bus_step.intros)

lemma plain_steps_bus: "(plain_step env)\<^sup>*\<^sup>* st st' \<Longrightarrow> (bus_step env)\<^sup>*\<^sup>* st st'"
  by (rule mono_rtranclp [rule_format, of "plain_step env"]) (rule plain_bus)

lemma plain_step_keeps_count:
  assumes "plain_step env st st'" and "world_inv (sv_zones env) st" and "counted_by env subject q i wake_id st"
  shows "counted_by env subject q i wake_id st'"
proof -
  have inv': "world_inv (sv_zones env) st'" by (rule bus_step_inv [OF assms(2) plain_bus [OF assms(1)]])
  note move = move_keeps_count [OF assms(2) _ _ inv' assms(3)]
  from assms(1) show ?thesis
  proof cases
    case (plain_emits p ck subject' r)
    then show ?thesis by (intro emission_keeps_count [OF assms(2) _ _ assms(3)])
  next
    case (plain_claims d ck subject' j t expected r')
    from plain_claims(2) show ?thesis unfolding claim_wake_def by (intro move [OF keeps_plans(1) [OF plain_claims(1)]])
  next
    case (plain_defers ck subject' j t step0 r')
    then show ?thesis unfolding defer_wake_def by (intro move [OF keeps_plans(2)])
  next
    case (plain_requeues ck subject' j t why n m names s0 r')
    then show ?thesis unfolding requeue_runtime_incomplete_def by (intro move [OF keeps_plans(3)])
  next
    case (plain_completes ck subject' j t why n names delivery s0 r')
    then show ?thesis unfolding complete_wake_def by (intro move [OF keeps_bind [OF keeps_plans(4)]]) simp_all
  next
    case (plain_suppresses ck subject' j t step0 r')
    then show ?thesis unfolding suppress_wake_def
      by (intro move [OF keeps_bind [OF keeps_plans(4)]]) (simp_all add: step0_metadata_def)
  next
    case (plain_others now objs op c)
    then show ?thesis by (intro other_keeps_count [OF assms(2) inv' other_commit_wakes assms(3)]) (use assms(2) in auto)
  qed
qed

lemma plain_run_keeps_count:
  assumes "(plain_step env)\<^sup>*\<^sup>* st st'" and "world_inv (sv_zones env) st" and "counted_by env subject q i wake_id st"
  shows "counted_by env subject q i wake_id st'"
  using assms(1,3)
proof (induction rule: rtranclp_induct)
  case (step t u)
  have "world_inv (sv_zones env) t" by (rule bus.steps_inv [OF plain_steps_bus [OF step.hyps(1)] assms(2)])
  from plain_step_keeps_count [OF step.hyps(2) this] step.IH step.prems show ?case by blast
qed

lemma counted_answered:
  assumes inv: "world_inv (sv_zones env) st" and counted: "counted_by env subject q i wake_id st"
    and q: "as_utc (wsr_observed_at q) ''observed_at'' = Inr moment" "signal_id_of env subject q moment = Inr i"
      "result_map (validate_evidence subject st) (wsr_evidence_refs q) = Inr us"
  shows "\<exists>r. emit env ck subject q st = (Inr r, st) \<and> wr_wake_id r = wake_id \<and> \<not> wr_merged r \<and> \<not> wr_suppressed r"
proof -
  obtain wakes z where wakes: "current_wakes env subject st = Inr wakes"
    and z: "z \<in> set wakes" "in_scope q z" "wo_object_id (fst z) = wake_id"
    and all: "\<forall>y \<in> set wakes. in_scope q y \<longrightarrow>
      (\<exists>ids. signal_ids env y = Inr ids \<and> (i \<in> set ids \<longleftrightarrow> wo_object_id (fst y) = wake_id))"
    using counted unfolding counted_by_def by blast
  note stored = current_wakes_stored [OF inv wakes]
  have "\<exists>ids. signal_ids env y = Inr ids \<and> (i \<in> set ids \<longleftrightarrow> y = z)" if y: "y \<in> set (rev (same_scope q wakes))" for y
  proof -
    from y have mem: "y \<in> set wakes" "in_scope q y" by simp_all
    have "wo_object_id (fst y) = wake_id \<longleftrightarrow> y = z"
      using stored_unique [OF stored [OF mem(1)] stored [OF z(1)]] z(3) by auto
    with all mem show ?thesis by auto
  qed
  then have "prior_hit env i (rev (same_scope q wakes)) = Inr (Some z)" using z by (intro prior_hit_found) simp_all
  with q wakes have "plan_emission env ck subject q st = Inr (Counted z)"
    by (simp add: plan_emission_def Let_def of_contract_def)
  with z(3) world_revision_clock [OF inv] show ?thesis by (simp add: emit_def signal_receipt_def)
qed

lemma retry_counted:
  assumes inv: "world_inv (sv_zones env) st" and "\<not> padded q"
    and first: "emit env ck subject q st = (Inr r, st')" and new: "st' \<noteq> st"
    and later: "(plain_step env)\<^sup>*\<^sup>* st' st''"
  shows "\<exists>r'. emit env ck' subject q st'' = (Inr r', st'') \<and> wr_wake_id r' = wr_wake_id r
    \<and> \<not> wr_merged r' \<and> \<not> wr_suppressed r'"
proof -
  obtain moment i where q: "as_utc (wsr_observed_at q) ''observed_at'' = Inr moment"
    "signal_id_of env subject q moment = Inr i" and counted: "counted_by env subject q i (wr_wake_id r) st'"
    by (rule emission_counts [OF assms(1-4)])
  have step: "bus_step env st st'" using first by (rule emits)
  have inv': "world_inv (sv_zones env) st'" by (rule bus_step_inv [OF inv step])
  have inv'': "world_inv (sv_zones env) st''" by (rule bus.steps_inv [OF plain_steps_bus [OF later] inv'])
  obtain e where "plan_emission env ck subject q st = Inr e"
    using first by (cases "plan_emission env ck subject q st") (simp_all add: emit_def)
  then obtain us where evidence: "result_map (validate_evidence subject st) (wsr_evidence_refs q) = Inr us"
    by (auto simp: plan_emission_def Let_def)
  have "(bus_step env)\<^sup>*\<^sup>* st st''" using step plain_steps_bus [OF later] by simp
  then have "\<exists>new. ws_revisions st'' = ws_revisions st @ new"
    using revisions.steps_log [OF bus_steps_world inv] by blast
  then have "result_map (validate_evidence subject st'') (wsr_evidence_refs q) = Inr us"
    using evidence evidence_stays [OF inv inv''] by (auto simp: result_map_unit)
  with counted_answered [OF inv'' plain_run_keeps_count [OF later inv' counted] q] show ?thesis by blast
qed

end
