(* ===== verification/WakeExamples.thy ===== *)
theory WakeExamples
  imports WakeRepeats Examples
begin

text \<open>
  A run of the wake bus over the example store: a signal about an observation creates a wake,
  the wake is claimed and completed, a later signal opens another one; and a signal whose rule
  has a leading blank. The codec prints the texts of a value one after another and hashes them to
  one byte, which is enough to tell the moments of this run apart.
\<close>

fun ex_text :: "pyval \<Rightarrow> string" where
  "ex_text (PStr s) = s"
| "ex_text (PInt n) = int_decimal n"
| "ex_text (PList xs) = concat (map ex_text xs)"
| "ex_text (PDict kvs) = concat (map (\<lambda>(k, v). k @ ex_text v) kvs)"
| "ex_text _ = ''.''"

definition ex_service :: "identity_text service_env" where
  "ex_service = \<lparr>sv_zones = all_zones, sv_digest = id,
     sv_codec = \<lparr>cd_dumps = ex_text, cd_loads = (\<lambda>_. None), cd_sha256 = (\<lambda>t. if CHR ''4'' \<in> set t then [4] else [1])\<rparr>,
     sv_isoformat = int_decimal, sv_fromiso = (\<lambda>_. None), sv_str = ex_text, sv_json = (\<lambda>v. v)\<rparr>"

definition ex_call :: "nat \<Rightarrow> call_context" where
  "ex_call n = \<lparr>ck_now = 1000 + int n, ck_operation_id = ''bus-'' @ int_decimal (int n)\<rparr>"

definition ex_signal :: "string \<Rightarrow> instant \<Rightarrow> wake_signal_request" where
  "ex_signal rule t = \<lparr>wsr_wake_source = WS_KEYWORD_ENTITY, wsr_rule_id = rule, wsr_observed_at = utc_datetime t,
     wsr_evidence_refs = [oref ''a'' (Some 1)], wsr_priority = 50, wsr_dedupe_key = ''k'', wsr_cooldown_seconds = 0,
     wsr_attention_class = None, wsr_metadata = []\<rparr>"

definition ex_emit :: "nat \<Rightarrow> string \<Rightarrow> instant \<Rightarrow> identity_text world_store
    \<Rightarrow> (service_error + wake_signal_receipt) \<times> identity_text world_store" where
  "ex_emit n rule t = emit ex_service (ex_call n) ''s'' (ex_signal rule t)"

definition wake_store1 :: "identity_text world_store" where
  "wake_store1 = snd (ex_emit 1 ''r'' 100 store1)"

definition ex_wake_id :: string where
  "ex_wake_id = (case fst (ex_emit 1 ''r'' 100 store1) of Inr r \<Rightarrow> wr_wake_id r | _ \<Rightarrow> [])"

definition wake_store2 :: "identity_text world_store" where
  "wake_store2 = snd (claim_wake ex_service (ex_call 2) ''s'' ex_wake_id (utc_datetime 200) None [] wake_store1)"

definition wake_store3 :: "identity_text world_store" where
  "wake_store3 = snd (complete_wake ex_service (ex_call 3) ''s'' ex_wake_id (utc_datetime 300) ''responded'' 1 [] True
     S0_OK wake_store2)"

definition wake_store4 :: "identity_text world_store" where
  "wake_store4 = snd (ex_emit 4 ''r'' 400 wake_store3)"

definition padded_store :: "identity_text world_store" where
  "padded_store = snd (ex_emit 1 '' r'' 100 store1)"

lemma ex_created:
  "case ex_emit 1 ''r'' 100 store1 of (Inr r, st) \<Rightarrow> wr_state r = WK_NEW \<and> \<not> wr_merged r \<and> current_world_revision st = Inr 2
   | _ \<Rightarrow> False"
  by code_simp

lemma ex_completed: "map_option wak_wake_state (wake_now wake_store3 ex_wake_id) = Some WK_COMPLETED"
  by code_simp

lemma ex_bus:
  "bus_step ex_service store1 wake_store1" "bus_step ex_service wake_store1 wake_store2"
  "bus_step ex_service wake_store2 wake_store3" "bus_step ex_service wake_store3 wake_store4"
  "bus_step ex_service store1 padded_store"
  unfolding wake_store1_def wake_store2_def wake_store3_def wake_store4_def padded_store_def ex_emit_def
  by (rule emits claims completes, rule prod.collapse [symmetric])+

lemma ex_plain: "(plain_step ex_service)\<^sup>*\<^sup>* wake_store1 wake_store3"
proof -
  have "plain_step ex_service wake_store1 wake_store2"
    unfolding wake_store2_def by (rule plain_claims [OF _ prod.collapse [symmetric]]) simp
  moreover have "plain_step ex_service wake_store2 wake_store3"
    unfolding wake_store3_def by (rule plain_completes [OF prod.collapse [symmetric]])
  ultimately show ?thesis by simp
qed

lemma ex_padded_created:
  "case ex_emit 1 '' r'' 100 store1 of (Inr r, st) \<Rightarrow> wr_state r = WK_NEW \<and> current_world_revision st = Inr 2
   | _ \<Rightarrow> False"
  by code_simp

lemma ex_first_revision: "current_world_revision store1 = Inr 1"
  by code_simp

lemma ex_emitted:
  obtains r where "ex_emit 1 ''r'' 100 store1 = (Inr r, wake_store1)" "wr_state r = WK_NEW" "wake_store1 \<noteq> store1"
proof -
  have "st \<noteq> store1" if "current_world_revision st = Inr 2" for st
    using that ex_first_revision by auto
  with ex_created that show ?thesis
    by (cases "ex_emit 1 ''r'' 100 store1") (auto simp: wake_store1_def split: sum.splits)
qed

lemma ex_emitted_padded:
  obtains r where "ex_emit 1 '' r'' 100 store1 = (Inr r, padded_store)" "padded_store \<noteq> store1"
proof -
  have "st \<noteq> store1" if "current_world_revision st = Inr 2" for st
    using that ex_first_revision by auto
  with ex_padded_created that show ?thesis
    by (cases "ex_emit 1 '' r'' 100 store1") (auto simp: padded_store_def split: sum.splits)
qed

lemma ex_no_wakes: "all_stripped store1"
proof -
  have "wake_now store1 oid = None" for oid
  proof (rule ccontr)
    assume "wake_now store1 oid \<noteq> None"
    then obtain ob w where "newest_object store1 oid = Some ob" "wo_body ob = Wake w"
      by (auto simp: wake_now_def bind_eq_Some_conv)
    then obtain r where "r \<in> set (ws_revisions store1)" "rr_object_type r = OT_WAKE"
      using newest_identity(3) [OF example_inv(1)] latest_row_Some by (fastforce simp: wo_object_type_def)
    moreover have "list_all (\<lambda>r. rr_object_type r \<noteq> OT_WAKE) (ws_revisions store1)" by code_simp
    ultimately show False by (auto simp: list_all_iff)
  qed
  then show ?thesis by (simp add: all_stripped_def)
qed

lemma ex_service_world: "world_inv (sv_zones ex_service) store1" "inj (sv_digest ex_service)"
  using example_inv(1) by (simp_all add: ex_service_def)

lemma ex_completed_world: "world_inv (sv_zones ex_service) wake_store3"
  using bus_step_inv [OF bus_step_inv [OF bus_step_inv [OF ex_service_world(1) ex_bus(1)] ex_bus(2)] ex_bus(3)] .

end
