(* ===== verification/Policies.thy ===== *)
theory Policies
  imports Services
begin

text \<open>
  policy/service.py: the registry of adaptive policies. A policy is a chain of versions in the
  world store; a change carries pinned evidence, and a repeated request is recovered by the hash
  of the whole request. The search index that follows the store is outside the model.
\<close>

section \<open>Evaluation windows\<close>

definition ascii_lower :: "char \<Rightarrow> char" where
  "ascii_lower c = (let n = of_char c :: nat in if 65 \<le> n \<and> n \<le> 90 then char_of (n + 32) else c)"

definition ascii_digit :: "char \<Rightarrow> bool" where
  "ascii_digit c \<longleftrightarrow> (let n = of_char c :: nat in 48 \<le> n \<and> n \<le> 57)"

definition decimal_value :: "string \<Rightarrow> int" where
  "decimal_value s = foldl (\<lambda>n c. 10 * n + (of_char c - 48)) 0 s"

definition window_unit :: "char \<Rightarrow> int option" where
  "window_unit c = map_of [(CHR ''m'', 60), (CHR ''h'', 3600), (CHR ''d'', 86400), (CHR ''w'', 604800)] c"

text \<open>\<open>[1-9][0-9]*[mhdw]\<close> in microseconds; \<open>int\<close> refuses more than 4300 digits.\<close>

definition window_length :: "string \<Rightarrow> service_error + int" where
  "window_length w =
     (let raw = map ascii_lower (py_strip w); digits = butlast raw in
      case (if raw = [] then None else window_unit (last raw)) of
        None \<Rightarrow> Inl (SvValue ''evaluation_window must use a bounded duration'')
      | Some seconds \<Rightarrow>
          if digits = [] \<or> hd digits = CHR ''0'' \<or> \<not> list_all ascii_digit digits
          then Inl (SvValue ''evaluation_window must use a bounded duration'')
          else if 4300 < length digits then Inl (SvValue ''integer string too long'')
          else Inr (decimal_value digits * seconds * 1000000))"

definition evaluation_due_at :: "datetime \<Rightarrow> string \<Rightarrow> service_error + instant" where
  "evaluation_due_at changed_at w =
     result_bind (of_contract (as_utc changed_at ''changed_at'')) (\<lambda>changed.
     result_bind (window_length w) (\<lambda>delta.
     if max_instant < changed + delta then Inl (SvOverflow ''date value out of range'') else Inr (changed + delta)))"

section \<open>Requests and receipts\<close>

primrec policy_class_value :: "policy_class \<Rightarrow> string" where
  "policy_class_value PC_HARD_BOUNDARY = ''hard_boundary''"
| "policy_class_value PC_ENGINEERING_PARAMETER = ''engineering_parameter''"
| "policy_class_value PC_COGNITIVE_POLICY = ''cognitive_policy''"

record policy_create_request =
  pcr_policy_id :: string
  pcr_scope :: string
  pcr_policy_class :: policy_class
  pcr_default_value :: pyval
  pcr_current_value :: pyval
  pcr_allowed_range_or_choices :: pyval
  pcr_mutable_by_ai :: bool
  pcr_reason :: string
  pcr_evidence_refs :: "object_ref list"
  pcr_changed_by :: string
  pcr_evaluation_window :: string

definition unpinned_policy_ref :: "object_ref list \<Rightarrow> guard" where
  "unpinned_policy_ref refs = (list_ex (\<lambda>r. ref_revision r = None) refs,
     Violation ''policy evidence refs must pin exact revisions'')"

definition policy_create_guards :: "policy_create_request \<Rightarrow> guard list" where
  "policy_create_guards q =
     [nonempty_field ''policy_id'' (pcr_policy_id q), nonempty_field ''scope'' (pcr_scope q),
      nonempty_field ''reason'' (pcr_reason q), refs_field ''evidence_refs'' (pcr_evidence_refs q),
      nonempty_field ''changed_by'' (pcr_changed_by q), nonempty_field ''evaluation_window'' (pcr_evaluation_window q),
      unpinned_policy_ref (pcr_evidence_refs q)]"

record policy_update_request =
  pur_policy_id :: string
  pur_current_value :: pyval
  pur_reason :: string
  pur_evidence_refs :: "object_ref list"
  pur_changed_by :: string
  pur_evaluation_window :: "string option"

definition policy_update_guards :: "policy_update_request \<Rightarrow> guard list" where
  "policy_update_guards q =
     [nonempty_field ''policy_id'' (pur_policy_id q), nonempty_field ''reason'' (pur_reason q),
      (pur_evidence_refs q = [], FieldConstraint ''evidence_refs''), refs_field ''evidence_refs'' (pur_evidence_refs q),
      nonempty_field ''changed_by'' (pur_changed_by q), unpinned_policy_ref (pur_evidence_refs q)]"

record policy_receipt =
  pr_policy_id :: string
  pr_object_id :: string
  pr_revision :: int
  pr_previous_version :: "int option"
  pr_rollback_pointer :: "int option"
  pr_world_revision :: int

type_synonym stored_policy = "world_object \<times> cognitive_policy"

definition policy_body :: "object_body \<Rightarrow> cognitive_policy option" where
  "policy_body b = (case b of CognitivePolicy p \<Rightarrow> Some p | _ \<Rightarrow> None)"

definition read_policy :: "'h service_env \<Rightarrow> payload \<Rightarrow> service_error + stored_policy" where
  "read_policy env = validate_payload_as env policy_body"

definition policy_object_id :: "'h service_env \<Rightarrow> string \<Rightarrow> string \<Rightarrow> service_error + string" where
  "policy_object_id env subject policy_id = stable_id env ''policy'' [PStr subject, PStr (py_strip policy_id)]"

text \<open>\<open>canonical_request_identity(*parts)\<close> of storage/idempotency.py.\<close>

definition canonical_request_identity :: "'h service_env \<Rightarrow> pyval list \<Rightarrow> service_error + string" where
  "canonical_request_identity env parts = (case canonical_json_dumps (sv_codec env) (PList parts) of
     Inl e \<Rightarrow> Inl (SvText e) | Inr t \<Rightarrow> Inr (hexdigest (sv_codec env) t))"

definition refs_value :: "object_ref list \<Rightarrow> pyval" where
  "refs_value refs = PList (map (\<lambda>r. ref_value (ref_object_id r) (ref_revision r)) refs)"

definition create_value :: "'h service_env \<Rightarrow> policy_create_request \<Rightarrow> pyval" where
  "create_value env q = PDict
     [(''allowed_range_or_choices'', sv_json env (pcr_allowed_range_or_choices q)),
      (''changed_by'', PStr (pcr_changed_by q)), (''current_value'', sv_json env (pcr_current_value q)),
      (''default_value'', sv_json env (pcr_default_value q)), (''evaluation_window'', PStr (pcr_evaluation_window q)),
      (''evidence_refs'', refs_value (pcr_evidence_refs q)), (''mutable_by_ai'', PBool (pcr_mutable_by_ai q)),
      (''policy_class'', PStr (policy_class_value (pcr_policy_class q))), (''policy_id'', PStr (pcr_policy_id q)),
      (''reason'', PStr (pcr_reason q)), (''scope'', PStr (pcr_scope q))]"

definition update_value :: "'h service_env \<Rightarrow> policy_update_request \<Rightarrow> pyval" where
  "update_value env q = PDict
     [(''changed_by'', PStr (pur_changed_by q)), (''current_value'', sv_json env (pur_current_value q)),
      (''evaluation_window'', case pur_evaluation_window q of None \<Rightarrow> PNone | Some w \<Rightarrow> PStr w),
      (''evidence_refs'', refs_value (pur_evidence_refs q)), (''policy_id'', PStr (pur_policy_id q)),
      (''reason'', PStr (pur_reason q))]"

section \<open>Evidence\<close>

definition real_policy_case_types :: "object_type set" where
  "real_policy_case_types = {OT_OBSERVATION, OT_OUTCOME, OT_OPERATION_EXPERIENCE, OT_COMMUNICATION_EXPERIENCE}"

definition active_status :: "world_object \<Rightarrow> bool" where
  "active_status ob \<longleftrightarrow> wo_status ob \<in> {[], ''active''}"

definition lowered :: "string \<Rightarrow> string" where
  "lowered s = map ascii_lower (py_strip s)"

text \<open>\<open>str(metadata.get("role") or "")\<close>.\<close>

definition metadata_role :: "'h service_env \<Rightarrow> world_object \<Rightarrow> string" where
  "metadata_role env ob = (let v = dict_get (wo_metadata ob) ''role'' in if py_truth v then text_of env v else [])"

definition assistant_output :: "'h service_env \<Rightarrow> world_object \<Rightarrow> bool" where
  "assistant_output env ob \<longleftrightarrow> wo_object_type ob = OT_OBSERVATION
     \<and> (lowered (metadata_role env ob) = ''assistant'' \<or> lowered (wo_created_by ob) = ''conversation_ingest:assistant'')"

definition check_real_result :: "'h service_env \<Rightarrow> payload \<Rightarrow> service_error + unit" where
  "check_real_result env p = (case p of
     PayloadObject ob \<Rightarrow>
       if wo_object_type ob \<notin> real_policy_case_types
       then Inl (SvValue ''AI policy changes require real-result evidence'')
       else if assistant_output env ob
       then Inl (SvValue ''assistant-generated conversation output is not real-result evidence'')
       else Inr ()
   | _ \<Rightarrow> Inl (SvValue ''AI policy changes require real-result evidence''))"

text \<open>The newest payload of a pruned object is a tombstone, which has no key \<open>revision\<close>.\<close>

definition check_policy_ref ::
    "'h service_env \<Rightarrow> string \<Rightarrow> bool \<Rightarrow> 'h world_store \<Rightarrow> object_ref \<Rightarrow> service_error + unit" where
  "check_policy_ref env subject strict st r =
     result_bind (read_payload st (ref_object_id r) (ref_revision r)) (\<lambda>p.
     if payload_subject p \<noteq> subject
     then Inl (SvValue ''policy evidence crosses the runtime subject scope'')
     else result_bind (read_payload st (ref_object_id r) None) (\<lambda>latest. case latest of
       PayloadObject ob \<Rightarrow>
         if Some (wo_revision ob) \<noteq> ref_revision r \<or> \<not> active_status ob
         then Inl (SvValue ''policy learning requires current, active real-result evidence'')
         else if strict then check_real_result env p else Inr ()
     | _ \<Rightarrow> Inl (SvKey ''revision'')))"

definition validate_policy_refs ::
    "'h service_env \<Rightarrow> string \<Rightarrow> bool \<Rightarrow> object_ref list \<Rightarrow> 'h world_store \<Rightarrow> service_error + unit" where
  "validate_policy_refs env subject strict refs st =
     (if list_ex (\<lambda>r. ref_revision r = None) refs
      then Inl (SvValue ''policy evidence refs must pin exact revisions'')
      else result_bind (result_map (check_policy_ref env subject strict st) refs) (\<lambda>_. Inr ()))"

definition opt_int :: "int option \<Rightarrow> pyval" where
  "opt_int v = (case v of None \<Rightarrow> PNone | Some n \<Rightarrow> PInt n)"

definition policy_dimension :: string where
  "policy_dimension = ''dim:ai_cognitive_policy''"

definition moment_object ::
    "string \<Rightarrow> string \<Rightarrow> int \<Rightarrow> temporal_extent \<Rightarrow> instant \<Rightarrow> source_ref list \<Rightarrow> string \<Rightarrow> pydict \<Rightarrow> object_body \<Rightarrow> world_object" where
  "moment_object oid subject revision occurred moment sources created_by metadata body =
     \<lparr>wo_object_id = oid, wo_subject_id = subject, wo_revision = revision, wo_occurred = occurred,
      wo_learned_at = utc_datetime moment, wo_recorded_at = utc_datetime moment, wo_source_refs = sources,
      wo_created_by = created_by, wo_status = ''active'', wo_metadata = metadata, wo_body = body\<rparr>"

definition policy_evidence_set ::
    "'h service_env \<Rightarrow> string \<Rightarrow> string \<Rightarrow> int \<Rightarrow> object_ref list \<Rightarrow> instant \<Rightarrow> string \<Rightarrow> 'h world_store
      \<Rightarrow> service_error + world_object option" where
  "policy_evidence_set env subject policy_id version refs changed purpose st =
     (if refs = [] then Inr None
      else result_bind (stable_id env ''evs_policy'' [PStr subject, PStr policy_id, PInt version,
          PList (map (\<lambda>r. PList [PStr (ref_object_id r), opt_int (ref_revision r)]) refs), iso env changed]) (\<lambda>oid.
        result_bind (world_revision_now st) (\<lambda>w.
        result_bind (validated env (moment_object oid subject 1 (moment_extent changed) changed (map source_of refs)
          ''cognitive_policy:evidence'' [(''dimension'', PStr policy_dimension), (''policy_id'', PStr policy_id)]
          (EvidenceSet \<lparr>evs_purpose = purpose,
            evs_knowledge_window = \<lparr>kw_knowledge_cutoff = utc_datetime changed, kw_world_revision = Some w\<rparr>,
            evs_member_refs = refs, evs_support_refs = refs, evs_counter_refs = [], evs_context_refs = [],
            evs_selector = None, evs_selection_method = ''policy_change_pinned_world_evidence'',
            evs_aggregation_method = None, evs_aggregation_version = None,
            evs_coverage = \<lparr>cov_expected_count = Some (int (length refs)),
              cov_observed_count = Some (int (length refs)), cov_coverage_ratio = Some 1, cov_missing_description = []\<rparr>,
            evs_stale = False\<rparr>))) (\<lambda>ob. Inr (Some ob)))))"

section \<open>Committing a version\<close>

definition policy_arguments :: "string \<Rightarrow> int \<Rightarrow> string \<Rightarrow> policy_class \<Rightarrow> string option \<Rightarrow> pydict" where
  "policy_arguments policy_id version scope policy_class identity = (case identity of
     Some sha \<Rightarrow> [(''canonical_request_sha256'', PStr sha), (''policy_class'', PStr (policy_class_value policy_class)),
       (''policy_id'', PStr policy_id)]
   | None \<Rightarrow> [(''policy_class'', PStr (policy_class_value policy_class)), (''policy_id'', PStr policy_id),
       (''scope'', PStr scope), (''version'', PInt version)])"

definition policy_dependency ::
    "'h service_env \<Rightarrow> string \<Rightarrow> instant \<Rightarrow> string \<Rightarrow> int \<Rightarrow> object_ref \<Rightarrow> string \<Rightarrow> service_error + world_object" where
  "policy_dependency env subject changed oid revision r kind =
     result_bind (stable_id env ''dep'' [PStr oid, PInt revision, PStr (ref_object_id r), opt_int (ref_revision r)]) (\<lambda>i.
     validated env (moment_object i subject 1 unknown_time changed [] ''cognitive_policy:dependency'' []
       (Dependency \<lparr>dep_dependent_ref = \<lparr>ref_object_id = oid, ref_revision = Some revision\<rparr>,
          dep_dependency_ref = r, dep_dependency_type = kind\<rparr>)))"

text \<open>The evidence set, the policy, and the edges policy to evidence set and evidence set to sources.\<close>

definition policy_objects ::
    "'h service_env \<Rightarrow> string \<Rightarrow> instant \<Rightarrow> world_object \<Rightarrow> object_ref list \<Rightarrow> world_object option
      \<Rightarrow> service_error + world_object list" where
  "policy_objects env subject changed policy refs evidence = (case evidence of
     None \<Rightarrow> Inr [policy]
   | Some ev \<Rightarrow>
       result_bind (policy_dependency env subject changed (wo_object_id policy) (wo_revision policy)
         \<lparr>ref_object_id = wo_object_id ev, ref_revision = Some 1\<rparr> ''policy_version_uses_evidence_set'') (\<lambda>d.
       result_bind (result_map (\<lambda>r. policy_dependency env subject changed (wo_object_id ev) 1 r
         ''policy_evidence_set_contains_source'') refs) (\<lambda>ds.
       Inr (ev # policy # d # ds))))"

definition policy_operation ::
    "call_context \<Rightarrow> bool \<Rightarrow> string \<Rightarrow> pydict \<Rightarrow> int \<Rightarrow> string \<Rightarrow> string \<Rightarrow> operation_request" where
  "policy_operation ck ai name arguments expected reason key =
     service_request ck name arguments expected reason key (if ai then None else Some MC_POLICY_SYNC)"

text \<open>The request is constructed, then handed to \<open>commit_or_replay\<close>.\<close>

definition submit_or_replay ::
    "'h service_env \<Rightarrow> call_context \<Rightarrow> world_object list \<Rightarrow> operation_request \<Rightarrow> 'h world_store
      \<Rightarrow> (service_error + commit_result) \<times> 'h world_store" where
  "submit_or_replay env ck objs op st = (case normalize_operation op of
     Inl e \<Rightarrow> (Inl (SvInvalid e), st)
   | Inr op \<Rightarrow> (case commit_or_replay (sv_zones env) (sv_digest env) (ck_now ck) objs op st of
        (Inl e, st') \<Rightarrow> (Inl (SvStore e), st')
      | (Inr r, st') \<Rightarrow> (Inr r, st')))"

definition receipt_of :: "stored_policy \<Rightarrow> int \<Rightarrow> policy_receipt" where
  "receipt_of x w = \<lparr>pr_policy_id = cgp_policy_id (snd x), pr_object_id = wo_object_id (fst x),
     pr_revision = wo_revision (fst x), pr_previous_version = cgp_previous_version (snd x),
     pr_rollback_pointer = cgp_rollback_pointer (snd x), pr_world_revision = w\<rparr>"

text \<open>A replay answers the receipt of the version it stored then.\<close>

definition answered_policy ::
    "'h service_env \<Rightarrow> 'h world_store \<Rightarrow> commit_result \<Rightarrow> stored_policy \<Rightarrow> service_error + policy_receipt" where
  "answered_policy env st r x =
     (if \<not> cr_idempotent_replay r then Inr (receipt_of x (cr_world_revision r))
      else case List.find (\<lambda>k. fst k = wo_object_id (fst x)) (cr_object_refs r) of
        None \<Rightarrow> Inr (receipt_of x (cr_world_revision r))
      | Some (oid, revision) \<Rightarrow>
          result_bind (read_payload st oid (Some revision)) (\<lambda>p.
          result_bind (read_policy env p) (\<lambda>y. Inr (receipt_of y (cr_world_revision r)))))"

record planned_policy =
  pp_policy :: stored_policy
  pp_objects :: "world_object list"
  pp_operation :: operation_request

definition perform_policy ::
    "'h service_env \<Rightarrow> call_context \<Rightarrow> service_error + planned_policy \<Rightarrow> 'h world_store
      \<Rightarrow> (service_error + policy_receipt) \<times> 'h world_store" where
  "perform_policy env ck plan st = (case plan of
     Inl e \<Rightarrow> (Inl e, st)
   | Inr p \<Rightarrow> (case submit_or_replay env ck (pp_objects p) (pp_operation p) st of
       (Inl e, st') \<Rightarrow> (Inl e, st')
     | (Inr r, st') \<Rightarrow> (answered_policy env st' r (pp_policy p), st')))"

text \<open>The part \<open>register\<close>, \<open>update\<close> and \<open>rollback\<close> share once the new version is known.\<close>

definition plan_version ::
    "'h service_env \<Rightarrow> call_context \<Rightarrow> string \<Rightarrow> bool \<Rightarrow> string \<Rightarrow> int \<Rightarrow> string \<Rightarrow> string \<Rightarrow> instant \<Rightarrow> string
      \<Rightarrow> world_object \<Rightarrow> cognitive_policy \<Rightarrow> 'h world_store \<Rightarrow> service_error + planned_policy" where
  "plan_version env ck subject ai name expected key identity changed purpose ob policy st =
     result_bind (policy_evidence_set env subject (cgp_policy_id policy) (cgp_version policy) (cgp_evidence_refs policy)
       changed purpose st) (\<lambda>evidence.
     result_bind (validated env (ob\<lparr>wo_body := CognitivePolicy policy\<rparr>)) (\<lambda>ob.
     result_bind (policy_objects env subject changed ob (cgp_evidence_refs policy) evidence) (\<lambda>objs.
     Inr \<lparr>pp_policy = (ob, policy), pp_objects = objs, pp_operation = policy_operation ck ai name
       (policy_arguments (cgp_policy_id policy) (cgp_version policy) (cgp_scope policy) (cgp_policy_class policy)
         (Some identity)) expected (cgp_reason policy) key\<rparr>)))"

section \<open>Registration\<close>

definition payload_policy_id :: "payload \<Rightarrow> string" where
  "payload_policy_id p = (case p of
     PayloadObject ob \<Rightarrow> (case wo_body ob of CognitivePolicy c \<Rightarrow> cgp_policy_id c | _ \<Rightarrow> []) | _ \<Rightarrow> [])"

definition coded :: "error_code \<Rightarrow> store_error \<Rightarrow> bool" where
  "coded c e = (case e of StoreError c' _ \<Rightarrow> c' = c | _ \<Rightarrow> False)"

text \<open>
  \<open>_exact_replay_receipt\<close>: the probe request carries no maintenance class, whoever acts. A conflict
  of the key is the answer \<open>None\<close>; every other error is raised.
\<close>

definition replay_probe ::
    "call_context \<Rightarrow> bool \<Rightarrow> string \<Rightarrow> pydict \<Rightarrow> int \<Rightarrow> string \<Rightarrow> string \<Rightarrow> operation_request" where
  "replay_probe ck ai name arguments expected reason key =
     (service_request ck name arguments expected reason key None)
       \<lparr>op_source_class := (if ai then SC_AI_COGNITION else SC_MAINTENANCE)\<rparr>"

definition exact_replay_receipt ::
    "'h service_env \<Rightarrow> call_context \<Rightarrow> string \<Rightarrow> int \<Rightarrow> string \<Rightarrow> string \<Rightarrow> bool \<Rightarrow> string \<Rightarrow> string \<Rightarrow> policy_class
      \<Rightarrow> string \<Rightarrow> 'h world_store \<Rightarrow> (service_error + policy_receipt option) \<times> 'h world_store" where
  "exact_replay_receipt env ck oid revision name key ai identity scope policy_class reason st =
     (case result_bind (read_payload st oid None) (\<lambda>p.
           result_bind (world_revision_now st) (\<lambda>w.
           of_contract (normalize_operation (replay_probe ck ai name
             (policy_arguments (payload_policy_id p) revision scope policy_class (Some identity)) w reason key)))) of
        Inl e \<Rightarrow> (Inl e, st)
      | Inr probe \<Rightarrow> (case replay_exact_operation (sv_zones env) (sv_digest env) (ck_now ck) probe st of
          (Inl e, st') \<Rightarrow> (if coded EC_IDEMPOTENCY_CONFLICT e then Inr None else Inl (SvStore e), st')
        | (Inr None, st') \<Rightarrow> (Inr None, st')
        | (Inr (Some r), st') \<Rightarrow> (result_bind (read_payload st' oid (Some revision)) (\<lambda>p.
            result_bind (read_policy env p) (\<lambda>y. Inr (Some (receipt_of y (cr_world_revision r))))), st')))"

definition next_evaluation :: "'h service_env \<Rightarrow> instant \<Rightarrow> pydict" where
  "next_evaluation env due = [(''dimension'', PStr policy_dimension), (''next_evaluation_at'', iso env due)]"

definition registered_policy :: "policy_create_request \<Rightarrow> instant \<Rightarrow> cognitive_policy" where
  "registered_policy q changed = \<lparr>cgp_policy_id = py_strip (pcr_policy_id q), cgp_scope = py_strip (pcr_scope q),
     cgp_policy_class = pcr_policy_class q, cgp_default_value = pcr_default_value q,
     cgp_current_value = pcr_current_value q, cgp_allowed_range_or_choices = pcr_allowed_range_or_choices q,
     cgp_mutable_by_ai = pcr_mutable_by_ai q, cgp_reason = py_strip (pcr_reason q),
     cgp_evidence_refs = pcr_evidence_refs q, cgp_changed_by = py_strip (pcr_changed_by q),
     cgp_changed_at = utc_datetime changed, cgp_version = 1, cgp_previous_version = None,
     cgp_rollback_pointer = None, cgp_evaluation_window = py_strip (pcr_evaluation_window q)\<rparr>"

definition check_register_actor :: "bool \<Rightarrow> policy_create_request \<Rightarrow> service_error + unit" where
  "check_register_actor ai q =
     (if ai \<and> (pcr_policy_class q \<noteq> PC_COGNITIVE_POLICY \<or> \<not> pcr_mutable_by_ai q)
      then Inl (SvPermission ''resident AI may register only AI-mutable cognitive policies'')
      else if ai \<and> pcr_evidence_refs q = []
      then Inl (SvPermission ''resident AI policy registration requires real-result evidence'')
      else Inr ())"

definition register_identity ::
    "'h service_env \<Rightarrow> policy_create_request \<Rightarrow> instant \<Rightarrow> service_error + string" where
  "register_identity env q changed =
     canonical_request_identity env [PStr ''policy.register'', create_value env q, iso env changed]"

definition register_key :: "string \<Rightarrow> string" where
  "register_key oid = ''policy:'' @ oid @ '':1''"

definition plan_register ::
    "'h service_env \<Rightarrow> call_context \<Rightarrow> string \<Rightarrow> policy_create_request \<Rightarrow> bool \<Rightarrow> int \<Rightarrow> instant \<Rightarrow> string \<Rightarrow> string
      \<Rightarrow> 'h world_store \<Rightarrow> service_error + planned_policy" where
  "plan_register env ck subject q ai expected changed oid identity st =
     result_bind (validate_policy_refs env subject ai (pcr_evidence_refs q) st) (\<lambda>_.
     result_bind (evaluation_due_at (utc_datetime changed) (pcr_evaluation_window q)) (\<lambda>due.
     plan_version env ck subject ai ''policy.register'' expected (register_key oid) identity changed
       (''register policy '' @ py_strip (pcr_policy_id q))
       (moment_object oid subject 1 (moment_extent changed) changed (map source_of (pcr_evidence_refs q))
         (''cognitive_policy:'' @ py_strip (pcr_changed_by q)) (next_evaluation env due)
         (CognitivePolicy (registered_policy q changed)))
       (registered_policy q changed) st))"

definition register_inputs ::
    "'h service_env \<Rightarrow> string \<Rightarrow> policy_create_request \<Rightarrow> datetime \<Rightarrow> bool \<Rightarrow> 'h world_store
      \<Rightarrow> service_error + int \<times> instant \<times> string \<times> string" where
  "register_inputs env subject q changed_at ai st =
     result_bind (world_revision_now st) (\<lambda>expected.
     result_bind (of_contract (as_utc changed_at ''changed_at'')) (\<lambda>changed.
     result_bind (check_register_actor ai q) (\<lambda>_.
     result_bind (policy_object_id env subject (py_strip (pcr_policy_id q))) (\<lambda>oid.
     result_bind (register_identity env q changed) (\<lambda>identity.
     Inr (expected, changed, oid, identity))))))"

definition register_policy ::
    "'h service_env \<Rightarrow> call_context \<Rightarrow> string \<Rightarrow> policy_create_request \<Rightarrow> datetime \<Rightarrow> bool \<Rightarrow> 'h world_store
      \<Rightarrow> (service_error + policy_receipt) \<times> 'h world_store" where
  "register_policy env ck subject q changed_at ai st =
     (case register_inputs env subject q changed_at ai st of
        Inl e \<Rightarrow> (Inl e, st)
      | Inr (expected, changed, oid, identity) \<Rightarrow> (case get_payload st oid None None None of
          Inl e \<Rightarrow> if \<not> coded EC_NOT_FOUND e then (Inl (SvStore e), st)
            else perform_policy env ck (plan_register env ck subject q ai expected changed oid identity st) st
        | Inr _ \<Rightarrow> (case exact_replay_receipt env ck oid 1 ''policy.register'' (register_key oid) ai identity
              (py_strip (pcr_scope q)) (pcr_policy_class q) (py_strip (pcr_reason q)) st of
            (Inl e, st') \<Rightarrow> (Inl e, st')
          | (Inr None, st') \<Rightarrow> (Inl (SvValue ''policy already registered''), st')
          | (Inr (Some receipt), st') \<Rightarrow> (Inr receipt, st'))))"

section \<open>Reading policies\<close>

definition policy_version_of ::
    "'h service_env \<Rightarrow> string \<Rightarrow> string \<Rightarrow> int option \<Rightarrow> 'h world_store \<Rightarrow> service_error + stored_policy option" where
  "policy_version_of env subject policy_id version st =
     result_bind (policy_object_id env subject policy_id) (\<lambda>oid.
     case get_payload st oid version None None of
       Inl e \<Rightarrow> if coded EC_NOT_FOUND e then Inr None else Inl (SvStore e)
     | Inr p \<Rightarrow> result_bind (read_policy env p) (\<lambda>x. Inr (Some x)))"

definition latest_policy ::
    "'h service_env \<Rightarrow> string \<Rightarrow> string \<Rightarrow> 'h world_store \<Rightarrow> service_error + stored_policy option" where
  "latest_policy env subject policy_id st = policy_version_of env subject policy_id None st"

definition get_policy ::
    "'h service_env \<Rightarrow> string \<Rightarrow> string \<Rightarrow> int \<Rightarrow> 'h world_store \<Rightarrow> service_error + stored_policy option" where
  "get_policy env subject policy_id version st = policy_version_of env subject policy_id (Some version) st"

definition policy_history ::
    "'h service_env \<Rightarrow> string \<Rightarrow> string \<Rightarrow> 'h world_store \<Rightarrow> service_error + stored_policy list" where
  "policy_history env subject policy_id st =
     result_bind (latest_policy env subject policy_id st) (\<lambda>latest. case latest of
       None \<Rightarrow> Inr []
     | Some x \<Rightarrow> result_map (\<lambda>v. result_bind (read_payload st (wo_object_id (fst x)) (Some v)) (read_policy env))
         [1..wo_revision (fst x)])"

definition current_policies :: "'h service_env \<Rightarrow> string \<Rightarrow> 'h world_store \<Rightarrow> service_error + stored_policy list" where
  "current_policies env subject st =
     result_bind (subject_payloads st OT_COGNITIVE_POLICY subject) (\<lambda>ps.
     result_bind (result_map (read_policy env) ps) (\<lambda>xs.
     Inr (sort_key (\<lambda>x. (cgp_scope (snd x), cgp_policy_id (snd x))) xs)))"

text \<open>\<open>except (ValueError, StoreError)\<close>: a \<open>ValidationError\<close> of pydantic is a \<open>ValueError\<close>.\<close>

definition ineffective_error :: "service_error \<Rightarrow> bool" where
  "ineffective_error e = (case e of
     SvStore (StoreError _ _) \<Rightarrow> True | SvStore (RawError _) \<Rightarrow> True | SvInvalid _ \<Rightarrow> True | SvValue _ \<Rightarrow> True
   | _ \<Rightarrow> False)"

definition is_effective ::
    "'h service_env \<Rightarrow> string \<Rightarrow> 'h world_store \<Rightarrow> stored_policy \<Rightarrow> service_error + bool" where
  "is_effective env subject st x =
     result_bind (if wo_status (fst x) \<noteq> ''active'' then Inr False
       else case validate_policy_refs env subject False (cgp_evidence_refs (snd x)) st of
         Inl e \<Rightarrow> if ineffective_error e then Inr False else Inl e
       | Inr _ \<Rightarrow> Inr True) (\<lambda>valid.
     if \<not> valid \<and> cgp_policy_class (snd x) \<noteq> PC_COGNITIVE_POLICY
     then Inl (SvPermission ''non-cognitive policy requires independent review'') else Inr valid)"

definition effective_value ::
    "'h service_env \<Rightarrow> string \<Rightarrow> string \<Rightarrow> pyval \<Rightarrow> 'h world_store \<Rightarrow> service_error + pyval" where
  "effective_value env subject policy_id default_value st =
     result_bind (latest_policy env subject policy_id st) (\<lambda>current. case current of
       None \<Rightarrow> Inr default_value
     | Some x \<Rightarrow> result_bind (is_effective env subject st x) (\<lambda>valid.
         Inr (if valid then cgp_current_value (snd x) else default_value)))"

text \<open>\<open>str(raw).replace("Z", "+00:00")\<close>.\<close>

definition zulu_offset :: "string \<Rightarrow> string" where
  "zulu_offset s = concat (map (\<lambda>c. if c = CHR ''Z'' then ''+00:00'' else [c]) s)"

definition policy_due_at :: "'h service_env \<Rightarrow> stored_policy \<Rightarrow> service_error + instant" where
  "policy_due_at env x =
     (let raw = dict_get (wo_metadata (fst x)) ''next_evaluation_at'';
          schedule = (SvValue ''invalid evaluation schedule for policy'');
          due = (if raw = PNone then evaluation_due_at (cgp_changed_at (snd x)) (cgp_evaluation_window (snd x))
            else case sv_fromiso env (zulu_offset (text_of env raw)) of
              None \<Rightarrow> Inl schedule | Some d \<Rightarrow> of_contract (as_utc d ''next_evaluation_at''))
      in case due of
        Inl e \<Rightarrow> (case e of SvOverflow m \<Rightarrow> Inl e | _ \<Rightarrow> Inl schedule)
      | Inr t \<Rightarrow> Inr t)"

definition due_for_evaluation ::
    "'h service_env \<Rightarrow> string \<Rightarrow> datetime \<Rightarrow> 'h world_store \<Rightarrow> service_error + stored_policy list" where
  "due_for_evaluation env subject now st =
     result_bind (of_contract (as_utc now ''now'')) (\<lambda>moment.
     result_bind (current_policies env subject st) (\<lambda>xs.
     result_bind (result_map (\<lambda>x. result_bind (policy_due_at env x) (\<lambda>t. Inr (t \<le> moment, x))) xs) (\<lambda>due.
     Inr (sort_key (\<lambda>x. (utc_instant (cgp_changed_at (snd x)), cgp_policy_id (snd x)))
       (map snd (filter fst due))))))"

section \<open>Updates and rollbacks\<close>

definition check_ai_mutable :: "bool \<Rightarrow> stored_policy \<Rightarrow> object_ref list \<Rightarrow> service_error + unit" where
  "check_ai_mutable ai x refs =
     (if ai \<and> (cgp_policy_class (snd x) \<noteq> PC_COGNITIVE_POLICY \<or> \<not> cgp_mutable_by_ai (snd x))
      then Inl (SvPermission ''policy is not AI-mutable'')
      else if ai \<and> refs = [] then Inl (SvPermission ''AI policy changes require pinned evidence'')
      else Inr ())"

text \<open>The next version over the fields of the current one.\<close>

definition next_policy ::
    "stored_policy \<Rightarrow> pyval \<Rightarrow> string \<Rightarrow> object_ref list \<Rightarrow> string \<Rightarrow> instant \<Rightarrow> int \<Rightarrow> string \<Rightarrow> cognitive_policy" where
  "next_policy x v reason refs changed_by changed pointer w =
     (snd x)\<lparr>cgp_current_value := v, cgp_reason := py_strip reason, cgp_evidence_refs := refs,
       cgp_changed_by := py_strip changed_by, cgp_changed_at := utc_datetime changed,
       cgp_version := wo_revision (fst x) + 1, cgp_previous_version := Some (cgp_version (snd x)),
       cgp_rollback_pointer := Some pointer, cgp_evaluation_window := w\<rparr>"

definition next_policy_object ::
    "'h service_env \<Rightarrow> stored_policy \<Rightarrow> object_ref list \<Rightarrow> string \<Rightarrow> instant \<Rightarrow> instant \<Rightarrow> world_object" where
  "next_policy_object env x refs changed_by changed due =
     (fst x)\<lparr>wo_revision := wo_revision (fst x) + 1, wo_occurred := moment_extent changed,
       wo_learned_at := utc_datetime changed, wo_recorded_at := utc_datetime changed,
       wo_source_refs := map source_of refs, wo_created_by := ''cognitive_policy:'' @ py_strip changed_by,
       wo_status := ''active'', wo_metadata := dict_update (wo_metadata (fst x)) (next_evaluation env due)\<rparr>"

definition plan_change ::
    "'h service_env \<Rightarrow> call_context \<Rightarrow> string \<Rightarrow> bool \<Rightarrow> string \<Rightarrow> int \<Rightarrow> string \<Rightarrow> string \<Rightarrow> string \<Rightarrow> instant
      \<Rightarrow> stored_policy \<Rightarrow> pyval \<Rightarrow> string \<Rightarrow> object_ref list \<Rightarrow> string \<Rightarrow> int \<Rightarrow> string \<Rightarrow> 'h world_store
      \<Rightarrow> service_error + planned_policy" where
  "plan_change env ck subject ai name expected key identity purpose changed x v reason refs changed_by pointer w st =
     result_bind (evaluation_due_at (utc_datetime changed) w) (\<lambda>due.
     plan_version env ck subject ai name expected key identity changed purpose
       (next_policy_object env x refs changed_by changed due)
       (next_policy x v reason refs changed_by changed pointer w) st)"

definition change_key :: "string \<Rightarrow> string \<Rightarrow> string \<Rightarrow> string" where
  "change_key tag oid identity = tag @ oid @ '':'' @ take 24 identity"

definition update_identity ::
    "'h service_env \<Rightarrow> policy_update_request \<Rightarrow> instant \<Rightarrow> service_error + string" where
  "update_identity env q changed =
     canonical_request_identity env [PStr ''policy.update'', update_value env q, iso env changed]"

definition chosen_window :: "stored_policy \<Rightarrow> string option \<Rightarrow> string" where
  "chosen_window x w = (case w of
     Some s \<Rightarrow> if py_strip s \<noteq> [] then py_strip s else cgp_evaluation_window (snd x)
   | None \<Rightarrow> cgp_evaluation_window (snd x))"

definition plan_update ::
    "'h service_env \<Rightarrow> call_context \<Rightarrow> string \<Rightarrow> policy_update_request \<Rightarrow> datetime \<Rightarrow> bool \<Rightarrow> 'h world_store
      \<Rightarrow> service_error + planned_policy" where
  "plan_update env ck subject q changed_at ai st =
     result_bind (world_revision_now st) (\<lambda>expected.
     result_bind (of_contract (as_utc changed_at ''changed_at'')) (\<lambda>changed.
     result_bind (latest_policy env subject (pur_policy_id q) st) (\<lambda>current. case current of
       None \<Rightarrow> Inl (SvKey ''unknown policy'')
     | Some x \<Rightarrow>
        result_bind (check_ai_mutable ai x (pur_evidence_refs q)) (\<lambda>_.
        result_bind (validate_policy_refs env subject ai (pur_evidence_refs q) st) (\<lambda>_.
        result_bind (policy_object_id env subject (pur_policy_id q)) (\<lambda>oid.
        result_bind (update_identity env q changed) (\<lambda>identity.
        plan_change env ck subject ai ''policy.update'' expected (change_key ''policy-update:'' oid identity) identity
          (''support policy update '' @ cgp_policy_id (snd x) @ ''@'' @ int_decimal (wo_revision (fst x) + 1))
          changed x (pur_current_value q) (pur_reason q) (pur_evidence_refs q) (pur_changed_by q)
          (cgp_version (snd x)) (chosen_window x (pur_evaluation_window q)) st)))))))"

definition update_policy ::
    "'h service_env \<Rightarrow> call_context \<Rightarrow> string \<Rightarrow> policy_update_request \<Rightarrow> datetime \<Rightarrow> bool \<Rightarrow> 'h world_store
      \<Rightarrow> (service_error + policy_receipt) \<times> 'h world_store" where
  "update_policy env ck subject q changed_at ai st =
     perform_policy env ck (plan_update env ck subject q changed_at ai st) st"

record rollback_request =
  rbr_policy_id :: string
  rbr_target_version :: int
  rbr_reason :: string
  rbr_evidence_refs :: "object_ref list"
  rbr_changed_by :: string

definition rollback_identity ::
    "'h service_env \<Rightarrow> rollback_request \<Rightarrow> bool \<Rightarrow> instant \<Rightarrow> service_error + string" where
  "rollback_identity env q ai changed = canonical_request_identity env [PStr ''policy.rollback'', PDict
     [(''actor_is_ai'', PBool ai), (''changed_by'', PStr (py_strip (rbr_changed_by q))),
      (''evidence_refs'', refs_value (rbr_evidence_refs q)), (''policy_id'', PStr (rbr_policy_id q)),
      (''reason'', PStr (py_strip (rbr_reason q))), (''target_version'', PInt (rbr_target_version q))],
     iso env changed]"

definition plan_rollback ::
    "'h service_env \<Rightarrow> call_context \<Rightarrow> string \<Rightarrow> rollback_request \<Rightarrow> datetime \<Rightarrow> bool \<Rightarrow> 'h world_store
      \<Rightarrow> service_error + planned_policy" where
  "plan_rollback env ck subject q changed_at ai st =
     result_bind (world_revision_now st) (\<lambda>expected.
     result_bind (latest_policy env subject (rbr_policy_id q) st) (\<lambda>current.
     result_bind (get_policy env subject (rbr_policy_id q) (rbr_target_version q) st) (\<lambda>target.
     case (current, target) of
       (Some x, Some y) \<Rightarrow>
        if cgp_version (snd x) \<le> cgp_version (snd y)
        then Inl (SvValue ''rollback target must be older than current policy'')
        else result_bind (check_ai_mutable ai x (rbr_evidence_refs q)) (\<lambda>_.
        result_bind (validate_policy_refs env subject ai (rbr_evidence_refs q) st) (\<lambda>_.
        result_bind (of_contract (as_utc changed_at ''changed_at'')) (\<lambda>changed.
        result_bind (policy_object_id env subject (rbr_policy_id q)) (\<lambda>oid.
        result_bind (rollback_identity env q ai changed) (\<lambda>identity.
        plan_change env ck subject ai ''policy.rollback'' expected (change_key ''policy-rollback:'' oid identity)
          identity (''support rollback '' @ cgp_policy_id (snd x) @ ''@'' @ int_decimal (cgp_version (snd x))
            @ ''->'' @ int_decimal (cgp_version (snd y)))
          changed x (cgp_current_value (snd y)) (rbr_reason q) (rbr_evidence_refs q) (rbr_changed_by q)
          (cgp_version (snd y)) (cgp_evaluation_window (snd x)) st)))))
     | _ \<Rightarrow> Inl (SvKey ''unknown policy/version''))))"

definition rollback_policy ::
    "'h service_env \<Rightarrow> call_context \<Rightarrow> string \<Rightarrow> rollback_request \<Rightarrow> datetime \<Rightarrow> bool \<Rightarrow> 'h world_store
      \<Rightarrow> (service_error + policy_receipt) \<times> 'h world_store" where
  "rollback_policy env ck subject q changed_at ai st =
     perform_policy env ck (plan_rollback env ck subject q changed_at ai st) st"

end
