(* ===== verification/PolicyFacts.thy ===== *)
theory PolicyFacts
  imports Policies ServiceFacts Chains
begin

text \<open>
  What the policy registry guarantees: what evidence an AI change rests on, and the machine of one
  policy, which sees its newest version. Every call of the registry, on every branch, and every
  commit of other services that contains no policy is one of its changes.
\<close>

section \<open>Calls\<close>

datatype policy_call =
    Registers policy_create_request
  | Updates policy_update_request
  | RollsBack rollback_request

fun call_policy :: "'h service_env \<Rightarrow> call_context \<Rightarrow> string \<Rightarrow> policy_call \<Rightarrow> datetime \<Rightarrow> bool \<Rightarrow> 'h world_store
    \<Rightarrow> (service_error + policy_receipt) \<times> 'h world_store" where
  "call_policy env ck subject (Registers q) t ai st = register_policy env ck subject q t ai st"
| "call_policy env ck subject (Updates q) t ai st = update_policy env ck subject q t ai st"
| "call_policy env ck subject (RollsBack q) t ai st = rollback_policy env ck subject q t ai st"

fun call_evidence :: "policy_call \<Rightarrow> object_ref list" where
  "call_evidence (Registers q) = pcr_evidence_refs q"
| "call_evidence (Updates q) = pur_evidence_refs q"
| "call_evidence (RollsBack q) = rbr_evidence_refs q"

section \<open>Replays write nothing\<close>

lemma replay_exact_operation_same:
  assumes "replay_exact_operation zones digest now op st = (r, st')"
  shows "st' = st"
proof -
  have keyed: "st'' = st" if "find_idempotency st (op_idempotency_key op) = Some idem"
    "commit zones digest now objs o1 st = (x, st'')" "op_idempotency_key o1 = op_idempotency_key op" for o1 objs x st'' idem
  proof (cases x)
    case (Inl e)
    with that(2) commit_Inl show ?thesis by metis
  next
    case (Inr c)
    have "get_idempotent_result zones digest o1 objs st \<noteq> Inr None"
      using that(1,3) by (auto simp: get_idempotent_result_def result_bind_def split: sum.splits result_cell.splits option.splits)
    with that(2) Inr show ?thesis by (auto elim: commit_Inr_cases)
  qed
  show ?thesis using assms
    by (auto simp: replay_exact_operation_def split: if_splits option.splits sum.splits result_cell.splits prod.splits
        intro: keyed)
qed

lemma submit_or_replay_cases:
  assumes "submit_or_replay env ck objs op st = (r, st')"
  obtains (Same) "st' = st"
  | (Committed) c where "r = Inr c" "commit (sv_zones env) (sv_digest env) (ck_now ck) objs op st = (Inr c, st')"
      "replay_exact_operation (sv_zones env) (sv_digest env) (ck_now ck) op st = (Inr None, st)"
proof (cases "normalize_operation op")
  case (Inl e)
  with assms show ?thesis by (intro Same) (simp add: submit_or_replay_def)
next
  case (Inr op')
  then have op: "op' = op" using normalize_operation_Inr by blast
  obtain x s where x: "replay_exact_operation (sv_zones env) (sv_digest env) (ck_now ck) op st = (x, s)"
    by (cases "replay_exact_operation (sv_zones env) (sv_digest env) (ck_now ck) op st")
  then have s: "s = st" using replay_exact_operation_same by blast
  obtain y u where y: "commit (sv_zones env) (sv_digest env) (ck_now ck) objs op st = (y, u)"
    by (cases "commit (sv_zones env) (sv_digest env) (ck_now ck) objs op st")
  show ?thesis
  proof (cases "x = Inr None")
    case False
    with assms Inr op x s show ?thesis
      by (intro Same) (auto simp: submit_or_replay_def commit_or_replay_def split: sum.splits option.splits)
  next
    case True
    show ?thesis
    proof (cases y)
      case (Inl e)
      with y have "u = st" using commit_Inl by metis
      with Inl assms Inr op x s y True show ?thesis
        by (intro Same) (auto simp: submit_or_replay_def commit_or_replay_def)
    next
      case (Inr c)
      with assms \<open>normalize_operation op = Inr op'\<close> op x s y True show ?thesis
        by (intro Committed [of c]) (auto simp: submit_or_replay_def commit_or_replay_def)
    qed
  qed
qed

section \<open>Policies in the store\<close>

definition policy_now :: "'h world_store \<Rightarrow> string \<Rightarrow> cognitive_policy option" where
  "policy_now st oid = Option.bind (newest_object st oid) (\<lambda>ob. policy_body (wo_body ob))"

lemma policy_body_Some [simp]: "policy_body b = Some c \<longleftrightarrow> b = CognitivePolicy c"
  by (cases b) (simp_all add: policy_body_def)

lemma policy_body_type: "wo_object_type ob \<noteq> OT_COGNITIVE_POLICY \<Longrightarrow> policy_body (wo_body ob) = None"
  by (cases "wo_body ob") (simp_all add: wo_object_type_def policy_body_def)

lemma read_policy_Inr: "read_policy env p = Inr x \<longleftrightarrow>
  p = PayloadObject (fst x) \<and> valid_object (sv_zones env) (fst x) \<and> wo_body (fst x) = CognitivePolicy (snd x)"
  by (cases x) (simp add: read_policy_def validate_payload_as_Inr)

definition stored_now :: "'h world_store \<Rightarrow> stored_policy \<Rightarrow> bool" where
  "stored_now st x \<longleftrightarrow> newest_object st (wo_object_id (fst x)) = Some (fst x) \<and> wo_body (fst x) = CognitivePolicy (snd x)"

lemma policy_guards:
  assumes "valid_object zones ob" and "wo_body ob = CognitivePolicy c"
  shows "cgp_version c = wo_revision ob" and "1 \<le> cgp_version c"
    and "cgp_previous_version c = (if cgp_version c = 1 then None else Some (cgp_version c - 1))"
    and "\<forall>g \<in> set (policy_bound_guards (cgp_allowed_range_or_choices c) (cgp_current_value c)). \<not> fst g"
proof -
  have "\<forall>g \<in> set (cognitive_policy_guards ob c). \<not> fst g"
    using assms by (auto simp: valid_object_def world_object_guards_def first_raise_None_iff)
  then have g: "cgp_version c = wo_revision ob" "1 \<le> cgp_version c" "cgp_version c = 1 \<longrightarrow> cgp_previous_version c = None"
    "1 < cgp_version c \<longrightarrow> cgp_previous_version c = Some (cgp_version c - 1)"
    "\<forall>g \<in> set (policy_bound_guards (cgp_allowed_range_or_choices c) (cgp_current_value c)). \<not> fst g"
    by (auto simp: cognitive_policy_guards_def)
  then show "cgp_version c = wo_revision ob" "1 \<le> cgp_version c"
    "cgp_previous_version c = (if cgp_version c = 1 then None else Some (cgp_version c - 1))"
    "\<forall>g \<in> set (policy_bound_guards (cgp_allowed_range_or_choices c) (cgp_current_value c)). \<not> fst g"
    by auto
qed

lemma latest_policy_stored:
  assumes "world_inv zones st" and "latest_policy env subject i st = Inr (Some x)"
  shows "stored_now st x" and "valid_object (sv_zones env) (fst x)"
    and "policy_object_id env subject i = Inr (wo_object_id (fst x))"
proof -
  obtain oid where i: "policy_object_id env subject i = Inr oid"
    using assms(2) by (auto simp: latest_policy_def policy_version_of_def)
  then have oid: "policy_object_id env subject i = Inr oid" "get_payload st oid None None None = Inr (PayloadObject (fst x))"
    "valid_object (sv_zones env) (fst x)" "wo_body (fst x) = CognitivePolicy (snd x)"
    using assms(2) by (cases "get_payload st oid None None None";
      auto simp: latest_policy_def policy_version_of_def read_policy_Inr split: if_splits)+
  from oid(2) have "read_payload st oid None = Inr (PayloadObject (fst x))" by (simp add: read_payload_def)
  note ob = read_newest [OF this]
  have "wo_object_id (fst x) = oid" using newest_identity(1) [OF assms(1) ob] .
  with ob oid show "stored_now st x" "valid_object (sv_zones env) (fst x)"
    "policy_object_id env subject i = Inr (wo_object_id (fst x))" by (simp_all add: stored_now_def)
qed

section \<open>Plans\<close>

definition ai_mutable :: "cognitive_policy \<Rightarrow> bool" where
  "ai_mutable c \<longleftrightarrow> cgp_policy_class c = PC_COGNITIVE_POLICY \<and> cgp_mutable_by_ai c"

text \<open>What no version of a policy changes.\<close>

definition same_charter :: "cognitive_policy \<Rightarrow> cognitive_policy \<Rightarrow> bool" where
  "same_charter c c' \<longleftrightarrow> cgp_policy_id c' = cgp_policy_id c \<and> cgp_scope c' = cgp_scope c
     \<and> cgp_policy_class c' = cgp_policy_class c \<and> cgp_default_value c' = cgp_default_value c
     \<and> cgp_allowed_range_or_choices c' = cgp_allowed_range_or_choices c \<and> cgp_mutable_by_ai c' = cgp_mutable_by_ai c"

definition revised :: "cognitive_policy \<Rightarrow> cognitive_policy \<Rightarrow> bool" where
  "revised c c' \<longleftrightarrow> same_charter c c' \<and> cgp_version c' = cgp_version c + 1
     \<and> (\<exists>k. cgp_rollback_pointer c' = Some k \<and> 1 \<le> k \<and> k \<le> cgp_version c)"

definition carries :: "planned_policy \<Rightarrow> bool" where
  "carries p \<longleftrightarrow> fst (pp_policy p) \<in> set (pp_objects p) \<and> wo_body (fst (pp_policy p)) = CognitivePolicy (snd (pp_policy p))
     \<and> (\<forall>ob \<in> set (pp_objects p). ob = fst (pp_policy p) \<or> wo_object_type ob \<noteq> OT_COGNITIVE_POLICY)"

definition sound_policy_plan ::
    "'h service_env \<Rightarrow> string \<Rightarrow> bool \<Rightarrow> object_ref list \<Rightarrow> 'h world_store \<Rightarrow> planned_policy \<Rightarrow> bool" where
  "sound_policy_plan env subject ai refs st p \<longleftrightarrow>
     (let ob = fst (pp_policy p); c = snd (pp_policy p) in
      carries p \<and> valid_object (sv_zones env) ob \<and> cgp_evidence_refs c = refs
      \<and> validate_policy_refs env subject ai refs st = Inr () \<and> (ai \<longrightarrow> refs \<noteq> [])
      \<and> (wo_revision ob = 1 \<and> (ai \<longrightarrow> ai_mutable c) \<and> cgp_rollback_pointer c = None
         \<or> (\<exists>x. stored_now st x \<and> wo_object_id (fst x) = wo_object_id ob \<and> revised (snd x) c
              \<and> (ai \<longrightarrow> ai_mutable (snd x)))))"

lemma moment_object_type: "wo_object_type (moment_object i s v ext m ss b d body) = body_object_type body"
  by (simp add: moment_object_def wo_object_type_def)

lemma policy_evidence_type:
  "policy_evidence_set env subject i v refs changed purpose st = Inr (Some ev) \<Longrightarrow> wo_object_type ev = OT_EVIDENCE_SET"
  by (auto simp: policy_evidence_set_def validated_Inr moment_object_type split: if_splits)

lemma policy_dependency_type:
  "policy_dependency env subject changed i v r kind = Inr d \<Longrightarrow> wo_object_type d = OT_DEPENDENCY"
  by (auto simp: policy_dependency_def validated_Inr moment_object_type)

lemma plan_version_Inr:
  assumes "plan_version env ck subject ai name expected key identity changed purpose ob c st = Inr p"
  shows "pp_policy p = (ob\<lparr>wo_body := CognitivePolicy c\<rparr>, c)" and "carries p"
    and "valid_object (sv_zones env) (ob\<lparr>wo_body := CognitivePolicy c\<rparr>)"
    and "pp_operation p = policy_operation ck ai name (policy_arguments (cgp_policy_id c) (cgp_version c) (cgp_scope c)
           (cgp_policy_class c) (Some identity)) expected (cgp_reason c) key"
proof -
  obtain evidence objs where e: "policy_evidence_set env subject (cgp_policy_id c) (cgp_version c) (cgp_evidence_refs c)
      changed purpose st = Inr evidence"
    and v: "valid_object (sv_zones env) (ob\<lparr>wo_body := CognitivePolicy c\<rparr>)"
    and o: "policy_objects env subject changed (ob\<lparr>wo_body := CognitivePolicy c\<rparr>) (cgp_evidence_refs c) evidence = Inr objs"
    and p: "p = \<lparr>pp_policy = (ob\<lparr>wo_body := CognitivePolicy c\<rparr>, c), pp_objects = objs, pp_operation = policy_operation ck ai name
      (policy_arguments (cgp_policy_id c) (cgp_version c) (cgp_scope c) (cgp_policy_class c) (Some identity))
      expected (cgp_reason c) key\<rparr>"
    using assms by (auto simp: plan_version_def validated_Inr)
  have "\<forall>x \<in> set objs. x = ob\<lparr>wo_body := CognitivePolicy c\<rparr> \<or> wo_object_type x \<noteq> OT_COGNITIVE_POLICY"
    using o e by (auto simp: policy_objects_def dest!: policy_evidence_type policy_dependency_type result_map_mem
        split: option.splits)
  moreover have "ob\<lparr>wo_body := CognitivePolicy c\<rparr> \<in> set objs"
    using o by (auto simp: policy_objects_def split: option.splits)
  ultimately show "carries p" using p by (simp add: carries_def)
  show "pp_policy p = (ob\<lparr>wo_body := CognitivePolicy c\<rparr>, c)" using p by simp
  show "valid_object (sv_zones env) (ob\<lparr>wo_body := CognitivePolicy c\<rparr>)" by (rule v)
  show "pp_operation p = policy_operation ck ai name (policy_arguments (cgp_policy_id c) (cgp_version c) (cgp_scope c)
      (cgp_policy_class c) (Some identity)) expected (cgp_reason c) key" using p by simp
qed

lemma next_policy_revised:
  assumes "valid_object zones (fst x)" and "wo_body (fst x) = CognitivePolicy (snd x)" and "1 \<le> k" "k \<le> cgp_version (snd x)"
  shows "revised (snd x) (next_policy x v reason refs by_whom changed k w)"
  using policy_guards(1) [OF assms(1,2)] assms(3,4) by (simp add: revised_def same_charter_def next_policy_def)

lemma check_ai_mutable_Inr:
  "check_ai_mutable ai x refs = Inr () \<longleftrightarrow> (ai \<longrightarrow> ai_mutable (snd x) \<and> refs \<noteq> [])"
  by (auto simp: check_ai_mutable_def ai_mutable_def)

lemma plan_change_sound:
  assumes "plan_change env ck subject ai name expected key identity purpose changed x v reason refs by_whom k w st = Inr p"
    and "stored_now st x" "valid_object (sv_zones env) (fst x)" and "1 \<le> k" "k \<le> cgp_version (snd x)"
    and "check_ai_mutable ai x refs = Inr ()" and "validate_policy_refs env subject ai refs st = Inr ()"
  shows "sound_policy_plan env subject ai refs st p"
proof -
  have body: "wo_body (fst x) = CognitivePolicy (snd x)" using assms(2) by (simp add: stored_now_def)
  obtain due where due: "plan_version env ck subject ai name expected key identity changed purpose
      (next_policy_object env x refs by_whom changed due) (next_policy x v reason refs by_whom changed k w) st = Inr p"
    using assms(1) by (auto simp: plan_change_def)
  note plan = plan_version_Inr [OF due]
  have "revised (snd x) (next_policy x v reason refs by_whom changed k w)"
    by (rule next_policy_revised [OF assms(3) body assms(4,5)])
  with plan(2,3) assms(2,6,7) show ?thesis
    unfolding sound_policy_plan_def Let_def plan(1) check_ai_mutable_Inr
    by (auto simp: next_policy_object_def next_policy_def intro!: exI [of _ "fst x"] exI [of _ "snd x"])
qed

lemma plan_update_sound:
  assumes "world_inv zones st" and "plan_update env ck subject q t ai st = Inr p"
  shows "sound_policy_plan env subject ai (pur_evidence_refs q) st p"
proof -
  obtain expected changed x oid identity where
    x: "latest_policy env subject (pur_policy_id q) st = Inr (Some x)"
    and ok: "check_ai_mutable ai x (pur_evidence_refs q) = Inr ()"
      "validate_policy_refs env subject ai (pur_evidence_refs q) st = Inr ()"
    and plan: "plan_change env ck subject ai ''policy.update'' expected (change_key ''policy-update:'' oid identity) identity
          (''support policy update '' @ cgp_policy_id (snd x) @ ''@'' @ int_decimal (wo_revision (fst x) + 1))
          changed x (pur_current_value q) (pur_reason q) (pur_evidence_refs q) (pur_changed_by q)
          (cgp_version (snd x)) (chosen_window x (pur_evaluation_window q)) st = Inr p"
    using assms(2) by (auto simp: plan_update_def split: option.splits)
  note stored = latest_policy_stored [OF assms(1) x]
  have "1 \<le> cgp_version (snd x)" using policy_guards(2) [OF stored(2)] stored(1) by (simp add: stored_now_def)
  then show ?thesis by (rule plan_change_sound [OF plan stored(1,2)]) (use ok in simp_all)
qed

lemma get_policy_version:
  assumes "get_policy env subject i v st = Inr (Some y)"
  shows "1 \<le> cgp_version (snd y)" and "valid_object (sv_zones env) (fst y)" "wo_body (fst y) = CognitivePolicy (snd y)"
proof -
  obtain oid where "policy_object_id env subject i = Inr oid"
    using assms by (auto simp: get_policy_def policy_version_of_def)
  then show y: "valid_object (sv_zones env) (fst y)" "wo_body (fst y) = CognitivePolicy (snd y)"
    using assms by (cases "get_payload st oid (Some v) None None";
      auto simp: get_policy_def policy_version_of_def read_policy_Inr split: if_splits)+
  show "1 \<le> cgp_version (snd y)" using policy_guards(2) [OF y] .
qed

lemma plan_rollback_sound:
  assumes "world_inv zones st" and "plan_rollback env ck subject q t ai st = Inr p"
  shows "sound_policy_plan env subject ai (rbr_evidence_refs q) st p"
proof -
  obtain x y where
    x: "latest_policy env subject (rbr_policy_id q) st = Inr (Some x)"
    and y: "get_policy env subject (rbr_policy_id q) (rbr_target_version q) st = Inr (Some y)"
    using assms(2) by (fastforce simp: plan_rollback_def split: option.splits)
  then obtain expected changed oid identity purpose where
    ok: "cgp_version (snd y) < cgp_version (snd x)" "check_ai_mutable ai x (rbr_evidence_refs q) = Inr ()"
      "validate_policy_refs env subject ai (rbr_evidence_refs q) st = Inr ()"
    and plan: "plan_change env ck subject ai ''policy.rollback'' expected (change_key ''policy-rollback:'' oid identity) identity
          purpose changed x (cgp_current_value (snd y)) (rbr_reason q) (rbr_evidence_refs q) (rbr_changed_by q)
          (cgp_version (snd y)) (cgp_evaluation_window (snd x)) st = Inr p"
    using assms(2) by (auto simp: plan_rollback_def not_le split: if_splits)
  show ?thesis
    by (rule plan_change_sound [OF plan latest_policy_stored(1,2) [OF assms(1) x] get_policy_version(1) [OF y]])
      (use ok in simp_all)
qed

lemma check_register_actor_Inr: "check_register_actor ai q = Inr () \<longleftrightarrow>
  (ai \<longrightarrow> pcr_policy_class q = PC_COGNITIVE_POLICY \<and> pcr_mutable_by_ai q \<and> pcr_evidence_refs q \<noteq> [])"
  by (auto simp: check_register_actor_def)

lemma plan_register_sound:
  assumes "check_register_actor ai q = Inr ()"
    and "plan_register env ck subject q ai expected changed oid identity st = Inr p"
  shows "sound_policy_plan env subject ai (pcr_evidence_refs q) st p"
proof -
  obtain due where refs: "validate_policy_refs env subject ai (pcr_evidence_refs q) st = Inr ()"
    and plan: "plan_version env ck subject ai ''policy.register'' expected (register_key oid) identity changed
       (''register policy '' @ py_strip (pcr_policy_id q))
       (moment_object oid subject 1 (moment_extent changed) changed (map source_of (pcr_evidence_refs q))
         (''cognitive_policy:'' @ py_strip (pcr_changed_by q)) (next_evaluation env due)
         (CognitivePolicy (registered_policy q changed)))
       (registered_policy q changed) st = Inr p"
    using assms(2) by (auto simp: plan_register_def)
  note p = plan_version_Inr [OF plan]
  show ?thesis using p(2,3) refs assms(1) unfolding check_register_actor_Inr
    by (auto simp: sound_policy_plan_def Let_def p(1) moment_object_def registered_policy_def ai_mutable_def)
qed

section \<open>The effect of a call\<close>

text \<open>A call leaves the store as it is, or performs a sound plan.\<close>

lemma call_policy_cases:
  assumes "world_inv zones st" and "call_policy env ck subject call t ai st = (r, st')"
  obtains (Same) "st' = st"
  | (Planned) p where "sound_policy_plan env subject ai (call_evidence call) st p"
      "perform_policy env ck (Inr p) st = (r, st')"
proof (cases call)
  case (Updates q)
  show ?thesis
  proof (cases "plan_update env ck subject q t ai st")
    case (Inl e)
    with assms(2) Updates show ?thesis by (intro Same) (simp add: update_policy_def perform_policy_def)
  next
    case (Inr p)
    with assms(2) Updates plan_update_sound [OF assms(1) Inr] show ?thesis
      by (intro Planned [of p]) (simp_all add: update_policy_def)
  qed
next
  case (RollsBack q)
  show ?thesis
  proof (cases "plan_rollback env ck subject q t ai st")
    case (Inl e)
    with assms(2) RollsBack show ?thesis by (intro Same) (simp add: rollback_policy_def perform_policy_def)
  next
    case (Inr p)
    with assms(2) RollsBack plan_rollback_sound [OF assms(1) Inr] show ?thesis
      by (intro Planned [of p]) (simp_all add: rollback_policy_def)
  qed
next
  case (Registers q)
  have replay: "u = st" if "exact_replay_receipt env ck oid v name key ai' identity scope cls reason st = (x, u)"
    for oid v name key ai' identity scope cls reason x u
    using that by (auto simp: exact_replay_receipt_def split: sum.splits prod.splits option.splits
        dest: replay_exact_operation_same)
  show ?thesis
  proof (cases "st' = st")
    case False
    then obtain expected changed oid identity where actor: "check_register_actor ai q = Inr ()"
      and run: "perform_policy env ck (plan_register env ck subject q ai expected changed oid identity st) st = (r, st')"
      using assms(2) Registers
      by (auto simp: register_policy_def register_inputs_def split: sum.splits prod.splits option.splits if_splits dest: replay)
    show ?thesis
    proof (cases "plan_register env ck subject q ai expected changed oid identity st")
      case (Inl e)
      with run False show ?thesis by (simp add: perform_policy_def)
    next
      case (Inr p)
      with run Registers plan_register_sound [OF actor Inr] show ?thesis by (intro Planned [of p]) simp_all
    qed
  qed (rule Same)
qed

text \<open>An accepted commit at one object: its policy afterwards is the one the commit carries, if any.\<close>

lemma commit_policy_now:
  assumes inv: "world_inv zones st" and run: "commit zones digest now objs op st = (Inr c, st')"
  obtains (Same) "st' = st"
  | (Written) w h where "accepted zones digest objs op st w h" "st' = appended now (w + 1) op objs h st"
      "c = commit_result_of (w + 1) op objs" "get_idempotent_result zones digest op objs st = Inr None"
      "\<And>oid. newest_object st' oid = (case List.find (\<lambda>ob. wo_object_id ob = oid) objs of
         Some ob \<Rightarrow> Some (durable_object ob) | None \<Rightarrow> newest_object st oid)"
      "\<And>ob. ob \<in> set objs \<Longrightarrow> policy_now st' (wo_object_id ob) = policy_body (wo_body (durable_object ob))"
      "\<And>ob. ob \<in> set objs \<Longrightarrow> wo_object_type ob \<noteq> OT_COGNITIVE_POLICY \<Longrightarrow>
         policy_now st (wo_object_id ob) = None \<and> policy_now st' (wo_object_id ob) = None"
      "\<And>oid. oid \<notin> wo_object_id ` set objs \<Longrightarrow> policy_now st' oid = policy_now st oid"
  using inv run
proof (cases rule: commit_newest)
  case Replay
  then show ?thesis by (intro Same)
next
  case (Fresh w h)
  note newest = fresh_newest [where st = st, OF Fresh(5)]
  have ids: "distinct (map wo_object_id objs)" using accepted_distinct_ids [OF Fresh(2)] .
  have found: "List.find (\<lambda>x. wo_object_id x = wo_object_id ob) objs = Some ob" if "ob \<in> set objs" for ob
    using that ids by (induction objs) auto
  have now: "policy_now st' (wo_object_id ob) = policy_body (wo_body (durable_object ob))" if "ob \<in> set objs" for ob
    using newest [of "wo_object_id ob"] found [OF that] by (simp add: policy_now_def)
  have none: "policy_now st (wo_object_id ob) = None" if ob: "ob \<in> set objs" "wo_object_type ob \<noteq> OT_COGNITIVE_POLICY" for ob
  proof (rule ccontr)
    assume "policy_now st (wo_object_id ob) \<noteq> None"
    then obtain x where x: "newest_object st (wo_object_id ob) = Some x" "wo_object_type x = OT_COGNITIVE_POLICY"
      by (auto simp: policy_now_def bind_eq_Some_conv wo_object_type_def)
    from newest_identity(3) [OF inv x(1)] x(2) have "latest_object_type st (wo_object_id ob) = Some OT_COGNITIVE_POLICY"
      by (auto simp: latest_object_type_def)
    moreover have "latest_object_type st (wo_object_id ob) \<in> {None, Some (wo_object_type ob)}"
      using Fresh(2) ob(1) by (auto simp: accepted_def check_revision_Inr)
    ultimately show False using ob(2) by auto
  qed
  have none': "policy_now st' (wo_object_id ob) = None" if "ob \<in> set objs" "wo_object_type ob \<noteq> OT_COGNITIVE_POLICY" for ob
  proof -
    have "wo_object_type (durable_object ob) = wo_object_type ob"
      using durable_object_fields(6) [of ob] by (simp add: wo_object_type_def)
    with now [OF that(1)] that(2) policy_body_type [of "durable_object ob"] show ?thesis by simp
  qed
  have other: "policy_now st' oid = policy_now st oid" if "oid \<notin> wo_object_id ` set objs" for oid
  proof -
    have "List.find (\<lambda>ob. wo_object_id ob = oid) objs = None" using that by (auto simp: find_None_iff)
    with newest [of oid] show ?thesis by (simp add: policy_now_def)
  qed
  show ?thesis
    by (rule Written [OF Fresh(2,3,4,1) newest now _ other]) (use none none' in blast)+
qed

section \<open>The machine of a policy\<close>

inductive policy_change :: "bool \<Rightarrow> cognitive_policy option \<Rightarrow> cognitive_policy option \<Rightarrow> bool" for ai where
  untouched: "policy_change ai v v"
| enacted: "cgp_version c = 1 \<Longrightarrow> cgp_rollback_pointer c = None \<Longrightarrow> (ai \<Longrightarrow> ai_mutable c) \<Longrightarrow> policy_change ai None (Some c)"
| amended: "revised c c' \<Longrightarrow> (ai \<Longrightarrow> ai_mutable c) \<Longrightarrow> policy_change ai (Some c) (Some c')"

inductive_cases policy_changeE: "policy_change ai v v'"

definition durable_policy :: "cognitive_policy \<Rightarrow> cognitive_policy" where
  "durable_policy c = c\<lparr>cgp_default_value := durable_value (cgp_default_value c),
     cgp_current_value := durable_value (cgp_current_value c),
     cgp_allowed_range_or_choices := durable_value (cgp_allowed_range_or_choices c)\<rparr>"

lemma durable_policy_body: "durable_body (CognitivePolicy c) = CognitivePolicy (durable_policy c)"
  by (simp add: durable_policy_def)

lemma durable_policy_sel [simp]:
  "cgp_version (durable_policy c) = cgp_version c" "cgp_rollback_pointer (durable_policy c) = cgp_rollback_pointer c"
  "cgp_evidence_refs (durable_policy c) = cgp_evidence_refs c" "ai_mutable (durable_policy c) = ai_mutable c"
  by (simp_all add: durable_policy_def ai_mutable_def)

lemma revised_durable:
  assumes "world_inv zones st" and "stored_now st x" and "revised (snd x) c"
  shows "revised (snd x) (durable_policy c)"
proof -
  have "durable_object (fst x) = fst x" using newest_durable [OF assms(1)] assms(2) by (auto simp: stored_now_def)
  then have "durable_policy (snd x) = snd x"
    using assms(2) durable_policy_body [of "snd x"] by (auto simp: stored_now_def durable_object_def dest: arg_cong [of _ _ wo_body])
  from arg_cong [OF this, of cgp_default_value] arg_cong [OF this, of cgp_allowed_range_or_choices]
  have "durable_value (cgp_default_value (snd x)) = cgp_default_value (snd x)"
    "durable_value (cgp_allowed_range_or_choices (snd x)) = cgp_allowed_range_or_choices (snd x)"
    by (simp_all add: durable_policy_def)
  with assms(3) show ?thesis by (simp add: revised_def same_charter_def durable_policy_def)
qed

lemma enacted_new:
  assumes "world_inv zones st" and "accepted zones digest objs op st w h" and "ob \<in> set objs" "wo_revision ob = 1"
  shows "policy_now st (wo_object_id ob) = None"
proof -
  have "next_version (object_versions st (wo_object_id ob)) = 1"
    using assms(2-4) by (auto simp: accepted_def check_revision_Inr)
  from first_version_new(1) [OF assms(1) this] show ?thesis by (simp add: policy_now_def)
qed

lemma perform_policy_cases:
  assumes "perform_policy env ck (Inr p) st = (r, st')"
  obtains (Same) "st' = st"
  | (Committed) c where "commit (sv_zones env) (sv_digest env) (ck_now ck) (pp_objects p) (pp_operation p) st = (Inr c, st')"
      "replay_exact_operation (sv_zones env) (sv_digest env) (ck_now ck) (pp_operation p) st = (Inr None, st)"
      "r = answered_policy env st' c (pp_policy p)"
proof -
  obtain x s where x: "submit_or_replay env ck (pp_objects p) (pp_operation p) st = (x, s)"
    by (cases "submit_or_replay env ck (pp_objects p) (pp_operation p) st")
  with assms have s: "s = st'" by (auto simp: perform_policy_def split: sum.splits)
  from x [unfolded s] show ?thesis
  proof (cases rule: submit_or_replay_cases)
    case (Committed c)
    with assms x s show ?thesis by (intro that(2) [of c]) (simp_all add: perform_policy_def)
  qed (rule that(1))
qed

lemma call_policy_change:
  assumes inv: "world_inv (sv_zones env) st" and call: "call_policy env ck subject call t ai st = (r, st')"
  shows "policy_change ai (policy_now st oid) (policy_now st' oid)"
  using inv call
proof (cases rule: call_policy_cases)
  case (Planned p)
  let ?ob = "fst (pp_policy p)" and ?c = "snd (pp_policy p)"
  have carries: "?ob \<in> set (pp_objects p)" "wo_body ?ob = CognitivePolicy ?c"
    "\<And>ob. ob \<in> set (pp_objects p) \<Longrightarrow> ob \<noteq> ?ob \<Longrightarrow> wo_object_type ob \<noteq> OT_COGNITIVE_POLICY"
    and plan: "valid_object (sv_zones env) ?ob"
    "wo_revision ?ob = 1 \<and> (ai \<longrightarrow> ai_mutable ?c) \<and> cgp_rollback_pointer ?c = None
     \<or> (\<exists>x. stored_now st x \<and> wo_object_id (fst x) = wo_object_id ?ob \<and> revised (snd x) ?c \<and> (ai \<longrightarrow> ai_mutable (snd x)))"
    using Planned(1) by (auto simp: sound_policy_plan_def carries_def Let_def)
  from Planned(2) show ?thesis
  proof (cases rule: perform_policy_cases)
    case (Committed c)
    from inv Committed(1) show ?thesis
    proof (cases rule: commit_policy_now)
      case (Written w h)
      show ?thesis
      proof (cases "\<exists>ob \<in> set (pp_objects p). wo_object_id ob = oid \<and> ob \<noteq> ?ob")
        case True
        with Written(7) carries(3) show ?thesis by (auto simp: untouched)
      next
        case other: False
        show ?thesis
        proof (cases "wo_object_id ?ob = oid")
          case False
          with other have "oid \<notin> wo_object_id ` set (pp_objects p)" by auto
          then show ?thesis using Written(8) by (simp add: untouched)
        next
          case oid: True
          have after: "policy_now st' oid = Some (durable_policy ?c)"
            using Written(6) [OF carries(1)] oid durable_policy_body [of ?c] carries(2) by (simp add: durable_object_def)
          from plan(2) show ?thesis
          proof
            assume new: "wo_revision ?ob = 1 \<and> (ai \<longrightarrow> ai_mutable ?c) \<and> cgp_rollback_pointer ?c = None"
            have "policy_now st oid = None" using enacted_new [OF inv Written(1) carries(1)] new oid by simp
            with new after policy_guards(1) [OF plan(1) carries(2)] show ?thesis by (auto intro: enacted)
          next
            assume "\<exists>x. stored_now st x \<and> wo_object_id (fst x) = wo_object_id ?ob \<and> revised (snd x) ?c
              \<and> (ai \<longrightarrow> ai_mutable (snd x))"
            then obtain x where x: "stored_now st x" "wo_object_id (fst x) = oid" "revised (snd x) ?c" "ai \<longrightarrow> ai_mutable (snd x)"
              using oid by blast
            have "policy_now st oid = Some (snd x)" using x(1,2) by (auto simp: policy_now_def stored_now_def)
            with after x(4) revised_durable [OF inv x(1,3)] show ?thesis by (auto intro: amended)
          qed
        qed
      qed
    qed (simp add: untouched)
  qed (simp add: untouched)
qed (simp add: untouched)

text \<open>A step of the world: a call of the registry, or a commit of another service.\<close>

inductive policy_step :: "'h service_env \<Rightarrow> bool \<Rightarrow> 'h world_store \<Rightarrow> 'h world_store \<Rightarrow> bool" for env ai where
  calls: "call_policy env ck subject call t ai st = (r, st') \<Longrightarrow> policy_step env ai st st'"
| elsewhere: "commit (sv_zones env) (sv_digest env) now objs op st = (c, st') \<Longrightarrow>
    \<forall>ob \<in> set objs. wo_object_type ob \<noteq> OT_COGNITIVE_POLICY \<Longrightarrow> policy_step env ai st st'"

lemma call_policy_steps:
  assumes "world_inv (sv_zones env) st" and "call_policy env ck subject call t ai st = (r, st')"
  shows "world_steps (sv_zones env) (sv_digest env) st st'"
  using assms
proof (cases rule: call_policy_cases)
  case (Planned p)
  from Planned(2) show ?thesis
    by (cases rule: perform_policy_cases) (auto intro: r_into_rtranclp step_commit)
qed simp

lemma policy_step_inv: "world_inv (sv_zones env) st \<Longrightarrow> policy_step env ai st st' \<Longrightarrow> world_inv (sv_zones env) st'"
  by (erule policy_step.cases)
    (use commits.steps_inv [OF call_policy_steps] world_inv_step [OF _ step_commit] in blast)+

lemma policy_step_change:
  assumes "world_inv (sv_zones env) st" and "policy_step env ai st st'"
  shows "policy_change ai (policy_now st oid) (policy_now st' oid)"
  using assms(2)
proof cases
  case (calls ck subject call t r)
  then show ?thesis using call_policy_change [OF assms(1)] by blast
next
  case (elsewhere now objs op c)
  show ?thesis
  proof (cases c)
    case (Inl e)
    with elsewhere(1) commit_Inl have "st' = st" by metis
    then show ?thesis by (simp add: untouched)
  next
    case (Inr r)
    from assms(1) elsewhere(1) [unfolded Inr] show ?thesis
    proof (cases rule: commit_policy_now)
      case (Written w h)
      then show ?thesis using elsewhere(2)
        by (cases "oid \<in> wo_object_id ` set objs") (auto simp: untouched)
    qed (simp add: untouched)
  qed
qed

interpretation registry: refined_machine policy_now "policy_change ai" "world_inv (sv_zones env)" "policy_step env ai"
  for env :: "'h service_env" and ai
  by standard (fact policy_step_inv policy_step_change)+

definition descends :: "cognitive_policy \<Rightarrow> cognitive_policy \<Rightarrow> bool" where
  "descends c c' \<longleftrightarrow> same_charter c c' \<and> cgp_version c \<le> cgp_version c'"

lemma charter_kept:
  assumes "world_inv (sv_zones env) st" and "(policy_step env ai)\<^sup>*\<^sup>* st st'" and "policy_now st oid = Some c"
  shows "\<exists>c'. policy_now st' oid = Some c' \<and> descends c c'"
  by (rule registry.steps_keep [OF assms(2,1), where P = "\<lambda>v. \<exists>c'. v = Some c' \<and> descends c c'"])
    (use assms(3) in \<open>auto simp: descends_def same_charter_def revised_def elim!: policy_changeE\<close>)

lemma not_mutable_kept:
  assumes "world_inv (sv_zones env) st" and "(policy_step env True)\<^sup>*\<^sup>* st st'"
    and "policy_now st oid = Some c" and "\<not> ai_mutable c"
  shows "policy_now st' oid = Some c"
  by (rule registry.steps_keep [OF assms(2,1), where P = "\<lambda>v. v = Some c"])
    (use assms(3,4) in \<open>auto elim!: policy_changeE\<close>)

end
