(* ===== verification/PolicyEvidence.thy ===== *)
theory PolicyEvidence
  imports PolicyFacts
begin

text \<open>
  The evidence of a policy: what an AI change rests on, how a repeated request is answered, what a
  rollback restores, and what happens to a policy whose evidence is pruned.
\<close>

section \<open>Real results\<close>

definition real_case :: "'h service_env \<Rightarrow> string \<Rightarrow> 'h world_store \<Rightarrow> object_ref \<Rightarrow> bool" where
  "real_case env subject st r \<longleftrightarrow> (\<exists>ob. newest_object st (ref_object_id r) = Some ob
     \<and> ref_revision r = Some (wo_revision ob) \<and> active_status ob \<and> wo_subject_id ob = subject
     \<and> wo_object_type ob \<in> real_policy_case_types \<and> \<not> assistant_output env ob)"

definition rows_at :: "'h world_store \<Rightarrow> string \<Rightarrow> int option \<Rightarrow> revision_row list" where
  "rows_at st oid v = filter (\<lambda>r. rr_object_id r = oid \<and> (case v of None \<Rightarrow> True | Some n \<Rightarrow> rr_revision r = n)) (ws_revisions st)"

lemma read_payload_rows:
  "read_payload st oid v = result_bind (of_store (normalize_opt normalize_query_integer v)) (\<lambda>_.
     case latest_by rr_revision (rows_at st oid v) of
       None \<Rightarrow> Inl (SvStore (StoreError EC_NOT_FOUND ''object not found''))
     | Some r \<Rightarrow> of_store (decode_payload ''corrupt_object_payload'' (rr_payload r)))"
proof (cases "normalize_opt normalize_query_integer v")
  case (Inl e)
  then show ?thesis by (simp add: read_payload_def get_payload_def of_store_def)
next
  case (Inr u)
  then have "u = v"
    by (cases v) (auto simp: normalize_opt_def normalize_query_integer_def split: if_splits sum.splits)
  with Inr show ?thesis
    by (simp add: read_payload_def get_payload_def normalize_opt_def visible_def rows_at_def of_store_def del: latest_by_None
        split: option.splits)
qed

lemma read_row:
  assumes "read_payload st oid v = Inr p"
  shows "\<exists>r. latest_by rr_revision (rows_at st oid v) = Some r \<and> rr_payload r = p"
  using assms by (auto simp: read_payload_rows decode_payload_def del: latest_by_None split: option.splits payload.splits)

lemma read_pinned_newest:
  assumes "world_inv zones st" and "read_payload st oid (Some v) = Inr p"
    and "newest_object st oid = Some ob" and "wo_revision ob = v"
  shows "p = PayloadObject ob"
proof -
  obtain r where r: "latest_row st oid = Some r" "rr_payload r = PayloadObject ob" "rr_revision r = v"
    using newest_identity(3) [OF assms(1,3)] assms(4) by auto
  obtain q where q: "latest_by rr_revision (rows_at st oid (Some v)) = Some q" "rr_payload q = p"
    using read_row [OF assms(2)] by auto
  have "q \<in> set (ws_revisions st)" "row_key q = row_key r"
    using latest_by_Some [OF q(1)] latest_row_Some [OF r(1)] r(3) by (auto simp: row_key_def rows_at_def)
  then have "q = r" using rows_unique latest_row_Some [OF r(1)] assms(1) by (metis world_inv_def)
  with q(2) r(2) show ?thesis by simp
qed

lemma check_policy_ref_newest:
  assumes "world_inv zones st" and "check_policy_ref env subject strict st r = Inr ()"
  obtains ob where "newest_object st (ref_object_id r) = Some ob" "ref_revision r = Some (wo_revision ob)"
    "active_status ob" "wo_subject_id ob = subject" "read_payload st (ref_object_id r) (ref_revision r) = Inr (PayloadObject ob)"
    "strict \<Longrightarrow> check_real_result env (PayloadObject ob) = Inr ()"
proof -
  obtain p q where p: "read_payload st (ref_object_id r) (ref_revision r) = Inr p" "payload_subject p = subject"
    and q: "read_payload st (ref_object_id r) None = Inr q"
    using assms(2) by (auto simp: check_policy_ref_def split: if_splits)
  obtain ob where "q = PayloadObject ob"
    using assms(2) p q by (cases q) (simp_all add: check_policy_ref_def)
  with assms(2) p q have ob: "read_payload st (ref_object_id r) None = Inr (PayloadObject ob)" "Some (wo_revision ob) = ref_revision r"
      "active_status ob"
    and strict: "strict \<Longrightarrow> check_real_result env p = Inr ()"
    by (auto simp: check_policy_ref_def split: if_splits)
  note newest = read_newest [OF ob(1)]
  have "p = PayloadObject ob" using read_pinned_newest [OF assms(1) _ newest] p(1) ob(2) by (metis option.inject)
  with p ob newest strict show ?thesis by (intro that [of ob]) (simp_all add: payload_subject_def)
qed

lemma check_real_result_Inr: "check_real_result env (PayloadObject ob) = Inr () \<longleftrightarrow>
  wo_object_type ob \<in> real_policy_case_types \<and> \<not> assistant_output env ob"
  by (simp add: check_real_result_def)

lemma result_map_all: "result_map f xs = Inr ys \<Longrightarrow> x \<in> set xs \<Longrightarrow> \<exists>y. f x = Inr y"
  by (induction xs arbitrary: ys) auto

lemma validate_policy_refs_Inr:
  "validate_policy_refs env subject strict refs st = Inr () \<longleftrightarrow>
     (\<forall>r \<in> set refs. ref_revision r \<noteq> None \<and> check_policy_ref env subject strict st r = Inr ())"
proof -
  have "(\<exists>ys. result_map (check_policy_ref env subject strict st) refs = Inr ys) \<longleftrightarrow>
      (\<forall>r \<in> set refs. check_policy_ref env subject strict st r = Inr ())"
    by (induction refs) auto
  then show ?thesis by (auto simp: validate_policy_refs_def list_ex_iff)
qed

lemma ai_change_evidence:
  assumes inv: "world_inv (sv_zones env) st" and call: "call_policy env ck subject call t True st = (r, st')" and "st' \<noteq> st"
  shows "call_evidence call \<noteq> [] \<and> (\<forall>x \<in> set (call_evidence call). real_case env subject st x)"
  using inv call
proof (cases rule: call_policy_cases)
  case (Planned p)
  have "real_case env subject st x" if x: "x \<in> set (call_evidence call)" for x
  proof -
    have "check_policy_ref env subject True st x = Inr ()"
      using Planned(1) x by (simp add: sound_policy_plan_def Let_def validate_policy_refs_Inr)
    from inv this show ?thesis
      by (rule check_policy_ref_newest) (auto simp: real_case_def check_real_result_Inr)
  qed
  with Planned(1) show ?thesis by (simp add: sound_policy_plan_def Let_def)
qed (use assms(3) in simp)

section \<open>An operator repeats a registration\<close>

lemma probe_invalid:
  "\<exists>e. normalize_operation (replay_probe ck False name arguments expected reason key) = Inl e"
proof (cases "normalize_operation (replay_probe ck False name arguments expected reason key)")
  case (Inr op)
  from normalize_operation_Inr [OF this] show ?thesis by (simp add: replay_probe_def service_request_def)
qed blast

lemma operator_registration_repeated:
  assumes "policy_object_id env subject (py_strip (pcr_policy_id q)) = Inr oid" and "read_payload st oid None = Inr p"
  shows "\<exists>e. register_policy env ck subject q t False st = (Inl e, st) \<and> e \<noteq> SvValue ''policy already registered''"
proof -
  have found: "get_payload st oid None None None = Inr p" using assms(2) by (simp add: read_payload_def)
  have "\<exists>e. exact_replay_receipt env ck oid 1 name key False identity scope cls reason st = (Inl e, st)
      \<and> e \<noteq> SvValue ''policy already registered''" for name key identity scope cls reason
  proof (cases "world_revision_now st")
    case (Inl e)
    then have "e \<noteq> SvValue ''policy already registered''" by (auto simp: world_revision_now_def of_store_def split: sum.splits)
    with Inl assms(2) show ?thesis by (simp add: exact_replay_receipt_def)
  next
    case (Inr w)
    obtain e where "normalize_operation (replay_probe ck False name
        (policy_arguments (payload_policy_id p) 1 scope cls (Some identity)) w reason key) = Inl e"
      using probe_invalid by blast
    with Inr assms(2) show ?thesis by (simp add: exact_replay_receipt_def of_contract_def)
  qed
  note replay = this
  show ?thesis
  proof (cases "register_inputs env subject q t False st")
    case (Inl e)
    then have "e \<noteq> SvValue ''policy already registered''"
      using assms(1) by (auto simp: register_inputs_def world_revision_now_def of_store_def of_contract_def
          check_register_actor_def register_identity_def canonical_request_identity_def result_bind_def split: sum.splits)
    with Inl show ?thesis by (simp add: register_policy_def)
  next
    case (Inr y)
    obtain expected changed identity where y: "y = (expected, changed, oid, identity)"
      using Inr assms(1) by (auto simp: register_inputs_def)
    obtain e where "exact_replay_receipt env ck oid 1 ''policy.register'' (register_key oid) False identity
        (py_strip (pcr_scope q)) (pcr_policy_class q) (py_strip (pcr_reason q)) st = (Inl e, st)"
      "e \<noteq> SvValue ''policy already registered''" using replay by blast
    with Inr y found show ?thesis by (simp add: register_policy_def)
  qed
qed

section \<open>A rollback restores the target\<close>

lemma durable_row:
  assumes "world_inv zones st" and "read_payload st oid v = Inr (PayloadObject ob)"
  shows "durable_object ob = ob"
proof -
  obtain r where "latest_by rr_revision (rows_at st oid v) = Some r" "rr_payload r = PayloadObject ob"
    using read_row [OF assms(2)] by blast
  then have "payload_ok zones r" "rr_payload r = PayloadObject ob"
    using assms(1) latest_by_Some by (fastforce simp: world_inv_def payload_inv_def rows_at_def)+
  then show ?thesis by (cases "rr_revision_kind r") (auto simp: payload_ok_def durable_object_idem)
qed

lemma get_policy_durable:
  assumes "world_inv zones st" and "get_policy env subject i v st = Inr (Some y)"
  shows "durable_value (cgp_current_value (snd y)) = cgp_current_value (snd y)"
proof -
  obtain oid where oid: "policy_object_id env subject i = Inr oid"
    using assms(2) by (auto simp: get_policy_def policy_version_of_def)
  then have y: "get_payload st oid (Some v) None None = Inr (PayloadObject (fst y))" "wo_body (fst y) = CognitivePolicy (snd y)"
    using assms(2) by (cases "get_payload st oid (Some v) None None";
      auto simp: get_policy_def policy_version_of_def read_policy_Inr split: if_splits)+
  then have "read_payload st oid (Some v) = Inr (PayloadObject (fst y))" by (simp add: read_payload_def)
  from durable_row [OF assms(1) this] have "durable_body (CognitivePolicy (snd y)) = CognitivePolicy (snd y)"
    using y(2) by (auto simp: durable_object_def dest: arg_cong [of _ _ wo_body])
  then have "durable_policy (snd y) = snd y" unfolding durable_policy_body by simp
  from arg_cong [OF this, of cgp_current_value] show ?thesis by (simp add: durable_policy_def)
qed

lemma performed_policy_now:
  assumes inv: "world_inv (sv_zones env) st" and run: "perform_policy env ck (Inr p) st = (r, st')" and "st' \<noteq> st"
    and "carries p"
  shows "policy_now st' (wo_object_id (fst (pp_policy p))) = Some (durable_policy (snd (pp_policy p)))"
  using run
proof (cases rule: perform_policy_cases)
  case (Committed c)
  from inv Committed(1) show ?thesis
  proof (cases rule: commit_policy_now)
    case (Written w h)
    have carried: "fst (pp_policy p) \<in> set (pp_objects p)" "wo_body (fst (pp_policy p)) = CognitivePolicy (snd (pp_policy p))"
      using assms(4) by (simp_all add: carries_def)
    then show ?thesis using Written(6) [OF carried(1)] durable_policy_body [of "snd (pp_policy p)"]
      by (simp add: durable_object_def)
  qed (use assms(3) in simp)
qed (use assms(3) in simp)

lemma plan_change_Inr:
  assumes "plan_change env ck subject ai name expected key identity purpose changed x v reason refs by_whom changed_pointer w st = Inr p"
  obtains due where "pp_policy p = ((next_policy_object env x refs by_whom changed due)
      \<lparr>wo_body := CognitivePolicy (next_policy x v reason refs by_whom changed changed_pointer w)\<rparr>,
      next_policy x v reason refs by_whom changed changed_pointer w)" "carries p"
proof -
  obtain due where "plan_version env ck subject ai name expected key identity changed purpose
      (next_policy_object env x refs by_whom changed due) (next_policy x v reason refs by_whom changed changed_pointer w) st = Inr p"
    using assms by (auto simp: plan_change_def)
  from plan_version_Inr(1,2) [OF this] show ?thesis by (rule that)
qed

lemma rollback_restores:
  assumes inv: "world_inv (sv_zones env) st" and call: "rollback_policy env ck subject q t ai st = (r, st')" and "st' \<noteq> st"
  obtains x y where "latest_policy env subject (rbr_policy_id q) st = Inr (Some x)"
    "get_policy env subject (rbr_policy_id q) (rbr_target_version q) st = Inr (Some y)"
    "\<exists>c. policy_now st' (wo_object_id (fst x)) = Some c \<and> cgp_current_value c = cgp_current_value (snd y)
       \<and> cgp_version c = cgp_version (snd x) + 1 \<and> cgp_rollback_pointer c = Some (cgp_version (snd y))
       \<and> cgp_evidence_refs c = rbr_evidence_refs q"
proof -
  obtain p where p: "plan_rollback env ck subject q t ai st = Inr p" "perform_policy env ck (Inr p) st = (r, st')"
    using call assms(3) by (cases "plan_rollback env ck subject q t ai st") (simp_all add: rollback_policy_def perform_policy_def)
  obtain x y where
    x: "latest_policy env subject (rbr_policy_id q) st = Inr (Some x)"
    and y: "get_policy env subject (rbr_policy_id q) (rbr_target_version q) st = Inr (Some y)"
    using p(1) by (fastforce simp: plan_rollback_def split: option.splits)
  then obtain expected changed oid identity purpose where
    plan: "plan_change env ck subject ai ''policy.rollback'' expected (change_key ''policy-rollback:'' oid identity) identity
          purpose changed x (cgp_current_value (snd y)) (rbr_reason q) (rbr_evidence_refs q) (rbr_changed_by q)
          (cgp_version (snd y)) (cgp_evaluation_window (snd x)) st = Inr p"
    using p(1) by (auto simp: plan_rollback_def split: if_splits)
  note stored = latest_policy_stored [OF inv x]
  have version: "cgp_version (snd x) = wo_revision (fst x)"
    using policy_guards(1) [OF stored(2)] stored(1) by (simp add: stored_now_def)
  from plan show ?thesis
  proof (rule plan_change_Inr)
    fix due
    assume due: "pp_policy p = ((next_policy_object env x (rbr_evidence_refs q) (rbr_changed_by q) changed due)
        \<lparr>wo_body := CognitivePolicy (next_policy x (cgp_current_value (snd y)) (rbr_reason q) (rbr_evidence_refs q)
          (rbr_changed_by q) changed (cgp_version (snd y)) (cgp_evaluation_window (snd x)))\<rparr>,
        next_policy x (cgp_current_value (snd y)) (rbr_reason q) (rbr_evidence_refs q) (rbr_changed_by q) changed
          (cgp_version (snd y)) (cgp_evaluation_window (snd x)))" and "carries p"
    from performed_policy_now [OF inv p(2) assms(3) this(2)]
    have "policy_now st' (wo_object_id (fst x)) = Some (durable_policy (next_policy x (cgp_current_value (snd y)) (rbr_reason q)
        (rbr_evidence_refs q) (rbr_changed_by q) changed (cgp_version (snd y)) (cgp_evaluation_window (snd x))))"
      unfolding due by (simp add: next_policy_object_def)
    then show ?thesis using get_policy_durable [OF inv y] version
      by (intro that [OF x y]) (simp add: durable_policy_def next_policy_def)
  qed
qed

section \<open>Pruned evidence\<close>

lemma prune_reads_other:
  assumes "prune now oid a why st = (Inr u, st')" and "latest_row st oid = Some r"
    and "i \<noteq> oid \<or> v = Some n \<and> n \<noteq> rr_revision r + 1"
  shows "read_payload st' i v = read_payload st i v"
proof -
  obtain w where "ws_revisions st' = ws_revisions st @ [tombstone_row now (w + 1) a why r]"
    using assms(1,2) by (cases rule: prune_Inr) auto
  then have "rows_at st' i v = rows_at st i v"
    using assms(3) latest_row_Some [OF assms(2)] by (auto simp: rows_at_def)
  then show ?thesis by (simp add: read_payload_rows)
qed

lemma prune_reads_tombstone:
  assumes "prune now oid a why st = (Inr u, st')" and "latest_row st oid = Some r"
  shows "\<exists>t. read_payload st' oid None = Inr (PayloadTombstone t)"
proof -
  obtain w where rows: "ws_revisions st' = ws_revisions st @ [tombstone_row now (w + 1) a why r]"
    using assms(1,2) by (cases rule: prune_Inr) auto
  let ?t = "tombstone_row now (w + 1) a why r"
  note r = latest_row_Some [OF assms(2)]
  have "rows_at st' oid None = rows_at st oid None @ [?t]" using rows r by (simp add: rows_at_def)
  moreover have "\<forall>q \<in> set (rows_at st oid None). rr_revision q < rr_revision ?t"
    using r by (auto simp: rows_at_def)
  ultimately have "latest_by rr_revision (rows_at st' oid None) = Some ?t" by (simp add: latest_by_snoc)
  then show ?thesis
    by (simp add: read_payload_rows normalize_opt_def of_store_def decode_payload_def tombstone_row_def)
qed

lemma pruned_evidence_check:
  assumes inv: "world_inv zones st" and prune: "prune now oid a why st = (Inr u, st')"
    and ok: "check_policy_ref env subject False st x = Inr ()"
  shows "check_policy_ref env subject False st' x
    = (if ref_object_id x = oid then Inl (SvKey ''revision'') else Inr ())"
  using inv ok
proof (rule check_policy_ref_newest)
  fix ob
  assume ob: "newest_object st (ref_object_id x) = Some ob" "ref_revision x = Some (wo_revision ob)"
    "read_payload st (ref_object_id x) (ref_revision x) = Inr (PayloadObject ob)" "wo_subject_id ob = subject"
  obtain r where r: "latest_row st oid = Some r" using prune by (cases rule: prune_Inr)
  show ?thesis
  proof (cases "ref_object_id x = oid")
    case False
    then have "read_payload st' (ref_object_id x) v = read_payload st (ref_object_id x) v" for v
      using prune_reads_other [OF prune r, where i = "ref_object_id x"] by simp
    then have "check_policy_ref env subject False st' x = check_policy_ref env subject False st x"
      by (simp only: check_policy_ref_def)
    with ok False show ?thesis by simp
  next
    case True
    have "rr_revision r = wo_revision ob" using newest_identity(3) [OF inv ob(1)] True r by auto
    then have "read_payload st' oid (ref_revision x) = Inr (PayloadObject ob)"
      using prune_reads_other [OF prune r, where i = oid and v = "ref_revision x" and n = "wo_revision ob"] ob(2,3) True by simp
    moreover obtain t where "read_payload st' oid None = Inr (PayloadTombstone t)"
      using prune_reads_tombstone [OF prune r] by blast
    ultimately show ?thesis using True ob(4) by (simp add: check_policy_ref_def payload_subject_def)
  qed
qed

lemma result_map_key_error:
  assumes "\<forall>x \<in> set xs. f x = Inr () \<or> f x = Inl e" and "\<exists>x \<in> set xs. f x = Inl e"
  shows "result_map f xs = Inl e"
  using assms by (induction xs) force+

lemma pruned_evidence_value:
  assumes inv: "world_inv (sv_zones env) st" and latest: "latest_policy env subject i st = Inr (Some x)"
    and effective: "is_effective env subject st x = Inr True"
    and prune: "prune now oid a why st = (Inr u, st')"
    and oid: "oid \<in> ref_object_id ` set (cgp_evidence_refs (snd x))" "oid \<noteq> wo_object_id (fst x)"
  shows "effective_value env subject i d st' = Inl (SvKey ''revision'')"
proof -
  obtain r where r: "latest_row st oid = Some r" using prune by (cases rule: prune_Inr)
  have status: "wo_status (fst x) = ''active''" and refs: "validate_policy_refs env subject False (cgp_evidence_refs (snd x)) st = Inr ()"
    using effective by (auto simp: is_effective_def split: if_splits sum.splits)
  note stored = latest_policy_stored [OF inv latest]
  have "get_payload st' (wo_object_id (fst x)) None None None = get_payload st (wo_object_id (fst x)) None None None"
    using prune_reads_other [OF prune r, where i = "wo_object_id (fst x)" and v = None] oid(2)
    by (auto simp: read_payload_def of_store_def split: sum.splits)
  then have latest': "latest_policy env subject i st' = Inr (Some x)"
    using latest stored(3) by (simp add: latest_policy_def policy_version_of_def)
  have "result_map (check_policy_ref env subject False st') (cgp_evidence_refs (snd x)) = Inl (SvKey ''revision'')"
    using refs oid(1) pruned_evidence_check [OF inv prune]
    by (intro result_map_key_error) (auto simp: validate_policy_refs_Inr)
  then have "validate_policy_refs env subject False (cgp_evidence_refs (snd x)) st' = Inl (SvKey ''revision'')"
    using refs by (simp add: validate_policy_refs_def split: if_splits)
  with latest' status show ?thesis by (simp add: effective_value_def is_effective_def ineffective_error_def)
qed

end
