(* ===== verification/PolicyReplay.thy ===== *)
theory PolicyReplay
  imports PolicyEvidence
begin

text \<open>
  A repeated update is recovered: after any run of the registry, by operators and by the AI, and of
  other services, the same request answers the receipt of its first application and writes nothing.
\<close>

section \<open>The plan of an update\<close>

text \<open>
  The key and the fingerprint of an update come from the request alone, so a second
  application finds the first one, whatever version the policy has reached since.
\<close>

lemma plan_update_Inr:
  assumes "plan_update env ck subject q t ai st = Inr p"
  obtains expected changed x oid identity due where "world_revision_now st = Inr expected"
    "latest_policy env subject (pur_policy_id q) st = Inr (Some x)" "as_utc t ''changed_at'' = Inr changed"
    "policy_object_id env subject (pur_policy_id q) = Inr oid" "update_identity env q changed = Inr identity"
    "snd (pp_policy p) = next_policy x (pur_current_value q) (pur_reason q) (pur_evidence_refs q) (pur_changed_by q) changed
       (cgp_version (snd x)) (chosen_window x (pur_evaluation_window q))"
    "fst (pp_policy p) = (next_policy_object env x (pur_evidence_refs q) (pur_changed_by q) changed due)
       \<lparr>wo_body := CognitivePolicy (snd (pp_policy p))\<rparr>"
    "pp_operation p = policy_operation ck ai ''policy.update'' (policy_arguments (cgp_policy_id (snd x))
       (wo_revision (fst x) + 1) (cgp_scope (snd x)) (cgp_policy_class (snd x)) (Some identity)) expected
       (py_strip (pur_reason q)) (change_key ''policy-update:'' oid identity)"
proof -
  obtain expected changed x oid identity due where
    x: "world_revision_now st = Inr expected"
      "latest_policy env subject (pur_policy_id q) st = Inr (Some x)" "as_utc t ''changed_at'' = Inr changed"
      "policy_object_id env subject (pur_policy_id q) = Inr oid" "update_identity env q changed = Inr identity"
    and plan: "plan_version env ck subject ai ''policy.update'' expected (change_key ''policy-update:'' oid identity) identity
        changed (''support policy update '' @ cgp_policy_id (snd x) @ ''@'' @ int_decimal (wo_revision (fst x) + 1))
        (next_policy_object env x (pur_evidence_refs q) (pur_changed_by q) changed due)
        (next_policy x (pur_current_value q) (pur_reason q) (pur_evidence_refs q) (pur_changed_by q) changed
          (cgp_version (snd x)) (chosen_window x (pur_evaluation_window q))) st = Inr p"
    using assms by (auto simp: plan_update_def plan_change_def split: option.splits)
  from plan_version_Inr(1,4) [OF plan] show ?thesis
    by (intro that [OF x, of due]) (simp_all add: next_policy_def)
qed

section \<open>Operations\<close>

lemma policy_operation_normal:
  assumes "normalize_operation (policy_operation ck ai name args expected reason key) = Inr op"
    and "\<not> blank (ck_operation_id ck2)" "0 \<le> expected2"
  shows "normalize_operation (policy_operation ck2 ai2 name args expected2 reason key)
    = Inr (policy_operation ck2 ai2 name args expected2 reason key)"
  using assms
  by (auto simp: normalize_operation_def policy_operation_def service_request_def operation_fields_def
      validate_source_class_def validate_nonblank_identity_fields_def nonempty_field_def first_raise_None_iff blank_iff
      split: if_splits)

lemma policy_operation_normalD:
  assumes "normalize_operation (policy_operation ck ai name args expected reason key) = Inr op"
  shows "\<not> blank (ck_operation_id ck)" and "0 \<le> expected"
  using assms by (auto simp: normalize_operation_def policy_operation_def service_request_def operation_fields_def
      validate_nonblank_identity_fields_def first_raise_None_iff split: if_splits)

lemma policy_operation_retargeted:
  "(policy_operation ck2 ai2 name args expected2 reason key)
     \<lparr>op_operation_id := ck_operation_id ck, op_expected_world_revision := expected\<rparr>
   = policy_operation ck ai2 name args expected reason key"
  by (simp add: policy_operation_def service_request_def)

lemma policy_operation_identity:
  "request_identity_of (policy_operation ck ai2 name args expected reason key) objs
   = request_identity_of (policy_operation ck ai name args expected reason key) objs"
  by (simp add: policy_operation_def service_request_def request_identity_of_def)

lemma policy_operation_sel [simp]:
  "op_operation_id (policy_operation ck ai name args expected reason key) = ck_operation_id ck"
  "op_expected_world_revision (policy_operation ck ai name args expected reason key) = expected"
  "op_idempotency_key (policy_operation ck ai name args expected reason key) = key"
  by (simp_all add: policy_operation_def service_request_def)

section \<open>Planned objects are durable\<close>

lemma durable_dict_put:
  assumes "durable_dict d = d" and "durable_value v = v"
  shows "durable_dict (dict_put k v d) = dict_put k v d"
proof -
  have all: "durable_dict e = e \<longleftrightarrow> (\<forall>x \<in> set e. durable_value (snd x) = snd x)" for e
    by (induction e) (auto simp: durable_dict_def)
  show ?thesis using assms unfolding all by (auto simp: dict_put_def set_insort_key)
qed

lemma durable_moment_object:
  "durable_object (moment_object i s v ext m ss b d body) = moment_object i s v ext m ss b (durable_dict d) (durable_body body)"
  by (simp add: moment_object_def durable_object_def)

lemma policy_evidence_durable:
  "policy_evidence_set env subject i v refs changed purpose st = Inr (Some ev) \<Longrightarrow> durable_object ev = ev"
  by (auto simp: policy_evidence_set_def validated_Inr durable_moment_object durable_dict_def split: if_splits)

lemma policy_dependency_durable:
  "policy_dependency env subject changed i v r kind = Inr d \<Longrightarrow> durable_object d = d"
  by (auto simp: policy_dependency_def validated_Inr durable_moment_object durable_dict_def)

lemma next_policy_object_durable:
  assumes "durable_object (fst x) = fst x" and "wo_body (fst x) = CognitivePolicy (snd x)" and "durable_value v = v"
  shows "durable_object ((next_policy_object env x refs by_whom changed due)
      \<lparr>wo_body := CognitivePolicy (next_policy x v reason refs by_whom changed k w)\<rparr>)
    = (next_policy_object env x refs by_whom changed due)
      \<lparr>wo_body := CognitivePolicy (next_policy x v reason refs by_whom changed k w)\<rparr>"
proof -
  have "durable_dict (wo_metadata (fst x)) = wo_metadata (fst x)" "durable_body (CognitivePolicy (snd x)) = CognitivePolicy (snd x)"
    using arg_cong [OF assms(1), of wo_metadata] arg_cong [OF assms(1), of wo_body] assms(2)
    by (simp_all add: durable_object_def)
  then have meta: "durable_dict (dict_update (wo_metadata (fst x)) (next_evaluation env due))
      = dict_update (wo_metadata (fst x)) (next_evaluation env due)"
    and policy: "durable_policy (snd x) = snd x"
    unfolding durable_policy_body by (simp_all add: dict_update_def next_evaluation_def durable_dict_put iso_def)
  have "durable_policy (next_policy x v reason refs by_whom changed k w) = next_policy x v reason refs by_whom changed k w"
    using arg_cong [OF policy, of cgp_default_value] arg_cong [OF policy, of cgp_allowed_range_or_choices] assms(3)
    by (simp add: durable_policy_def next_policy_def)
  then have "durable_body (CognitivePolicy (next_policy x v reason refs by_whom changed k w))
      = CognitivePolicy (next_policy x v reason refs by_whom changed k w)" unfolding durable_policy_body by simp
  then show ?thesis
    using meta by (simp add: durable_object_def next_policy_object_def del: durable_body.simps)
qed

lemma plan_version_durable:
  assumes "plan_version env ck subject ai name expected key identity changed purpose ob c st = Inr p"
    and "durable_object (ob\<lparr>wo_body := CognitivePolicy c\<rparr>) = ob\<lparr>wo_body := CognitivePolicy c\<rparr>"
  shows "\<forall>x \<in> set (pp_objects p). durable_object x = x"
proof -
  obtain evidence objs where e: "policy_evidence_set env subject (cgp_policy_id c) (cgp_version c) (cgp_evidence_refs c)
      changed purpose st = Inr evidence"
    and o: "policy_objects env subject changed (ob\<lparr>wo_body := CognitivePolicy c\<rparr>) (cgp_evidence_refs c) evidence = Inr objs"
    and p: "pp_objects p = objs"
    using assms(1) by (auto simp: plan_version_def validated_Inr)
  show ?thesis using o e assms(2) unfolding p
    by (auto simp: policy_objects_def dest!: result_map_mem policy_evidence_durable policy_dependency_durable
        split: option.splits)
qed

section \<open>Reading a committed version\<close>

lemma read_stored_version:
  assumes "world_inv zones st" and "content_row w ob \<in> set (ws_revisions st)" and "durable_object ob = ob"
  shows "read_payload st (wo_object_id ob) (Some (wo_revision ob)) = Inr (PayloadObject ob)"
proof -
  let ?r = "content_row w ob" and ?rows = "rows_at st (wo_object_id ob) (Some (wo_revision ob))"
  have unique: "q = ?r" if "q \<in> set ?rows" for q
    using that rows_unique [OF _ _ assms(2), of q] assms(1) by (auto simp: rows_at_def row_key_def world_inv_def)
  have "?r \<in> set ?rows" using assms(2) by (simp add: rows_at_def)
  then have "latest_by rr_revision ?rows \<noteq> None" unfolding latest_by_None by auto
  then obtain q where q: "latest_by rr_revision ?rows = Some q" by blast
  moreover have "q = ?r" by (rule unique [OF conjunct1 [OF latest_by_Some [OF q]]])
  moreover have "payload_ok zones ?r" using assms(1,2) by (auto simp: world_inv_def payload_inv_def)
  ultimately show ?thesis using assms(3)
    by (simp add: read_payload_rows normalize_opt_def normalize_query_integer_def payload_ok_def of_store_def decode_payload_def
        split: sum.splits)
qed

lemma rows_stay:
  assumes "world_steps zones digest st st'" and "world_inv zones st" and "r \<in> set (ws_revisions st)"
  shows "r \<in> set (ws_revisions st')"
  using revisions.steps_log [OF assms(1,2)] assms(3) by auto

lemma answered_replay:
  assumes "world_inv zones st" and "distinct (map wo_object_id objs)" and "ob \<in> set objs"
    and "content_row w ob \<in> set (ws_revisions st)" and "durable_object ob = ob"
    and "valid_object (sv_zones env) ob" and "wo_body ob = CognitivePolicy c" and "wo_object_id (fst x) = wo_object_id ob"
  shows "answered_policy env st ((commit_result_of n op objs)\<lparr>cr_idempotent_replay := True\<rparr>) x = Inr (receipt_of (ob, c) n)"
proof -
  have "List.find (\<lambda>k. fst k = wo_object_id ob) (map object_key objs) = Some (object_key ob)"
    using assms(2,3) by (induction objs) (auto simp: object_key_def)
  moreover have "read_policy env (PayloadObject ob) = Inr (ob, c)" using assms(6,7) by (simp add: read_policy_Inr)
  ultimately show ?thesis using read_stored_version [OF assms(1,4,5)] assms(8)
    by (simp add: answered_policy_def commit_result_of_def object_key_def)
qed

section \<open>Any run of the registry\<close>

definition registry_step :: "'h service_env \<Rightarrow> 'h world_store \<Rightarrow> 'h world_store \<Rightarrow> bool" where
  "registry_step env st st' \<longleftrightarrow> (\<exists>ai. policy_step env ai st st')"

definition any_policy_change :: "cognitive_policy option \<Rightarrow> cognitive_policy option \<Rightarrow> bool" where
  "any_policy_change v v' \<longleftrightarrow> (\<exists>ai. policy_change ai v v')"

interpretation whole_registry: refined_machine policy_now any_policy_change "world_inv (sv_zones env)" "registry_step env"
  for env :: "'h service_env"
  by standard (auto simp: registry_step_def any_policy_change_def intro: policy_step_inv policy_step_change)

lemma registry_step_world:
  "world_inv (sv_zones env) st \<Longrightarrow> registry_step env st st' \<Longrightarrow> world_steps (sv_zones env) (sv_digest env) st st'"
  by (auto simp: registry_step_def elim!: policy_step.cases intro: call_policy_steps r_into_rtranclp step_commit)

lemma registry_steps_world:
  assumes "world_inv (sv_zones env) st" and "(registry_step env)\<^sup>*\<^sup>* st st'"
  shows "world_steps (sv_zones env) (sv_digest env) st st'"
  using assms(2)
proof (induction rule: rtranclp_induct)
  case (step t u)
  have "world_inv (sv_zones env) t" using whole_registry.steps_inv [OF step.hyps(1) assms(1)] .
  from registry_step_world [OF this step.hyps(2)] step.IH show ?case by auto
qed simp

lemma any_charter_kept:
  assumes "world_inv (sv_zones env) st" and "(registry_step env)\<^sup>*\<^sup>* st st'" and "policy_now st oid = Some c"
  shows "\<exists>c'. policy_now st' oid = Some c' \<and> descends c c'"
  by (rule whole_registry.steps_keep [OF assms(2,1), where P = "\<lambda>v. \<exists>c'. v = Some c' \<and> descends c c'"])
    (use assms(3) in \<open>auto simp: descends_def same_charter_def revised_def any_policy_change_def elim!: policy_changeE\<close>)

section \<open>A used key\<close>

text \<open>A key that served a request never writes again, whatever the request that carries it.\<close>

lemma used_key_commit:
  assumes "find_idempotency st (op_idempotency_key op) \<noteq> None" and "op_idempotency_key op \<noteq> []"
  shows "snd (commit zones digest now objs op st) = st"
proof (cases "commit zones digest now objs op st")
  case (Pair r st')
  show ?thesis
  proof (cases r)
    case (Inl e)
    with Pair commit_Inl show ?thesis by (metis snd_conv)
  next
    case (Inr c)
    have "get_idempotent_result zones digest op objs st \<noteq> Inr None"
      using assms by (auto simp: get_idempotent_result_def split: option.splits sum.splits if_splits result_cell.splits)
    with Pair Inr show ?thesis by (auto elim: commit_Inr_cases)
  qed
qed

lemma used_key_replays:
  assumes "operation_for_idempotency_key st (op_idempotency_key op) \<noteq> None"
    and "find_idempotency st (op_idempotency_key op) \<noteq> None" and "op_idempotency_key op \<noteq> []"
  shows "snd (commit_or_replay zones digest now objs op st) = st"
proof -
  have "snd (commit zones digest now objs' (op\<lparr>op_operation_id := i, op_expected_world_revision := w\<rparr>) st) = st" for objs' i w
    using assms(2,3) by (intro used_key_commit) simp_all
  then have "fst (replay_exact_operation zones digest now op st) \<noteq> Inr None \<and> snd (replay_exact_operation zones digest now op st) = st"
    using assms by (auto simp: replay_exact_operation_def split: option.splits sum.splits prod.splits result_cell.splits)
      (metis snd_conv)+
  then show ?thesis by (auto simp: commit_or_replay_def split: prod.splits sum.splits option.splits)
qed

section \<open>A repeated update\<close>

lemma world_revision_nonneg:
  assumes "world_inv zones st" and "world_revision_now st = Inr w"
  shows "0 \<le> w"
  using assms by (auto simp: world_revision_now_def current_world_revision_def world_inv_def clock_inv_def
      parse_world_revision_row_def split: if_splits)

lemma plan_update_durable:
  assumes inv: "world_inv zones st" and plan: "plan_update env ck subject q t ai st = Inr p"
    and "durable_value (pur_current_value q) = pur_current_value q"
  shows "\<forall>ob \<in> set (pp_objects p). durable_object ob = ob"
proof -
  obtain expected changed x identity key purpose due where
    x: "latest_policy env subject (pur_policy_id q) st = Inr (Some x)"
    and plan: "plan_version env ck subject ai ''policy.update'' expected key identity changed purpose
        (next_policy_object env x (pur_evidence_refs q) (pur_changed_by q) changed due)
        (next_policy x (pur_current_value q) (pur_reason q) (pur_evidence_refs q) (pur_changed_by q) changed
          (cgp_version (snd x)) (chosen_window x (pur_evaluation_window q))) st = Inr p"
    using plan by (auto simp: plan_update_def plan_change_def split: option.splits)
  note stored = latest_policy_stored [OF inv x]
  have "durable_object (fst x) = fst x" using newest_durable [OF inv] stored(1) by (auto simp: stored_now_def)
  then show ?thesis
    using stored(1) assms(3) by (intro plan_version_durable [OF plan] next_policy_object_durable) (simp_all add: stored_now_def)
qed

text \<open>The operation of an update depends on the store through the charter and the expected revision only.\<close>

lemma plan_update_operation:
  assumes inv: "world_inv zones st" and plan: "plan_update env ck subject q t ai st = Inr p"
  obtains oid c identity changed expected where
    "policy_object_id env subject (pur_policy_id q) = Inr oid" "policy_now st oid = Some c"
    "as_utc t ''changed_at'' = Inr changed" "update_identity env q changed = Inr identity"
    "wo_object_id (fst (pp_policy p)) = oid" "0 \<le> expected"
    "pp_operation p = policy_operation ck ai ''policy.update''
       (policy_arguments (cgp_policy_id c) 0 [] (cgp_policy_class c) (Some identity)) expected
       (py_strip (pur_reason q)) (change_key ''policy-update:'' oid identity)"
proof -
  from plan show ?thesis
  proof (rule plan_update_Inr)
    fix expected changed x oid identity due
    assume w: "world_revision_now st = Inr expected"
      and u: "latest_policy env subject (pur_policy_id q) st = Inr (Some x)" "as_utc t ''changed_at'' = Inr changed"
      "policy_object_id env subject (pur_policy_id q) = Inr oid" "update_identity env q changed = Inr identity"
      "fst (pp_policy p) = (next_policy_object env x (pur_evidence_refs q) (pur_changed_by q) changed due)
         \<lparr>wo_body := CognitivePolicy (snd (pp_policy p))\<rparr>"
      "pp_operation p = policy_operation ck ai ''policy.update'' (policy_arguments (cgp_policy_id (snd x))
         (wo_revision (fst x) + 1) (cgp_scope (snd x)) (cgp_policy_class (snd x)) (Some identity)) expected
         (py_strip (pur_reason q)) (change_key ''policy-update:'' oid identity)"
    note stored = latest_policy_stored [OF inv u(1)]
    have "0 \<le> expected" by (rule world_revision_nonneg [OF inv w])
    moreover have "policy_now st oid = Some (snd x)" using stored u(3) by (auto simp: policy_now_def stored_now_def)
    ultimately show ?thesis using stored(3) u
      by (intro that [of oid "snd x" changed identity expected]) (simp_all add: next_policy_object_def policy_arguments_def)
  qed
qed

lemma update_key:
  assumes "world_inv zones st" and "plan_update env ck subject q t ai st = Inr p"
    and "world_inv zones' st''" and "plan_update env ck2 subject q t ai2 st'' = Inr p2"
  shows "op_idempotency_key (pp_operation p2) = op_idempotency_key (pp_operation p)"
  by (rule plan_update_operation [OF assms(1,2)], rule plan_update_operation [OF assms(3,4)]) simp

text \<open>An update that changed the store: its plan, the commit that applied it, and its receipt.\<close>

lemma applied_update:
  assumes inv: "world_inv (sv_zones env) st"
    and first: "update_policy env ck subject q t ai st = (Inr receipt, st')" "st' \<noteq> st"
  obtains p res w h where "plan_update env ck subject q t ai st = Inr p"
    "commit (sv_zones env) (sv_digest env) (ck_now ck) (pp_objects p) (pp_operation p) st = (Inr res, st')"
    "accepted (sv_zones env) (sv_digest env) (pp_objects p) (pp_operation p) st w h"
    "st' = appended (ck_now ck) (w + 1) (pp_operation p) (pp_objects p) h st"
    "res = commit_result_of (w + 1) (pp_operation p) (pp_objects p)"
    "get_idempotent_result (sv_zones env) (sv_digest env) (pp_operation p) (pp_objects p) st = Inr None"
    "receipt = receipt_of (pp_policy p) (w + 1)"
proof -
  obtain p where p: "plan_update env ck subject q t ai st = Inr p" "perform_policy env ck (Inr p) st = (Inr receipt, st')"
    using first by (cases "plan_update env ck subject q t ai st") (simp_all add: update_policy_def perform_policy_def)
  obtain oid c where op: "policy_now st oid = Some c" "wo_object_id (fst (pp_policy p)) = oid"
    using plan_update_operation [OF inv p(1)] by metis
  have "carries p" using plan_update_sound [OF inv p(1)] by (simp add: sound_policy_plan_def Let_def)
  then have ob: "fst (pp_policy p) \<in> set (pp_objects p)" by (simp add: carries_def)
  obtain res where res: "commit (sv_zones env) (sv_digest env) (ck_now ck) (pp_objects p) (pp_operation p) st = (Inr res, st')"
    "Inr receipt = answered_policy env st' res (pp_policy p)"
    using p(2) first(2) by (cases rule: perform_policy_cases) auto
  obtain w h where w: "accepted (sv_zones env) (sv_digest env) (pp_objects p) (pp_operation p) st w h"
    "st' = appended (ck_now ck) (w + 1) (pp_operation p) (pp_objects p) h st"
    "res = commit_result_of (w + 1) (pp_operation p) (pp_objects p)"
    "get_idempotent_result (sv_zones env) (sv_digest env) (pp_operation p) (pp_objects p) st = Inr None"
    using inv res(1) first(2) ob op(2) by (cases rule: commit_policy_now) auto
  show ?thesis by (rule that [OF p(1) res(1) w]) (use res(2) w(3) in \<open>simp add: answered_policy_def commit_result_of_def\<close>)
qed

lemma repeat_writes_nothing:
  assumes inv: "world_inv (sv_zones env) st"
    and first: "update_policy env ck subject q t ai st = (Inr receipt, st')" "st' \<noteq> st"
    and run: "(registry_step env)\<^sup>*\<^sup>* st' st''"
  shows "snd (update_policy env ck2 subject q t ai2 st'') = st''"
proof (cases "plan_update env ck2 subject q t ai2 st''")
  case (Inr p2)
  from inv first show ?thesis
  proof (rule applied_update)
    fix p res w h
    assume p: "plan_update env ck subject q t ai st = Inr p"
      "commit (sv_zones env) (sv_digest env) (ck_now ck) (pp_objects p) (pp_operation p) st = (Inr res, st')"
      "get_idempotent_result (sv_zones env) (sv_digest env) (pp_operation p) (pp_objects p) st = Inr None"
    have inv': "world_inv (sv_zones env) st'" using world_inv_commit [OF inv p(2)] .
    have key: "op_idempotency_key (pp_operation p2) = op_idempotency_key (pp_operation p)"
      using update_key [OF inv p(1) whole_registry.steps_inv [OF run inv'] Inr] .
    from p(2,3) show ?thesis
    proof (rule recorded)
      fix h
      assume r: "find_idempotency st' (op_idempotency_key (pp_operation p))
          = Some (idempotency_row_of (cr_world_revision res) (pp_operation p) (pp_objects p) h)"
        "operation_for_idempotency_key st' (op_idempotency_key (pp_operation p))
          = Some (operation_row_of (cr_world_revision res) (ck_now ck) (pp_operation p))"
        "op_idempotency_key (pp_operation p) \<noteq> []"
      note world = registry_steps_world [OF inv' run]
      have "snd (submit_or_replay env ck2 (pp_objects p2) (pp_operation p2) st'') = st''"
      proof (cases "normalize_operation (pp_operation p2)")
        case (Inr op)
        then have "op = pp_operation p2" using normalize_operation_Inr by blast
        moreover have "snd (commit_or_replay (sv_zones env) (sv_digest env) (ck_now ck2) (pp_objects p2) (pp_operation p2) st'') = st''"
          using find_idempotency_grows [OF world inv' r(1)] operation_for_key_grows [OF world inv' r(2)] r(3) key
          by (intro used_key_replays) simp_all
        ultimately show ?thesis using Inr by (auto simp: submit_or_replay_def split: prod.splits sum.splits)
      qed (simp add: submit_or_replay_def)
      then show ?thesis using Inr by (auto simp: update_policy_def perform_policy_def split: prod.splits sum.splits)
    qed
  qed
qed (simp add: update_policy_def perform_policy_def)

lemma update_recovered:
  assumes inv: "world_inv (sv_zones env) st" and first: "update_policy env ck subject q t ai st = (Inr receipt, st')" "st' \<noteq> st"
    and "durable_value (pur_current_value q) = pur_current_value q"
    and run: "(registry_step env)\<^sup>*\<^sup>* st' st''"
    and again: "plan_update env ck2 subject q t ai2 st'' = Inr p2" and "\<not> blank (ck_operation_id ck2)"
  shows "update_policy env ck2 subject q t ai2 st'' = (Inr receipt, st'')"
proof -
  obtain p res w h where p: "plan_update env ck subject q t ai st = Inr p"
    "commit (sv_zones env) (sv_digest env) (ck_now ck) (pp_objects p) (pp_operation p) st = (Inr res, st')"
    and w: "accepted (sv_zones env) (sv_digest env) (pp_objects p) (pp_operation p) st w h"
    "st' = appended (ck_now ck) (w + 1) (pp_operation p) (pp_objects p) h st"
    "res = commit_result_of (w + 1) (pp_operation p) (pp_objects p)"
    "get_idempotent_result (sv_zones env) (sv_digest env) (pp_operation p) (pp_objects p) st = Inr None"
    and receipt: "receipt = receipt_of (pp_policy p) (w + 1)"
    by (rule applied_update [OF inv first])
  obtain oid c identity changed expected where first_op: "policy_object_id env subject (pur_policy_id q) = Inr oid"
    "policy_now st oid = Some c" "as_utc t ''changed_at'' = Inr changed" "update_identity env q changed = Inr identity"
    "wo_object_id (fst (pp_policy p)) = oid"
    "pp_operation p = policy_operation ck ai ''policy.update''
       (policy_arguments (cgp_policy_id c) 0 [] (cgp_policy_class c) (Some identity)) expected
       (py_strip (pur_reason q)) (change_key ''policy-update:'' oid identity)"
    by (rule plan_update_operation [OF inv p(1)])
  define op where "op = pp_operation p"
  note res = p(2) [folded op_def] and w = w [folded op_def]
  let ?ob = "fst (pp_policy p)" and ?objs = "pp_objects p"
  have sound: "carries p" "valid_object (sv_zones env) ?ob"
    using plan_update_sound [OF inv p(1)] by (simp_all add: sound_policy_plan_def Let_def)
  then have ob: "?ob \<in> set ?objs" "wo_body ?ob = CognitivePolicy (snd (pp_policy p))" by (simp_all add: carries_def)
  have durable: "\<forall>ob \<in> set ?objs. durable_object ob = ob" by (rule plan_update_durable [OF inv p(1) assms(4)])
  have inv': "world_inv (sv_zones env) st'" using world_inv_commit [OF inv res] .
  have inv'': "world_inv (sv_zones env) st''" using whole_registry.steps_inv [OF run inv'] .
  have world: "world_steps (sv_zones env) (sv_digest env) st' st''" by (rule registry_steps_world [OF inv' run])
  have normal: "normalize_operation op = Inr op" using w(1) normalize_operation_Inr by (auto simp: accepted_def)

  obtain oid2 c2 identity2 changed2 expected2 where second_op: "policy_object_id env subject (pur_policy_id q) = Inr oid2"
    "policy_now st'' oid2 = Some c2" "as_utc t ''changed_at'' = Inr changed2" "update_identity env q changed2 = Inr identity2"
    "wo_object_id (fst (pp_policy p2)) = oid2" "0 \<le> expected2"
    "pp_operation p2 = policy_operation ck2 ai2 ''policy.update''
       (policy_arguments (cgp_policy_id c2) 0 [] (cgp_policy_class c2) (Some identity2)) expected2
       (py_strip (pur_reason q)) (change_key ''policy-update:'' oid2 identity2)"
    by (rule plan_update_operation [OF inv'' again])
  have same: "oid2 = oid" "changed2 = changed" "identity2 = identity" using first_op second_op by simp_all
  have "\<exists>c'. policy_now st'' oid = Some c' \<and> descends c c'"
  proof -
    have "registry_step env st st'" using first(1) calls [of env ck subject "Updates q" t ai st]
      by (auto simp: registry_step_def)
    with run have "(registry_step env)\<^sup>*\<^sup>* st st''" by simp
    from any_charter_kept [OF inv this first_op(2)] show ?thesis .
  qed
  then have charter: "cgp_policy_id c2 = cgp_policy_id c" "cgp_policy_class c2 = cgp_policy_class c"
    using second_op(2) same(1) by (auto simp: descends_def same_charter_def)
  define args where "args = policy_arguments (cgp_policy_id c) 0 [] (cgp_policy_class c) (Some identity)"
  define key where "key = change_key ''policy-update:'' oid identity"
  have ops: "op = policy_operation ck ai ''policy.update'' args expected (py_strip (pur_reason q)) key"
    "pp_operation p2 = policy_operation ck2 ai2 ''policy.update'' args expected2 (py_strip (pur_reason q)) key"
    using first_op(6) second_op(7) charter same by (simp_all add: op_def args_def key_def)
  let ?op2 = "policy_operation ck ai2 ''policy.update'' args expected (py_strip (pur_reason q)) key"
  have normal2: "normalize_operation (pp_operation p2) = Inr (pp_operation p2)" "normalize_operation ?op2 = Inr ?op2"
    using policy_operation_normal [OF normal [unfolded ops(1)]] policy_operation_normalD [OF normal [unfolded ops(1)]]
      assms(7) second_op(6) by (simp_all add: ops(2))
  have "commit_or_replay (sv_zones env) (sv_digest env) (ck_now ck2) (pp_objects p2) (pp_operation p2) st''
      = (Inr (res\<lparr>cr_idempotent_replay := True\<rparr>), st'')"
    by (rule exact_replay [OF res inv w(4) _ durable world _ _ normal2(2), where op' = "pp_operation p2"])
      (use ob(1) in \<open>auto simp: ops policy_operation_retargeted policy_operation_identity\<close>)
  then have "submit_or_replay env ck2 (pp_objects p2) (pp_operation p2) st'' = (Inr (res\<lparr>cr_idempotent_replay := True\<rparr>), st'')"
    by (simp add: submit_or_replay_def normal2(1))
  moreover have "answered_policy env st'' (res\<lparr>cr_idempotent_replay := True\<rparr>) (pp_policy p2) = Inr (receipt_of (?ob, snd (pp_policy p)) (w + 1))"
    unfolding w(3)
  proof (rule answered_replay [OF inv'' accepted_distinct_ids [OF w(1)] ob(1) _ _ sound(2) ob(2)])
    show "content_row (w + 1) ?ob \<in> set (ws_revisions st'')"
      by (rule rows_stay [OF world inv']) (use w(2) ob(1) in simp)
    show "durable_object ?ob = ?ob" using durable ob(1) by blast
    show "wo_object_id (fst (pp_policy p2)) = wo_object_id ?ob" using second_op(5) first_op(5) same(1) by simp
  qed
  ultimately show ?thesis using receipt
    by (simp add: update_policy_def perform_policy_def again)
qed

text \<open>
  A repeat answers the first receipt once its own plan passes the checks of an update, which read
  the policy and the evidence as they are now; otherwise it raises what they raise.
\<close>

lemma repeat_decided:
  assumes "world_inv (sv_zones env) st" and "update_policy env ck subject q t ai st = (Inr receipt, st')" "st' \<noteq> st"
    and "durable_value (pur_current_value q) = pur_current_value q"
    and "(registry_step env)\<^sup>*\<^sup>* st' st''" and "\<not> blank (ck_operation_id ck2)"
  shows "fst (update_policy env ck2 subject q t ai2 st'')
    = result_bind (plan_update env ck2 subject q t ai2 st'') (\<lambda>_. Inr receipt)"
proof (cases "plan_update env ck2 subject q t ai2 st''")
  case (Inr p2)
  from update_recovered [OF assms(1-5) this assms(6)] Inr show ?thesis by simp
qed (simp add: update_policy_def perform_policy_def)

end
