(* ===== verification/PolicyExamples.thy ===== *)
theory PolicyExamples
  imports PolicyReplay Examples
begin

text \<open>
  A policy over a store with one observation: the AI registers it on that evidence, updates
  it, updates it again, and rolls it back to its first version; an operator registers one without
  evidence; and the evidence is pruned. Times keep the generated identifiers apart: the digest of a
  text tells whether it mentions a \<open>9\<close>, \<open>8\<close> or \<open>7\<close>, and whether it starts with \<open>e\<close>.
\<close>

fun flat_text :: "pyval \<Rightarrow> string" where
  "flat_text (PStr s) = s"
| "flat_text (PInt n) = int_decimal n"
| "flat_text (PList xs) = concat (map flat_text xs)"
| "flat_text (PDict kvs) = concat (map (\<lambda>(k, v). k @ flat_text v) kvs)"
| "flat_text _ = ''.''"

definition flat_digest :: "string \<Rightarrow> nat list" where
  "flat_digest t = [if CHR ''9'' \<in> set t then 9 else if CHR ''8'' \<in> set t then 8 else if CHR ''7'' \<in> set t then 7 else 0,
     if take 1 t = ''e'' then 1 else 0]"

definition ledger_env :: "unit service_env" where
  "ledger_env = \<lparr>sv_zones = all_zones, sv_digest = (\<lambda>_. ()),
     sv_codec = \<lparr>cd_dumps = flat_text, cd_loads = (\<lambda>_. None), cd_sha256 = flat_digest\<rparr>,
     sv_isoformat = (\<lambda>t. int_decimal (t mod 1000)), sv_fromiso = (\<lambda>_. None), sv_str = flat_text, sv_json = (\<lambda>v. v)\<rparr>"

definition ledger_call :: "string \<Rightarrow> call_context" where
  "ledger_call i = \<lparr>ck_now = 1000, ck_operation_id = i\<rparr>"

definition threshold_request :: "object_ref list \<Rightarrow> policy_create_request" where
  "threshold_request refs = \<lparr>pcr_policy_id = ''p'', pcr_scope = ''wake'', pcr_policy_class = PC_COGNITIVE_POLICY,
     pcr_default_value = PInt 3, pcr_current_value = PInt 3,
     pcr_allowed_range_or_choices = PDict [(''max'', PInt 6), (''min'', PInt 1)], pcr_mutable_by_ai = True,
     pcr_reason = ''r'', pcr_evidence_refs = refs, pcr_changed_by = ''ai'', pcr_evaluation_window = ''1d''\<rparr>"

definition threshold_update :: "int \<Rightarrow> policy_update_request" where
  "threshold_update v = \<lparr>pur_policy_id = ''p'', pur_current_value = PInt v, pur_reason = ''r'',
     pur_evidence_refs = [oref ''a'' (Some 1)], pur_changed_by = ''ai'', pur_evaluation_window = None\<rparr>"

definition threshold_rollback :: rollback_request where
  "threshold_rollback = \<lparr>rbr_policy_id = ''p'', rbr_target_version = 1, rbr_reason = ''r'',
     rbr_evidence_refs = [oref ''a'' (Some 1)], rbr_changed_by = ''ai''\<rparr>"

abbreviation ledger_does ::
    "string \<Rightarrow> policy_call \<Rightarrow> instant \<Rightarrow> bool \<Rightarrow> unit world_store
      \<Rightarrow> (service_error + policy_receipt) \<times> unit world_store" where
  "ledger_does i call t \<equiv> call_policy ledger_env (ledger_call i) ''s'' call (utc_datetime t)"

definition ledger0 :: "unit world_store" where
  "ledger0 = snd (commit all_zones (\<lambda>_. ()) 10 [plain_object ''a'' 1 (reading 5)] (request ''k'' 0) initial_store)"

text \<open>What registering the policy leaves in the store: the policy, its evidence set and their dependencies.\<close>

definition ledger1 :: "unit world_store" where
  "ledger1 =
     \<lparr>ws_world_revision = Some (MetaInt 2), ws_commits = [\<lparr>cm_world_revision = 1, cm_committed_at = 10,
     cm_operation_id = ''op-k'', cm_session_id = None, cm_reason = ''r'', cm_source_class = SC_SENSOR\<rparr>,
     \<lparr>cm_world_revision = 2, cm_committed_at = 1000, cm_operation_id = ''l1'', cm_session_id = None, cm_reason
     = ''r'', cm_source_class = SC_AI_COGNITION\<rparr>], ws_revisions = [\<lparr>rr_object_id = ''a'', rr_revision =
     1, rr_object_type = OT_OBSERVATION, rr_subject_id = ''s'', rr_world_revision = 1, rr_learned_at = 1,
     rr_recorded_at = 2, rr_payload = PayloadObject \<lparr>wo_object_id = ''a'', wo_subject_id = ''s'', wo_revision
     = 1, wo_occurred = unknown_time, wo_learned_at = utc_datetime 1, wo_recorded_at = utc_datetime 2, wo_source_refs
     = [], wo_created_by = ''u'', wo_status = ''active'', wo_metadata = [], wo_body = Observation
     \<lparr>obs_source_kind = ''sensor'', obs_modality = ''n'', obs_value = PInt 5, obs_unit = None,
     obs_data_quality = [], obs_raw_locator = None\<rparr>\<rparr>, rr_revision_kind = RK_content\<rparr>,
     \<lparr>rr_object_id = ''evs_policy_0000'', rr_revision = 1, rr_object_type = OT_EVIDENCE_SET, rr_subject_id =
     ''s'', rr_world_revision = 2, rr_learned_at = 100, rr_recorded_at = 100, rr_payload = PayloadObject
     \<lparr>wo_object_id = ''evs_policy_0000'', wo_subject_id = ''s'', wo_revision = 1, wo_occurred =
     \<lparr>te_start = Some (utc_datetime 100), te_end = Some (utc_datetime 100), te_precision = TP_SECOND,
     te_timezone_name = None, te_unknown = False\<rparr>, wo_learned_at = utc_datetime 100, wo_recorded_at =
     utc_datetime 100, wo_source_refs = [\<lparr>src_object_id = ''a'', src_revision = Some 1, src_locator =
     None\<rparr>], wo_created_by = ''cognitive_policy:evidence'', wo_status = ''active'', wo_metadata =
     [(''dimension'', PStr ''dim:ai_cognitive_policy''), (''policy_id'', PStr ''p'')], wo_body = EvidenceSet
     \<lparr>evs_purpose = ''register policy p'', evs_knowledge_window = \<lparr>kw_knowledge_cutoff = utc_datetime
     100, kw_world_revision = Some 1\<rparr>, evs_member_refs = [oref ''a'' (Some 1)], evs_support_refs = [oref ''a''
     (Some 1)], evs_counter_refs = [], evs_context_refs = [], evs_selector = None, evs_selection_method =
     ''policy_change_pinned_world_evidence'', evs_aggregation_method = None, evs_aggregation_version = None,
     evs_coverage = \<lparr>cov_expected_count = Some 1, cov_observed_count = Some 1, cov_coverage_ratio = Some 1,
     cov_missing_description = []\<rparr>, evs_stale = False\<rparr>\<rparr>, rr_revision_kind = RK_content\<rparr>,
     \<lparr>rr_object_id = ''policy_0000'', rr_revision = 1, rr_object_type = OT_COGNITIVE_POLICY, rr_subject_id =
     ''s'', rr_world_revision = 2, rr_learned_at = 100, rr_recorded_at = 100, rr_payload = PayloadObject
     \<lparr>wo_object_id = ''policy_0000'', wo_subject_id = ''s'', wo_revision = 1, wo_occurred = \<lparr>te_start =
     Some (utc_datetime 100), te_end = Some (utc_datetime 100), te_precision = TP_SECOND, te_timezone_name = None,
     te_unknown = False\<rparr>, wo_learned_at = utc_datetime 100, wo_recorded_at = utc_datetime 100, wo_source_refs
     = [\<lparr>src_object_id = ''a'', src_revision = Some 1, src_locator = None\<rparr>], wo_created_by =
     ''cognitive_policy:ai'', wo_status = ''active'', wo_metadata = [(''dimension'', PStr
     ''dim:ai_cognitive_policy''), (''next_evaluation_at'', PStr ''100'')], wo_body = CognitivePolicy
     \<lparr>cgp_policy_id = ''p'', cgp_scope = ''wake'', cgp_policy_class = PC_COGNITIVE_POLICY, cgp_default_value =
     PInt 3, cgp_current_value = PInt 3, cgp_allowed_range_or_choices = PDict [(''max'', PInt 6), (''min'', PInt 1)],
     cgp_mutable_by_ai = True, cgp_reason = ''r'', cgp_evidence_refs = [oref ''a'' (Some 1)], cgp_changed_by =
     ''ai'', cgp_changed_at = utc_datetime 100, cgp_version = 1, cgp_previous_version = None, cgp_rollback_pointer =
     None, cgp_evaluation_window = ''1d''\<rparr>\<rparr>, rr_revision_kind = RK_content\<rparr>,
     \<lparr>rr_object_id = ''dep_0000'', rr_revision = 1, rr_object_type = OT_DEPENDENCY, rr_subject_id = ''s'',
     rr_world_revision = 2, rr_learned_at = 100, rr_recorded_at = 100, rr_payload = PayloadObject
     \<lparr>wo_object_id = ''dep_0000'', wo_subject_id = ''s'', wo_revision = 1, wo_occurred = unknown_time,
     wo_learned_at = utc_datetime 100, wo_recorded_at = utc_datetime 100, wo_source_refs = [], wo_created_by =
     ''cognitive_policy:dependency'', wo_status = ''active'', wo_metadata = [], wo_body = Dependency
     \<lparr>dep_dependent_ref = oref ''policy_0000'' (Some 1), dep_dependency_ref = oref ''evs_policy_0000'' (Some
     1), dep_dependency_type = ''policy_version_uses_evidence_set''\<rparr>\<rparr>, rr_revision_kind =
     RK_content\<rparr>, \<lparr>rr_object_id = ''dep_0001'', rr_revision = 1, rr_object_type = OT_DEPENDENCY,
     rr_subject_id = ''s'', rr_world_revision = 2, rr_learned_at = 100, rr_recorded_at = 100, rr_payload =
     PayloadObject \<lparr>wo_object_id = ''dep_0001'', wo_subject_id = ''s'', wo_revision = 1, wo_occurred =
     unknown_time, wo_learned_at = utc_datetime 100, wo_recorded_at = utc_datetime 100, wo_source_refs = [],
     wo_created_by = ''cognitive_policy:dependency'', wo_status = ''active'', wo_metadata = [], wo_body = Dependency
     \<lparr>dep_dependent_ref = oref ''evs_policy_0000'' (Some 1), dep_dependency_ref = oref ''a'' (Some 1),
     dep_dependency_type = ''policy_evidence_set_contains_source''\<rparr>\<rparr>, rr_revision_kind =
     RK_content\<rparr>], ws_operations = [\<lparr>or_operation_id = ''op-k'', or_session_id = None,
     or_operation_name = ''ingest'', or_arguments = [], or_expected_world_revision = 0, or_reason = ''r'',
     or_idempotency_key = ''k'', or_result_world_revision = 1, or_created_at = 10\<rparr>, \<lparr>or_operation_id =
     ''l1'', or_session_id = None, or_operation_name = ''policy.register'', or_arguments =
     [(''canonical_request_sha256'', PStr ''0000''), (''policy_class'', PStr ''cognitive_policy''), (''policy_id'',
     PStr ''p'')], or_expected_world_revision = 1, or_reason = ''r'', or_idempotency_key = ''policy:policy_0000:1'',
     or_result_world_revision = 2, or_created_at = 1000\<rparr>], ws_idempotency = [\<lparr>ir_idempotency_key =
     ''k'', ir_operation_id = ''op-k'', ir_world_revision = 1, ir_result = ResultData (Some \<lparr>cr_operation_id =
     ''op-k'', cr_world_revision = 1, cr_object_refs = [(''a'', 1)], cr_idempotent_replay = False\<rparr>)
     (FingerprintText ())\<rparr>, \<lparr>ir_idempotency_key = ''policy:policy_0000:1'', ir_operation_id = ''l1'',
     ir_world_revision = 2, ir_result = ResultData (Some \<lparr>cr_operation_id = ''l1'', cr_world_revision = 2,
     cr_object_refs = [(''evs_policy_0000'', 1), (''policy_0000'', 1), (''dep_0000'', 1), (''dep_0001'', 1)],
     cr_idempotent_replay = False\<rparr>) (FingerprintText ())\<rparr>], ws_cold_archive = []\<rparr>"

text \<open>What updating it to 5 adds: a second version on the same evidence.\<close>

definition ledger2 :: "unit world_store" where
  "ledger2 =
     ledger1\<lparr>ws_world_revision := Some (MetaInt 3), ws_commits := ws_commits ledger1 @
     [\<lparr>cm_world_revision = 3, cm_committed_at = 1000, cm_operation_id = ''l2'', cm_session_id = None,
     cm_reason = ''r'', cm_source_class = SC_AI_COGNITION\<rparr>], ws_revisions := ws_revisions ledger1 @
     [\<lparr>rr_object_id = ''evs_policy_0700'', rr_revision = 1, rr_object_type = OT_EVIDENCE_SET, rr_subject_id =
     ''s'', rr_world_revision = 3, rr_learned_at = 700, rr_recorded_at = 700, rr_payload = PayloadObject
     \<lparr>wo_object_id = ''evs_policy_0700'', wo_subject_id = ''s'', wo_revision = 1, wo_occurred =
     \<lparr>te_start = Some (utc_datetime 700), te_end = Some (utc_datetime 700), te_precision = TP_SECOND,
     te_timezone_name = None, te_unknown = False\<rparr>, wo_learned_at = utc_datetime 700, wo_recorded_at =
     utc_datetime 700, wo_source_refs = [\<lparr>src_object_id = ''a'', src_revision = Some 1, src_locator =
     None\<rparr>], wo_created_by = ''cognitive_policy:evidence'', wo_status = ''active'', wo_metadata =
     [(''dimension'', PStr ''dim:ai_cognitive_policy''), (''policy_id'', PStr ''p'')], wo_body = EvidenceSet
     \<lparr>evs_purpose = ''support policy update p@2'', evs_knowledge_window = \<lparr>kw_knowledge_cutoff =
     utc_datetime 700, kw_world_revision = Some 2\<rparr>, evs_member_refs = [oref ''a'' (Some 1)], evs_support_refs
     = [oref ''a'' (Some 1)], evs_counter_refs = [], evs_context_refs = [], evs_selector = None, evs_selection_method
     = ''policy_change_pinned_world_evidence'', evs_aggregation_method = None, evs_aggregation_version = None,
     evs_coverage = \<lparr>cov_expected_count = Some 1, cov_observed_count = Some 1, cov_coverage_ratio = Some 1,
     cov_missing_description = []\<rparr>, evs_stale = False\<rparr>\<rparr>, rr_revision_kind = RK_content\<rparr>,
     \<lparr>rr_object_id = ''policy_0000'', rr_revision = 2, rr_object_type = OT_COGNITIVE_POLICY, rr_subject_id =
     ''s'', rr_world_revision = 3, rr_learned_at = 700, rr_recorded_at = 700, rr_payload = PayloadObject
     \<lparr>wo_object_id = ''policy_0000'', wo_subject_id = ''s'', wo_revision = 2, wo_occurred = \<lparr>te_start =
     Some (utc_datetime 700), te_end = Some (utc_datetime 700), te_precision = TP_SECOND, te_timezone_name = None,
     te_unknown = False\<rparr>, wo_learned_at = utc_datetime 700, wo_recorded_at = utc_datetime 700, wo_source_refs
     = [\<lparr>src_object_id = ''a'', src_revision = Some 1, src_locator = None\<rparr>], wo_created_by =
     ''cognitive_policy:ai'', wo_status = ''active'', wo_metadata = [(''dimension'', PStr
     ''dim:ai_cognitive_policy''), (''next_evaluation_at'', PStr ''700'')], wo_body = CognitivePolicy
     \<lparr>cgp_policy_id = ''p'', cgp_scope = ''wake'', cgp_policy_class = PC_COGNITIVE_POLICY, cgp_default_value =
     PInt 3, cgp_current_value = PInt 5, cgp_allowed_range_or_choices = PDict [(''max'', PInt 6), (''min'', PInt 1)],
     cgp_mutable_by_ai = True, cgp_reason = ''r'', cgp_evidence_refs = [oref ''a'' (Some 1)], cgp_changed_by =
     ''ai'', cgp_changed_at = utc_datetime 700, cgp_version = 2, cgp_previous_version = Some 1, cgp_rollback_pointer
     = Some 1, cgp_evaluation_window = ''1d''\<rparr>\<rparr>, rr_revision_kind = RK_content\<rparr>,
     \<lparr>rr_object_id = ''dep_0700'', rr_revision = 1, rr_object_type = OT_DEPENDENCY, rr_subject_id = ''s'',
     rr_world_revision = 3, rr_learned_at = 700, rr_recorded_at = 700, rr_payload = PayloadObject
     \<lparr>wo_object_id = ''dep_0700'', wo_subject_id = ''s'', wo_revision = 1, wo_occurred = unknown_time,
     wo_learned_at = utc_datetime 700, wo_recorded_at = utc_datetime 700, wo_source_refs = [], wo_created_by =
     ''cognitive_policy:dependency'', wo_status = ''active'', wo_metadata = [], wo_body = Dependency
     \<lparr>dep_dependent_ref = oref ''policy_0000'' (Some 2), dep_dependency_ref = oref ''evs_policy_0700'' (Some
     1), dep_dependency_type = ''policy_version_uses_evidence_set''\<rparr>\<rparr>, rr_revision_kind =
     RK_content\<rparr>, \<lparr>rr_object_id = ''dep_0701'', rr_revision = 1, rr_object_type = OT_DEPENDENCY,
     rr_subject_id = ''s'', rr_world_revision = 3, rr_learned_at = 700, rr_recorded_at = 700, rr_payload =
     PayloadObject \<lparr>wo_object_id = ''dep_0701'', wo_subject_id = ''s'', wo_revision = 1, wo_occurred =
     unknown_time, wo_learned_at = utc_datetime 700, wo_recorded_at = utc_datetime 700, wo_source_refs = [],
     wo_created_by = ''cognitive_policy:dependency'', wo_status = ''active'', wo_metadata = [], wo_body = Dependency
     \<lparr>dep_dependent_ref = oref ''evs_policy_0700'' (Some 1), dep_dependency_ref = oref ''a'' (Some 1),
     dep_dependency_type = ''policy_evidence_set_contains_source''\<rparr>\<rparr>, rr_revision_kind =
     RK_content\<rparr>], ws_operations := ws_operations ledger1 @ [\<lparr>or_operation_id = ''l2'', or_session_id =
     None, or_operation_name = ''policy.update'', or_arguments = [(''canonical_request_sha256'', PStr ''0700''),
     (''policy_class'', PStr ''cognitive_policy''), (''policy_id'', PStr ''p'')], or_expected_world_revision = 2,
     or_reason = ''r'', or_idempotency_key = ''policy-update:policy_0000:0700'', or_result_world_revision = 3,
     or_created_at = 1000\<rparr>], ws_idempotency := ws_idempotency ledger1 @ [\<lparr>ir_idempotency_key =
     ''policy-update:policy_0000:0700'', ir_operation_id = ''l2'', ir_world_revision = 3, ir_result = ResultData
     (Some \<lparr>cr_operation_id = ''l2'', cr_world_revision = 3, cr_object_refs = [(''evs_policy_0700'', 1),
     (''policy_0000'', 2), (''dep_0700'', 1), (''dep_0701'', 1)], cr_idempotent_replay = False\<rparr>)
     (FingerprintText ())\<rparr>]\<rparr>"

definition ledger_policy_id :: string where
  "ledger_policy_id = (case policy_object_id ledger_env ''s'' ''p'' of Inr i \<Rightarrow> i | _ \<Rightarrow> [])"

definition ledger_pruned :: "unit world_store" where
  "ledger_pruned = snd (prune 2000 ''a'' ''auth'' ''cleanup'' ledger1)"

definition operator_ledger :: "unit world_store" where
  "operator_ledger = snd (ledger_does ''o1'' (Registers (threshold_request [])) 100 False ledger0)"

lemma ledger1_registered:
  "snd (ledger_does ''l1'' (Registers (threshold_request [oref ''a'' (Some 1)])) 100 True ledger0) = ledger1"
  by code_simp

lemma answers: "\<not> isl (fst p) \<Longrightarrow> \<exists>c. p = (Inr c, snd p)"
  by (cases p; cases "fst p") auto

lemma ledger0_step: "world_step all_zones (\<lambda>_. ()) initial_store ledger0"
proof -
  have "\<not> isl (fst (commit all_zones (\<lambda>_. ()) 10 [plain_object ''a'' 1 (reading 5)] (request ''k'' 0) initial_store))" by code_simp
  from answers [OF this] show ?thesis by (auto simp: ledger0_def intro: step_commit)
qed

abbreviation registering :: policy_call where
  "registering \<equiv> Registers (threshold_request [oref ''a'' (Some 1)])"

lemma ledger2_updated:
  "\<exists>receipt. ledger_does ''l2'' (Updates (threshold_update 5)) 700 True ledger1 = (Inr receipt, ledger2)"
proof -
  have "(case ledger_does ''l2'' (Updates (threshold_update 5)) 700 True ledger1 of (r, st) \<Rightarrow> \<not> isl r \<and> st = ledger2)"
    by code_simp
  then show ?thesis using answers [of "ledger_does ''l2'' (Updates (threshold_update 5)) 700 True ledger1"]
    by (simp add: case_prod_beta)
qed

lemma ledgers_differ: "ledger1 \<noteq> ledger0" "ledger2 \<noteq> ledger1"
proof -
  have "ws_world_revision ledger0 = Some (MetaInt 1)" by code_simp
  moreover have "ws_world_revision ledger1 = Some (MetaInt 2)" by (simp add: ledger1_def)
  moreover have "ws_world_revision ledger2 = Some (MetaInt 3)" by (simp add: ledger2_def)
  ultimately show "ledger1 \<noteq> ledger0" "ledger2 \<noteq> ledger1" by force+
qed

lemma ledger_rolled_back: "snd (ledger_does ''l4'' (RollsBack threshold_rollback) 900 True ledger2) \<noteq> ledger2"
  by code_simp

lemma ledger2_again:
  "\<exists>p. plan_update ledger_env (ledger_call ''l5'') ''s'' (threshold_update 5) (utc_datetime 700) True ledger2 = Inr p"
proof -
  have "\<not> isl (plan_update ledger_env (ledger_call ''l5'') ''s'' (threshold_update 5) (utc_datetime 700) True ledger2)"
    by code_simp
  then show ?thesis by (cases "plan_update ledger_env (ledger_call ''l5'') ''s'' (threshold_update 5) (utc_datetime 700) True ledger2") auto
qed

lemma ledger_inv: "world_inv all_zones ledger0" "world_inv all_zones ledger1" "world_inv all_zones ledger2"
proof -
  have env: "sv_zones ledger_env = all_zones" "sv_digest ledger_env = (\<lambda>_. ())" by (simp_all add: ledger_env_def)
  show inv0: "world_inv all_zones ledger0"
    using world_inv_step [OF world_inv_initial ledger0_step] .
  have step: "world_inv all_zones st'" if "world_inv all_zones st" "ledger_does i c t ai st = (r, st')" for st st' i c t ai r
    using call_policy_steps [of ledger_env st] that commits.steps_inv env by metis
  show inv1: "world_inv all_zones ledger1"
    using step [OF inv0, of "''l1''" registering 100 True _ ledger1] ledger1_registered by (metis prod.collapse)
  show "world_inv all_zones ledger2" using step [OF inv1] ledger2_updated by blast
qed

lemma ledger_policies:
  "(case policy_now ledger1 ledger_policy_id of Some c \<Rightarrow> cgp_current_value c = PInt 3 | None \<Rightarrow> False)"
  by code_simp

lemma operator_readable: "\<exists>i p. policy_object_id ledger_env ''s'' ''p'' = Inr i \<and> read_payload operator_ledger i None = Inr p"
proof -
  have "(case policy_object_id ledger_env ''s'' ''p'' of Inr i \<Rightarrow> \<not> isl (read_payload operator_ledger i None) | Inl e \<Rightarrow> False)"
    by code_simp
  then obtain i where i: "policy_object_id ledger_env ''s'' ''p'' = Inr i" "\<not> isl (read_payload operator_ledger i None)"
    by (auto split: sum.splits)
  then show ?thesis by (cases "read_payload operator_ledger i None") auto
qed

lemma ledger1_effective:
  "\<exists>x. latest_policy ledger_env ''s'' ''p'' ledger1 = Inr (Some x) \<and> is_effective ledger_env ''s'' ledger1 x = Inr True
     \<and> ''a'' \<in> ref_object_id ` set (cgp_evidence_refs (snd x)) \<and> ''a'' \<noteq> wo_object_id (fst x)"
proof -
  have "(case latest_policy ledger_env ''s'' ''p'' ledger1 of
      Inr (Some x) \<Rightarrow> is_effective ledger_env ''s'' ledger1 x = Inr True
        \<and> ''a'' \<in> ref_object_id ` set (cgp_evidence_refs (snd x)) \<and> ''a'' \<noteq> wo_object_id (fst x)
    | _ \<Rightarrow> False)" by code_simp
  then show ?thesis by (auto split: sum.splits option.splits)
qed

lemma ledger_pruned_run: "prune 2000 ''a'' ''auth'' ''cleanup'' ledger1 = (Inr (), ledger_pruned)"
proof -
  have "\<not> isl (fst (prune 2000 ''a'' ''auth'' ''cleanup'' ledger1))" by code_simp
  from answers [OF this] show ?thesis by (auto simp: ledger_pruned_def)
qed

end
