(* ===== verification/Grounding.thy ===== *)
theory Grounding
  imports Policies
begin

text \<open>
  policy/evidence.py: the evidence policy of cognition. The support closure of some references is
  walked over source references, support dependencies and the references of containers; evidence is
  accepted only when the whole closure resolves, inside the allowed subjects and without a cycle, and
  some reality leaf is reached without an AI assertion in between. The walk is recursive as in the
  code, and it ends because the versions on its stack are distinct rows of the store; the recursion
  limit of the interpreter is outside the model.
\<close>

section \<open>Tables of the policy\<close>

definition support_dependency_types :: "string set" where
  "support_dependency_types = {''summary_uses_source'', ''stale_summary_preserves_source'',
     ''claim_uses_evidence_set'', ''claim_revise_uses_evidence_set'', ''claim_retract_uses_evidence_set'',
     ''evidence_set_contains_source'', ''revision_evidence_set_contains_source'',
     ''event_uses_evidence_set'', ''event_evidence_set_contains_source'',
     ''goal_uses_evidence_set'', ''goal_evidence_set_contains_source'',
     ''goal_transition_uses_evidence_set'', ''goal_transition_evidence_contains_source'',
     ''task_transition_uses_evidence'', ''task_terminal_uses_world_evidence'',
     ''action_uses_evidence_set'', ''action_evidence_set_contains_source'',
     ''outcome_reports_action'', ''outcome_uses_evidence'', ''operation_experience_uses_case'',
     ''communication_experience_feedback_evidence'', ''communication_experience_counterexample'',
     ''communication_experience_follows_action''}"

definition reality_source_classes :: "source_class set" where
  "reality_source_classes = {SC_USER, SC_SENSOR, SC_PLATFORM, SC_SAFETY}"

definition transparent_grounding_containers :: "object_type set" where
  "transparent_grounding_containers = {OT_SUMMARY, OT_EVIDENCE_SET, OT_DEPENDENCY, OT_WAKE}"

definition case_grounding_containers :: "object_type set" where
  "case_grounding_containers = {OT_EVENT, OT_OPERATION_EXPERIENCE, OT_COMMUNICATION_EXPERIENCE}"

record evidence_policy =
  ep_subject_id :: string
  ep_allowed_subject_ids :: "string set"

definition construct_evidence_policy :: "string \<Rightarrow> string list \<Rightarrow> service_error + evidence_policy" where
  "construct_evidence_policy subject allowed =
     (if blank subject then Inl (SvValue ''subject_id must not be blank'')
      else Inr \<lparr>ep_subject_id = py_strip subject,
        ep_allowed_subject_ids = set (py_strip subject # filter (\<lambda>s. s \<noteq> []) (map py_strip allowed))\<rparr>)"

section \<open>Edges between versions\<close>

type_synonym version_key = "string \<times> int"

definition pinned_keys :: "object_ref list \<Rightarrow> version_key list" where
  "pinned_keys refs = map (\<lambda>r. (ref_object_id r, the (ref_revision r))) (filter (\<lambda>r. ref_revision r \<noteq> None) refs)"

definition unpinned_notes :: "string \<Rightarrow> object_ref list \<Rightarrow> (object_ref \<times> string) list" where
  "unpinned_notes reason refs = map (\<lambda>r. (\<lparr>ref_object_id = ref_object_id r, ref_revision = None\<rparr>, reason))
     (filter (\<lambda>r. ref_revision r = None) refs)"

definition unique_keys :: "version_key list \<Rightarrow> version_key list" where
  "unique_keys ks = sort (remdups ks)"

definition key_ref_of :: "version_key \<Rightarrow> object_ref" where
  "key_ref_of k = \<lparr>ref_object_id = fst k, ref_revision = Some (snd k)\<rparr>"

definition dependency_of_body :: "object_body \<Rightarrow> dependency option" where
  "dependency_of_body b = (case b of Dependency d \<Rightarrow> Some d | _ \<Rightarrow> None)"

definition support_edge ::
    "'h service_env \<Rightarrow> evidence_policy \<Rightarrow> payload \<Rightarrow> (version_key \<times> version_key) list" where
  "support_edge env ep p =
     (if payload_subject p \<notin> ep_allowed_subject_ids ep then []
      else case validate_payload_as env dependency_of_body p of
        Inl e \<Rightarrow> []
      | Inr (ob, d) \<Rightarrow> if dep_dependency_type d \<notin> support_dependency_types then []
          else [(x, y). x \<leftarrow> pinned_keys [dep_dependent_ref d], y \<leftarrow> pinned_keys [dep_dependency_ref d]])"

text \<open>\<open>_support_dependencies\<close>: a payload that is no valid dependency is skipped.\<close>

definition support_dependencies ::
    "'h service_env \<Rightarrow> evidence_policy \<Rightarrow> 'h world_store \<Rightarrow> service_error + (version_key \<times> version_key) list" where
  "support_dependencies env ep st =
     result_bind (of_store (list_payloads st (Some OT_DEPENDENCY) None None None)) (\<lambda>ps.
     Inr (concat (map (support_edge env ep) ps)))"

section \<open>One version\<close>

text \<open>
  What the walk learns from one version: either only that it does not resolve, or the notes of its
  own references, the class under which it counts as a source, whether it hides reality from what
  lies above it, and its children.
\<close>

datatype lineage_node =
    LineageGap string
  | LineageNode "(object_ref \<times> string) list" "source_class option" bool "version_key list"

definition payload_object :: "payload \<Rightarrow> world_object option" where
  "payload_object p = (case p of PayloadObject ob \<Rightarrow> Some ob | _ \<Rightarrow> None)"

definition payload_sources :: "payload \<Rightarrow> source_ref list" where
  "payload_sources p = (case payload_object p of Some ob \<Rightarrow> wo_source_refs ob | None \<Rightarrow> [])"

definition source_notes :: "object_ref \<Rightarrow> source_ref list \<Rightarrow> (object_ref \<times> string) list" where
  "source_notes owner ss =
     map (\<lambda>s. (owner, ''invalid_source_ref'')) (filter (\<lambda>s. \<not> source_ref_ok s) ss)
     @ unpinned_notes ''unpinned_source_ref'' (map ref_of_source (filter source_ref_ok ss))"

definition conversation_source_override :: "'h service_env \<Rightarrow> world_object \<Rightarrow> source_class option" where
  "conversation_source_override env ob = (case wo_body ob of
     Observation b \<Rightarrow>
       if obs_source_kind b \<noteq> ''user_ai_interaction'' then None
       else let role = py_strip (metadata_role env ob) in
         if role = ''assistant'' then Some SC_AI_COGNITION
         else if role = ''user'' then Some SC_USER else None
   | _ \<Rightarrow> None)"

definition conversation_observation :: "world_object \<Rightarrow> bool" where
  "conversation_observation ob = (case wo_body ob of
     Observation b \<Rightarrow> obs_source_kind b = ''user_ai_interaction'' | _ \<Rightarrow> False)"

text \<open>The fields \<open>support_evidence_set_refs\<close>, \<open>counter_evidence_set_refs\<close> and \<open>evidence_set_refs\<close>.\<close>

definition evidence_set_fields :: "object_body \<Rightarrow> (string \<times> object_ref list) list" where
  "evidence_set_fields b = (case b of
     Claim c \<Rightarrow> [(''support_evidence_set_refs'', clm_support_evidence_set_refs c),
       (''counter_evidence_set_refs'', clm_counter_evidence_set_refs c)]
   | EventAnchor e \<Rightarrow> [(''support_evidence_set_refs'', evt_support_evidence_set_refs e),
       (''counter_evidence_set_refs'', evt_counter_evidence_set_refs e),
       (''evidence_set_refs'', evt_evidence_set_refs e)]
   | Relation r \<Rightarrow> [(''evidence_set_refs'', rel_evidence_set_refs r)]
   | DimensionDerivation d \<Rightarrow> [(''evidence_set_refs'', dder_evidence_set_refs d)]
   | _ \<Rightarrow> [])"

definition field_notes :: "object_ref \<Rightarrow> string \<times> object_ref list \<Rightarrow> (object_ref \<times> string) list" where
  "field_notes owner f =
     map (\<lambda>r. (owner, ''invalid_'' @ fst f @ ''_ref'')) (filter (\<lambda>r. \<not> ref_ok r) (snd f))
     @ unpinned_notes (''unpinned_'' @ fst f @ ''_ref'') (filter ref_ok (snd f))"

definition summary_of_body :: "object_body \<Rightarrow> summary option" where
  "summary_of_body b = (case b of Summary s \<Rightarrow> Some s | _ \<Rightarrow> None)"

definition evidence_of_body :: "object_body \<Rightarrow> evidence_set option" where
  "evidence_of_body b = (case b of EvidenceSet e \<Rightarrow> Some e | _ \<Rightarrow> None)"

definition wake_of_body :: "object_body \<Rightarrow> wake option" where
  "wake_of_body b = (case b of Wake w \<Rightarrow> Some w | _ \<Rightarrow> None)"

definition evidence_members :: "evidence_set \<Rightarrow> object_ref list" where
  "evidence_members e = evs_member_refs e @ evs_support_refs e @ evs_counter_refs e @ evs_context_refs e"

text \<open>The branch of each type: notes, source class and children besides the common ones.\<close>

definition summary_part ::
    "'h service_env \<Rightarrow> object_ref \<Rightarrow> version_key list \<Rightarrow> payload \<Rightarrow> (object_ref \<times> string) list \<times> version_key list" where
  "summary_part env owner common p = (case validate_payload_as env summary_of_body p of
     Inl e \<Rightarrow> ([(owner, ''invalid_summary_payload'')], [])
   | Inr (ob, s) \<Rightarrow>
       let ev = ref_opt_list (sum_evidence_set_ref s);
           notes = unpinned_notes ''unpinned_summary_evidence_ref'' ev
             @ unpinned_notes ''unpinned_summary_claim_ref'' (sum_claim_refs s);
           children = common @ pinned_keys ev @ pinned_keys (sum_claim_refs s)
       in if children = [] then (notes @ [(owner, ''summary_has_no_pinned_lineage'')], []) else (notes, children))"

definition evidence_part ::
    "'h service_env \<Rightarrow> object_ref \<Rightarrow> version_key list \<Rightarrow> payload \<Rightarrow> (object_ref \<times> string) list \<times> version_key list" where
  "evidence_part env owner common p = (case validate_payload_as env evidence_of_body p of
     Inl e \<Rightarrow> ([(owner, ''invalid_evidence_set_payload'')], [])
   | Inr (ob, e) \<Rightarrow>
       (unpinned_notes ''unpinned_evidence_ref'' (evidence_members e)
          @ (if evs_selector e \<noteq> None \<and> evidence_members e = []
             then [(owner, ''selector_only_evidence_set_has_no_pinned_closure'')] else []),
        common @ pinned_keys (evidence_members e)))"

definition dependency_part ::
    "'h service_env \<Rightarrow> object_ref \<Rightarrow> version_key list \<Rightarrow> payload \<Rightarrow> (object_ref \<times> string) list \<times> version_key list" where
  "dependency_part env owner common p = (case validate_payload_as env dependency_of_body p of
     Inl e \<Rightarrow> ([(owner, ''invalid_dependency_payload'')], [])
   | Inr (ob, d) \<Rightarrow> (unpinned_notes ''unpinned_dependency_ref'' [dep_dependency_ref d],
       common @ pinned_keys [dep_dependency_ref d]))"

definition wake_part ::
    "'h service_env \<Rightarrow> object_ref \<Rightarrow> version_key list \<Rightarrow> payload \<Rightarrow> (object_ref \<times> string) list \<times> version_key list" where
  "wake_part env owner common p = (case validate_payload_as env wake_of_body p of
     Inl e \<Rightarrow> ([(owner, ''invalid_wake_payload'')], [])
   | Inr (ob, w) \<Rightarrow> (unpinned_notes ''unpinned_wake_evidence_ref'' (wak_evidence_refs w),
       common @ pinned_keys (wak_evidence_refs w)))"

definition atomic_part ::
    "'h service_env \<Rightarrow> object_ref \<Rightarrow> source_class \<Rightarrow> version_key list \<Rightarrow> payload
      \<Rightarrow> (object_ref \<times> string) list \<times> source_class option \<times> version_key list" where
  "atomic_part env owner sc common p = (case payload_object p of
     None \<Rightarrow> ([], Some sc, common)
   | Some ob \<Rightarrow>
       let override = conversation_source_override env ob in
       if conversation_observation ob \<and> override = None
       then ([(owner, ''conversation_observation_role_unknown'')], None, [])
       else (concat (map (field_notes owner) (evidence_set_fields (wo_body ob))),
         Some (case override of Some c \<Rightarrow> c | None \<Rightarrow> sc),
         common @ pinned_keys (filter ref_ok (concat (map snd (evidence_set_fields (wo_body ob)))))))"

definition lineage_children ::
    "'h service_env \<Rightarrow> (version_key \<times> version_key) list \<Rightarrow> version_key \<Rightarrow> object_type \<Rightarrow> source_class \<Rightarrow> payload
      \<Rightarrow> lineage_node" where
  "lineage_children env deps k t sc p =
     (let owner = key_ref_of k; ss = payload_sources p;
          notes = source_notes owner ss;
          common = pinned_keys (map ref_of_source (filter source_ref_ok ss)) @ map snd (filter (\<lambda>e. fst e = k) deps);
          blocks = (sc = SC_AI_COGNITION \<and> t \<notin> transparent_grounding_containers \<and> t \<notin> case_grounding_containers);
          container = (\<lambda>(ns, cs). LineageNode (notes @ ns) None blocks (unique_keys cs))
      in if t = OT_SUMMARY then container (summary_part env owner common p)
         else if t = OT_EVIDENCE_SET then container (evidence_part env owner common p)
         else if t = OT_DEPENDENCY then container (dependency_part env owner common p)
         else if t = OT_WAKE then container (wake_part env owner common p)
         else case atomic_part env owner sc common p of
           (ns, c, cs) \<Rightarrow> LineageNode (notes @ ns) c blocks (unique_keys cs))"

definition lineage_node_of ::
    "'h service_env \<Rightarrow> evidence_policy \<Rightarrow> (version_key \<times> version_key) list \<Rightarrow> 'h world_store \<Rightarrow> version_key
      \<Rightarrow> lineage_node" where
  "lineage_node_of env ep deps st k =
     (case result_bind (of_store (object_revision_record st (fst k) (snd k))) (\<lambda>rec.
           result_bind (read_payload st (fst k) (Some (snd k))) (\<lambda>p. Inr (rec, p))) of
        Inl e \<Rightarrow> LineageGap ''missing_or_corrupt_ref''
      | Inr (rec, p) \<Rightarrow>
          if rr_subject_id (orc_row rec) \<notin> ep_allowed_subject_ids ep then LineageGap ''cross_subject_ref''
          else if rr_revision_kind (orc_row rec) \<noteq> RK_content then LineageGap ''non_content_revision''
          else lineage_children env deps k (rr_object_type (orc_row rec)) (orc_source_class rec) p)"

section \<open>The walk\<close>

text \<open>
  The dictionaries of the traversal state as lists of their keys; \<open>ln_completed\<close> holds, newest first,
  the versions whose closure was walked, each with the flag under which it was.
\<close>

record lineage =
  ln_leaves :: "version_key list"
  ln_grounding :: "version_key list"
  ln_unresolved :: "object_ref list"
  ln_issues :: "string list"
  ln_reality :: bool
  ln_cognition :: bool
  ln_maintenance :: bool
  ln_completed :: "(version_key \<times> bool) list"

definition no_lineage :: lineage where
  "no_lineage = \<lparr>ln_leaves = [], ln_grounding = [], ln_unresolved = [], ln_issues = [], ln_reality = False,
     ln_cognition = False, ln_maintenance = False, ln_completed = []\<rparr>"

definition record_unresolved :: "object_ref \<times> string \<Rightarrow> lineage \<Rightarrow> lineage" where
  "record_unresolved n s = s\<lparr>ln_unresolved := List.insert (fst n) (ln_unresolved s),
     ln_issues := List.insert (snd n) (ln_issues s)\<rparr>"

definition record_atomic_source :: "version_key \<Rightarrow> source_class \<Rightarrow> bool \<Rightarrow> lineage \<Rightarrow> lineage" where
  "record_atomic_source k sc blocked s =
     (let s = s\<lparr>ln_leaves := List.insert k (ln_leaves s)\<rparr> in
      if sc \<in> reality_source_classes
      then s\<lparr>ln_reality := True, ln_grounding := (if blocked then ln_grounding s else List.insert k (ln_grounding s))\<rparr>
      else if sc = SC_AI_COGNITION then s\<lparr>ln_cognition := True\<rparr>
      else if sc = SC_MAINTENANCE then s\<lparr>ln_maintenance := True\<rparr> else s)"

definition record_node :: "version_key \<Rightarrow> bool \<Rightarrow> (object_ref \<times> string) list \<Rightarrow> source_class option \<Rightarrow> lineage \<Rightarrow> lineage" where
  "record_node k blocked notes sc s =
     (let s = fold record_unresolved notes s in
      case sc of None \<Rightarrow> s | Some c \<Rightarrow> record_atomic_source k c blocked s)"

definition complete_version :: "version_key \<Rightarrow> bool \<Rightarrow> lineage \<Rightarrow> lineage" where
  "complete_version k blocked s = s\<lparr>ln_completed := (k, blocked) # ln_completed s\<rparr>"

text \<open>\<open>active\<close> is the stack: a version is on it exactly while its children are walked.
  \<open>rows\<close> are the versions of the store; no other version resolves.\<close>

function (sequential) walk_version ::
    "(version_key \<Rightarrow> lineage_node) \<Rightarrow> version_key list \<Rightarrow> version_key list \<Rightarrow> bool \<Rightarrow> version_key \<Rightarrow> lineage \<Rightarrow> lineage"
  and walk_versions ::
    "(version_key \<Rightarrow> lineage_node) \<Rightarrow> version_key list \<Rightarrow> version_key list \<Rightarrow> bool \<Rightarrow> version_key list \<Rightarrow> lineage \<Rightarrow> lineage"
where
  "walk_version node rows active blocked k s =
     (if k \<in> set active then record_unresolved (key_ref_of k, ''lineage_cycle'') s
      else if (k, blocked) \<in> set (ln_completed s) then s
      else case (if k \<in> set rows then node k else LineageGap ''missing_or_corrupt_ref'') of
        LineageGap reason \<Rightarrow> record_unresolved (key_ref_of k, reason) s
      | LineageNode notes sc blocks below \<Rightarrow>
          complete_version k blocked (walk_versions node rows (k # active) (blocked \<or> blocks) below
            (record_node k blocked notes sc s)))"
| "walk_versions node rows active blocked [] s = s"
| "walk_versions node rows active blocked (k # ks) s =
     walk_versions node rows active blocked ks (walk_version node rows active blocked k s)"
  by pat_completeness auto

termination
proof (relation "inv_image (less_than <*lex*> less_than) (\<lambda>x. case x of
    Inl (node, rows, active, blocked, k, s) \<Rightarrow> (card (set rows - set active), 0)
  | Inr (node, rows, active, blocked, ks, s) \<Rightarrow> (card (set rows - set active), Suc (length ks)))")
  fix node :: "version_key \<Rightarrow> lineage_node" and rows active :: "version_key list" and blocked blocks :: bool
    and k :: version_key and s :: lineage and ns sc below
  assume "k \<notin> set active" and "(if k \<in> set rows then node k else LineageGap ''missing_or_corrupt_ref'')
    = LineageNode ns sc blocks below"
  then have "set rows - set (k # active) \<subset> set rows - set active" by (auto split: if_splits)
  then have "card (set rows - set (k # active)) < card (set rows - set active)" by (intro psubset_card_mono) auto
  then show "(Inr (node, rows, k # active, blocked \<or> blocks, below, record_node k blocked ns sc s),
      Inl (node, rows, active, blocked, k, s)) \<in> inv_image (less_than <*lex*> less_than) (\<lambda>x. case x of
        Inl (node, rows, active, blocked, k, s) \<Rightarrow> (card (set rows - set active), 0)
      | Inr (node, rows, active, blocked, ks, s) \<Rightarrow> (card (set rows - set active), Suc (length ks)))" by simp
qed auto

declare walk_version.simps [simp del]

section \<open>The view and the verdict\<close>

datatype lineage_class = LC_REALITY | LC_AI_COGNITION_ONLY | LC_MAINTENANCE_ONLY | LC_MIXED | LC_UNKNOWN

record lineage_view =
  lv_classification :: lineage_class
  lv_leaf_refs :: "object_ref list"
  lv_grounding_leaf_refs :: "object_ref list"
  lv_unresolved_refs :: "object_ref list"
  lv_issues :: "string list"
  lv_has_reality :: bool
  lv_has_ai_cognition :: bool
  lv_has_maintenance :: bool

definition classify_lineage :: "lineage \<Rightarrow> lineage_class" where
  "classify_lineage s =
     (if ln_unresolved s \<noteq> [] \<or> ln_issues s \<noteq> [] then LC_UNKNOWN
      else if ln_reality s \<and> ln_cognition s then LC_MIXED
      else if ln_reality s then LC_REALITY
      else if ln_cognition s then LC_AI_COGNITION_ONLY
      else if ln_maintenance s then LC_MAINTENANCE_ONLY else LC_UNKNOWN)"

definition unresolved_order :: "object_ref \<Rightarrow> string \<times> int" where
  "unresolved_order r = (ref_object_id r, case ref_revision r of None \<Rightarrow> - 1 | Some v \<Rightarrow> v)"

definition view_lineage :: "lineage \<Rightarrow> lineage_view" where
  "view_lineage s = \<lparr>lv_classification = classify_lineage s,
     lv_leaf_refs = map key_ref_of (unique_keys (ln_leaves s)),
     lv_grounding_leaf_refs = map key_ref_of (unique_keys (ln_grounding s)),
     lv_unresolved_refs = sort_key unresolved_order (ln_unresolved s), lv_issues = sort (ln_issues s),
     lv_has_reality = ln_reality s, lv_has_ai_cognition = ln_cognition s, lv_has_maintenance = ln_maintenance s\<rparr>"

definition version_rows :: "'h world_store \<Rightarrow> version_key list" where
  "version_rows st = map row_key (ws_revisions st)"

fun walk_refs :: "(version_key \<Rightarrow> lineage_node) \<Rightarrow> version_key list \<Rightarrow> object_ref list \<Rightarrow> lineage \<Rightarrow> lineage" where
  "walk_refs node rows [] s = s"
| "walk_refs node rows (r # rs) s = walk_refs node rows rs (case ref_revision r of
     None \<Rightarrow> record_unresolved (r, ''unpinned_ref'') s
   | Some v \<Rightarrow> walk_version node rows [] False (ref_object_id r, v) s)"

definition derive_lineage ::
    "'h service_env \<Rightarrow> evidence_policy \<Rightarrow> object_ref list \<Rightarrow> 'h world_store \<Rightarrow> service_error + lineage" where
  "derive_lineage env ep refs st = result_bind (support_dependencies env ep st) (\<lambda>deps.
     Inr (walk_refs (lineage_node_of env ep deps st) (version_rows st) refs no_lineage))"

definition derive_lineage_for_refs ::
    "'h service_env \<Rightarrow> evidence_policy \<Rightarrow> object_ref list \<Rightarrow> 'h world_store \<Rightarrow> service_error + lineage_view" where
  "derive_lineage_for_refs env ep refs st =
     result_bind (derive_lineage env ep refs st) (\<lambda>s. Inr (view_lineage s))"

definition validate_evidence_policy ::
    "'h service_env \<Rightarrow> evidence_policy \<Rightarrow> object_ref list \<Rightarrow> 'h world_store \<Rightarrow> service_error + lineage_view" where
  "validate_evidence_policy env ep refs st =
     (if refs = [] then Inl (SvValue ''no evidence refs provided'')
      else result_bind (derive_lineage_for_refs env ep refs st) (\<lambda>v.
        if lv_classification v \<notin> {LC_REALITY, LC_MIXED} \<or> lv_unresolved_refs v \<noteq> [] \<or> lv_issues v \<noteq> []
          \<or> lv_grounding_leaf_refs v = []
        then Inl (SvValue ''leaf-grounded evidence closure rejected'') else Inr v))"

end
