(* ===== verification/GroundingFacts.thy ===== *)
theory GroundingFacts
  imports Grounding ServiceFacts
begin

text \<open>
  The walk decides its specification. The specification is about the graph of versions alone: which
  versions are reached from the references, and whether on the way an AI assertion hides what lies
  below. The walk reports no issue exactly when every reached version resolves cleanly and none supports
  itself, and then its grounding leaves are exactly the reality leaves reached in the open.
\<close>

section \<open>The specification\<close>

definition supports :: "(version_key \<Rightarrow> lineage_node) \<Rightarrow> (version_key \<times> version_key) set" where
  "supports node = {(k, c). \<exists>ns sc bl cs. node k = LineageNode ns sc bl cs \<and> c \<in> set cs}"

definition clean_node :: "lineage_node \<Rightarrow> bool" where
  "clean_node n \<longleftrightarrow> (\<exists>sc bl cs. n = LineageNode [] sc bl cs)"

definition reality_class :: "source_class option \<Rightarrow> bool" where
  "reality_class sc \<longleftrightarrow> (\<exists>c. sc = Some c \<and> c \<in> reality_source_classes)"

definition reality_node :: "lineage_node \<Rightarrow> bool" where
  "reality_node n \<longleftrightarrow> (\<exists>ns sc bl cs. n = LineageNode ns sc bl cs \<and> reality_class sc)"

inductive reached :: "(version_key \<Rightarrow> lineage_node) \<Rightarrow> version_key set \<Rightarrow> version_key \<Rightarrow> bool \<Rightarrow> bool"
  for node roots where
  root: "k \<in> roots \<Longrightarrow> reached node roots k False"
| below: "reached node roots k b \<Longrightarrow> node k = LineageNode ns sc bl cs \<Longrightarrow> c \<in> set cs \<Longrightarrow> reached node roots c (b \<or> bl)"

definition ref_roots :: "object_ref list \<Rightarrow> version_key set" where
  "ref_roots refs = set (pinned_keys refs)"

definition sound_graph :: "(version_key \<Rightarrow> lineage_node) \<Rightarrow> version_key set \<Rightarrow> bool" where
  "sound_graph node roots \<longleftrightarrow>
     (\<forall>k b. reached node roots k b \<longrightarrow> clean_node (node k) \<and> (k, k) \<notin> (supports node)\<^sup>+)"

definition open_reality :: "(version_key \<Rightarrow> lineage_node) \<Rightarrow> version_key set \<Rightarrow> version_key set" where
  "open_reality node roots = {k. reached node roots k False \<and> reality_node (node k)}"

section \<open>What recording does\<close>

lemma insert_not_Nil [simp]: "List.insert x xs \<noteq> []"
  by (auto simp: List.insert_def)

lemma record_unresolved_sel [simp]:
  "ln_issues (record_unresolved n s) \<noteq> []" "ln_unresolved (record_unresolved n s) \<noteq> []"
  "ln_grounding (record_unresolved n s) = ln_grounding s" "ln_completed (record_unresolved n s) = ln_completed s"
  "ln_reality (record_unresolved n s) = ln_reality s"
  by (simp_all add: record_unresolved_def)

lemma record_notes_sel:
  "ln_issues (fold record_unresolved ns s) = [] \<longleftrightarrow> ns = [] \<and> ln_issues s = []"
  "ln_unresolved (fold record_unresolved ns s) = [] \<longleftrightarrow> ns = [] \<and> ln_unresolved s = []"
  "ln_grounding (fold record_unresolved ns s) = ln_grounding s"
  "ln_completed (fold record_unresolved ns s) = ln_completed s"
  "ln_reality (fold record_unresolved ns s) = ln_reality s"
  by (induction ns arbitrary: s) auto

lemma record_atomic_sel [simp]:
  "ln_issues (record_atomic_source k c b s) = ln_issues s"
  "ln_unresolved (record_atomic_source k c b s) = ln_unresolved s"
  "ln_completed (record_atomic_source k c b s) = ln_completed s"
  "set (ln_grounding (record_atomic_source k c b s))
     = (if c \<in> reality_source_classes \<and> \<not> b then insert k (set (ln_grounding s)) else set (ln_grounding s))"
  "ln_reality (record_atomic_source k c b s) \<longleftrightarrow> c \<in> reality_source_classes \<or> ln_reality s"
  by (simp_all add: record_atomic_source_def Let_def)

lemma record_node_sel [simp]:
  "ln_issues (record_node k b ns sc s) = [] \<longleftrightarrow> ns = [] \<and> ln_issues s = []"
  "ln_unresolved (record_node k b ns sc s) = [] \<longleftrightarrow> ns = [] \<and> ln_unresolved s = []"
  "ln_completed (record_node k b ns sc s) = ln_completed s"
  "set (ln_grounding (record_node k b ns sc s))
     = (if \<not> b \<and> reality_class sc then insert k (set (ln_grounding s)) else set (ln_grounding s))"
  "ln_reality (record_node k b ns sc s) \<longleftrightarrow> reality_class sc \<or> ln_reality s"
  by (auto simp: record_node_def Let_def record_notes_sel reality_class_def split: option.splits)

lemma complete_version_sel [simp]:
  "ln_issues (complete_version k b s) = ln_issues s" "ln_unresolved (complete_version k b s) = ln_unresolved s"
  "ln_grounding (complete_version k b s) = ln_grounding s" "ln_reality (complete_version k b s) = ln_reality s"
  "ln_completed (complete_version k b s) = (k, b) # ln_completed s"
  by (simp_all add: complete_version_def)

section \<open>Graphs whose versions are rows\<close>

locale support_graph =
  fixes node :: "version_key \<Rightarrow> lineage_node" and rows :: "version_key list"
  assumes unresolved: "k \<notin> set rows \<Longrightarrow> node k = LineageGap ''missing_or_corrupt_ref''"
begin

lemma walk_eq:
  "walk_version node rows active blocked k s =
     (if k \<in> set active then record_unresolved (key_ref_of k, ''lineage_cycle'') s
      else if (k, blocked) \<in> set (ln_completed s) then s
      else case node k of
        LineageGap reason \<Rightarrow> record_unresolved (key_ref_of k, reason) s
      | LineageNode ns sc bl cs \<Rightarrow>
          complete_version k blocked (walk_versions node rows (k # active) (blocked \<or> bl) cs
            (record_node k blocked ns sc s)))"
  using unresolved [of k] by (simp add: walk_version.simps cong: lineage_node.case_cong)

text \<open>The two walks together: a property of single steps holds for both.\<close>

lemma walk_induct [case_names Cycle Done Gap Node Nil Cons]:
  assumes "\<And>active b k s. k \<in> set active \<Longrightarrow> P active b k s (record_unresolved (key_ref_of k, ''lineage_cycle'') s)"
    and "\<And>active b k s. k \<notin> set active \<Longrightarrow> (k, b) \<in> set (ln_completed s) \<Longrightarrow> P active b k s s"
    and "\<And>active b k s reason. k \<notin> set active \<Longrightarrow> node k = LineageGap reason \<Longrightarrow>
      P active b k s (record_unresolved (key_ref_of k, reason) s)"
    and "\<And>active b k s ns sc bl cs t. k \<notin> set active \<Longrightarrow> (k, b) \<notin> set (ln_completed s) \<Longrightarrow>
      node k = LineageNode ns sc bl cs \<Longrightarrow>
      Q (k # active) (b \<or> bl) cs (record_node k b ns sc s) t \<Longrightarrow> P active b k s (complete_version k b t)"
    and "\<And>active b s. Q active b [] s s"
    and "\<And>active b k ks s t u. P active b k s t \<Longrightarrow> Q active b ks t u \<Longrightarrow> Q active b (k # ks) s u"
  shows "P active b k s (walk_version node rows active b k s)"
    and "Q active b ks s (walk_versions node rows active b ks s)"
proof -
  have "node' = node \<longrightarrow> rows' = rows \<longrightarrow> P active b k s (walk_version node' rows' active b k s)"
    and "node' = node \<longrightarrow> rows' = rows \<longrightarrow> Q active b ks s (walk_versions node' rows' active b ks s)"
    for node' rows'
  proof (induction node' rows' active b k s and node' rows' active b ks s rule: walk_version_walk_versions.induct)
    case (1 node' rows' active b k s)
    show ?case
    proof (intro impI)
      assume same: "node' = node" "rows' = rows"
      consider "k \<in> set active" | "k \<notin> set active" "(k, b) \<in> set (ln_completed s)"
        | reason where "k \<notin> set active" "(k, b) \<notin> set (ln_completed s)" "node k = LineageGap reason"
        | ns sc bl cs where "k \<notin> set active" "(k, b) \<notin> set (ln_completed s)" "node k = LineageNode ns sc bl cs"
        by (cases "node k") blast+
      then show "P active b k s (walk_version node' rows' active b k s)"
      proof cases
        case 4
        then have "k \<in> set rows" using unresolved [of k] by fastforce
        with 4 1 same have "Q (k # active) (b \<or> bl) cs (record_node k b ns sc s)
            (walk_versions node rows (k # active) (b \<or> bl) cs (record_node k b ns sc s))" by simp
        with 4 same assms(4) show ?thesis by (simp add: walk_eq)
      qed (use same assms(1-3) in \<open>simp_all add: walk_eq\<close>)
    qed
  next
    case (3 node' rows' active b k ks s)
    then show ?case using assms(6) by (metis walk_versions.simps(2))
  qed (simp add: assms(5))
  then show "P active b k s (walk_version node rows active b k s)"
    and "Q active b ks s (walk_versions node rows active b ks s)" by simp_all
qed

section \<open>What only grows\<close>

definition grows :: "lineage \<Rightarrow> lineage \<Rightarrow> bool" where
  "grows s t \<longleftrightarrow> (ln_issues t = [] \<longrightarrow> ln_issues s = []) \<and> set (ln_completed s) \<subseteq> set (ln_completed t)
     \<and> set (ln_grounding s) \<subseteq> set (ln_grounding t)"

lemma grows_trans: "grows s t \<Longrightarrow> grows t u \<Longrightarrow> grows s u"
  by (auto simp: grows_def)

lemma grows_record: "grows s (record_node k b ns sc s)"
  by (auto simp: grows_def)

lemma walk_grows:
  "grows s (walk_version node rows active b k s)" "grows s (walk_versions node rows active b ks s)"
proof (induction rule: walk_induct [where P = "\<lambda>active b k s t. grows s t" and Q = "\<lambda>active b ks s t. grows s t"])
  case (Node active b k s ns sc bl cs t)
  have "grows t (complete_version k b t)" by (auto simp: grows_def)
  from grows_trans [OF grows_trans [OF grows_record Node(3)] this] show ?case .
qed (auto simp: grows_def)

section \<open>A walk without issues completes a closed graph\<close>

text \<open>Every completed version is clean, and its children were completed before it.\<close>

fun well_completed :: "(version_key \<times> bool) list \<Rightarrow> bool" where
  "well_completed [] \<longleftrightarrow> True"
| "well_completed (x # xs) \<longleftrightarrow> well_completed xs
     \<and> (\<exists>sc bl cs. node (fst x) = LineageNode [] sc bl cs \<and> (\<forall>c \<in> set cs. (c, snd x \<or> bl) \<in> set xs))"

definition leaves_found :: "lineage \<Rightarrow> bool" where
  "leaves_found s \<longleftrightarrow> (\<forall>k. (k, False) \<in> set (ln_completed s) \<longrightarrow> reality_node (node k) \<longrightarrow> k \<in> set (ln_grounding s))"

definition walked :: "lineage \<Rightarrow> (version_key \<times> bool) set \<Rightarrow> lineage \<Rightarrow> bool" where
  "walked s new t \<longleftrightarrow> grows s t \<and> (ln_issues t = [] \<longrightarrow> well_completed (ln_completed s) \<longrightarrow>
     well_completed (ln_completed t) \<and> new \<subseteq> set (ln_completed t)) \<and> (leaves_found s \<longrightarrow> leaves_found t)"

lemma walk_completes:
  "walked s {(k, b)} (walk_version node rows active b k s)"
  "walked s ((\<lambda>k. (k, b)) ` set ks) (walk_versions node rows active b ks s)"
proof (induction rule: walk_induct [where P = "\<lambda>active b k s t. walked s {(k, b)} t"
      and Q = "\<lambda>active b ks s t. walked s ((\<lambda>k. (k, b)) ` set ks) t"])
  case (Node active b k s ns sc bl cs t)
  have IH: "walked (record_node k b ns sc s) ((\<lambda>k. (k, b \<or> bl)) ` set cs) t" and nk: "node k = LineageNode ns sc bl cs"
    using Node by blast+
  have grows: "grows s (complete_version k b t)"
    using IH grows_record [of s k b ns sc] by (auto simp: walked_def grows_def)
  have "leaves_found (complete_version k b t)" if "leaves_found s"
  proof -
    have "leaves_found (record_node k b ns sc s)" using that by (auto simp: leaves_found_def)
    then have "leaves_found t" using IH by (simp add: walked_def)
    moreover have "k \<in> set (ln_grounding t)" if "\<not> b" "reality_node (node k)"
    proof -
      have "reality_class sc" using that(2) nk by (auto simp: reality_node_def)
      then have "k \<in> set (ln_grounding (record_node k b ns sc s))" using that(1) by simp
      then show ?thesis using IH by (auto simp: walked_def grows_def)
    qed
    ultimately show ?thesis by (auto simp: leaves_found_def)
  qed
  moreover have "well_completed (ln_completed (complete_version k b t))"
    if "ln_issues t = []" "well_completed (ln_completed s)"
  proof -
    have "ns = []" using IH that(1) by (simp add: walked_def grows_def)
    moreover have "well_completed (ln_completed t)" "(\<lambda>k. (k, b \<or> bl)) ` set cs \<subseteq> set (ln_completed t)"
      using IH that by (simp_all add: walked_def)
    ultimately show ?thesis using nk by auto
  qed
  ultimately show ?case using grows by (simp add: walked_def)
next
  case (Cons active b k ks s t u)
  then show ?case by (auto simp: walked_def grows_def)
qed (auto simp: walked_def grows_def leaves_found_def)

section \<open>A completed graph has no cycle\<close>

definition flagged :: "((version_key \<times> bool) \<times> (version_key \<times> bool)) set" where
  "flagged = {e. \<exists>ns sc bl cs. node (fst (fst e)) = LineageNode ns sc bl cs \<and> fst (snd e) \<in> set cs
     \<and> snd (snd e) = (snd (fst e) \<or> bl)}"

lemma flagged_iff:
  "((k, b), (c, b')) \<in> flagged \<longleftrightarrow> (\<exists>ns sc bl cs. node k = LineageNode ns sc bl cs \<and> c \<in> set cs \<and> b' = (b \<or> bl))"
  by (simp add: flagged_def)

lemma flagged_children:
  "node (fst x) = LineageNode ns sc bl cs \<Longrightarrow> (x, y) \<in> flagged \<Longrightarrow> \<exists>c \<in> set cs. y = (c, snd x \<or> bl)"
  by (cases x; cases y) (auto simp: flagged_iff)

lemma completed_closed:
  "well_completed xs \<Longrightarrow> x \<in> set xs \<Longrightarrow> (x, y) \<in> flagged \<Longrightarrow> y \<in> set xs"
proof (induction xs)
  case (Cons z zs)
  show ?case
  proof (cases "x = z")
    case True
    with Cons.prems(1) obtain sc bl cs where "node (fst x) = LineageNode [] sc bl cs"
      "\<forall>c \<in> set cs. (c, snd x \<or> bl) \<in> set zs" by auto
    then show ?thesis using flagged_children [OF _ Cons.prems(3)] by fastforce
  next
    case False
    then show ?thesis using Cons by simp
  qed
qed simp

lemma completed_closed_trancl:
  "(x, y) \<in> flagged\<^sup>+ \<Longrightarrow> well_completed xs \<Longrightarrow> x \<in> set xs \<Longrightarrow> y \<in> set xs"
  by (induction rule: trancl_induct) (auto dest: completed_closed)

lemma completed_acyclic:
  "well_completed xs \<Longrightarrow> x \<in> set xs \<Longrightarrow> (x, x) \<notin> flagged\<^sup>+"
proof (induction xs arbitrary: x)
  case (Cons y ys)
  have older: "(z, z) \<notin> flagged\<^sup>+" if "z \<in> set ys" for z using Cons.IH Cons.prems(1) that by simp
  show ?case
  proof
    assume cycle: "(x, x) \<in> flagged\<^sup>+"
    then have "x \<notin> set ys" using older by blast
    then have "x = y" using Cons.prems(2) by simp
    then obtain sc bl cs where nx: "node (fst x) = LineageNode [] sc bl cs"
      "\<forall>c \<in> set cs. (c, snd x \<or> bl) \<in> set ys" using Cons.prems(1) by auto
    obtain z where z: "(x, z) \<in> flagged" "(z, x) \<in> flagged\<^sup>*" using tranclD [OF cycle] by blast
    have "z \<in> set ys" using flagged_children [OF nx(1) z(1)] nx(2) by auto
    moreover have "z = x \<or> (z, x) \<in> flagged\<^sup>+" using z(2) by (auto dest: rtranclD)
    moreover have "well_completed ys" using Cons.prems(1) by simp
    ultimately have "x \<in> set ys" using completed_closed_trancl by blast
    with \<open>x \<notin> set ys\<close> show False ..
  qed
qed simp

lemma lift_path:
  "(k, c) \<in> (supports node)\<^sup>+ \<Longrightarrow> \<exists>b'. ((k, b), (c, b')) \<in> flagged\<^sup>+ \<and> (b \<longrightarrow> b')"
proof (induction rule: trancl_induct)
  case (base c)
  then obtain ns sc bl cs where "node k = LineageNode ns sc bl cs" "c \<in> set cs" by (auto simp: supports_def)
  then have "((k, b), (c, b \<or> bl)) \<in> flagged" by (auto simp: flagged_iff)
  then show ?case by blast
next
  case (step c d)
  then obtain b' where b': "((k, b), (c, b')) \<in> flagged\<^sup>+" "b \<longrightarrow> b'" by blast
  from step.hyps(2) obtain ns sc bl cs where "node c = LineageNode ns sc bl cs" "d \<in> set cs" by (auto simp: supports_def)
  then have "((c, b'), (d, b' \<or> bl)) \<in> flagged" by (auto simp: flagged_iff)
  with b'(1) have "((k, b), (d, b' \<or> bl)) \<in> flagged\<^sup>+" by (rule trancl.trancl_into_trancl)
  then show ?case using b'(2) by blast
qed

lemma completed_no_self_support:
  assumes "well_completed xs" and "(k, b) \<in> set xs"
  shows "(k, k) \<notin> (supports node)\<^sup>+"
proof
  assume cycle: "(k, k) \<in> (supports node)\<^sup>+"
  obtain b' where b': "((k, b), (k, b')) \<in> flagged\<^sup>+" "b \<longrightarrow> b'" using lift_path [OF cycle] by blast
  have "b' \<noteq> b" using completed_acyclic [OF assms] b'(1) by blast
  then have "b'" using b'(2) by blast
  have mem: "(k, True) \<in> set xs" using completed_closed_trancl [OF b'(1) assms] \<open>b'\<close> by simp
  obtain b'' where "((k, True), (k, b'')) \<in> flagged\<^sup>+" "True \<longrightarrow> b''" using lift_path [OF cycle] by blast
  then show False using completed_acyclic [OF assms(1) mem] by simp
qed

lemma reached_completed:
  "reached node roots k b \<Longrightarrow> well_completed xs \<Longrightarrow> (\<lambda>k. (k, False)) ` roots \<subseteq> set xs \<Longrightarrow> (k, b) \<in> set xs"
proof (induction rule: reached.induct)
  case (below k b ns sc bl cs c)
  then have "((k, b), (c, b \<or> bl)) \<in> flagged" by (auto simp: flagged_iff)
  with below completed_closed show ?case by blast
qed auto

lemma completed_clean: "well_completed xs \<Longrightarrow> (k, b) \<in> set xs \<Longrightarrow> clean_node (node k)"
  by (induction xs) (auto simp: clean_node_def)

section \<open>Grounding leaves are reality reached in the open\<close>

definition open_leaves :: "version_key set \<Rightarrow> lineage \<Rightarrow> bool" where
  "open_leaves roots s \<longleftrightarrow> set (ln_grounding s) \<subseteq> open_reality node roots
     \<and> (ln_grounding s \<noteq> [] \<longrightarrow> ln_reality s)"

lemma walk_open:
  "reached node roots k b \<longrightarrow> open_leaves roots s \<longrightarrow> open_leaves roots (walk_version node rows active b k s)"
  "(\<forall>k \<in> set ks. reached node roots k b) \<longrightarrow> open_leaves roots s \<longrightarrow>
    open_leaves roots (walk_versions node rows active b ks s)"
proof (induction rule: walk_induct [where
      P = "\<lambda>active b k s t. reached node roots k b \<longrightarrow> open_leaves roots s \<longrightarrow> open_leaves roots t" and
      Q = "\<lambda>active b ks s t. (\<forall>k \<in> set ks. reached node roots k b) \<longrightarrow> open_leaves roots s \<longrightarrow> open_leaves roots t"])
  case (Node active b k s ns sc bl cs t)
  have IH: "(\<forall>k \<in> set cs. reached node roots k (b \<or> bl)) \<longrightarrow> open_leaves roots (record_node k b ns sc s) \<longrightarrow> open_leaves roots t"
    and nk: "node k = LineageNode ns sc bl cs" using Node by blast+
  have "open_leaves roots t" if "reached node roots k b" "open_leaves roots s"
  proof -
    have "\<forall>c \<in> set cs. reached node roots c (b \<or> bl)" using that(1) nk by (auto intro: below)
    moreover have "open_leaves roots (record_node k b ns sc s)"
    proof -
      have "ln_grounding (record_node k b ns sc s) \<noteq> [] \<longrightarrow> ln_reality (record_node k b ns sc s)"
        using that(2) record_node_sel(4) [of k b ns sc s] by (auto simp: open_leaves_def split: if_splits simp del: record_node_sel(4) simp flip: set_empty)
      then show ?thesis using that nk by (auto simp: open_leaves_def open_reality_def reality_node_def)
    qed
    ultimately show ?thesis using IH by blast
  qed
  then show ?case by (simp add: open_leaves_def)
qed (auto simp: open_leaves_def)

section \<open>A clean graph without cycles is walked without issues\<close>

definition quiet :: "lineage \<Rightarrow> bool" where
  "quiet s \<longleftrightarrow> ln_issues s = [] \<and> ln_unresolved s = []"

lemma walk_quiet:
  assumes "\<And>k b. reached node roots k b \<Longrightarrow> clean_node (node k)"
    and "\<And>k b. reached node roots k b \<Longrightarrow> (k, k) \<notin> (supports node)\<^sup>+"
  shows "reached node roots k b \<and> (\<forall>a \<in> set active. (a, k) \<in> (supports node)\<^sup>+) \<longrightarrow> quiet s \<longrightarrow>
      quiet (walk_version node rows active b k s)"
    and "(\<forall>k \<in> set ks. reached node roots k b \<and> (\<forall>a \<in> set active. (a, k) \<in> (supports node)\<^sup>+)) \<longrightarrow> quiet s \<longrightarrow>
      quiet (walk_versions node rows active b ks s)"
proof (induction rule: walk_induct [where
      P = "\<lambda>active b k s t. reached node roots k b \<and> (\<forall>a \<in> set active. (a, k) \<in> (supports node)\<^sup>+) \<longrightarrow> quiet s \<longrightarrow> quiet t" and
      Q = "\<lambda>active b ks s t. (\<forall>k \<in> set ks. reached node roots k b \<and> (\<forall>a \<in> set active. (a, k) \<in> (supports node)\<^sup>+)) \<longrightarrow>
        quiet s \<longrightarrow> quiet t"])
  case (Cycle active b k s)
  then show ?case using assms(2) by blast
next
  case (Gap active b k s reason)
  then have "\<not> reached node roots k b" using assms(1) [of k b] by (auto simp: clean_node_def)
  then show ?case by simp
next
  case (Node active b k s ns sc bl cs t)
  have IH: "(\<forall>c \<in> set cs. reached node roots c (b \<or> bl) \<and> (\<forall>a \<in> set (k # active). (a, c) \<in> (supports node)\<^sup>+)) \<longrightarrow>
      quiet (record_node k b ns sc s) \<longrightarrow> quiet t" and nk: "node k = LineageNode ns sc bl cs" using Node by blast+
  have "quiet t" if r: "reached node roots k b" and above: "\<forall>a \<in> set active. (a, k) \<in> (supports node)\<^sup>+" and q: "quiet s"
  proof -
    have edge: "(k, c) \<in> supports node" if "c \<in> set cs" for c using that nk by (auto simp: supports_def)
    have "\<forall>c \<in> set cs. reached node roots c (b \<or> bl)" using r nk by (auto intro: below)
    moreover have "\<forall>c \<in> set cs. \<forall>a \<in> set (k # active). (a, c) \<in> (supports node)\<^sup>+"
      using edge above by (auto intro: trancl.trancl_into_trancl)
    moreover have "quiet (record_node k b ns sc s)" using assms(1) [OF r] nk q by (simp add: quiet_def clean_node_def)
    ultimately show ?thesis using IH by blast
  qed
  then show ?case by (simp add: quiet_def)
qed (auto simp: quiet_def)

section \<open>The walk over the references\<close>

lemma pinned_keys_Cons [simp]:
  "pinned_keys [] = []"
  "pinned_keys (r # rs) = (case ref_revision r of None \<Rightarrow> pinned_keys rs | Some v \<Rightarrow> (ref_object_id r, v) # pinned_keys rs)"
  by (auto simp: pinned_keys_def split: option.splits)

lemma walk_refs_walked:
  "walked s ((\<lambda>k. (k, False)) ` ref_roots refs) (walk_refs node rows refs s)"
proof (induction refs arbitrary: s)
  case Nil
  then show ?case by (simp add: walked_def grows_def ref_roots_def)
next
  case (Cons r refs)
  show ?case
  proof (cases "ref_revision r")
    case None
    have "walked s {} (record_unresolved (r, ''unpinned_ref'') s)" by (simp add: walked_def grows_def leaves_found_def)
    with Cons.IH [of "record_unresolved (r, ''unpinned_ref'') s"] None show ?thesis
      by (auto simp: walked_def grows_def ref_roots_def)
  next
    case (Some v)
    have "walked s {((ref_object_id r, v), False)} (walk_version node rows [] False (ref_object_id r, v) s)"
      by (rule walk_completes)
    with Cons.IH [of "walk_version node rows [] False (ref_object_id r, v) s"] Some show ?thesis
      by (auto simp: walked_def grows_def ref_roots_def)
  qed
qed

lemma walk_refs_open:
  "ref_roots refs \<subseteq> roots \<Longrightarrow> open_leaves roots s \<Longrightarrow> open_leaves roots (walk_refs node rows refs s)"
proof (induction refs arbitrary: s)
  case (Cons r refs)
  show ?case
  proof (cases "ref_revision r")
    case None
    then show ?thesis using Cons by (auto simp: ref_roots_def open_leaves_def)
  next
    case (Some v)
    then have "reached node roots (ref_object_id r, v) False" using Cons.prems(1) by (auto simp: ref_roots_def intro: root)
    with Cons.prems(2) walk_open(1) have "open_leaves roots (walk_version node rows [] False (ref_object_id r, v) s)" by blast
    with Cons.IH Cons.prems(1) Some show ?thesis by (simp add: ref_roots_def)
  qed
qed simp

lemma walk_refs_quiet:
  "sound_graph node roots \<Longrightarrow> ref_roots refs \<subseteq> roots \<Longrightarrow> \<forall>r \<in> set refs. ref_revision r \<noteq> None \<Longrightarrow> quiet s \<Longrightarrow>
   quiet (walk_refs node rows refs s)"
proof (induction refs arbitrary: s)
  case (Cons r refs)
  from Cons.prems(3) obtain v where v: "ref_revision r = Some v" by auto
  then have "reached node roots (ref_object_id r, v) False" using Cons.prems(2) by (auto simp: ref_roots_def intro: root)
  moreover have "\<And>k b. reached node roots k b \<Longrightarrow> clean_node (node k)"
    "\<And>k b. reached node roots k b \<Longrightarrow> (k, k) \<notin> (supports node)\<^sup>+" using Cons.prems(1) by (auto simp: sound_graph_def)
  from walk_quiet(1) [where active = "[]" and k = "(ref_object_id r, v)" and b = False and s = s, OF this]
  have "reached node roots (ref_object_id r, v) False \<longrightarrow> quiet s \<longrightarrow>
      quiet (walk_version node rows [] False (ref_object_id r, v) s)" by simp
  ultimately have "quiet (walk_version node rows [] False (ref_object_id r, v) s)" using Cons.prems(4) by auto
  with Cons.IH Cons.prems v show ?case by (simp add: ref_roots_def)
qed simp

lemma unpinned_not_quiet:
  "r \<in> set refs \<Longrightarrow> ref_revision r = None \<Longrightarrow> ln_issues (walk_refs node rows refs s) \<noteq> []"
proof (induction refs arbitrary: s)
  case (Cons r' refs)
  show ?case
  proof (cases "r = r'")
    case True
    have "walked (record_unresolved (r, ''unpinned_ref'') s) ((\<lambda>k. (k, False)) ` ref_roots refs)
        (walk_refs node rows refs (record_unresolved (r, ''unpinned_ref'') s))" by (rule walk_refs_walked)
    then show ?thesis using True Cons.prems(2) by (auto simp: walked_def grows_def)
  next
    case False
    with Cons show ?thesis by simp
  qed
qed simp

lemma walk_refs_decides:
  "ln_issues (walk_refs node rows refs no_lineage) = [] \<and> ln_unresolved (walk_refs node rows refs no_lineage) = [] \<longleftrightarrow>
     (\<forall>r \<in> set refs. ref_revision r \<noteq> None) \<and> sound_graph node (ref_roots refs)" (is "?quiet \<longleftrightarrow> ?sound")
proof
  assume ?quiet
  then have walked: "well_completed (ln_completed (walk_refs node rows refs no_lineage))"
    "(\<lambda>k. (k, False)) ` ref_roots refs \<subseteq> set (ln_completed (walk_refs node rows refs no_lineage))"
    using walk_refs_walked [of no_lineage refs] by (simp_all add: walked_def no_lineage_def)
  have "\<forall>r \<in> set refs. ref_revision r \<noteq> None" using unpinned_not_quiet \<open>?quiet\<close> by blast
  moreover have "clean_node (node k) \<and> (k, k) \<notin> (supports node)\<^sup>+" if "reached node (ref_roots refs) k b" for k b
    using reached_completed [OF that walked] completed_clean [OF walked(1)] completed_no_self_support [OF walked(1)] by blast
  ultimately show ?sound by (auto simp: sound_graph_def)
next
  assume ?sound
  then show ?quiet using walk_refs_quiet [of "ref_roots refs" refs no_lineage] by (auto simp: quiet_def no_lineage_def)
qed

lemma walk_refs_grounding:
  assumes "ln_issues (walk_refs node rows refs no_lineage) = []"
  shows "set (ln_grounding (walk_refs node rows refs no_lineage))
    = open_reality node (ref_roots refs)"
proof -
  let ?t = "walk_refs node rows refs no_lineage"
  have "walked no_lineage ((\<lambda>k. (k, False)) ` ref_roots refs) ?t" by (rule walk_refs_walked)
  then have closed: "well_completed (ln_completed ?t)" "(\<lambda>k. (k, False)) ` ref_roots refs \<subseteq> set (ln_completed ?t)"
    and found: "leaves_found ?t" using assms by (simp_all add: walked_def no_lineage_def leaves_found_def)
  have "open_leaves (ref_roots refs) ?t" by (rule walk_refs_open) (simp_all add: open_leaves_def no_lineage_def)
  moreover have "k \<in> set (ln_grounding ?t)" if "reached node (ref_roots refs) k False" "reality_node (node k)" for k
    using reached_completed [OF that(1) closed] found that(2) unfolding leaves_found_def by blast
  ultimately show ?thesis by (auto simp: open_leaves_def open_reality_def)
qed

lemma walk_refs_reality:
  "ln_grounding (walk_refs node rows refs no_lineage) \<noteq> [] \<Longrightarrow> ln_reality (walk_refs node rows refs no_lineage)"
  using walk_refs_open [of refs "ref_roots refs" no_lineage] by (auto simp: open_leaves_def no_lineage_def)

end

section \<open>The evidence policy over the store\<close>

lemma unknown_version_unresolved:
  "k \<notin> set (version_rows st) \<Longrightarrow> lineage_node_of env ep deps st k = LineageGap ''missing_or_corrupt_ref''"
proof -
  assume "k \<notin> set (version_rows st)"
  then have "find_row st (fst k) (snd k) = None"
    by (cases k) (force simp: version_rows_def find_row_def row_key_def find_None_iff)
  then have "\<exists>e. object_revision_record st (fst k) (snd k) = Inl e"
    by (cases "normalize_query_integer (snd k)") (auto simp: object_revision_record_def normalize_query_integer_def split: if_splits)
  then show ?thesis by (auto simp: lineage_node_of_def of_store_def)
qed

interpretation store_graph: support_graph "lineage_node_of env ep deps st" "version_rows st" for env ep deps st
  by unfold_locales (rule unknown_version_unresolved)

text \<open>Evidence is accepted exactly when its whole closure is sound and some reality is reached in the open;
  then the grounding leaves of the verdict are exactly that reality.\<close>

lemma derived_view:
  assumes "support_dependencies env ep st = Inr deps" and "derive_lineage_for_refs env ep refs st = Inr v"
  shows "v = view_lineage (walk_refs (lineage_node_of env ep deps st) (version_rows st) refs no_lineage)"
  using assms by (simp add: derive_lineage_for_refs_def derive_lineage_def)

lemma view_accepted:
  "(lv_classification (view_lineage s) \<in> {LC_REALITY, LC_MIXED} \<and> lv_unresolved_refs (view_lineage s) = []
     \<and> lv_issues (view_lineage s) = [] \<and> lv_grounding_leaf_refs (view_lineage s) \<noteq> []) \<longleftrightarrow>
   ln_issues s = [] \<and> ln_unresolved s = [] \<and> ln_reality s \<and> ln_grounding s \<noteq> []"
  by (auto simp: view_lineage_def classify_lineage_def unique_keys_def simp flip: set_empty)

lemma view_grounding: "set (lv_grounding_leaf_refs (view_lineage s)) = key_ref_of ` set (ln_grounding s)"
  by (simp add: view_lineage_def unique_keys_def)

lemma validate_verdict:
  "validate_evidence_policy env ep refs st = Inr v \<longleftrightarrow> refs \<noteq> [] \<and> derive_lineage_for_refs env ep refs st = Inr v
     \<and> lv_classification v \<in> {LC_REALITY, LC_MIXED} \<and> lv_unresolved_refs v = [] \<and> lv_issues v = []
     \<and> lv_grounding_leaf_refs v \<noteq> []"
  by (cases "derive_lineage_for_refs env ep refs st") (auto simp: validate_evidence_policy_def)

lemma derived_deps:
  "derive_lineage_for_refs env ep refs st = Inr v \<Longrightarrow> \<exists>deps. support_dependencies env ep st = Inr deps"
  by (cases "support_dependencies env ep st") (simp_all add: derive_lineage_for_refs_def derive_lineage_def)

lemma policy_verdict:
  assumes deps: "support_dependencies env ep st = Inr deps" and v: "derive_lineage_for_refs env ep refs st = Inr v"
  defines "node \<equiv> lineage_node_of env ep deps st"
  shows "validate_evidence_policy env ep refs st = Inr v \<longleftrightarrow> refs \<noteq> [] \<and> None \<notin> ref_revision ` set refs
      \<and> sound_graph node (ref_roots refs) \<and> open_reality node (ref_roots refs) \<noteq> {}"
    and "sound_graph node (ref_roots refs) \<Longrightarrow> None \<notin> ref_revision ` set refs \<Longrightarrow>
      set (lv_grounding_leaf_refs v) = key_ref_of ` open_reality node (ref_roots refs)"
proof -
  let ?t = "walk_refs node (version_rows st) refs no_lineage"
  have view: "v = view_lineage ?t" using derived_view [OF deps v] by (simp add: node_def)
  have decides: "ln_issues ?t = [] \<and> ln_unresolved ?t = [] \<longleftrightarrow>
      None \<notin> ref_revision ` set refs \<and> sound_graph node (ref_roots refs)"
    unfolding node_def store_graph.walk_refs_decides by force
  have leaves: "ln_issues ?t = [] \<Longrightarrow> set (ln_grounding ?t) = open_reality node (ref_roots refs)"
    unfolding node_def by (rule store_graph.walk_refs_grounding)
  have seen: "ln_grounding ?t \<noteq> [] \<Longrightarrow> ln_reality ?t" unfolding node_def by (rule store_graph.walk_refs_reality)
  have "validate_evidence_policy env ep refs st = Inr v \<longleftrightarrow>
      refs \<noteq> [] \<and> ln_issues ?t = [] \<and> ln_unresolved ?t = [] \<and> ln_reality ?t \<and> ln_grounding ?t \<noteq> []"
    using v unfolding validate_verdict view view_accepted by simp
  also have "\<dots> \<longleftrightarrow> refs \<noteq> [] \<and> (None \<notin> ref_revision ` set refs \<and> sound_graph node (ref_roots refs))
      \<and> open_reality node (ref_roots refs) \<noteq> {}"
    using decides leaves seen by (metis set_empty)
  finally show "validate_evidence_policy env ep refs st = Inr v \<longleftrightarrow> refs \<noteq> [] \<and> None \<notin> ref_revision ` set refs
      \<and> sound_graph node (ref_roots refs) \<and> open_reality node (ref_roots refs) \<noteq> {}" by blast
  show "set (lv_grounding_leaf_refs v) = key_ref_of ` open_reality node (ref_roots refs)"
    if "sound_graph node (ref_roots refs)" "None \<notin> ref_revision ` set refs"
    using that decides leaves unfolding view view_grounding by simp
qed

lemma evidence_verdict:
  "validate_evidence_policy env ep refs st = Inr v \<longleftrightarrow>
     refs \<noteq> [] \<and> None \<notin> ref_revision ` set refs \<and> derive_lineage_for_refs env ep refs st = Inr v \<and>
     (\<exists>deps. support_dependencies env ep st = Inr deps
        \<and> sound_graph (lineage_node_of env ep deps st) (ref_roots refs)
        \<and> open_reality (lineage_node_of env ep deps st) (ref_roots refs) \<noteq> {}
        \<and> set (lv_grounding_leaf_refs v) = key_ref_of ` open_reality (lineage_node_of env ep deps st) (ref_roots refs))"
  (is "?valid \<longleftrightarrow> ?verdict")
proof
  assume valid: ?valid
  then have v: "derive_lineage_for_refs env ep refs st = Inr v" by (simp add: validate_verdict)
  then obtain deps where deps: "support_dependencies env ep st = Inr deps" using derived_deps by blast
  from policy_verdict [OF deps v] valid v deps show ?verdict by blast
next
  assume ?verdict
  then obtain deps where "support_dependencies env ep st = Inr deps" "derive_lineage_for_refs env ep refs st = Inr v"
    and "refs \<noteq> [] \<and> None \<notin> ref_revision ` set refs \<and> sound_graph (lineage_node_of env ep deps st) (ref_roots refs)
      \<and> open_reality (lineage_node_of env ep deps st) (ref_roots refs) \<noteq> {}" by blast
  then show ?valid by (simp add: policy_verdict(1))
qed

text \<open>Nothing below an AI assertion grounds: when the references are such versions themselves, they are rejected.\<close>

lemma hidden_reality:
  assumes "\<And>k. k \<in> roots \<Longrightarrow> \<exists>ns cs. node k = LineageNode ns (Some SC_AI_COGNITION) True cs"
  shows "open_reality node roots = {}"
proof -
  have "k \<in> roots" if "reached node roots k b" "\<not> b" for k b
    using that
  proof (induction rule: reached.induct)
    case (below k b ns sc bl cs c)
    then show ?case using assms by fastforce
  qed auto
  then show ?thesis using assms
    by (fastforce simp: open_reality_def reality_node_def reality_class_def reality_source_classes_def)
qed

end
