(* ===== verification/GroundingExamples.thy ===== *)
theory GroundingExamples
  imports PolicyExamples GroundingFacts
begin

text \<open>
  The evidence policy on the policy store: the evidence set of the AI is transparent, and the
  observation below it grounds it; the policy itself is an AI assertion and hides that observation.
\<close>

definition ledger_evidence :: evidence_policy where
  "ledger_evidence = \<lparr>ep_subject_id = ''s'', ep_allowed_subject_ids = {''s''}\<rparr>"

lemma evidence_set_grounds:
  "validate_evidence_policy ledger_env ledger_evidence [oref ''evs_policy_0000'' (Some 1)] ledger1
    = Inr \<lparr>lv_classification = LC_REALITY, lv_leaf_refs = [oref ''a'' (Some 1)],
        lv_grounding_leaf_refs = [oref ''a'' (Some 1)], lv_unresolved_refs = [], lv_issues = [],
        lv_has_reality = True, lv_has_ai_cognition = False, lv_has_maintenance = False\<rparr>"
  by code_simp

lemma assertion_hides:
  "derive_lineage_for_refs ledger_env ledger_evidence [oref ''policy_0000'' (Some 1)] ledger1
    = Inr \<lparr>lv_classification = LC_MIXED, lv_leaf_refs = [oref ''a'' (Some 1), oref ''policy_0000'' (Some 1)],
        lv_grounding_leaf_refs = [], lv_unresolved_refs = [], lv_issues = [],
        lv_has_reality = True, lv_has_ai_cognition = True, lv_has_maintenance = False\<rparr>"
  by code_simp

lemma assertion_rejected:
  "validate_evidence_policy ledger_env ledger_evidence [oref ''policy_0000'' (Some 1)] ledger1
    = Inl (SvValue ''leaf-grounded evidence closure rejected'')"
  by (simp add: validate_evidence_policy_def assertion_hides)

end
