(* ===== verification/Propagation.thy ===== *)
theory Propagation
  imports Grounding
begin

text \<open>
  revision/propagation.py: what has to be marked when one version of an object is superseded. The
  plan walks the dependencies inside the private world backwards and, for every impacted version that
  is still the newest of its object, prepares the next version marked for review and a dependency on
  the superseded version. The caller commits the plan together with the change itself, and gives the
  instant of the change in UTC.
\<close>

section \<open>Payloads as dicts\<close>

text \<open>\<open>payload["subject_id"]\<close>: a tombstone has no such key.\<close>

definition payload_scope :: "payload \<Rightarrow> service_error + string" where
  "payload_scope p = (case p of PayloadObject ob \<Rightarrow> Inr (wo_subject_id ob) | _ \<Rightarrow> Inl (SvKey ''subject_id''))"

definition ref_in_scope :: "string set \<Rightarrow> 'h world_store \<Rightarrow> object_ref \<Rightarrow> service_error + bool" where
  "ref_in_scope subjects st r = result_bind (read_payload st (ref_object_id r) (ref_revision r)) (\<lambda>p.
     result_bind (payload_scope p) (\<lambda>s. Inr (s \<in> subjects)))"

text \<open>\<open>list(value or [])\<close>.\<close>

fun py_items :: "pyval \<Rightarrow> service_error + pyval list" where
  "py_items (PList xs) = Inr xs"
| "py_items (PStr s) = Inr (map (\<lambda>c. PStr [c]) s)"
| "py_items (PDict d) = Inr (map (PStr \<circ> fst) d)"
| "py_items v = (if py_truth v then Inl (SvType ''not iterable'') else Inr [])"

section \<open>The dependencies of the private world\<close>

definition scoped_edge ::
    "'h service_env \<Rightarrow> string set \<Rightarrow> 'h world_store \<Rightarrow> payload \<Rightarrow> service_error + dependency option" where
  "scoped_edge env subjects st raw = result_bind (payload_scope raw) (\<lambda>s.
     if s \<notin> subjects then Inr None
     else result_bind (validate_payload_as env dependency_of_body raw) (\<lambda>(ob, d).
       result_bind (ref_in_scope subjects st (dep_dependent_ref d)) (\<lambda>from_scope.
       if \<not> from_scope then Inr None
       else result_bind (ref_in_scope subjects st (dep_dependency_ref d)) (\<lambda>to_scope.
         Inr (if to_scope then Some d else None)))))"

definition scoped_dependencies ::
    "'h service_env \<Rightarrow> string set \<Rightarrow> 'h world_store \<Rightarrow> service_error + dependency list" where
  "scoped_dependencies env subjects st =
     result_bind (of_store (list_payloads st (Some OT_DEPENDENCY) None None None)) (\<lambda>ps.
     result_bind (result_map (scoped_edge env subjects st) ps) (\<lambda>es.
     Inr [d. Some d \<leftarrow> es]))"

section \<open>One impacted version\<close>

definition stale_marker :: "object_ref \<Rightarrow> pyval" where
  "stale_marker changed = ref_value (ref_object_id changed) (ref_revision changed)"

definition stale_metadata ::
    "'h service_env \<Rightarrow> object_ref \<Rightarrow> instant \<Rightarrow> string \<Rightarrow> pydict \<Rightarrow> service_error + pydict" where
  "stale_metadata env changed t reason md =
     result_bind (py_items (dict_get md ''stale_due_to_refs'')) (\<lambda>markers.
     Inr (dict_update md
       [(''stale_due_to_refs'', PList (if list_ex (py_eq (stale_marker changed)) markers then markers
                                       else markers @ [stale_marker changed])),
        (''stale_reason'', PStr reason), (''stale_at'', iso env t)]))"

definition stale_body :: "object_body \<Rightarrow> int \<Rightarrow> instant \<Rightarrow> string \<Rightarrow> object_body" where
  "stale_body b old t reason = (case b of
     EvidenceSet e \<Rightarrow> EvidenceSet (e\<lparr>evs_stale := True\<rparr>)
   | Summary s \<Rightarrow> Summary (s\<lparr>sum_summary_status := SS_STALE\<rparr>)
   | CognitivePolicy c \<Rightarrow> CognitivePolicy (c\<lparr>cgp_version := old + 1, cgp_previous_version := Some old,
       cgp_rollback_pointer := Some old, cgp_changed_at := utc_datetime t,
       cgp_changed_by := ''dependency_propagation'', cgp_reason := reason\<rparr>)
   | _ \<Rightarrow> b)"

definition stale_object ::
    "'h service_env \<Rightarrow> object_ref \<Rightarrow> instant \<Rightarrow> string \<Rightarrow> world_object \<Rightarrow> service_error + world_object" where
  "stale_object env changed t reason ob =
     result_bind (stale_metadata env changed t reason (wo_metadata ob)) (\<lambda>md.
     validated env (ob\<lparr>wo_revision := wo_revision ob + 1, wo_learned_at := utc_datetime t,
       wo_recorded_at := utc_datetime t, wo_status := ''stale_review_required'', wo_metadata := md,
       wo_body := stale_body (wo_body ob) (wo_revision ob) t reason\<rparr>))"

definition stale_dependency ::
    "'h service_env \<Rightarrow> object_ref \<Rightarrow> instant \<Rightarrow> world_object \<Rightarrow> service_error + world_object" where
  "stale_dependency env changed t ob =
     result_bind (stable_id env ''dep_stale'' [PStr (wo_object_id ob), PInt (wo_revision ob),
       PStr (ref_object_id changed), opt_int (ref_revision changed)]) (\<lambda>i.
     validated env (moment_object i (wo_subject_id ob) 1 unknown_time t [] ''cognition_revision:propagation'' []
       (Dependency \<lparr>dep_dependent_ref = oref (wo_object_id ob) (Some (wo_revision ob)),
          dep_dependency_ref = changed, dep_dependency_type = ''stale_due_to_superseded_cognition''\<rparr>)))"

datatype propagated = Skipped version_key | Marked version_key world_object world_object

definition propagate ::
    "'h service_env \<Rightarrow> object_ref \<Rightarrow> instant \<Rightarrow> string \<Rightarrow> string set \<Rightarrow> 'h world_store \<Rightarrow> object_ref
      \<Rightarrow> service_error + propagated" where
  "propagate env changed t reason subjects st r =
     result_bind (read_payload st (ref_object_id r) None) (\<lambda>latest. case latest of
       PayloadObject ob \<Rightarrow>
         let k = (ref_object_id r, the (ref_revision r)) in
         if Some (wo_revision ob) \<noteq> ref_revision r \<or> wo_subject_id ob \<notin> subjects then Inr (Skipped k)
         else result_bind (stale_object env changed t reason ob) (\<lambda>stale.
              result_bind (stale_dependency env changed t stale) (\<lambda>d. Inr (Marked k stale d)))
     | _ \<Rightarrow> Inl (SvKey ''revision''))"

section \<open>The plan\<close>

record invalidation_plan =
  iv_objects :: "world_object list"
  iv_stale_refs :: "version_key list"
  iv_skipped_refs :: "version_key list"

fun marked_objects :: "propagated \<Rightarrow> world_object list" where
  "marked_objects (Marked k stale d) = [stale, d]"
| "marked_objects (Skipped k) = []"

fun marked_keys :: "propagated \<Rightarrow> version_key list" where
  "marked_keys (Marked k stale d) = [k]"
| "marked_keys (Skipped k) = []"

fun skipped_keys :: "propagated \<Rightarrow> version_key list" where
  "skipped_keys (Marked k stale d) = []"
| "skipped_keys (Skipped k) = [k]"

definition plan_of :: "propagated list \<Rightarrow> invalidation_plan" where
  "plan_of ps = \<lparr>iv_objects = concat (map marked_objects ps), iv_stale_refs = concat (map marked_keys ps),
     iv_skipped_refs = concat (map skipped_keys ps)\<rparr>"

definition impacted_refs :: "dependency list \<Rightarrow> object_ref \<Rightarrow> service_error + object_ref list" where
  "impacted_refs deps changed = (case collect_impacted_dependents deps changed True of
     None \<Rightarrow> Inl (SvStore DoesNotReturn)
   | Some (Inl e) \<Rightarrow> Inl (SvValue ''dependency graph requires pinned ObjectRef revisions'')
   | Some (Inr rs) \<Rightarrow> Inr rs)"

definition plan_invalidation ::
    "'h service_env \<Rightarrow> object_ref \<Rightarrow> instant \<Rightarrow> string \<Rightarrow> string set \<Rightarrow> 'h world_store
      \<Rightarrow> service_error + invalidation_plan" where
  "plan_invalidation env changed t reason subjects st =
     (if ref_revision changed = None
      then Inl (SvValue ''invalidation root must be pinned within the private-world scope'')
      else result_bind (ref_in_scope subjects st changed) (\<lambda>in_scope.
        if \<not> in_scope then Inl (SvValue ''invalidation root must be pinned within the private-world scope'')
        else result_bind (scoped_dependencies env subjects st) (\<lambda>deps.
             result_bind (impacted_refs deps changed) (\<lambda>rs.
             result_bind (result_map (propagate env changed t reason subjects st) rs) (\<lambda>ps.
             Inr (plan_of ps))))))"

end
