(* ===== verification/Revisions.thy ===== *)
theory Revisions
  imports Propagation
begin

text \<open>
  revision/service.py: revising and retracting a claim. The next revision of the claim, the evidence
  sets it rests on, their dependencies and the invalidation of everything that depends on the old
  revision are one commit; a repeated request is answered from that commit.
\<close>

section \<open>Requests\<close>

datatype revision_mode = Revise | Retract

fun mode_text :: "revision_mode \<Rightarrow> string" where
  "mode_text Revise = ''revise''"
| "mode_text Retract = ''retract''"

record claim_revision_request =
  crq_target_ref :: object_ref
  crq_mode :: revision_mode
  crq_reason :: string
  crq_evidence_refs :: "object_ref list"
  crq_replacement_content :: "string option"
  crq_confidence :: "rat option"
  crq_valid_time :: "temporal_extent option"
  crq_unknown_items :: "string list option"
  crq_counter_evidence_refs :: "object_ref list"

definition opt_blank :: "string option \<Rightarrow> bool" where
  "opt_blank s \<longleftrightarrow> (case s of None \<Rightarrow> True | Some t \<Rightarrow> blank t)"

definition claim_revision_guards :: "(string \<Rightarrow> bool) \<Rightarrow> claim_revision_request \<Rightarrow> guard list" where
  "claim_revision_guards zones q =
     [refs_field ''target_ref'' [crq_target_ref q], nonempty_field ''reason'' (crq_reason q),
      (crq_evidence_refs q = [], FieldConstraint ''evidence_refs''), refs_field ''evidence_refs'' (crq_evidence_refs q),
      (case crq_confidence q of None \<Rightarrow> False | Some c \<Rightarrow> c < 0 \<or> 1 < c, FieldConstraint ''confidence'')]
     @ (case crq_valid_time q of None \<Rightarrow> [] | Some x \<Rightarrow> validate_extent zones x)
     @ [refs_field ''counter_evidence_refs'' (crq_counter_evidence_refs q),
        pin ''target_ref'' (crq_target_ref q), (blank (crq_reason q), BlankText ''reason''),
        pin_all ''evidence_refs'' (crq_evidence_refs q), pin_all ''counter_evidence_refs'' (crq_counter_evidence_refs q),
        (crq_mode q = Revise \<and> opt_blank (crq_replacement_content q), Violation ''revise requires replacement_content''),
        (case crq_unknown_items q of None \<Rightarrow> False | Some us \<Rightarrow> list_ex blank us, BlankText ''unknown_items'')]
     @ (if crq_mode q = Retract then
          [(crq_valid_time q \<noteq> None, Violation ''retract must not carry valid_time''),
           (crq_unknown_items q \<noteq> None, Violation ''retract must not carry unknown_items''),
           (crq_counter_evidence_refs q \<noteq> [], Violation ''retract must not carry counter_evidence_refs''),
           (\<not> opt_blank (crq_replacement_content q), Violation ''retract must not carry replacement_content'')]
        else [])"

definition construct_revision_request ::
    "(string \<Rightarrow> bool) \<Rightarrow> claim_revision_request \<Rightarrow> service_error + claim_revision_request" where
  "construct_revision_request zones q = (case first_raise (claim_revision_guards zones q) of
     None \<Rightarrow> Inr q | Some e \<Rightarrow> Inl (SvInvalid e))"

record claim_revision_receipt =
  crr_claim_id :: string
  crr_previous_revision :: int
  crr_new_revision :: int
  crr_mode :: revision_mode
  crr_evidence_set_id :: string
  crr_stale_refs :: "version_key list"
  crr_skipped_refs :: "version_key list"
  crr_world_revision :: int

text \<open>The service; \<open>rvs_extent_value\<close> is pydantic's JSON form of an extent.\<close>

record revision_service =
  rvs_subject_id :: string
  rvs_evidence_subject_ids :: "string set"
  rvs_evidence_policy :: evidence_policy
  rvs_extent_value :: "temporal_extent \<Rightarrow> pyval"

definition construct_revision_service ::
    "string \<Rightarrow> string list \<Rightarrow> evidence_policy option \<Rightarrow> (temporal_extent \<Rightarrow> pyval) \<Rightarrow> service_error + revision_service" where
  "construct_revision_service subject evidence_subjects policy extent_value =
     (let allowed = filter (\<lambda>s. s \<noteq> []) (map py_strip (if evidence_subjects = [] then [subject] else evidence_subjects)) in
      if allowed = [] then Inl (SvValue ''evidence_subject_ids must contain at least one subject'')
      else result_bind (case policy of Some p \<Rightarrow> Inr p | None \<Rightarrow> construct_evidence_policy subject allowed) (\<lambda>p.
        Inr \<lparr>rvs_subject_id = subject, rvs_evidence_subject_ids = set allowed, rvs_evidence_policy = p,
          rvs_extent_value = extent_value\<rparr>))"

section \<open>The operation\<close>

definition target_revision :: "claim_revision_request \<Rightarrow> int" where
  "target_revision q = (case ref_revision (crq_target_ref q) of Some v \<Rightarrow> v | None \<Rightarrow> 0)"

abbreviation target_id :: "claim_revision_request \<Rightarrow> string" where
  "target_id q \<equiv> ref_object_id (crq_target_ref q)"

definition opt_value :: "('a \<Rightarrow> pyval) \<Rightarrow> 'a option \<Rightarrow> pyval" where
  "opt_value f v = (case v of None \<Rightarrow> PNone | Some x \<Rightarrow> f x)"

definition revision_value :: "revision_service \<Rightarrow> claim_revision_request \<Rightarrow> pyval" where
  "revision_value sv q = PDict
     [(''confidence'', opt_value PFloat (crq_confidence q)),
      (''counter_evidence_refs'', refs_value (crq_counter_evidence_refs q)),
      (''evidence_refs'', refs_value (crq_evidence_refs q)), (''mode'', PStr (mode_text (crq_mode q))),
      (''reason'', PStr (crq_reason q)), (''replacement_content'', opt_value PStr (crq_replacement_content q)),
      (''target_ref'', stale_marker (crq_target_ref q)),
      (''unknown_items'', opt_value (\<lambda>us. PList (map PStr us)) (crq_unknown_items q)),
      (''valid_time'', opt_value (rvs_extent_value sv) (crq_valid_time q))]"

definition revision_name :: "claim_revision_request \<Rightarrow> string" where
  "revision_name q = ''cognition.'' @ mode_text (crq_mode q) @ ''_claim''"

definition pinned_parts :: "object_ref list \<Rightarrow> pyval" where
  "pinned_parts refs = PList (map (\<lambda>r. PList [PStr (ref_object_id r), opt_int (ref_revision r)]) refs)"

definition revision_key_of :: "'h service_env \<Rightarrow> claim_revision_request \<Rightarrow> instant \<Rightarrow> service_error + string" where
  "revision_key_of env q t = stable_id env ''revision''
     [PStr (target_id q), PInt (target_revision q), PStr (mode_text (crq_mode q)), iso env t]"

definition revision_evidence_id :: "'h service_env \<Rightarrow> claim_revision_request \<Rightarrow> instant \<Rightarrow> service_error + string" where
  "revision_evidence_id env q t = stable_id env ''evs_revision''
     [PStr (target_id q), PInt (target_revision q), PStr (mode_text (crq_mode q)), pinned_parts (crq_evidence_refs q), iso env t]"

definition revision_operation ::
    "claim_revision_request \<Rightarrow> string \<Rightarrow> string \<Rightarrow> int \<Rightarrow> operation_request" where
  "revision_operation q key identity expected = \<lparr>
     op_operation_id = ''op_'' @ key, op_session_id = None, op_operation_name = revision_name q,
     op_arguments = [(''canonical_request_sha256'', PStr identity), (''mode'', PStr (mode_text (crq_mode q))),
       (''reason'', PStr (crq_reason q)), (''target'', ref_value (target_id q) (Some (target_revision q)))],
     op_expected_world_revision = expected,
     op_reason = ''forward-only Claim '' @ mode_text (crq_mode q) @ '' with dependency propagation'',
     op_idempotency_key = ''cognition-revision:'' @ key, op_source_class = SC_AI_COGNITION, op_maintenance_class = None\<rparr>"

text \<open>What is read before the replay: the instant, the world revision, the pinned payload and the operation.\<close>

definition revision_inputs ::
    "'h service_env \<Rightarrow> revision_service \<Rightarrow> claim_revision_request \<Rightarrow> datetime \<Rightarrow> 'h world_store
      \<Rightarrow> service_error + instant \<times> int \<times> payload \<times> operation_request" where
  "revision_inputs env sv q changed_at st =
     result_bind (of_contract (as_utc changed_at ''changed_at'')) (\<lambda>t.
     result_bind (world_revision_now st) (\<lambda>w.
     result_bind (read_payload st (target_id q) (ref_revision (crq_target_ref q))) (\<lambda>old.
     if (case old of PayloadObject ob \<Rightarrow> wo_object_type ob \<noteq> OT_CLAIM | _ \<Rightarrow> True)
     then Inl (SvValue ''target_ref must point to a Claim'')
     else result_bind (revision_key_of env q t) (\<lambda>key.
       result_bind (canonical_request_identity env [PStr (revision_name q), revision_value sv q, iso env t]) (\<lambda>identity.
       result_bind (of_contract (normalize_operation (revision_operation q key identity w))) (\<lambda>op.
       Inr (t, w, old, op)))))))"

section \<open>Answering a replay\<close>

text \<open>The versions a replayed commit marked: those whose stored metadata names the target.\<close>

definition replayed_stale ::
    "claim_revision_request \<Rightarrow> 'h world_store \<Rightarrow> string \<times> int \<Rightarrow> service_error + version_key list" where
  "replayed_stale q st x =
     (if fst x = target_id q \<or> snd x < 2 then Inr []
      else case get_payload st (fst x) (Some (snd x)) None None of
        Inl e \<Rightarrow> Inr []
      | Inr p \<Rightarrow> result_bind (py_items (case p of
            PayloadObject ob \<Rightarrow> dict_get (wo_metadata ob) ''stale_due_to_refs'' | _ \<Rightarrow> PNone)) (\<lambda>markers.
          Inr (if list_ex (py_eq (stale_marker (crq_target_ref q))) markers then [(fst x, snd x - 1)] else [])))"

definition replayed_receipt ::
    "'h service_env \<Rightarrow> claim_revision_request \<Rightarrow> instant \<Rightarrow> commit_result \<Rightarrow> 'h world_store
      \<Rightarrow> service_error + claim_revision_receipt" where
  "replayed_receipt env q t r st =
     result_bind (result_map (replayed_stale q st) (cr_object_refs r)) (\<lambda>stale.
     result_bind (revision_evidence_id env q t) (\<lambda>evidence_id.
     Inr \<lparr>crr_claim_id = target_id q, crr_previous_revision = target_revision q,
       crr_new_revision = target_revision q + 1, crr_mode = crq_mode q, crr_evidence_set_id = evidence_id,
       crr_stale_refs = concat stale, crr_skipped_refs = [], crr_world_revision = cr_world_revision r\<rparr>))"

section \<open>The plan of a revision\<close>

definition claim_of_body :: "object_body \<Rightarrow> claim option" where
  "claim_of_body b = (case b of Claim c \<Rightarrow> Some c | _ \<Rightarrow> None)"

type_synonym stored_claim = "world_object \<times> claim"

text \<open>The guards on the target: current, of the subject, and not retracted.\<close>

definition check_revision_target ::
    "'h service_env \<Rightarrow> revision_service \<Rightarrow> claim_revision_request \<Rightarrow> payload \<Rightarrow> 'h world_store
      \<Rightarrow> service_error + stored_claim" where
  "check_revision_target env sv q old st =
     result_bind (read_payload st (target_id q) None) (\<lambda>latest. case latest of
       PayloadObject ob \<Rightarrow>
         if wo_revision ob \<noteq> target_revision q
         then Inl (SvValue ''only the current Claim revision may be revised/retracted'')
         else result_bind (validate_payload_as env claim_of_body old) (\<lambda>x.
           if wo_subject_id (fst x) \<noteq> rvs_subject_id sv
           then Inl (SvValue ''revision target crosses the runtime subject scope'')
           else if wo_status (fst x) = ''retracted'' then Inl (SvValue ''Claim is already retracted'')
           else Inr x)
     | _ \<Rightarrow> Inl (SvKey ''revision''))"

definition check_evidence_scope ::
    "revision_service \<Rightarrow> string \<Rightarrow> 'h world_store \<Rightarrow> object_ref list \<Rightarrow> service_error + unit" where
  "check_evidence_scope sv what st refs = result_bind (result_map (\<lambda>r.
     result_bind (read_payload st (ref_object_id r) (ref_revision r)) (\<lambda>p.
     if payload_subject p \<notin> rvs_evidence_subject_ids sv
     then Inl (SvValue (what @ '' crosses the allowed subject scope'')) else Inr ())) refs) (\<lambda>us. Inr ())"

definition check_revision_evidence ::
    "'h service_env \<Rightarrow> revision_service \<Rightarrow> claim_revision_request \<Rightarrow> 'h world_store \<Rightarrow> service_error + unit" where
  "check_revision_evidence env sv q st =
     result_bind (check_evidence_scope sv ''revision evidence'' st (crq_evidence_refs q)) (\<lambda>_.
     result_bind (check_evidence_scope sv ''revision counter evidence'' st (crq_counter_evidence_refs q)) (\<lambda>_.
     result_bind (validate_evidence_policy env (rvs_evidence_policy sv) (crq_evidence_refs q) st) (\<lambda>_.
     if crq_counter_evidence_refs q = [] then Inr ()
     else result_bind (validate_evidence_policy env (rvs_evidence_policy sv) (crq_counter_evidence_refs q) st) (\<lambda>_.
       Inr ()))))"

text \<open>An evidence set of the revision.\<close>

definition revision_evidence_set ::
    "'h service_env \<Rightarrow> claim_revision_request \<Rightarrow> stored_claim \<Rightarrow> instant \<Rightarrow> int \<Rightarrow> string \<Rightarrow> string \<Rightarrow> string \<Rightarrow> string
      \<Rightarrow> object_ref list \<Rightarrow> object_ref list \<Rightarrow> object_ref list \<Rightarrow> service_error + world_object" where
  "revision_evidence_set env q x t w i created_by purpose selection members support counter =
     validated env (moment_object i (wo_subject_id (fst x)) 1 unknown_time t [] created_by
       [(''dimension'', dict_get (wo_metadata (fst x)) ''dimension''), (''revision_mode'', PStr (mode_text (crq_mode q))),
        (''target_ref'', ref_value (target_id q) (Some (target_revision q)))]
       (EvidenceSet \<lparr>evs_purpose = purpose,
          evs_knowledge_window = \<lparr>kw_knowledge_cutoff = utc_datetime t, kw_world_revision = Some w\<rparr>,
          evs_member_refs = members, evs_support_refs = support, evs_counter_refs = counter, evs_context_refs = [],
          evs_selector = None, evs_selection_method = selection, evs_aggregation_method = None,
          evs_aggregation_version = None,
          evs_coverage = \<lparr>cov_expected_count = Some (int (length members)), cov_observed_count = Some (int (length members)),
            cov_coverage_ratio = Some 1, cov_missing_description = []\<rparr>, evs_stale = False\<rparr>))"

definition target_text :: "claim_revision_request \<Rightarrow> string" where
  "target_text q = target_id q @ ''@'' @ int_decimal (target_revision q)"

definition support_evidence_set ::
    "'h service_env \<Rightarrow> claim_revision_request \<Rightarrow> stored_claim \<Rightarrow> instant \<Rightarrow> int \<Rightarrow> service_error + world_object" where
  "support_evidence_set env q x t w = result_bind (revision_evidence_id env q t) (\<lambda>i.
     revision_evidence_set env q x t w i ''cognition_revision:evidence''
       (mode_text (crq_mode q) @ '' Claim '' @ target_text q) ''resident_model_selected_revision_evidence''
       (crq_evidence_refs q) (if crq_mode q = Revise then crq_evidence_refs q else [])
       (if crq_mode q = Retract then crq_evidence_refs q else []))"

definition counter_evidence_set ::
    "'h service_env \<Rightarrow> claim_revision_request \<Rightarrow> stored_claim \<Rightarrow> instant \<Rightarrow> int \<Rightarrow> service_error + world_object option" where
  "counter_evidence_set env q x t w =
     (if crq_counter_evidence_refs q = [] then Inr None
      else result_bind (stable_id env ''evs_revision_counter'' [PStr (target_id q), PInt (target_revision q),
          PInt (wo_revision (fst x) + 1), pinned_parts (crq_counter_evidence_refs q), iso env t]) (\<lambda>i.
        result_bind (revision_evidence_set env q x t w i ''cognition_revision:counter_evidence''
          (''counter evidence for revised Claim '' @ target_text q) ''resident_model_selected_revision_counter_evidence''
          (crq_counter_evidence_refs q) [] (crq_counter_evidence_refs q)) (\<lambda>ob. Inr (Some ob))))"

definition evidence_set_ref :: "world_object \<Rightarrow> object_ref" where
  "evidence_set_ref ob = oref (wo_object_id ob) (Some 1)"

text \<open>The next version of the claim.\<close>

definition revised_claim ::
    "claim_revision_request \<Rightarrow> claim \<Rightarrow> instant \<Rightarrow> object_ref \<Rightarrow> object_ref list \<Rightarrow> claim" where
  "revised_claim q c t evidence counter = (case crq_mode q of
     Revise \<Rightarrow> c\<lparr>clm_content := py_strip (case crq_replacement_content q of Some s \<Rightarrow> s | None \<Rightarrow> []),
       clm_confidence := (case crq_confidence q of None \<Rightarrow> clm_confidence c | Some r \<Rightarrow> r),
       clm_valid_time := (case crq_valid_time q of None \<Rightarrow> clm_valid_time c | Some v \<Rightarrow> v),
       clm_unknown_items := (case crq_unknown_items q of None \<Rightarrow> clm_unknown_items c | Some us \<Rightarrow> us),
       clm_support_evidence_set_refs := [evidence],
       clm_counter_evidence_set_refs := clm_counter_evidence_set_refs c @ counter, clm_asserted_at := utc_datetime t\<rparr>
   | Retract \<Rightarrow> c\<lparr>clm_knowledge_state := KS_CONFLICT,
       clm_confidence := (case crq_confidence q of None \<Rightarrow> 0 | Some r \<Rightarrow> r),
       clm_counter_evidence_set_refs := clm_counter_evidence_set_refs c @ [evidence], clm_asserted_at := utc_datetime t\<rparr>)"

definition revised_claim_object ::
    "'h service_env \<Rightarrow> claim_revision_request \<Rightarrow> stored_claim \<Rightarrow> instant \<Rightarrow> object_ref \<Rightarrow> object_ref list
      \<Rightarrow> service_error + world_object" where
  "revised_claim_object env q x t evidence counter =
     validated env ((fst x)\<lparr>wo_revision := wo_revision (fst x) + 1, wo_learned_at := utc_datetime t,
       wo_recorded_at := utc_datetime t, wo_status := (case crq_mode q of Revise \<Rightarrow> ''active'' | Retract \<Rightarrow> ''retracted''),
       wo_metadata := dict_update (wo_metadata (fst x))
         [(''revision_mode'', PStr (mode_text (crq_mode q))), (''revision_reason'', PStr (py_strip (crq_reason q))),
          (''supersedes_revision'', PInt (wo_revision (fst x))),
          (''revision_evidence_set_ref'', ref_value (ref_object_id evidence) (Some 1))],
       wo_body := Claim (revised_claim q (snd x) t evidence counter)\<rparr>)"

definition revision_dependency ::
    "'h service_env \<Rightarrow> string \<Rightarrow> instant \<Rightarrow> string \<Rightarrow> object_ref \<Rightarrow> object_ref \<Rightarrow> service_error + world_object" where
  "revision_dependency env subject t kind from_ref to_ref =
     result_bind (stable_id env ''dep'' [PStr (ref_object_id from_ref), opt_int (ref_revision from_ref),
       PStr (ref_object_id to_ref), opt_int (ref_revision to_ref)]) (\<lambda>i.
     validated env (moment_object i subject 1 unknown_time t [] ''cognition_revision:dependency'' []
       (Dependency \<lparr>dep_dependent_ref = from_ref, dep_dependency_ref = to_ref, dep_dependency_type = kind\<rparr>)))"

definition revision_dependencies ::
    "'h service_env \<Rightarrow> claim_revision_request \<Rightarrow> stored_claim \<Rightarrow> instant \<Rightarrow> object_ref \<Rightarrow> object_ref option
      \<Rightarrow> service_error + world_object list" where
  "revision_dependencies env q x t evidence counter =
     (let claim_ref = oref (target_id q) (Some (wo_revision (fst x) + 1)); subject = wo_subject_id (fst x);
          sources = (\<lambda>ev. result_map (revision_dependency env subject t ''revision_evidence_set_contains_source'' ev)) in
      result_bind (revision_dependency env subject t (''claim_'' @ mode_text (crq_mode q) @ ''_uses_evidence_set'')
        claim_ref evidence) (\<lambda>d.
      result_bind (case counter of None \<Rightarrow> Inr [] | Some ev \<Rightarrow>
        result_bind (revision_dependency env subject t ''claim_uses_evidence_set'' claim_ref ev) (\<lambda>e.
        result_bind (sources ev (crq_counter_evidence_refs q)) (\<lambda>es. Inr (e # es)))) (\<lambda>counters.
      result_bind (sources evidence (crq_evidence_refs q)) (\<lambda>ds. Inr (d # counters @ ds)))))"

definition invalidation_reason :: "claim_revision_request \<Rightarrow> string" where
  "invalidation_reason q =
     ''upstream Claim '' @ target_text q @ '' was '' @ mode_text (crq_mode q) @ ''d: '' @ py_strip (crq_reason q)"

record planned_revision =
  prv_objects :: "world_object list"
  prv_claim :: world_object
  prv_evidence_id :: string
  prv_invalidation :: invalidation_plan

definition plan_revision ::
    "'h service_env \<Rightarrow> revision_service \<Rightarrow> claim_revision_request \<Rightarrow> instant \<Rightarrow> int \<Rightarrow> payload \<Rightarrow> 'h world_store
      \<Rightarrow> service_error + planned_revision" where
  "plan_revision env sv q t w old st =
     result_bind (check_revision_target env sv q old st) (\<lambda>x.
     result_bind (check_revision_evidence env sv q st) (\<lambda>_.
     result_bind (support_evidence_set env q x t w) (\<lambda>ev.
     result_bind (counter_evidence_set env q x t w) (\<lambda>cev.
     result_bind (revised_claim_object env q x t (evidence_set_ref ev)
       (case cev of None \<Rightarrow> [] | Some c \<Rightarrow> [evidence_set_ref c])) (\<lambda>new.
     result_bind (revision_dependencies env q x t (evidence_set_ref ev) (map_option evidence_set_ref cev)) (\<lambda>deps.
     result_bind (plan_invalidation env (crq_target_ref q) t
       (invalidation_reason q)
       (insert (rvs_subject_id sv) (rvs_evidence_subject_ids sv)) st) (\<lambda>inv.
     Inr \<lparr>prv_objects = ev # (case cev of None \<Rightarrow> [] | Some c \<Rightarrow> [c]) @ new # deps @ iv_objects inv,
       prv_claim = new, prv_evidence_id = wo_object_id ev, prv_invalidation = inv\<rparr>)))))))"

section \<open>Applying a revision\<close>

definition revision_receipt ::
    "claim_revision_request \<Rightarrow> planned_revision \<Rightarrow> commit_result \<Rightarrow> claim_revision_receipt" where
  "revision_receipt q p r = \<lparr>crr_claim_id = target_id q, crr_previous_revision = target_revision q,
     crr_new_revision = wo_revision (prv_claim p), crr_mode = crq_mode q, crr_evidence_set_id = prv_evidence_id p,
     crr_stale_refs = iv_stale_refs (prv_invalidation p), crr_skipped_refs = iv_skipped_refs (prv_invalidation p),
     crr_world_revision = cr_world_revision r\<rparr>"

definition apply_revision ::
    "'h service_env \<Rightarrow> call_context \<Rightarrow> revision_service \<Rightarrow> claim_revision_request \<Rightarrow> datetime \<Rightarrow> 'h world_store
      \<Rightarrow> (service_error + claim_revision_receipt) \<times> 'h world_store" where
  "apply_revision env ck sv q changed_at st = (case revision_inputs env sv q changed_at st of
     Inl e \<Rightarrow> (Inl e, st)
   | Inr (t, w, old, op) \<Rightarrow>
      (case replay_exact_operation (sv_zones env) (sv_digest env) (ck_now ck) op st of
         (Inl e, st1) \<Rightarrow> (Inl (SvStore e), st1)
       | (Inr (Some r), st1) \<Rightarrow> (replayed_receipt env q t r st1, st1)
       | (Inr None, st1) \<Rightarrow> (case plan_revision env sv q t w old st1 of
            Inl e \<Rightarrow> (Inl e, st1)
          | Inr p \<Rightarrow> (case commit (sv_zones env) (sv_digest env) (ck_now ck) (prv_objects p) op st1 of
               (Inl e, st2) \<Rightarrow> (Inl (SvStore e), st2)
             | (Inr r, st2) \<Rightarrow> (Inr (revision_receipt q p r), st2)))))"

end
