(* ===== verification/PropagationFacts.thy ===== *)
theory PropagationFacts
  imports Propagation PolicyReplay WakeRetry
begin

text \<open>
  What an invalidation plan covers: exactly the versions that reach the superseded one along the
  dependencies of the private world; those that are still current are marked in their next version,
  the others are skipped. And what committing the marks does to the store.
\<close>

section \<open>The specification\<close>

definition current_version :: "string set \<Rightarrow> 'h world_store \<Rightarrow> version_key \<Rightarrow> bool" where
  "current_version subjects st k \<longleftrightarrow> (\<exists>ob. newest_object st (fst k) = Some ob \<and> wo_revision ob = snd k
     \<and> wo_subject_id ob \<in> subjects)"

definition impacted :: "dependency list \<Rightarrow> version_key \<Rightarrow> version_key set" where
  "impacted deps k = {x. (x, k) \<in> (dep_edges deps)\<^sup>+} - {k}"

definition review_marker :: "object_ref \<Rightarrow> world_object \<Rightarrow> bool" where
  "review_marker changed ob \<longleftrightarrow> wo_status ob = ''stale_review_required''
     \<and> (\<exists>ms. dict_get (wo_metadata ob) ''stale_due_to_refs'' = PList ms \<and> list_ex (py_eq (stale_marker changed)) ms)"

section \<open>One version\<close>

lemma marker_self [simp]: "py_eq (stale_marker changed) (stale_marker changed)"
  by (simp add: stale_marker_def ref_value_def split: option.splits)

lemma stale_object_Inr:
  assumes "stale_object env changed t reason ob = Inr ob'"
  shows "wo_object_id ob' = wo_object_id ob" "wo_revision ob' = wo_revision ob + 1" "wo_subject_id ob' = wo_subject_id ob"
    "wo_object_type ob' = wo_object_type ob" "valid_object (sv_zones env) ob'" "review_marker changed ob'"
proof -
  obtain md where md: "stale_metadata env changed t reason (wo_metadata ob) = Inr md" and ob': "valid_object (sv_zones env) ob'"
    "ob' = ob\<lparr>wo_revision := wo_revision ob + 1, wo_learned_at := utc_datetime t, wo_recorded_at := utc_datetime t,
       wo_status := ''stale_review_required'', wo_metadata := md, wo_body := stale_body (wo_body ob) (wo_revision ob) t reason\<rparr>"
    using assms by (auto simp: stale_object_def validated_Inr)
  show "wo_object_id ob' = wo_object_id ob" "wo_revision ob' = wo_revision ob + 1" "wo_subject_id ob' = wo_subject_id ob"
    using ob'(2) by simp_all
  show "wo_object_type ob' = wo_object_type ob" using ob'(2)
    by (cases "wo_body ob") (simp_all add: wo_object_type_def stale_body_def)
  show "valid_object (sv_zones env) ob'" using ob'(1) .
  obtain ms where "md = dict_update (wo_metadata ob) [(''stale_due_to_refs'',
      PList (if list_ex (py_eq (stale_marker changed)) ms then ms else ms @ [stale_marker changed])),
      (''stale_reason'', PStr reason), (''stale_at'', iso env t)]" using md by (auto simp: stale_metadata_def)
  then show "review_marker changed ob'" using ob'(2) by (auto simp: review_marker_def dict_update_def dict_get_put)
qed

lemma propagate_Inr:
  assumes "propagate env changed t reason subjects st (key_ref k) = Inr p"
  shows "current_version subjects st k \<and> (\<exists>ob stale d. p = Marked k stale d \<and> newest_object st (fst k) = Some ob
      \<and> wo_revision ob = snd k \<and> stale_object env changed t reason ob = Inr stale
      \<and> stale_dependency env changed t stale = Inr d)
    \<or> \<not> current_version subjects st k \<and> p = Skipped k"
proof -
  obtain ob where read: "read_payload st (fst k) None = Inr (PayloadObject ob)"
    using assms by (cases "read_payload st (fst k) None")
      (auto simp: propagate_def key_ref_def split: payload.splits)
  from read_newest [OF read] have newest: "newest_object st (fst k) = Some ob" .
  show ?thesis
  proof (cases "wo_revision ob = snd k \<and> wo_subject_id ob \<in> subjects")
    case True
    then have "current_version subjects st k" using newest by (auto simp: current_version_def)
    moreover obtain stale d where "stale_object env changed t reason ob = Inr stale"
      "stale_dependency env changed t stale = Inr d" "p = Marked k stale d"
      using assms read True by (auto simp: propagate_def key_ref_def)
    ultimately show ?thesis using newest True by blast
  next
    case False
    then have "\<not> current_version subjects st k" using newest by (auto simp: current_version_def)
    moreover have "p = Skipped k" using assms read False by (auto simp: propagate_def key_ref_def)
    ultimately show ?thesis by blast
  qed
qed

section \<open>The whole plan\<close>

lemma scoped_pinned:
  assumes "scoped_dependencies env subjects st = Inr deps"
  shows "all_pinned deps"
proof -
  obtain ps es where es: "result_map (scoped_edge env subjects st) ps = Inr es" and deps: "deps = [d. Some d \<leftarrow> es]"
    using assms by (auto simp: scoped_dependencies_def)
  have "\<not> unpinned (dep_dependent_ref d) \<and> \<not> unpinned (dep_dependency_ref d)" if "d \<in> set deps" for d
  proof -
    have "Some d \<in> set es" using that deps by (auto split: option.splits)
    with es obtain raw where "scoped_edge env subjects st raw = Inr (Some d)" by (blast dest: result_map_mem)
    then obtain ob where "valid_object (sv_zones env) ob" "wo_body ob = Dependency d"
      by (auto simp: scoped_edge_def validate_payload_as_Inr dependency_of_body_def
          split: if_splits prod.splits object_body.splits)
    from valid_dependency(1,2) [OF this] show ?thesis by (auto simp: unpinned_def)
  qed
  then show ?thesis by (simp add: all_pinned_def)
qed

lemma impacted_refs_exact:
  assumes "all_pinned deps" and "ref_key changed = Inr k"
  shows "\<exists>ks. impacted_refs deps changed = Inr (map key_ref ks) \<and> distinct ks \<and> set ks = impacted deps k"
proof -
  obtain es where "edge_keys deps = Inr es" using edge_keys_pinned [OF assms(1)] by blast
  from collect_impacted_result [OF assms(2) this] obtain rs where
    rs: "collect_impacted_dependents deps changed True = Some (Inr rs)" "distinct rs" "set rs = key_ref ` impacted deps k"
    by (auto simp: impacted_def)
  define ks where "ks = map (inv_into UNIV key_ref) rs"
  have "key_ref (inv key_ref r) = r" if "r \<in> set rs" for r using that rs(3) by (auto intro!: f_inv_into_f)
  then have "map key_ref ks = rs" unfolding ks_def map_map comp_def by (rule map_idI)
  moreover have "set ks = impacted deps k"
    using rs(3) inj_key_ref by (auto simp: ks_def image_image inv_into_f_f)
  ultimately show ?thesis using rs(1,2) by (auto simp: impacted_refs_def distinct_map)
qed

lemma plan_of_sel:
  "iv_stale_refs (plan_of ps) = concat (map marked_keys ps)" "iv_skipped_refs (plan_of ps) = concat (map skipped_keys ps)"
  "iv_objects (plan_of ps) = concat (map marked_objects ps)"
  by (simp_all add: plan_of_def)

lemma plan_invalidation_Inr:
  assumes "plan_invalidation env changed t reason subjects st = Inr plan"
  obtains deps k ks ps where "scoped_dependencies env subjects st = Inr deps" "changed = key_ref k"
    "distinct ks" "set ks = impacted deps k"
    "list_all2 (\<lambda>k p. propagate env changed t reason subjects st (key_ref k) = Inr p) ks ps" "plan = plan_of ps"
proof -
  obtain deps rs ps where deps: "scoped_dependencies env subjects st = Inr deps" "impacted_refs deps changed = Inr rs"
    "result_map (propagate env changed t reason subjects st) rs = Inr ps" "plan = plan_of ps"
    using assms by (auto simp: plan_invalidation_def split: if_splits)
  have "\<not> unpinned changed" using assms by (auto simp: plan_invalidation_def unpinned_def split: if_splits)
  then obtain k where k: "ref_key changed = Inr k" using ref_key_pinned by blast
  from impacted_refs_exact [OF scoped_pinned [OF deps(1)] k] deps(2) obtain ks where
    "rs = map key_ref ks" "distinct ks" "set ks = impacted deps k" by auto
  with deps k show thesis by (intro that) (auto simp: ref_key_Inr_iff result_map_Inr_iff list_all2_map1)
qed

lemma plan_invalidation_exact:
  assumes "plan_invalidation env changed t reason subjects st = Inr plan"
  shows "\<exists>deps k. scoped_dependencies env subjects st = Inr deps \<and> changed = key_ref k
    \<and> set (iv_stale_refs plan) = impacted deps k \<inter> Collect (current_version subjects st)
    \<and> set (iv_skipped_refs plan) = impacted deps k - Collect (current_version subjects st)
    \<and> distinct (iv_stale_refs plan @ iv_skipped_refs plan)"
  using assms
proof (rule plan_invalidation_Inr)
  fix deps k ks ps
  assume deps: "scoped_dependencies env subjects st = Inr deps" "changed = key_ref k" "distinct ks" "set ks = impacted deps k"
    and all: "list_all2 (\<lambda>k p. propagate env changed t reason subjects st (key_ref k) = Inr p) ks ps" and plan: "plan = plan_of ps"
  have "concat (map marked_keys ps) = filter (current_version subjects st) ks
      \<and> concat (map skipped_keys ps) = filter (\<lambda>k. \<not> current_version subjects st k) ks"
    using all by (induction rule: list_all2_induct) (auto dest!: propagate_Inr)
  then have "iv_stale_refs plan = filter (current_version subjects st) ks"
    "iv_skipped_refs plan = filter (\<lambda>k. \<not> current_version subjects st k) ks" by (simp_all add: plan plan_of_sel)
  with deps show ?thesis by (intro exI [of _ deps] exI [of _ k]) auto
qed

lemma plan_marks:
  assumes "plan_invalidation env changed t reason subjects st = Inr plan" and "k \<in> set (iv_stale_refs plan)"
  shows "\<exists>ob stale. newest_object st (fst k) = Some ob \<and> wo_revision ob = snd k \<and> stale \<in> set (iv_objects plan)
    \<and> stale_object env changed t reason ob = Inr stale"
  using assms(1)
proof (rule plan_invalidation_Inr)
  fix deps k' ks ps
  assume all: "list_all2 (\<lambda>k p. propagate env changed t reason subjects st (key_ref k) = Inr p) ks ps" and plan: "plan = plan_of ps"
  from assms(2) obtain p where p: "p \<in> set ps" "k \<in> set (marked_keys p)" by (auto simp: plan plan_of_sel)
  from list_all2_right [OF all p(1)] obtain x where "propagate env changed t reason subjects st (key_ref x) = Inr p" by blast
  from propagate_Inr [OF this] p(2) obtain ob stale d where "p = Marked k stale d" "newest_object st (fst k) = Some ob"
    "wo_revision ob = snd k" "stale_object env changed t reason ob = Inr stale" by auto
  then show ?thesis using p(1) by (force simp: plan plan_of_sel)
qed

section \<open>Marks are durable\<close>

lemma durable_object_parts:
  "durable_object ob = ob \<longleftrightarrow> durable_dict (wo_metadata ob) = wo_metadata ob \<and> durable_body (wo_body ob) = wo_body ob"
  by (cases ob) (auto simp: durable_object_def)

lemma durable_get: "durable_dict d = d \<Longrightarrow> durable_value (dict_get d k) = dict_get d k"
  using dict_get_durable [of d k] by simp

lemma py_items_durable: "py_items v = Inr ms \<Longrightarrow> durable_value v = v \<Longrightarrow> map durable_value ms = ms"
  by (cases v rule: py_items.cases) (auto simp: comp_def split: if_splits)

lemma durable_stale_body: "durable_body (stale_body b old t reason) = stale_body (durable_body b) old t reason"
  by (cases b) (simp_all add: stale_body_def)

lemma stale_durable:
  assumes "durable_object ob = ob" and "stale_object env changed t reason ob = Inr ob'"
  shows "durable_object ob' = ob'"
proof -
  note parts = assms(1) [unfolded durable_object_parts]
  obtain ms where ms: "py_items (dict_get (wo_metadata ob) ''stale_due_to_refs'') = Inr ms"
    and ob': "ob' = ob\<lparr>wo_revision := wo_revision ob + 1, wo_learned_at := utc_datetime t, wo_recorded_at := utc_datetime t,
       wo_status := ''stale_review_required'', wo_metadata := dict_update (wo_metadata ob) [(''stale_due_to_refs'',
         PList (if list_ex (py_eq (stale_marker changed)) ms then ms else ms @ [stale_marker changed])),
         (''stale_reason'', PStr reason), (''stale_at'', iso env t)],
       wo_body := stale_body (wo_body ob) (wo_revision ob) t reason\<rparr>"
    using assms(2) by (auto simp: stale_object_def stale_metadata_def validated_Inr)
  have "durable_value (stale_marker changed) = stale_marker changed"
    by (simp add: stale_marker_def ref_value_def split: option.splits)
  moreover have "map durable_value ms = ms" using py_items_durable [OF ms] durable_get parts by blast
  ultimately have "durable_dict (wo_metadata ob') = wo_metadata ob'"
    using parts by (auto simp: ob' dict_update_def iso_def intro!: durable_dict_put)
  moreover have "durable_body (wo_body ob') = wo_body ob'"
    using parts by (simp add: ob' durable_stale_body)
  ultimately show ?thesis by (simp add: durable_object_parts)
qed

text \<open>What committing the marks leaves: the marked versions are the newest ones.\<close>

lemma committed_marks:
  assumes inv: "world_inv (sv_zones env) st" and plan: "plan_invalidation env changed t reason subjects st = Inr plan"
    and objs: "set (iv_objects plan) \<subseteq> set objs"
    and new: "\<And>ob. ob \<in> set objs \<Longrightarrow> newest_object st' (wo_object_id ob) = Some (durable_object ob)"
    and k: "k \<in> set (iv_stale_refs plan)"
  shows "\<exists>ob. newest_object st' (fst k) = Some ob \<and> wo_revision ob = snd k + 1 \<and> review_marker changed ob"
proof -
  obtain ob stale where stale: "newest_object st (fst k) = Some ob" "wo_revision ob = snd k" "stale \<in> set (iv_objects plan)"
    "stale_object env changed t reason ob = Inr stale" using plan_marks [OF plan k] by blast
  have "durable_object stale = stale" using stale_durable [OF newest_durable [OF inv stale(1)] stale(4)] .
  moreover have "wo_object_id stale = fst k" using stale_object_Inr(1) [OF stale(4)] newest_identity(1) [OF inv stale(1)] by simp
  ultimately have "newest_object st' (fst k) = Some stale" using new [of stale] stale(3) objs by auto
  then show ?thesis using stale_object_Inr(2,6) [OF stale(4)] stale(2) by auto
qed

end
