(* ===== verification/RevisionFacts.thy ===== *)
theory RevisionFacts
  imports Revisions PropagationFacts PolicyEvidence GroundingFacts
begin

text \<open>
  What an applied revision guarantees: it replaces the current, not retracted claim of the subject by
  its next version, the evidence it was given is grounded in reality, and every current version that
  depended on the old one is marked for review in the same commit.
\<close>

section \<open>Cases of a revision\<close>

lemma apply_revision_cases:
  assumes "apply_revision env ck sv q changed_at st = (r, st')"
  obtains (Same) "st' = st"
  | (Applied) t w old op p c where "revision_inputs env sv q changed_at st = Inr (t, w, old, op)"
      "replay_exact_operation (sv_zones env) (sv_digest env) (ck_now ck) op st = (Inr None, st)"
      "plan_revision env sv q t w old st = Inr p"
      "commit (sv_zones env) (sv_digest env) (ck_now ck) (prv_objects p) op st = (Inr c, st')"
      "r = Inr (revision_receipt q p c)"
proof (cases "revision_inputs env sv q changed_at st")
  case (Inl e)
  with assms show ?thesis by (intro Same) (simp add: apply_revision_def)
next
  case (Inr x)
  obtain t w old op where x: "x = (t, w, old, op)" by (cases x)
  obtain y s where y: "replay_exact_operation (sv_zones env) (sv_digest env) (ck_now ck) op st = (y, s)"
    by (cases "replay_exact_operation (sv_zones env) (sv_digest env) (ck_now ck) op st")
  then have s: "s = st" using replay_exact_operation_same by blast
  note run = assms [unfolded apply_revision_def Inr x, simplified, unfolded y s]
  show ?thesis
  proof (cases "y = Inr None")
    case False
    with run show ?thesis by (intro Same) (auto split: sum.splits option.splits)
  next
    case replay: True
    show ?thesis
    proof (cases "plan_revision env sv q t w old st")
      case (Inl e)
      with run replay show ?thesis by (intro Same) simp
    next
      case plan: (Inr p)
      obtain z u where z: "commit (sv_zones env) (sv_digest env) (ck_now ck) (prv_objects p) op st = (z, u)"
        by (cases "commit (sv_zones env) (sv_digest env) (ck_now ck) (prv_objects p) op st")
      show ?thesis
      proof (cases z)
        case (Inl e)
        with z commit_Inl have "u = st" by metis
        with run replay plan z Inl show ?thesis by (intro Same) simp
      next
        case (Inr c)
        with run replay plan z show ?thesis
          by (intro Applied [of t w old op p c]) (use \<open>revision_inputs env sv q changed_at st = Inr x\<close> x y s in auto)
      qed
    qed
  qed
qed

section \<open>Plans\<close>

lemma check_revision_target_Inr:
  assumes "world_inv (sv_zones env) st" and "check_revision_target env sv q old st = Inr x"
    and "read_payload st (target_id q) (Some (target_revision q)) = Inr old"
  shows "newest_object st (target_id q) = Some (fst x)" and "wo_revision (fst x) = target_revision q"
    and "wo_body (fst x) = Claim (snd x)" and "wo_subject_id (fst x) = rvs_subject_id sv" and "wo_status (fst x) \<noteq> ''retracted''"
proof -
  obtain latest where latest: "read_payload st (target_id q) None = Inr latest"
    using assms(2) by (auto simp: check_revision_target_def)
  obtain ob where ob: "read_payload st (target_id q) None = Inr (PayloadObject ob)" "wo_revision ob = target_revision q"
    using assms(2) latest by (cases latest) (auto simp: check_revision_target_def split: if_splits)
  then have x: "validate_payload_as env claim_of_body old = Inr x" "wo_subject_id (fst x) = rvs_subject_id sv"
      "wo_status (fst x) \<noteq> ''retracted''"
    using assms(2) by (auto simp: check_revision_target_def split: if_splits)
  note newest = read_newest [OF ob(1)]
  have "old = PayloadObject ob" using read_pinned_newest [OF assms(1,3) newest ob(2)] .
  with x(1) have "fst x = ob \<and> wo_body ob = Claim (snd x)"
    by (cases x) (auto simp: validate_payload_as_Inr claim_of_body_def split: object_body.splits)
  with newest ob(2) x(2,3) show "newest_object st (target_id q) = Some (fst x)" "wo_revision (fst x) = target_revision q"
    "wo_body (fst x) = Claim (snd x)" "wo_subject_id (fst x) = rvs_subject_id sv" "wo_status (fst x) \<noteq> ''retracted''"
    by auto
qed

lemma plan_revision_Inr:
  assumes "plan_revision env sv q t w old st = Inr p"
  obtains x ev counter where "check_revision_target env sv q old st = Inr x" "check_revision_evidence env sv q st = Inr ()"
    "revised_claim_object env q x t ev counter = Inr (prv_claim p)" "prv_claim p \<in> set (prv_objects p)"
    "plan_invalidation env (crq_target_ref q) t
       (invalidation_reason q)
       (insert (rvs_subject_id sv) (rvs_evidence_subject_ids sv)) st = Inr (prv_invalidation p)"
    "set (iv_objects (prv_invalidation p)) \<subseteq> set (prv_objects p)"
proof -
  obtain x u ev cev new deps inv where
    "check_revision_target env sv q old st = Inr x" "check_revision_evidence env sv q st = Inr u"
    "revised_claim_object env q x t (evidence_set_ref ev) (case cev of None \<Rightarrow> [] | Some c \<Rightarrow> [evidence_set_ref c]) = Inr new"
    "plan_invalidation env (crq_target_ref q) t
       (invalidation_reason q)
       (insert (rvs_subject_id sv) (rvs_evidence_subject_ids sv)) st = Inr inv"
    "p = \<lparr>prv_objects = ev # (case cev of None \<Rightarrow> [] | Some c \<Rightarrow> [c]) @ new # deps @ iv_objects inv,
       prv_claim = new, prv_evidence_id = wo_object_id ev, prv_invalidation = inv\<rparr>"
    using assms unfolding plan_revision_def result_bind_Inr_iff
    by (elim exE conjE) (rule that, assumption+, rule sym, erule sum.inject(2) [THEN iffD1])
  then show thesis by (intro that [of x "evidence_set_ref ev"]) auto
qed

lemma revised_claim_object_Inr:
  assumes "revised_claim_object env q x t ev counter = Inr new"
  shows "wo_object_id new = wo_object_id (fst x)" "wo_revision new = wo_revision (fst x) + 1"
    "wo_status new = (case crq_mode q of Revise \<Rightarrow> ''active'' | Retract \<Rightarrow> ''retracted'')"
    "wo_body new = Claim (revised_claim q (snd x) t ev counter)"
  using assms by (auto simp: revised_claim_object_def validated_Inr)

lemma inputs_read:
  assumes "revision_inputs env sv q changed_at st = Inr (t, w, old, op)" and "ref_revision (crq_target_ref q) \<noteq> None"
  shows "read_payload st (target_id q) (Some (target_revision q)) = Inr old"
  using assms by (auto simp: revision_inputs_def target_revision_def split: if_splits)

text \<open>A pinned request; the validator of the request ensures it.\<close>

lemma constructed_pinned: "construct_revision_request zones q = Inr q' \<Longrightarrow> ref_revision (crq_target_ref q) \<noteq> None"
  by (auto simp: construct_revision_request_def claim_revision_guards_def pin_def unpinned_def first_raise_None_iff
      split: option.splits)

lemma find_distinct: "distinct (map f xs) \<Longrightarrow> x \<in> set xs \<Longrightarrow> List.find (\<lambda>y. f y = f x) xs = Some x"
  by (induction xs) auto

lemma applied_revision:
  assumes inv: "world_inv (sv_zones env) st" and pinned: "ref_revision (crq_target_ref q) \<noteq> None"
    and run: "apply_revision env ck sv q changed_at st = (r, st')" and change: "st' \<noteq> st"
  obtains t x ev counter p c where
    "newest_object st (target_id q) = Some (fst x)" "wo_revision (fst x) = target_revision q"
    "wo_body (fst x) = Claim (snd x)" "wo_subject_id (fst x) = rvs_subject_id sv" "wo_status (fst x) \<noteq> ''retracted''"
    "check_revision_evidence env sv q st = Inr ()" "revised_claim_object env q x t ev counter = Inr (prv_claim p)"
    "prv_claim p \<in> set (prv_objects p)" "set (iv_objects (prv_invalidation p)) \<subseteq> set (prv_objects p)"
    "plan_invalidation env (crq_target_ref q) t
       (invalidation_reason q)
       (insert (rvs_subject_id sv) (rvs_evidence_subject_ids sv)) st = Inr (prv_invalidation p)"
    "r = Inr (revision_receipt q p c)"
    "\<And>ob. ob \<in> set (prv_objects p) \<Longrightarrow> newest_object st' (wo_object_id ob) = Some (durable_object ob)"
  using run
proof (cases rule: apply_revision_cases)
  case Same
  with change show ?thesis by simp
next
  case (Applied t w old op p c)
  note read = inputs_read [OF Applied(1) pinned]
  from Applied(3) show ?thesis
  proof (cases rule: plan_revision_Inr)
    case (1 x ev counter)
    note target = check_revision_target_Inr [OF inv 1(1) read]
    from inv Applied(4) show ?thesis
    proof (cases rule: commit_policy_now)
      case (Written w' h)
      have ids: "distinct (map wo_object_id (prv_objects p))" using accepted_distinct_ids [OF Written(1)] .
      have "newest_object st' (wo_object_id ob) = Some (durable_object ob)" if "ob \<in> set (prv_objects p)" for ob
        using Written(5) [of "wo_object_id ob"] find_distinct [OF ids that] by simp
      with that target 1 Applied(5) show ?thesis by blast
    qed (use change in simp)
  qed
qed

section \<open>What an applied revision does\<close>

lemma durable_claim: "wo_body ob = Claim c \<Longrightarrow> wo_body (durable_object ob) = Claim c"
  by (simp add: durable_object_def)

lemma revision_replaces:
  assumes "world_inv (sv_zones env) st" and "ref_revision (crq_target_ref q) \<noteq> None"
    and "apply_revision env ck sv q changed_at st = (r, st')" and "st' \<noteq> st"
  shows "\<exists>ob c new t ev counter receipt. newest_object st (target_id q) = Some ob \<and> wo_revision ob = target_revision q
    \<and> wo_body ob = Claim c \<and> wo_subject_id ob = rvs_subject_id sv \<and> wo_status ob \<noteq> ''retracted''
    \<and> newest_object st' (target_id q) = Some new \<and> wo_revision new = target_revision q + 1
    \<and> wo_body new = Claim (revised_claim q c t ev counter)
    \<and> wo_status new = (case crq_mode q of Revise \<Rightarrow> ''active'' | Retract \<Rightarrow> ''retracted'')
    \<and> r = Inr receipt \<and> crr_new_revision receipt = target_revision q + 1"
  using assms
proof (rule applied_revision)
  fix t x ev counter p c
  assume x: "newest_object st (target_id q) = Some (fst x)" "wo_revision (fst x) = target_revision q"
      "wo_body (fst x) = Claim (snd x)" "wo_subject_id (fst x) = rvs_subject_id sv" "wo_status (fst x) \<noteq> ''retracted''"
    and new: "revised_claim_object env q x t ev counter = Inr (prv_claim p)" "prv_claim p \<in> set (prv_objects p)"
    and r: "r = Inr (revision_receipt q p c)"
    and now: "\<And>ob. ob \<in> set (prv_objects p) \<Longrightarrow> newest_object st' (wo_object_id ob) = Some (durable_object ob)"
  note sel = revised_claim_object_Inr [OF new(1)]
  have "newest_object st' (target_id q) = Some (durable_object (prv_claim p))"
    using now [OF new(2)] sel(1) newest_identity(1) [OF assms(1) x(1)] by simp
  moreover have "wo_body (durable_object (prv_claim p)) = Claim (revised_claim q (snd x) t ev counter)"
    using sel(4) by (rule durable_claim)
  moreover have "wo_revision (durable_object (prv_claim p)) = target_revision q + 1"
    "wo_status (durable_object (prv_claim p)) = (case crq_mode q of Revise \<Rightarrow> ''active'' | Retract \<Rightarrow> ''retracted'')"
    using sel(2,3) x(2) by (simp_all add: durable_object_def)
  moreover have "crr_new_revision (revision_receipt q p c) = target_revision q + 1" using sel(2) x(2) by (simp add: revision_receipt_def)
  ultimately show ?thesis using x r by blast
qed

definition revision_scope :: "revision_service \<Rightarrow> string set" where
  "revision_scope sv = insert (rvs_subject_id sv) (rvs_evidence_subject_ids sv)"

lemma revision_marks:
  assumes "world_inv (sv_zones env) st" and "ref_revision (crq_target_ref q) \<noteq> None"
    and "apply_revision env ck sv q changed_at st = (r, st')" and "st' \<noteq> st"
  shows "\<exists>deps. scoped_dependencies env (revision_scope sv) st = Inr deps
    \<and> (\<forall>k \<in> impacted deps (target_id q, target_revision q) \<inter> Collect (current_version (revision_scope sv) st).
         \<exists>ob. newest_object st' (fst k) = Some ob \<and> wo_revision ob = snd k + 1 \<and> review_marker (crq_target_ref q) ob)"
  using assms
proof (rule applied_revision)
  fix t x ev counter p c
  assume plan: "plan_invalidation env (crq_target_ref q) t
       (invalidation_reason q)
       (insert (rvs_subject_id sv) (rvs_evidence_subject_ids sv)) st = Inr (prv_invalidation p)"
    and objs: "set (iv_objects (prv_invalidation p)) \<subseteq> set (prv_objects p)"
    and now: "\<And>ob. ob \<in> set (prv_objects p) \<Longrightarrow> newest_object st' (wo_object_id ob) = Some (durable_object ob)"
  obtain deps k where deps: "scoped_dependencies env (revision_scope sv) st = Inr deps" "crq_target_ref q = key_ref k"
    "set (iv_stale_refs (prv_invalidation p)) = impacted deps k \<inter> Collect (current_version (revision_scope sv) st)"
    using plan_invalidation_exact [OF plan] by (auto simp: revision_scope_def)
  have "k = (target_id q, target_revision q)" by (cases k) (simp add: deps(2) key_ref_def target_revision_def)
  with deps committed_marks [OF assms(1) plan objs now] show ?thesis by blast
qed

lemma revision_grounded:
  assumes "world_inv (sv_zones env) st" and "ref_revision (crq_target_ref q) \<noteq> None"
    and "apply_revision env ck sv q changed_at st = (r, st')" and "st' \<noteq> st"
  shows "\<exists>deps. support_dependencies env (rvs_evidence_policy sv) st = Inr deps
    \<and> sound_graph (lineage_node_of env (rvs_evidence_policy sv) deps st) (ref_roots (crq_evidence_refs q))
    \<and> open_reality (lineage_node_of env (rvs_evidence_policy sv) deps st) (ref_roots (crq_evidence_refs q)) \<noteq> {}"
  using assms
proof (rule applied_revision)
  assume "check_revision_evidence env sv q st = Inr ()"
  then obtain v where "validate_evidence_policy env (rvs_evidence_policy sv) (crq_evidence_refs q) st = Inr v"
    by (auto simp: check_revision_evidence_def)
  then show ?thesis unfolding evidence_verdict by blast
qed

section \<open>A pruned dependency\<close>

text \<open>A tombstone has no subject: once any dependency is pruned no plan can be made, and no claim revised.\<close>

lemma pruned_dependency_unscoped:
  assumes "prune now oid a reason st = (Inr u, st')" and "latest_row st oid = Some r" and "rr_object_type r = OT_DEPENDENCY"
  shows "\<exists>e. scoped_dependencies env subjects st' = Inl e"
proof (cases "scoped_dependencies env subjects st'")
  case (Inr deps)
  obtain w where latest: "tombstone_row now (w + 1) a reason r \<in> set (latest_rows st')"
    by (rule pruned_latest [OF assms(1,2)])
  let ?t = "tombstone_row now (w + 1) a reason r"
  from Inr obtain ps es where ps: "list_payloads st' (Some OT_DEPENDENCY) None None None = Inr ps"
    and es: "result_map (scoped_edge env subjects st') ps = Inr es" by (auto simp: scoped_dependencies_def)
  have "?t \<in> set (sort_key rr_recorded_at (filter (selects (Some OT_DEPENDENCY) None) (latest_rows st')))"
    using latest assms(3) by (simp add: selects_def)
  moreover have "result_map (\<lambda>q. decode_payload ''corrupt_object_payload'' (rr_payload q))
      (sort_key rr_recorded_at (filter (selects (Some OT_DEPENDENCY) None) (latest_rows st'))) = Inr ps"
    using ps by (simp add: list_payloads_def normalize_opt_def)
  ultimately obtain p where "p \<in> set ps" "decode_payload ''corrupt_object_payload'' (rr_payload ?t) = Inr p"
    unfolding result_map_Inr_iff by (meson list_all2_left)
  then have "PayloadTombstone \<lparr>tb_reason = reason, tb_authz_ref = a, tb_previous_revision = rr_revision r, tb_object_id = oid\<rparr> \<in> set ps"
    using latest_row_Some [OF assms(2)] by (auto simp: tombstone_row_def decode_payload_def)
  with es have "\<exists>e. scoped_edge env subjects st' (PayloadTombstone \<lparr>tb_reason = reason, tb_authz_ref = a,
      tb_previous_revision = rr_revision r, tb_object_id = oid\<rparr>) = Inr e"
    by (rule result_map_all)
  then show ?thesis by (simp add: scoped_edge_def payload_scope_def)
qed simp

lemma pruned_dependency_unrevised:
  assumes "world_inv (sv_zones env) st" and "ref_revision (crq_target_ref q) \<noteq> None"
    and "prune now oid a reason st = (Inr u, st')" and "latest_row st oid = Some r" and "rr_object_type r = OT_DEPENDENCY"
  shows "snd (apply_revision env ck sv q changed_at st') = st'"
proof (rule ccontr)
  assume change: "snd (apply_revision env ck sv q changed_at st') \<noteq> st'"
  have inv: "world_inv (sv_zones env) st'"
    using world_inv_step [OF assms(1) step_prune [OF assms(3), of "sv_zones env" "sv_digest env"]] .
  obtain r' st'' where run: "apply_revision env ck sv q changed_at st' = (r', st'')" by (cases "apply_revision env ck sv q changed_at st'")
  from revision_marks [OF inv assms(2) run] change run pruned_dependency_unscoped [OF assms(3-5)] show False
    by (metis snd_conv sum.distinct(1))
qed

end
