(* ===== verification/RevisionReplay.thy ===== *)
theory RevisionReplay
  imports RevisionFacts
begin

text \<open>
  Repeating an applied revision. Everything its commit wrote is in durable form, so after any run of
  the world the same request is answered from that commit: the same claim revision, evidence set,
  marked versions and world revision; only the skipped versions, which leave no trace, are missing.
\<close>

section \<open>The objects of a plan are durable\<close>

lemma revision_evidence_set_Inr:
  assumes "revision_evidence_set env q x t w i b purpose sel ms ss cs = Inr ob" and "durable_dict (wo_metadata (fst x)) = wo_metadata (fst x)"
  shows "durable_object ob = ob" and "wo_revision ob = 1" and "wo_object_id ob = i"
proof -
  have "durable_value (dict_get (wo_metadata (fst x)) ''dimension'') = dict_get (wo_metadata (fst x)) ''dimension''"
    using durable_get [OF assms(2)] .
  with assms(1) show "durable_object ob = ob"
    by (auto simp: revision_evidence_set_def validated_Inr durable_moment_object durable_dict_def ref_value_def)
  show "wo_revision ob = 1" "wo_object_id ob = i"
    using assms(1) by (auto simp: revision_evidence_set_def validated_Inr moment_object_def)
qed

lemma revision_dependency_Inr:
  "revision_dependency env subject t kind a b = Inr ob \<Longrightarrow> durable_object ob = ob \<and> wo_revision ob = 1"
  by (auto simp: revision_dependency_def validated_Inr durable_object_def durable_dict_def moment_object_def)

lemma stale_dependency_Inr:
  "stale_dependency env changed t s = Inr ob \<Longrightarrow> durable_object ob = ob \<and> wo_revision ob = 1"
  by (auto simp: stale_dependency_def validated_Inr durable_object_def durable_dict_def moment_object_def)

lemma revised_claim_durable:
  assumes "revised_claim_object env q x t ev counter = Inr new" and "durable_dict (wo_metadata (fst x)) = wo_metadata (fst x)"
  shows "durable_object new = new"
  unfolding durable_object_parts
proof
  show "durable_body (wo_body new) = wo_body new" using revised_claim_object_Inr(4) [OF assms(1)] by simp
  show "durable_dict (wo_metadata new) = wo_metadata new" using assms
    by (auto simp: revised_claim_object_def validated_Inr dict_update_def ref_value_def intro!: durable_dict_put)
qed

lemma revision_dependencies_Inr:
  assumes "revision_dependencies env q x t ev counter = Inr ds" and "ob \<in> set ds"
  shows "durable_object ob = ob \<and> wo_revision ob = 1"
  using assms by (auto simp: revision_dependencies_def Let_def split: option.splits
      dest!: result_map_mem revision_dependency_Inr)

text \<open>Besides the claim and the marks, a plan holds first versions only.\<close>

lemma plan_revision_parts:
  assumes "plan_revision env sv q t w old st = Inr p" and "check_revision_target env sv q old st = Inr x"
    and "durable_dict (wo_metadata (fst x)) = wo_metadata (fst x)"
  obtains evs ds ev counter where "prv_objects p = evs @ prv_claim p # ds @ iv_objects (prv_invalidation p)"
    "\<forall>ob \<in> set evs \<union> set ds. durable_object ob = ob \<and> wo_revision ob = 1"
    "revised_claim_object env q x t ev counter = Inr (prv_claim p)" "revision_evidence_id env q t = Inr (prv_evidence_id p)"
    "plan_invalidation env (crq_target_ref q) t (invalidation_reason q)
       (insert (rvs_subject_id sv) (rvs_evidence_subject_ids sv)) st = Inr (prv_invalidation p)"
proof -
  obtain y ev cev new deps inv where y: "check_revision_target env sv q old st = Inr y" and
    parts: "support_evidence_set env q y t w = Inr ev" "counter_evidence_set env q y t w = Inr cev"
    "revised_claim_object env q y t (evidence_set_ref ev) (case cev of None \<Rightarrow> [] | Some c \<Rightarrow> [evidence_set_ref c]) = Inr new"
    "revision_dependencies env q y t (evidence_set_ref ev) (map_option evidence_set_ref cev) = Inr deps"
    "plan_invalidation env (crq_target_ref q) t (invalidation_reason q)
       (insert (rvs_subject_id sv) (rvs_evidence_subject_ids sv)) st = Inr inv"
    and p: "p = \<lparr>prv_objects = ev # (case cev of None \<Rightarrow> [] | Some c \<Rightarrow> [c]) @ new # deps @ iv_objects inv,
       prv_claim = new, prv_evidence_id = wo_object_id ev, prv_invalidation = inv\<rparr>"
    using assms(1) unfolding plan_revision_def result_bind_Inr_iff
    by (elim exE conjE) (rule that, assumption+, rule sym, erule sum.inject(2) [THEN iffD1])
  have "y = x" using y assms(2) by simp
  note parts = parts [unfolded this]
  obtain i purpose ss cs where "revision_evidence_id env q t = Inr i" "revision_evidence_set env q x t w i
      ''cognition_revision:evidence'' purpose ''resident_model_selected_revision_evidence'' (crq_evidence_refs q) ss cs = Inr ev"
    using parts(1) unfolding support_evidence_set_def result_bind_Inr_iff by (elim exE conjE) (rule that)
  with revision_evidence_set_Inr [OF this(2) assms(3)]
  have ev: "durable_object ev = ev \<and> wo_revision ev = 1" "revision_evidence_id env q t = Inr (wo_object_id ev)" by simp_all
  have "durable_object c = c \<and> wo_revision c = 1" if "cev = Some c" for c
    using parts(2) that revision_evidence_set_Inr [OF _ assms(3)] by (auto simp: counter_evidence_set_def split: if_splits)
  with ev(1) have "\<forall>ob \<in> set (ev # (case cev of None \<Rightarrow> [] | Some c \<Rightarrow> [c])) \<union> set deps. durable_object ob = ob \<and> wo_revision ob = 1"
    using revision_dependencies_Inr [OF parts(4)] by (auto split: option.splits)
  with p parts(3,5) ev(2) show thesis
    by (intro that [of "ev # (case cev of None \<Rightarrow> [] | Some c \<Rightarrow> [c])" deps]) auto
qed

section \<open>The marked versions are listed again\<close>

definition listed_stale :: "string \<Rightarrow> world_object \<Rightarrow> version_key list" where
  "listed_stale tid ob = (if wo_object_id ob = tid \<or> wo_revision ob < 2 then [] else [(wo_object_id ob, wo_revision ob - 1)])"

lemma newest_positive:
  assumes "world_inv zones st" and "newest_object st oid = Some ob"
  shows "1 \<le> wo_revision ob"
proof -
  obtain r where r: "latest_row st oid = Some r" "rr_revision r = wo_revision ob" using newest_identity(3) [OF assms] by blast
  then show ?thesis using row_revision_pos [of st r] latest_row_Some [OF r(1)] assms(1) by (simp add: world_inv_def)
qed

lemma marks_listed:
  assumes inv: "world_inv (sv_zones env) st" and target: "newest_object st tid = Some ob" "wo_revision ob = v"
    and plan: "plan_invalidation env (oref tid (Some v)) t reason subjects st = Inr plan"
  shows "concat (map (listed_stale tid) (iv_objects plan)) = iv_stale_refs plan"
    and "\<And>x. x \<in> set (iv_objects plan) \<Longrightarrow> durable_object x = x
      \<and> (wo_revision x = 1 \<or> wo_object_id x \<noteq> tid \<and> review_marker (oref tid (Some v)) x)"
proof -
  have "concat (map (listed_stale tid) (iv_objects plan)) = iv_stale_refs plan \<and>
    (\<forall>x \<in> set (iv_objects plan). durable_object x = x
      \<and> (wo_revision x = 1 \<or> wo_object_id x \<noteq> tid \<and> review_marker (oref tid (Some v)) x))"
    using plan
  proof (rule plan_invalidation_Inr)
    fix deps k ks ps
    assume k: "oref tid (Some v) = key_ref k" "set ks = impacted deps k"
      and all: "list_all2 (\<lambda>k p. propagate env (oref tid (Some v)) t reason subjects st (key_ref k) = Inr p) ks ps"
      and p: "plan = plan_of ps"
    have k: "k = (tid, v)" using k(1) by (cases k) (simp add: key_ref_def)
    have each: "concat (map (listed_stale tid) (marked_objects q)) = marked_keys q \<and> (\<forall>x \<in> set (marked_objects q). durable_object x = x
        \<and> (wo_revision x = 1 \<or> wo_object_id x \<noteq> tid \<and> review_marker (oref tid (Some v)) x))" if "q \<in> set ps" for q
    proof -
      from list_all2_right [OF all that] obtain j where j: "j \<in> set ks"
        "propagate env (oref tid (Some v)) t reason subjects st (key_ref j) = Inr q" by blast
      show ?thesis
      proof (cases q)
        case (Marked i s d)
        obtain ob' where m: "i = j" "newest_object st (fst j) = Some ob'" "wo_revision ob' = snd j"
          "stale_object env (oref tid (Some v)) t reason ob' = Inr s" "stale_dependency env (oref tid (Some v)) t s = Inr d"
          using propagate_Inr [OF j(2)] Marked by auto
        note s = stale_object_Inr [OF m(4)] and d = stale_dependency_Inr [OF m(5)]
        have "fst j \<noteq> tid"
        proof
          assume "fst j = tid"
          then have "j = (tid, v)" using m(2,3) target by (cases j) simp
          then show False using j(1) \<open>set ks = impacted deps k\<close> k by (simp add: impacted_def)
        qed
        moreover have "wo_object_id s = fst j" "wo_revision s = snd j + 1"
          using s(1,2) newest_identity(1) [OF inv m(2)] m(3) by simp_all
        moreover have "1 \<le> snd j" using newest_positive [OF inv m(2)] m(3) by simp
        moreover have "durable_object s = s" using stale_durable [OF newest_durable [OF inv m(2)] m(4)] .
        ultimately show ?thesis using Marked d s(6) m(1) by (auto simp: listed_stale_def)
      qed simp
    qed
    have "concat (map (listed_stale tid) (concat (map marked_objects qs))) = concat (map marked_keys qs)"
      if "set qs \<subseteq> set ps" for qs using that each by (induction qs) auto
    then show ?thesis using each by (auto simp: p plan_of_sel)
  qed
  then show "concat (map (listed_stale tid) (iv_objects plan)) = iv_stale_refs plan"
    "\<And>x. x \<in> set (iv_objects plan) \<Longrightarrow> durable_object x = x
      \<and> (wo_revision x = 1 \<or> wo_object_id x \<noteq> tid \<and> review_marker (oref tid (Some v)) x)" by blast+
qed

lemma result_map_eq: "(\<And>x. x \<in> set xs \<Longrightarrow> f x = Inr (g x)) \<Longrightarrow> result_map f xs = Inr (map g xs)"
  by (induction xs) auto

lemma replayed_stale_listed:
  assumes "wo_object_id ob = target_id q \<or> wo_revision ob = 1 \<or>
      review_marker (crq_target_ref q) ob \<and> read_payload st (wo_object_id ob) (Some (wo_revision ob)) = Inr (PayloadObject ob)"
  shows "replayed_stale q st (object_key ob) = Inr (listed_stale (target_id q) ob)"
proof (cases "wo_object_id ob = target_id q \<or> wo_revision ob < 2")
  case True
  then show ?thesis by (auto simp: replayed_stale_def listed_stale_def object_key_def)
next
  case False
  with assms have "review_marker (crq_target_ref q) ob" "get_payload st (wo_object_id ob) (Some (wo_revision ob)) None None = Inr (PayloadObject ob)"
    by (auto simp: read_payload_def)
  with False show ?thesis by (auto simp: replayed_stale_def listed_stale_def object_key_def review_marker_def)
qed

section \<open>The operation again\<close>

lemma revision_operation_sel [simp]:
  "op_operation_id (revision_operation q key identity w) = ''op_'' @ key"
  "op_idempotency_key (revision_operation q key identity w) = ''cognition-revision:'' @ key"
  "op_expected_world_revision (revision_operation q key identity w) = w"
  "(revision_operation q key identity w)\<lparr>op_operation_id := ''op_'' @ key, op_expected_world_revision := w'\<rparr>
     = revision_operation q key identity w'"
  by (simp_all add: revision_operation_def)

lemma revision_operation_normal:
  "normalize_operation (revision_operation q key identity w) = Inr op \<Longrightarrow> 0 \<le> w' \<Longrightarrow>
   normalize_operation (revision_operation q key identity w') = Inr (revision_operation q key identity w')"
  by (auto simp: normalize_operation_def raising_Inr_iff operation_fields_def validate_source_class_def
      validate_nonblank_identity_fields_def revision_operation_def first_raise_None_iff)

lemma world_revision_reads:
  assumes "world_inv zones st"
  obtains w where "world_revision_now st = Inr w" "0 \<le> w"
proof -
  have "world_revision_now st = Inr (int (length (ws_commits st)))"
    using clock_revision(1) [of st] assms by (simp add: world_revision_now_def current_world_revision_def world_inv_def)
  from that [OF this of_nat_0_le_iff] show thesis .
qed

lemma inputs_again:
  assumes inv: "world_inv zones st" "world_inv zones st2" and grown: "ws_revisions st2 = ws_revisions st @ new"
    and pinned: "ref_revision (crq_target_ref q) = Some v"
    and inputs: "revision_inputs env sv q changed_at st = Inr (t, w, old, op)"
  obtains key identity w2 where "op = revision_operation q key identity w"
    "revision_inputs env sv q changed_at st2 = Inr (t, w2, old, revision_operation q key identity w2)" "0 \<le> w2" "0 \<le> w"
proof -
  obtain key identity where i: "as_utc changed_at ''changed_at'' = Inr t" "world_revision_now st = Inr w"
    "read_payload st (target_id q) (Some v) = Inr old" "revision_key_of env q t = Inr key"
    "\<not> (case old of PayloadObject ob \<Rightarrow> wo_object_type ob \<noteq> OT_CLAIM | _ \<Rightarrow> True)"
    "canonical_request_identity env [PStr (revision_name q), revision_value sv q, iso env t] = Inr identity"
    "normalize_operation (revision_operation q key identity w) = Inr op"
    using inputs pinned by (auto simp: revision_inputs_def split: if_splits)
  obtain w2 where w2: "world_revision_now st2 = Inr w2" "0 \<le> w2" by (rule world_revision_reads [OF inv(2)])
  have "read_payload st2 (target_id q) (Some v) = Inr old" by (rule exact_read_stays [OF inv grown i(3)])
  with i w2 revision_operation_normal [OF i(7) w2(2)]
  have "revision_inputs env sv q changed_at st2 = Inr (t, w2, old, revision_operation q key identity w2)"
    by (simp add: revision_inputs_def pinned)
  moreover have "op = revision_operation q key identity w" using normalize_operation_Inr [OF i(7)] by simp
  ultimately show thesis using w2 world_revision_nonneg [OF inv(1) i(2)] by (intro that)
qed

section \<open>The repeated revision\<close>

lemma revision_recovered:
  assumes inv: "world_inv (sv_zones env) st" and pinned: "ref_revision (crq_target_ref q) = Some v"
    and first: "apply_revision env ck sv q changed_at st = (Inr receipt, st')" "st' \<noteq> st"
    and run: "world_steps (sv_zones env) (sv_digest env) st' st''"
  shows "apply_revision env ck2 sv q changed_at st'' = (Inr (receipt\<lparr>crr_skipped_refs := []\<rparr>), st'')"
  using first(1)
proof (cases rule: apply_revision_cases)
  case (Applied t w old op p c)
  have ref: "crq_target_ref q = oref (target_id q) (Some v)" "target_revision q = v" using pinned
    by (simp_all add: target_revision_def)
  have read: "read_payload st (target_id q) (Some (target_revision q)) = Inr old"
    using inputs_read [OF Applied(1)] pinned by simp
  have steps: "world_steps (sv_zones env) (sv_digest env) st st''"
    using step_commit [OF Applied(4)] run by (rule converse_rtranclp_into_rtranclp)
  have inv': "world_inv (sv_zones env) st'" using world_inv_commit [OF inv Applied(4)] .
  have inv'': "world_inv (sv_zones env) st''" using commits.steps_inv [OF run inv'] .
  obtain new where "ws_revisions st'' = ws_revisions st @ new" using revisions.steps_log [OF steps inv] by auto
  from inputs_again [OF inv inv'' this pinned Applied(1)] obtain key identity w2 where
    op: "op = revision_operation q key identity w"
    and again: "revision_inputs env sv q changed_at st'' = Inr (t, w2, old, revision_operation q key identity w2)"
    and nonneg: "0 \<le> w2" "0 \<le> w" by blast
  obtain x where x: "check_revision_target env sv q old st = Inr x" using Applied(3) by (auto simp: plan_revision_def)
  note target = check_revision_target_Inr [OF inv x read]
  have meta: "durable_dict (wo_metadata (fst x)) = wo_metadata (fst x)"
    using newest_durable [OF inv target(1)] by (simp add: durable_object_parts)
  obtain evs ds ev counter where objs: "prv_objects p = evs @ prv_claim p # ds @ iv_objects (prv_invalidation p)"
    "\<forall>ob \<in> set evs \<union> set ds. durable_object ob = ob \<and> wo_revision ob = 1"
    "revised_claim_object env q x t ev counter = Inr (prv_claim p)" "revision_evidence_id env q t = Inr (prv_evidence_id p)"
    "plan_invalidation env (crq_target_ref q) t (invalidation_reason q)
       (insert (rvs_subject_id sv) (rvs_evidence_subject_ids sv)) st = Inr (prv_invalidation p)"
    by (rule plan_revision_parts [OF Applied(3) x meta])
  have claim: "wo_object_id (prv_claim p) = target_id q" "wo_revision (prv_claim p) = v + 1"
    using revised_claim_object_Inr [OF objs(3)] newest_identity(1) [OF inv target(1)] target(2) ref(2) by simp_all
  have plan: "plan_invalidation env (oref (target_id q) (Some v)) t (invalidation_reason q)
      (insert (rvs_subject_id sv) (rvs_evidence_subject_ids sv)) st = Inr (prv_invalidation p)"
    by (subst ref(1) [symmetric]) (rule objs(5))
  have current: "wo_revision (fst x) = v" using target(2) ref(2) by simp
  note marks = marks_listed [OF inv target(1) current plan]
  have durable: "\<forall>ob \<in> set (prv_objects p). durable_object ob = ob"
    using objs(1,2) revised_claim_durable [OF objs(3) meta] marks(2) by auto
  from inv Applied(4) show ?thesis
  proof (cases rule: commit_policy_now)
    case (Written w' h)
    have normal: "normalize_operation op = Inr op" using Written(1) normalize_operation_Inr by (auto simp: accepted_def)
    have replay: "replay_exact_operation (sv_zones env) (sv_digest env) (ck_now ck2) (revision_operation q key identity w2) st''
        = (Inr (Some (c\<lparr>cr_idempotent_replay := True\<rparr>)), st'')"
      by (rule exact_operation_replay [OF Applied(4) inv Written(4) _ durable run _ _ normal])
        (use normal objs(1) in \<open>simp_all add: op revision_operation_def\<close>)
    have "replayed_stale q st'' (object_key ob) = Inr (listed_stale (target_id q) ob)" if ob: "ob \<in> set (prv_objects p)" for ob
    proof (rule replayed_stale_listed)
      have "content_row (w' + 1) ob \<in> set (ws_revisions st')" using Written(2) ob by simp
      then have "content_row (w' + 1) ob \<in> set (ws_revisions st'')" by (rule rows_stay [OF run inv'])
      then have "read_payload st'' (wo_object_id ob) (Some (wo_revision ob)) = Inr (PayloadObject ob)"
        using read_stored_version [OF inv''] durable ob by blast
      then show "wo_object_id ob = target_id q \<or> wo_revision ob = 1 \<or> review_marker (crq_target_ref q) ob
          \<and> read_payload st'' (wo_object_id ob) (Some (wo_revision ob)) = Inr (PayloadObject ob)"
        using ob objs(1,2) claim(1) marks(2) [of ob] ref(1) [symmetric] by auto
    qed
    then have "result_map (replayed_stale q st'') (map object_key (prv_objects p))
        = Inr (map (listed_stale (target_id q)) (prv_objects p))"
      using result_map_eq [where f = "replayed_stale q st'' \<circ> object_key" and g = "listed_stale (target_id q)" and xs = "prv_objects p"]
      by (simp add: result_map_Inr_iff list_all2_map1)
    moreover have "concat (map (listed_stale (target_id q)) (prv_objects p)) = iv_stale_refs (prv_invalidation p)"
    proof -
      have none: "concat (map (listed_stale (target_id q)) xs) = []" if "\<forall>ob \<in> set xs. wo_revision ob = 1" for xs
        using that by (induction xs) (auto simp: listed_stale_def)
      have "concat (map (listed_stale (target_id q)) evs) = []" "concat (map (listed_stale (target_id q)) ds) = []"
        by (rule none, use objs(2) in blast)+
      moreover have "listed_stale (target_id q) (prv_claim p) = []" using claim(1) by (simp add: listed_stale_def)
      ultimately show ?thesis unfolding objs(1) using marks(1) by simp
    qed
    ultimately have "replayed_receipt env q t (c\<lparr>cr_idempotent_replay := True\<rparr>) st''
        = Inr ((revision_receipt q p c)\<lparr>crr_skipped_refs := []\<rparr>)"
      using objs(4) claim(2) ref(2) Written(3) by (simp add: replayed_receipt_def revision_receipt_def commit_result_of_def)
    then show ?thesis using again replay Applied(5) by (simp add: apply_revision_def)
  qed (use first(2) in simp)
qed (use first(2) in simp)

end
