(* ===== verification/RevisionExamples.thy ===== *)
theory RevisionExamples
  imports RevisionReplay PolicyExamples
begin

text \<open>
  A claim over an observation, a second claim that depends on it, and the retraction of the first:
  the second claim is marked for review in the same commit.
\<close>

definition some_claim :: "string \<Rightarrow> object_body" where
  "some_claim content = Claim \<lparr>clm_claimant_id = ''ai'', clm_claim_type = CT_INFERENCE, clm_content = content,
     clm_valid_time = unknown_time, clm_asserted_at = utc_datetime 1, clm_knowledge_state = KS_INFERRED,
     clm_confidence = 1, clm_support_evidence_set_refs = [], clm_counter_evidence_set_refs = [],
     clm_unknown_items = [], clm_source_trust = 1, clm_corroboration_required = False\<rparr>"

definition claims_objects :: "world_object list" where
  "claims_objects = [plain_object ''a'' 1 (reading 5), plain_object ''c'' 1 (some_claim ''x''),
     plain_object ''c2'' 1 (some_claim ''y''), plain_object ''d'' 1 (depends ''c2'' ''c'')]"

definition claims_store :: "unit world_store" where
  "claims_store = snd (commit all_zones (\<lambda>_. ()) 10 claims_objects (request ''k'' 0) initial_store)"

definition reviser :: revision_service where
  "reviser = \<lparr>rvs_subject_id = ''s'', rvs_evidence_subject_ids = {''s''},
     rvs_evidence_policy = \<lparr>ep_subject_id = ''s'', ep_allowed_subject_ids = {''s''}\<rparr>, rvs_extent_value = (\<lambda>_. PNone)\<rparr>"

definition retraction :: claim_revision_request where
  "retraction = \<lparr>crq_target_ref = oref ''c'' (Some 1), crq_mode = Retract, crq_reason = ''r'',
     crq_evidence_refs = [oref ''a'' (Some 1)], crq_replacement_content = None, crq_confidence = None,
     crq_valid_time = None, crq_unknown_items = None, crq_counter_evidence_refs = []\<rparr>"

abbreviation retracting ::
    "string \<Rightarrow> unit world_store \<Rightarrow> (service_error + claim_revision_receipt) \<times> unit world_store" where
  "retracting i \<equiv> apply_revision ledger_env (ledger_call i) reviser retraction (utc_datetime 100)"

definition retracted_store :: "unit world_store" where
  "retracted_store = snd (retracting ''o'' claims_store)"

definition retraction_receipt :: claim_revision_receipt where
  "retraction_receipt = \<lparr>crr_claim_id = ''c'', crr_previous_revision = 1, crr_new_revision = 2, crr_mode = Retract,
     crr_evidence_set_id = ''evs_revision_0000'', crr_stale_refs = [(''c2'', 1)], crr_skipped_refs = [], crr_world_revision = 2\<rparr>"

lemma claims_committed: "\<exists>c. commit all_zones (\<lambda>_. ()) 10 claims_objects (request ''k'' 0) initial_store = (Inr c, claims_store)"
proof -
  have "\<not> isl (fst (commit all_zones (\<lambda>_. ()) 10 claims_objects (request ''k'' 0) initial_store))" by code_simp
  from answers [OF this] show ?thesis by (simp add: claims_store_def)
qed

lemma claims_inv: "world_inv (sv_zones ledger_env) claims_store"
proof -
  obtain c where "commit all_zones (\<lambda>_. ()) 10 claims_objects (request ''k'' 0) initial_store = (Inr c, claims_store)"
    using claims_committed by blast
  from world_inv_step [OF world_inv_initial step_commit [OF this]] show ?thesis by (simp add: ledger_env_def)
qed

lemma retracted: "retracting ''o'' claims_store = (Inr retraction_receipt, retracted_store)" "retracted_store \<noteq> claims_store"
proof -
  have run: "case retracting ''o'' claims_store of (r, st) \<Rightarrow> r = Inr retraction_receipt \<and> ws_world_revision st = Some (MetaInt 2)"
    by code_simp
  then show "retracting ''o'' claims_store = (Inr retraction_receipt, retracted_store)"
    by (auto simp: retracted_store_def split: prod.splits)
  have "ws_world_revision claims_store = Some (MetaInt 1)" by code_simp
  with run show "retracted_store \<noteq> claims_store" by (auto simp: retracted_store_def split: prod.splits)
qed

lemma retraction_pinned: "ref_revision (crq_target_ref retraction) = Some 1"
  by (simp add: retraction_def)

lemma retraction_plan:
  "\<exists>plan. plan_invalidation ledger_env (oref ''c'' (Some 1)) 100 ''r'' {''s''} claims_store = Inr plan
     \<and> iv_stale_refs plan = [(''c2'', 1)]"
proof -
  have "case plan_invalidation ledger_env (oref ''c'' (Some 1)) 100 ''r'' {''s''} claims_store of
      Inr plan \<Rightarrow> iv_stale_refs plan = [(''c2'', 1)] | Inl e \<Rightarrow> False" by code_simp
  then show ?thesis by (auto split: sum.splits)
qed

end
