(* ===== verification/Consequences.thy ===== *)
theory Consequences
  imports RuntimeExamples TurnExamples BudgetExamples WakeExamples PolicyExamples GroundingExamples RevisionExamples
begin

text \<open>
  Further consequences of the library: on replays and reads of the world store, the formats of
  late returns, metering, user turns, the budget gate, the wake bus, policies and revisions, each
  applied to a concrete run.
\<close>

text \<open>
  \<open>commit_or_replay\<close> recovers a request without its original operation id and
  revision: after the first application, a request with the same key and the same logical
  content returns the original result at every later time, whatever objects the caller
  derived anew, as long as no committed object had a typed reference in a free-form field.
\<close>
theorem exact_operation_replayed:
  assumes "world_inv zones st" and "objs \<noteq> []" and "\<forall>ob \<in> set objs. durable_object ob = ob"
    and "get_idempotent_result zones digest op objs st = Inr None"
    and "commit zones digest now objs op st = (Inr res, st')"
    and "world_steps zones digest st' st''"
  shows "commit_or_replay zones digest now' objs'
      (op\<lparr>op_operation_id := new_id, op_expected_world_revision := new_revision\<rparr>) st''
    = (Inr (res\<lparr>cr_idempotent_replay := True\<rparr>), st'')"
proof (rule exact_replay [OF assms(5,1,4,2,3,6) _ refl])
  let ?op = "(op\<lparr>op_operation_id := new_id, op_expected_world_revision := new_revision\<rparr>)
    \<lparr>op_operation_id := op_operation_id op, op_expected_world_revision := op_expected_world_revision op\<rparr>"
  have op: "?op = op" by simp
  show "normalize_operation ?op = Inr ?op" "request_identity_of ?op objs = request_identity_of op objs"
    unfolding op by (rule recorded [OF assms(5,4)], simp add: accepted_def, rule refl)
qed simp

lemma exact_operation_replayed_witness:
  "commit_or_replay all_zones id 99 [] (request ''k1'' 0\<lparr>op_operation_id := ''other'',
      op_expected_world_revision := 3\<rparr>) store3
    = (Inr (result1\<lparr>cr_idempotent_replay := True\<rparr>), store3)"
proof (rule exact_operation_replayed [OF world_inv_initial _ _ example_fresh1 example_commit1 example_steps(2)])
  show "objects1 \<noteq> []" by code_simp
  show "\<forall>ob \<in> set objects1. durable_object ob = ob" by code_simp
qed

text \<open>
  The source class is not part of a request's identity: the same request sent again
  with another source class (and a maintenance class where the contract asks for one) is
  answered as a replay, not refused as a changed request.
\<close>
theorem changed_source_class_replays:
  assumes "world_inv zones st" and "objs \<noteq> []" and "\<forall>ob \<in> set objs. durable_object ob = ob"
    and "get_idempotent_result zones digest op objs st = Inr None"
    and "commit zones digest now objs op st = (Inr res, st')"
    and "world_steps zones digest st' st''"
    and "op' = op\<lparr>op_source_class := sc, op_maintenance_class := mc\<rparr>"
    and "normalize_operation op' = Inr op'"
  shows "commit_or_replay zones digest now' objs' op' st'' = (Inr (res\<lparr>cr_idempotent_replay := True\<rparr>), st'')"
proof (rule exact_replay [OF assms(5,1,4,2,3,6) _ refl])
  have same: "op'\<lparr>op_operation_id := op_operation_id op,
      op_expected_world_revision := op_expected_world_revision op\<rparr> = op'"
    using assms(7) by simp
  show "normalize_operation (op'\<lparr>op_operation_id := op_operation_id op,
      op_expected_world_revision := op_expected_world_revision op\<rparr>) = Inr (op'\<lparr>op_operation_id := op_operation_id op,
      op_expected_world_revision := op_expected_world_revision op\<rparr>)"
    unfolding same by (rule assms(8))
qed (simp_all add: assms(7) request_identity_of_def)

lemma changed_source_class_replays_witness:
  "commit_or_replay all_zones id 99 [] (request ''k1'' 0\<lparr>op_source_class := SC_MAINTENANCE,
      op_maintenance_class := Some MC_INDEX_META\<rparr>) store3
    = (Inr (result1\<lparr>cr_idempotent_replay := True\<rparr>), store3)"
proof (rule changed_source_class_replays [OF world_inv_initial _ _ example_fresh1 example_commit1
      example_steps(2) refl])
  show "objects1 \<noteq> []" by code_simp
  show "\<forall>ob \<in> set objects1. durable_object ob = ob" by code_simp
qed code_simp

text \<open>
  A stored policy object has a complete version history: its version is its revision,
  its previous version is the one before, and the versions that \<open>previous_version\<close> and
  \<open>rollback_pointer\<close> name are older versions the store holds.
\<close>
theorem policy_versions_chain:
  assumes "world_steps zones digest initial_store st" and "r \<in> set (ws_revisions st)"
    and "rr_payload r = PayloadObject ob" and "wo_body ob = CognitivePolicy p"
  shows "cgp_version p = rr_revision r
    \<and> cgp_previous_version p = (if rr_revision r = 1 then None else Some (rr_revision r - 1))
    \<and> (\<forall>v \<in> set_option (cgp_previous_version p) \<union> set_option (cgp_rollback_pointer p).
         v < rr_revision r \<and> v \<in> set (object_versions st (rr_object_id r)))"
  using policy_history [OF commits.steps_inv [OF assms(1) world_inv_initial] assms(2-4)] by simp

lemma policy_versions_chain_witness:
  "cgp_version (policy_version 2 5) = 2 \<and> 1 \<in> set (object_versions policy_store2 ''p'')"
proof -
  let ?ob = "durable_object (plain_object ''p'' 2 (CognitivePolicy (policy_version 2 5)))"
  have p: "wo_body ?ob = CognitivePolicy (policy_version 2 5)" by code_simp
  show ?thesis
    using policy_versions_chain [OF policy_steps policy_row _ p]
    by (simp add: policy_version_def plain_object_def)
qed

text \<open>
  The present is a historical cut: listing the newest payloads and listing them as of
  the current world revision answer the same payloads (the two queries order them
  differently).
\<close>
theorem present_is_a_cut:
  assumes "world_inv zones st"
  shows "\<exists>now cut. list_payloads st t s None None = Inr now
    \<and> list_payloads st t s (Some (world_clock st)) None = Inr cut \<and> mset cut = mset now"
  using present_is_cut [OF assms] .

lemma present_is_a_cut_witness:
  "\<exists>now cut. list_payloads store2 None None None None = Inr now
    \<and> list_payloads store2 None None (Some (world_clock store2)) None = Inr cut \<and> mset cut = mset now"
  using present_is_a_cut [OF example_inv(2)] .

text \<open>
  The text of a proof is unambiguous: encoding accepts exactly the key ids and
  signatures the decoder accepts, decoding gives them back, and a decoded text is the
  encoding of its parts.
\<close>
theorem proof_text_roundtrip:
  "canonical_late_return_proof k s = Inr t \<longleftrightarrow> decode_late_return_proof t = Inr (k, s)"
  by (simp add: canonical_proof_Inr_iff decode_proof_Inr_iff)

text \<open>
  A verifier that passes validation is unchanged by it, its modulus text is what printing
  the modulus in hexadecimal gives, the modulus is odd and at least \<open>2 ^ 2047\<close>, the exponent
  is odd with \<open>3 \<le> e < n\<close>, and the key id has no delimiter.
\<close>
theorem verifier_bounds:
  assumes "validate_verifier v = Inr w"
  shows "w = v \<and> lv_modulus_hex v = hex_text (modulus_int v) \<and> odd (modulus_int v)
    \<and> 2 ^ 2047 \<le> modulus_int v \<and> 3 \<le> lv_public_exponent v \<and> odd (lv_public_exponent v)
    \<and> lv_public_exponent v < int (modulus_int v) \<and> CHR '':'' \<notin> set (lv_key_id v)"
  using assms bit_length_ge [of 2048 "modulus_int v"] key_id_no_colon
  unfolding validate_verifier_Inr_iff by auto

lemma verifier_bounds_witness: "2 ^ 2047 \<le> modulus_int ex_verifier \<and> odd (modulus_int ex_verifier)"
  using verifier_bounds [OF ex_verifier_valid] by simp

text \<open>
  A provider identity with surrounding whitespace is never adopted: the strict decoder
  accepts it, so a proven return with it can be made durable, but staging strips the
  identity it compares and attaching always fails.
\<close>
theorem padded_identity_never_adopted:
  assumes "late_response cd payload = Inr response" and "\<not> unpadded response"
  shows "\<exists>e. fst (attach_late_trusted_return cd k d payload proof_text evidence st) = Inl e"
  using attach_padded_fails [OF assms] .

lemma padded_identity_never_adopted_witness:
  "\<exists>e. fst (attach_late_trusted_return ex_codec ex_id (at_second 2) ''z'' ex_proof ''e'' (rd_attempts ex_db2)) = Inl e"
proof -
  have "py_strip '' p'' \<noteq> '' p''" by code_simp
  then have "\<not> unpadded (ex_response '' p'')" by (simp add: unpadded_def ex_response_def)
  from padded_identity_never_adopted [OF ex_late(3) this] show ?thesis .
qed

text \<open>
  Recording a call again is a replay: once a record was accepted, the same call recorded
  at any later time and world revision answers the first record and leaves the ledger as it
  is.
\<close>
theorem meter_replay_answers_first_record:
  assumes "runtime_inv cd db" and "meter_transaction r db = (Inr q, db1)" and "runtime_steps cd db1 db2"
    and "same_call r r'" and "mr_record_id r' = mr_record_id r" and "metering_fits r'"
  shows "\<exists>db3. meter_transaction r' db2 = (Inr q, db3) \<and> rd_metering db3 = rd_metering db2"
proof (rule meter_replayed [OF assms(1-3) _ assms(4-6)])
  have "meter_inv db1" using meter_transaction_inv [OF assms(2)] assms(1) by (simp add: runtime_inv_def)
  moreover have "attempt_inv cd (rd_attempts db1)"
    by (rule meter_transaction_attempts [OF assms(2)])
      (use assms(1) close_attempt_inv in \<open>auto simp: runtime_inv_def\<close>)
  ultimately show "runtime_inv cd db1" by (simp add: runtime_inv_def)
qed

lemma meter_replay_answers_first_record_witness:
  "\<exists>db3. meter_transaction (ex_meter\<lparr>mr_recorded_at := 9000000\<rparr>) ex_db5 = (Inr ex_meter, db3)
    \<and> rd_metering db3 = rd_metering ex_db5"
proof (rule meter_replay_answers_first_record [OF ex_inv4(2) ex_metered runtime_steps_refl])
  show "same_call ex_meter (ex_meter\<lparr>mr_recorded_at := 9000000\<rparr>)" by (simp add: same_call_def)
  show "metering_fits (ex_meter\<lparr>mr_recorded_at := 9000000\<rparr>)" using ex_meter_sel(6) by (simp add: metering_fits_def)
qed simp

text \<open>
  Once a dependency object is pruned, no new commit that contains a dependency is
  accepted any more: the graph check reads the tombstone as a corrupt dependency.
\<close>
theorem pruned_dependency_blocks_commits:
  assumes "world_inv zones st" and "prune now oid authz_ref reason st = (Inr u, st')"
    and "latest_object_type st oid = Some OT_DEPENDENCY"
    and "world_steps zones digest st' st''"
    and "get_idempotent_result zones digest op objs st'' = Inr None"
    and "\<exists>ob \<in> set objs. wo_object_type ob = OT_DEPENDENCY"
  shows "\<exists>e. commit zones digest now' objs op st'' = (Inl e, st'')"
proof (rule pruned_dependency_blocks [OF _ _ assms(4-6)])
  show "world_inv zones st'" using world_inv_prune [OF assms(1,2)] .
  show "dependency_pruned st'" using prune_dependency_pruned [OF assms(1,2)] assms(3) by simp
qed

lemma pruned_dependency_blocks_commits_witness:
  "\<exists>e. example_commit 99 [plain_object ''e'' 1 (depends ''b'' ''a'')] (request ''k5'' 3) store3
     = (Inl e, store3)"
  by (rule pruned_dependency_blocks_commits [OF example_inv(2) example_prune3 _
        rtranclp.rtrancl_refl]) code_simp+

text \<open>
  The first proven return wins: once a receipt is durable it and its exact bytes stay as
  they are, and attaching a payload with another response fails and changes nothing, even
  with a valid proof for it.
\<close>
theorem first_return_wins:
  assumes "runtime_inv cd db" and "receipt_row (rd_attempts db) k = Some r" and "runtime_steps cd db db'"
    and "late_response cd payload = Inr response" and "response \<noteq> rc_response r"
  shows "receipt_row (rd_attempts db') k = Some r
    \<and> handoff_row (rd_attempts db') k = handoff_row (rd_attempts db) k
    \<and> (\<exists>e. attach_late_trusted_return cd k d payload proof_text evidence (rd_attempts db') = (Inl e, rd_attempts db'))"
proof -
  note keep = receipt_permanent [OF assms(1,3,2)]
  have "attempt_inv cd (rd_attempts db')"
    using runtime_steps_inv [OF assms(3,1)] by (simp add: runtime_inv_def)
  with keep attach_other_return [OF _ keep(1) assms(4,5)] show ?thesis by blast
qed

lemma first_return_wins_witness:
  "\<exists>e. attach_late_trusted_return ex_codec ex_id (at_second 5) ''y'' ex_proof ''e'' (rd_attempts ex_db5)
    = (Inl e, rd_attempts ex_db5)"
proof -
  have "runtime_steps ex_codec ex_db3 ex_db5" using ex_steps4 ex_steps5 by (auto simp: runtime_steps_def)
  moreover have "ex_response ''q'' \<noteq> rc_response ex_receipt" by (simp add: ex_receipt_def ex_response_def)
  ultimately show ?thesis using first_return_wins [OF ex_inv3(2) ex_rows3(1) _ ex_late(2)] by blast
qed

text \<open>
  What is staged can always be recovered: for a staged response of a reachable database
  \<open>exact_response_directive\<close> passes all its checks and returns the directive the bytes decode
  to, whose fingerprint is the durable one.
\<close>
theorem staged_response_is_recoverable:
  assumes "runtime_steps cd empty_runtime db" and "staged_response (rd_attempts db) k = Some sg"
  shows "\<exists>d. exact_response_directive cd (rd_attempts db) k = Inr d
    \<and> decode_model_directive cd (sg_directive_payload sg) = Inr d
    \<and> response_fingerprint cd d = Inr (rp_response_fingerprint (sg_response sg))"
proof -
  have "attempt_inv cd (rd_attempts db)" using reachable_inv [OF assms(1)] by (simp add: runtime_inv_def)
  from staged_recoverable [OF this assms(2)] show ?thesis by metis
qed

lemma staged_response_is_recoverable_witness:
  "exact_response_directive ex_codec (rd_attempts ex_db4) ex_id = Inr (ex_directive ''p'')"
  using staged_response_is_recoverable [OF ex_reach4 ex_staged4] ex_decode(1) by (simp add: ex_staged_def)

text \<open>
  What \<open>inspect\<close> says about a retry is what \<open>authorize_retry\<close> does, called with evidence:
  a turn reported as safe to retry is authorized, and only a turn reported so, or already
  authorized, can be.
\<close>
theorem inspection_agrees_with_authorization:
  assumes "inspect_turn cd q db = Inr s" and "\<not> blank evidence"
  shows "(ts_recovery_disposition s = SafeToRetry \<longrightarrow> (\<exists>t. fst (authorize_retry cd q evidence db) = Inr t))
    \<and> ((\<exists>t. fst (authorize_retry cd q evidence db) = Inr t)
       \<longrightarrow> ts_recovery_disposition s \<in> {SafeToRetry, RetryAuthorized})"
  using inspect_retry [OF assms] .

lemma inspection_agrees_with_authorization_witness:
  "\<nexists>t. fst (authorize_retry ex_codec ex_turn ''e'' (ex_turns ex_db4)) = Inr t"
proof -
  obtain s where "inspect_turn ex_codec ex_turn (ex_turns ex_db4) = Inr s"
    "ts_recovery_disposition s = ExactResponseReady" by (rule ex_inspect4)
  moreover have "\<not> blank ''e''" by code_simp
  ultimately show ?thesis using inspection_agrees_with_authorization by fastforce
qed

text \<open>
  A turn reported as ready with an exact response can be resumed: the recovery is
  authorized, the staged bytes of its newest round decode to the directive of the reply, and
  no run is granted by it.
\<close>
theorem exact_response_resumes:
  assumes "reachable_turns zones digest cd db" and "inspect_turn cd q db = Inr s"
    and "ts_recovery_disposition s = ExactResponseReady" and "\<not> blank evidence"
  shows "\<exists>t db' i d. authorize_exact_response_recovery cd q evidence db = (Inr t, db')
    \<and> staged_exact_response_attempt_id cd db (tq_key q) = Some i
    \<and> exact_response_directive cd (rd_attempts (td_runtime db')) i = Inr d
    \<and> \<not> ts_retry_authorized t \<and> (\<exists>e. claim cd q db' = (Inl e, db'))"
proof -
  obtain t db' where run: "authorize_exact_response_recovery cd q evidence db = (Inr t, db')"
    using ready_recovers [OF assms(1,4,2,3)] by blast
  show ?thesis by (rule exact_recovery_resumes [OF assms(1) run]) (use run in blast)
qed

lemma exact_response_resumes_witness:
  "\<exists>t db'. authorize_exact_response_recovery ex_codec ex_turn ''e'' (ex_turns ex_db4) = (Inr t, db')"
proof -
  obtain s where s: "inspect_turn ex_codec ex_turn (ex_turns ex_db4) = Inr s"
    "ts_recovery_disposition s = ExactResponseReady" by (rule ex_inspect4)
  have "\<not> blank ''e''" by code_simp
  from exact_response_resumes [OF ex_turns_reachable [OF ex_reach4] s this] show ?thesis by blast
qed

text \<open>
  A pruned wake stops the gate: the payload of a tombstone is no wake, so once any wake of
  the subject is pruned, every evaluation of an autonomous wake under a daily policy and every
  status raises instead of answering.
\<close>
theorem pruned_wake_blocks_gate:
  assumes "prune t oid a reason st = (Inr u, st')" and "latest_row st oid = Some r"
    and "rr_object_type r = OT_WAKE" and "policies env (rr_subject_id r) st' = Inr xs" and "xs \<noteq> []"
    and "autonomous_wake (snd x)" and "wak_wake_state (snd x) \<noteq> WK_RUNNING"
  shows "(\<exists>e. evaluate_budget env (rr_subject_id r) st' rt x now rounds full = Inl e)
    \<and> (\<exists>e. budget_status_of env (rr_subject_id r) st' rt now = Inl e)"
  using pruned_wake_fails [OF assms] pruned_wake_status [OF assms(1-5)] by (metis sum.exhaust)

lemma pruned_wake_blocks_gate_witness:
  "(\<exists>d. ex_evaluate budget_store = Inr d) \<and> (\<exists>e. ex_evaluate budget_store_pruned = Inl e)"
proof
  show "\<exists>d. ex_evaluate budget_store = Inr d" using ex_granted by (auto split: sum.splits)
  obtain r where r: "latest_row budget_store ''w1'' = Some r" "rr_object_type r = OT_WAKE" "rr_subject_id r = ''s''"
    by (rule ex_wake_row)
  have "autonomous_wake (snd ex_queued)" "wak_wake_state (snd ex_queued) \<noteq> WK_RUNNING" by code_simp+
  with pruned_wake_blocks_gate [OF ex_prune_wake r(1,2) ex_policies(2) [folded r(3)]]
  have "\<exists>e. evaluate_budget ex_env (rr_subject_id r) budget_store_pruned empty_runtime ex_queued
      (utc_datetime 30) 4 False = Inl e" by blast
  then show "\<exists>e. ex_evaluate budget_store_pruned = Inl e" by (simp only: r(3))
qed

text \<open>
  A signal with a padded rule or key is never recognised: the wake stores them stripped and
  the bus looks for them as they came, so every such signal opens a new wake instead of merging,
  and repeating one raises instead of answering the wake it created.
\<close>
theorem padded_signal_never_merges:
  assumes "world_inv (sv_zones env) st" and "all_stripped st" and "padded q" and "inj (sv_digest env)"
    and "emit env ck subject q st = (Inr r, st')" and "st' \<noteq> st"
  shows "(\<exists>i ob op. plan_emission env ck subject q st = Inr (Creates i ob op))
    \<and> (\<exists>e. emit env ck' subject q st' = (Inl e, st'))"
proof -
  obtain e where "plan_emission env ck subject q st = Inr e"
    using assms(5) by (cases "plan_emission env ck subject q st") (simp_all add: emit_def)
  with padded_creates [OF assms(1-3)] padded_retry_fails [OF assms rtranclp.rtrancl_refl] show ?thesis by metis
qed

lemma padded_signal_never_merges_witness: "\<exists>e. ex_emit 7 '' r'' 100 padded_store = (Inl e, padded_store)"
proof -
  obtain r where r: "ex_emit 1 '' r'' 100 store1 = (Inr r, padded_store)" "padded_store \<noteq> store1"
    by (rule ex_emitted_padded)
  have "padded (ex_signal '' r'' 100)" by code_simp
  from padded_signal_never_merges [OF ex_service_world(1) ex_no_wakes this ex_service_world(2)
      r(1) [unfolded ex_emit_def] r(2), of "ex_call 7"]
  show ?thesis by (auto simp: ex_emit_def)
qed

text \<open>
  The step-0 gate, field by field: what a wake may do is exactly this combination of its
  attention class and the flags of the gate, and a user is only ever reached by an interrupt
  that nothing blocks.
\<close>
theorem step0_rules:
  "s0_model_allowed (evaluate_step0 env x (Some g)) =
     (attention_class_for_wake env x \<noteq> AC_REVIEW_QUEUE \<and> s0_cognition_allowed g \<and> s0_budget_available g
      \<and> \<not> safety_pending x g)
   \<and> s0_action_allowed (evaluate_step0 env x (Some g)) =
     (s0_model_allowed (evaluate_step0 env x (Some g)) \<and> s0_external_action_allowed g \<and> \<not> s0_hard_blocked g)
   \<and> s0_delivery_allowed (evaluate_step0 env x (Some g)) =
     (s0_model_allowed (evaluate_step0 env x (Some g)) \<and> attention_class_for_wake env x = AC_INTERRUPT
      \<and> \<not> s0_hard_blocked g \<and> s0_user_delivery_allowed g \<and> s0_channel_allowed g \<and> s0_convenience_allowed g)
   \<and> (s0_state (evaluate_step0 env x (Some g)) \<noteq> S0_HARD_BLOCK) =
     (\<not> s0_hard_blocked g \<and> s0_cognition_allowed g \<and> s0_budget_available g \<and> \<not> safety_pending x g)
   \<and> (s0_state (evaluate_step0 env x (Some g)) = S0_OK) =
     (attention_class_for_wake env x = AC_INTERRUPT \<and> s0_model_allowed (evaluate_step0 env x (Some g))
      \<and> \<not> s0_hard_blocked g \<and> s0_user_delivery_allowed g \<and> s0_channel_allowed g \<and> s0_convenience_allowed g)"
  unfolding step0_model step0_action step0_delivery step0_state_of
  by (cases "attention_class_for_wake env x") auto

text \<open>
  A rollback restores the value of the version it names, as the next version of the policy,
  pointing to that version and carrying the evidence of the request.
\<close>
theorem rollback_restores_value:
  assumes "world_inv (sv_zones env) st" and "rollback_policy env ck subject q t ai st = (r, st')" and "st' \<noteq> st"
  shows "\<exists>x y c. latest_policy env subject (rbr_policy_id q) st = Inr (Some x)
    \<and> get_policy env subject (rbr_policy_id q) (rbr_target_version q) st = Inr (Some y)
    \<and> policy_now st' (wo_object_id (fst x)) = Some c \<and> cgp_current_value c = cgp_current_value (snd y)
    \<and> cgp_version c = cgp_version (snd x) + 1 \<and> cgp_rollback_pointer c = Some (cgp_version (snd y))
    \<and> cgp_evidence_refs c = rbr_evidence_refs q"
  by (rule rollback_restores [OF assms]) blast

lemma rollback_restores_value_witness:
  "\<exists>x y c. latest_policy ledger_env ''s'' ''p'' ledger2 = Inr (Some x) \<and> get_policy ledger_env ''s'' ''p'' 1 ledger2 = Inr (Some y)
    \<and> policy_now (snd (ledger_does ''l4'' (RollsBack threshold_rollback) 900 True ledger2)) (wo_object_id (fst x)) = Some c
    \<and> cgp_current_value c = cgp_current_value (snd y)"
proof -
  have "world_inv (sv_zones ledger_env) ledger2" using ledger_inv(3) by (simp add: ledger_env_def)
  from rollback_restores_value [OF this surjective_pairing, of "ledger_call ''l4''" "''s''" threshold_rollback "utc_datetime 900" True]
    ledger_rolled_back show ?thesis by (auto simp: threshold_rollback_def)
qed

text \<open>
  Repeating a registration as an operator always raises, and never with the message that the
  policy exists: the replay of the first receipt is reached before that check and rejects its own
  operation.
\<close>
theorem repeated_operator_registration_raises:
  assumes "policy_object_id env subject (py_strip (pcr_policy_id q)) = Inr oid" and "read_payload st oid None = Inr p"
  shows "\<exists>e. register_policy env ck subject q t False st = (Inl e, st) \<and> e \<noteq> SvValue ''policy already registered''"
  using operator_registration_repeated [OF assms] .

lemma repeated_operator_registration_raises_witness:
  "\<exists>e. register_policy ledger_env (ledger_call ''o2'') ''s'' (threshold_request []) (utc_datetime 200) False operator_ledger
    = (Inl e, operator_ledger) \<and> e \<noteq> SvValue ''policy already registered''"
proof -
  obtain i p where "policy_object_id ledger_env ''s'' ''p'' = Inr i" "read_payload operator_ledger i None = Inr p"
    using operator_readable by blast
  moreover have "py_strip (pcr_policy_id (threshold_request [])) = ''p''" by code_simp
  ultimately show ?thesis by (intro repeated_operator_registration_raises [of _ _ _ i _ p]) simp_all
qed

text \<open>
  When evidence of an effective policy is pruned, reading its value raises a key error
  instead of answering the default.
\<close>
theorem pruned_evidence_breaks_value:
  assumes "world_inv (sv_zones env) st" and "latest_policy env subject i st = Inr (Some x)"
    and "is_effective env subject st x = Inr True" and "prune now oid a why st = (Inr u, st')"
    and "oid \<in> ref_object_id ` set (cgp_evidence_refs (snd x))" and "oid \<noteq> wo_object_id (fst x)"
  shows "effective_value env subject i d st' = Inl (SvKey ''revision'')"
  using pruned_evidence_value [OF assms] .

lemma pruned_evidence_breaks_value_witness:
  "effective_value ledger_env ''s'' ''p'' (PInt 3) ledger_pruned = Inl (SvKey ''revision'')"
proof -
  have inv: "world_inv (sv_zones ledger_env) ledger1" using ledger_inv(2) by (simp add: ledger_env_def)
  obtain x where "latest_policy ledger_env ''s'' ''p'' ledger1 = Inr (Some x)" "is_effective ledger_env ''s'' ledger1 x = Inr True"
    "''a'' \<in> ref_object_id ` set (cgp_evidence_refs (snd x))" "''a'' \<noteq> wo_object_id (fst x)" using ledger1_effective by blast
  then show ?thesis using pruned_evidence_breaks_value [OF inv _ _ ledger_pruned_run] by blast
qed

end
