(* ===== verification/Capabilities.thy ===== *)
theory Capabilities
  imports Directives
begin

text \<open>
  runtime/capabilities.py: the registry of what a model may call. A handler is code outside
  the registry: it takes the arguments and the world it acts on and answers a value or raises.
  \<open>str\<close> and \<open>repr\<close> of a Python value belong to the Python runtime and are fields of the
  environment.
\<close>

record text_env =
  te_str :: "pyval \<Rightarrow> string"
  te_repr :: "pyval \<Rightarrow> string"

text \<open>The exceptions the runtime tells apart; the last one is not an \<open>Exception\<close> (an interrupt).\<close>

datatype raised =
    RaisedTypeError string
  | RaisedNotSubmitted string
  | RaisedValueError string
  | RaisedAssertion string
  | RaisedOther string string
  | RaisedInterrupt string

type_synonym ('w, 'a) effect = "'w \<Rightarrow> (raised + 'a) \<times> 'w"

definition eff_return :: "'a \<Rightarrow> ('w, 'a) effect" where
  "eff_return x = (\<lambda>w. (Inr x, w))"

definition eff_raise :: "raised \<Rightarrow> ('w, 'a) effect" where
  "eff_raise e = (\<lambda>w. (Inl e, w))"

definition eff_bind :: "('w, 'a) effect \<Rightarrow> ('a \<Rightarrow> ('w, 'b) effect) \<Rightarrow> ('w, 'b) effect" where
  "eff_bind m f = (\<lambda>w. case m w of (Inl e, w') \<Rightarrow> (Inl e, w') | (Inr x, w') \<Rightarrow> f x w')"

section \<open>Specifications\<close>

datatype capability_kind = CK_READ | CK_WRITE | CK_ACTION | CK_RESPONSE

primrec capability_kind_value :: "capability_kind \<Rightarrow> string" where
  "capability_kind_value CK_READ = ''read''"
| "capability_kind_value CK_WRITE = ''write''"
| "capability_kind_value CK_ACTION = ''action''"
| "capability_kind_value CK_RESPONSE = ''response''"

definition continuity_write_capabilities :: "string set" where
  "continuity_write_capabilities = {''commit_ai_world_claim'', ''commit_claim'', ''revise_claim'',
     ''retract_claim'', ''record_ai_promise'', ''propose_goal'', ''create_task''}"

record capability_spec =
  cs_name :: string
  cs_description :: string
  cs_kind :: capability_kind
  cs_input_schema :: pydict
  cs_hard_boundary :: bool
  cs_side_effecting :: bool

text \<open>The dataclass constructor: a write or an action always has side effects.\<close>

definition post_init_spec :: "capability_spec \<Rightarrow> raised + capability_spec" where
  "post_init_spec s = raising
     [(blank (cs_name s), RaisedValueError ''capability name must be non-blank''),
      (blank (cs_description s), RaisedValueError ''capability description must be non-blank'')]
     (if cs_kind s \<in> {CK_WRITE, CK_ACTION} \<and> \<not> cs_side_effecting s then s\<lparr>cs_side_effecting := True\<rparr> else s)"

definition normalized_signature :: "text_env \<Rightarrow> capability_call \<Rightarrow> string \<times> (string \<times> string) list" where
  "normalized_signature te c = (cc_name c, sort (map (\<lambda>(k, v). (k, te_repr te v)) (cc_arguments c)))"

record capability_result =
  cap_name :: string
  cap_ok :: bool
  cap_data :: pyval
  cap_error_code :: "string option"
  cap_error_message :: "string option"
  cap_call_id :: "string option"

definition capability_error :: "capability_call \<Rightarrow> string \<Rightarrow> string \<Rightarrow> capability_result" where
  "capability_error c code message = \<lparr>cap_name = cc_name c, cap_ok = False, cap_data = PNone,
     cap_error_code = Some code, cap_error_message = Some message, cap_call_id = cc_call_id c\<rparr>"

section \<open>The declared arguments\<close>

definition has_suffix :: "string \<Rightarrow> string \<Rightarrow> bool" where
  "has_suffix s t \<longleftrightarrow> length t \<le> length s \<and> drop (length s - length t) s = t"

definition before_semicolon :: "string \<Rightarrow> string" where
  "before_semicolon s = takeWhile (\<lambda>c. c \<noteq> CHR '';'') s"

definition argument_shorthand :: "string \<Rightarrow> string option" where
  "argument_shorthand s =
     (if s = ''array[{object_id:string,revision:integer}]'' then Some ''[{object_id,revision}]''
      else if s = ''{object_id:string,revision:integer}'' then Some ''{object_id,revision}'' else None)"

definition short_type :: "string \<Rightarrow> string" where
  "short_type s = (case argument_shorthand s of Some t \<Rightarrow> t
     | None \<Rightarrow> if length s \<le> 24 then s else take 21 s @ ''...'')"

definition required_arguments :: "text_env \<Rightarrow> pydict \<Rightarrow> (string \<times> string) list" where
  "required_arguments te schema = List.map_filter (\<lambda>(name, t).
     let s = py_strip (before_semicolon (te_str te t)) in
     if has_suffix s ''?'' then None else Some (name, short_type s)) schema"

definition joined :: "string \<Rightarrow> string list \<Rightarrow> string" where
  "joined sep xs = (case xs of [] \<Rightarrow> [] | y # ys \<Rightarrow> y @ concat (map (\<lambda>z. sep @ z) ys))"

definition argument_error_message :: "text_env \<Rightarrow> capability_call \<Rightarrow> capability_spec \<Rightarrow> string \<Rightarrow> string" where
  "argument_error_message te c s message =
     (let schema = cs_input_schema s;
          required = map fst (filter (\<lambda>(name, t). \<not> has_suffix (te_str te t) ''?'') schema);
          optional = map fst (filter (\<lambda>(name, t). has_suffix (te_str te t) ''?'') schema);
          unexpected = sort (filter (\<lambda>k. k \<notin> set (map fst schema)) (map fst (cc_arguments c)))
      in joined ''. '' ([message]
        @ (if unexpected = [] then [] else [''unrecognized argument(s): '' @ joined '', '' unexpected])
        @ (if required = [] then [] else [''required arguments: '' @ joined '', '' required])
        @ (if optional = [] then [] else [''optional arguments: '' @ joined '', '' optional])))"

section \<open>The registry\<close>

record 'w registered =
  rg_spec :: capability_spec
  rg_handler :: "pydict \<Rightarrow> ('w, pyval) effect"

text \<open>The items in the order of their registration.\<close>

type_synonym 'w registry = "(string \<times> 'w registered) list"

definition register ::
    "capability_spec \<Rightarrow> (pydict \<Rightarrow> ('w, pyval) effect) \<Rightarrow> 'w registry \<Rightarrow> raised + 'w registry" where
  "register s h items = (if cs_name s \<in> set (map fst items)
     then Inl (RaisedValueError (''capability already registered: '' @ cs_name s))
     else Inr (items @ [(cs_name s, \<lparr>rg_spec = s, rg_handler = h\<rparr>)]))"

definition unregister :: "string \<Rightarrow> 'w registry \<Rightarrow> 'w registry" where
  "unregister name items = filter (\<lambda>x. fst x \<noteq> name) items"

definition get_spec :: "string \<Rightarrow> 'w registry \<Rightarrow> capability_spec option" where
  "get_spec name items = map_option rg_spec (map_of items name)"

definition catalog_entry :: "text_env \<Rightarrow> capability_spec \<Rightarrow> pydict" where
  "catalog_entry te s =
     [(''description'', PStr (cs_description s)), (''hard_boundary'', PBool (cs_hard_boundary s)),
      (''input_schema'', PDict (cs_input_schema s)), (''kind'', PStr (capability_kind_value (cs_kind s))),
      (''name'', PStr (cs_name s)), (''side_effecting'', PBool (cs_side_effecting s))]
     @ (if cs_name s \<in> continuity_write_capabilities
        then [(''required_args'', PDict (map (\<lambda>(k, v). (k, PStr v)) (required_arguments te (cs_input_schema s))))]
        else [])"

definition catalog :: "text_env \<Rightarrow> 'w registry \<Rightarrow> pydict list" where
  "catalog te items = map (\<lambda>x. catalog_entry te (rg_spec (snd x))) (sort_key fst items)"

definition exception_text :: "raised \<Rightarrow> string" where
  "exception_text e = (case e of
     RaisedTypeError m \<Rightarrow> ''TypeError: '' @ m
   | RaisedNotSubmitted m \<Rightarrow> ''ModelDispatchNotSubmitted: '' @ m
   | RaisedValueError m \<Rightarrow> ''ValueError: '' @ m
   | RaisedAssertion m \<Rightarrow> ''AssertionError: '' @ m
   | RaisedOther k m \<Rightarrow> k @ '': '' @ m
   | RaisedInterrupt m \<Rightarrow> m)"

text \<open>A handler that raises becomes a result the model can read; only an interrupt goes through.\<close>

definition invoke_capability ::
    "text_env \<Rightarrow> 'w registry \<Rightarrow> capability_call \<Rightarrow> ('w, capability_result) effect" where
  "invoke_capability te items c = (case map_of items (cc_name c) of
     None \<Rightarrow> eff_return (capability_error c ''CAPABILITY_NOT_FOUND'' (''unknown capability: '' @ cc_name c))
   | Some item \<Rightarrow> (\<lambda>w. case rg_handler item (cc_arguments c) w of
        (Inr v, w') \<Rightarrow> (Inr \<lparr>cap_name = cc_name c, cap_ok = True, cap_data = v, cap_error_code = None,
            cap_error_message = None, cap_call_id = cc_call_id c\<rparr>, w')
      | (Inl (RaisedInterrupt m), w') \<Rightarrow> (Inl (RaisedInterrupt m), w')
      | (Inl (RaisedTypeError m), w') \<Rightarrow> (Inr (capability_error c ''CAPABILITY_ARGUMENT_ERROR''
            (argument_error_message te c (rg_spec item) m)), w')
      | (Inl e, w') \<Rightarrow> (Inr (capability_error c ''CAPABILITY_EXECUTION_ERROR'' (exception_text e)), w')))"

section \<open>Facts\<close>

lemma eff_simps [simp]:
  "eff_return x w = (Inr x, w)" "eff_raise e w = (Inl e, w)"
  by (simp_all add: eff_return_def eff_raise_def)

lemma eff_bind_Inr: "m w = (Inr x, w') \<Longrightarrow> eff_bind m f w = f x w'"
  by (simp add: eff_bind_def)

lemma eff_bind_Inl: "m w = (Inl e, w') \<Longrightarrow> eff_bind m f w = (Inl e, w')"
  by (simp add: eff_bind_def)

lemma eff_bind_cases:
  assumes "eff_bind m f w = (r, w')"
  obtains (Raised) e where "m w = (Inl e, w')" "r = Inl e"
  | (Returned) x v where "m w = (Inr x, v)" "f x v = (r, w')"
proof (cases "m w")
  case (Pair r' v)
  then show ?thesis using assms that by (cases r') (auto simp: eff_bind_def)
qed

text \<open>A write or an action that is registered through the constructor has side effects.\<close>

lemma post_init_effects: "post_init_spec s = Inr t \<Longrightarrow> cs_kind t \<in> {CK_WRITE, CK_ACTION} \<Longrightarrow> cs_side_effecting t"
  by (auto simp: post_init_spec_def split: if_splits)

lemma register_get:
  assumes "register s h items = Inr items'"
  shows "get_spec name items' = (if name = cs_name s then Some s else get_spec name items)"
proof -
  have new: "map_of items (cs_name s) = None" "items' = items @ [(cs_name s, \<lparr>rg_spec = s, rg_handler = h\<rparr>)]"
    using assms by (auto simp: register_def map_of_eq_None_iff split: if_splits)
  then show ?thesis by (auto simp: get_spec_def map_add_def split: option.splits)
qed

lemma register_keeps: "register s h items = Inr items' \<Longrightarrow> distinct (map fst items) \<Longrightarrow> distinct (map fst items')"
  by (auto simp: register_def split: if_splits)

lemma unregister_get: "get_spec name (unregister k items) = (if name = k then None else get_spec name items)"
proof -
  have "map_of (filter (\<lambda>x. fst x \<noteq> k) items) name = (if name = k then None else map_of items name)"
    by (induction items) auto
  then show ?thesis by (simp add: unregister_def get_spec_def)
qed

end
