(* ===== verification/CognitiveLoop.thy ===== *)
theory CognitiveLoop
  imports Capabilities
begin

text \<open>
  runtime/cognitive_runtime.py: one turn of the resident model. Each round builds a snapshot,
  takes a recovered reply or admits, dispatches and calls the model, and then executes the
  capability calls of the reply within the budgets. The model, the recorders and the authorizer are
  callables the runtime is constructed with: effects on a world of any type. What a callable
  notes on the snapshot of a round (the attempt and the relay) is what it answers. No callable changes the registry.
\<close>

section \<open>Snapshots, results, the runtime\<close>

record runtime_snapshot =
  sn_user_input :: string
  sn_wake_reason :: string
  sn_cockpit :: pydict
  sn_capability_catalog :: "pydict list"
  sn_capability_history :: "capability_result list"
  sn_round_index :: int
  sn_remaining_tool_rounds :: int
  sn_model_attempt_id :: "string option"
  sn_outbound_relay_id :: "string option"

record runtime_turn_result =
  tr_response :: "string option"
  tr_silenced :: bool
  tr_capability_history :: "capability_result list"
  tr_model_rounds :: int
  tr_termination_reason :: string
  tr_model_input_tokens :: "int option"
  tr_model_output_tokens :: "int option"
  tr_model_total_tokens :: "int option"
  tr_model_usage_complete :: bool
  tr_recovered_response_attempts :: "string list"

text \<open>A model handler that answers something else than a directive answers \<open>None\<close>; the same of a recovery.\<close>

datatype recovery = NoReply | RecoveredReply string model_directive | NotAReply

record 'w cognitive_runtime =
  cr_registry :: "'w registry"
  cr_model_handler :: "runtime_snapshot \<Rightarrow> ('w, model_directive option) effect"
  cr_max_tool_rounds :: int
  cr_max_total_capability_calls :: int
  cr_repeated_call_limit :: int
  cr_side_effect_authorizer ::
    "(capability_spec \<Rightarrow> capability_call \<Rightarrow> runtime_snapshot \<Rightarrow> ('w, bool) effect) option"
  cr_model_usage_recorder :: "(runtime_snapshot \<Rightarrow> model_directive \<Rightarrow> ('w, unit) effect) option"
  cr_model_attempt_admitter :: "(runtime_snapshot \<Rightarrow> ('w, string option) effect) option"
  cr_model_dispatch_recorder :: "(runtime_snapshot \<Rightarrow> ('w, string option) effect) option"
  cr_model_response_recorder :: "(runtime_snapshot \<Rightarrow> model_directive \<Rightarrow> ('w, unit) effect) option"
  cr_model_failure_recorder :: "(runtime_snapshot \<Rightarrow> raised \<Rightarrow> bool \<Rightarrow> ('w, unit) effect) option"
  cr_model_response_recovery :: "(runtime_snapshot \<Rightarrow> ('w, recovery) effect) option"

definition construct_runtime :: "'w cognitive_runtime \<Rightarrow> raised + 'w cognitive_runtime" where
  "construct_runtime rt = raising
     [(cr_max_tool_rounds rt < 0, RaisedValueError ''max_tool_rounds must be >= 0''),
      (cr_max_total_capability_calls rt < 1, RaisedValueError ''max_total_capability_calls must be >= 1''),
      (cr_repeated_call_limit rt < 1, RaisedValueError ''repeated_call_limit must be >= 1'')] rt"

text \<open>What a turn accumulates.\<close>

record turn_locals =
  tl_history :: "capability_result list"
  tl_signatures :: "(string \<times> (string \<times> string) list) \<Rightarrow> int"
  tl_total_calls :: int
  tl_usages :: "model_usage list"
  tl_usage_complete :: bool
  tl_recovered :: "string list"

definition fresh_locals :: turn_locals where
  "fresh_locals = \<lparr>tl_history = [], tl_signatures = (\<lambda>_. 0), tl_total_calls = 0, tl_usages = [],
     tl_usage_complete = True, tl_recovered = []\<rparr>"

definition reported_tokens :: "model_usage list \<Rightarrow> (model_usage \<Rightarrow> int option) \<Rightarrow> int" where
  "reported_tokens us f = sum_list (map (\<lambda>u. case f u of None \<Rightarrow> 0 | Some n \<Rightarrow> n) us)"

definition turn_result ::
    "turn_locals \<Rightarrow> string option \<Rightarrow> bool \<Rightarrow> int \<Rightarrow> string \<Rightarrow> runtime_turn_result" where
  "turn_result l response silenced rounds reason =
     (let us = tl_usages l; complete = tl_usage_complete l \<and> int (length us) = rounds
      in \<lparr>tr_response = response, tr_silenced = silenced, tr_capability_history = tl_history l,
          tr_model_rounds = rounds, tr_termination_reason = reason,
          tr_model_input_tokens = (if complete \<and> list_all (\<lambda>u. mu_input_tokens u \<noteq> None) us
            then Some (reported_tokens us mu_input_tokens) else None),
          tr_model_output_tokens = (if complete \<and> list_all (\<lambda>u. mu_output_tokens u \<noteq> None) us
            then Some (reported_tokens us mu_output_tokens) else None),
          tr_model_total_tokens = (if complete then Some (sum_list (map mu_total_tokens us)) else None),
          tr_model_usage_complete = complete, tr_recovered_response_attempts = tl_recovered l\<rparr>)"

section \<open>Capability calls\<close>

definition note_result :: "capability_result \<Rightarrow> turn_locals \<Rightarrow> turn_locals" where
  "note_result r l = l\<lparr>tl_history := tl_history l @ [r], tl_total_calls := tl_total_calls l + 1\<rparr>"

definition execute_call ::
    "text_env \<Rightarrow> 'w cognitive_runtime \<Rightarrow> capability_call \<Rightarrow> turn_locals \<Rightarrow> ('w, turn_locals) effect" where
  "execute_call te rt c l = eff_bind (invoke_capability te (cr_registry rt) c) (\<lambda>r. eff_return (note_result r l))"

definition refuse_call :: "capability_call \<Rightarrow> turn_locals \<Rightarrow> ('w, turn_locals) effect" where
  "refuse_call c l = eff_return (note_result (capability_error c ''CAPABILITY_NOT_AUTHORIZED''
     ''side-effecting capability requires an explicit runtime authorizer'') l)"

text \<open>One requested call: blocked by the loop guard, refused, or executed.\<close>

definition perform_call ::
    "text_env \<Rightarrow> 'w cognitive_runtime \<Rightarrow> runtime_snapshot \<Rightarrow> capability_call \<Rightarrow> turn_locals
      \<Rightarrow> ('w, turn_locals) effect" where
  "perform_call te rt sn c l =
     (let signature = normalized_signature te c; seen = tl_signatures l signature in
      if cr_repeated_call_limit rt \<le> seen then
        eff_return (l\<lparr>tl_history := tl_history l @ [capability_error c ''REPEATED_CAPABILITY_CALL_BLOCKED''
          ''same capability call repeated beyond runtime loop guard; change query path or terminate'']\<rparr>)
      else
        let l1 = l\<lparr>tl_signatures := (tl_signatures l)(signature := seen + 1)\<rparr>
        in case get_spec (cc_name c) (cr_registry rt) of
             None \<Rightarrow> execute_call te rt c l1
           | Some s \<Rightarrow> if \<not> cs_side_effecting s then execute_call te rt c l1
               else (case cr_side_effect_authorizer rt of
                   None \<Rightarrow> refuse_call c l1
                 | Some ask \<Rightarrow> eff_bind (ask s c sn) (\<lambda>allowed.
                     if allowed then execute_call te rt c l1 else refuse_call c l1)))"

text \<open>The calls of one reply; \<open>True\<close> when the call budget ran out before the last one.\<close>

fun perform_calls ::
    "text_env \<Rightarrow> 'w cognitive_runtime \<Rightarrow> runtime_snapshot \<Rightarrow> capability_call list \<Rightarrow> turn_locals
      \<Rightarrow> ('w, bool \<times> turn_locals) effect" where
  "perform_calls te rt sn [] l = eff_return (False, l)"
| "perform_calls te rt sn (c # cs) l =
     (if cr_max_total_capability_calls rt \<le> tl_total_calls l then eff_return (True, l)
      else eff_bind (perform_call te rt sn c l) (perform_calls te rt sn cs))"

section \<open>The reply of a round\<close>

definition with_optional :: "'c option \<Rightarrow> 'a \<Rightarrow> ('c \<Rightarrow> ('w, 'a) effect) \<Rightarrow> ('w, 'a) effect" where
  "with_optional c x f = (case c of None \<Rightarrow> eff_return x | Some g \<Rightarrow> f g)"

text \<open>An \<open>Exception\<close> of the model is reported to the failure recorder and raised again.\<close>

definition call_model ::
    "'w cognitive_runtime \<Rightarrow> runtime_snapshot \<Rightarrow> ('w, model_directive) effect" where
  "call_model rt sn w =
     (let fail = (\<lambda>e not_submitted. eff_bind (with_optional (cr_model_failure_recorder rt) ()
            (\<lambda>f. f sn e not_submitted)) (\<lambda>_. eff_raise e))
      in case cr_model_handler rt sn w of
        (Inr (Some d), w') \<Rightarrow> (Inr d, w')
      | (Inr None, w') \<Rightarrow> fail (RaisedTypeError ''model_handler must return ModelDirective'') False w'
      | (Inl (RaisedInterrupt m), w') \<Rightarrow> (Inl (RaisedInterrupt m), w')
      | (Inl (RaisedNotSubmitted m), w') \<Rightarrow> fail (RaisedNotSubmitted m) True w'
      | (Inl e, w') \<Rightarrow> fail e False w')"

definition fresh_reply ::
    "'w cognitive_runtime \<Rightarrow> runtime_snapshot \<Rightarrow> ('w, runtime_snapshot \<times> model_directive) effect" where
  "fresh_reply rt sn =
     eff_bind (with_optional (cr_model_attempt_admitter rt) None (\<lambda>f. f sn)) (\<lambda>attempt.
     let sn1 = (case attempt of None \<Rightarrow> sn | Some i \<Rightarrow> sn\<lparr>sn_model_attempt_id := Some i\<rparr>) in
     eff_bind (with_optional (cr_model_dispatch_recorder rt) None (\<lambda>f. f sn1)) (\<lambda>relay.
     let sn2 = sn1\<lparr>sn_outbound_relay_id := relay\<rparr> in
     eff_bind (call_model rt sn2) (\<lambda>d.
     eff_bind (with_optional (cr_model_response_recorder rt) () (\<lambda>f. f sn2 d)) (\<lambda>_.
     eff_return (sn2, d)))))"

definition round_reply ::
    "'w cognitive_runtime \<Rightarrow> runtime_snapshot \<Rightarrow> turn_locals
      \<Rightarrow> ('w, runtime_snapshot \<times> model_directive \<times> turn_locals) effect" where
  "round_reply rt sn l =
     eff_bind (with_optional (cr_model_response_recovery rt) NoReply (\<lambda>f. f sn)) (\<lambda>r. case r of
       NotAReply \<Rightarrow> eff_raise (RaisedTypeError ''model_response_recovery must return RecoveredModelResponse'')
     | RecoveredReply i d \<Rightarrow>
         eff_return (sn\<lparr>sn_model_attempt_id := Some i\<rparr>, d, l\<lparr>tl_recovered := tl_recovered l @ [i]\<rparr>)
     | NoReply \<Rightarrow> eff_bind (fresh_reply rt sn) (\<lambda>(sn', d). eff_return (sn', d, l)))"

section \<open>Rounds\<close>

definition snapshot ::
    "text_env \<Rightarrow> 'w cognitive_runtime \<Rightarrow> string \<Rightarrow> string \<Rightarrow> pydict \<Rightarrow> capability_result list \<Rightarrow> int \<Rightarrow> int \<Rightarrow> int
      \<Rightarrow> runtime_snapshot" where
  "snapshot te rt user_input wake_reason cockpit history round_index rounds offset = \<lparr>
     sn_user_input = user_input, sn_wake_reason = wake_reason, sn_cockpit = cockpit,
     sn_capability_catalog = catalog te (cr_registry rt), sn_capability_history = history,
     sn_round_index = offset + round_index,
     sn_remaining_tool_rounds = max 0 (rounds - round_index - 1),
     sn_model_attempt_id = None, sn_outbound_relay_id = None\<rparr>"

definition contains_read :: "'w cognitive_runtime \<Rightarrow> capability_call list \<Rightarrow> bool" where
  "contains_read rt cs = list_ex (\<lambda>c. case get_spec (cc_name c) (cr_registry rt) of
     None \<Rightarrow> False | Some s \<Rightarrow> cs_kind s = CK_READ) cs"

definition needs_continuation :: "'w cognitive_runtime \<Rightarrow> model_directive \<Rightarrow> bool" where
  "needs_continuation rt d \<longleftrightarrow> md_capability_calls d \<noteq> []
     \<and> (md_response d = None \<or> contains_read rt (md_capability_calls d))"

definition count_usage :: "model_directive \<Rightarrow> turn_locals \<Rightarrow> turn_locals" where
  "count_usage d l = (case md_usage d of
     None \<Rightarrow> l\<lparr>tl_usage_complete := False\<rparr> | Some u \<Rightarrow> l\<lparr>tl_usages := tl_usages l @ [u]\<rparr>)"

text \<open>After the reply: \<open>Inl\<close> the result that ends the turn, \<open>Inr\<close> what the next round starts from.\<close>

definition apply_reply ::
    "text_env \<Rightarrow> 'w cognitive_runtime \<Rightarrow> runtime_snapshot \<Rightarrow> model_directive \<Rightarrow> turn_locals \<Rightarrow> int \<Rightarrow> int \<Rightarrow> int
      \<Rightarrow> ('w, runtime_turn_result + turn_locals) effect" where
  "apply_reply te rt sn d l round_index rounds normal =
     (if md_silence d then eff_return (Inl (turn_result l None True (round_index + 1) ''silence''))
      else if needs_continuation rt d \<and> rounds - 1 \<le> round_index then
        eff_return (Inl (turn_result l None False (round_index + 1)
          (if rounds < normal then ''model_round_budget_exhausted'' else ''tool_round_budget_exhausted'')))
      else eff_bind (perform_calls te rt sn (md_capability_calls d) l) (\<lambda>(exhausted, l').
        if exhausted then
          eff_return (Inl (turn_result l' None False (round_index + 1) ''capability_call_budget_exhausted''))
        else if md_response d \<noteq> None \<and> \<not> needs_continuation rt d then
          eff_return (Inl (turn_result l' (md_response d) False (round_index + 1) ''responded''))
        else eff_return (Inr l')))"

fun run_rounds ::
    "text_env \<Rightarrow> 'w cognitive_runtime \<Rightarrow> (int \<Rightarrow> capability_result list \<Rightarrow> runtime_snapshot) \<Rightarrow> int \<Rightarrow> int
      \<Rightarrow> int list \<Rightarrow> turn_locals \<Rightarrow> ('w, runtime_turn_result) effect" where
  "run_rounds te rt snap rounds normal [] l = eff_raise (RaisedAssertion ''unreachable runtime loop state'')"
| "run_rounds te rt snap rounds normal (i # is) l =
     eff_bind (round_reply rt (snap i (tl_history l)) l) (\<lambda>(sn, d, l1).
     let l2 = count_usage d l1 in
     eff_bind (with_optional (cr_model_usage_recorder rt) () (\<lambda>f. f sn d)) (\<lambda>_.
     eff_bind (apply_reply te rt sn d l2 i rounds normal) (\<lambda>r. case r of
       Inl done_result \<Rightarrow> eff_return done_result
     | Inr l3 \<Rightarrow> run_rounds te rt snap rounds normal is l3)))"

definition normal_model_rounds :: "'w cognitive_runtime \<Rightarrow> int" where
  "normal_model_rounds rt = cr_max_tool_rounds rt + 1"

definition effective_model_rounds :: "'w cognitive_runtime \<Rightarrow> int option \<Rightarrow> int" where
  "effective_model_rounds rt max_model_rounds = (case max_model_rounds of
     None \<Rightarrow> normal_model_rounds rt | Some n \<Rightarrow> min n (normal_model_rounds rt))"

definition run_turn ::
    "text_env \<Rightarrow> 'w cognitive_runtime \<Rightarrow> string \<Rightarrow> string \<Rightarrow> pydict \<Rightarrow> int option \<Rightarrow> int
      \<Rightarrow> ('w, runtime_turn_result) effect" where
  "run_turn te rt user_input wake_reason cockpit max_model_rounds offset =
     (if blank user_input then eff_raise (RaisedValueError ''user_input must be non-blank'')
      else if offset < 0 then eff_raise (RaisedValueError ''model_round_offset must be a non-negative integer'')
      else if (case max_model_rounds of None \<Rightarrow> False | Some n \<Rightarrow> n < 1)
        then eff_raise (RaisedValueError ''max_model_rounds must be >= 1'')
      else let rounds = effective_model_rounds rt max_model_rounds in
        run_rounds te rt (\<lambda>i history. snapshot te rt user_input wake_reason cockpit history i rounds offset)
          rounds (normal_model_rounds rt) [0 .. rounds - 1] fresh_locals)"

end
