(* ===== verification/LoopFacts.thy ===== *)
theory LoopFacts
  imports CognitiveLoop
begin

text \<open>
  A turn of the model loop ends, spends at most its budgets and reaches side effects only
  through the authorizer. The proofs use triples over effects with one postcondition for answers
  and one for raises.
\<close>

section \<open>Triples\<close>

definition triple ::
    "('w \<Rightarrow> bool) \<Rightarrow> ('w, 'a) effect \<Rightarrow> ('a \<Rightarrow> 'w \<Rightarrow> bool) \<Rightarrow> ('w \<Rightarrow> bool) \<Rightarrow> bool" where
  "triple P m Q R \<longleftrightarrow> (\<forall>w. P w \<longrightarrow> (case m w of (Inr x, w') \<Rightarrow> Q x w' | (Inl e, w') \<Rightarrow> R w'))"

lemma triple_return: "(\<And>w. P w \<Longrightarrow> Q x w) \<Longrightarrow> triple P (eff_return x) Q R"
  by (simp add: triple_def)

lemma triple_raise: "(\<And>w. P w \<Longrightarrow> R w) \<Longrightarrow> triple P (eff_raise e) Q R"
  by (simp add: triple_def)

lemma triple_bind:
  assumes "triple P m M R" and "\<And>x. triple (M x) (f x) Q R"
  shows "triple P (eff_bind m f) Q R"
  unfolding triple_def
proof (intro allI impI)
  fix w assume P: "P w"
  obtain r w' where m: "m w = (r, w')" by (cases "m w")
  show "case eff_bind m f w of (Inr x, w') \<Rightarrow> Q x w' | (Inl e, w') \<Rightarrow> R w'"
  proof (cases r)
    case (Inl e)
    with assms(1) P m have "R w'" by (auto simp: triple_def)
    with m Inl show ?thesis by (simp add: eff_bind_def)
  next
    case (Inr x)
    with assms(1) P m have "M x w'" by (auto simp: triple_def)
    with assms(2) [of x] m Inr show ?thesis by (simp add: eff_bind_def triple_def)
  qed
qed

lemma triple_weaken:
  assumes "triple P m Q R" and "\<And>w. P' w \<Longrightarrow> P w" and "\<And>x w. Q x w \<Longrightarrow> Q' x w" and "\<And>w. R w \<Longrightarrow> R' w"
  shows "triple P' m Q' R'"
  using assms by (fastforce simp: triple_def split: prod.splits sum.splits)

lemma triple_run:
  assumes "triple P m Q R" and "P w" and "m w = (r, w')"
  shows "case r of Inr x \<Rightarrow> Q x w' | Inl e \<Rightarrow> R w'"
  using assms by (auto simp: triple_def split: sum.splits)

lemma triple_optional:
  assumes "\<And>w. P w \<Longrightarrow> Q x w" and "\<And>g. c = Some g \<Longrightarrow> triple P (f g) Q R"
  shows "triple P (with_optional c x f) Q R"
  using assms by (cases c) (simp_all add: with_optional_def triple_return)

lemma triple_const: "triple P m (\<lambda>_. Q) Q \<longleftrightarrow> (\<forall>w. P w \<longrightarrow> Q (snd (m w)))"
  by (simp add: triple_def split_beta sum.case_eq_if)

section \<open>What the callables of a runtime do to the world\<close>

inductive callback_step :: "'w cognitive_runtime \<Rightarrow> 'w \<Rightarrow> 'w \<Rightarrow> bool" for rt where
  asks: "cr_side_effect_authorizer rt = Some f \<Longrightarrow> f s c sn w = (r, w') \<Longrightarrow> callback_step rt w w'"
| meters: "cr_model_usage_recorder rt = Some f \<Longrightarrow> f sn d w = (r, w') \<Longrightarrow> callback_step rt w w'"
| admits: "cr_model_attempt_admitter rt = Some f \<Longrightarrow> f sn w = (r, w') \<Longrightarrow> callback_step rt w w'"
| dispatches: "cr_model_dispatch_recorder rt = Some f \<Longrightarrow> f sn w = (r, w') \<Longrightarrow> callback_step rt w w'"
| records: "cr_model_response_recorder rt = Some f \<Longrightarrow> f sn d w = (r, w') \<Longrightarrow> callback_step rt w w'"
| fails: "cr_model_failure_recorder rt = Some f \<Longrightarrow> f sn e b w = (r, w') \<Longrightarrow> callback_step rt w w'"
| recovers: "cr_model_response_recovery rt = Some f \<Longrightarrow> f sn w = (r, w') \<Longrightarrow> callback_step rt w w'"

definition model_step :: "'w cognitive_runtime \<Rightarrow> 'w \<Rightarrow> 'w \<Rightarrow> bool" where
  "model_step rt w w' \<longleftrightarrow> (\<exists>sn r. cr_model_handler rt sn w = (r, w'))"

definition capability_step :: "'w cognitive_runtime \<Rightarrow> capability_spec \<Rightarrow> 'w \<Rightarrow> 'w \<Rightarrow> bool" where
  "capability_step rt s w w' \<longleftrightarrow> (\<exists>name item args r. map_of (cr_registry rt) name = Some item
     \<and> rg_spec item = s \<and> rg_handler item args w = (r, w'))"

lemma triple_callback:
  assumes "\<And>w r w'. m w = (r, w') \<Longrightarrow> callback_step rt w w'"
    and "\<And>w w'. callback_step rt w w' \<Longrightarrow> P w \<Longrightarrow> P w'"
  shows "triple P m (\<lambda>_. P) P"
  unfolding triple_def
proof (intro allI impI)
  fix w assume "P w"
  moreover obtain r w' where "m w = (r, w')" by (cases "m w")
  ultimately show "case m w of (Inr x, w') \<Rightarrow> P w' | (Inl e, w') \<Rightarrow> P w'"
    using assms(1) [of w r w'] assms(2) [of w w'] by (simp split: sum.splits)
qed

text \<open>What an execution of a registered capability does.\<close>

lemma invoke_step:
  assumes "invoke_capability te (cr_registry rt) c w = (r, w')"
  obtains (Unknown) "w' = w" "get_spec (cc_name c) (cr_registry rt) = None"
  | (Known) s where "get_spec (cc_name c) (cr_registry rt) = Some s" "capability_step rt s w w'"
proof (cases "map_of (cr_registry rt) (cc_name c)")
  case None
  with assms Unknown show ?thesis by (simp add: invoke_capability_def get_spec_def)
next
  case (Some item)
  then have "w' = snd (rg_handler item (cc_arguments c) w)"
    using assms by (auto simp: invoke_capability_def split: prod.splits sum.splits raised.splits)
  then have "rg_handler item (cc_arguments c) w = (fst (rg_handler item (cc_arguments c) w), w')" by simp
  with Some have "capability_step rt (rg_spec item) w w'" unfolding capability_step_def by blast
  with Some Known show ?thesis by (simp add: get_spec_def)
qed

section \<open>A turn spends at most its budgets\<close>

text \<open>
  A cost of the world that one model call raises by at most \<open>a\<close>, one executed capability by at
  most \<open>b\<close>, and nothing else raises.
\<close>

definition costs :: "'w cognitive_runtime \<Rightarrow> ('w \<Rightarrow> nat) \<Rightarrow> nat \<Rightarrow> nat \<Rightarrow> bool" where
  "costs rt cost a b \<longleftrightarrow> (\<forall>w w'. callback_step rt w w' \<longrightarrow> cost w' \<le> cost w)
     \<and> (\<forall>w w'. model_step rt w w' \<longrightarrow> cost w' \<le> cost w + a)
     \<and> (\<forall>s w w'. capability_step rt s w w' \<longrightarrow> cost w' \<le> cost w + b)"

abbreviation (input) at_most :: "('w \<Rightarrow> nat) \<Rightarrow> nat \<Rightarrow> 'w \<Rightarrow> bool" where
  "at_most cost n \<equiv> (\<lambda>w. cost w \<le> n)"

lemma callback_free:
  assumes "costs rt cost a b" and "\<And>w r w'. m w = (r, w') \<Longrightarrow> callback_step rt w w'"
  shows "triple (at_most cost n) m (\<lambda>_. at_most cost n) (at_most cost n)"
  by (rule triple_callback [OF assms(2)]) (use assms(1) in \<open>auto simp: costs_def intro: order_trans\<close>)

lemma at_most_weaken:
  "triple (at_most cost n) m (\<lambda>_. at_most cost k) (at_most cost k) \<Longrightarrow> k \<le> k' \<Longrightarrow>
    triple (at_most cost n) m (\<lambda>_. at_most cost k) (at_most cost k')"
  by (erule triple_weaken) auto

lemma callbacks_free:
  assumes "costs rt cost a b"
  shows "cr_side_effect_authorizer rt = Some f1 \<Longrightarrow>
      triple (at_most cost n) (f1 s c sn) (\<lambda>_. at_most cost n) (at_most cost n)"
    and "cr_model_usage_recorder rt = Some f2 \<Longrightarrow>
      triple (at_most cost n) (f2 sn d) (\<lambda>_. at_most cost n) (at_most cost n)"
    and "cr_model_attempt_admitter rt = Some f3 \<Longrightarrow>
      triple (at_most cost n) (f3 sn) (\<lambda>_. at_most cost n) (at_most cost n)"
    and "cr_model_dispatch_recorder rt = Some f4 \<Longrightarrow>
      triple (at_most cost n) (f4 sn) (\<lambda>_. at_most cost n) (at_most cost n)"
    and "cr_model_response_recorder rt = Some f5 \<Longrightarrow>
      triple (at_most cost n) (f5 sn d) (\<lambda>_. at_most cost n) (at_most cost n)"
    and "cr_model_failure_recorder rt = Some f6 \<Longrightarrow>
      triple (at_most cost n) (f6 sn e x) (\<lambda>_. at_most cost n) (at_most cost n)"
    and "cr_model_response_recovery rt = Some f7 \<Longrightarrow>
      triple (at_most cost n) (f7 sn) (\<lambda>_. at_most cost n) (at_most cost n)"
  by (rule callback_free [OF assms]; erule callback_step.intros; assumption)+

lemma invoke_cost:
  assumes "costs rt cost a b"
  shows "triple (at_most cost n) (invoke_capability te (cr_registry rt) c) (\<lambda>_. at_most cost (n + b)) (at_most cost (n + b))"
  unfolding triple_const
proof (intro allI impI)
  fix w assume n: "cost w \<le> n"
  obtain r w' where run: "invoke_capability te (cr_registry rt) c w = (r, w')"
    by (cases "invoke_capability te (cr_registry rt) c w")
  then have "cost w' \<le> n + b"
  proof (cases rule: invoke_step)
    case (Known s)
    with assms have "cost w' \<le> cost w + b" by (auto simp: costs_def)
    with n show ?thesis by simp
  qed (use n in simp)
  with run show "cost (snd (invoke_capability te (cr_registry rt) c w)) \<le> n + b" by simp
qed

text \<open>The calls of a turn so far are within the budget, and so is their cost.\<close>

definition paid :: "'w cognitive_runtime \<Rightarrow> ('w \<Rightarrow> nat) \<Rightarrow> nat \<Rightarrow> nat \<Rightarrow> turn_locals \<Rightarrow> 'w \<Rightarrow> bool" where
  "paid rt cost n b l w \<longleftrightarrow> 0 \<le> tl_total_calls l \<and> tl_total_calls l \<le> cr_max_total_capability_calls rt
     \<and> cost w \<le> n + b * nat (tl_total_calls l)"

lemma paid_bound:
  assumes "paid rt cost n b l w"
  shows "cost w \<le> n + b * nat (cr_max_total_capability_calls rt)"
proof -
  have "b * nat (tl_total_calls l) \<le> b * nat (cr_max_total_capability_calls rt)"
    using assms by (intro mult_le_mono2) (auto simp: paid_def)
  moreover have "cost w \<le> n + b * nat (tl_total_calls l)" using assms by (simp add: paid_def)
  ultimately show ?thesis by linarith
qed

lemma paid_next: "0 \<le> k \<Longrightarrow> n + b * nat (k + 1) = n + b * nat k + b" for n b :: nat
  by (simp add: nat_add_distrib)

lemma perform_call_paid:
  assumes costs: "costs rt cost a b" and left: "tl_total_calls l < cr_max_total_capability_calls rt"
  shows "triple (paid rt cost n b l) (perform_call te rt sn c l) (paid rt cost n b)
    (at_most cost (n + b * nat (cr_max_total_capability_calls rt)))"
proof (cases "0 \<le> tl_total_calls l")
  case True
  let ?k = "tl_total_calls l" and ?top = "n + b * nat (cr_max_total_capability_calls rt)"
  have top: "n + b * nat ?k \<le> ?top" "n + b * nat ?k + b \<le> ?top"
  proof -
    have "nat ?k + 1 \<le> nat (cr_max_total_capability_calls rt)" using left True by simp
    then have "b * (nat ?k + 1) \<le> b * nat (cr_max_total_capability_calls rt)" by (rule mult_le_mono2)
    then show "n + b * nat ?k + b \<le> ?top" by simp
    then show "n + b * nat ?k \<le> ?top" by linarith
  qed
  have noted: "cost w \<le> n + b * nat ?k + b \<Longrightarrow> paid rt cost n b (note_result r l1) w"
    if "tl_total_calls l1 = ?k" for l1 r w
    using left True that by (simp add: paid_def paid_next note_result_def)
  have invoke: "triple (at_most cost (n + b * nat ?k)) (invoke_capability te (cr_registry rt) c)
      (\<lambda>_. at_most cost (n + b * nat ?k + b)) (at_most cost ?top)"
    by (rule at_most_weaken [OF invoke_cost [OF costs] top(2)])
  have execute: "triple (at_most cost (n + b * nat ?k)) (execute_call te rt c l1) (paid rt cost n b) (at_most cost ?top)"
    if "tl_total_calls l1 = ?k" for l1
    unfolding execute_call_def by (rule triple_bind [OF invoke triple_return]) (rule noted [OF that])
  have refuse: "triple (at_most cost (n + b * nat ?k)) (refuse_call c l1) (paid rt cost n b) (at_most cost ?top)"
    if "tl_total_calls l1 = ?k" for l1
    unfolding refuse_call_def by (rule triple_return) (rule noted [OF that], simp)
  have ask: "triple (at_most cost (n + b * nat ?k)) (f s c sn) (\<lambda>_. at_most cost (n + b * nat ?k)) (at_most cost ?top)"
    if "cr_side_effect_authorizer rt = Some f" for f s
    by (rule at_most_weaken [OF callbacks_free(1) [OF costs that] top(1)])
  have "triple (at_most cost (n + b * nat ?k)) (perform_call te rt sn c l) (paid rt cost n b) (at_most cost ?top)"
  proof (cases "cr_repeated_call_limit rt \<le> tl_signatures l (normalized_signature te c)")
    case blocked: True
    then show ?thesis unfolding perform_call_def Let_def if_P [OF blocked]
      by (intro triple_return) (use left True in \<open>simp add: paid_def\<close>)
  next
    case False
    then show ?thesis unfolding perform_call_def Let_def if_not_P [OF False]
      by (auto split: option.split intro!: execute refuse triple_bind [OF ask])
  qed
  then show ?thesis by (rule triple_weaken) (auto simp: paid_def)
qed (simp add: triple_def paid_def)

lemma perform_calls_paid:
  assumes costs: "costs rt cost a b"
  shows "triple (paid rt cost n b l) (perform_calls te rt sn cs l) (\<lambda>(_, l'). paid rt cost n b l')
    (at_most cost (n + b * nat (cr_max_total_capability_calls rt)))"
proof (induction cs arbitrary: l)
  case Nil
  show ?case unfolding perform_calls.simps by (rule triple_return) simp
next
  case (Cons c cs)
  show ?case
  proof (cases "cr_max_total_capability_calls rt \<le> tl_total_calls l")
    case True
    then show ?thesis unfolding perform_calls.simps if_P [OF True] by (intro triple_return) simp
  next
    case False
    then have "triple (paid rt cost n b l) (eff_bind (perform_call te rt sn c l) (perform_calls te rt sn cs))
      (\<lambda>(_, l'). paid rt cost n b l') (at_most cost (n + b * nat (cr_max_total_capability_calls rt)))"
      using perform_call_paid [OF costs] by (intro triple_bind [OF _ Cons]) simp
    with False show ?thesis by simp
  qed
qed

lemma call_model_cost:
  assumes costs: "costs rt cost a b"
  shows "triple (at_most cost n) (call_model rt sn) (\<lambda>_. at_most cost (n + a)) (at_most cost (n + a))"
  unfolding triple_const
proof (intro allI impI)
  fix w assume n: "cost w \<le> n"
  obtain r v where model: "cr_model_handler rt sn w = (r, v)" by (cases "cr_model_handler rt sn w")
  then have "model_step rt w v" by (auto simp: model_step_def)
  with costs have "cost v \<le> cost w + a" by (auto simp: costs_def)
  with n have v: "cost v \<le> n + a" by simp
  have fail: "cost (snd (eff_bind (with_optional (cr_model_failure_recorder rt) () (\<lambda>f. f sn e x))
      (\<lambda>_. eff_raise e :: ('a, model_directive) effect) v)) \<le> n + a" for e x
  proof -
    have "triple (at_most cost (n + a)) (eff_bind (with_optional (cr_model_failure_recorder rt) () (\<lambda>f. f sn e x))
        (\<lambda>_. eff_raise e)) (\<lambda>_::model_directive. at_most cost (n + a)) (at_most cost (n + a))"
      by (rule triple_bind [where M = "\<lambda>_. at_most cost (n + a)", OF triple_optional])
        (auto intro: callbacks_free(6) [OF costs] triple_raise)
    with v show ?thesis unfolding triple_const by blast
  qed
  show "cost (snd (call_model rt sn w)) \<le> n + a"
    using fail v by (auto simp: call_model_def model Let_def split: sum.split option.split raised.split)
qed

lemma round_reply_cost:
  assumes costs: "costs rt cost a b"
  shows "triple (\<lambda>w. cost w \<le> n + m) (round_reply rt sn l)
    (\<lambda>(_, _, l') w. tl_total_calls l' = tl_total_calls l \<and> cost w \<le> n + m + a) (at_most cost (n + m + a))"
proof -
  note free = callbacks_free [OF costs, THEN at_most_weaken]
  have model: "triple (at_most cost (n + m)) (call_model rt sn) (\<lambda>_. at_most cost (n + m + a)) (at_most cost (n + m + a))" for sn
    by (rule call_model_cost [OF costs])
  have noted: "triple (at_most cost (n + m + a)) (eff_bind (with_optional (cr_model_response_recorder rt) () (\<lambda>f. f sn d))
      (\<lambda>_. eff_return (sn, d))) (\<lambda>_. at_most cost (n + m + a)) (at_most cost (n + m + a))" for sn d
    by (rule triple_bind [where M = "\<lambda>_. at_most cost (n + m + a)", OF triple_optional]) (auto intro: callbacks_free(5) [OF costs] triple_return)
  have dispatch: "triple (at_most cost (n + m)) (with_optional (cr_model_dispatch_recorder rt) None (\<lambda>f. f sn))
      (\<lambda>_. at_most cost (n + m)) (at_most cost (n + m + a))" for sn
    by (rule triple_optional) (simp_all add: free(4))
  have admit: "triple (at_most cost (n + m)) (with_optional (cr_model_attempt_admitter rt) None (\<lambda>f. f sn))
      (\<lambda>_. at_most cost (n + m)) (at_most cost (n + m + a))" for sn
    by (rule triple_optional) (simp_all add: free(3))
  have fresh: "triple (at_most cost (n + m)) (fresh_reply rt sn) (\<lambda>_. at_most cost (n + m + a)) (at_most cost (n + m + a))" for sn
    unfolding fresh_reply_def Let_def
    by (intro triple_bind [OF admit] triple_bind [OF dispatch] triple_bind [OF model] noted)
  show ?thesis
    unfolding round_reply_def
  proof (rule triple_bind [OF triple_optional])
    show "triple (at_most cost (n + m)) (f sn) (\<lambda>_. at_most cost (n + m)) (at_most cost (n + m + a))"
      if "cr_model_response_recovery rt = Some f" for f
      by (rule free(7) [OF that]) simp
    show "triple (at_most cost (n + m)) (case r of
        NoReply \<Rightarrow> eff_bind (fresh_reply rt sn) (\<lambda>(sn', d). eff_return (sn', d, l))
      | RecoveredReply i d \<Rightarrow> eff_return (sn\<lparr>sn_model_attempt_id := Some i\<rparr>, d, l\<lparr>tl_recovered := tl_recovered l @ [i]\<rparr>)
      | NotAReply \<Rightarrow> eff_raise (RaisedTypeError ''model_response_recovery must return RecoveredModelResponse''))
      (\<lambda>(_, _, l') w. tl_total_calls l' = tl_total_calls l \<and> cost w \<le> n + m + a) (at_most cost (n + m + a))" for r
      by (cases r) (auto intro!: triple_bind [OF fresh] triple_return triple_raise)
  qed simp
qed

abbreviation (input) top_cost :: "'w cognitive_runtime \<Rightarrow> nat \<Rightarrow> nat \<Rightarrow> nat" where
  "top_cost rt n b \<equiv> n + b * nat (cr_max_total_capability_calls rt)"

lemma apply_reply_paid:
  assumes costs: "costs rt cost a b"
  shows "triple (paid rt cost n b l) (apply_reply te rt sn d l i rounds normal)
    (\<lambda>r w. case r of Inl _ \<Rightarrow> cost w \<le> top_cost rt n b | Inr l' \<Rightarrow> paid rt cost n b l' w) (at_most cost (top_cost rt n b))"
proof -
  have finish: "triple (paid rt cost n b l') (eff_return (Inl x))
      (\<lambda>r w. case r of Inl _ \<Rightarrow> cost w \<le> top_cost rt n b | Inr l' \<Rightarrow> paid rt cost n b l' w) R" for l' x R
    by (rule triple_return) (simp add: paid_bound)
  have continue: "triple (paid rt cost n b l') (eff_return (Inr l'))
      (\<lambda>r w. case r of Inl _ \<Rightarrow> cost w \<le> top_cost rt n b | Inr l' \<Rightarrow> paid rt cost n b l' w) R" for l' R
    by (rule triple_return) simp
  show ?thesis
    unfolding apply_reply_def
    by (auto split: if_split intro!: finish continue triple_bind [OF perform_calls_paid [OF costs]])
qed

lemma count_usage_total [simp]: "tl_total_calls (count_usage d l) = tl_total_calls l"
  by (simp add: count_usage_def split: option.split)

lemma run_rounds_cost:
  assumes costs: "costs rt cost a b"
  shows "triple (paid rt cost n b l) (run_rounds te rt snap rounds normal is l)
    (\<lambda>_. at_most cost (top_cost rt (n + a * length is) b)) (at_most cost (top_cost rt (n + a * length is) b))"
proof (induction "is" arbitrary: n l)
  case Nil
  show ?case unfolding run_rounds.simps by (rule triple_raise) (simp add: paid_bound)
next
  case (Cons i "is")
  let ?top = "top_cost rt (n + a * length (i # is)) b"
  show ?case
  proof (cases "0 \<le> tl_total_calls l \<and> tl_total_calls l \<le> cr_max_total_capability_calls rt")
    case True
    let ?m = "b * nat (tl_total_calls l)"
    have m: "?m \<le> b * nat (cr_max_total_capability_calls rt)" using True by (intro mult_le_mono2) auto
    have top: "n + ?m + a \<le> ?top"
    proof -
      have "a * length (i # is) = a + a * length is" by simp
      with m show ?thesis by linarith
    qed
    have rest: "triple (\<lambda>w. tl_total_calls l1 = tl_total_calls l \<and> cost w \<le> n + ?m + a)
        (eff_bind (with_optional (cr_model_usage_recorder rt) () (\<lambda>f. f sn d)) (\<lambda>_.
          eff_bind (apply_reply te rt sn d (count_usage d l1) i rounds normal) (\<lambda>r. case r of
            Inl x \<Rightarrow> eff_return x | Inr l3 \<Rightarrow> run_rounds te rt snap rounds normal is l3)))
        (\<lambda>_. at_most cost ?top) (at_most cost ?top)" for sn d l1
    proof (cases "tl_total_calls l1 = tl_total_calls l")
      case l1: True
      have meter: "triple (at_most cost (n + ?m + a)) (with_optional (cr_model_usage_recorder rt) () (\<lambda>f. f sn d))
          (\<lambda>_. at_most cost (n + ?m + a)) (at_most cost ?top)"
        by (rule triple_optional, assumption) (rule at_most_weaken [OF callbacks_free(2) [OF costs] top])
      have reply: "triple (at_most cost (n + ?m + a)) (apply_reply te rt sn d (count_usage d l1) i rounds normal)
          (\<lambda>r w. case r of Inl _ \<Rightarrow> cost w \<le> top_cost rt (n + a) b | Inr l' \<Rightarrow> paid rt cost (n + a) b l' w) (at_most cost ?top)"
        by (rule triple_weaken [OF apply_reply_paid [OF costs, where n = "n + a"]]) (use True l1 in \<open>auto simp: paid_def\<close>)
      have "triple (\<lambda>w. case r of Inl _ \<Rightarrow> cost w \<le> top_cost rt (n + a) b | Inr l' \<Rightarrow> paid rt cost (n + a) b l' w)
          (case r of Inl x \<Rightarrow> eff_return x | Inr l3 \<Rightarrow> run_rounds te rt snap rounds normal is l3)
          (\<lambda>_. at_most cost ?top) (at_most cost ?top)" for r
      proof (cases r)
        case (Inr l3)
        from Cons [of "n + a" l3] show ?thesis
          by (simp add: Inr) (rule triple_weaken, assumption, auto simp: algebra_simps)
      qed (auto intro!: triple_return)
      with meter reply show ?thesis by (auto simp: l1 intro: triple_bind)
    qed (simp add: triple_def)
    have "triple (\<lambda>w. cost w \<le> n + ?m) (run_rounds te rt snap rounds normal (i # is) l)
        (\<lambda>_. at_most cost ?top) (at_most cost ?top)"
      unfolding run_rounds.simps Let_def
    proof (rule triple_bind)
      show "triple (\<lambda>w. cost w \<le> n + ?m) (round_reply rt (snap i (tl_history l)) l)
          (\<lambda>(_, _, l') w. tl_total_calls l' = tl_total_calls l \<and> cost w \<le> n + ?m + a) (at_most cost ?top)"
        by (rule triple_weaken [OF round_reply_cost [OF costs]]) (use top in auto)
    qed (clarsimp simp only: split: prod.split, rule rest)
    then show ?thesis by (rule triple_weaken) (auto simp: paid_def)
  qed (auto simp: triple_def paid_def)
qed

lemma run_turn_cost:
  assumes costs: "costs rt cost a b" and "construct_runtime rt = Inr rt"
  shows "cost (snd (run_turn te rt user_input reason cockpit limit offset w))
    \<le> cost w + a * nat (effective_model_rounds rt limit) + b * nat (cr_max_total_capability_calls rt)"
proof (cases "blank user_input \<or> offset < 0 \<or> (case limit of None \<Rightarrow> False | Some n \<Rightarrow> n < 1)")
  case False
  let ?rounds = "effective_model_rounds rt limit"
  have "paid rt cost (cost w) b fresh_locals w" using assms(2) by (simp add: paid_def fresh_locals_def construct_runtime_def)
  with run_rounds_cost [OF costs, of "cost w" fresh_locals te
      "\<lambda>i history. snapshot te rt user_input reason cockpit history i ?rounds offset" ?rounds
      "normal_model_rounds rt" "[0 .. ?rounds - 1]"]
  show ?thesis using False by (simp add: run_turn_def Let_def triple_const)
qed (auto simp: run_turn_def)

section \<open>Side effects only through the authorizer\<close>

text \<open>
  A property of the world that nothing breaks but the side effects of capabilities, and those
  only when they run without a fresh permission of the authorizer for exactly this call.
\<close>

definition guarded :: "'w cognitive_runtime \<Rightarrow> ('w \<Rightarrow> bool) \<Rightarrow> bool" where
  "guarded rt P \<longleftrightarrow> (\<forall>w w'. callback_step rt w w' \<longrightarrow> P w \<longrightarrow> P w')
     \<and> (\<forall>w w'. model_step rt w w' \<longrightarrow> P w \<longrightarrow> P w')
     \<and> (\<forall>s w w'. capability_step rt s w w' \<longrightarrow> \<not> cs_side_effecting s \<longrightarrow> P w \<longrightarrow> P w')
     \<and> (\<forall>ask c sn item w w1 r w2. cr_side_effect_authorizer rt = Some ask \<longrightarrow>
          map_of (cr_registry rt) (cc_name c) = Some item \<longrightarrow> P w \<longrightarrow>
          ask (rg_spec item) c sn w = (Inr True, w1) \<longrightarrow> rg_handler item (cc_arguments c) w1 = (r, w2) \<longrightarrow> P w2)"

abbreviation (input) keeps :: "('w \<Rightarrow> bool) \<Rightarrow> ('w, 'a) effect \<Rightarrow> bool" where
  "keeps P m \<equiv> triple P m (\<lambda>_. P) P"

named_theorems keeps_intros \<open>effects that keep a property of the world\<close>

lemma keeps_control [keeps_intros]:
  "keeps P (eff_return x)" "keeps P (eff_raise e)"
  "keeps P m \<Longrightarrow> (\<And>x. keeps P (f x)) \<Longrightarrow> keeps P (eff_bind m f)"
  "(\<And>g. c = Some g \<Longrightarrow> keeps P (h g)) \<Longrightarrow> keeps P (with_optional c x h)"
  by (auto intro: triple_return triple_raise triple_bind triple_optional)

lemma keeps_callbacks:
  assumes "guarded rt P"
  shows "cr_side_effect_authorizer rt = Some f1 \<Longrightarrow> keeps P (f1 s c sn)"
    and "cr_model_usage_recorder rt = Some f2 \<Longrightarrow> keeps P (f2 sn d)"
    and "cr_model_attempt_admitter rt = Some f3 \<Longrightarrow> keeps P (f3 sn)"
    and "cr_model_dispatch_recorder rt = Some f4 \<Longrightarrow> keeps P (f4 sn)"
    and "cr_model_response_recorder rt = Some f5 \<Longrightarrow> keeps P (f5 sn d)"
    and "cr_model_failure_recorder rt = Some f6 \<Longrightarrow> keeps P (f6 sn e x)"
    and "cr_model_response_recovery rt = Some f7 \<Longrightarrow> keeps P (f7 sn)"
  by (rule triple_callback; (erule callback_step.intros; assumption)?; use assms in \<open>auto simp: guarded_def\<close>)+

lemma keeps_recorders [keeps_intros]:
  assumes "guarded rt P"
  shows "keeps P (with_optional (cr_model_usage_recorder rt) () (\<lambda>f. f sn d))"
    and "keeps P (with_optional (cr_model_attempt_admitter rt) None (\<lambda>f. f sn))"
    and "keeps P (with_optional (cr_model_dispatch_recorder rt) None (\<lambda>f. f sn))"
    and "keeps P (with_optional (cr_model_response_recorder rt) () (\<lambda>f. f sn d))"
    and "keeps P (with_optional (cr_model_failure_recorder rt) () (\<lambda>f. f sn e x))"
    and "keeps P (with_optional (cr_model_response_recovery rt) NoReply (\<lambda>f. f sn))"
  by (rule keeps_control(4), erule keeps_callbacks [OF assms])+

lemma keeps_call_model [keeps_intros]:
  assumes "guarded rt P"
  shows "keeps P (call_model rt sn)"
  unfolding triple_const
proof (intro allI impI)
  fix w assume "P w"
  obtain r v where model: "cr_model_handler rt sn w = (r, v)" by (cases "cr_model_handler rt sn w")
  then have v: "P v" using assms \<open>P w\<close> unfolding guarded_def model_step_def by blast
  have "keeps P (eff_bind (with_optional (cr_model_failure_recorder rt) () (\<lambda>f. f sn e x))
      (\<lambda>_. eff_raise e :: ('a, model_directive) effect))" for e x
    by (intro keeps_control(2,3) keeps_recorders assms)
  with v have "P (snd (eff_bind (with_optional (cr_model_failure_recorder rt) () (\<lambda>f. f sn e x))
      (\<lambda>_. eff_raise e :: ('a, model_directive) effect) v))" for e x
    unfolding triple_const by blast
  with v show "P (snd (call_model rt sn w))"
    by (auto simp: call_model_def model Let_def split: sum.split option.split raised.split)
qed

lemma keeps_execute:
  assumes "guarded rt P" and "\<And>s. get_spec (cc_name c) (cr_registry rt) = Some s \<Longrightarrow> \<not> cs_side_effecting s"
  shows "keeps P (execute_call te rt c l)"
proof -
  have "P (snd (invoke_capability te (cr_registry rt) c w))" if "P w" for w
  proof -
    obtain r w' where run: "invoke_capability te (cr_registry rt) c w = (r, w')"
      by (cases "invoke_capability te (cr_registry rt) c w")
    then have "P w'" by (cases rule: invoke_step) (use assms that in \<open>auto simp: guarded_def\<close>)
    with run show ?thesis by simp
  qed
  then have "keeps P (invoke_capability te (cr_registry rt) c)" by (simp add: triple_const)
  then show ?thesis unfolding execute_call_def by (intro keeps_intros)
qed

lemma keeps_permitted:
  assumes g: "guarded rt P" and ask: "cr_side_effect_authorizer rt = Some ask"
    and s: "get_spec (cc_name c) (cr_registry rt) = Some s"
  shows "keeps P (eff_bind (ask s c sn) (\<lambda>allowed. if allowed then execute_call te rt c l else refuse_call c l))"
  unfolding triple_const
proof (intro allI impI)
  fix w assume "P w"
  obtain item where item: "map_of (cr_registry rt) (cc_name c) = Some item" "rg_spec item = s"
    using s by (auto simp: get_spec_def)
  obtain a w1 where run: "ask s c sn w = (a, w1)" by (cases "ask s c sn w")
  have w1: "P w1" using keeps_callbacks(1) [OF g ask, of s c sn] \<open>P w\<close> run by (auto simp: triple_const)
  show "P (snd (eff_bind (ask s c sn) (\<lambda>allowed. if allowed then execute_call te rt c l else refuse_call c l) w))"
  proof (cases "a = Inr True")
    case True
    have "P (snd (rg_handler item (cc_arguments c) w1))"
      using g ask item \<open>P w\<close> run True unfolding guarded_def by (metis prod.collapse)
    then show ?thesis
      by (auto simp: eff_bind_def run True execute_call_def invoke_capability_def item split: prod.split sum.split raised.split)
  qed (use w1 in \<open>auto simp: eff_bind_def run refuse_call_def split: sum.split\<close>)
qed

lemma keeps_perform_call [keeps_intros]: "guarded rt P \<Longrightarrow> keeps P (perform_call te rt sn c l)"
  unfolding perform_call_def Let_def
  by (auto split: option.split intro!: keeps_control(1) keeps_execute keeps_permitted simp: refuse_call_def)

lemma keeps_perform_calls [keeps_intros]: "guarded rt P \<Longrightarrow> keeps P (perform_calls te rt sn cs l)"
proof (induction cs arbitrary: l)
  case Nil
  show ?case unfolding perform_calls.simps by (intro keeps_intros)
next
  case (Cons c cs)
  then show ?case by (auto intro!: keeps_control(1,3) keeps_perform_call)
qed

lemma keeps_round_reply [keeps_intros]: "guarded rt P \<Longrightarrow> keeps P (round_reply rt sn l)"
  unfolding round_reply_def fresh_reply_def Let_def
  by (auto split: recovery.split intro!: keeps_control(1,2,3) keeps_recorders keeps_call_model)

lemma keeps_apply_reply [keeps_intros]: "guarded rt P \<Longrightarrow> keeps P (apply_reply te rt sn d l i rounds normal)"
  unfolding apply_reply_def by (auto intro!: keeps_control(1,3) keeps_perform_calls)

lemma keeps_run_rounds [keeps_intros]: "guarded rt P \<Longrightarrow> keeps P (run_rounds te rt snap rounds normal is l)"
proof (induction "is" arbitrary: l)
  case Nil
  show ?case unfolding run_rounds.simps by (intro keeps_intros)
next
  case (Cons i "is")
  then show ?case unfolding run_rounds.simps Let_def
    by (auto split: sum.split intro!: keeps_control(1,3) keeps_recorders keeps_round_reply keeps_apply_reply)
qed

lemma run_turn_keeps: "guarded rt P \<Longrightarrow> P w \<Longrightarrow> P (snd (run_turn te rt user_input reason cockpit limit offset w))"
proof -
  assume g: "guarded rt P" and "P w"
  have "keeps P (run_turn te rt user_input reason cockpit limit offset)"
    unfolding run_turn_def Let_def using g by (auto intro!: keeps_control(2) keeps_run_rounds)
  with \<open>P w\<close> show ?thesis by (simp add: triple_const)
qed

section \<open>A turn ends with an answer\<close>

abbreviation (input) answers :: "('w, 'a) effect \<Rightarrow> ('a \<Rightarrow> bool) \<Rightarrow> bool" where
  "answers m Q \<equiv> triple (\<lambda>_. True) m (\<lambda>x _. Q x) (\<lambda>_. False)"

definition quiet :: "('w, 'a) effect \<Rightarrow> bool" where
  "quiet m \<longleftrightarrow> (\<forall>w. \<exists>x w'. m w = (Inr x, w'))"

text \<open>The callables answer, every directive passed its constructor, and no capability is interrupted.\<close>

definition answering :: "'w cognitive_runtime \<Rightarrow> bool" where
  "answering rt \<longleftrightarrow>
     (\<forall>f s c sn. cr_side_effect_authorizer rt = Some f \<longrightarrow> quiet (f s c sn))
     \<and> (\<forall>f sn d. cr_model_usage_recorder rt = Some f \<longrightarrow> quiet (f sn d))
     \<and> (\<forall>f sn. cr_model_attempt_admitter rt = Some f \<longrightarrow> quiet (f sn))
     \<and> (\<forall>f sn. cr_model_dispatch_recorder rt = Some f \<longrightarrow> quiet (f sn))
     \<and> (\<forall>f sn d. cr_model_response_recorder rt = Some f \<longrightarrow> quiet (f sn d))
     \<and> (\<forall>f sn. cr_model_response_recovery rt = Some f \<longrightarrow>
          answers (f sn) (\<lambda>r. r = NoReply \<or> (\<exists>i d. r = RecoveredReply i d \<and> constructed d)))
     \<and> (\<forall>sn. answers (cr_model_handler rt sn) (\<lambda>r. \<exists>d. r = Some d \<and> constructed d))
     \<and> (\<forall>name item args w m. map_of (cr_registry rt) name = Some item \<longrightarrow>
          fst (rg_handler item args w) \<noteq> Inl (RaisedInterrupt m))"

lemma answers_iff: "answers m Q \<longleftrightarrow> (\<forall>w. \<exists>x w'. m w = (Inr x, w') \<and> Q x)"
proof -
  have "(\<exists>x w'. m w = (Inr x, w') \<and> Q x) \<longleftrightarrow> (case m w of (Inr x, w') \<Rightarrow> Q x | (Inl e, w') \<Rightarrow> False)" for w
    by (cases "m w"; cases "fst (m w)") auto
  then show ?thesis by (simp add: triple_def)
qed

lemma quiet_answers: "quiet m \<longleftrightarrow> answers m (\<lambda>_. True)"
  by (simp add: answers_iff quiet_def)

lemma answers_bind:
  "answers m M \<Longrightarrow> (\<And>x. M x \<Longrightarrow> answers (f x) Q) \<Longrightarrow> answers (eff_bind m f) Q"
  by (erule triple_bind) (auto simp: triple_def)

lemma answers_return: "Q x \<Longrightarrow> answers (eff_return x) Q"
  by (rule triple_return)

lemma answers_optional: "(\<And>g. c = Some g \<Longrightarrow> quiet (h g)) \<Longrightarrow> answers (with_optional c x h) (\<lambda>_. True)"
  by (rule triple_optional) (simp_all add: quiet_answers)

lemma answers_invoke:
  assumes "answering rt"
  shows "answers (invoke_capability te (cr_registry rt) c) (\<lambda>_. True)"
proof (cases "map_of (cr_registry rt) (cc_name c)")
  case None
  then show ?thesis by (simp add: invoke_capability_def triple_def)
next
  case (Some item)
  then have "fst (rg_handler item (cc_arguments c) w) \<noteq> Inl (RaisedInterrupt m)" for w m
    using assms unfolding answering_def by blast
  then show ?thesis unfolding triple_def
    by (auto simp: invoke_capability_def Some split: prod.split sum.split raised.split) (metis fst_conv)+
qed

lemma answers_perform_call:
  assumes "answering rt"
  shows "answers (perform_call te rt sn c l) (\<lambda>_. True)"
proof -
  have execute: "answers (execute_call te rt c l') (\<lambda>_. True)" for l'
    unfolding execute_call_def by (rule answers_bind [OF answers_invoke [OF assms] answers_return]) simp
  have refuse: "answers (refuse_call c l') (\<lambda>_. True)" for l'
    unfolding refuse_call_def by (rule answers_return) simp
  have ask: "answers (f s c sn) (\<lambda>_. True)" if "cr_side_effect_authorizer rt = Some f" for f s
    unfolding quiet_answers [symmetric] using assms that by (simp add: answering_def)
  show ?thesis unfolding perform_call_def Let_def
    by (auto split: option.split intro!: execute refuse answers_bind [OF ask] answers_return)
qed

lemma answers_perform_calls: "answering rt \<Longrightarrow> answers (perform_calls te rt sn cs l) (\<lambda>_. True)"
proof (induction cs arbitrary: l)
  case Nil
  show ?case unfolding perform_calls.simps by (rule answers_return) simp
next
  case (Cons c cs)
  then show ?case
    by (auto intro!: answers_return answers_bind [OF answers_perform_call])
qed

lemma answers_call_model:
  assumes "answering rt"
  shows "answers (call_model rt sn) constructed"
  unfolding triple_def
proof (intro allI impI)
  fix w
  have "answers (cr_model_handler rt sn) (\<lambda>r. \<exists>d. r = Some d \<and> constructed d)"
    using assms unfolding answering_def by blast
  then obtain d w' where "cr_model_handler rt sn w = (Inr (Some d), w')" "constructed d"
    unfolding answers_iff by metis
  then show "case call_model rt sn w of (Inr d, w') \<Rightarrow> constructed d | (Inl e, w') \<Rightarrow> False"
    by (simp add: call_model_def)
qed

lemma answers_round_reply:
  assumes "answering rt"
  shows "answers (round_reply rt sn l) (\<lambda>(_, d, _). constructed d)"
proof -
  have fresh: "answers (fresh_reply rt sn) (\<lambda>(_, d). constructed d)"
    unfolding fresh_reply_def Let_def
    by (intro answers_bind [OF answers_optional] answers_bind [OF answers_call_model [OF assms]] answers_return)
      (use assms in \<open>auto simp: answering_def\<close>)
  have recovery: "answers (with_optional (cr_model_response_recovery rt) NoReply (\<lambda>f. f sn))
      (\<lambda>r. r = NoReply \<or> (\<exists>i d. r = RecoveredReply i d \<and> constructed d))"
    by (rule triple_optional) (use assms in \<open>auto simp: answering_def\<close>)
  show ?thesis unfolding round_reply_def
    by (rule answers_bind [OF recovery]) (auto intro!: answers_bind [OF fresh] answers_return)
qed

text \<open>How a turn may end.\<close>

definition ends_well :: "int \<Rightarrow> runtime_turn_result \<Rightarrow> bool" where
  "ends_well rounds r \<longleftrightarrow> 1 \<le> tr_model_rounds r \<and> tr_model_rounds r \<le> rounds
     \<and> (if tr_termination_reason r = ''silence'' then tr_silenced r \<and> tr_response r = None
        else \<not> tr_silenced r \<and> (if tr_termination_reason r = ''responded''
          then \<exists>t. tr_response r = Some t \<and> \<not> blank t
          else tr_response r = None \<and> tr_termination_reason r \<in>
            {''model_round_budget_exhausted'', ''tool_round_budget_exhausted'', ''capability_call_budget_exhausted''}))"

lemma turn_result_sel [simp]:
  "tr_response (turn_result l response silenced n reason) = response"
  "tr_silenced (turn_result l response silenced n reason) = silenced"
  "tr_model_rounds (turn_result l response silenced n reason) = n"
  "tr_termination_reason (turn_result l response silenced n reason) = reason"
  by (simp_all add: turn_result_def Let_def)

lemma constructed_reply:
  assumes "constructed d"
  shows "md_capability_calls d = [] \<Longrightarrow> \<not> md_silence d \<Longrightarrow> md_response d \<noteq> None"
    and "md_response d = Some t \<Longrightarrow> \<not> blank t"
  using assms by (auto simp: constructed_def directive_guards_def some_blank_def)

lemma answers_apply_reply:
  assumes "answering rt" and d: "constructed d" and i: "0 \<le> i" "i < rounds"
  shows "answers (apply_reply te rt sn d l i rounds normal)
    (\<lambda>r. case r of Inl x \<Rightarrow> ends_well rounds x | Inr _ \<Rightarrow> i < rounds - 1)"
proof -
  note reply = constructed_reply [OF d]
  have "needs_continuation rt d \<or> md_response d \<noteq> None" if "\<not> md_silence d"
    using reply(1) that by (auto simp: needs_continuation_def)
  then show ?thesis unfolding apply_reply_def
    using i reply(2) by (auto split: option.splits simp: ends_well_def
        intro!: answers_return answers_bind [OF answers_perform_calls [OF assms(1)]])
qed

lemma answers_run_rounds:
  assumes rt: "answering rt" and "0 \<le> i" "i < rounds"
  shows "answers (run_rounds te rt snap rounds normal [i .. rounds - 1] l) (ends_well rounds)"
  using assms(2,3)
proof (induction "nat (rounds - i)" arbitrary: i l)
  case (Suc n)
  have rounds: "[i .. rounds - 1] = i # [i + 1 .. rounds - 1]" using Suc.prems by (simp add: upto_rec1)
  have meter: "answers (with_optional (cr_model_usage_recorder rt) () (\<lambda>f. f sn d)) (\<lambda>_. True)" for sn d
    by (rule answers_optional) (use rt in \<open>auto simp: answering_def\<close>)
  have rest: "answers (case r of Inl x \<Rightarrow> eff_return x
      | Inr l3 \<Rightarrow> run_rounds te rt snap rounds normal [i + 1 .. rounds - 1] l3) (ends_well rounds)"
    if "case r of Inl x \<Rightarrow> ends_well rounds x | Inr _ \<Rightarrow> i < rounds - 1" for r
  proof (cases r)
    case (Inl x)
    with that show ?thesis by (auto intro: answers_return)
  next
    case (Inr l3)
    with that Suc.hyps(1) [of "i + 1" l3] Suc.hyps(2) Suc.prems show ?thesis by simp
  qed
  show ?case unfolding rounds run_rounds.simps Let_def
  proof (rule answers_bind [OF answers_round_reply [OF rt]])
    fix x :: "runtime_snapshot \<times> model_directive \<times> turn_locals"
    assume "case x of (_, d, _) \<Rightarrow> constructed d"
    then show "answers (case x of (sn, d, l1) \<Rightarrow> eff_bind (with_optional (cr_model_usage_recorder rt) () (\<lambda>f. f sn d)) (\<lambda>_.
        eff_bind (apply_reply te rt sn d (count_usage d l1) i rounds normal) (\<lambda>r. case r of Inl x \<Rightarrow> eff_return x
          | Inr l3 \<Rightarrow> run_rounds te rt snap rounds normal [i + 1 .. rounds - 1] l3))) (ends_well rounds)"
      by (auto simp only: prod.case split: prod.split
          intro!: answers_bind [OF meter] answers_bind [OF answers_apply_reply [OF rt _ Suc.prems]] rest)
  qed
qed simp

lemma run_turn_answers:
  assumes "answering rt" and "construct_runtime rt = Inr rt" and "\<not> blank user_input" and "0 \<le> offset"
    and "\<And>n. limit = Some n \<Longrightarrow> 1 \<le> n"
  shows "\<exists>r w'. run_turn te rt user_input reason cockpit limit offset w = (Inr r, w')
    \<and> ends_well (effective_model_rounds rt limit) r"
proof -
  let ?rounds = "effective_model_rounds rt limit"
  have "0 < ?rounds" using assms(2,5)
    by (auto simp: effective_model_rounds_def normal_model_rounds_def construct_runtime_def split: option.splits)
  then have "answers (run_rounds te rt (\<lambda>i history. snapshot te rt user_input reason cockpit history i ?rounds offset)
      ?rounds (normal_model_rounds rt) [0 .. ?rounds - 1] fresh_locals) (ends_well ?rounds)"
    by (intro answers_run_rounds [OF assms(1)]) auto
  then have "answers (run_turn te rt user_input reason cockpit limit offset) (ends_well ?rounds)"
    using assms(3-5) by (auto simp: run_turn_def Let_def split: option.split)
  then show ?thesis unfolding answers_iff by metis
qed

end
