(* ===== verification/LoopExamples.thy ===== *)
theory LoopExamples
  imports LoopFacts
begin

text \<open>
  A concrete runtime for the turn loop: one capability that reads, one that writes, an authorizer
  that grants the write once, and a model that looks and writes first and then responds. The
  world counts what happened.
\<close>

record loop_world =
  lw_model_calls :: nat
  lw_reads :: nat
  lw_writes :: nat
  lw_grants :: nat

definition ex_text_env :: text_env where
  "ex_text_env = \<lparr>te_str = (\<lambda>v. case v of PStr s \<Rightarrow> s | _ \<Rightarrow> ''?''), te_repr = (\<lambda>v. case v of PStr s \<Rightarrow> s | _ \<Rightarrow> ''?'')\<rparr>"

definition look_spec :: capability_spec where
  "look_spec = \<lparr>cs_name = ''look'', cs_description = ''read'', cs_kind = CK_READ, cs_input_schema = [],
     cs_hard_boundary = False, cs_side_effecting = False\<rparr>"

definition note_spec :: capability_spec where
  "note_spec = \<lparr>cs_name = ''note'', cs_description = ''write'', cs_kind = CK_WRITE, cs_input_schema = [],
     cs_hard_boundary = False, cs_side_effecting = True\<rparr>"

definition ex_registry :: "loop_world registry" where
  "ex_registry =
     [(''look'', \<lparr>rg_spec = look_spec, rg_handler = (\<lambda>_ w. (Inr PNone, w\<lparr>lw_reads := lw_reads w + 1\<rparr>))\<rparr>),
      (''note'', \<lparr>rg_spec = note_spec, rg_handler = (\<lambda>_ w. (Inr PNone, w\<lparr>lw_writes := lw_writes w + 1\<rparr>))\<rparr>)]"

definition ex_reply :: "string list \<Rightarrow> string option \<Rightarrow> model_directive" where
  "ex_reply names answer = \<lparr>md_capability_calls = map (\<lambda>n. \<lparr>cc_name = n, cc_arguments = [], cc_call_id = None\<rparr>) names,
     md_response = answer, md_silence = False, md_usage = None, md_provenance = None\<rparr>"

definition ex_runtime :: "loop_world cognitive_runtime" where
  "ex_runtime = \<lparr>cr_registry = ex_registry,
     cr_model_handler = (\<lambda>sn w. (Inr (Some (if sn_capability_history sn = [] then ex_reply [''look'', ''note''] None
       else ex_reply [] (Some ''hello''))), w\<lparr>lw_model_calls := lw_model_calls w + 1\<rparr>)),
     cr_max_tool_rounds = 4, cr_max_total_capability_calls = 12, cr_repeated_call_limit = 2,
     cr_side_effect_authorizer = Some (\<lambda>s c sn w. if lw_grants w = 0 then (Inr True, w\<lparr>lw_grants := 1\<rparr>) else (Inr False, w)),
     cr_model_usage_recorder = None, cr_model_attempt_admitter = None, cr_model_dispatch_recorder = None,
     cr_model_response_recorder = None, cr_model_failure_recorder = None, cr_model_response_recovery = None\<rparr>"

definition ex_world :: loop_world where
  "ex_world = \<lparr>lw_model_calls = 0, lw_reads = 0, lw_writes = 0, lw_grants = 0\<rparr>"

definition ex_turn_of :: "(raised + runtime_turn_result) \<times> loop_world" where
  "ex_turn_of = run_turn ex_text_env ex_runtime ''hi'' ''user_interaction'' [] None 0 ex_world"

lemma ex_constructed: "construct_runtime ex_runtime = Inr ex_runtime"
  by (simp add: construct_runtime_def ex_runtime_def)

lemma ex_items:
  assumes "map_of (cr_registry ex_runtime) name = Some item"
  shows "(rg_spec item = look_spec \<and> rg_handler item = (\<lambda>_ w. (Inr PNone, w\<lparr>lw_reads := lw_reads w + 1\<rparr>)))
    \<or> (rg_spec item = note_spec \<and> rg_handler item = (\<lambda>_ w. (Inr PNone, w\<lparr>lw_writes := lw_writes w + 1\<rparr>)))"
  using assms by (auto simp: ex_runtime_def ex_registry_def split: if_splits)

lemma ex_capability_step:
  assumes "capability_step ex_runtime s w w'"
  shows "(s = look_spec \<and> w' = w\<lparr>lw_reads := lw_reads w + 1\<rparr>) \<or> (s = note_spec \<and> w' = w\<lparr>lw_writes := lw_writes w + 1\<rparr>)"
proof -
  from assms obtain name item args r where "map_of (cr_registry ex_runtime) name = Some item"
    "rg_spec item = s" "rg_handler item args w = (r, w')" by (auto simp: capability_step_def)
  with ex_items [of name item] show ?thesis by auto
qed

lemma ex_callback_step: "callback_step ex_runtime w w' \<Longrightarrow> w' = w \<or> w' = w\<lparr>lw_grants := 1\<rparr>"
  by (induction rule: callback_step.induct) (auto simp: ex_runtime_def split: if_splits)

lemma ex_model_step: "model_step ex_runtime w w' \<Longrightarrow> w' = w\<lparr>lw_model_calls := lw_model_calls w + 1\<rparr>"
  by (auto simp: model_step_def ex_runtime_def)

definition ex_cost :: "loop_world \<Rightarrow> nat" where
  "ex_cost w = 100 * lw_model_calls w + 7 * (lw_reads w + lw_writes w)"

lemma ex_costs: "costs ex_runtime ex_cost 100 7"
  by (auto simp: costs_def ex_cost_def dest!: ex_callback_step ex_model_step ex_capability_step)

text \<open>At most one write, and none without a grant.\<close>

definition ex_granted :: "loop_world \<Rightarrow> bool" where
  "ex_granted w \<longleftrightarrow> lw_writes w \<le> lw_grants w \<and> lw_grants w \<le> 1"

lemma ex_authorized:
  assumes "cr_side_effect_authorizer ex_runtime = Some ask" "map_of (cr_registry ex_runtime) name = Some item"
    "ex_granted w" "ask (rg_spec item) c sn w = (Inr True, w1)" "rg_handler item args w1 = (r, w2)"
  shows "ex_granted w2"
proof -
  have "lw_grants w = 0" "w1 = w\<lparr>lw_grants := 1\<rparr>"
    using assms(1,4) by (auto simp: ex_runtime_def split: if_splits)
  moreover have "w2 = w1\<lparr>lw_reads := lw_reads w1 + 1\<rparr> \<or> w2 = w1\<lparr>lw_writes := lw_writes w1 + 1\<rparr>"
    using ex_items [OF assms(2)] assms(5) by auto
  ultimately show ?thesis using assms(3) by (auto simp: ex_granted_def)
qed

lemma ex_guarded: "guarded ex_runtime ex_granted"
  unfolding guarded_def
proof (intro conjI allI impI)
  show "ex_granted w'" if "callback_step ex_runtime w w'" "ex_granted w" for w w'
    using ex_callback_step [OF that(1)] that(2) by (auto simp: ex_granted_def)
  show "ex_granted w'" if "model_step ex_runtime w w'" "ex_granted w" for w w'
    using ex_model_step [OF that(1)] that(2) by (simp add: ex_granted_def)
  show "ex_granted w'" if "capability_step ex_runtime s w w'" "\<not> cs_side_effecting s" "ex_granted w" for s w w'
    using ex_capability_step [OF that(1)] that(2,3) by (auto simp: ex_granted_def note_spec_def)
qed (rule ex_authorized)

lemma ex_answering: "answering ex_runtime"
proof -
  have "constructed (ex_reply [''look'', ''note''] None)" "constructed (ex_reply [] (Some ''hello''))"
    by code_simp+
  moreover have "fst (rg_handler item args w) \<noteq> Inl (RaisedInterrupt m)"
    if "map_of (cr_registry ex_runtime) name = Some item" for name item args w m
    using ex_items [OF that] by auto
  ultimately show ?thesis
    unfolding answering_def
    by (intro conjI) (auto simp: ex_runtime_def quiet_def answers_iff)
qed

lemma ex_loop_run:
  "ex_turn_of = (Inr \<lparr>tr_response = Some ''hello'', tr_silenced = False,
     tr_capability_history = tr_capability_history (projr (fst ex_turn_of)),
     tr_model_rounds = 2, tr_termination_reason = ''responded'', tr_model_input_tokens = None,
     tr_model_output_tokens = None, tr_model_total_tokens = None, tr_model_usage_complete = False,
     tr_recovered_response_attempts = []\<rparr>, \<lparr>lw_model_calls = 2, lw_reads = 1, lw_writes = 1, lw_grants = 1\<rparr>)"
  by code_simp

end
