(* ===== verification/Conversations.thy ===== *)
theory Conversations
  imports WorldStore Chains
begin

text \<open>
  runtime/conversation_state.py and runtime/conversation_timeline.py: the working states of a
  session, one append-only chain of versions per session, and the timeline of its turns, where a
  slot is sealed by its first turn. A table is the list of its rows; a payload is the model it
  decodes to, its times at offset zero. The digest of a turn is a parameter. An index with more
  digits than Python prints is refused like any other index that is not the next.
\<close>

datatype conversation_error =
    ConvInvalid contract_error
  | ConvConflict int
  | ConvIntegrity
  | ConvOverflow

definition normalized_time :: "datetime \<Rightarrow> datetime" where
  "normalized_time d = utc_datetime (utc_instant d)"

section \<open>Working states\<close>

record working_state =
  cws_session_id :: string
  cws_version :: int
  cws_current_topic :: "string option"
  cws_topic_branches :: "string list"
  cws_open_loops :: "string list"
  cws_unresolved_questions :: "string list"
  cws_commitments :: "string list"
  cws_key_turn_refs :: "string list"
  cws_relevant_entity_refs :: "string list"
  cws_evidence_refs :: "string list"
  cws_updated_at :: datetime
  cws_supersedes_version :: "int option"

definition non_blank_all :: "string \<Rightarrow> string list \<Rightarrow> guard" where
  "non_blank_all field xs = (list_ex blank xs, Violation (field @ '' must contain only non-blank strings''))"

definition validate_state :: "working_state \<Rightarrow> guard list" where
  "validate_state s =
     [(cws_session_id s = [], FieldConstraint ''session_id''), (cws_version s < 1, FieldConstraint ''version''),
      (case cws_supersedes_version s of None \<Rightarrow> False | Some v \<Rightarrow> v < 1, FieldConstraint ''supersedes_version'')]
     @ as_utc_guards (cws_updated_at s) ''updated_at''
     @ [(blank (cws_session_id s), Violation ''session_id must not be blank''),
        (cws_version s = 1 \<and> cws_supersedes_version s \<noteq> None,
           Violation ''version 1 cannot supersede an earlier version''),
        (1 < cws_version s \<and> cws_supersedes_version s \<noteq> Some (cws_version s - 1),
           Violation ''state versions must form a contiguous append-only chain''),
        non_blank_all ''topic_branches'' (cws_topic_branches s), non_blank_all ''open_loops'' (cws_open_loops s),
        non_blank_all ''unresolved_questions'' (cws_unresolved_questions s),
        non_blank_all ''commitments'' (cws_commitments s), non_blank_all ''key_turn_refs'' (cws_key_turn_refs s),
        non_blank_all ''relevant_entity_refs'' (cws_relevant_entity_refs s),
        non_blank_all ''evidence_refs'' (cws_evidence_refs s)]"

text \<open>Rows: the state a payload decodes to.\<close>

type_synonym state_table = "working_state list"

definition durable_state :: "working_state \<Rightarrow> working_state" where
  "durable_state s = s\<lparr>cws_updated_at := normalized_time (cws_updated_at s)\<rparr>"

definition session_states :: "string \<Rightarrow> state_table \<Rightarrow> working_state list" where
  "session_states session t = filter (\<lambda>r. cws_session_id r = session) t"

definition state_versions :: "state_table \<Rightarrow> string \<Rightarrow> int list" where
  "state_versions t session = map cws_version (session_states session t)"

definition append_state :: "working_state \<Rightarrow> state_table \<Rightarrow> (conversation_error + working_state) \<times> state_table" where
  "append_state s t = (case first_raise (validate_state s) of
     Some e \<Rightarrow> (Inl (ConvInvalid e), t)
   | None \<Rightarrow>
       let expected = next_version (state_versions t (cws_session_id s)) in
       if cws_version s \<noteq> expected then (Inl (ConvConflict expected), t)
       else if \<not> fits_int64 (cws_version s) then (Inl ConvOverflow, t)
       else (Inr s, t @ [durable_state s]))"

definition latest_state :: "string \<Rightarrow> state_table \<Rightarrow> working_state option" where
  "latest_state session t = latest_by cws_version (session_states session t)"

definition get_state :: "string \<Rightarrow> int \<Rightarrow> state_table \<Rightarrow> conversation_error + working_state option" where
  "get_state session version t = (if \<not> fits_int64 version then Inl ConvOverflow
     else Inr (List.find (\<lambda>r. cws_version r = version) (session_states session t)))"

definition state_history :: "string \<Rightarrow> state_table \<Rightarrow> working_state list" where
  "state_history session t = sort_key cws_version (session_states session t)"

section \<open>Turns\<close>

record conversation_turn =
  ct_subject_id :: string
  ct_session_id :: string
  ct_turn_index :: int
  ct_turn_id :: string
  ct_user_text :: string
  ct_assistant_text :: string
  ct_user_observation_ref :: "object_ref option"
  ct_assistant_observation_ref :: "object_ref option"
  ct_occurred_at :: datetime
  ct_recorded_at :: datetime

definition validate_turn :: "conversation_turn \<Rightarrow> guard list" where
  "validate_turn c =
     [(ct_subject_id c = [], FieldConstraint ''subject_id''), (ct_session_id c = [], FieldConstraint ''session_id''),
      (ct_turn_index c < 1, FieldConstraint ''turn_index''), (ct_turn_id c = [], FieldConstraint ''turn_id''),
      refs_field ''user_observation_ref'' (ref_opt_list (ct_user_observation_ref c)),
      refs_field ''assistant_observation_ref'' (ref_opt_list (ct_assistant_observation_ref c)),
      (blank (ct_subject_id c) \<or> blank (ct_session_id c) \<or> blank (ct_turn_id c),
         Violation ''subject_id/session_id/turn_id must not be blank''),
      pin_opt ''user_observation_ref'' (ct_user_observation_ref c),
      pin_opt ''assistant_observation_ref'' (ct_assistant_observation_ref c)]
     @ as_utc_guards (ct_occurred_at c) ''occurred_at'' @ as_utc_guards (ct_recorded_at c) ''recorded_at''
     @ [(utc_instant (ct_recorded_at c) < utc_instant (ct_occurred_at c),
           Violation ''recorded_at must be >= occurred_at'')]"

text \<open>The identity a new turn is named by; \<open>name_of\<close> stands for the hashed text.\<close>

definition create_turn ::
    "(string \<times> string \<times> int \<times> string \<times> string \<times> instant \<Rightarrow> string) \<Rightarrow> string \<Rightarrow> string \<Rightarrow> int \<Rightarrow> string \<Rightarrow> string
      \<Rightarrow> object_ref option \<Rightarrow> object_ref option \<Rightarrow> datetime \<Rightarrow> datetime \<Rightarrow> conversation_error + conversation_turn" where
  "create_turn name_of subject session turn_index user_text assistant_text user_ref assistant_ref occurred recorded =
     (case as_utc occurred ''occurred_at'' of
        Inl e \<Rightarrow> Inl (ConvInvalid e)
      | Inr moment \<Rightarrow>
         let c = \<lparr>ct_subject_id = subject, ct_session_id = session, ct_turn_index = turn_index,
           ct_turn_id = ''turn_'' @ take 24 (name_of (subject, session, turn_index, user_text, assistant_text, moment)),
           ct_user_text = user_text, ct_assistant_text = assistant_text, ct_user_observation_ref = user_ref,
           ct_assistant_observation_ref = assistant_ref, ct_occurred_at = occurred, ct_recorded_at = recorded\<rparr>
         in case first_raise (validate_turn c) of Some e \<Rightarrow> Inl (ConvInvalid e) | None \<Rightarrow> Inr c)"

definition durable_turn :: "conversation_turn \<Rightarrow> conversation_turn" where
  "durable_turn c = c\<lparr>ct_occurred_at := normalized_time (ct_occurred_at c),
     ct_recorded_at := normalized_time (ct_recorded_at c)\<rparr>"

type_synonym turn_table = "conversation_turn list"

definition session_turns :: "string \<times> string \<Rightarrow> turn_table \<Rightarrow> conversation_turn list" where
  "session_turns k t = filter (\<lambda>r. (ct_subject_id r, ct_session_id r) = k) t"

definition turn_indices :: "turn_table \<Rightarrow> string \<times> string \<Rightarrow> int list" where
  "turn_indices t k = map ct_turn_index (session_turns k t)"

definition turn_slot :: "string \<times> string \<Rightarrow> int \<Rightarrow> turn_table \<Rightarrow> conversation_turn option" where
  "turn_slot k i t = List.find (\<lambda>r. ct_turn_index r = i) (session_turns k t)"

definition append_turn ::
    "(conversation_turn \<Rightarrow> 'h) \<Rightarrow> conversation_turn \<Rightarrow> turn_table
      \<Rightarrow> (conversation_error + conversation_turn) \<times> turn_table" where
  "append_turn digest c t = (case first_raise (validate_turn c) of
     Some e \<Rightarrow> (Inl (ConvInvalid e), t)
   | None \<Rightarrow>
       let k = (ct_subject_id c, ct_session_id c); row = durable_turn c in
       if \<not> fits_int64 (ct_turn_index c) then (Inl ConvOverflow, t)
       else (case turn_slot k (ct_turn_index c) t of
           Some r \<Rightarrow> if digest r = digest row then (Inr r, t) else (Inl (ConvConflict (ct_turn_index c)), t)
         | None \<Rightarrow>
             let expected = next_version (turn_indices t k) in
             if ct_turn_index c \<noteq> expected then (Inl (ConvConflict expected), t)
             else if list_ex (\<lambda>r. ct_turn_id r = ct_turn_id c) t then (Inl ConvIntegrity, t)
             else (Inr c, t @ [row])))"

definition reset_session :: "string \<times> string \<Rightarrow> turn_table \<Rightarrow> turn_table" where
  "reset_session k t = filter (\<lambda>r. (ct_subject_id r, ct_session_id r) \<noteq> k) t"

definition get_turn :: "string \<times> string \<Rightarrow> int \<Rightarrow> turn_table \<Rightarrow> conversation_error + conversation_turn option" where
  "get_turn k i t = (if \<not> fits_int64 i then Inl ConvOverflow else Inr (turn_slot k i t))"

definition list_turns ::
    "string \<times> string \<Rightarrow> int \<Rightarrow> int \<Rightarrow> turn_table \<Rightarrow> conversation_error + conversation_turn list" where
  "list_turns k after limit t = (if \<not> fits_int64 after \<or> \<not> fits_int64 (max 1 limit) then Inl ConvOverflow
     else Inr (take (nat (max 1 limit))
       (sort_key ct_turn_index (filter (\<lambda>r. after < ct_turn_index r) (session_turns k t)))))"

section \<open>The chain of working states\<close>

definition state_inv :: "state_table \<Rightarrow> bool" where
  "state_inv t \<longleftrightarrow> (\<forall>session. contiguous (state_versions t session))"

definition state_step :: "state_table \<Rightarrow> state_table \<Rightarrow> bool" where
  "state_step t t' \<longleftrightarrow> (\<exists>s. t' = snd (append_state s t))"

lemma append_state_cases:
  obtains (Refused) e where "append_state s t = (Inl e, t)"
  | (Appended) "append_state s t = (Inr s, t @ [durable_state s])"
      "cws_version s = next_version (state_versions t (cws_session_id s))" "first_raise (validate_state s) = None"
  by (cases "first_raise (validate_state s)";
      cases "cws_version s = next_version (state_versions t (cws_session_id s))"; cases "fits_int64 (cws_version s)")
    (simp_all add: append_state_def Let_def)

lemma durable_state_sel [simp]:
  "cws_session_id (durable_state s) = cws_session_id s" "cws_version (durable_state s) = cws_version s"
  by (simp_all add: durable_state_def)

lemma state_versions_snoc: "state_versions (t @ [r]) session
    = state_versions t session @ (if cws_session_id r = session then [cws_version r] else [])"
  by (simp add: state_versions_def session_states_def)

lemma state_step_versions:
  assumes "state_step t t'"
  shows "state_versions t' k = state_versions t k
    \<or> state_versions t' k = state_versions t k @ [next_version (state_versions t k)]"
proof -
  obtain s where t': "t' = snd (append_state s t)" using assms by (auto simp: state_step_def)
  show ?thesis by (cases rule: append_state_cases [of s t]) (auto simp: t' state_versions_snoc)
qed

interpretation states: version_chain state_versions state_inv state_step
proof
  show "contiguous (state_versions t k)" if "state_inv t" for t k using that by (simp add: state_inv_def)
  show versions: "state_versions t' k = state_versions t k
      \<or> state_versions t' k = state_versions t k @ [next_version (state_versions t k)]"
    if "state_step t t'" for t t' k using that by (rule state_step_versions)
  show "state_inv t'" if "state_inv t" "state_step t t'" for t t'
    using that(1) versions [OF that(2)] contiguous_snoc by (metis state_inv_def)
qed

lemma state_inv_Nil [simp]: "state_inv []"
  by (simp add: state_inv_def state_versions_def session_states_def)

text \<open>Rows are only ever appended.\<close>

lemma state_steps_prefix: "state_step\<^sup>*\<^sup>* t t' \<Longrightarrow> \<exists>new. t' = t @ new"
proof (induction rule: rtranclp_induct)
  case (step u v)
  then obtain s where "v = snd (append_state s u)" by (auto simp: state_step_def)
  then have "\<exists>new. v = u @ new" by (cases rule: append_state_cases [of s u]) auto
  with step.IH show ?case by auto
qed simp

lemma state_reads_stable:
  assumes "state_step\<^sup>*\<^sup>* t t'" and "get_state session v t = Inr (Some s)"
  shows "get_state session v t' = Inr (Some s)"
proof -
  obtain new where "t' = t @ new" using state_steps_prefix [OF assms(1)] by blast
  with assms(2) show ?thesis
    by (auto simp: get_state_def session_states_def find_Some_iff nth_append split: if_splits)
qed

text \<open>The history of a session is its rows in the order of their versions, and the newest is the last.\<close>

lemma strict_sorted_sort: "sorted_wrt (<) (map f xs) \<Longrightarrow> sort_key f xs = xs" for f :: "'a \<Rightarrow> int"
  by (rule sort_key_id_if_sorted) (metis (no_types, lifting) sorted_wrt_mono_rel order_less_imp_le)

lemma state_history_eq: "state_inv t \<Longrightarrow> state_history session t = session_states session t"
  unfolding state_history_def
  by (rule strict_sorted_sort) (simp add: state_inv_def contiguous_sorted flip: state_versions_def)

lemma latest_state_eq:
  assumes "state_inv t" and "session_states session t \<noteq> []"
  shows "latest_state session t = Some (last (session_states session t))"
proof -
  let ?xs = "session_states session t"
  have sorted: "sorted_wrt (<) (map cws_version ?xs)"
    using assms(1) by (simp add: state_inv_def contiguous_sorted flip: state_versions_def)
  obtain r where r: "latest_state session t = Some r" using assms(2) by (cases "latest_state session t") (auto simp: latest_state_def)
  then have max: "r \<in> set ?xs" "\<forall>y \<in> set ?xs. cws_version y \<le> cws_version r"
    using latest_by_Some [of cws_version ?xs r] by (auto simp: latest_state_def)
  obtain ys z where xs: "?xs = ys @ [z]" using assms(2) by (metis append_butlast_last_id)
  have "r = z"
  proof (rule ccontr)
    assume "r \<noteq> z"
    then have "r \<in> set ys" using max(1) xs by auto
    with sorted xs have "cws_version r < cws_version z" by (auto simp: sorted_wrt_append)
    with max(2) xs show False by auto
  qed
  with r xs show ?thesis by simp
qed

section \<open>The timeline\<close>

definition turn_inv :: "turn_table \<Rightarrow> bool" where
  "turn_inv t \<longleftrightarrow> (\<forall>k. contiguous (turn_indices t k)) \<and> distinct (map ct_turn_id t)"

text \<open>A change that does not reset the session \<open>k\<close>.\<close>

inductive timeline_change :: "(conversation_turn \<Rightarrow> 'h) \<Rightarrow> string \<times> string \<Rightarrow> turn_table \<Rightarrow> turn_table \<Rightarrow> bool"
  for digest k where
  appends: "timeline_change digest k t (snd (append_turn digest c t))"
| resets: "k' \<noteq> k \<Longrightarrow> timeline_change digest k t (reset_session k' t)"

inductive timeline_step :: "(conversation_turn \<Rightarrow> 'h) \<Rightarrow> turn_table \<Rightarrow> turn_table \<Rightarrow> bool" for digest where
  appended: "timeline_step digest t (snd (append_turn digest c t))"
| reset: "timeline_step digest t (reset_session k t)"

lemma append_turn_cases:
  obtains (Refused) e where "append_turn digest c t = (Inl e, t)"
  | (Sealed) r where "append_turn digest c t = (Inr r, t)"
      "turn_slot (ct_subject_id c, ct_session_id c) (ct_turn_index c) t = Some r" "digest r = digest (durable_turn c)"
  | (Fresh) "append_turn digest c t = (Inr c, t @ [durable_turn c])"
      "ct_turn_index c = next_version (turn_indices t (ct_subject_id c, ct_session_id c))"
      "\<forall>r \<in> set t. ct_turn_id r \<noteq> ct_turn_id c" "first_raise (validate_turn c) = None" "fits_int64 (ct_turn_index c)"
proof -
  let ?k = "(ct_subject_id c, ct_session_id c)"
  show ?thesis
  proof (cases "first_raise (validate_turn c) = None \<and> fits_int64 (ct_turn_index c)")
    case ok: True
    show ?thesis
    proof (cases "turn_slot ?k (ct_turn_index c) t")
      case (Some r)
      with ok Refused Sealed show ?thesis by (cases "digest r = digest (durable_turn c)") (simp_all add: append_turn_def Let_def)
    next
      case None
      with ok Refused Fresh show ?thesis
        by (cases "ct_turn_index c = next_version (turn_indices t ?k)"; cases "list_ex (\<lambda>r. ct_turn_id r = ct_turn_id c) t")
          (auto simp: append_turn_def Let_def list_ex_iff)
    qed
  next
    case False
    then have "\<exists>e. append_turn digest c t = (Inl e, t)"
      by (cases "first_raise (validate_turn c)") (simp_all add: append_turn_def Let_def)
    with Refused show ?thesis by blast
  qed
qed

lemma durable_turn_sel [simp]:
  "ct_subject_id (durable_turn c) = ct_subject_id c" "ct_session_id (durable_turn c) = ct_session_id c"
  "ct_turn_index (durable_turn c) = ct_turn_index c" "ct_turn_id (durable_turn c) = ct_turn_id c"
  by (simp_all add: durable_turn_def)

lemma session_turns_snoc: "session_turns k (t @ [r])
    = session_turns k t @ (if (ct_subject_id r, ct_session_id r) = k then [r] else [])"
  by (simp add: session_turns_def)

lemma session_turns_reset: "session_turns k (reset_session k' t) = (if k = k' then [] else session_turns k t)"
  by (auto simp: session_turns_def reset_session_def filter_empty_conv intro: filter_cong)

lemma turn_inv_step:
  assumes "turn_inv t" and "timeline_step digest t t'"
  shows "turn_inv t'"
  using assms(2)
proof cases
  case (appended c)
  show ?thesis
  proof (cases rule: append_turn_cases [of digest c t])
    case Fresh
    have "contiguous (turn_indices t k @ [next_version (turn_indices t k)])" for k
      using assms(1) by (cases k) (auto simp: turn_inv_def intro: contiguous_snoc)
    with Fresh assms(1) show ?thesis
      by (auto simp: appended turn_inv_def turn_indices_def session_turns_snoc)
  qed (use assms(1) in \<open>simp_all add: appended\<close>)
next
  case (reset k)
  have "distinct (map ct_turn_id (reset_session k t))"
    using assms(1) by (simp add: turn_inv_def reset_session_def distinct_map_filter)
  with assms(1) show ?thesis by (simp add: reset turn_inv_def turn_indices_def session_turns_reset)
qed

lemma timeline_change_prefix:
  assumes "timeline_change digest k t t'"
  shows "\<exists>new. session_turns k t' = session_turns k t @ new"
  using assms
proof cases
  case (appends c)
  show ?thesis by (cases rule: append_turn_cases [of digest c t]) (auto simp: appends session_turns_snoc)
qed (simp add: session_turns_reset)

lemma timeline_changes_prefix:
  "(timeline_change digest k)\<^sup>*\<^sup>* t t' \<Longrightarrow> \<exists>new. session_turns k t' = session_turns k t @ new"
proof (induction rule: rtranclp_induct)
  case (step u v)
  then show ?case using timeline_change_prefix [OF step.hyps(2)] by auto
qed simp

lemma slot_stays:
  assumes "(timeline_change digest k)\<^sup>*\<^sup>* t t'" and "turn_slot k i t = Some r"
  shows "turn_slot k i t' = Some r"
proof -
  obtain new where "session_turns k t' = session_turns k t @ new" using timeline_changes_prefix [OF assms(1)] by blast
  with assms(2) show ?thesis by (auto simp: turn_slot_def find_Some_iff nth_append)
qed

lemma fresh_slot:
  assumes "append_turn digest c t = (Inr c, t @ [durable_turn c])"
    and "turn_slot (ct_subject_id c, ct_session_id c) (ct_turn_index c) t = None"
  shows "turn_slot (ct_subject_id c, ct_session_id c) (ct_turn_index c) (t @ [durable_turn c]) = Some (durable_turn c)"
  using assms(2) by (auto simp: turn_slot_def session_turns_snoc find_Some_iff find_None_iff nth_append)

text \<open>The first turn of a slot decides what every later append of the slot answers.\<close>

lemma sealed_slot:
  assumes "append_turn digest c t = (Inr s, t')" and "(timeline_change digest (ct_subject_id c, ct_session_id c))\<^sup>*\<^sup>* t' t''"
    and "inj digest" and "first_raise (validate_turn d) = None" and "ct_turn_index d = ct_turn_index c"
    and "(ct_subject_id d, ct_session_id d) = (ct_subject_id c, ct_session_id c)"
  shows "append_turn digest d t'' = (if durable_turn d = durable_turn c then Inr (durable_turn c)
      else Inl (ConvConflict (ct_turn_index c)), t'')"
proof -
  let ?k = "(ct_subject_id c, ct_session_id c)"
  have slot: "turn_slot ?k (ct_turn_index c) t' = Some (durable_turn c) \<and> fits_int64 (ct_turn_index c)"
  proof (cases rule: append_turn_cases [of digest c t])
    case (Sealed r)
    then have "r = durable_turn c" using assms(3) by (simp add: inj_eq)
    moreover have "fits_int64 (ct_turn_index c)"
      using Sealed(1) by (auto simp: append_turn_def Let_def split: option.splits if_split_asm)
    ultimately show ?thesis using Sealed assms(1) by simp
  next
    case Fresh
    have "turn_slot ?k (ct_turn_index c) t = None"
    proof (rule ccontr)
      assume "turn_slot ?k (ct_turn_index c) t \<noteq> None"
      with Fresh(4,5) have "snd (append_turn digest c t) = t"
        by (auto simp: append_turn_def Let_def)
      with Fresh(1) show False by simp
    qed
    from fresh_slot [OF Fresh(1) this] Fresh show ?thesis using assms(1) by simp
  qed (use assms(1) in simp)
  then have "turn_slot ?k (ct_turn_index c) t'' = Some (durable_turn c)" using slot_stays [OF assms(2)] by blast
  with assms(3-6) slot show ?thesis by (auto simp: append_turn_def Let_def inj_eq)
qed

text \<open>A page of the timeline is a slice of the session.\<close>

lemma list_turns_slice:
  assumes "turn_inv t" and "fits_int64 after" "fits_int64 (max 1 limit)" and "0 \<le> after"
  shows "list_turns k after limit t = Inr (take (nat (max 1 limit)) (drop (nat after) (session_turns k t)))"
proof -
  let ?xs = "session_turns k t"
  have idx: "map ct_turn_index ?xs = map int [1 ..< Suc (length ?xs)]"
    using assms(1) unfolding turn_inv_def turn_indices_def contiguous_def by (metis length_map)
  have nth: "ct_turn_index (?xs ! i) = int i + 1" if "i < length ?xs" for i
    using that nth_map [of i ?xs ct_turn_index] by (simp add: idx del: upt_Suc)
  have "filter (\<lambda>r. after < ct_turn_index r) ?xs = drop (nat after) ?xs"
  proof -
    have "filter (\<lambda>r. after < ct_turn_index r) (take (nat after) ?xs) = []"
      using nth assms(4) by (fastforce simp: filter_empty_conv in_set_conv_nth)
    moreover have "filter (\<lambda>r. after < ct_turn_index r) (drop (nat after) ?xs) = drop (nat after) ?xs"
      using nth assms(4) by (auto simp: filter_id_conv in_set_conv_nth)
    ultimately show ?thesis by (metis append_Nil append_take_drop_id filter_append)
  qed
  moreover have "sorted_wrt (<) (map ct_turn_index ?xs)"
    using assms(1) unfolding turn_inv_def turn_indices_def by (blast intro: contiguous_sorted)
  then have "sort_key ct_turn_index (drop (nat after) ?xs) = drop (nat after) ?xs"
    by (intro strict_sorted_sort) (simp add: drop_map [symmetric] sorted_wrt_drop)
  ultimately show ?thesis using assms(2,3) by (simp add: list_turns_def)
qed

end
