(* ===== verification/ConversationExamples.thy ===== *)
theory ConversationExamples
  imports Conversations Examples
begin

text \<open>A session of two turns; the digest of a turn is the turn itself.\<close>

definition ex_talk :: "int \<Rightarrow> string \<Rightarrow> string \<Rightarrow> conversation_turn" where
  "ex_talk i name reply = \<lparr>ct_subject_id = ''s'', ct_session_id = ''c'', ct_turn_index = i, ct_turn_id = name,
     ct_user_text = ''hi'', ct_assistant_text = reply, ct_user_observation_ref = None,
     ct_assistant_observation_ref = None, ct_occurred_at = utc_datetime 1, ct_recorded_at = utc_datetime 2\<rparr>"

definition ex_timeline1 :: turn_table where
  "ex_timeline1 = snd (append_turn id (ex_talk 1 ''t1'' ''yes'') [])"

definition ex_timeline2 :: turn_table where
  "ex_timeline2 = snd (append_turn id (ex_talk 2 ''t2'' ''bye'') ex_timeline1)"

lemma ex_talk_first: "append_turn id (ex_talk 1 ''t1'' ''yes'') [] = (Inr (ex_talk 1 ''t1'' ''yes''), ex_timeline1)"
proof -
  have "fst (append_turn id (ex_talk 1 ''t1'' ''yes'') []) = Inr (ex_talk 1 ''t1'' ''yes'')" by code_simp
  then show ?thesis by (simp add: ex_timeline1_def prod_eq_iff)
qed

lemma ex_talk_later: "(timeline_change id (''s'', ''c''))\<^sup>*\<^sup>* ex_timeline1 ex_timeline2"
  unfolding ex_timeline2_def by (intro r_into_rtranclp appends)

end
