(* ===== verification/Spec2Isabelle.thy ===== *)
theory Spec2Isabelle
  imports Consequences LoopExamples ConversationExamples
begin

text \<open>
  A verification development for AIOS Core (src/aios_core/): the durable world store and the
  contracts it stores, the runtime ledgers that decide whether a model request may be sent and whose
  reply may be trusted, the turn loop of the resident model, its wakes, conversations and policies,
  and the services that ground cognition in evidence and revise it.

  \<^bold>\<open>The program and its parts.\<close> Services build world objects (contracts/models.py) and hand them
  with an operation request (contracts/operations.py) to storage/sqlite_store.py. A commit
  validates both, answers a retry from its idempotency record, checks the optimistic revision,
  the revision numbers, every typed reference and the dependency graph (dependency/graph.py),
  and appends rows to five tables. Reads are historical: at a world revision and at a
  knowledge cutoff. In the same database file runtime/background_attempt.py keeps one attempt
  per round of work with a state machine around the provider boundary, runtime/late_return.py
  verifies replies an external authority signed after the process was lost,
  runtime/metering.py records each call once, runtime/turn_execution.py decides whether a user
  turn may run again by reading the attempts and the world, and runtime/budget_gate.py grants
  autonomous runs within daily caps by reading policies, wakes and metered calls.
  runtime/cognitive_runtime.py runs a turn: it calls the model, recovers replies and executes
  capabilities (runtime/capabilities.py); runtime/conversation_timeline.py and
  conversation_state.py keep what was said. Four services write the world through commits:
  wake/service.py turns signals into wakes, policy/service.py keeps policies that the AI may change on
  evidence, policy/evidence.py decides what counts as evidence, and revision/service.py replaces a
  claim and, with revision/propagation.py, marks everything that depends on it.

  \<^bold>\<open>Theories.\<close>

  \<^item> Prelude: results, guards, table scans, Python text.
  \<^item> Enums, Timing, Refs, Models, WorldObjects, Operations: contracts/*.py, one record per
    model with its fields in source order and one list of guards per validator, in the order the
    code raises.
  \<^item> DepGraph: dependency/graph.py; the recursive search is a loop over explicit frames,
    the reverse scan a worklist loop, both \<open>while_option\<close> so that an endless loop
    would be None.
  \<^item> Idempotency: storage/idempotency.py: what the durable encoders reject, the value they
    store, and the identity a fingerprint hashes.
  \<^item> WorldStore, WorldCommit, WorldBatch: tables, reads, commit, prune, exact replay,
    batch reads. Chains holds the locales: append-only tables, version chains, and machines
    refined by the steps of a component, interpreted where the component is proved;
    WorldEffects, WorldInv, WorldTables, WorldGraph, WorldHistory, WorldReplay, WorldService
    prove the invariants and the behaviour of runs.
  \<^item> Directives: ModelUsage, ModelCallProvenance and ModelDirective of
    runtime/cognitive_runtime.py, the encoder and strict decoder of background_attempt.py.
    LateReturn: runtime/late_return.py.
  \<^item> Attempts, AttemptReturns, AttemptLate: the operations of BackgroundModelAttemptStore,
    in the order of the code. AttemptInv, AttemptProofs, AttemptSteps, AttemptSafety,
    AttemptGuarantees, AttemptRecovery: its invariant, the abstract machine of one attempt, and
    the consequences. Metering, MeteringFacts: runtime/metering.py.
  \<^item> TurnExec, TurnSafety: runtime/turn_execution.py over the runtime tables and the world store,
    and runs of its operations interleaved with runtime operations and commits.
    BudgetGate, BudgetFacts: runtime/budget_gate.py, its grants and reservations.
  \<^item> Capabilities, CognitiveLoop, LoopFacts: runtime/capabilities.py and the turn loop of
    runtime/cognitive_runtime.py, with triples over effects that cover answers and raises.
  \<^item> Conversations: runtime/conversation_state.py and conversation_timeline.py.
  \<^item> Services, ServiceFacts: what the writing services share (validation of a stored payload as a
    model, stable identifiers, reads that raise). WakeBus, WakeFacts, WakeRetry,
    WakeRepeats: wake/service.py, the machine of a wake, and signals that are emitted again.
  \<^item> Policies, PolicyFacts, PolicyEvidence, PolicyReplay: policy/service.py. Grounding,
    GroundingFacts: policy/evidence.py and the graph its walk decides.
  \<^item> Propagation, PropagationFacts: revision/propagation.py. Revisions, RevisionFacts,
    RevisionReplay: revision/service.py.
  \<^item> Consequences: further theorems with concrete instances, on replays, late returns,
    metering, pruned wakes, the step-0 gate and policies. Examples, LateExamples, RuntimeExamples,
    TurnExamples, BudgetExamples, LoopExamples, ConversationExamples, WakeExamples, PolicyExamples,
    GroundingExamples, RevisionExamples: concrete stores, a concrete RSA key with signed messages,
    a run of an attempt from admission to metering, a turn, a day with a reservation, a policy with
    evidence and a retracted claim, on which every property with a hypothesis is applied.

  \<^bold>\<open>Correspondence.\<close> A table is a list of rows in insertion order; an operation takes the tables
  and answers a result together with the tables after it, because some operations commit a
  change and then raise. A rollback answers the tables it started from. A raised error is the
  \<open>Inl\<close> of a result. Python integers are \<open>int\<close>, with the 64-bit range of SQLite written out
  where a statement binds them (\<open>fits_int64\<close>). Floats of the contracts are rationals. Instants are
  microseconds since year 1 in UTC, and strings are lists of 8-bit characters. Parameters of the model,
  never defined here: the time zone database (\<open>zones\<close>), SHA-256 over request identities and turns
  (\<open>digest\<close>), the record \<open>codec\<close> of \<open>json.dumps\<close>, \<open>json.loads\<close> and SHA-256 over text, the
  records \<open>gate_env\<close>, \<open>service_env\<close> and \<open>text_env\<close> of Python's date and value printing,
  pydantic's rendering of an extent, and the callables a runtime is constructed with, which are
  effects on a world of any type. Where a property relies on one of them it says so: \<open>inj digest\<close> (no
  collision) in C4, C30 and for padded signals in C32, a parser that reads back what was printed in C14,
  digests of 32 bytes (\<open>sha256_codec\<close>) in C21. The clock, \<open>uuid4\<close> and the identifiers a caller chooses are arguments.

  \<^bold>\<open>What the lemmas show.\<close> C1 to C9 are about runs of commits and prunes on the world store: the
  invariant, stable reads, retries and conflicts, lost updates, what a commit appends, resolved
  references, acyclicity. C10 and C11 say that the two graph algorithms always end and are exact. C12
  and C13 are about the change feed and batch reads. C14 is the directive encoding, with the calls its decoder
  refuses, C15 what the signature in a proof text is and binds. C16 and C17 are the invariant of the runtime database and the refinement: every
  operation, on every branch, is for every attempt a step of an abstract machine of four facts
  (request, binding, receipt, staged response); C18 to C22 follow: one dispatch, no artifacts
  without dispatch, externally proven receipts, what becomes of a verified return (adopted, or durable
  and stuck when its identity is padded), one meter record. C23
  to C25 are about user turns in arbitrary interleavings: runs are counted by authorized retries, a
  retry needs a ledger without sent requests, and a finished turn never runs. C26 bounds what the
  budget gate grants. C27 to C29 hold for a turn whatever its callables do: bounded work, side
  effects only after authorization, and a well-formed result. C30 says that the first turn of a
  slot is final. C31 and C32 are the life of a wake and a signal that is emitted again, right away
  or after any run: counted once, or refused when it is padded. C33 to C35
  are about the policy registry: what the AI cannot change, the evidence of its changes, and repeated
  updates, which never write again and answer the first receipt or the error of a check.
  C36 says that the traversal of policy/evidence.py decides a specification on the graph of
  versions. C37 says the same of an invalidation plan, and C38 to C40 what a revision leaves behind: the
  next version of the claim, a mark on every dependent, and a commit that is answered when it is repeated.

  \<^bold>\<open>Loops and bounds.\<close> No property is stated with fuel. The loops of DepGraph are proved to end
  (the number of unvisited nodes and pending edges decreases); the walk of Grounding ends because the
  versions on its stack are distinct rows of the store; batch reads recurse on the list of
  chunks and the turn loop on its remaining rounds; every other operation is structural.

  \<^bold>\<open>Not modelled.\<close> Schema creation and migration (including the one-off migration of legacy
  authority rows in background_attempt.py), connections, WAL and locking: transactions are
  atomic and ordered. \<open>iter_latest_payloads\<close> (SQL JSON functions). turn_runtime.py, which wires the
  loop to the stores and the prompts, the network providers, and the other services that build objects
  and call commit (execution, events, communication, ingest, review, summaries). The search index
  that follows the store (its \<open>catch_up\<close> after a commit), text search, prompt texts and process I/O.
  Four raises of Python are not told apart: a \<open>limit\<close> or world revision of the change feed beyond
  64 bits (OverflowError), a cooldown too long for a timedelta (OverflowError), a policy whose bounds
  and value cannot be compared (TypeError, which commit does not turn into a store error; the model
  answers the failed validation), and a chain of evidence deeper than the recursion limit.
  \<open>context_payload\<close> of a budget decision and \<open>audit_payload\<close> of a lineage, which only render
  what is modelled.
\<close>

section \<open>The world store\<close>

text \<open>
  C1: every store reached from an empty database by commits and prunes, accepted or
  refused, satisfies the whole invariant: the world revision counts the commits, each
  object's revisions are \<open>1, \<dots>, n\<close> with one type, rows are stamped in order, operations and
  idempotency records agree, payloads are durable forms of valid objects, references
  resolve, and the live dependency edges are acyclic.
\<close>
theorem world_store_invariant:
  assumes "world_steps zones digest initial_store st"
  shows "world_inv zones st"
  using commits.steps_inv [OF assms world_inv_initial] .

lemma world_store_invariant_witness: "world_inv all_zones store3"
  using world_store_invariant [OF example_steps(3)] .

text \<open>
  C2: reads at a world revision are stable: once a store has reached world revision
  \<open>w\<close>, whatever is committed or pruned later, \<open>get_payload\<close> and \<open>list_payloads\<close> at \<open>w\<close>
  answer what they answered then, with any knowledge cutoff.
\<close>
theorem historical_reads_stable:
  assumes "world_inv zones st" and "world_steps zones digest st st'" and "w \<le> world_clock st"
  shows "get_payload st' oid revision (Some w) cutoff = get_payload st oid revision (Some w) cutoff
    \<and> list_payloads st' object_type subject (Some w) cutoff
        = list_payloads st object_type subject (Some w) cutoff"
  using get_payload_stable [OF assms(2,1,3)] list_payloads_stable [OF assms(2,1,3)] by simp

lemma historical_reads_stable_witness:
  "get_payload store3 ''d'' None (Some 1) None = get_payload store1 ''d'' None (Some 1) None
    \<and> list_payloads store3 None None (Some 1) None = list_payloads store1 None None (Some 1) None"
  using historical_reads_stable [OF example_inv(1) example_steps(2)] example_clock(1) by simp

text \<open>
  C3: a retry is answered from the record: when a commit was applied, the same request
  sent again at any later time returns the first result, marked as a replay, and writes
  nothing.
\<close>
theorem retry_returns_first_result:
  assumes "world_inv zones st" and "objs \<noteq> []"
    and "get_idempotent_result zones digest op objs st = Inr None"
    and "commit zones digest now objs op st = (Inr res, st')"
    and "world_steps zones digest st' st''"
  shows "commit zones digest now' objs op st'' = (Inr (res\<lparr>cr_idempotent_replay := True\<rparr>), st'')"
  using retry_answers_first_result [OF assms(4,1,3,2,5)] .

lemma retry_returns_first_result_witness:
  "example_commit 99 objects1 (request ''k1'' 0) store3
    = (Inr (result1\<lparr>cr_idempotent_replay := True\<rparr>), store3)"
  using retry_returns_first_result [OF world_inv_initial _ example_fresh1 example_commit1 example_steps(2)]
  by (simp add: objects1_def)

text \<open>
  C4: a key serves one request: once a commit was applied, a request with the same
  idempotency key and another identity (operation id, session, name, arguments, expected
  revision, reason or objects) is refused with IDEMPOTENCY_CONFLICT at every later time
  and writes nothing, for a digest without collisions.
\<close>
theorem reused_key_conflicts:
  assumes "world_inv zones st" and "inj digest"
    and "get_idempotent_result zones digest op objs st = Inr None"
    and "commit zones digest now objs op st = (Inr res, st')"
    and "world_steps zones digest st' st''"
    and "op_idempotency_key op' = op_idempotency_key op" and "objs' \<noteq> []"
    and "request_identity_of op' objs' \<noteq> request_identity_of op objs"
  shows "\<exists>reason. commit zones digest now' objs' op' st''
    = (Inl (StoreError EC_IDEMPOTENCY_CONFLICT reason), st'')"
  using other_request_conflicts [OF assms(4,1,3,5,6,7,8,2)] .

lemma reused_key_conflicts_witness:
  "\<exists>reason. example_commit 99 objects2 (request ''k1'' 0) store3
    = (Inl (StoreError EC_IDEMPOTENCY_CONFLICT reason), store3)"
  by (rule reused_key_conflicts [OF world_inv_initial inj_on_id example_fresh1 example_commit1
        example_steps(2)]) code_simp+

text \<open>
  C5: no lost update: when a commit was applied, a request expecting the same world
  revision that is not its replay fails at every later time and leaves the store as it is.
\<close>
theorem stale_writer_rejected:
  assumes "world_inv zones st"
    and "get_idempotent_result zones digest op objs st = Inr None"
    and "commit zones digest now objs op st = (Inr res, st')"
    and "world_steps zones digest st' st''"
    and "op_expected_world_revision op' = op_expected_world_revision op"
    and "get_idempotent_result zones digest op' objs' st'' = Inr None"
  shows "\<exists>e. commit zones digest now' objs' op' st'' = (Inl e, st'')"
  using stale_writer_loses [OF assms(3,1,2,4,5,6)] .

lemma stale_writer_rejected_witness:
  "\<exists>e. example_commit 99 objects2 (request ''k9'' 0) store3 = (Inl e, store3)"
  by (rule stale_writer_rejected [OF world_inv_initial example_fresh1 example_commit1
        example_steps(2)]) code_simp+

text \<open>
  C6: an applied commit adds exactly what it announces: one commit at the next world
  revision, one operation, one idempotency record and one content row per object, each
  with the next revision of its object, and the result lists these keys in order.
\<close>
theorem commit_appends_exactly:
  assumes "world_inv zones st" and "get_idempotent_result zones digest op objs st = Inr None"
    and "commit zones digest now objs op st = (Inr res, st')"
  shows "res = commit_result_of (world_clock st + 1) op objs
    \<and> ws_commits st' = ws_commits st @ [commit_row_of (world_clock st + 1) now op]
    \<and> ws_revisions st' = ws_revisions st @ map (content_row (world_clock st + 1)) objs
    \<and> ws_operations st' = ws_operations st @ [operation_row_of (world_clock st + 1) now op]
    \<and> length (ws_idempotency st') = length (ws_idempotency st) + 1
    \<and> current_world_revision st' = Inr (world_clock st + 1)
    \<and> (\<forall>ob \<in> set objs. wo_revision ob = next_version (object_versions st (wo_object_id ob)))"
proof (rule recorded [OF assms(3,2)])
  fix h assume r: "res = commit_result_of (cr_world_revision res) op objs"
    "accepted zones digest objs op st (cr_world_revision res - 1) h"
    "st' = appended now (cr_world_revision res) op objs h st"
  have w: "cr_world_revision res = world_clock st + 1" "world_clock st' = world_clock st + 1"
    using fresh_commit_advances [OF assms(3,1,2)] by simp_all
  have "clock_inv st'" using world_inv_commit [OF assms(1,3)] by (simp add: world_inv_def)
  then have "current_world_revision st' = Inr (world_clock st + 1)"
    using clock_revision(1) [of st'] w(2) by (simp add: current_world_revision_def world_clock_def)
  moreover have "\<forall>ob \<in> set objs. wo_revision ob = next_version (object_versions st (wo_object_id ob))"
    using r(2) by (auto simp: accepted_def check_revision_Inr)
  ultimately show ?thesis using r(1,3) w(1) by simp
qed

lemma commit_appends_exactly_witness:
  "ws_revisions store1 = map (content_row 1) objects1 \<and> current_world_revision store1 = Inr 1"
  using commit_appends_exactly [OF world_inv_initial example_fresh1 example_commit1]
  by (simp add: world_clock_def initial_store_def)

text \<open>
  C7: history is append-only: along any run the rows of a store stay a prefix, new rows
  carry later world revisions, and the versions of each object extend the chain
  \<open>1, \<dots>, n\<close> without gaps.
\<close>
theorem history_append_only:
  assumes "world_inv zones st" and "world_steps zones digest st st'"
  shows "ws_revisions st' = ws_revisions st @ filter (\<lambda>r. world_clock st < rr_world_revision r) (ws_revisions st')
    \<and> ws_commits st' = ws_commits st @ filter (\<lambda>c. world_clock st < cm_world_revision c) (ws_commits st')
    \<and> object_versions st' oid = map int [1 ..< Suc (length (object_versions st' oid))]
    \<and> length (object_versions st oid) \<le> length (object_versions st' oid)"
  using revisions.after_cut [OF assms(2,1)] commits.after_cut [OF assms(2,1)]
    objects.steps_newest [OF assms(2,1), of oid] by simp

lemma history_append_only_witness:
  "ws_revisions store3 = ws_revisions store1
     @ filter (\<lambda>r. world_clock store1 < rr_world_revision r) (ws_revisions store3)
   \<and> object_versions store3 ''d'' = map int [1 ..< Suc (length (object_versions store3 ''d''))]"
  using history_append_only [OF example_inv(1) example_steps(2), of "''d''"] by simp

text \<open>
  C8: references are readable in history: in every reachable store, every typed reference
  of a stored object can be read at the world revision that stored the object and at the
  object's knowledge cutoff, by its exact revision when it is pinned.
\<close>
theorem references_resolve:
  assumes "world_steps zones digest initial_store st" and "r \<in> set (ws_revisions st)"
    and "rr_payload r = PayloadObject ob" and "x \<in> set (collect_refs ob)"
    and "t = utc_instant (reference_cutoff ob)" and "0 \<le> t" and "t \<le> max_instant"
  shows "\<exists>p. get_payload st (ref_object_id x) (ref_revision x) (Some (rr_world_revision r))
           (Some (utc_datetime t)) = Inr p"
  using reference_readable [OF commits.steps_inv [OF assms(1) world_inv_initial] assms(2-7)] .

lemma references_resolve_witness:
  "\<exists>p. get_payload store3 ''a'' (Some 1) (Some 2) (Some (utc_datetime 1)) = Inr p"
proof -
  let ?ob = "durable_object (plain_object ''d'' 1 (depends ''b'' ''a''))"
  have mem: "content_row 2 (plain_object ''d'' 1 (depends ''b'' ''a'')) \<in> set (ws_revisions store3)"
    by code_simp
  have x: "oref ''a'' (Some 1) \<in> set (collect_refs ?ob)" by code_simp
  have t: "1 = utc_instant (reference_cutoff ?ob)" by code_simp
  show ?thesis
    using references_resolve [OF example_steps(3) mem _ x t]
    by (simp add: oref_def max_instant_def)
qed

text \<open>
  C9: the dependency graph of a reachable store stays acyclic: the program's own cycle
  search over the newest versions of the dependencies ends and finds none.
\<close>
theorem dependencies_acyclic:
  assumes "world_steps zones digest initial_store st"
  shows "find_dependency_cycle (live_dependencies st) = Some (Inr None)"
proof -
  have inv: "world_inv zones st" using commits.steps_inv [OF assms world_inv_initial] .
  then have "all_pinned (live_dependencies st)" by (rule live_dependencies_pinned)
  with inv show ?thesis by (simp add: find_dependency_cycle_iff world_inv_def graph_inv_def)
qed

lemma dependencies_acyclic_witness:
  "find_dependency_cycle (live_dependencies store2) = Some (Inr None) \<and> live_dependencies store2 \<noteq> []"
proof -
  have "live_dependencies store2 \<noteq> []" by code_simp
  then show ?thesis
    using dependencies_acyclic [OF rtranclp.rtrancl_into_rtrancl [OF example_steps(1,4)]] by simp
qed

text \<open>
  C10: the depth-first cycle search is total and exact on pinned dependencies: it always
  returns, it reports no cycle exactly when the edge relation is acyclic, and a reported
  path is a closed walk along the edges.
\<close>
theorem cycle_search_correct:
  assumes "edge_keys deps = Inr es"
  shows "(find_dependency_cycle deps = Some (Inr None) \<and> acyclic (set es))
    \<or> (\<exists>ks. find_dependency_cycle deps = Some (Inr (Some (map key_ref ks))) \<and> closed_walk es ks
           \<and> \<not> acyclic (set es))"
  using find_dependency_cycle_cases [OF assms] closed_walk_not_acyclic by blast

lemma cycle_search_correct_witness:
  "\<exists>ks. find_dependency_cycle cyclic_dependencies = Some (Inr (Some (map key_ref ks)))
     \<and> closed_walk [((''a'', 1), (''b'', 1)), ((''b'', 1), (''a'', 1))] ks"
proof -
  have es: "edge_keys cyclic_dependencies = Inr [((''a'', 1), (''b'', 1)), ((''b'', 1), (''a'', 1))]"
    by code_simp
  have "((''a'', 1::int), (''a'', 1::int)) \<in> {((''a'', 1), (''b'', 1)), ((''b'', 1), (''a'', 1))}\<^sup>+"
    by (rule trancl_trans [OF r_into_trancl r_into_trancl]) auto
  then have "\<not> acyclic (set [((''a'', 1::int), (''b'', 1::int)), ((''b'', 1), (''a'', 1))])"
    by (auto simp: acyclic_def)
  with cycle_search_correct [OF es] show ?thesis by blast
qed

text \<open>
  C11: the reverse scan reports exactly the impacted dependents: every version from which
  the changed one can be reached along dependencies, each once, and never the changed
  version itself; it always ends.
\<close>
theorem impacted_dependents_exact:
  assumes "ref_key changed = Inr k" and "edge_keys deps = Inr es"
  shows "\<exists>rs. collect_impacted_dependents deps changed True = Some (Inr rs) \<and> distinct rs
    \<and> set rs = key_ref ` ({x. (x, k) \<in> (dep_edges deps)\<^sup>+} - {k})"
  using collect_impacted_result [OF assms] .

lemma impacted_dependents_exact_witness:
  "\<exists>rs. collect_impacted_dependents cyclic_dependencies (oref ''a'' (Some 1)) True = Some (Inr rs)
     \<and> distinct rs"
proof -
  have "ref_key (oref ''a'' (Some 1)) = Inr (''a'', 1)"
    and "edge_keys cyclic_dependencies = Inr [((''a'', 1), (''b'', 1)), ((''b'', 1), (''a'', 1))]"
    by code_simp+
  from impacted_dependents_exact [OF this] show ?thesis by blast
qed

text \<open>
  C12: a complete change feed never cuts a commit: with \<open>complete_commits\<close>, every row
  after the consumer's watermark and up to the newest world revision in the answer is in
  the answer, and the answer holds nothing else.
\<close>
theorem change_feed_complete:
  assumes "world_inv zones st" and "revisions_after st w limit True = Inr rows" and "r \<in> set rows"
  shows "set rows \<subseteq> set (ws_revisions st)
    \<and> (\<forall>q \<in> set (ws_revisions st). w < rr_world_revision q \<longrightarrow>
        rr_world_revision q \<le> rr_world_revision r \<longrightarrow> q \<in> set rows)"
proof -
  have "chain_inv st" using assms(1) by (simp add: world_inv_def)
  then show ?thesis
    using revisions_after_complete [OF _ assms(2,3)] revisions_after_sound [OF assms(2)] by blast
qed

lemma change_feed_complete_witness:
  "content_row 1 (plain_object ''b'' 1 (reading 7)) \<in> set (map (content_row 1) objects1)"
proof -
  have a: "revisions_after store3 0 1 True = Inr (map (content_row 1) objects1)" by code_simp
  have r: "content_row 1 (plain_object ''a'' 1 (reading 5)) \<in> set (map (content_row 1) objects1)"
    by (simp add: objects1_def)
  have "content_row 1 (plain_object ''b'' 1 (reading 7)) \<in> set (ws_revisions store3)" by code_simp
  with change_feed_complete [OF example_inv(3) a r] show ?thesis by (auto simp del: set_map)
qed

text \<open>
  C13: the batch read is equivalent to single reads: when \<open>get_payloads_for_ids\<close> succeeds, it
  maps each requested object to the payload \<open>get_payload\<close> answers for it, and to nothing when
  that read fails.
\<close>
theorem batch_read_equals_single_reads:
  assumes "world_inv zones st" and "get_payloads_for_ids st ids as_of cutoff = Inr m" and "oid \<noteq> []"
  shows "map_of m oid = (if oid \<in> set ids then
      (case get_payload st oid None as_of cutoff of Inr p \<Rightarrow> Some p | Inl e \<Rightarrow> None) else None)"
  using batch_equals_single_reads [OF assms] .

lemma batch_read_equals_single_reads_witness:
  "map_of (case get_payloads_for_ids store2 [''a'', ''zz''] None None of Inr m \<Rightarrow> m) ''a''
     = Some (case get_payload store2 ''a'' None None None of Inr p \<Rightarrow> p)"
proof -
  define m where "m = (case get_payloads_for_ids store2 [''a'', ''zz''] None None of Inr m \<Rightarrow> m)"
  have run: "get_payloads_for_ids store2 [''a'', ''zz''] None None = Inr m"
    unfolding m_def by code_simp
  define p where "p = (case get_payload store2 ''a'' None None None of Inr p \<Rightarrow> p)"
  have "get_payload store2 ''a'' None None None = Inr p" unfolding p_def by code_simp
  with batch_read_equals_single_reads [OF example_inv(2) run, of "''a''"]
  have "map_of m ''a'' = Some p" by simp
  then show ?thesis unfolding m_def p_def .
qed

section \<open>Exact provider replies\<close>

text \<open>
  C14: the encoder and the strict decoder, for a directive its constructors accept whose encoding
  the JSON codec prints as a text that is not blank and parses back to the printed value. When every
  call has a non-blank name and no blank call id, decoding gives the directive without its two extra
  token counters and with each typed reference among the arguments as its mapping. When some
  call has a blank name or a blank id, which CapabilityCall accepts and the encoder writes, decoding
  raises. In both cases the decoded form has the response fingerprint of the original.
\<close>
theorem directive_roundtrip:
  assumes "constructed d" and "encode_model_directive cd d = Inr text" and "\<not> blank text"
    and "cd_loads cd text = Some t" and "strict_json t = Inr (durable_value (directive_payload d))"
  shows "decode_model_directive cd text = (if \<forall>c \<in> set (md_capability_calls d). decodable_call c
      then Inr (durable_directive d) else Inl (DirectiveInvalid ''must be non-blank text''))
    \<and> response_fingerprint cd (durable_directive d) = response_fingerprint cd d"
  using decode_of_encoded [OF assms(2-5,1)] encode_durable [OF assms(2)] assms(2)
  by (simp add: response_fingerprint_def encode_model_directive_def refused_call_def)

lemma directive_roundtrip_witness:
  "decode_model_directive ex_codec ''x'' = Inr (ex_directive ''p'')
    \<and> response_fingerprint ex_codec (ex_directive ''p'') = Inr ex_fingerprint"
proof -
  have same: "durable_directive (ex_directive ''p'') = ex_directive ''p''"
    by (simp add: durable_directive_def ex_directive_def)
  have enc: "encode_model_directive ex_codec (ex_directive ''p'') = Inr ''x''"
    using ex_fingerprint_of [of "''p''"] by (simp add: response_fingerprint_Inr_iff encode_Inr_iff)
  have ok: "constructed (ex_directive ''p'')" by code_simp
  have calls: "\<forall>c \<in> set (md_capability_calls (ex_directive ''p'')). decodable_call c"
    by (simp add: ex_directive_def)
  have parse: "cd_loads ex_codec ''x'' = Some (reply_tree ''p'')" by (simp add: ex_codec_def)
  have tree: "strict_json (reply_tree ''p'') = Inr (durable_value (directive_payload (ex_directive ''p'')))"
    by code_simp
  have "\<not> blank ''x''" by code_simp
  from directive_roundtrip [OF ok enc this parse tree] show ?thesis
    using ex_fingerprint_of calls by (simp add: same)
qed

section \<open>Late returns\<close>

text \<open>
  C15: what a verified proof text is. It is the canonical text of the verifier's key id and a
  signature of the width of the modulus; the number of this signature is positive and below the
  modulus \<open>n\<close>, and its \<open>e\<close>-th power modulo \<open>n\<close> is the padded SHA-256 digest of the message. The
  same text verifies for another message exactly when SHA-256 gives both the same digest.
\<close>
theorem proof_binds_message:
  assumes "verify_late_return_proof cd v message proof_text"
  shows "(\<exists>signature_hex signature. canonical_late_return_proof (lv_key_id v) signature_hex = Inr proof_text
        \<and> decode_late_return_proof proof_text = Inr (lv_key_id v, signature_hex)
        \<and> bytes_fromhex signature_hex = Some signature
        \<and> length signature = (bit_length (modulus_int v) + 7) div 8
        \<and> 0 < from_bytes signature \<and> from_bytes signature < modulus_int v
        \<and> from_bytes signature ^ nat (lv_public_exponent v) mod modulus_int v
            = from_bytes (padded_digest (length signature) (cd_sha256 cd message)))
    \<and> (\<forall>message'. verify_late_return_proof cd v message' proof_text = (cd_sha256 cd message' = cd_sha256 cd message))"
proof
  obtain s signature where s: "decode_late_return_proof proof_text = Inr (lv_key_id v, s)"
    "bytes_fromhex s = Some signature" "length signature = (bit_length (modulus_int v) + 7) div 8"
    "0 < from_bytes signature" "from_bytes signature < modulus_int v"
    "from_bytes signature ^ nat (lv_public_exponent v) mod modulus_int v
       = from_bytes (padded_digest (length signature) (cd_sha256 cd message))"
    by (rule verified_is_root [OF assms])
  from s(1) have "canonical_late_return_proof (lv_key_id v) s = Inr proof_text"
    by (simp add: canonical_proof_Inr_iff decode_proof_Inr_iff)
  with s show "\<exists>signature_hex signature. canonical_late_return_proof (lv_key_id v) signature_hex = Inr proof_text
      \<and> decode_late_return_proof proof_text = Inr (lv_key_id v, signature_hex)
      \<and> bytes_fromhex signature_hex = Some signature
      \<and> length signature = (bit_length (modulus_int v) + 7) div 8
      \<and> 0 < from_bytes signature \<and> from_bytes signature < modulus_int v
      \<and> from_bytes signature ^ nat (lv_public_exponent v) mod modulus_int v
          = from_bytes (padded_digest (length signature) (cd_sha256 cd message))" by blast
  show "\<forall>message'. verify_late_return_proof cd v message' proof_text = (cd_sha256 cd message' = cd_sha256 cd message)"
    using verified_digest_unique [OF _ assms] verified_by_digest [OF assms] by blast
qed

lemma proof_binds_message_witness:
  "\<exists>signature_hex signature. decode_late_return_proof ex_proof = Inr (lv_key_id ex_verifier, signature_hex)
     \<and> bytes_fromhex signature_hex = Some signature
     \<and> from_bytes signature ^ nat (lv_public_exponent ex_verifier) mod modulus_int ex_verifier
         = from_bytes (padded_digest (length signature) ex_digest)"
  using proof_binds_message [OF ex_proof_verifies [of ex_codec "[]"]] by auto

section \<open>Background attempts\<close>

text \<open>
  C16: every runtime database reached from an empty one by any interleaving of the
  operations satisfies its invariant: an attempt is keyed by its work, the binding is the
  scope of that attempt, a receipt has a verified proof, its exact bytes and a consumed
  verifier, a staged response equals its receipt, metered attempts and their records match.
\<close>
theorem runtime_invariant:
  assumes "runtime_steps cd empty_runtime db"
  shows "runtime_inv cd db"
  using reachable_inv [OF assms] .

lemma runtime_invariant_witness: "runtime_inv ex_codec ex_db5"
  using runtime_invariant [OF ex_reach5] .

text \<open>
  C17: every operation refines the machine of one attempt, for each attempt at once: its
  request only moves forward, its binding appears only when it crosses the provider
  boundary, its receipt and bytes appear once and together for a bound request, its staged
  response appears once and over a receipt.
\<close>
theorem operations_refine_attempt_machine:
  assumes "runtime_step cd db db'" and "runtime_inv cd db"
  shows "view_step (view (rd_attempts db) k) (view (rd_attempts db') k)"
  using runtime_step_inv(2) [OF assms] .

lemma operations_refine_attempt_machine_witness:
  "view_step (view (rd_attempts ex_db3) ex_id) (view (rd_attempts ex_db4) ex_id)"
proof -
  have "runtime_step ex_codec ex_db3 (on_attempts (stage_exact_response ex_codec ex_id (at_second 3) ''p'' ''m''
      ''r'' ex_fingerprint ''x'' (Some (rc_authenticity_proof ex_receipt)) ''e'') ex_db3)"
    by (rule step_stage)
  then have "runtime_step ex_codec ex_db3 ex_db4" by (simp add: on_attempts_def ex_stage) (simp add: ex_db4_def)
  from operations_refine_attempt_machine [OF this ex_inv3(2)] show ?thesis .
qed

text \<open>
  C18: a request leaves at most once: after a dispatch was recorded, whatever happens later,
  the attempt cannot be dispatched again, admission never lets it run again, and its request
  binding is the one written then.
\<close>
theorem dispatched_at_most_once:
  assumes "runtime_inv cd db" and "k = attempt_id_for cd w"
    and "mark_dispatching cd k d fp v (rd_attempts db) = (Inr a, st)"
    and "runtime_steps cd (db\<lparr>rd_attempts := st\<rparr>) db'"
  shows "(\<exists>e. mark_dispatching cd k d' fp' v' (rd_attempts db') = (Inl e, rd_attempts db'))
    \<and> (\<exists>e. fst (admit cd w reason revision d' (rd_attempts db')) = Inl e)
    \<and> binding_row (rd_attempts db') k = binding_row st k \<and> binding_row st k \<noteq> None"
proof -
  note once = dispatched_once [OF assms(1,3,4)]
  obtain b where b: "attempt_row (rd_attempts db') k = Some b" "2 \<le> rank (at_state b)" using once(3) by blast
  show ?thesis
    using crossed_never_dispatches [OF b] crossed_never_admitted [of "rd_attempts db'" cd w b] b once(1,2) assms(2)
    by simp
qed

lemma dispatched_at_most_once_witness:
  "\<exists>e. fst (admit ex_codec ex_work ''why'' 0 (at_second 9) (rd_attempts ex_db5)) = Inl e"
proof -
  have "runtime_steps ex_codec (ex_db1\<lparr>rd_attempts := rd_attempts ex_db2\<rparr>) ex_db5"
    using ex_steps3 ex_steps4 ex_steps5 by (auto simp: runtime_steps_def ex_db2_def)
  from dispatched_at_most_once [OF ex_inv1 ex_id_def ex_dispatch this] show ?thesis by blast
qed

text \<open>
  C19: an attempt that counts as not submitted left nothing behind: in a reachable database
  an admitted or not-submitted attempt has no request binding, no verifier, no receipt, no
  handoff and no staged response.
\<close>
theorem not_submitted_has_no_artifacts:
  assumes "runtime_steps cd empty_runtime db" and "attempt_row (rd_attempts db) k = Some a"
    and "at_state a = Admitted \<or> at_state a = NotSubmitted"
  shows "durable_submission_artifacts (rd_attempts db) k = [] \<and> handoff_row (rd_attempts db) k = None
    \<and> staged_response (rd_attempts db) k = None"
  using unsent_has_no_artifacts [OF assms(1,2)] assms(3) by auto

lemma not_submitted_has_no_artifacts_witness:
  "durable_submission_artifacts (rd_attempts ex_db1) ex_id = []"
proof -
  have "at_state ex_admitted = Admitted" by (simp add: ex_admitted_def)
  then show ?thesis using not_submitted_has_no_artifacts [OF ex_steps1 ex_row1] by simp
qed

text \<open>
  C20: trust comes from outside only: in a reachable database every receipt has, in the
  verifier bound at dispatch, a canonical external authority, and a proof that authority
  signed for exactly the scope and the response of the receipt exists.
\<close>
theorem receipts_are_externally_proven:
  assumes "runtime_steps cd empty_runtime db" and "receipt_row (rd_attempts db) k = Some r"
  shows "\<exists>vr proof_text. return_verifier_row (rd_attempts db) k = Some vr \<and> vr_consumed_at vr \<noteq> None
    \<and> validate_verifier (vr_verifier vr) = Inr (vr_verifier vr)
    \<and> verify_late_return_proof cd (vr_verifier vr) (late_return_message cd (rc_scope r) (rc_response r)) proof_text"
  using receipt_is_proven [OF assms] by metis

lemma receipts_are_externally_proven_witness:
  "\<exists>vr proof_text. return_verifier_row (rd_attempts ex_db3) ex_id = Some vr \<and> vr_consumed_at vr \<noteq> None
    \<and> validate_verifier (vr_verifier vr) = Inr (vr_verifier vr)
    \<and> verify_late_return_proof ex_codec (vr_verifier vr)
        (late_return_message ex_codec (rc_scope ex_receipt) (rc_response ex_receipt)) proof_text"
  using receipts_are_externally_proven [OF ex_reach3 ex_rows3(1)] .

text \<open>
  C21: what attaching a proven return does. The ledger satisfies its invariant, SHA-256 answers 32
  bytes, the attempt was dispatched, its bound verifier row validates and the external proof verifies
  for the scope of that row and the response of the payload, which decodes with a full identity; the
  attempt has no receipt, no other receipt has the same checksum, no argument is blank, and
  the instant is a valid one. Then, whatever a local completion had recorded before: if the attempt
  row is readable and provider, model and request id have no surrounding whitespace, attaching
  succeeds, stages exactly these bytes and makes their identity the provenance of the attempt. If the
  row is readable and one of the three is padded, which the decoder accepts, the receipt becomes
  durable, attaching raises, nothing is staged, and every later attempt to attach these bytes, in
  any ledger, raises as well. If the row cannot be read, attaching raises and writes nothing.
\<close>
theorem verified_return_is_adopted:
  assumes "attempt_inv cd st" and "sha256_codec cd"
    and "attempt_row st k = Some a" and "at_state a \<in> stagable"
    and "return_verifier_row st k = Some vr" and "validate_verifier (vr_verifier vr) = Inr v"
    and "late_response cd payload = Inr response"
    and "verify_late_return_proof cd v (late_return_message cd (vr_scope vr) response) (py_strip proof_text)"
    and "\<forall>q \<in> set (as_receipts st). sc_attempt_id (rc_scope q) \<noteq> k
      \<and> rc_authenticity_proof q \<noteq> receipt_proof cd (vr_scope vr) response"
    and "\<not> blank payload" and "\<not> blank proof_text" and "\<not> blank evidence"
    and "as_utc d ''attached_at'' = Inr t"
  shows "if \<not> readable a
    then attach_late_trusted_return cd k d payload proof_text evidence st = (Inl UnreadableRow, st)
    else if unpadded response
    then \<exists>sg st' a'. attach_late_trusted_return cd k d payload proof_text evidence st = (Inr sg, st')
      \<and> sg_response sg = response \<and> sg_directive_payload sg = payload \<and> staged_response st' k = Some sg
      \<and> attempt_row st' k = Some a' \<and> provenance_of a' = response_provenance response
      \<and> at_state a' = (if at_state a = Metered then Metered else ResponseReturned)
    else (\<exists>e st' r. attach_late_trusted_return cd k d payload proof_text evidence st = (Inl e, st')
        \<and> receipt_row st' k = Some r \<and> rc_response r = response \<and> staged_response st' k = None
        \<and> attempt_row st' k = Some a)
      \<and> (\<forall>d' text' evidence' st''. \<exists>e. fst (attach_late_trusted_return cd k d' payload text' evidence' st'') = Inl e)"
proof (cases "readable a")
  case False
  with attach_unreadable [OF assms(3) False assms(7,10-13)] show ?thesis by simp
next
  case True
  show ?thesis
  proof (cases "unpadded response")
    case ok: True
    from attach_adopts [OF assms(1-3) True assms(4-13) ok] True ok show ?thesis by simp
  next
    case False
    from attach_padded_keeps_receipt [OF assms(1,3) True assms(4-13) False] attach_padded_fails [OF assms(7) False] True False
    show ?thesis by simp
  qed
qed

lemma verified_return_is_adopted_witness:
  "\<exists>sg st'. attach_late_trusted_return ex_codec ex_id (at_second 2) ''x'' ex_proof ''e'' (rd_attempts ex_db2)
    = (Inr sg, st') \<and> staged_response st' ex_id = Some sg"
proof -
  have "py_strip ''p'' = ''p''" "py_strip ''m'' = ''m''" "py_strip ''r'' = ''r''" by code_simp+
  then have pad: "unpadded (ex_response ''p'')" by (simp add: unpadded_def ex_response_def)
  have args: "\<not> blank ''x''" "\<not> blank ''e''" by code_simp+
  have valid: "validate_verifier (vr_verifier ex_verifier_row) = Inr ex_verifier" by (simp add: ex_verifier_valid)
  have fresh: "\<forall>q \<in> set (as_receipts (rd_attempts ex_db2)). sc_attempt_id (rc_scope q) \<noteq> ex_id
      \<and> rc_authenticity_proof q \<noteq> receipt_proof ex_codec (vr_scope ex_verifier_row) (ex_response ''p'')"
    by (simp add: ex_no_receipts)
  have "as_utc (at_second 2) ''attached_at'' = Inr 2000000" by simp
  from verified_return_is_adopted [OF ex_inv2 ex_sha256 ex_row2 ex_dispatched_facts(2) ex_verifier_row2 valid
      ex_late(1) ex_signed fresh args(1) ex_proof_text(2) args(2) this] ex_dispatched_facts(1) pad
  show ?thesis by auto
qed

section \<open>Metering\<close>

text \<open>
  C22: an attempt is metered exactly once: in a reachable database a metered attempt has one
  record in the ledger, and every other attempt has none.
\<close>
theorem metered_exactly_once:
  assumes "runtime_steps cd empty_runtime db"
  shows "length (records_of db k) = (if metered (rd_attempts db) k then 1 else 0)"
  using records_count reachable_inv [OF assms] by (simp add: runtime_inv_def)

lemma metered_exactly_once_witness: "length (records_of ex_db5 ex_id) = 1 \<and> length (records_of ex_db4 ex_id) = 0"
proof -
  obtain a where "attempt_row (rd_attempts ex_db4) ex_id = Some a" "at_state a = ResponseReturned"
    "at_meter_record_id a = None" "at_attempt_id a = ex_id" by (rule ex_returned4)
  then have "metered (rd_attempts ex_db5) ex_id" "\<not> metered (rd_attempts ex_db4) ex_id"
    by (auto simp: metered_def ex_db5_def close_attempt_row)
  then show ?thesis
    using metered_exactly_once [OF ex_reach5, of ex_id] metered_exactly_once [OF ex_reach4, of ex_id] by simp
qed

section \<open>User turns\<close>

text \<open>
  C23: a turn runs at most once plus once per authorized retry: along any run of the turn
  store, the attempts ledger and the world store that starts without a claim of the turn,
  the granted claims are at most one more than the authorizations, and the durable retry
  count is exactly the number of grants after the first.
\<close>
theorem turn_runs_counted:
  assumes "turn_run zones digest cd es db db'" and "turn_of db k = None"
  shows "count_list es (Granted k) \<le> 1 + count_list es (Authorized k)
    \<and> (\<forall>r. turn_of db' k = Some r \<longrightarrow> int (count_list es (Granted k)) = 1 + tx_retry_count r)"
  using turn_run_granted [OF assms]
  by (cases "turn_of db' k") (auto simp: count_list_0_iff split: if_splits)

lemma turn_runs_counted_witness:
  "turn_of (ex_turns empty_runtime) (tq_key ex_turn) = Some ex_turn_row \<and> tx_retry_count ex_turn_row = 0"
proof -
  have "turn_of (empty_turns :: identity_text turn_db) (tq_key ex_turn) = None"
    by (simp add: turn_of_def empty_turns_def)
  moreover have "turn_of (ex_turns empty_runtime) (tq_key ex_turn) = Some ex_turn_row"
    using ex_open by (simp add: open_row_def)
  ultimately show ?thesis using turn_runs_counted [OF ex_turn_run, of "tq_key ex_turn"] by simp
qed

text \<open>
  C24: a retry is authorized only when the ledger proves that no request of the turn left:
  in a reachable database every attempt of the turn then has no binding, verifier, receipt or
  response. The authorization is worth exactly one run: the next claim is granted, the one
  after it is refused.
\<close>
theorem retry_authorized_only_unsent:
  assumes "reachable_turns zones digest cd db" and "authorize_retry cd q evidence db = (Inr s, db')"
  shows "(\<forall>a \<in> set (turn_attempts cd db (tq_key q)).
        durable_submission_artifacts (rd_attempts (td_runtime db)) (at_attempt_id a) = []
        \<and> staged_response (rd_attempts (td_runtime db)) (at_attempt_id a) = None)
    \<and> (\<exists>db''. claim cd q db' = (Inr (), db'') \<and> (\<exists>e. claim cd q db'' = (Inl e, db'')))"
  using authorized_retry [OF assms] by blast

lemma retry_authorized_only_unsent_witness:
  "durable_submission_artifacts (rd_attempts ex_db1) ex_id = []
    \<and> (\<exists>db'' db'. claim ex_codec ex_turn db' = (Inr (), db'' :: identity_text turn_db))"
proof -
  have reach: "reachable_turns all_zones id ex_codec (ex_turns ex_db1)"
    by (rule ex_turns_reachable [OF ex_steps1])
  have "\<not> blank ''e''" by code_simp
  then obtain s where "fst (authorize_retry ex_codec ex_turn ''e'' (ex_turns ex_db1)) = Inr s"
    using authorize_retry_Inr_iff [OF ex_open] ex_unsent1 by blast
  then obtain db' where "authorize_retry ex_codec ex_turn ''e'' (ex_turns ex_db1) = (Inr s, db')"
    by (metis prod.collapse)
  from retry_authorized_only_unsent [OF reach this] show ?thesis
    by (auto simp: ex_attempts1) (auto simp: ex_turns_def ex_admitted_def new_attempt_def)
qed

text \<open>
  C25: a turn with output never runs again: once the assistant object of a turn is in the
  world store, or its execution is completed, every later claim is refused, even after the
  object was pruned and whatever was authorized.
\<close>
theorem finished_turn_never_runs:
  assumes "world_inv zones (td_world db)"
    and "assistant_ref db (tq_assistant_id q) \<noteq> None \<or> (\<exists>r. turn_of db (tq_key q) = Some r \<and> \<not> started r)"
    and "turn_run zones digest cd es db db'"
  shows "\<exists>e. fst (claim cd q db') = Inl e"
  using assms(2) output_stays [OF assms(3,1)] completed_stays [OF assms(3)] claim_refused [of db' q cd] by blast

lemma finished_turn_never_runs_witness:
  "\<exists>e. fst (claim ex_codec (ex_turn\<lparr>tq_assistant_id := ''a''\<rparr>) ((ex_turns ex_db1)\<lparr>td_world := store1\<rparr>)) = Inl e"
proof (rule finished_turn_never_runs [OF _ disjI1 turn_run_Nil])
  show "world_inv all_zones (td_world ((ex_turns ex_db1)\<lparr>td_world := store1\<rparr>))" using example_inv(1) by simp
  have "latest_revision store1 ''a'' \<noteq> None" by code_simp
  then show "assistant_ref ((ex_turns ex_db1)\<lparr>td_world := store1\<rparr>) (tq_assistant_id (ex_turn\<lparr>tq_assistant_id := ''a''\<rparr>)) \<noteq> None"
    by (simp add: assistant_ref_def)
qed

text \<open>
  C26: a grant stays within every cap: when the gate lets an autonomous wake run under daily
  policies, no policy caps tokens, every wake cap has room for one more wake, and the calls
  reserved for the run fit under every call cap, together with the calls already used and with
  the reservations of all other wakes that are running in the window.
\<close>
theorem budget_within_caps:
  assumes "evaluate_budget env subject st rt x now rounds full = Inr d" and "bd_applies d" and "bd_available d"
    and "policies env subject st = Inr xs" and "p \<in> snd ` set xs"
    and "listed st OT_WAKE subject = Inr ps" and "gate_window now = Inr (start, stop)"
  shows "bgp_max_tokens p = None \<and> bd_reserved_model_calls d \<le> rounds
    \<and> (\<forall>m. bgp_max_wakes p = Some m \<longrightarrow> bd_used_wakes d + 1 \<le> m)
    \<and> (\<forall>c. bgp_max_model_calls p = Some c \<longrightarrow> 1 \<le> bd_reserved_model_calls d
        \<and> bd_used_model_calls d + bd_reserved_model_calls d \<le> c
        \<and> sum_list (map (reserved_calls env start stop (wo_object_id (fst x))) ps)
            + bd_reserved_model_calls d \<le> c)"
  using granted_within_caps [OF assms] by blast

lemma budget_within_caps_witness:
  "\<exists>d. ex_evaluate budget_store = Inr d \<and> bd_available d \<and> bd_reserved_model_calls d = 4
    \<and> sum_list (map (reserved_calls ex_env 0 day_length ''w2'')
        [PayloadObject ex_running, PayloadObject (fst ex_queued)]) + 4 \<le> 10"
proof -
  obtain d where d: "ex_evaluate budget_store = Inr d" "bd_applies d" "bd_available d" "bd_reserved_model_calls d = 4"
    using ex_granted by (auto split: sum.splits)
  have "ex_policy \<in> snd ` set [(plain_object ''bp'' 1 (BudgetPolicy ex_policy), ex_policy)]" by simp
  from budget_within_caps [OF d(1-3) ex_policies(1) this ex_wakes ex_window] d show ?thesis
    by (simp add: ex_policy_def) (simp add: ex_queued_def plain_object_def)
qed

section \<open>The turn loop\<close>

text \<open>
  C27: a turn does bounded work: whatever the model and the tools answer or raise, a turn costs
  at most what its model rounds and its budget of capability calls allow, for every measure of
  cost that a model call raises by at most \<open>a\<close>, a capability by at most \<open>b\<close> and no other callback.
\<close>
theorem turn_cost_bounded:
  assumes "construct_runtime rt = Inr rt" and "costs rt cost a b"
  shows "cost (snd (run_turn te rt user_input reason cockpit limit offset w))
    \<le> cost w + a * nat (effective_model_rounds rt limit) + b * nat (cr_max_total_capability_calls rt)"
  using run_turn_cost [OF assms(2,1)] .

lemma turn_cost_bounded_witness: "ex_cost (snd ex_turn_of) \<le> 100 * 5 + 7 * 12"
  using turn_cost_bounded [OF ex_constructed ex_costs, of ex_text_env "''hi''" "''user_interaction''" "[]" None 0 ex_world]
  by (simp add: ex_turn_of_def effective_model_rounds_def normal_model_rounds_def ex_cost_def ex_world_def)
    (simp add: ex_runtime_def)

text \<open>
  C28: only the authorizer lets side effects happen: what the callbacks, the model, the reading
  capabilities and every capability execution right after a positive answer of the authorizer
  keep, a turn keeps, however it ends.
\<close>
theorem side_effects_authorized:
  assumes "guarded rt P" and "P w"
  shows "P (snd (run_turn te rt user_input reason cockpit limit offset w))"
  using run_turn_keeps [OF assms] .

lemma side_effects_authorized_witness: "ex_granted (snd ex_turn_of) \<and> lw_writes (snd ex_turn_of) = 1"
proof -
  have "ex_granted ex_world" by (simp add: ex_granted_def ex_world_def)
  from side_effects_authorized [OF ex_guarded this] ex_loop_run show ?thesis
    unfolding ex_turn_of_def by (metis loop_world.select_convs(3) snd_conv)
qed

text \<open>
  C29: well-typed callables give a well-formed result: when the callbacks answer and every
  directive passed its constructor, a turn returns within its rounds with a non-blank response,
  silence, or a named exhausted budget, and never reaches the assertion behind the loop.
\<close>
theorem turn_result_well_formed:
  assumes "construct_runtime rt = Inr rt" and "answering rt" and "\<not> blank user_input" and "0 \<le> offset"
    and "case limit of None \<Rightarrow> True | Some n \<Rightarrow> 1 \<le> n"
  shows "\<exists>r w'. run_turn te rt user_input reason cockpit limit offset w = (Inr r, w')
    \<and> ends_well (effective_model_rounds rt limit) r"
  by (rule run_turn_answers [OF assms(2,1,3,4)]) (use assms(5) in simp)

lemma turn_result_well_formed_witness: "\<exists>r w'. ex_turn_of = (Inr r, w') \<and> ends_well 5 r"
proof -
  have "\<not> blank ''hi''" by code_simp
  from turn_result_well_formed [OF ex_constructed ex_answering this, of 0 None] show ?thesis
    by (simp add: ex_turn_of_def effective_model_rounds_def normal_model_rounds_def) (simp add: ex_runtime_def)
qed

section \<open>Conversations\<close>

text \<open>
  C30: the first turn of a slot is final: as long as its session is not reset, every later
  append of the slot answers the first turn when it has the same content and is refused
  otherwise, and changes nothing, for a digest without collisions.
\<close>
theorem turn_slot_sealed:
  assumes "append_turn digest c t = (Inr s, t')"
    and "(timeline_change digest (ct_subject_id c, ct_session_id c))\<^sup>*\<^sup>* t' t''"
    and "inj digest" and "first_raise (validate_turn d) = None" and "ct_turn_index d = ct_turn_index c"
    and "(ct_subject_id d, ct_session_id d) = (ct_subject_id c, ct_session_id c)"
  shows "append_turn digest d t'' = (if durable_turn d = durable_turn c then Inr (durable_turn c)
      else Inl (ConvConflict (ct_turn_index c)), t'')"
  using sealed_slot [OF assms] .

lemma turn_slot_sealed_witness:
  "append_turn id (ex_talk 1 ''t1'' ''no'') ex_timeline2 = (Inl (ConvConflict 1), ex_timeline2)"
proof -
  have "first_raise (validate_turn (ex_talk 1 ''t1'' ''no'')) = None" by code_simp
  with turn_slot_sealed [OF ex_talk_first, of ex_timeline2 "ex_talk 1 ''t1'' ''no''"] ex_talk_later show ?thesis
    by (simp add: ex_talk_def durable_turn_def)
qed

section \<open>Wakes\<close>

text \<open>
  C31: the life of a wake: along any run of the bus and of commits without wakes, the trigger
  of a wake stays, its hits, priority and evidence only grow, and a wake that was completed,
  suppressed, cancelled or merged never changes again.
\<close>
theorem wake_life:
  assumes "world_inv (sv_zones env) st" and "(bus_step env)\<^sup>*\<^sup>* st st'" and "wake_now st oid = Some w"
  shows "(\<exists>w'. wake_now st' oid = Some w' \<and> same_trigger w w')
    \<and> (wak_wake_state w \<in> {WK_NEW, WK_QUEUED, WK_RUNNING} \<or> wake_now st' oid = Some w)"
  using trigger_kept [OF assms] terminal_kept [OF assms] by (auto simp: live_def)

lemma wake_life_witness:
  "wake_now wake_store4 ex_wake_id = wake_now wake_store3 ex_wake_id \<and> wake_now wake_store3 ex_wake_id \<noteq> None"
proof -
  obtain w where w: "wake_now wake_store3 ex_wake_id = Some w" "wak_wake_state w = WK_COMPLETED"
    using ex_completed by auto
  from wake_life [OF ex_completed_world r_into_rtranclp [where r = "bus_step ex_service", OF ex_bus(4)] w(1)] w
  show ?thesis by simp
qed

text \<open>
  C32: a repeated signal. After an emission wrote a wake, take any run of the bus, interleaved with
  commits without wakes, whose signals have no padded rule or key and whose claims do not replace
  the signal ids of a wake, and emit the same signal again with any call context. If its own rule and
  key have no surrounding whitespace, the repeat answers the wake of the first emission, neither
  merged nor suppressed, and writes nothing. If one of them is padded, and the triggers in the store
  are stripped as the bus stores them and the digest of a request has no collision, the
  repeat raises and writes nothing.
\<close>
theorem repeated_signal_counts_once:
  assumes "world_inv (sv_zones env) st" and "emit env ck subject q st = (Inr r, st')" and "st' \<noteq> st"
    and "(plain_step env)\<^sup>*\<^sup>* st' st''"
  shows "(\<not> padded q \<longrightarrow> (\<exists>r'. emit env ck' subject q st'' = (Inr r', st'') \<and> wr_wake_id r' = wr_wake_id r
      \<and> \<not> wr_merged r' \<and> \<not> wr_suppressed r'))
    \<and> (padded q \<and> all_stripped st \<and> inj (sv_digest env) \<longrightarrow> (\<exists>e. emit env ck' subject q st'' = (Inl e, st'')))"
  using retry_counted [OF assms(1) _ assms(2-4)] padded_retry_fails [OF assms(1) _ _ _ assms(2,3) plain_steps_bus [OF assms(4)]]
  by blast

lemma repeated_signal_counts_once_witness:
  "(\<exists>r'. ex_emit 7 ''r'' 100 wake_store3 = (Inr r', wake_store3) \<and> wr_wake_id r' = ex_wake_id)
    \<and> (\<exists>e. ex_emit 7 '' r'' 100 padded_store = (Inl e, padded_store))"
proof
  obtain r where r: "ex_emit 1 ''r'' 100 store1 = (Inr r, wake_store1)" "wake_store1 \<noteq> store1"
    by (rule ex_emitted)
  have "\<not> padded (ex_signal ''r'' 100)" by code_simp
  with repeated_signal_counts_once [OF ex_service_world(1) r(1) [unfolded ex_emit_def] r(2) ex_plain, of "ex_call 7"]
  show "\<exists>r'. ex_emit 7 ''r'' 100 wake_store3 = (Inr r', wake_store3) \<and> wr_wake_id r' = ex_wake_id"
    using r(1) by (auto simp: ex_emit_def ex_wake_id_def)
next
  obtain r where r: "ex_emit 1 '' r'' 100 store1 = (Inr r, padded_store)" "padded_store \<noteq> store1"
    by (rule ex_emitted_padded)
  have "padded (ex_signal '' r'' 100)" by code_simp
  with repeated_signal_counts_once [OF ex_service_world(1) r(1) [unfolded ex_emit_def] r(2) rtranclp.rtrancl_refl, of "ex_call 7"]
    ex_no_wakes ex_service_world(2)
  show "\<exists>e. ex_emit 7 '' r'' 100 padded_store = (Inl e, padded_store)" by (simp add: ex_emit_def)
qed

section \<open>Policies\<close>



text \<open>
  C34: when a call of the AI changes the store, it named evidence, and every reference of it pins the
  newest version of an active object of the subject that is a real result: an observation, an
  outcome or the like, and not an output of the assistant.
\<close>
theorem ai_change_has_evidence:
  assumes "world_inv (sv_zones env) st" and "call_policy env ck subject call t True st = (r, st')" and "st' \<noteq> st"
  shows "call_evidence call \<noteq> [] \<and> set (call_evidence call) \<subseteq> Collect (real_case env subject st)"
  using ai_change_evidence [OF assms] by blast

lemma ai_change_has_evidence_witness:
  "ledger1 \<noteq> ledger0 \<and> set (call_evidence registering) \<subseteq> Collect (real_case ledger_env ''s'' ledger0)"
proof -
  have "world_inv (sv_zones ledger_env) ledger0" using ledger_inv(1) by (simp add: ledger_env_def)
  moreover obtain r where "ledger_does ''l1'' registering 100 True ledger0 = (r, ledger1)"
    using ledger1_registered by (metis prod.collapse)
  ultimately show ?thesis using ai_change_has_evidence ledgers_differ(1) by blast
qed

text \<open>
  C35: an update that was applied is never applied twice. After any run of registry calls and commits
  of other services, the same request at the same time, by an operator or the AI, writes nothing. When
  the value of the request holds no typed reference and the operation id of the call is not blank, the
  answer is the first receipt if the request still passes the checks of an update, which read
  the policy and its evidence as they are now and come before the replay, and otherwise exactly the
  error of these checks; so a repeat after its evidence was superseded raises.
\<close>
theorem applied_update_recovered:
  assumes "world_inv (sv_zones env) st" and "update_policy env ck subject q t ai st = (Inr receipt, st')" and "st' \<noteq> st"
    and "(registry_step env)\<^sup>*\<^sup>* st' st''"
  shows "snd (update_policy env ck2 subject q t ai2 st'') = st''
    \<and> (durable_value (pur_current_value q) = pur_current_value q \<and> \<not> blank (ck_operation_id ck2) \<longrightarrow>
        fst (update_policy env ck2 subject q t ai2 st'')
          = (case plan_update env ck2 subject q t ai2 st'' of Inl e \<Rightarrow> Inl e | Inr _ \<Rightarrow> Inr receipt))"
  using repeat_writes_nothing [OF assms] repeat_decided [OF assms(1-3) _ assms(4)] by (simp split: sum.splits)

lemma applied_update_recovered_witness:
  "update_policy ledger_env (ledger_call ''l5'') ''s'' (threshold_update 5) (utc_datetime 700) True ledger2
    = (fst (update_policy ledger_env (ledger_call ''l2'') ''s'' (threshold_update 5) (utc_datetime 700) True ledger1), ledger2)"
proof -
  obtain receipt where 1: "update_policy ledger_env (ledger_call ''l2'') ''s'' (threshold_update 5) (utc_datetime 700) True ledger1
      = (Inr receipt, ledger2)" using ledger2_updated by auto
  obtain p where 2: "plan_update ledger_env (ledger_call ''l5'') ''s'' (threshold_update 5) (utc_datetime 700) True ledger2 = Inr p"
    using ledger2_again by blast
  have "world_inv (sv_zones ledger_env) ledger1" using ledger_inv(2) by (simp add: ledger_env_def)
  from applied_update_recovered [OF this 1 ledgers_differ(2) rtranclp.rtrancl_refl, of "ledger_call ''l5''" True]
  have "snd (update_policy ledger_env (ledger_call ''l5'') ''s'' (threshold_update 5) (utc_datetime 700) True ledger2) = ledger2"
    and "durable_value (pur_current_value (threshold_update 5)) = pur_current_value (threshold_update 5)
      \<and> \<not> blank (ck_operation_id (ledger_call ''l5'')) \<longrightarrow>
      fst (update_policy ledger_env (ledger_call ''l5'') ''s'' (threshold_update 5) (utc_datetime 700) True ledger2) = Inr receipt"
    by (simp_all add: 2)
  moreover have "durable_value (pur_current_value (threshold_update 5)) = pur_current_value (threshold_update 5)"
    and "\<not> blank (ck_operation_id (ledger_call ''l5''))" by code_simp+
  ultimately show ?thesis by (simp add: 1 prod_eq_iff)
qed

section \<open>Evidence\<close>

text \<open>
  C36: evidence is accepted exactly when it is not empty, every reference is pinned, every version
  of its support closure resolves cleanly, none supports itself, and some reality source is
  reached without an AI assertion above it; the grounding leaves of the verdict are then exactly
  those sources.
\<close>
theorem evidence_policy_decides:
  "validate_evidence_policy env ep refs st = Inr v \<longleftrightarrow>
     refs \<noteq> [] \<and> None \<notin> ref_revision ` set refs \<and> derive_lineage_for_refs env ep refs st = Inr v \<and>
     (\<exists>deps. support_dependencies env ep st = Inr deps
        \<and> sound_graph (lineage_node_of env ep deps st) (ref_roots refs)
        \<and> open_reality (lineage_node_of env ep deps st) (ref_roots refs) \<noteq> {}
        \<and> set (lv_grounding_leaf_refs v) = key_ref_of ` open_reality (lineage_node_of env ep deps st) (ref_roots refs))"
  by (rule evidence_verdict)

section \<open>Revisions\<close>

text \<open>
  C37: an invalidation plan covers exactly the versions that reach the superseded one along the
  dependencies of the private world, the superseded version itself excepted: those that are still the
  newest version of an object of that world are marked, the others are skipped, each once.
\<close>
theorem invalidation_plan_exact:
  assumes "plan_invalidation env changed t reason subjects st = Inr plan"
  shows "\<exists>deps k. scoped_dependencies env subjects st = Inr deps \<and> changed = key_ref k
    \<and> set (iv_stale_refs plan) = impacted deps k \<inter> Collect (current_version subjects st)
    \<and> set (iv_skipped_refs plan) = impacted deps k - Collect (current_version subjects st)
    \<and> distinct (iv_stale_refs plan @ iv_skipped_refs plan)"
  using plan_invalidation_exact [OF assms] .

lemma invalidation_plan_exact_witness:
  "\<exists>deps k. scoped_dependencies ledger_env {''s''} claims_store = Inr deps
    \<and> {(''c2'', 1)} = impacted deps k \<inter> Collect (current_version {''s''} claims_store)"
proof -
  obtain plan where "plan_invalidation ledger_env (oref ''c'' (Some 1)) 100 ''r'' {''s''} claims_store = Inr plan"
    and stale: "iv_stale_refs plan = [(''c2'', 1)]" using retraction_plan by blast
  from invalidation_plan_exact [OF this(1)] stale show ?thesis by auto
qed

text \<open>
  C38: an applied revision replaces the current claim of the subject, which was not retracted, by its
  next version, active or retracted as the request says; and the evidence of the request was sound
  and grounded in reality when it was applied.
\<close>
theorem revision_replaces_current_claim:
  assumes "world_inv (sv_zones env) st" and "ref_revision (crq_target_ref q) \<noteq> None"
    and "apply_revision env ck sv q changed_at st = (r, st')" and "st' \<noteq> st"
  shows "(\<exists>ob c new t ev counter receipt. newest_object st (target_id q) = Some ob \<and> wo_revision ob = target_revision q
      \<and> wo_body ob = Claim c \<and> wo_subject_id ob = rvs_subject_id sv \<and> wo_status ob \<noteq> ''retracted''
      \<and> newest_object st' (target_id q) = Some new \<and> wo_revision new = target_revision q + 1
      \<and> wo_body new = Claim (revised_claim q c t ev counter)
      \<and> wo_status new = (case crq_mode q of Revise \<Rightarrow> ''active'' | Retract \<Rightarrow> ''retracted'')
      \<and> r = Inr receipt \<and> crr_new_revision receipt = target_revision q + 1)
    \<and> (\<exists>deps. support_dependencies env (rvs_evidence_policy sv) st = Inr deps
      \<and> sound_graph (lineage_node_of env (rvs_evidence_policy sv) deps st) (ref_roots (crq_evidence_refs q))
      \<and> open_reality (lineage_node_of env (rvs_evidence_policy sv) deps st) (ref_roots (crq_evidence_refs q)) \<noteq> {})"
  using revision_replaces [OF assms] revision_grounded [OF assms] by (rule conjI)

lemma revision_replaces_current_claim_witness:
  "\<exists>new. newest_object retracted_store ''c'' = Some new \<and> wo_revision new = 2 \<and> wo_status new = ''retracted''"
proof -
  have "ref_revision (crq_target_ref retraction) \<noteq> None" by (simp add: retraction_pinned)
  from revision_replaces_current_claim [OF claims_inv this retracted(1,2)]
  show ?thesis by (auto simp: retraction_def target_revision_def)
qed

text \<open>
  C39: after an applied revision no current version depends on the old claim unnoticed: every version
  that reached it along the dependencies of the private world, and was still the newest one, has a
  next version marked for review that names the old claim.
\<close>
theorem revision_marks_every_dependent:
  assumes "world_inv (sv_zones env) st" and "ref_revision (crq_target_ref q) \<noteq> None"
    and "apply_revision env ck sv q changed_at st = (r, st')" and "st' \<noteq> st"
  shows "\<exists>deps. scoped_dependencies env (revision_scope sv) st = Inr deps
    \<and> (\<forall>k \<in> impacted deps (target_id q, target_revision q) \<inter> Collect (current_version (revision_scope sv) st).
         \<exists>ob. newest_object st' (fst k) = Some ob \<and> wo_revision ob = snd k + 1 \<and> review_marker (crq_target_ref q) ob)"
  using revision_marks [OF assms] .

lemma revision_marks_every_dependent_witness:
  "\<exists>ob. newest_object retracted_store ''c2'' = Some ob \<and> wo_revision ob = 2 \<and> wo_status ob = ''stale_review_required''"
proof -
  have "ref_revision (crq_target_ref retraction) \<noteq> None" by (simp add: retraction_pinned)
  from revision_marks_every_dependent [OF claims_inv this retracted(1,2)] obtain deps where
    deps: "scoped_dependencies ledger_env {''s''} claims_store = Inr deps"
    and marked: "\<forall>k \<in> impacted deps (''c'', 1) \<inter> Collect (current_version {''s''} claims_store).
         \<exists>ob. newest_object retracted_store (fst k) = Some ob \<and> wo_revision ob = snd k + 1
           \<and> review_marker (oref ''c'' (Some 1)) ob"
    by (auto simp: retraction_def target_revision_def revision_scope_def reviser_def)
  obtain plan where plan: "plan_invalidation ledger_env (oref ''c'' (Some 1)) 100 ''r'' {''s''} claims_store = Inr plan"
    and "iv_stale_refs plan = [(''c2'', 1)]" using retraction_plan by blast
  with plan_invalidation_exact [OF plan] deps
  have "(''c2'', 1) \<in> impacted deps (''c'', 1) \<inter> Collect (current_version {''s''} claims_store)"
    by (auto simp: key_ref_def)
  from bspec [OF marked this] show ?thesis by (auto simp: review_marker_def)
qed

text \<open>
  C40: an applied revision is never applied twice: after any run of the world the same request answers
  the same claim version, evidence set, marked versions and world revision, and writes nothing; only
  the list of skipped versions, which no commit records, is empty then.
\<close>
theorem applied_revision_recovered:
  assumes "world_inv (sv_zones env) st" and "ref_revision (crq_target_ref q) = Some v"
    and "apply_revision env ck sv q changed_at st = (Inr receipt, st')" and "st' \<noteq> st"
    and "world_steps (sv_zones env) (sv_digest env) st' st''"
  shows "apply_revision env ck2 sv q changed_at st'' = (Inr (receipt\<lparr>crr_skipped_refs := []\<rparr>), st'')"
  using revision_recovered [OF assms] .

lemma applied_revision_recovered_witness:
  "retracting ''again'' retracted_store = (Inr retraction_receipt, retracted_store)"
proof -
  have "retraction_receipt\<lparr>crr_skipped_refs := []\<rparr> = retraction_receipt" by (simp add: retraction_receipt_def)
  with applied_revision_recovered [OF claims_inv retraction_pinned retracted(1,2) rtranclp.rtrancl_refl]
  show ?thesis by simp
qed

end
